(* ===== verification/Js_Prelude.thy ===== *)
theory Js_Prelude imports "HOL-Library.Multiset" begin

text \<open>
  Shared vocabulary of the development: the JavaScript values the code handles (numbers,
  JSON values), the character classes and regular expressions it tests strings against,
  stable sorting with a comparator, and the generic lemmas the component theories share.

  \<^item> A \<open>string\<close> is a list of characters; the code units the program handles are the
    printable ASCII ones, so \<open>length\<close> is JavaScript's \<open>length\<close>.
  \<^item> A number (\<open>jsnum\<close>) is an integer-valued double, a non-integer one given by its
    shortest decimal (\<open>Decimal m k\<close> is \<open>m / 10^k\<close>), NaN, or an infinity.
  \<^item> A JSON value keeps an object's entries in insertion order.
\<close>

named_theorems js_regex \<comment> \<open>definitions of the regular expressions\<close>
named_theorems js_codec \<comment> \<open>facts about printing and parsing\<close>

section \<open>Numbers\<close>

datatype jsnum = Integer int | Decimal int nat | NotANumber | Infinite bool

definition max_safe :: int where
  "max_safe = 9007199254740991"

fun isSafeInteger :: "jsnum \<Rightarrow> bool" where
  "isSafeInteger (Integer i) = (\<bar>i\<bar> \<le> max_safe)"
| "isSafeInteger _ = False"

fun the_int :: "jsnum \<Rightarrow> int" where
  "the_int (Integer i) = i"
| "the_int _ = 0"

text \<open>A comparison with an integer bound; NaN compares false.\<close>

fun num_ge :: "jsnum \<Rightarrow> int \<Rightarrow> bool" where
  "num_ge (Integer i) b = (b \<le> i)"
| "num_ge (Decimal m k) b = (b * 10 ^ k \<le> m)"
| "num_ge NotANumber b = False"
| "num_ge (Infinite p) b = p"

fun num_le :: "jsnum \<Rightarrow> int \<Rightarrow> bool" where
  "num_le (Integer i) b = (i \<le> b)"
| "num_le (Decimal m k) b = (m \<le> b * 10 ^ k)"
| "num_le NotANumber b = False"
| "num_le (Infinite p) b = (\<not> p)"

text \<open>\<open>safe_in lo hi n\<close>: a safe integer of the interval, the shape of most of the code's checks.\<close>

definition safe_ge :: "int \<Rightarrow> jsnum \<Rightarrow> bool" where
  "safe_ge lo n = (isSafeInteger n \<and> num_ge n lo)"

lemma safe_ge_Int [simp]: "safe_ge lo (Integer i) = (\<bar>i\<bar> \<le> max_safe \<and> lo \<le> i)"
  by (simp add: safe_ge_def)

lemma isSafeInteger_Int: "isSafeInteger n \<longleftrightarrow> (\<exists>i. n = Integer i \<and> \<bar>i\<bar> \<le> max_safe)"
  by (cases n) auto

lemma safe_geE:
  assumes "safe_ge lo n"
  obtains i where "n = Integer i" "lo \<le> i" "\<bar>i\<bar> \<le> max_safe"
  using assms by (auto simp: safe_ge_def isSafeInteger_Int)

section \<open>JSON values\<close>

datatype json =
    JNull
  | JBool bool
  | JNum jsnum
  | JStr string
  | JArr "json list"
  | JObj "(string \<times> json) list"

fun isRecord :: "json \<Rightarrow> bool" where
  "isRecord (JObj _) = True"
| "isRecord _ = False"

text \<open>\<open>Object.keys\<close>, and reading a property: \<open>None\<close> is \<open>undefined\<close>.\<close>

fun keys_of :: "json \<Rightarrow> string list" where
  "keys_of (JObj kvs) = map fst kvs"
| "keys_of _ = []"

fun field :: "json \<Rightarrow> string \<Rightarrow> json option" where
  "field (JObj kvs) k = map_of kvs k"
| "field _ _ = None"

fun as_str :: "json option \<Rightarrow> string option" where
  "as_str (Some (JStr s)) = Some s"
| "as_str _ = None"

fun as_num :: "json option \<Rightarrow> jsnum option" where
  "as_num (Some (JNum n)) = Some n"
| "as_num _ = None"

fun as_bool :: "json option \<Rightarrow> bool option" where
  "as_bool (Some (JBool b)) = Some b"
| "as_bool _ = None"

definition is_str :: "json option \<Rightarrow> (string \<Rightarrow> bool) \<Rightarrow> bool" where
  "is_str v p = (case as_str v of None \<Rightarrow> False | Some s \<Rightarrow> p s)"

definition is_num :: "json option \<Rightarrow> (jsnum \<Rightarrow> bool) \<Rightarrow> bool" where
  "is_num v p = (case as_num v of None \<Rightarrow> False | Some n \<Rightarrow> p n)"

lemma as_str_Some [simp]: "as_str v = Some s \<longleftrightarrow> v = Some (JStr s)"
  by (cases v rule: as_str.cases) auto

lemma as_num_Some [simp]: "as_num v = Some n \<longleftrightarrow> v = Some (JNum n)"
  by (cases v rule: as_num.cases) auto

lemma as_bool_Some [simp]: "as_bool v = Some b \<longleftrightarrow> v = Some (JBool b)"
  by (cases v rule: as_bool.cases) auto

lemma is_str_Some [simp]: "is_str (Some (JStr s)) p = p s"
  by (simp add: is_str_def)

lemma is_num_Some [simp]: "is_num (Some (JNum n)) p = p n"
  by (simp add: is_num_def)

lemma is_strE:
  assumes "is_str v p"
  obtains s where "v = Some (JStr s)" "p s"
  using assms by (auto simp: is_str_def split: option.splits)

lemma is_numE:
  assumes "is_num v p"
  obtains n where "v = Some (JNum n)" "p n"
  using assms by (auto simp: is_num_def split: option.splits)

text \<open>
  The keys of an object are exactly the given ones: same number, each one allowed. An object has
  each of its keys once.
\<close>

definition exact_keys :: "json \<Rightarrow> string list \<Rightarrow> bool" where
  "exact_keys v ks = (isRecord v \<and> distinct (keys_of v) \<and> length (keys_of v) = length ks
     \<and> list_all (\<lambda>k. k \<in> set ks) (keys_of v))"

lemma exact_keys_set:
  assumes "exact_keys v ks" "distinct ks"
  shows "set (keys_of v) = set ks"
  using assms by (intro card_subset_eq) (auto simp: exact_keys_def list_all_iff distinct_card)

section \<open>Character classes and regular expressions\<close>

definition digits :: string where "digits = ''0123456789''"
definition lowers :: string where "lowers = ''abcdefghijklmnopqrstuvwxyz''"
definition uppers :: string where "uppers = ''ABCDEFGHIJKLMNOPQRSTUVWXYZ''"
definition hexes :: string where "hexes = ''0123456789abcdef''"

definition is_digit :: "char \<Rightarrow> bool" where "is_digit c = (c \<in> set digits)"
definition is_lower :: "char \<Rightarrow> bool" where "is_lower c = (c \<in> set lowers)"
definition is_upper :: "char \<Rightarrow> bool" where "is_upper c = (c \<in> set uppers)"
definition is_alnum :: "char \<Rightarrow> bool" where "is_alnum c = (is_digit c \<or> is_lower c \<or> is_upper c)"
definition is_hex :: "char \<Rightarrow> bool" where "is_hex c = (c \<in> set hexes)"

definition char_code :: "char \<Rightarrow> nat" where "char_code c = of_char c"
definition is_graph :: "char \<Rightarrow> bool" where
  "is_graph c = (33 \<le> char_code c \<and> char_code c \<le> 126)"

text \<open>\<open>/^F T{0,n}$/u\<close>: one first character, then at most \<open>n\<close> tail characters.\<close>

definition head_tail :: "(char \<Rightarrow> bool) \<Rightarrow> (char \<Rightarrow> bool) \<Rightarrow> nat \<Rightarrow> string \<Rightarrow> bool" where
  "head_tail first rest n s =
     (case s of [] \<Rightarrow> False | c # cs \<Rightarrow> first c \<and> length cs \<le> n \<and> list_all rest cs)"

text \<open>\<open>/^C{lo,hi}$/u\<close>\<close>

definition all_chars :: "(char \<Rightarrow> bool) \<Rightarrow> nat \<Rightarrow> nat \<Rightarrow> string \<Rightarrow> bool" where
  "all_chars p lo hi s = (lo \<le> length s \<and> length s \<le> hi \<and> list_all p s)"

definition id_tail :: "char \<Rightarrow> bool" where \<comment> \<open>\<open>[A-Za-z0-9._:-]\<close>\<close>
  "id_tail c = (is_alnum c \<or> c \<in> set ''._:-'')"

definition path_tail :: "char \<Rightarrow> bool" where \<comment> \<open>\<open>[A-Za-z0-9._:/-]\<close>\<close>
  "path_tail c = (is_alnum c \<or> c \<in> set ''._:/-'')"

definition id_pattern :: "nat \<Rightarrow> string \<Rightarrow> bool" where \<comment> \<open>\<open>/^[A-Za-z0-9][A-Za-z0-9._:-]{0,n}$/u\<close>\<close>
  "id_pattern n = head_tail is_alnum id_tail n"

definition path_pattern :: "nat \<Rightarrow> string \<Rightarrow> bool" where \<comment> \<open>\<open>/^[A-Za-z0-9][A-Za-z0-9._:/-]{0,n}$/u\<close>\<close>
  "path_pattern n = head_tail is_alnum path_tail n"

definition sha256_pattern :: "string \<Rightarrow> bool" where \<comment> \<open>\<open>/^[0-9a-f]{64}$/u\<close>\<close>
  "sha256_pattern = all_chars is_hex 64 64"

definition sha1_pattern :: "string \<Rightarrow> bool" where \<comment> \<open>\<open>/^[0-9a-f]{40}$/u\<close>\<close>
  "sha1_pattern = all_chars is_hex 40 40"

definition currency_pattern :: "string \<Rightarrow> bool" where \<comment> \<open>\<open>/^[A-Z]{3}$/u\<close>\<close>
  "currency_pattern = all_chars is_upper 3 3"

lemmas char_class_defs = digits_def lowers_def uppers_def hexes_def is_digit_def is_lower_def
  is_upper_def is_alnum_def is_hex_def id_tail_def path_tail_def char_code_def is_graph_def

lemmas [js_regex] = char_class_defs head_tail_def all_chars_def id_pattern_def path_pattern_def
  sha256_pattern_def sha1_pattern_def currency_pattern_def

lemma head_tail_nonempty: "head_tail f r n s \<Longrightarrow> s \<noteq> []"
  by (cases s) (auto simp: head_tail_def)

lemma head_tail_mono:
  "head_tail f r n s \<Longrightarrow> n \<le> m \<Longrightarrow> (\<And>c. r c \<Longrightarrow> r' c) \<Longrightarrow> head_tail f r' m s"
  by (cases s) (auto simp: head_tail_def list_all_iff)

lemma id_pattern_nonempty: "id_pattern n s \<Longrightarrow> s \<noteq> []"
  by (simp add: id_pattern_def head_tail_nonempty)

lemma sha256_length: "sha256_pattern s \<Longrightarrow> length s = 64"
  by (simp add: sha256_pattern_def all_chars_def)

section \<open>Stable sorting with a comparator\<close>

text \<open>
  \<open>Array.prototype.sort\<close> is stable; for a total preorder the stable result is unique, so an
  insertion sort computes it.
\<close>

fun insert_by :: "('a \<Rightarrow> 'a \<Rightarrow> bool) \<Rightarrow> 'a \<Rightarrow> 'a list \<Rightarrow> 'a list" where
  "insert_by le x [] = [x]"
| "insert_by le x (y # ys) = (if le x y then x # y # ys else y # insert_by le x ys)"

fun sort_by :: "('a \<Rightarrow> 'a \<Rightarrow> bool) \<Rightarrow> 'a list \<Rightarrow> 'a list" where
  "sort_by le [] = []"
| "sort_by le (x # xs) = insert_by le x (sort_by le xs)"

lemma set_insert_by [simp]: "set (insert_by le x ys) = insert x (set ys)"
  by (induction ys) auto

lemma set_sort_by [simp]: "set (sort_by le xs) = set xs"
  by (induction xs) auto

lemma length_insert_by [simp]: "length (insert_by le x ys) = Suc (length ys)"
  by (induction ys) auto

lemma length_sort_by [simp]: "length (sort_by le xs) = length xs"
  by (induction xs) auto

lemma distinct_insert_by: "distinct (map f (insert_by le x ys)) = distinct (map f (x # ys))"
  by (induction ys) auto

lemma distinct_sort_by: "distinct (map f (sort_by le xs)) = distinct (map f xs)"
  by (induction xs) (auto simp: distinct_insert_by)

lemma sorted_wrt_insert_by:
  assumes tot: "\<And>a b. le a b \<or> le b a" and trans: "\<And>a b c. le a b \<Longrightarrow> le b c \<Longrightarrow> le a c"
    and "sorted_wrt le ys"
  shows "sorted_wrt le (insert_by le x ys)"
  using assms(3)
proof (induction ys)
  case (Cons y ys)
  show ?case
  proof (cases "le x y")
    case True
    with Cons.prems show ?thesis by (auto intro: trans)
  next
    case False
    with tot have "le y x" by blast
    with False Cons show ?thesis by auto
  qed
qed simp

lemma sorted_wrt_sort_by:
  assumes "\<And>a b. le a b \<or> le b a" and "\<And>a b c. le a b \<Longrightarrow> le b c \<Longrightarrow> le a c"
  shows "sorted_wrt le (sort_by le xs)"
  by (induction xs) (simp_all add: sorted_wrt_insert_by assms)

lemma sort_by_id: "sorted_wrt le xs \<Longrightarrow> sort_by le xs = xs"
proof (induction xs)
  case (Cons x xs)
  then show ?case by (cases xs) auto
qed simp

lemma map_of_insert_by:
  "fst x \<notin> set (map fst ys) \<Longrightarrow> map_of (insert_by le x ys) = (map_of ys)(fst x \<mapsto> snd x)"
proof (induction ys)
  case (Cons y ys)
  then show ?case by (auto simp: fun_upd_twist)
qed simp

lemma map_of_sort_by: "distinct (map fst xs) \<Longrightarrow> map_of (sort_by le xs) = map_of xs"
  by (induction xs) (auto simp: map_of_insert_by)

lemma mset_insert_by: "mset (insert_by le x ys) = add_mset x (mset ys)"
  by (induction ys) auto

lemma mset_sort_by [simp]: "mset (sort_by le xs) = mset xs"
  by (induction xs) (auto simp: mset_insert_by)

text \<open>Two sorted lists with the same elements are equal when the order is antisymmetric.\<close>

lemma sorted_wrt_unique:
  assumes anti: "\<And>a b. le a b \<Longrightarrow> le b a \<Longrightarrow> a = b"
    and "sorted_wrt le xs" "sorted_wrt le ys" "distinct xs" "distinct ys" "set xs = set ys"
  shows "xs = ys"
  using assms(2-6)
proof (induction xs arbitrary: ys)
  case (Cons x xs)
  then obtain y ys' where ys: "ys = y # ys'" by (cases ys) auto
  have "x = y"
  proof (rule ccontr)
    assume "x \<noteq> y"
    with Cons.prems ys have "y \<in> set xs" "x \<in> set ys'" by auto
    with Cons.prems ys have "le x y" "le y x" by auto
    with anti \<open>x \<noteq> y\<close> show False by blast
  qed
  moreover from Cons.prems ys \<open>x = y\<close> have "set xs = set ys'" by auto
  ultimately show ?case using Cons ys by auto
qed simp

section \<open>Comparing texts\<close>

text \<open>\<open>left < right\<close> on strings compares code units lexicographically.\<close>

fun text_less :: "string \<Rightarrow> string \<Rightarrow> bool" where
  "text_less _ [] = False"
| "text_less [] (_ # _) = True"
| "text_less (a # as) (b # bs) = (char_code a < char_code b \<or> a = b \<and> text_less as bs)"

definition compareText :: "string \<Rightarrow> string \<Rightarrow> int" where
  "compareText l r = (if text_less l r then - 1 else if text_less r l then 1 else 0)"

lemma char_code_eq [simp]: "char_code a = char_code b \<longleftrightarrow> a = b"
  by (simp add: char_code_def)

lemma text_less_irrefl [simp]: "\<not> text_less s s"
  by (induction s) auto

lemma text_less_trans: "text_less a b \<Longrightarrow> text_less b c \<Longrightarrow> text_less a c"
proof (induction a b arbitrary: c rule: text_less.induct)
  case (2 b bs)
  then show ?case by (cases c) auto
next
  case (3 a as b bs)
  then show ?case by (cases c) auto
qed simp

lemma text_less_linear: "text_less a b \<or> a = b \<or> text_less b a"
proof (induction a b rule: text_less.induct)
  case (1 a)
  then show ?case by (cases a) auto
next
  case (3 a as b bs)
  then show ?case using linorder_neqE_nat [of "char_code a" "char_code b"] by auto
qed auto

lemma text_less_asym: "text_less a b \<Longrightarrow> \<not> text_less b a"
  using text_less_trans text_less_irrefl by blast

lemma compareText_0 [simp]: "compareText a b = 0 \<longleftrightarrow> a = b"
  using text_less_linear [of a b] by (auto simp: compareText_def)

lemma compareText_neg: "compareText a b < 0 \<longleftrightarrow> text_less a b"
  by (auto simp: compareText_def)

lemma compareText_le: "compareText a b \<le> 0 \<longleftrightarrow> text_less a b \<or> a = b"
  using text_less_linear [of a b] text_less_asym [of a b] by (auto simp: compareText_def)

text \<open>An evaluation of the comparison on binary integers.\<close>

lemma text_less_code [code]:
  "text_less s [] = False"
  "text_less [] (b # bs) = True"
  "text_less (a # as) (b # bs) = ((of_char a :: int) < of_char b \<or> a = b \<and> text_less as bs)"
  by (simp_all add: char_code_def flip: of_nat_of_char [where 'a = int])

text \<open>The sort of distinct texts depends on their set only.\<close>

lemma sorted_text: "sorted_wrt (\<lambda>l r. compareText l r \<le> 0) (sort_by (\<lambda>l r. compareText l r \<le> 0) ss)"
  by (rule sorted_wrt_sort_by) (use text_less_linear text_less_trans in \<open>auto simp: compareText_le\<close>)

lemma sort_text_unique:
  assumes "distinct ss" "sorted_wrt (\<lambda>l r. compareText l r \<le> 0) ts" "distinct ts" "set ss = set ts"
  shows "sort_by (\<lambda>l r. compareText l r \<le> 0) ss = ts"
proof (rule sorted_wrt_unique [OF _ sorted_text])
  show "a = b" if "compareText a b \<le> 0" "compareText b a \<le> 0" for a b
    using that text_less_asym [of a b] by (auto simp: compareText_le)
  show "distinct (sort_by (\<lambda>l r. compareText l r \<le> 0) ss)"
    using distinct_sort_by [where f = "\<lambda>x. x" and xs = ss] assms(1) by simp
qed (use assms in auto)

lemma sorted_text_step:
  "successively (\<lambda>l r. compareText l r \<le> 0) ts \<Longrightarrow> sorted_wrt (\<lambda>l r. compareText l r \<le> 0) ts"
proof (induction ts)
  case (Cons t ts)
  show ?case
  proof (cases ts)
    case (Cons u us)
    have "compareText t v \<le> 0" if "compareText t u \<le> 0" "compareText u v \<le> 0" for v
      using that text_less_trans [of t u v] by (auto simp: compareText_le)
    with Cons.IH Cons.prems Cons show ?thesis by auto
  qed simp
qed simp

end
