(* ===== verification/Js_Json.thy ===== *)
theory Js_Json imports Js_Prelude begin

text \<open>
  The JSON text functions the code rests on: \<open>canonicalJson\<close> of \<open>src/src/shared/digest.ts\<close>
  (entries sorted by \<open>localeCompare\<close>, then \<open>JSON.stringify\<close>) and \<open>JSON.parse\<close>. The main
  result is the round trip: parsing the canonical text of a value gives its canonical form
  back, so a value stored as canonical text is not changed by storing it, and two values with
  the same text have the same canonical form.
\<close>

section \<open>Collation of keys\<close>

text \<open>
  \<open>left.localeCompare(right)\<close> with the default collator, on printable ASCII: first the
  alphabet without case, in the root collation's order, then lower case before upper case.
\<close>

definition quote_ch :: char where "quote_ch = CHR 0x22"
definition bslash :: char where "bslash = CHR 0x5C"

definition collation_order :: string where
  "collation_order = '' _-,;:!?.'' @ [CHR 0x27, quote_ch] @ ''()[]{}@*/'' @ [bslash] @ ''&#%'' @ [CHR 0x60]
     @ ''^+<=>|~$'' @ digits @ lowers"

fun position :: "char \<Rightarrow> string \<Rightarrow> nat" where
  "position c [] = 0"
| "position c (x # xs) = (if c = x then 0 else Suc (position c xs))"

definition primary_weight :: "char \<Rightarrow> nat" where
  "primary_weight c =
     (if is_upper c then position (lowers ! position c uppers) collation_order
      else if c \<in> set collation_order then position c collation_order
      else length collation_order + char_code c)"

definition case_weight :: "char \<Rightarrow> nat" where
  "case_weight c = (if is_upper c then 1 else 0)"

fun weights_less :: "nat list \<Rightarrow> nat list \<Rightarrow> bool" where
  "weights_less _ [] = False"
| "weights_less [] (_ # _) = True"
| "weights_less (a # as) (b # bs) = (a < b \<or> a = b \<and> weights_less as bs)"

definition locale_le :: "string \<Rightarrow> string \<Rightarrow> bool" where
  "locale_le s t =
     (let p = map primary_weight s; q = map primary_weight t
      in weights_less p q \<or> p = q \<and> \<not> weights_less (map case_weight t) (map case_weight s))"

section \<open>Canonical values\<close>

primrec canonicalValue :: "json \<Rightarrow> json" where
  "canonicalValue JNull = JNull"
| "canonicalValue (JBool b) = JBool b"
| "canonicalValue (JNum n) = JNum n"
| "canonicalValue (JStr s) = JStr s"
| "canonicalValue (JArr vs) = JArr (map canonicalValue vs)"
| "canonicalValue (JObj kvs) =
     JObj (sort_by (\<lambda>l r. locale_le (fst l) (fst r)) (map (map_prod id canonicalValue) kvs))"

section \<open>Printing: JSON.stringify\<close>

function nat_text :: "nat \<Rightarrow> string" where
  "nat_text n = (if n < 10 then [digits ! n] else nat_text (n div 10) @ [digits ! (n mod 10)])"
  by pat_completeness auto
termination
  by (relation "measure id") auto

declare nat_text.simps [simp del]

definition int_text :: "int \<Rightarrow> string" where
  "int_text i = (if i < 0 then CHR ''-'' # nat_text (nat (- i)) else nat_text (nat i))"

text \<open>Decimals are printed positionally; the exponent form of tiny and huge ones is not modelled.\<close>

fun num_text :: "jsnum \<Rightarrow> string" where
  "num_text (Integer i) = int_text i"
| "num_text (Decimal m k) =
     (let ds = nat_text (nat \<bar>m\<bar>); padded = replicate (Suc k - length ds) (CHR ''0'') @ ds
      in (if m < 0 then ''-'' else '''') @ take (length padded - k) padded @ ''.'' @ drop (length padded - k) padded)"
| "num_text _ = ''null''"

definition hex_digit :: "nat \<Rightarrow> char" where "hex_digit n = hexes ! n"

definition escape_char :: "char \<Rightarrow> string" where
  "escape_char c =
     (if c = quote_ch then [bslash, quote_ch]
      else if c = bslash then [bslash, bslash]
      else if char_code c < 32 then
        (if c = CHR 0x08 then [bslash, CHR ''b''] else if c = CHR 0x09 then [bslash, CHR ''t'']
         else if c = CHR 0x0A then [bslash, CHR ''n''] else if c = CHR 0x0C then [bslash, CHR ''f'']
         else if c = CHR 0x0D then [bslash, CHR ''r'']
         else bslash # ''u00'' @ [hex_digit (char_code c div 16), hex_digit (char_code c mod 16)])
      else [c])"

definition quote_text :: "string \<Rightarrow> string" where
  "quote_text s = quote_ch # concat (map escape_char s) @ [quote_ch]"

fun join_comma :: "string list \<Rightarrow> string" where
  "join_comma [] = []"
| "join_comma [s] = s"
| "join_comma (s # t # ts) = s @ '','' @ join_comma (t # ts)"

definition member_text :: "string \<times> string \<Rightarrow> string" where
  "member_text kt = quote_text (fst kt) @ '':'' @ snd kt"

primrec json_text :: "json \<Rightarrow> string" where
  "json_text JNull = ''null''"
| "json_text (JBool b) = (if b then ''true'' else ''false'')"
| "json_text (JNum n) = num_text n"
| "json_text (JStr s) = quote_text s"
| "json_text (JArr vs) = ''['' @ join_comma (map json_text vs) @ '']''"
| "json_text (JObj kvs) =
     ''{'' @ join_comma (map member_text (map (map_prod id json_text) kvs)) @ ''}''"

definition canonicalJson :: "json \<Rightarrow> string" where
  "canonicalJson v = json_text (canonicalValue v)"

section \<open>Parsing: JSON.parse\<close>

fun skip_ws :: "string \<Rightarrow> string" where
  "skip_ws [] = []"
| "skip_ws (c # cs) = (if c \<in> {CHR '' '', CHR 0x09, CHR 0x0A, CHR 0x0D} then skip_ws cs else c # cs)"

definition digits_value :: "string \<Rightarrow> nat" where
  "digits_value ds = foldl (\<lambda>a c. 10 * a + position c digits) 0 ds"

function reduce_decimal :: "int \<Rightarrow> nat \<Rightarrow> jsnum" where
  "reduce_decimal m k =
     (if k = 0 then Integer m else if m mod 10 = 0 then reduce_decimal (m div 10) (k - 1) else Decimal m k)"
  by pat_completeness auto
termination
  by (relation "measure snd") auto

declare reduce_decimal.simps [simp del]

definition scaled_number :: "bool \<Rightarrow> nat \<Rightarrow> int \<Rightarrow> jsnum" where
  "scaled_number neg m scale =
     (let sm = (if neg then - int m else int m)
      in if scale \<le> 0 then Integer (sm * 10 ^ nat (- scale)) else reduce_decimal sm (nat scale))"

fun parse_fraction :: "string \<Rightarrow> (string \<times> string) option" where
  "parse_fraction (c # cs) =
     (if c = CHR ''.'' then
        (if takeWhile is_digit cs = [] then None else Some (takeWhile is_digit cs, dropWhile is_digit cs))
      else Some ([], c # cs))"
| "parse_fraction [] = Some ([], [])"

definition exponent_digits :: "bool \<Rightarrow> string \<Rightarrow> (int \<times> string) option" where
  "exponent_digits neg s =
     (if takeWhile is_digit s = [] then None
      else let e = int (digits_value (takeWhile is_digit s))
           in Some (if neg then - e else e, dropWhile is_digit s))"

fun parse_exponent :: "string \<Rightarrow> (int \<times> string) option" where
  "parse_exponent (c # cs) =
     (if c = CHR ''e'' \<or> c = CHR ''E'' then
        (case cs of [] \<Rightarrow> None
         | s # ds \<Rightarrow> if s = CHR ''-'' then exponent_digits True ds
                    else if s = CHR ''+'' then exponent_digits False ds
                    else exponent_digits False cs)
      else Some (0, c # cs))"
| "parse_exponent [] = Some (0, [])"

definition parse_unsigned :: "bool \<Rightarrow> string \<Rightarrow> (json \<times> string) option" where
  "parse_unsigned neg s =
     (let ds = takeWhile is_digit s; r = dropWhile is_digit s
      in if ds = [] \<or> length ds > 1 \<and> hd ds = CHR ''0'' then None
         else case parse_fraction r of None \<Rightarrow> None
         | Some (fs, r') \<Rightarrow> (case parse_exponent r' of None \<Rightarrow> None
            | Some (e, r'') \<Rightarrow>
                Some (JNum (scaled_number neg (digits_value (ds @ fs)) (int (length fs) - e)), r'')))"

fun parse_number :: "string \<Rightarrow> (json \<times> string) option" where
  "parse_number (c # cs) = (if c = CHR ''-'' then parse_unsigned True cs else parse_unsigned False (c # cs))"
| "parse_number [] = None"

definition hex_value :: "string \<Rightarrow> nat option" where
  "hex_value ds = (if list_all is_hex ds then Some (foldl (\<lambda>a c. 16 * a + position c hexes) 0 ds) else None)"

definition unescape :: "char \<Rightarrow> char option" where
  "unescape e =
     (if e = quote_ch \<or> e = bslash \<or> e = CHR ''/'' then Some e
      else if e = CHR ''b'' then Some (CHR 0x08) else if e = CHR ''t'' then Some (CHR 0x09)
      else if e = CHR ''n'' then Some (CHR 0x0A) else if e = CHR ''f'' then Some (CHR 0x0C)
      else if e = CHR ''r'' then Some (CHR 0x0D) else None)"

text \<open>The characters of a string literal after its opening quote; code units above 255 are refused.\<close>

fun parse_str :: "string \<Rightarrow> (string \<times> string) option" where
  "parse_str [] = None"
| "parse_str (c # cs) =
     (if c = quote_ch then Some ([], cs)
      else if c = bslash then
        (case cs of [] \<Rightarrow> None
         | e # r \<Rightarrow>
             if e = CHR ''u'' then
               (case r of h1 # h2 # h3 # h4 # r' \<Rightarrow>
                  (case hex_value [h1, h2, h3, h4] of None \<Rightarrow> None
                   | Some n \<Rightarrow> if n < 256 then map_option (apfst (Cons (char_of n))) (parse_str r') else None)
                | _ \<Rightarrow> None)
             else (case unescape e of None \<Rightarrow> None
                   | Some d \<Rightarrow> map_option (apfst (Cons d)) (parse_str r)))
      else if char_code c < 32 then None
      else map_option (apfst (Cons c)) (parse_str cs))"

fun put_entry :: "string \<Rightarrow> json \<Rightarrow> (string \<times> json) list \<Rightarrow> (string \<times> json) list" where
  "put_entry k v [] = [(k, v)]"
| "put_entry k v ((k', v') # kvs) = (if k = k' then (k, v) # kvs else (k', v') # put_entry k v kvs)"

fun expect :: "string \<Rightarrow> json \<Rightarrow> string \<Rightarrow> (json \<times> string) option" where
  "expect [] v s = Some (v, s)"
| "expect (c # cs) v (d # ds) = (if c = d then expect cs v ds else None)"
| "expect (c # cs) v [] = None"

fun parse_value :: "nat \<Rightarrow> string \<Rightarrow> (json \<times> string) option"
  and parse_elems :: "nat \<Rightarrow> string \<Rightarrow> (json list \<times> string) option"
  and parse_members :: "nat \<Rightarrow> (string \<times> json) list \<Rightarrow> string \<Rightarrow> (json \<times> string) option" where
  "parse_value 0 s = None"
| "parse_value (Suc n) s =
     (case skip_ws s of [] \<Rightarrow> None
      | c # cs \<Rightarrow>
          if c = CHR ''{'' then
            (case skip_ws cs of [] \<Rightarrow> None
             | d # ds \<Rightarrow> if d = CHR ''}'' then Some (JObj [], ds) else parse_members n [] (d # ds))
          else if c = CHR ''['' then
            (case skip_ws cs of [] \<Rightarrow> None
             | d # ds \<Rightarrow> if d = CHR '']'' then Some (JArr [], ds)
                        else map_option (apfst JArr) (parse_elems n (d # ds)))
          else if c = quote_ch then map_option (apfst JStr) (parse_str cs)
          else if c = CHR ''t'' then expect ''rue'' (JBool True) cs
          else if c = CHR ''f'' then expect ''alse'' (JBool False) cs
          else if c = CHR ''n'' then expect ''ull'' JNull cs
          else parse_number (c # cs))"
| "parse_elems 0 s = None"
| "parse_elems (Suc n) s =
     (case parse_value n s of None \<Rightarrow> None
      | Some (v, r) \<Rightarrow>
          (case skip_ws r of [] \<Rightarrow> None
           | c # cs \<Rightarrow> if c = CHR '','' then map_option (apfst (Cons v)) (parse_elems n cs)
                      else if c = CHR '']'' then Some ([v], cs) else None))"
| "parse_members 0 acc s = None"
| "parse_members (Suc n) acc s =
     (case skip_ws s of [] \<Rightarrow> None
      | q # qs \<Rightarrow>
          if q \<noteq> quote_ch then None
          else (case parse_str qs of None \<Rightarrow> None
                | Some (k, r) \<Rightarrow>
                    (case skip_ws r of [] \<Rightarrow> None
                     | c # cs \<Rightarrow>
                         if c \<noteq> CHR '':'' then None
                         else (case parse_value n cs of None \<Rightarrow> None
                               | Some (v, r') \<Rightarrow>
                                   (case skip_ws r' of [] \<Rightarrow> None
                                    | d # ds \<Rightarrow>
                                        if d = CHR '','' then parse_members n (put_entry k v acc) ds
                                        else if d = CHR ''}'' then Some (JObj (put_entry k v acc), ds)
                                        else None)))))"

text \<open>The fuel is the length of the text and one more: no value nests deeper than its text.\<close>

definition json_parse :: "string \<Rightarrow> json option" where
  "json_parse s =
     (case parse_value (Suc (length s)) s of None \<Rightarrow> None
      | Some (v, r) \<Rightarrow> if skip_ws r = [] then Some v else None)"

section \<open>The round trip\<close>

subsection \<open>Numbers\<close>

lemma all_digit_index: "n < 10 \<Longrightarrow> is_digit (digits ! n) \<and> position (digits ! n) digits = n"
proof -
  have "\<forall>n \<in> set [0..<10]. is_digit (digits ! n) \<and> position (digits ! n) digits = n"
    by code_simp
  then show "n < 10 \<Longrightarrow> ?thesis" by simp
qed

lemma digits_value_append [js_codec]:
  "digits_value (ds @ [c]) = 10 * digits_value ds + position c digits"
  by (simp add: digits_value_def)

lemma nat_text_digits: "list_all is_digit (nat_text n) \<and> nat_text n \<noteq> []"
proof (induction n rule: nat_text.induct)
  case (1 n)
  then show ?case using all_digit_index [of n] all_digit_index [of "n mod 10"]
    by (subst nat_text.simps) (auto simp: nat_text.simps)
qed

lemma nat_text_value [js_codec]: "digits_value (nat_text n) = n"
proof (induction n rule: nat_text.induct)
  case (1 n)
  show ?case
  proof (cases "n < 10")
    case True
    then show ?thesis using all_digit_index [of n]
      by (subst nat_text.simps) (simp add: digits_value_def)
  next
    case False
    with 1 have "digits_value (nat_text (n div 10)) = n div 10" by simp
    with False show ?thesis using all_digit_index [of "n mod 10"]
      by (subst nat_text.simps) (simp add: digits_value_append)
  qed
qed

lemma nat_text_no_leading_zero: "length (nat_text n) > 1 \<Longrightarrow> hd (nat_text n) \<noteq> CHR ''0''"
proof (induction n rule: nat_text.induct)
  case (1 n)
  show ?case
  proof (cases "n < 10")
    case True
    with 1 show ?thesis by (simp add: nat_text.simps)
  next
    case False
    show ?thesis
    proof (cases "n div 10 < 10")
      case True
      have "\<forall>k \<in> set [1..<10]. digits ! k \<noteq> CHR ''0''" by code_simp
      moreover from True False have "n div 10 \<in> set [1..<10]" by auto
      ultimately show ?thesis using True False
        by (subst nat_text.simps, subst nat_text.simps) auto
    next
      case F: False
      have "length (nat_text (n div 10)) > 1"
        using F nat_text_digits [of "n div 10 div 10"] by (subst nat_text.simps) (auto simp: neq_Nil_conv)
      with 1 False show ?thesis
        by (subst nat_text.simps) (use nat_text_digits in auto)
    qed
  qed
qed

text \<open>The text that may follow a number: nothing that would continue it.\<close>

definition delimiter :: "string \<Rightarrow> bool" where
  "delimiter r = (case r of [] \<Rightarrow> True | c # _ \<Rightarrow> \<not> is_digit c \<and> c \<notin> {CHR ''.'', CHR ''e'', CHR ''E''})"

lemma delimiter_simps [simp]:
  "delimiter []" "delimiter (CHR '','' # r)" "delimiter (CHR '']'' # r)" "delimiter (CHR ''}'' # r)"
  by (simp_all add: delimiter_def is_digit_def digits_def)

lemma takeWhile_digits:
  assumes "list_all is_digit ds" "delimiter r"
  shows "takeWhile is_digit (ds @ r) = ds" "dropWhile is_digit (ds @ r) = r"
  using assms by (cases r; simp add: delimiter_def list_all_iff)+

lemma parse_unsigned_nat:
  assumes "delimiter r"
  shows "parse_unsigned neg (nat_text n @ r) = Some (JNum (Integer (if neg then - int n else int n)), r)"
proof -
  have "parse_fraction r = Some ([], r)" "parse_exponent r = Some (0, r)"
    using assms by (cases r; auto simp: delimiter_def)+
  with nat_text_digits [of n] show ?thesis
    using nat_text_no_leading_zero [of n]
    by (auto simp: parse_unsigned_def Let_def takeWhile_digits assms scaled_number_def js_codec)
qed

lemma nat_text_Cons: "\<exists>c cs. nat_text n = c # cs \<and> is_digit c \<and> c \<noteq> CHR ''-''"
proof -
  obtain c cs where "nat_text n = c # cs" "is_digit c"
    using nat_text_digits [of n] by (cases "nat_text n") auto
  then show ?thesis by (auto simp: is_digit_def digits_def)
qed

lemma parse_number_int:
  assumes "delimiter r"
  shows "parse_number (int_text i @ r) = Some (JNum (Integer i), r)"
proof (cases "i < 0")
  case True
  then show ?thesis using parse_unsigned_nat [OF assms, of True "nat (- i)"] by (simp add: int_text_def)
next
  case False
  obtain c cs where c: "nat_text (nat i) = c # cs" "c \<noteq> CHR ''-''" using nat_text_Cons by blast
  then show ?thesis using parse_unsigned_nat [OF assms, of False "nat i"] False
    by (simp add: int_text_def)
qed

lemma int_text_Cons: "\<exists>c cs. int_text i = c # cs \<and> (c = CHR ''-'' \<or> is_digit c)"
  using nat_text_Cons [of "nat i"] by (auto simp: int_text_def)

subsection \<open>Strings\<close>

lemma hex_digit_value: "n < 16 \<Longrightarrow> is_hex (hex_digit n) \<and> position (hex_digit n) hexes = n"
proof -
  have "\<forall>n \<in> set [0..<16]. is_hex (hex_digit n) \<and> position (hex_digit n) hexes = n"
    by code_simp
  then show "n < 16 \<Longrightarrow> ?thesis" by simp
qed

lemma char_code_of: "char_of (char_code c) = c"
  by (simp add: char_code_def)

lemma parse_escape:
  "parse_str (escape_char c @ r) = map_option (apfst (Cons c)) (parse_str r)"
proof -
  have q: "quote_ch \<noteq> bslash" by (simp add: quote_ch_def bslash_def)
  have z: "is_hex CHR ''0''" "position CHR ''0'' hexes = 0" by code_simp+
  have u: "CHR ''u'' \<noteq> quote_ch" "CHR ''u'' \<noteq> bslash" by (simp_all add: quote_ch_def bslash_def)
  consider "c = quote_ch" | "c = bslash" | "c \<noteq> quote_ch" "c \<noteq> bslash" "char_code c < 32"
    | "c \<noteq> quote_ch" "c \<noteq> bslash" "\<not> char_code c < 32" by blast
  then show ?thesis
  proof cases
    case 3
    have "hex_value [CHR ''0'', CHR ''0'', hex_digit (char_code c div 16), hex_digit (char_code c mod 16)]
        = Some (char_code c)"
      using hex_digit_value [of "char_code c div 16"] hex_digit_value [of "char_code c mod 16"] 3 z
      by (simp add: hex_value_def)
    with 3 q show ?thesis
      by (auto simp: escape_char_def unescape_def quote_ch_def bslash_def char_code_of)
  qed (use q u in \<open>auto simp: escape_char_def unescape_def\<close>)
qed

lemma parse_quoted: "parse_str (concat (map escape_char s) @ quote_ch # r) = Some (s, r)"
  by (induction s) (simp_all add: parse_escape)

subsection \<open>Values\<close>

text \<open>
  A value the code stores: its numbers are integers and no object has a key twice. The fuel a
  value needs grows with its nesting and is bounded by the length of its text.
\<close>

fun int_num :: "jsnum \<Rightarrow> bool" where
  "int_num (Integer _) = True"
| "int_num _ = False"

primrec storable :: "json \<Rightarrow> bool" where
  "storable JNull = True"
| "storable (JBool b) = True"
| "storable (JNum n) = int_num n"
| "storable (JStr s) = True"
| "storable (JArr vs) = list_all id (map storable vs)"
| "storable (JObj kvs) = (distinct (map fst kvs) \<and> list_all snd (map (map_prod id storable) kvs))"

primrec depth_fuel :: "json \<Rightarrow> nat" where
  "depth_fuel JNull = 1"
| "depth_fuel (JBool b) = 1"
| "depth_fuel (JNum n) = 1"
| "depth_fuel (JStr s) = 1"
| "depth_fuel (JArr vs) = Suc (sum_list (map Suc (map depth_fuel vs)))"
| "depth_fuel (JObj kvs) = Suc (sum_list (map (Suc \<circ> snd) (map (map_prod id depth_fuel) kvs)))"

text \<open>The nested recursions in the form the proofs use, and the matching induction rule.\<close>

lemma json_text_JObj: "json_text (JObj kvs) =
    ''{'' @ join_comma (map (\<lambda>kv. member_text (fst kv, json_text (snd kv))) kvs) @ ''}''"
proof -
  have "map member_text (map (map_prod id json_text) kvs) = map (\<lambda>kv. member_text (fst kv, json_text (snd kv))) kvs"
    by (auto simp: map_prod_def split_beta)
  then show ?thesis by (simp only: json_text.simps)
qed

lemma storable_JObj: "storable (JObj kvs) \<longleftrightarrow> distinct (map fst kvs) \<and> (\<forall>kv \<in> set kvs. storable (snd kv))"
  by (auto simp: list_all_iff)

lemma storable_JArr: "storable (JArr vs) \<longleftrightarrow> (\<forall>v \<in> set vs. storable v)"
  by (auto simp: list_all_iff)

lemma depth_fuel_JObj: "depth_fuel (JObj kvs) = Suc (\<Sum>kv\<leftarrow>kvs. Suc (depth_fuel (snd kv)))"
  by (simp add: comp_def)

lemma depth_fuel_JArr: "depth_fuel (JArr vs) = Suc (\<Sum>v\<leftarrow>vs. Suc (depth_fuel v))"
  by (simp add: comp_def)

lemma canonicalValue_JObj: "canonicalValue (JObj kvs) =
    JObj (sort_by (\<lambda>l r. locale_le (fst l) (fst r)) (map (\<lambda>kv. (fst kv, canonicalValue (snd kv))) kvs))"
proof -
  have "map_prod id canonicalValue = (\<lambda>kv :: string \<times> json. (fst kv, canonicalValue (snd kv)))"
    by (auto simp: map_prod_def split_beta)
  then show ?thesis by (simp only: canonicalValue.simps)
qed

lemmas json_obj_simps = json_text_JObj storable_JObj storable_JArr depth_fuel_JObj depth_fuel_JArr canonicalValue_JObj

declare json_text.simps(6) [simp del] storable.simps(5,6) [simp del] depth_fuel.simps(5,6) [simp del]
  canonicalValue.simps(6) [simp del]
declare json_obj_simps [simp]

lemma json_induct [case_names Null Bool Num Str Arr Obj]:
  assumes "P JNull" "\<And>b. P (JBool b)" "\<And>n. P (JNum n)" "\<And>s. P (JStr s)"
    and "\<And>vs. (\<And>v. v \<in> set vs \<Longrightarrow> P v) \<Longrightarrow> P (JArr vs)"
    and "\<And>kvs. (\<And>kv. kv \<in> set kvs \<Longrightarrow> P (snd kv)) \<Longrightarrow> P (JObj kvs)"
  shows "P v"
  by (induction v) (use assms in \<open>auto simp: snds.simps\<close>)

lemma json_text_Cons:
  assumes "storable v"
  shows "\<exists>c cs. json_text v = c # cs \<and> c \<notin> {CHR '' '', CHR 0x09, CHR 0x0A, CHR 0x0D, CHR '']'', CHR ''}''}"
proof (cases v)
  case (JNum n)
  with assms obtain i where "n = Integer i" by (cases n) auto
  with JNum int_text_Cons [of i] show ?thesis by (auto simp: is_digit_def digits_def)
qed (auto simp: quote_text_def quote_ch_def)

lemma skip_ws_Cons: "c \<notin> {CHR '' '', CHR 0x09, CHR 0x0A, CHR 0x0D} \<Longrightarrow> skip_ws (c # cs) = c # cs"
  by simp

lemma put_entry_fresh: "k \<notin> set (map fst kvs) \<Longrightarrow> put_entry k v kvs = kvs @ [(k, v)]"
  by (induction kvs) auto

lemma parse_elems_text:
  assumes "\<And>v n r. v \<in> set vs \<Longrightarrow> depth_fuel v \<le> n \<Longrightarrow> delimiter r \<Longrightarrow> parse_value n (json_text v @ r) = Some (v, r)"
    and "vs \<noteq> []" and "(\<Sum>v\<leftarrow>vs. Suc (depth_fuel v)) \<le> n"
  shows "parse_elems n (join_comma (map json_text vs) @ CHR '']'' # r) = Some (vs, r)"
  using assms
proof (induction vs arbitrary: n)
  case (Cons v vs)
  then obtain m where n: "n = Suc m" by (cases n) auto
  show ?case
  proof (cases vs)
    case Nil
    with Cons.prems n show ?thesis by simp
  next
    case (Cons w ws)
    have "parse_value m (json_text v @ CHR '','' # join_comma (map json_text vs) @ CHR '']'' # r)
        = Some (v, CHR '','' # join_comma (map json_text vs) @ CHR '']'' # r)"
      using Cons.prems n by simp
    moreover have "parse_elems m (join_comma (map json_text vs) @ CHR '']'' # r) = Some (vs, r)"
      using Cons Cons.prems n by (intro Cons.IH) auto
    ultimately show ?thesis using n Cons by simp
  qed
qed simp

lemma parse_members_text:
  assumes "\<And>kv n r. kv \<in> set kvs \<Longrightarrow> depth_fuel (snd kv) \<le> n \<Longrightarrow> delimiter r \<Longrightarrow>
      parse_value n (json_text (snd kv) @ r) = Some (snd kv, r)"
    and "kvs \<noteq> []" and "(\<Sum>kv\<leftarrow>kvs. Suc (depth_fuel (snd kv))) \<le> n"
    and "distinct (map fst (acc @ kvs))"
  shows "parse_members n acc (join_comma (map (\<lambda>kv. member_text (fst kv, json_text (snd kv))) kvs) @ CHR ''}'' # r)
    = Some (JObj (acc @ kvs), r)"
  using assms
proof (induction kvs arbitrary: n acc)
  case (Cons kv kvs)
  obtain k v where kv: "kv = (k, v)" by (cases kv)
  from Cons.prems obtain m where n: "n = Suc m" by (cases n) auto
  have acc: "put_entry k v acc = acc @ [(k, v)]"
    using Cons.prems(4) kv by (intro put_entry_fresh) auto
  have str: "parse_str (concat (map escape_char k) @ quote_ch # s) = Some (k, s)" for s
    by (rule parse_quoted)
  have q: "skip_ws (quote_ch # s) = quote_ch # s" for s by (simp add: quote_ch_def)
  show ?case
  proof (cases kvs)
    case Nil
    with Cons.prems n acc kv str q show ?thesis
      by (simp add: member_text_def quote_text_def)
  next
    case (Cons w ws)
    let ?t = "join_comma (map (\<lambda>kv. member_text (fst kv, json_text (snd kv))) kvs) @ CHR ''}'' # r"
    have "parse_value m (json_text v @ CHR '','' # ?t) = Some (v, CHR '','' # ?t)"
      using Cons.prems(1) [of kv m "CHR '','' # ?t"] Cons.prems(3) n kv by simp
    moreover have "parse_members m (acc @ [(k, v)]) ?t = Some (JObj ((acc @ [(k, v)]) @ kvs), r)"
      using Cons Cons.prems n kv by (intro Cons.IH) auto
    ultimately show ?thesis using n Cons acc kv str q
      by (simp add: member_text_def quote_text_def)
  qed
qed simp

lemma join_comma_Cons: "ss \<noteq> [] \<Longrightarrow> \<exists>t. join_comma (s # ss) = s @ t"
  by (cases ss) auto

lemma parse_value_text:
  "storable v \<Longrightarrow> depth_fuel v \<le> n \<Longrightarrow> delimiter r \<Longrightarrow> parse_value n (json_text v @ r) = Some (v, r)"
proof (induction v arbitrary: n r rule: json_induct)
  case (Num x)
  then obtain i m where x: "x = Integer i" "n = Suc m" by (cases x; cases n) auto
  obtain c cs where c: "int_text i = c # cs" "c = CHR ''-'' \<or> is_digit c" using int_text_Cons by blast
  then have "c \<notin> {CHR '' '', CHR 0x09, CHR 0x0A, CHR 0x0D}" "c \<noteq> CHR ''{''" "c \<noteq> CHR ''[''" "c \<noteq> quote_ch"
    "c \<noteq> CHR ''t''" "c \<noteq> CHR ''f''" "c \<noteq> CHR ''n''"
    by (auto simp: is_digit_def digits_def quote_ch_def)
  with parse_number_int [OF Num.prems(3), of i] x c show ?case by simp
next
  case (Str s)
  then show ?case using parse_quoted [of s r]
    by (cases n) (auto simp: quote_text_def quote_ch_def)
next
  case (Arr vs)
  then obtain m where n: "n = Suc m" by (cases n) auto
  show ?case
  proof (cases vs)
    case Nil
    with n show ?thesis by (simp add: quote_ch_def)
  next
    case (Cons w ws)
    have st: "storable w" using Arr.prems Cons by simp
    have "parse_elems m (join_comma (map json_text vs) @ CHR '']'' # r) = Some (vs, r)"
      using Arr n Cons by (intro parse_elems_text) auto
    moreover obtain c cs where c: "json_text w = c # cs"
      "c \<notin> {CHR '' '', CHR 0x09, CHR 0x0A, CHR 0x0D, CHR '']''}"
      using json_text_Cons [OF st] by auto
    moreover obtain t where "join_comma (map json_text vs) = c # t"
      using c Cons by (cases ws) auto
    ultimately show ?thesis using n by (simp add: quote_ch_def)
  qed
next
  case (Obj kvs)
  then obtain m where n: "n = Suc m" by (cases n) auto
  show ?case
  proof (cases kvs)
    case Nil
    with n show ?thesis by simp
  next
    case (Cons w ws)
    have "parse_members m [] (join_comma (map (\<lambda>kv. member_text (fst kv, json_text (snd kv))) kvs) @ CHR ''}'' # r)
        = Some (JObj ([] @ kvs), r)"
      using Obj.prems n Cons by (intro parse_members_text) (use Obj in \<open>force+\<close>)
    moreover obtain t where "join_comma (map (\<lambda>kv. member_text (fst kv, json_text (snd kv))) kvs) = quote_ch # t"
      using Cons by (cases ws) (auto simp: member_text_def quote_text_def)
    ultimately show ?thesis using n by (simp add: quote_ch_def)
  qed
qed (auto simp: quote_ch_def gr0_conv_Suc Suc_le_eq)

lemma join_comma_length:
  "sum_list (map length ss) + (length ss - 1) = length (join_comma ss)"
  by (induction ss rule: join_comma.induct) auto

lemma depth_fuel_text: "storable v \<Longrightarrow> depth_fuel v \<le> length (json_text v)"
proof (induction v rule: json_induct)
  case (Num n)
  then obtain i where "n = Integer i" by (cases n) auto
  with int_text_Cons [of i] show ?case by auto
next
  case (Arr vs)
  then have "(\<Sum>v\<leftarrow>vs. Suc (depth_fuel v)) \<le> (\<Sum>v\<leftarrow>vs. Suc (length (json_text v)))"
    by (intro sum_list_mono) simp
  also have "\<dots> = sum_list (map length (map json_text vs)) + length vs"
    by (induction vs) auto
  finally show ?case using join_comma_length [of "map json_text vs"] by auto
next
  case (Obj kvs)
  let ?ts = "map (\<lambda>kv. member_text (fst kv, json_text (snd kv))) kvs"
  from Obj have "(\<Sum>kv\<leftarrow>kvs. Suc (depth_fuel (snd kv))) \<le> (\<Sum>kv\<leftarrow>kvs. length (member_text (fst kv, json_text (snd kv))))"
    by (intro sum_list_mono) (fastforce simp: member_text_def quote_text_def)
  also have "\<dots> = sum_list (map length ?ts)" by (simp add: comp_def)
  finally show ?case using join_comma_length [of ?ts] by auto
qed (auto simp: quote_text_def)

theorem json_parse_text: "storable v \<Longrightarrow> json_parse (json_text v) = Some v"
  using parse_value_text [of v "Suc (length (json_text v))" "[]"] depth_fuel_text [of v]
  by (simp add: json_parse_def)

lemma storable_canonicalValue: "storable v \<Longrightarrow> storable (canonicalValue v)"
  by (induction v rule: json_induct) (auto simp: distinct_sort_by comp_def)

theorem json_parse_canonicalJson:
  "storable v \<Longrightarrow> json_parse (canonicalJson v) = Some (canonicalValue v)"
  by (simp add: canonicalJson_def json_parse_text storable_canonicalValue)

corollary canonicalJson_eq:
  assumes "storable v" "storable w" "canonicalJson v = canonicalJson w"
  shows "canonicalValue v = canonicalValue w"
  using assms json_parse_canonicalJson by (metis option.inject)

section \<open>Columns of JSON text, and the keys of a record\<close>

text \<open>
  \<open>JSON.parse\<close> of a column the program wrote itself. \<open>JNull\<close> stands for the exception of a text
  that does not parse; every column read this way holds \<open>canonicalJson\<close> of a storable value, so
  it is never reached (\<open>parse_column_canonicalJson\<close>).
\<close>

definition parse_column :: "string \<Rightarrow> json" where
  "parse_column s = (case json_parse s of Some v \<Rightarrow> v | None \<Rightarrow> JNull)"

lemma parse_column_canonicalJson [js_codec]:
  "storable v \<Longrightarrow> parse_column (canonicalJson v) = canonicalValue v"
  by (simp add: parse_column_def json_parse_canonicalJson)

lemma field_canonicalValue [js_codec]:
  "storable v \<Longrightarrow> field (canonicalValue v) k = map_option canonicalValue (field v k)"
proof (cases v)
  case (JObj kvs)
  let ?kvs = "map (\<lambda>kv. (fst kv, canonicalValue (snd kv))) kvs"
  assume "storable v"
  then have "distinct (map fst ?kvs)"
    using JObj by (simp add: storable_JObj comp_def)
  then have "map_of (sort_by (\<lambda>l r. locale_le (fst l) (fst r)) ?kvs) k = map_of ?kvs k"
    by (simp add: map_of_sort_by del: map_map)
  also have "\<dots> = map_option canonicalValue (map_of kvs k)"
    by (induction kvs) auto
  finally show ?thesis
    using JObj by (simp add: canonicalValue_JObj)
qed simp_all

lemma isRecord_canonicalValue [simp]: "isRecord (canonicalValue v) = isRecord v"
  by (cases v) simp_all

text \<open>\<open>Object.keys(value).sort().join(',')\<close>\<close>

definition keys_text :: "json \<Rightarrow> string" where
  "keys_text v = join_comma (sort_by (\<lambda>l r. compareText l r \<le> 0) (keys_of v))"

lemma keys_text_unique:
  assumes "distinct (keys_of v)" "successively (\<lambda>l r. compareText l r \<le> 0) ks" "distinct ks"
    "set (keys_of v) = set ks"
  shows "keys_text v = join_comma ks"
  using assms sort_text_unique [OF _ sorted_text_step] by (simp add: keys_text_def)

lemma keys_canonicalValue [simp]: "set (keys_of (canonicalValue v)) = set (keys_of v)"
  by (cases v) (simp_all add: canonicalValue_JObj image_image)

lemma distinct_keys_storable: "storable v \<Longrightarrow> distinct (keys_of v)"
  by (cases v) (simp_all add: storable_JObj)

lemma distinct_keys_canonicalValue: "storable v \<Longrightarrow> distinct (keys_of (canonicalValue v))"
  by (rule distinct_keys_storable) (rule storable_canonicalValue)

lemma join_comma_weight: "ss \<noteq> [] \<Longrightarrow> Suc (length (join_comma ss)) = (\<Sum>s\<leftarrow>ss. Suc (length s))"
  by (induction ss rule: join_comma.induct) auto

text \<open>
  A record whose sorted keys join to the text of some distinct keys that it all has, has exactly
  these keys: a further one would make the text longer, whatever characters it holds.
\<close>

lemma keys_text_exact:
  assumes t: "keys_text v = join_comma ks" and "ks \<noteq> []" "distinct ks" "set ks \<subseteq> set (keys_of v)"
  shows "mset (keys_of v) = mset ks"
proof -
  let ?w = "\<lambda>M. sum_mset (image_mset (\<lambda>s. Suc (length s)) M)"
  have w: "ss \<noteq> [] \<Longrightarrow> Suc (length (join_comma ss)) = ?w (mset ss)" for ss
    using join_comma_weight [of ss] by (simp add: sum_mset_sum_list [symmetric] flip: mset_map)
  have sub: "mset ks \<subseteq># mset (keys_of v)"
    using assms(3,4) mset_set_set_mset_msubset by (metis mset_set_set_mset_msubset mset_set_set subset_imp_msubset_mset_set List.finite_set subset_mset.trans set_mset_mset)
  have "sort_by (\<lambda>l r. compareText l r \<le> 0) (keys_of v) \<noteq> []"
    using assms(2,4) by (metis length_0_conv length_sort_by set_empty subset_empty)
  with w [of ks] w [of "sort_by (\<lambda>l r. compareText l r \<le> 0) (keys_of v)"] t assms(2)
  have "?w (mset (keys_of v)) = ?w (mset ks)" by (simp add: keys_text_def)
  moreover have "?w (mset (keys_of v)) = ?w (mset ks) + ?w (mset (keys_of v) - mset ks)"
    using sub by (metis image_mset_union subset_mset.add_diff_inverse sum_mset.union)
  ultimately have "?w (mset (keys_of v) - mset ks) = 0" by simp
  then have "mset (keys_of v) - mset ks = {#}" by (cases "mset (keys_of v) - mset ks") auto
  with sub show ?thesis by (metis add.right_neutral subset_mset.add_diff_inverse)
qed

lemma storable_exact:
  assumes "isRecord v" "keys_text v = join_comma ks" "ks \<noteq> []" "distinct ks"
    and "\<And>k. k \<in> set ks \<Longrightarrow> \<exists>w. field v k = Some w \<and> storable w"
  shows "storable v"
proof -
  from assms(1) obtain kvs where v: "v = JObj kvs" by (cases v) auto
  have "k \<in> set (keys_of v)" if "k \<in> set ks" for k
    using assms(5) [OF that] v by (auto simp: image_iff dest!: map_of_SomeD intro: bexI [rotated])
  then have "set ks \<subseteq> set (keys_of v)" by blast
  with assms keys_text_exact have m: "mset (keys_of v) = mset ks" by blast
  then have d: "distinct (map fst kvs)" and k: "set (map fst kvs) = set ks"
    using assms(4) v by (metis mset_eq_imp_distinct_iff keys_of.simps(1), metis mset_eq_setD keys_of.simps(1))
  have "storable w" if "(x, w) \<in> set kvs" for x w
    using assms(5) [of x] that d k v by (force simp: map_of_is_SomeI)
  with d v show ?thesis by (auto simp: storable_JObj)
qed

text \<open>Equal canonical texts have equal fields.\<close>

lemma canonicalJson_field:
  assumes "storable v" "storable w" "canonicalJson v = canonicalJson w"
  shows "map_option canonicalValue (field v k) = map_option canonicalValue (field w k)"
  using canonicalJson_eq [OF assms] field_canonicalValue [OF assms(1), of k] field_canonicalValue [OF assms(2), of k]
  by simp

text \<open>Sorting the entries of an object evaluates collations; proofs read fields instead.\<close>

declare canonicalValue_JObj [simp del]

section \<open>Coercion to a string\<close>

text \<open>\<open>String(value)\<close>; an absent property is \<open>undefined\<close>, and an array joins its entries, nulls as empty texts.\<close>

primrec js_string :: "json \<Rightarrow> string" where
  "js_string JNull = ''null''"
| "js_string (JBool b) = (if b then ''true'' else ''false'')"
| "js_string (JNum n) = (case n of NotANumber \<Rightarrow> ''NaN'' | Infinite p \<Rightarrow> (if p then ''Infinity'' else ''-Infinity'') | _ \<Rightarrow> num_text n)"
| "js_string (JStr s) = s"
| "js_string (JArr vs) = join_comma (map (\<lambda>p. if fst p = JNull then [] else snd p) (map (\<lambda>v. (v, js_string v)) vs))"
| "js_string (JObj kvs) = ''[object Object]''"

definition coerced :: "json option \<Rightarrow> string" where
  "coerced v = (case v of None \<Rightarrow> ''undefined'' | Some w \<Rightarrow> js_string w)"

text \<open>\<open>typeof value === 'object'\<close>: also null and arrays.\<close>

fun is_object :: "json \<Rightarrow> bool" where
  "is_object JNull = True"
| "is_object (JArr _) = True"
| "is_object (JObj _) = True"
| "is_object _ = False"

section \<open>Reading a checked field\<close>

definition text_of :: "json \<Rightarrow> string \<Rightarrow> string" where
  "text_of v k = (case field v k of Some (JStr s) \<Rightarrow> s | _ \<Rightarrow> '''')"

definition int_of :: "json \<Rightarrow> string \<Rightarrow> int" where
  "int_of v k = (case field v k of Some (JNum n) \<Rightarrow> the_int n | _ \<Rightarrow> 0)"

lemma text_of_is_str: "is_str (field v k) p \<Longrightarrow> p (text_of v k) \<and> field v k = Some (JStr (text_of v k))"
  by (auto simp: text_of_def elim: is_strE)

lemma int_of_is_num:
  "is_num (field v k) (safe_ge lo) \<Longrightarrow>
     lo \<le> int_of v k \<and> \<bar>int_of v k\<bar> \<le> max_safe \<and> field v k = Some (JNum (Integer (int_of v k)))"
  by (auto simp: int_of_def elim!: is_numE safe_geE)

end
