(* ===== verification/Js_Digest.thy ===== *)
theory Js_Digest imports Js_Json "HOL-Library.Word" begin

text \<open>
  The platform functions the code calls on texts and times: UTF-8 encoding, SHA-256 as
  \<open>crypto.subtle.digest\<close> computes it, the hexadecimal digest \<open>sha256Hex\<close> and the identity check of
  \<open>src/src/shared/digest.ts\<close>, the constant-time comparison of \<open>src/src/shared/auth.ts\<close>, and
  \<open>Date.prototype.toISOString\<close>. Everything computes, so no property assumes anything of the hash.
\<close>

unbundle bit_operations_syntax

section \<open>UTF-8 and SHA-256\<close>

type_synonym w32 = "32 word"

definition utf8_char :: "char \<Rightarrow> w32 list" where
  "utf8_char c = (let n = of_char c in if n < 128 then [n] else [192 + drop_bit 6 n, 128 + (n AND 63)])"

definition utf8 :: "string \<Rightarrow> w32 list" where
  "utf8 s = concat (map utf8_char s)"

definition sha_k :: "w32 list" where
  "sha_k =
    [1116352408, 1899447441, 3049323471, 3921009573, 961987163, 1508970993, 2453635748, 2870763221,
     3624381080, 310598401, 607225278, 1426881987, 1925078388, 2162078206, 2614888103, 3248222580,
     3835390401, 4022224774, 264347078, 604807628, 770255983, 1249150122, 1555081692, 1996064986,
     2554220882, 2821834349, 2952996808, 3210313671, 3336571891, 3584528711, 113926993, 338241895,
     666307205, 773529912, 1294757372, 1396182291, 1695183700, 1986661051, 2177026350, 2456956037,
     2730485921, 2820302411, 3259730800, 3345764771, 3516065817, 3600352804, 4094571909, 275423344,
     430227734, 506948616, 659060556, 883997877, 958139571, 1322822218, 1537002063, 1747873779,
     1955562222, 2024104815, 2227730452, 2361852424, 2428436474, 2756734187, 3204031479, 3329325298]"

definition sha_iv :: "w32 list" where
  "sha_iv =
    [1779033703, 3144134277, 1013904242, 2773480762, 1359893119, 2600822924, 528734635, 1541459225]"

definition big_sigma0 :: "w32 \<Rightarrow> w32" where
  "big_sigma0 x = word_rotr 2 x XOR word_rotr 13 x XOR word_rotr 22 x"
definition big_sigma1 :: "w32 \<Rightarrow> w32" where
  "big_sigma1 x = word_rotr 6 x XOR word_rotr 11 x XOR word_rotr 25 x"
definition small_sigma0 :: "w32 \<Rightarrow> w32" where
  "small_sigma0 x = word_rotr 7 x XOR word_rotr 18 x XOR drop_bit 3 x"
definition small_sigma1 :: "w32 \<Rightarrow> w32" where
  "small_sigma1 x = word_rotr 17 x XOR word_rotr 19 x XOR drop_bit 10 x"
definition sha_ch :: "w32 \<Rightarrow> w32 \<Rightarrow> w32 \<Rightarrow> w32" where
  "sha_ch x y z = (x AND y) XOR (NOT x AND z)"
definition sha_maj :: "w32 \<Rightarrow> w32 \<Rightarrow> w32 \<Rightarrow> w32" where
  "sha_maj x y z = (x AND y) XOR (x AND z) XOR (y AND z)"

text \<open>The schedule is kept newest word first.\<close>

fun extend_schedule :: "nat \<Rightarrow> w32 list \<Rightarrow> w32 list" where
  "extend_schedule 0 ws = ws"
| "extend_schedule (Suc n) ws =
     extend_schedule n ((small_sigma1 (ws ! 1) + ws ! 6 + small_sigma0 (ws ! 14) + ws ! 15) # ws)"

fun sha_round :: "w32 list \<Rightarrow> w32 \<times> w32 \<Rightarrow> w32 list" where
  "sha_round [a, b, c, d, e, f, g, h] (k, w) =
     (let t1 = h + big_sigma1 e + sha_ch e f g + k + w;
          t2 = big_sigma0 a + sha_maj a b c
      in [t1 + t2, a, b, c, d + t1, e, f, g])"
| "sha_round st _ = st"

definition sha_block :: "w32 list \<Rightarrow> w32 list \<Rightarrow> w32 list" where
  "sha_block st block =
     map2 (+) st (foldl sha_round st (zip sha_k (rev (extend_schedule 48 (rev block)))))"

fun words_of :: "w32 list \<Rightarrow> w32 list" where
  "words_of (a # b # c # d # bs) = (push_bit 24 a OR push_bit 16 b OR push_bit 8 c OR d) # words_of bs"
| "words_of _ = []"

definition big_endian64 :: "64 word \<Rightarrow> w32 list" where
  "big_endian64 n = map (\<lambda>i. ucast (drop_bit i n AND 255)) [56, 48, 40, 32, 24, 16, 8, 0]"

definition sha_pad :: "w32 list \<Rightarrow> w32 list" where
  "sha_pad bs = bs @ [128] @ replicate ((119 - length bs mod 64) mod 64) 0
     @ big_endian64 (word_of_nat (8 * length bs))"

function sha_blocks :: "w32 list \<Rightarrow> w32 list \<Rightarrow> w32 list" where
  "sha_blocks st ws = (if length ws < 16 then st else sha_blocks (sha_block st (take 16 ws)) (drop 16 ws))"
  by pat_completeness auto
termination
  by (relation "measure (length \<circ> snd)") auto

declare sha_blocks.simps [simp del]

definition sha256 :: "w32 list \<Rightarrow> w32 list" where
  "sha256 bs = sha_blocks sha_iv (words_of (sha_pad bs))"

definition digest_bytes :: "string \<Rightarrow> w32 list" where
  "digest_bytes s =
     concat (map (\<lambda>w. map (\<lambda>i. drop_bit i w AND 255) [24, 16, 8, 0]) (sha256 (utf8 s)))"

definition byte_hex :: "w32 \<Rightarrow> string" where \<comment> \<open>\<open>byte.toString(16).padStart(2, '0')\<close>\<close>
  "byte_hex b = [hexes ! unat (drop_bit 4 b AND 15), hexes ! unat (b AND 15)]"

definition sha256Hex :: "string \<Rightarrow> string" where
  "sha256Hex s = concat (map byte_hex (digest_bytes s))"

subsection \<open>The shape of a digest\<close>

lemma length_sha_round: "length st = 8 \<Longrightarrow> length (sha_round st kw) = 8"
  by (cases "(st, kw)" rule: sha_round.cases) (auto simp: Let_def)

lemma length_sha_block: "length st = 8 \<Longrightarrow> length (sha_block st block) = 8"
proof -
  have "length st = 8 \<Longrightarrow> length (foldl sha_round st kws) = 8" for st kws
    by (induction kws arbitrary: st) (simp_all add: length_sha_round)
  then show "length st = 8 \<Longrightarrow> ?thesis" by (simp add: sha_block_def)
qed

lemma length_sha_blocks: "length st = 8 \<Longrightarrow> length (sha_blocks st ws) = 8"
  by (induction st ws rule: sha_blocks.induct) (subst sha_blocks.simps, simp add: length_sha_block)

lemma length_sha256: "length (sha256 bs) = 8"
  by (simp add: sha256_def length_sha_blocks sha_iv_def)

lemma length_digest_bytes: "length (digest_bytes s) = 32"
  by (simp add: digest_bytes_def length_concat comp_def length_sha256 sum_list_triv)

lemma nibble_hex: "is_hex (hexes ! unat (x AND 15 :: w32))"
proof -
  have "unat (x AND 15) \<le> unat (15 :: w32)"
    by (rule word_and_le1 [THEN word_le_nat_alt [THEN iffD1]])
  moreover have "length hexes = 16" by (simp add: hexes_def)
  ultimately show ?thesis unfolding is_hex_def by (intro nth_mem) simp
qed

lemma sha256Hex_pattern [simp]: "sha256_pattern (sha256Hex s)"
proof -
  have "length (sha256Hex s) = 64"
    by (simp add: sha256Hex_def length_concat comp_def byte_hex_def sum_list_triv length_digest_bytes)
  moreover have "list_all is_hex (sha256Hex s)"
    by (auto simp: sha256Hex_def list_all_iff byte_hex_def nibble_hex)
  ultimately show ?thesis by (simp add: sha256_pattern_def all_chars_def)
qed

text \<open>\<open>isNonzeroHexIdentity\<close>: a hexadecimal identity of the given length that is not all zeros.\<close>

definition isNonzeroHexIdentity :: "json option \<Rightarrow> nat \<Rightarrow> bool" where
  "isNonzeroHexIdentity v n =
     is_str v (\<lambda>s. length s = n \<and> s \<noteq> [] \<and> list_all is_hex s \<and> list_ex (\<lambda>c. is_hex c \<and> c \<noteq> CHR ''0'') s)"

section \<open>Constant-time comparison\<close>

text \<open>The accumulated difference of the two digests, byte by byte.\<close>

definition constantTimeTextMatch :: "string \<Rightarrow> string \<Rightarrow> bool" where
  "constantTimeTextMatch candidate expected =
     (let left = digest_bytes candidate; right = digest_bytes expected;
          start = word_of_nat (length left) XOR word_of_nat (length right)
      in foldl (\<lambda>d lr. d OR (fst lr XOR snd lr)) start (zip left right) = 0)"

lemma xor_zero: "(x :: w32) XOR y = 0 \<longleftrightarrow> x = y"
  by (auto simp: bit_eq_iff bit_xor_iff)

lemma fold_difference:
  "foldl (\<lambda>d lr. d OR (fst lr XOR snd lr)) (d :: w32) lrs = 0 \<longleftrightarrow> d = 0 \<and> (\<forall>lr \<in> set lrs. fst lr = snd lr)"
  by (induction lrs arbitrary: d) (auto simp: or_eq_0_iff xor_zero)

lemma zip_all_eq: "length xs = length ys \<Longrightarrow> (\<forall>p \<in> set (zip xs ys). fst p = snd p) \<longleftrightarrow> xs = ys"
  by (induction xs ys rule: list_induct2) auto

lemma constantTimeTextMatch_bytes:
  "constantTimeTextMatch c e \<longleftrightarrow> digest_bytes c = digest_bytes e"
  by (simp add: constantTimeTextMatch_def Let_def fold_difference zip_all_eq length_digest_bytes)

lemma constantTimeTextMatch_refl [simp]: "constantTimeTextMatch s s"
  by (simp add: constantTimeTextMatch_bytes)

section \<open>Times\<close>

text \<open>
  \<open>new Date(ms).toISOString()\<close>: \<open>None\<close> is the RangeError outside 100,000,000 days around the
  epoch. The calendar arithmetic is the proleptic Gregorian one.
\<close>

definition pad_left :: "nat \<Rightarrow> string \<Rightarrow> string" where
  "pad_left n s = replicate (n - length s) (CHR ''0'') @ s"

definition pad_int :: "nat \<Rightarrow> int \<Rightarrow> string" where
  "pad_int n i = pad_left n (nat_text (nat i))"

definition civil_from_days :: "int \<Rightarrow> int \<times> int \<times> int" where
  "civil_from_days days =
     (let z = days + 719468; era = z div 146097; doe = z mod 146097;
          yoe = (doe - doe div 1460 + doe div 36524 - doe div 146096) div 365;
          doy = doe - (365 * yoe + yoe div 4 - yoe div 100);
          mp = (5 * doy + 2) div 153; d = doy - (153 * mp + 2) div 5 + 1;
          m = (if mp < 10 then mp + 3 else mp - 9); y = yoe + era * 400
      in (if m \<le> 2 then y + 1 else y, m, d))"

definition year_text :: "int \<Rightarrow> string" where
  "year_text y = (if 0 \<le> y \<and> y \<le> 9999 then pad_int 4 y
                  else (if y < 0 then ''-'' else ''+'') @ pad_int 6 \<bar>y\<bar>)"

definition toISOString :: "int \<Rightarrow> string option" where
  "toISOString ms =
     (if \<bar>ms\<bar> > 8640000000000000 then None
      else let (y, m, d) = civil_from_days (ms div 86400000); t = ms mod 86400000
        in Some (year_text y @ ''-'' @ pad_int 2 m @ ''-'' @ pad_int 2 d @ ''T''
             @ pad_int 2 (t div 3600000) @ '':'' @ pad_int 2 (t div 60000 mod 60) @ '':''
             @ pad_int 2 (t div 1000 mod 60) @ ''.'' @ pad_int 3 (t mod 1000) @ ''Z''))"

lemma toISOString_epoch: "toISOString 0 = Some ''1970-01-01T00:00:00.000Z''"
  by code_simp

lemma toISOString_leap: "toISOString 951827696789 = Some ''2000-02-29T12:34:56.789Z''"
  by code_simp

lemma toISOString_range: "toISOString ms = None \<longleftrightarrow> \<bar>ms\<bar> > 8640000000000000"
  by (simp add: toISOString_def Let_def split: prod.splits)

end
