(* ===== verification/Js_Vectors.thy ===== *)
theory Js_Vectors imports Js_Digest begin

text \<open>
  The digest model against the published test vector of SHA-256, evaluated in the kernel.
\<close>

lemma sha256Hex_abc:
  "sha256Hex ''abc'' = ''ba7816bf8f01cfea414140de5dae2223b00361a396177a9cb410ff61f20015ad''"
  by code_simp

end
