(* ===== verification/Checkout_Receipts.thy ===== *)
theory Checkout_Receipts imports Js_Digest begin

text \<open>
  \<open>src/src/core/checkout-receipts.ts\<close>: the receipts a provider returns for a guardrail check and
  for a settlement. A receipt is accepted only when it has exactly the contract's fields, agrees
  with what the checkout expects and carries the digest of its own content; a settlement receipt
  is stored as canonical JSON and restored through the same check.
\<close>

section \<open>Model\<close>

definition CHECKOUT_PROVIDER_CONTRACT :: string where
  "CHECKOUT_PROVIDER_CONTRACT = ''commerce.checkout-provider/v1''"

definition hasProviderContract :: "json \<Rightarrow> string \<Rightarrow> bool" where
  "hasProviderContract v contract = (isRecord v \<and> field v ''contract'' = Some (JStr contract))"

definition GUARDRAIL_RECEIPT_SCHEMA :: string where
  "GUARDRAIL_RECEIPT_SCHEMA = ''commerce.guardrail-receipt/v1''"

definition SETTLEMENT_RECEIPT_SCHEMA :: string where
  "SETTLEMENT_RECEIPT_SCHEMA = ''commerce.settlement-receipt/v1''"

definition idempotency_key_pattern :: "string \<Rightarrow> bool" where
  "idempotency_key_pattern = all_chars is_graph 1 256"

datatype receipt_error = Receipt_invalid | Receipt_mismatch

record guardrail_receipt =
  gr_receiptId :: string
  gr_checkoutId :: string
  gr_intentId :: string
  gr_agentId :: string
  gr_offerReceiptDigest :: string
  gr_amountMinor :: int
  gr_budgetMinor :: int
  gr_currency :: string
  gr_providerRevision :: string
  gr_receiptDigest :: string

record guardrail_expected =
  ge_checkoutId :: string
  ge_intentId :: string
  ge_agentId :: string
  ge_offerReceiptDigest :: string
  ge_amountMinor :: jsnum
  ge_budgetMinor :: jsnum
  ge_currency :: string
  ge_providerRevision :: string

record settlement_receipt =
  sr_settlementId :: string
  sr_checkoutId :: string
  sr_offerId :: string
  sr_amountMinor :: int
  sr_currency :: string
  sr_idempotencyKey :: string
  sr_humanConfirmationDigest :: string
  sr_guardrailReceiptDigest :: string
  sr_providerRevision :: string
  sr_receiptDigest :: string

record settlement_expected =
  se_checkoutId :: string
  se_offerId :: string
  se_amountMinor :: int
  se_currency :: string
  se_idempotencyKey :: string
  se_humanConfirmationDigest :: string
  se_guardrailReceiptDigest :: string
  se_providerRevision :: string

definition guardrail_json :: "guardrail_receipt \<Rightarrow> json" where
  "guardrail_json r = JObj [
     (''schema'', JStr GUARDRAIL_RECEIPT_SCHEMA),
     (''receiptId'', JStr (gr_receiptId r)),
     (''checkoutId'', JStr (gr_checkoutId r)),
     (''intentId'', JStr (gr_intentId r)),
     (''agentId'', JStr (gr_agentId r)),
     (''offerReceiptDigest'', JStr (gr_offerReceiptDigest r)),
     (''amountMinor'', JNum (Integer (gr_amountMinor r))),
     (''budgetMinor'', JNum (Integer (gr_budgetMinor r))),
     (''currency'', JStr (gr_currency r)),
     (''providerRevision'', JStr (gr_providerRevision r)),
     (''receiptDigest'', JStr (gr_receiptDigest r))]"

definition settlement_json :: "settlement_receipt \<Rightarrow> json" where
  "settlement_json r = JObj [
     (''schema'', JStr SETTLEMENT_RECEIPT_SCHEMA),
     (''settlementId'', JStr (sr_settlementId r)),
     (''checkoutId'', JStr (sr_checkoutId r)),
     (''offerId'', JStr (sr_offerId r)),
     (''amountMinor'', JNum (Integer (sr_amountMinor r))),
     (''currency'', JStr (sr_currency r)),
     (''idempotencyKey'', JStr (sr_idempotencyKey r)),
     (''humanConfirmationDigest'', JStr (sr_humanConfirmationDigest r)),
     (''guardrailReceiptDigest'', JStr (sr_guardrailReceiptDigest r)),
     (''providerRevision'', JStr (sr_providerRevision r)),
     (''state'', JStr ''settled''),
     (''receiptDigest'', JStr (sr_receiptDigest r))]"

fun withoutReceiptDigest :: "json \<Rightarrow> json" where
  "withoutReceiptDigest (JObj kvs) = JObj (filter (\<lambda>kv. fst kv \<noteq> ''receiptDigest'') kvs)"
| "withoutReceiptDigest v = v"

definition digestGuardrailReceipt :: "guardrail_receipt \<Rightarrow> string" where
  "digestGuardrailReceipt r = sha256Hex (canonicalJson (withoutReceiptDigest (guardrail_json r)))"

definition digestSettlementReceipt :: "settlement_receipt \<Rightarrow> string" where
  "digestSettlementReceipt r = sha256Hex (canonicalJson (withoutReceiptDigest (settlement_json r)))"

definition GUARDRAIL_KEYS :: string where
  "GUARDRAIL_KEYS = ''agentId,amountMinor,budgetMinor,checkoutId,currency,intentId,offerReceiptDigest,providerRevision,receiptDigest,receiptId,schema''"

definition SETTLEMENT_KEYS :: string where
  "SETTLEMENT_KEYS = ''amountMinor,checkoutId,currency,guardrailReceiptDigest,humanConfirmationDigest,idempotencyKey,offerId,providerRevision,receiptDigest,schema,settlementId,state''"

definition guardrail_shape :: "json \<Rightarrow> bool" where
  "guardrail_shape receipt =
     (keys_text receipt = GUARDRAIL_KEYS
      \<and> field receipt ''schema'' = Some (JStr GUARDRAIL_RECEIPT_SCHEMA)
      \<and> is_str (field receipt ''receiptId'') (id_pattern 127)
      \<and> is_str (field receipt ''checkoutId'') (id_pattern 127)
      \<and> is_str (field receipt ''intentId'') (id_pattern 127)
      \<and> is_str (field receipt ''agentId'') (id_pattern 127)
      \<and> is_str (field receipt ''offerReceiptDigest'') sha256_pattern
      \<and> is_num (field receipt ''amountMinor'') (safe_ge 1)
      \<and> is_num (field receipt ''budgetMinor'') (safe_ge (int_of receipt ''amountMinor''))
      \<and> is_str (field receipt ''currency'') currency_pattern
      \<and> is_str (field receipt ''providerRevision'') sha1_pattern
      \<and> is_str (field receipt ''receiptDigest'') sha256_pattern)"

definition guardrail_of :: "json \<Rightarrow> guardrail_receipt" where
  "guardrail_of receipt = \<lparr>
     gr_receiptId = text_of receipt ''receiptId'',
     gr_checkoutId = text_of receipt ''checkoutId'',
     gr_intentId = text_of receipt ''intentId'',
     gr_agentId = text_of receipt ''agentId'',
     gr_offerReceiptDigest = text_of receipt ''offerReceiptDigest'',
     gr_amountMinor = int_of receipt ''amountMinor'',
     gr_budgetMinor = int_of receipt ''budgetMinor'',
     gr_currency = text_of receipt ''currency'',
     gr_providerRevision = text_of receipt ''providerRevision'',
     gr_receiptDigest = text_of receipt ''receiptDigest''\<rparr>"

definition guardrail_matches :: "guardrail_receipt \<Rightarrow> guardrail_expected \<Rightarrow> bool" where
  "guardrail_matches r e =
     (gr_checkoutId r = ge_checkoutId e \<and> gr_intentId r = ge_intentId e \<and> gr_agentId r = ge_agentId e
      \<and> gr_offerReceiptDigest r = ge_offerReceiptDigest e
      \<and> Integer (gr_amountMinor r) = ge_amountMinor e \<and> Integer (gr_budgetMinor r) = ge_budgetMinor e
      \<and> gr_currency r = ge_currency e \<and> gr_providerRevision r = ge_providerRevision e)"

definition normalizeGuardrailReceipt :: "json \<Rightarrow> guardrail_expected \<Rightarrow> receipt_error + guardrail_receipt" where
  "normalizeGuardrailReceipt value' expected =
     (if \<not> isRecord value'
         \<or> keys_text value' \<noteq> ''contract,guardrailPassed,guardrailReceipt,ok''
         \<or> field value' ''ok'' \<noteq> Some (JBool True)
         \<or> field value' ''contract'' \<noteq> Some (JStr CHECKOUT_PROVIDER_CONTRACT)
         \<or> field value' ''guardrailPassed'' \<noteq> Some (JBool True)
      then Inl Receipt_invalid
      else case field value' ''guardrailReceipt'' of
        None \<Rightarrow> Inl Receipt_invalid
      | Some receipt \<Rightarrow>
          if \<not> isRecord receipt \<or> \<not> guardrail_shape receipt then Inl Receipt_invalid
          else let normalized = guardrail_of receipt
            in if \<not> guardrail_matches normalized expected
                  \<or> gr_receiptDigest normalized \<noteq> digestGuardrailReceipt normalized
               then Inl Receipt_mismatch else Inr normalized)"

definition settlement_shape :: "json \<Rightarrow> bool" where
  "settlement_shape receipt =
     (keys_text receipt = SETTLEMENT_KEYS
      \<and> field receipt ''schema'' = Some (JStr SETTLEMENT_RECEIPT_SCHEMA)
      \<and> field receipt ''state'' = Some (JStr ''settled'')
      \<and> is_str (field receipt ''settlementId'') (id_pattern 127)
      \<and> is_str (field receipt ''checkoutId'') (id_pattern 127)
      \<and> is_str (field receipt ''offerId'') (id_pattern 127)
      \<and> is_num (field receipt ''amountMinor'') (safe_ge 1)
      \<and> is_str (field receipt ''currency'') currency_pattern
      \<and> is_str (field receipt ''idempotencyKey'') idempotency_key_pattern
      \<and> is_str (field receipt ''humanConfirmationDigest'') sha256_pattern
      \<and> is_str (field receipt ''guardrailReceiptDigest'') sha256_pattern
      \<and> is_str (field receipt ''providerRevision'') sha1_pattern
      \<and> is_str (field receipt ''receiptDigest'') sha256_pattern)"

definition settlement_of :: "json \<Rightarrow> settlement_receipt" where
  "settlement_of receipt = \<lparr>
     sr_settlementId = text_of receipt ''settlementId'',
     sr_checkoutId = text_of receipt ''checkoutId'',
     sr_offerId = text_of receipt ''offerId'',
     sr_amountMinor = int_of receipt ''amountMinor'',
     sr_currency = text_of receipt ''currency'',
     sr_idempotencyKey = text_of receipt ''idempotencyKey'',
     sr_humanConfirmationDigest = text_of receipt ''humanConfirmationDigest'',
     sr_guardrailReceiptDigest = text_of receipt ''guardrailReceiptDigest'',
     sr_providerRevision = text_of receipt ''providerRevision'',
     sr_receiptDigest = text_of receipt ''receiptDigest''\<rparr>"

definition settlement_matches :: "settlement_receipt \<Rightarrow> settlement_expected \<Rightarrow> bool" where
  "settlement_matches r e =
     (sr_checkoutId r = se_checkoutId e \<and> sr_offerId r = se_offerId e
      \<and> sr_amountMinor r = se_amountMinor e \<and> sr_currency r = se_currency e
      \<and> sr_idempotencyKey r = se_idempotencyKey e
      \<and> sr_humanConfirmationDigest r = se_humanConfirmationDigest e
      \<and> sr_guardrailReceiptDigest r = se_guardrailReceiptDigest e
      \<and> sr_providerRevision r = se_providerRevision e)"

definition normalizeSettlementReceipt :: "json \<Rightarrow> settlement_expected \<Rightarrow> receipt_error + settlement_receipt" where
  "normalizeSettlementReceipt value' expected =
     (if \<not> isRecord value'
         \<or> keys_text value' \<noteq> ''contract,ok,settlementReceipt''
         \<or> field value' ''ok'' \<noteq> Some (JBool True)
         \<or> field value' ''contract'' \<noteq> Some (JStr CHECKOUT_PROVIDER_CONTRACT)
      then Inl Receipt_invalid
      else case field value' ''settlementReceipt'' of
        None \<Rightarrow> Inl Receipt_invalid
      | Some receipt \<Rightarrow>
          if \<not> isRecord receipt \<or> \<not> settlement_shape receipt then Inl Receipt_invalid
          else let normalized = settlement_of receipt
            in if \<not> settlement_matches normalized expected
                  \<or> sr_receiptDigest normalized \<noteq> digestSettlementReceipt normalized
               then Inl Receipt_mismatch else Inr normalized)"

text \<open>A column that is null or empty restores nothing; a text that does not parse neither.\<close>

definition restoreSettlementReceipt :: "string option \<Rightarrow> settlement_expected \<Rightarrow> settlement_receipt option" where
  "restoreSettlementReceipt serialized expected =
     (case serialized of
        None \<Rightarrow> None
      | Some s \<Rightarrow>
          if s = '''' then None
          else case json_parse s of
            None \<Rightarrow> None
          | Some v \<Rightarrow>
              (case normalizeSettlementReceipt (JObj [
                   (''contract'', JStr CHECKOUT_PROVIDER_CONTRACT),
                   (''ok'', JBool True),
                   (''settlementReceipt'', v)]) expected of
                 Inr r \<Rightarrow> Some r
               | Inl _ \<Rightarrow> None))"

section \<open>What an accepted receipt is\<close>

definition settlement_ok :: "settlement_receipt \<Rightarrow> bool" where
  "settlement_ok r =
     (id_pattern 127 (sr_settlementId r) \<and> id_pattern 127 (sr_checkoutId r) \<and> id_pattern 127 (sr_offerId r)
      \<and> 1 \<le> sr_amountMinor r \<and> sr_amountMinor r \<le> max_safe \<and> currency_pattern (sr_currency r)
      \<and> idempotency_key_pattern (sr_idempotencyKey r) \<and> sha256_pattern (sr_humanConfirmationDigest r)
      \<and> sha256_pattern (sr_guardrailReceiptDigest r) \<and> sha1_pattern (sr_providerRevision r)
      \<and> sha256_pattern (sr_receiptDigest r) \<and> sr_receiptDigest r = digestSettlementReceipt r)"

definition guardrail_ok :: "guardrail_receipt \<Rightarrow> bool" where
  "guardrail_ok r =
     (id_pattern 127 (gr_receiptId r) \<and> id_pattern 127 (gr_checkoutId r) \<and> id_pattern 127 (gr_intentId r)
      \<and> id_pattern 127 (gr_agentId r) \<and> sha256_pattern (gr_offerReceiptDigest r)
      \<and> 1 \<le> gr_amountMinor r \<and> gr_amountMinor r \<le> gr_budgetMinor r \<and> gr_budgetMinor r \<le> max_safe
      \<and> currency_pattern (gr_currency r) \<and> sha1_pattern (gr_providerRevision r)
      \<and> sha256_pattern (gr_receiptDigest r) \<and> gr_receiptDigest r = digestGuardrailReceipt r)"

lemmas receipt_fields = text_of_is_str int_of_is_num

lemma digest_patterns [simp]: "sha256_pattern (digestSettlementReceipt r)" "sha256_pattern (digestGuardrailReceipt g)"
  by (simp_all add: digestSettlementReceipt_def digestGuardrailReceipt_def)

lemma storable_settlement_json [simp]: "storable (settlement_json r)"
  by (simp add: settlement_json_def storable_JObj)

lemma storable_guardrail_json [simp]: "storable (guardrail_json r)"
  by (simp add: guardrail_json_def storable_JObj)

lemma settlement_keys_text: "keys_text (canonicalValue (settlement_json r)) = SETTLEMENT_KEYS"
proof -
  let ?ks = "[''amountMinor'', ''checkoutId'', ''currency'', ''guardrailReceiptDigest'', ''humanConfirmationDigest'',
    ''idempotencyKey'', ''offerId'', ''providerRevision'', ''receiptDigest'', ''schema'', ''settlementId'', ''state'']"
  have "successively (\<lambda>l r. compareText l r \<le> 0) ?ks \<and> distinct ?ks" by code_simp
  moreover have "set (keys_of (settlement_json r)) = set ?ks" by (auto simp: settlement_json_def)
  ultimately have "keys_text (canonicalValue (settlement_json r)) = join_comma ?ks"
    by (intro keys_text_unique) (simp_all add: distinct_keys_canonicalValue)
  then show ?thesis by (simp add: SETTLEMENT_KEYS_def)
qed

lemma normalizeSettlement_ok:
  assumes "normalizeSettlementReceipt v e = Inr r"
  shows "settlement_ok r \<and> settlement_matches r e"
proof -
  from assms obtain receipt where f: "field v ''settlementReceipt'' = Some receipt" and sh: "settlement_shape receipt"
    and r: "r = settlement_of receipt" "settlement_matches r e" "sr_receiptDigest r = digestSettlementReceipt r"
    by (auto simp: normalizeSettlementReceipt_def Let_def split: if_splits option.splits)
  from sh have "id_pattern 127 (sr_settlementId r) \<and> id_pattern 127 (sr_checkoutId r) \<and> id_pattern 127 (sr_offerId r)
      \<and> 1 \<le> sr_amountMinor r \<and> sr_amountMinor r \<le> max_safe \<and> currency_pattern (sr_currency r)
      \<and> idempotency_key_pattern (sr_idempotencyKey r) \<and> sha256_pattern (sr_humanConfirmationDigest r)
      \<and> sha256_pattern (sr_guardrailReceiptDigest r) \<and> sha1_pattern (sr_providerRevision r)
      \<and> sha256_pattern (sr_receiptDigest r)"
    unfolding r(1) settlement_shape_def settlement_of_def
    by (auto dest!: receipt_fields)
  with r show ?thesis by (simp add: settlement_ok_def)
qed

lemma normalizeGuardrail_ok:
  assumes "normalizeGuardrailReceipt v e = Inr r"
  shows "guardrail_ok r \<and> guardrail_matches r e"
proof -
  from assms obtain receipt where f: "field v ''guardrailReceipt'' = Some receipt" and sh: "guardrail_shape receipt"
    and r: "r = guardrail_of receipt" "guardrail_matches r e" "gr_receiptDigest r = digestGuardrailReceipt r"
    by (auto simp: normalizeGuardrailReceipt_def Let_def split: if_splits option.splits)
  from sh have "id_pattern 127 (gr_receiptId r) \<and> id_pattern 127 (gr_checkoutId r) \<and> id_pattern 127 (gr_intentId r)
      \<and> id_pattern 127 (gr_agentId r) \<and> sha256_pattern (gr_offerReceiptDigest r)
      \<and> 1 \<le> gr_amountMinor r \<and> gr_amountMinor r \<le> gr_budgetMinor r \<and> gr_budgetMinor r \<le> max_safe
      \<and> currency_pattern (gr_currency r) \<and> sha1_pattern (gr_providerRevision r)
      \<and> sha256_pattern (gr_receiptDigest r)"
    unfolding r(1) guardrail_shape_def guardrail_of_def
    by (auto dest!: receipt_fields)
  with r show ?thesis by (simp add: guardrail_ok_def)
qed

text \<open>The canonical form of a sound receipt has the shape, and reads back as the receipt.\<close>

lemma settlement_canonical_fields:
  "field (canonicalValue (settlement_json r)) k = map_option canonicalValue (field (settlement_json r) k)"
  by (rule field_canonicalValue) simp

lemma settlement_canonical_shape:
  assumes "settlement_ok r"
  shows "settlement_shape (canonicalValue (settlement_json r)) \<and> settlement_of (canonicalValue (settlement_json r)) = r"
  using assms
  by (simp add: settlement_shape_def settlement_of_def settlement_keys_text settlement_canonical_fields
      text_of_def int_of_def settlement_ok_def) (simp add: settlement_json_def)

lemma payload_keys_text:
  "keys_text (JObj [(''contract'', a), (''ok'', b), (''settlementReceipt'', c)]) = ''contract,ok,settlementReceipt''"
proof -
  have "join_comma (sort_by (\<lambda>l r. compareText l r \<le> 0) [''contract'', ''ok'', ''settlementReceipt'']) =
      ''contract,ok,settlementReceipt''" by code_simp
  then show ?thesis by (simp add: keys_text_def)
qed

lemma canonicalJson_nonempty: "canonicalJson (JObj kvs) \<noteq> ''''"
  by (simp add: canonicalJson_def canonicalValue_JObj json_text_JObj)

text \<open>A receipt that was accepted is restored from its stored text, for the same expectation.\<close>

lemma restore_accepted:
  assumes "settlement_ok r" "settlement_matches r e"
  shows "restoreSettlementReceipt (Some (canonicalJson (settlement_json r))) e = Some r"
proof -
  have "canonicalJson (settlement_json r) \<noteq> ''''" by (simp add: settlement_json_def canonicalJson_nonempty)
  moreover have "isRecord (canonicalValue (settlement_json r))" by (simp add: settlement_json_def)
  moreover have "sr_receiptDigest r = digestSettlementReceipt r" using assms by (simp add: settlement_ok_def)
  ultimately show ?thesis
    using assms settlement_canonical_shape [OF assms(1)]
    by (simp add: restoreSettlementReceipt_def json_parse_canonicalJson normalizeSettlementReceipt_def
        payload_keys_text Let_def)
qed

lemma restore_sound:
  assumes "restoreSettlementReceipt s e = Some r"
  shows "settlement_ok r \<and> settlement_matches r e"
  using assms normalizeSettlement_ok
  by (fastforce simp: restoreSettlementReceipt_def split: option.splits if_splits sum.splits)

section \<open>Properties\<close>

text \<open>
  A settlement receipt survives storage exactly: whatever payload was accepted for an
  expectation, the canonical JSON of the accepted receipt is restored to the same receipt under
  the same expectation, and is refused under any expectation it disagrees with; the accepted
  receipt itself is well formed, matches and carries the digest of its own content.
\<close>

theorem settlement_receipt_roundtrip:
  assumes "normalizeSettlementReceipt payload e = Inr r"
  shows "restoreSettlementReceipt (Some (canonicalJson (settlement_json r))) e = Some r
    \<and> settlement_ok r \<and> settlement_matches r e
    \<and> (\<not> settlement_matches r e' \<longrightarrow> restoreSettlementReceipt (Some (canonicalJson (settlement_json r))) e' = None)"
proof -
  note ok = normalizeSettlement_ok [OF assms]
  have "restoreSettlementReceipt (Some (canonicalJson (settlement_json r))) e' = None" if "\<not> settlement_matches r e'"
    using that settlement_canonical_shape [of r] ok
    by (auto simp: restoreSettlementReceipt_def json_parse_canonicalJson normalizeSettlementReceipt_def
        payload_keys_text Let_def)
  with ok restore_accepted show ?thesis by blast
qed

definition sign_receipt :: "settlement_receipt \<Rightarrow> settlement_receipt" where
  "sign_receipt r = r\<lparr>sr_receiptDigest := digestSettlementReceipt r\<rparr>"

definition sample_receipt :: settlement_receipt where
  "sample_receipt = sign_receipt \<lparr>sr_settlementId = ''set-1'', sr_checkoutId = ''chk-1'',
     sr_offerId = ''offer-1'', sr_amountMinor = 1999, sr_currency = ''EUR'',
     sr_idempotencyKey = ''checkout-confirm:chk-1'',
     sr_humanConfirmationDigest = sha256Hex ''human'', sr_guardrailReceiptDigest = sha256Hex ''guardrail'',
     sr_providerRevision = replicate 40 (CHR ''a''), sr_receiptDigest = []\<rparr>"

lemma digest_ignores_digest: "digestSettlementReceipt (r\<lparr>sr_receiptDigest := d\<rparr>) = digestSettlementReceipt r"
  by (simp add: digestSettlementReceipt_def settlement_json_def)

lemma sign_receipt_digest: "sr_receiptDigest (sign_receipt r) = digestSettlementReceipt (sign_receipt r)"
  by (simp add: sign_receipt_def digest_ignores_digest)

lemma sign_receipt_ok:
  "settlement_ok (sign_receipt r) \<longleftrightarrow>
     (id_pattern 127 (sr_settlementId r) \<and> id_pattern 127 (sr_checkoutId r) \<and> id_pattern 127 (sr_offerId r)
      \<and> 1 \<le> sr_amountMinor r \<and> sr_amountMinor r \<le> max_safe \<and> currency_pattern (sr_currency r)
      \<and> idempotency_key_pattern (sr_idempotencyKey r) \<and> sha256_pattern (sr_humanConfirmationDigest r)
      \<and> sha256_pattern (sr_guardrailReceiptDigest r) \<and> sha1_pattern (sr_providerRevision r))"
  using sign_receipt_digest [of r] by (auto simp: settlement_ok_def) (simp_all add: sign_receipt_def)

definition expected_of :: "settlement_receipt \<Rightarrow> settlement_expected" where
  "expected_of r = \<lparr>se_checkoutId = sr_checkoutId r, se_offerId = sr_offerId r, se_amountMinor = sr_amountMinor r,
     se_currency = sr_currency r, se_idempotencyKey = sr_idempotencyKey r,
     se_humanConfirmationDigest = sr_humanConfirmationDigest r,
     se_guardrailReceiptDigest = sr_guardrailReceiptDigest r, se_providerRevision = sr_providerRevision r\<rparr>"

definition payload_of :: "settlement_receipt \<Rightarrow> json" where
  "payload_of r = JObj [(''contract'', JStr CHECKOUT_PROVIDER_CONTRACT), (''ok'', JBool True),
     (''settlementReceipt'', canonicalValue (settlement_json r))]"

lemma settlement_matches_iff: "settlement_matches r e \<longleftrightarrow> e = expected_of r"
  by (auto simp: settlement_matches_def expected_of_def)

lemma normalize_payload_of:
  assumes "settlement_ok r" shows "normalizeSettlementReceipt (payload_of r) (expected_of r) = Inr r"
proof -
  have "isRecord (canonicalValue (settlement_json r))" by (simp add: settlement_json_def)
  with assms settlement_canonical_shape [OF assms] show ?thesis
    by (simp add: normalizeSettlementReceipt_def payload_of_def payload_keys_text Let_def settlement_matches_iff
        settlement_ok_def)
qed

lemma sample_receipt_ok: "settlement_ok sample_receipt"
proof -
  have "id_pattern 127 ''set-1''" "id_pattern 127 ''chk-1''" "id_pattern 127 ''offer-1''" "currency_pattern ''EUR''"
    "idempotency_key_pattern ''checkout-confirm:chk-1''" "sha1_pattern (replicate 40 (CHR ''a''))"
    by code_simp+
  then show ?thesis
    by (simp add: sample_receipt_def sign_receipt_ok max_safe_def)
qed

theorem settlement_receipt_roundtrip_witness:
  "restoreSettlementReceipt (Some (canonicalJson (settlement_json sample_receipt))) (expected_of sample_receipt)
     = Some sample_receipt"
  using settlement_receipt_roundtrip [OF normalize_payload_of [OF sample_receipt_ok]] by blast

section \<open>Accepted payloads can be stored\<close>

lemma settlement_shape_storable:
  assumes "isRecord receipt" "settlement_shape receipt" shows "storable receipt"
proof (rule storable_exact [OF assms(1), where ks = "[''amountMinor'', ''checkoutId'', ''currency'',
    ''guardrailReceiptDigest'', ''humanConfirmationDigest'', ''idempotencyKey'', ''offerId'', ''providerRevision'',
    ''receiptDigest'', ''schema'', ''settlementId'', ''state'']"])
  show "keys_text receipt = join_comma [''amountMinor'', ''checkoutId'', ''currency'',
    ''guardrailReceiptDigest'', ''humanConfirmationDigest'', ''idempotencyKey'', ''offerId'', ''providerRevision'',
    ''receiptDigest'', ''schema'', ''settlementId'', ''state'']"
    using assms(2) by (simp add: settlement_shape_def SETTLEMENT_KEYS_def)
qed (use assms(2) in \<open>auto simp: settlement_shape_def dest!: receipt_fields\<close>)

lemma settlement_payload_storable:
  assumes "normalizeSettlementReceipt v e = Inr r" shows "storable v"
proof -
  from assms obtain receipt where r: "isRecord v" "keys_text v = ''contract,ok,settlementReceipt''"
    "field v ''ok'' = Some (JBool True)" "field v ''contract'' = Some (JStr CHECKOUT_PROVIDER_CONTRACT)"
    "field v ''settlementReceipt'' = Some receipt" "isRecord receipt" "settlement_shape receipt"
    by (auto simp: normalizeSettlementReceipt_def Let_def split: if_splits option.splits)
  show ?thesis
    by (rule storable_exact [OF r(1), where ks = "[''contract'', ''ok'', ''settlementReceipt'']"])
      (use r settlement_shape_storable in auto)
qed

lemma guardrail_keys_text: "keys_text (canonicalValue (guardrail_json r)) = GUARDRAIL_KEYS"
proof -
  let ?ks = "[''agentId'', ''amountMinor'', ''budgetMinor'', ''checkoutId'', ''currency'', ''intentId'',
    ''offerReceiptDigest'', ''providerRevision'', ''receiptDigest'', ''receiptId'', ''schema'']"
  have "successively (\<lambda>l r. compareText l r \<le> 0) ?ks \<and> distinct ?ks" by code_simp
  moreover have "set (keys_of (guardrail_json r)) = set ?ks" by (auto simp: guardrail_json_def)
  ultimately have "keys_text (canonicalValue (guardrail_json r)) = join_comma ?ks"
    by (intro keys_text_unique) (simp_all add: distinct_keys_canonicalValue)
  then show ?thesis by (simp add: GUARDRAIL_KEYS_def)
qed

lemma guardrail_canonical_fields:
  "field (canonicalValue (guardrail_json r)) k = map_option canonicalValue (field (guardrail_json r) k)"
  by (rule field_canonicalValue) simp

lemma guardrail_canonical_shape:
  assumes "guardrail_ok r"
  shows "guardrail_shape (canonicalValue (guardrail_json r)) \<and> guardrail_of (canonicalValue (guardrail_json r)) = r"
  using assms
  by (simp add: guardrail_shape_def guardrail_of_def guardrail_keys_text guardrail_canonical_fields
      text_of_def int_of_def guardrail_ok_def) (simp add: guardrail_json_def)

definition guardrail_payload_of :: "guardrail_receipt \<Rightarrow> json" where
  "guardrail_payload_of r = JObj [(''contract'', JStr CHECKOUT_PROVIDER_CONTRACT), (''ok'', JBool True),
     (''guardrailPassed'', JBool True), (''guardrailReceipt'', canonicalValue (guardrail_json r))]"

lemma normalize_guardrail_payload_of:
  assumes "guardrail_ok r" "guardrail_matches r e"
  shows "normalizeGuardrailReceipt (guardrail_payload_of r) e = Inr r"
proof -
  have "join_comma (sort_by (\<lambda>l r. compareText l r \<le> 0) [''contract'', ''ok'', ''guardrailPassed'', ''guardrailReceipt'']) =
      ''contract,guardrailPassed,guardrailReceipt,ok''" by code_simp
  then have "keys_text (guardrail_payload_of r) = ''contract,guardrailPassed,guardrailReceipt,ok''"
    by (simp add: keys_text_def guardrail_payload_of_def)
  moreover have "isRecord (canonicalValue (guardrail_json r))" by (simp add: guardrail_json_def)
  ultimately show ?thesis
    using assms guardrail_canonical_shape [OF assms(1)]
    by (simp add: normalizeGuardrailReceipt_def Let_def guardrail_ok_def) (simp add: guardrail_payload_of_def)
qed

end
