(* ===== verification/Take_Rate.thy ===== *)
theory Take_Rate imports Js_Digest begin

text \<open>
  \<open>src/src/core/take-rate.ts\<close>: reading the configured take rate in basis points, the readiness
  check of the configuration, and the markup of a settled amount.
\<close>

section \<open>Model\<close>

definition MAXIMUM_RATE_BASIS_POINTS :: int where
  "MAXIMUM_RATE_BASIS_POINTS = 1000"

datatype rate_condition = Rate_absent | Rate_non_numeric | Rate_negative | Rate_zero
  | Rate_above_maximum | Rate_not_integer

datatype range_error = Settled_amount_minor_invalid | Rate_basis_points_invalid
  | Markup_minor_out_of_range

text \<open>\<open>/^-?[0-9]+$/u\<close> and \<open>/^-?[0-9]+(?:\.[0-9]+)?$/u\<close>, with the number \<open>Number(value)\<close> reads.\<close>

definition unsigned_number :: "bool \<Rightarrow> string \<Rightarrow> bool \<Rightarrow> jsnum option" where
  "unsigned_number neg s fraction =
     (let ds = takeWhile is_digit s; r = dropWhile is_digit s
      in if ds = [] then None
         else if r = [] then Some (scaled_number neg (digits_value ds) 0)
         else if fraction \<and> hd r = CHR ''.'' \<and> tl r \<noteq> [] \<and> list_all is_digit (tl r)
           then Some (scaled_number neg (digits_value (ds @ tl r)) (int (length (tl r))))
         else None)"

definition decimal_text :: "bool \<Rightarrow> string \<Rightarrow> jsnum option" where
  "decimal_text fraction s =
     (case s of [] \<Rightarrow> None
      | c # cs \<Rightarrow> if c = CHR ''-'' then unsigned_number True cs fraction else unsigned_number False s fraction)"

definition in_rate_range :: "jsnum \<Rightarrow> int option" where
  "in_rate_range n =
     (if isSafeInteger n \<and> 1 \<le> the_int n \<and> the_int n \<le> MAXIMUM_RATE_BASIS_POINTS
      then Some (the_int n) else None)"

definition readRateBasisPoints :: "json option \<Rightarrow> int option" where
  "readRateBasisPoints v =
     (case v of
        Some (JStr s) \<Rightarrow> Option.bind (decimal_text False s) in_rate_range
      | Some (JNum n) \<Rightarrow> in_rate_range n
      | _ \<Rightarrow> None)"

definition number_condition :: "jsnum \<Rightarrow> rate_condition option" where
  "number_condition n =
     (case n of
        NotANumber \<Rightarrow> Some Rate_non_numeric
      | Infinite _ \<Rightarrow> Some Rate_non_numeric
      | Decimal _ _ \<Rightarrow> Some Rate_not_integer
      | Integer i \<Rightarrow>
          if i < 0 then Some Rate_negative
          else if i = 0 then Some Rate_zero
          else if i > MAXIMUM_RATE_BASIS_POINTS then Some Rate_above_maximum
          else None)"

definition takeRateConfigurationFailure :: "json option \<Rightarrow> rate_condition option" where
  "takeRateConfigurationFailure v =
     (if v = None \<or> v = Some JNull \<or> v = Some (JStr '''') then Some Rate_absent
      else number_condition
        (case v of
           Some (JNum n) \<Rightarrow> n
         | Some (JStr s) \<Rightarrow> (case decimal_text True s of Some n \<Rightarrow> n | None \<Rightarrow> NotANumber)
         | _ \<Rightarrow> NotANumber))"

definition computeMarkupMinor :: "jsnum \<Rightarrow> jsnum \<Rightarrow> range_error + int" where
  "computeMarkupMinor settled rate =
     (if \<not> isSafeInteger settled \<or> the_int settled < 0 then Inl Settled_amount_minor_invalid
      else if readRateBasisPoints (Some (JNum rate)) = None then Inl Rate_basis_points_invalid
      else let amount = the_int settled;
               rounded = (amount * the_int rate + 5000) div 10000;
               bounded = (if rounded > amount then amount else rounded)
        in if \<not> isSafeInteger (Integer bounded) then Inl Markup_minor_out_of_range else Inr bounded)"

section \<open>Properties\<close>

lemma in_rate_range_Some:
  "in_rate_range n = Some r \<longleftrightarrow> n = Integer r \<and> 1 \<le> r \<and> r \<le> 1000"
  by (cases n) (auto simp: in_rate_range_def MAXIMUM_RATE_BASIS_POINTS_def max_safe_def)

lemma readRate_range: "readRateBasisPoints v = Some r \<Longrightarrow> 1 \<le> r \<and> r \<le> 1000"
  by (auto simp: readRateBasisPoints_def in_rate_range_Some bind_eq_Some_conv
      split: option.splits json.splits)

lemma readRate_Num [simp]:
  "readRateBasisPoints (Some (JNum (Integer r))) = (if 1 \<le> r \<and> r \<le> 1000 then Some r else None)"
  by (auto simp: readRateBasisPoints_def in_rate_range_def MAXIMUM_RATE_BASIS_POINTS_def max_safe_def)

lemma readRate_JNum_Some:
  "readRateBasisPoints (Some (JNum n)) = Some r \<longleftrightarrow> n = Integer r \<and> 1 \<le> r \<and> r \<le> 1000"
  by (simp add: readRateBasisPoints_def in_rate_range_Some)

text \<open>The markup of a valid amount and rate, without the guards.\<close>

lemma computeMarkup_valid:
  assumes "0 \<le> a" "a \<le> max_safe" "1 \<le> r" "r \<le> 1000"
  shows "computeMarkupMinor (Integer a) (Integer r) = Inr (min a ((a * r + 5000) div 10000))"
proof -
  have "0 \<le> a * r" using assms by simp
  then have "0 \<le> (a * r + 5000) div 10000" by simp
  with assms show ?thesis by (auto simp: computeMarkupMinor_def Let_def min_def)
qed

lemma computeMarkup_Inr:
  "computeMarkupMinor s r = Inr m \<longleftrightarrow>
     (\<exists>a b. s = Integer a \<and> r = Integer b \<and> 0 \<le> a \<and> a \<le> max_safe \<and> 1 \<le> b \<and> b \<le> 1000
        \<and> m = min a ((a * b + 5000) div 10000))" (is "?l \<longleftrightarrow> ?r")
proof
  assume l: ?l
  then have "\<exists>a. s = Integer a \<and> 0 \<le> a \<and> a \<le> max_safe"
    by (auto simp: computeMarkupMinor_def isSafeInteger_Int split: if_splits)
  moreover from l have "\<exists>b. readRateBasisPoints (Some (JNum r)) = Some b"
    by (auto simp: computeMarkupMinor_def split: if_splits)
  then have "\<exists>b. r = Integer b \<and> 1 \<le> b \<and> b \<le> 1000" by (auto simp: readRate_JNum_Some)
  ultimately show ?r using l computeMarkup_valid by fastforce
qed (use computeMarkup_valid in auto)

lemma markup_bounds:
  fixes a r :: int
  assumes "0 \<le> a" "1 \<le> r" "r \<le> 1000"
  shows "0 \<le> min a ((a * r + 5000) div 10000)" "min a ((a * r + 5000) div 10000) \<le> a"
proof -
  have "0 \<le> a * r + 5000" using assms by simp
  then have "0 \<le> (a * r + 5000) div 10000" by (simp add: pos_imp_zdiv_nonneg_iff)
  then show "0 \<le> min a ((a * r + 5000) div 10000)" using assms by simp
qed simp

text \<open>
  The rounded markup never exceeds an amount of one minor unit or more, so the cap binds nowhere:
  the result is the product rounded half up.
\<close>

lemma markup_cap_idle:
  fixes a r :: int
  assumes "0 \<le> a" "1 \<le> r" "r \<le> 1000"
  shows "min a ((a * r + 5000) div 10000) = (a * r + 5000) div 10000"
proof -
  have "a * r \<le> a * 1000" using assms by (simp add: mult_left_mono)
  then have "(a * r + 5000) div 10000 \<le> (a * 1000 + 5000) div 10000" by (intro zdiv_mono1) auto
  also have "\<dots> \<le> a" using assms by (cases "a = 0") auto
  finally show ?thesis by simp
qed

lemma markup_mono:
  fixes a r :: int
  assumes "0 \<le> a" "a \<le> a'" "1 \<le> r" "r \<le> 1000" "r \<le> r'" "r' \<le> 1000"
  shows "(a * r + 5000) div 10000 \<le> (a' * r' + 5000) div 10000"
proof -
  have "a * r \<le> a' * r'" using assms by (simp add: mult_mono)
  then show ?thesis by (intro zdiv_mono1) auto
qed

lemma half_up_error:
  fixes x :: int
  shows "- 5000 \<le> x - 10000 * ((x + 5000) div 10000) \<and> x - 10000 * ((x + 5000) div 10000) < 5000"
proof -
  have "10000 * ((x + 5000) div 10000) + (x + 5000) mod 10000 = x + 5000" by (rule mult_div_mod_eq)
  moreover have "0 \<le> (x + 5000) mod 10000" "(x + 5000) mod 10000 < 10000" by simp_all
  ultimately show ?thesis by linarith
qed

text \<open>
  C40. The markup is total and exact on every valid settlement: for a safe, non-negative amount
  and a rate of 1 to 1000 basis points the computation returns, never more than the amount,
  and differs from the exact share \<open>amount * rate / 10000\<close> by at most half a minor unit,
  a tie going up.
\<close>

theorem markup_half_up:
  assumes "0 \<le> a" "a \<le> max_safe" "1 \<le> r" "r \<le> 1000"
  shows "\<exists>m. computeMarkupMinor (Integer a) (Integer r) = Inr m \<and> 0 \<le> m \<and> m \<le> a
    \<and> - 5000 \<le> a * r - 10000 * m \<and> a * r - 10000 * m < 5000"
proof -
  define m where "m = (a * r + 5000) div 10000"
  have "computeMarkupMinor (Integer a) (Integer r) = Inr m"
    using computeMarkup_valid [OF assms] markup_cap_idle [OF assms(1,3,4)] by (simp add: m_def)
  moreover have "0 \<le> m \<and> m \<le> a"
    using markup_bounds [OF assms(1,3,4)] markup_cap_idle [OF assms(1,3,4)] by (simp add: m_def)
  moreover have "- 5000 \<le> a * r - 10000 * m \<and> a * r - 10000 * m < 5000"
    using half_up_error [of "a * r"] by (simp add: m_def)
  ultimately show ?thesis by blast
qed

theorem markup_half_up_witness:
  "\<exists>m. computeMarkupMinor (Integer 9999) (Integer 250) = Inr m \<and> 0 \<le> m \<and> m \<le> 9999
    \<and> - 5000 \<le> 9999 * 250 - 10000 * m \<and> 9999 * 250 - 10000 * m < (5000 :: int)"
  using markup_half_up [of 9999 250] by (simp add: max_safe_def)

end
