(* ===== verification/Js_Sql.thy ===== *)
theory Js_Sql imports Js_Digest begin

text \<open>
  The SQL statements of the Durable Objects, on a table held as the list of its rows in insertion
  order. \<open>key\<close> reads a row's primary key. Each statement returns what the code reads of it: the
  row, the table, or the table with the number of rows written.
\<close>

section \<open>Exceptions\<close>

text \<open>\<open>Invalid_time\<close> is the RangeError that \<open>toISOString\<close> throws; the other
  exceptions are a text that is not JSON, a violated column constraint, and storage that is not available.
  An exception that is not caught leaves the object as a rejection.\<close>

datatype js_exn = Invalid_time | Json_syntax | Constraint_violation | Storage_failed

text \<open>What can happen to a call between objects: it runs and answers, it runs and its answer is lost, or it never arrives.\<close>

datatype delivery = Answered | Answer_lost | Undelivered

section \<open>Statements\<close>

definition select_key :: "('r \<Rightarrow> 'k) \<Rightarrow> 'k \<Rightarrow> 'r list \<Rightarrow> 'r option" where
  "select_key key k t = List.find (\<lambda>r. key r = k) t"

definition has_key :: "('r \<Rightarrow> 'k) \<Rightarrow> 'k \<Rightarrow> 'r list \<Rightarrow> bool" where
  "has_key key k t = list_ex (\<lambda>r. key r = k) t"

text \<open>\<open>INSERT ... ON CONFLICT DO NOTHING\<close>\<close>

definition insert_ignore :: "('r \<Rightarrow> 'k) \<Rightarrow> 'r \<Rightarrow> 'r list \<Rightarrow> 'r list \<times> nat" where
  "insert_ignore key r t = (if has_key key (key r) t then (t, 0) else (t @ [r], 1))"

text \<open>\<open>INSERT ... ON CONFLICT DO UPDATE SET\<close> every other column\<close>

definition upsert :: "('r \<Rightarrow> 'k) \<Rightarrow> 'r \<Rightarrow> 'r list \<Rightarrow> 'r list" where
  "upsert key r t =
     (if has_key key (key r) t then map (\<lambda>r'. if key r' = key r then r else r') t else t @ [r])"

definition update_where :: "('r \<Rightarrow> bool) \<Rightarrow> ('r \<Rightarrow> 'r) \<Rightarrow> 'r list \<Rightarrow> 'r list \<times> nat" where
  "update_where p f t = (map (\<lambda>r. if p r then f r else r) t, length (filter p t))"

definition delete_where :: "('r \<Rightarrow> bool) \<Rightarrow> 'r list \<Rightarrow> 'r list \<times> nat" where
  "delete_where p t = (filter (\<lambda>r. \<not> p r) t, length (filter p t))"

section \<open>Facts\<close>

named_theorems sql \<comment> \<open>what a statement returns, as rewrite rules\<close>

lemma has_key_iff: "has_key key k t \<longleftrightarrow> k \<in> key ` set t"
  by (auto simp: has_key_def list_ex_iff)

lemma select_key_Some: "select_key key k t = Some r \<Longrightarrow> r \<in> set t \<and> key r = k"
  by (auto simp: select_key_def find_Some_iff)

lemma select_key_None [sql]: "select_key key k t = None \<longleftrightarrow> k \<notin> key ` set t"
  by (auto simp: select_key_def find_None_iff)

lemma select_key_unique:
  "distinct (map key t) \<Longrightarrow> r \<in> set t \<Longrightarrow> select_key key (key r) t = Some r"
  by (induction t) (auto simp: select_key_def)

lemma select_key_iff:
  "distinct (map key t) \<Longrightarrow> select_key key k t = Some r \<longleftrightarrow> r \<in> set t \<and> key r = k"
  by (auto simp: select_key_unique dest: select_key_Some)

lemma select_key_append [sql]:
  "select_key key k (t @ [r]) =
     (case select_key key k t of Some r' \<Rightarrow> Some r' | None \<Rightarrow> if key r = k then Some r else None)"
  by (induction t) (auto simp: select_key_def)

lemma select_key_Nil [sql]: "select_key key k [] = None"
  by (simp add: select_key_def)

lemma select_key_absent: "k \<notin> key ` set t \<Longrightarrow> select_key key k t = None"
  by (simp add: sql)

lemma select_key_upsert [sql]:
  "select_key key k (upsert key r t) = (if k = key r then Some r else select_key key k t)"
proof -
  have "k \<noteq> key r \<Longrightarrow> select_key key k (map (\<lambda>r'. if key r' = key r then r else r') t) = select_key key k t"
    by (induction t) (auto simp: select_key_def)
  moreover have "key r \<in> key ` set t \<Longrightarrow>
      select_key key (key r) (map (\<lambda>r'. if key r' = key r then r else r') t) = Some r"
    by (induction t) (auto simp: select_key_def)
  ultimately show ?thesis
    by (auto simp: upsert_def has_key_iff select_key_append select_key_absent split: option.splits)
qed

lemma distinct_upsert:
  assumes "distinct (map key t)" shows "distinct (map key (upsert key r t))"
proof -
  have "map key (map (\<lambda>r'. if key r' = key r then r else r') t) = map key t"
    by (induction t) auto
  with assms show ?thesis by (auto simp: upsert_def has_key_iff simp del: map_map)
qed

lemma set_upsert: "set (upsert key r t) \<subseteq> insert r (set t)"
  by (auto simp: upsert_def split: if_splits)

lemma distinct_insert_ignore:
  "distinct (map key t) \<Longrightarrow> distinct (map key (fst (insert_ignore key r t)))"
  by (auto simp: insert_ignore_def has_key_iff)

lemma select_key_insert_ignore [sql]:
  "select_key key k (fst (insert_ignore key r t)) =
     (case select_key key k t of Some r' \<Rightarrow> Some r' | None \<Rightarrow> if key r = k then Some r else None)"
  by (auto simp: insert_ignore_def has_key_iff sql split: option.splits)

lemma distinct_delete_where:
  "distinct (map key t) \<Longrightarrow> distinct (map key (fst (delete_where p t)))"
  by (auto simp: delete_where_def distinct_map inj_on_def)

lemma select_key_delete [sql]:
  assumes "distinct (map key t)"
  shows "select_key key k (fst (delete_where p t)) =
     (case select_key key k t of None \<Rightarrow> None | Some r \<Rightarrow> if p r then None else Some r)"
proof -
  have iff: "select_key key k (fst (delete_where p t)) = Some r \<longleftrightarrow>
      select_key key k t = Some r \<and> \<not> p r" for r
    using select_key_iff [OF assms] select_key_iff [OF distinct_delete_where [OF assms]]
    by (auto simp: delete_where_def)
  show ?thesis
  proof (cases "select_key key k (fst (delete_where p t))")
    case None
    with iff show ?thesis by (cases "select_key key k t") auto
  next
    case (Some r)
    with iff [of r] show ?thesis by simp
  qed
qed

lemma set_upsert_eq: "set (upsert key r t) = insert r {x \<in> set t. key x \<noteq> key r}"
  by (auto simp: upsert_def has_key_iff image_iff)

lemma distinct_upsert_other:
  assumes "distinct (map key t)" "distinct (map key' t)" "\<And>x. x \<in> set t \<Longrightarrow> key x \<noteq> key r \<Longrightarrow> key' x \<noteq> key' r"
  shows "distinct (map key' (upsert key r t))"
proof -
  have "distinct (upsert key r t)"
    using distinct_upsert [OF assms(1)] by (simp add: distinct_map)
  moreover have "inj_on key' (set t)" using assms(2) by (simp add: distinct_map)
  moreover have "key' x \<noteq> key' r \<and> key' r \<noteq> key' x" if "x \<in> set t" "key x \<noteq> key r" for x
    using assms(3) [OF that] by metis
  ultimately show ?thesis
    by (auto simp: distinct_map set_upsert_eq inj_on_def)
qed

lemma set_delete_where: "set (fst (delete_where p t)) = {x \<in> set t. \<not> p x}"
  by (auto simp: delete_where_def)

lemma set_update_where: "set (fst (update_where p f t)) = (\<lambda>x. if p x then f x else x) ` set t"
  by (simp add: update_where_def)

lemma map_update_where: "(\<And>x. key (f x) = key x) \<Longrightarrow> map key (fst (update_where p f t)) = map key t"
  by (simp add: update_where_def)

lemma set_insert_ignore: "set (fst (insert_ignore key r t)) = (if has_key key (key r) t then set t else insert r (set t))"
  by (auto simp: insert_ignore_def)

end
