(* ===== verification/Revenue_Ledger.thy ===== *)
theory Revenue_Ledger imports Take_Rate Js_Sql begin

text \<open>
  \<open>src/src/core/revenue-ledger.ts\<close>: the durable object that keeps one revenue line per settlement.
  The state is the \<open>revenue_line\<close> table; \<open>appendLine\<close>, \<open>readPeriod\<close> and \<open>demandEvidence\<close> are its
  operations. The interface the markup outbox retries against is the locale \<open>settlement_ledger\<close>,
  interpreted on \<open>appendLine\<close> at the end.
\<close>

section \<open>Model\<close>

record revenue_line =
  settlementId :: string
  agentId :: string
  settledAmountMinor :: jsnum
  currency :: string
  appliedRateBasisPoints :: jsnum
  markupMinor :: jsnum
  recordedAtMs :: jsnum
  recordedAt :: string

record stored_revenue_line =
  settlement_id :: string
  agent_id :: string
  settled_amount_minor :: int
  row_currency :: string
  applied_rate_basis_points :: int
  markup_minor :: int
  recorded_at_ms :: int
  recorded_at :: string

type_synonym revenue_table = "stored_revenue_line list"

definition MAXIMUM_REVENUE_PERIOD_LINES :: nat where
  "MAXIMUM_REVENUE_PERIOD_LINES = 500"

datatype append_result =
    Appended (append_idempotent: bool) (append_line: revenue_line)
  | Append_rejected string

definition readRevenueLine :: "stored_revenue_line \<Rightarrow> revenue_line" where
  "readRevenueLine row = \<lparr>
     settlementId = settlement_id row, agentId = agent_id row,
     settledAmountMinor = Integer (settled_amount_minor row), currency = row_currency row,
     appliedRateBasisPoints = Integer (applied_rate_basis_points row),
     markupMinor = Integer (markup_minor row),
     recordedAtMs = Integer (recorded_at_ms row), recordedAt = recorded_at row\<rparr>"

text \<open>The row the \<open>INSERT\<close> writes; the amounts have passed the integer checks.\<close>

definition revenue_row :: "revenue_line \<Rightarrow> stored_revenue_line" where
  "revenue_row line = \<lparr>
     settlement_id = settlementId line, agent_id = agentId line,
     settled_amount_minor = the_int (settledAmountMinor line), row_currency = currency line,
     applied_rate_basis_points = the_int (appliedRateBasisPoints line),
     markup_minor = the_int (markupMinor line),
     recorded_at_ms = the_int (recordedAtMs line), recorded_at = recordedAt line\<rparr>"

definition revenue_line_shape :: "revenue_line \<Rightarrow> bool" where
  "revenue_line_shape line =
     (id_pattern 255 (settlementId line)
      \<and> id_pattern 255 (agentId line)
      \<and> safe_ge 0 (settledAmountMinor line)
      \<and> currency_pattern (currency line)
      \<and> safe_ge 1 (appliedRateBasisPoints line)
      \<and> num_le (appliedRateBasisPoints line) 1000
      \<and> safe_ge 0 (markupMinor line)
      \<and> the_int (markupMinor line) \<le> the_int (settledAmountMinor line)
      \<and> safe_ge 0 (recordedAtMs line))"

text \<open>The last conjunct of the code's check evaluates \<open>toISOString\<close>, which may throw.\<close>

definition validRevenueLine :: "revenue_line \<Rightarrow> js_exn + bool" where
  "validRevenueLine line =
     (if \<not> revenue_line_shape line then Inr False
      else case toISOString (the_int (recordedAtMs line)) of
        None \<Rightarrow> Inl Invalid_time
      | Some t \<Rightarrow> Inr (t = recordedAt line))"

definition equalRevenueLine :: "revenue_line \<Rightarrow> revenue_line \<Rightarrow> bool" where
  "equalRevenueLine l r =
     (settlementId l = settlementId r \<and> agentId l = agentId r
      \<and> settledAmountMinor l = settledAmountMinor r \<and> currency l = currency r
      \<and> appliedRateBasisPoints l = appliedRateBasisPoints r \<and> markupMinor l = markupMinor r
      \<and> recordedAtMs l = recordedAtMs r \<and> recordedAt l = recordedAt r)"

definition ledger_read :: "revenue_table \<Rightarrow> string \<Rightarrow> revenue_line option" where
  "ledger_read t sid = map_option readRevenueLine (select_key settlement_id sid t)"

definition appendLine :: "revenue_line \<Rightarrow> revenue_table \<Rightarrow> (js_exn + append_result) \<times> revenue_table" where
  "appendLine line t =
     (case validRevenueLine line of
        Inl e \<Rightarrow> (Inl e, t)
      | Inr False \<Rightarrow> (Inr (Append_rejected ''revenue_line_malformed''), t)
      | Inr True \<Rightarrow>
          (case ledger_read t (settlementId line) of
             Some prior \<Rightarrow>
               (Inr (if equalRevenueLine prior line then Appended True prior
                     else Append_rejected ''settlement_ledger_precondition_failed''), t)
           | None \<Rightarrow>
               (let (t', written) = insert_ignore settlement_id (revenue_row line) t
                in (Inr (case ledger_read t' (settlementId line) of
                      None \<Rightarrow> Append_rejected ''revenue_line_persistence_failed''
                    | Some stored \<Rightarrow>
                        if \<not> equalRevenueLine stored line
                        then Append_rejected ''settlement_ledger_precondition_failed''
                        else Appended (written = 0) stored), t'))))"

text \<open>\<open>ORDER BY recorded_at_ms ASC, settlement_id ASC\<close>\<close>

definition row_order :: "stored_revenue_line \<Rightarrow> stored_revenue_line \<Rightarrow> bool" where
  "row_order l r = (recorded_at_ms l < recorded_at_ms r
     \<or> recorded_at_ms l = recorded_at_ms r \<and> compareText (settlement_id l) (settlement_id r) \<le> 0)"

definition period_rows :: "int \<Rightarrow> int \<Rightarrow> revenue_table \<Rightarrow> revenue_table" where
  "period_rows lo hi t = sort_by row_order (filter (\<lambda>r. lo \<le> recorded_at_ms r \<and> recorded_at_ms r < hi) t)"

datatype period_result =
    Period (period_start: int) (period_end: int) (period_lines: "revenue_line list")
      (summedMarkupMinor: int) (lineCount: nat)
  | Period_capacity_exceeded nat
  | Period_rejected string

definition readPeriod :: "jsnum \<Rightarrow> jsnum \<Rightarrow> revenue_table \<Rightarrow> period_result" where
  "readPeriod startInclusiveMs endExclusiveMs t =
     (if \<not> isSafeInteger startInclusiveMs \<or> \<not> isSafeInteger endExclusiveMs
         \<or> the_int startInclusiveMs < 0 \<or> the_int endExclusiveMs \<le> the_int startInclusiveMs
      then Period_rejected ''revenue_period_malformed''
      else
        let rows = take (MAXIMUM_REVENUE_PERIOD_LINES + 1)
                     (period_rows (the_int startInclusiveMs) (the_int endExclusiveMs) t)
        in if length rows > MAXIMUM_REVENUE_PERIOD_LINES
           then Period_capacity_exceeded MAXIMUM_REVENUE_PERIOD_LINES
           else
             let lines = map readRevenueLine rows;
                 amount = foldl (\<lambda>a line. a + the_int (markupMinor line)) 0 lines
             in if \<not> isSafeInteger (Integer amount) then Period_rejected ''revenue_period_sum_out_of_range''
                else Period (the_int startInclusiveMs) (the_int endExclusiveMs) lines amount (length lines))"

text \<open>\<open>SELECT COUNT(*) FROM (SELECT agent_id ... GROUP BY agent_id HAVING COUNT(*) >= 2)\<close>\<close>

definition demandEvidence :: "revenue_table \<Rightarrow> nat" where
  "demandEvidence t = length (filter (\<lambda>a. 2 \<le> length (filter (\<lambda>r. agent_id r = a) t)) (remdups (map agent_id t)))"

section \<open>The table invariant\<close>

definition stored_ok :: "stored_revenue_line \<Rightarrow> bool" where
  "stored_ok r = (validRevenueLine (readRevenueLine r) = Inr True)"

definition ledger_ok :: "revenue_table \<Rightarrow> bool" where
  "ledger_ok t = (distinct (map settlement_id t) \<and> list_all stored_ok t)"

lemma equalRevenueLine_eq [simp]: "equalRevenueLine l r \<longleftrightarrow> l = r"
  by (auto simp: equalRevenueLine_def)

lemma valid_line_round_trip:
  "validRevenueLine line = Inr True \<Longrightarrow> readRevenueLine (revenue_row line) = line"
  by (auto simp: validRevenueLine_def revenue_line_shape_def readRevenueLine_def revenue_row_def
      elim!: safe_geE split: if_splits)

lemma settlement_id_revenue_row [simp]: "settlement_id (revenue_row line) = settlementId line"
  by (simp add: revenue_row_def)

lemma settlementId_readRevenueLine [simp]: "settlementId (readRevenueLine r) = settlement_id r"
  by (simp add: readRevenueLine_def)

lemma ledger_ok_Nil: "ledger_ok []"
  by (simp add: ledger_ok_def)

text \<open>The append in closed form: four outcomes, one of which changes the table.\<close>

lemma appendLine_cases:
  "appendLine line t =
     (case validRevenueLine line of
        Inl e \<Rightarrow> (Inl e, t)
      | Inr False \<Rightarrow> (Inr (Append_rejected ''revenue_line_malformed''), t)
      | Inr True \<Rightarrow>
          (case ledger_read t (settlementId line) of
             Some prior \<Rightarrow>
               (Inr (if prior = line then Appended True line
                     else Append_rejected ''settlement_ledger_precondition_failed''), t)
           | None \<Rightarrow> (Inr (Appended False line), t @ [revenue_row line])))"
proof -
  have fresh: "ledger_read t (settlementId line) = None \<Longrightarrow>
      insert_ignore settlement_id (revenue_row line) t = (t @ [revenue_row line], 1)"
    by (simp add: ledger_read_def insert_ignore_def has_key_iff sql)
  have readback: "ledger_read t (settlementId line) = None \<Longrightarrow> validRevenueLine line = Inr True \<Longrightarrow>
      ledger_read (t @ [revenue_row line]) (settlementId line) = Some line"
    by (simp add: ledger_read_def sql valid_line_round_trip select_key_absent)
  show ?thesis
    by (auto simp: appendLine_def fresh readback split: sum.splits bool.splits option.splits)
qed

lemma appendLine_ok: "ledger_ok t \<Longrightarrow> ledger_ok (snd (appendLine line t))"
  by (auto simp: appendLine_cases ledger_ok_def ledger_read_def sql stored_ok_def valid_line_round_trip
      split: sum.splits bool.splits option.splits)

lemma appendLine_prefix: "\<exists>new. snd (appendLine line t) = t @ new"
  by (auto simp: appendLine_cases split: sum.splits bool.splits option.splits)

lemma appendLine_Appended:
  assumes "appendLine line t = (Inr (Appended idem stored), t')"
  shows "stored = line \<and> ledger_read t' (settlementId line) = Some line
    \<and> (idem \<longrightarrow> t' = t) \<and> (\<not> idem \<longrightarrow> ledger_read t (settlementId line) = None \<and> t' = t @ [revenue_row line])"
  using assms
  by (auto simp: appendLine_cases ledger_read_def sql valid_line_round_trip select_key_absent
      split: sum.splits bool.splits option.splits if_splits)

lemma appendLine_repeat:
  "appendLine line t = (Inr (Appended idem stored), t') \<Longrightarrow> appendLine line t' = (Inr (Appended True line), t')"
  using appendLine_Appended [of line t idem stored t']
  by (auto simp: appendLine_cases split: sum.splits bool.splits option.splits if_splits)

section \<open>The interface of the ledger\<close>

text \<open>
  What a caller that may lose answers relies on: a successful append makes the line readable, an
  accepted line is accepted again without a change, a refused append changes nothing, and the
  lines already there stay.
\<close>

locale settlement_ledger =
  fixes append :: "'line \<Rightarrow> 'st \<Rightarrow> 'ack \<times> 'st"
    and accepted :: "'ack \<Rightarrow> bool"
    and line_key :: "'line \<Rightarrow> 'key"
    and lookup :: "'st \<Rightarrow> 'key \<Rightarrow> 'line option"
  assumes accepted_stored: "append l s = (a, s') \<Longrightarrow> accepted a \<Longrightarrow> lookup s' (line_key l) = Some l"
    and accepted_again: "append l s = (a, s') \<Longrightarrow> accepted a \<Longrightarrow> accepted (fst (append l s')) \<and> snd (append l s') = s'"
    and refused_unchanged: "append l s = (a, s') \<Longrightarrow> \<not> accepted a \<Longrightarrow> s' = s"
    and lines_stay: "lookup s k = Some m \<Longrightarrow> lookup (snd (append l s)) k = Some m"
begin

text \<open>One delivery: the append runs, or the request never reaches the ledger.\<close>

definition deliver :: "'line \<Rightarrow> bool \<Rightarrow> 'st \<Rightarrow> 'st" where
  "deliver l reached s = (if reached then snd (append l s) else s)"

definition deliveries :: "'line \<Rightarrow> bool list \<Rightarrow> 'st \<Rightarrow> 'st" where
  "deliveries l rs s = foldl (\<lambda>s r. deliver l r s) s rs"

lemma deliver_fixed:
  "accepted (fst (append l s)) \<Longrightarrow> deliver l r (snd (append l s)) = snd (append l s)"
  using accepted_again [of l s "fst (append l s)" "snd (append l s)"] by (simp add: deliver_def)

lemma refused_deliver: "\<not> accepted (fst (append l s)) \<Longrightarrow> deliver l r s = s"
  using refused_unchanged [of l s "fst (append l s)" "snd (append l s)"] by (simp add: deliver_def)

text \<open>However often a line is delivered, the state is the one of at most one append.\<close>

lemma deliveries_once:
  "deliveries l rs s = (if True \<in> set rs then snd (append l s) else s)"
proof (induction rs arbitrary: s)
  case (Cons r rs)
  show ?case
  proof (cases r)
    case False
    with Cons show ?thesis by (simp add: deliveries_def deliver_def)
  next
    case True
    have "snd (append l (snd (append l s))) = snd (append l s)"
      using deliver_fixed [of l s True] refused_deliver [of l s True]
      by (cases "accepted (fst (append l s))") (simp_all add: deliver_def)
    with True Cons show ?thesis by (simp add: deliveries_def deliver_def)
  qed
qed (simp add: deliveries_def)

lemma deliveries_keep: "lookup s k = Some m \<Longrightarrow> lookup (deliveries l rs s) k = Some m"
  by (simp add: deliveries_once lines_stay)

end

definition append_accepted :: "js_exn + append_result \<Rightarrow> bool" where
  "append_accepted a = (case a of Inr (Appended _ _) \<Rightarrow> True | _ \<Rightarrow> False)"

lemma append_accepted_iff: "append_accepted a \<longleftrightarrow> (\<exists>i l. a = Inr (Appended i l))"
  by (auto simp: append_accepted_def split: sum.splits append_result.splits)

interpretation ledger: settlement_ledger appendLine append_accepted settlementId ledger_read
proof
  fix l s a s'
  assume ap: "appendLine l s = (a, s')"
  show "append_accepted a \<Longrightarrow> ledger_read s' (settlementId l) = Some l"
    using ap appendLine_Appended by (auto simp: append_accepted_iff)
  show "append_accepted a \<Longrightarrow> append_accepted (fst (appendLine l s')) \<and> snd (appendLine l s') = s'"
    using ap appendLine_repeat by (fastforce simp: append_accepted_iff)
  show "\<not> append_accepted a \<Longrightarrow> s' = s"
    using ap by (auto simp: appendLine_cases append_accepted_iff split: sum.splits bool.splits option.splits if_splits)
next
  fix s k m l
  assume "ledger_read s k = Some m"
  then show "ledger_read (snd (appendLine l s)) k = Some m"
    by (auto simp: appendLine_cases ledger_read_def select_key_append split: sum.splits bool.splits option.splits)
qed


section \<open>Every history of the object\<close>

definition append_all :: "revenue_line list \<Rightarrow> revenue_table \<Rightarrow> revenue_table" where
  "append_all ls t = foldl (\<lambda>s l. snd (appendLine l s)) t ls"

lemma append_all_simps [simp]:
  "append_all [] t = t"
  "append_all (l # ls) t = append_all ls (snd (appendLine l t))"
  by (simp_all add: append_all_def)

lemma append_all_ok: "ledger_ok t \<Longrightarrow> ledger_ok (append_all ls t)"
  by (induction ls arbitrary: t) (simp_all add: appendLine_ok)

lemma append_all_keeps:
  "ledger_read t k = Some m \<Longrightarrow> ledger_read (append_all ls t) k = Some m"
  by (induction ls arbitrary: t) (simp_all add: ledger.lines_stay)

lemma ledger_key: "ledger_read t k = Some m \<Longrightarrow> settlementId m = k"
  by (auto simp: ledger_read_def dest: select_key_Some)

lemma ledger_read_in: "ledger_read t k = Some m \<Longrightarrow> \<exists>r \<in> set t. readRevenueLine r = m"
  by (auto simp: ledger_read_def dest: select_key_Some)

section \<open>Period reads\<close>

lemma row_order_total: "row_order a b \<or> row_order b a"
  using text_less_linear [of "settlement_id a" "settlement_id b"]
  by (auto simp: row_order_def compareText_le)

lemma row_order_trans: "row_order a b \<Longrightarrow> row_order b c \<Longrightarrow> row_order a c"
  using text_less_trans [of "settlement_id a" "settlement_id b" "settlement_id c"]
  by (auto simp: row_order_def compareText_le)

lemma period_rows_sorted: "sorted_wrt row_order (period_rows lo hi t)"
  unfolding period_rows_def
  by (rule sorted_wrt_sort_by) (use row_order_total row_order_trans in blast)+

lemma set_period_rows: "set (period_rows lo hi t) = {r \<in> set t. lo \<le> recorded_at_ms r \<and> recorded_at_ms r < hi}"
  by (simp add: period_rows_def)

lemma foldl_sum: "foldl (\<lambda>a x. a + f x) (z :: int) xs = z + sum_list (map f xs)"
  by (induction xs arbitrary: z) simp_all

lemma sum_list_insert_by: "sum_list (map f (insert_by le x xs)) = (f x :: int) + sum_list (map f xs)"
  by (induction xs) auto

lemma sum_list_sort_by: "sum_list (map f (sort_by le xs)) = (sum_list (map f xs) :: int)"
  by (induction xs) (simp_all add: sum_list_insert_by)

definition period_markup :: "int \<Rightarrow> int \<Rightarrow> revenue_table \<Rightarrow> int" where
  "period_markup lo hi t =
     sum_list (map markup_minor (filter (\<lambda>r. lo \<le> recorded_at_ms r \<and> recorded_at_ms r < hi) t))"

lemma period_markup_split:
  assumes "lo \<le> mid" "mid \<le> hi"
  shows "period_markup lo hi t = period_markup lo mid t + period_markup mid hi t"
  using assms by (induction t) (auto simp: period_markup_def)

lemma markupMinor_read [simp]: "markupMinor (readRevenueLine r) = Integer (markup_minor r)"
  by (simp add: readRevenueLine_def)

lemma readPeriod_Period:
  assumes "readPeriod lo hi t = Period a b ls amount n"
  shows "lo = Integer a \<and> hi = Integer b \<and> 0 \<le> a \<and> a < b \<and> ls = map readRevenueLine (period_rows a b t)
    \<and> amount = period_markup a b t \<and> n = length ls \<and> n \<le> 500 \<and> isSafeInteger (Integer amount)"
proof -
  from assms have b: "isSafeInteger lo" "isSafeInteger hi" "0 \<le> the_int lo" "the_int lo < the_int hi"
    by (auto simp: readPeriod_def split: if_splits)
  then have ints: "lo = Integer (the_int lo)" "hi = Integer (the_int hi)"
    by (auto simp: isSafeInteger_Int)
  define rows where "rows = period_rows (the_int lo) (the_int hi) t"
  have small: "\<not> 501 \<le> length rows"
    using assms b by (auto simp: readPeriod_def rows_def [symmetric] MAXIMUM_REVENUE_PERIOD_LINES_def Let_def
        split: if_splits)
  then have "take 501 rows = rows" by simp
  with assms b small have res: "a = the_int lo" "b = the_int hi" "ls = map readRevenueLine rows" "n = length rows"
      "amount = foldl (\<lambda>a line. a + the_int (markupMinor line)) 0 (map readRevenueLine rows)"
      "isSafeInteger (Integer amount)"
    by (auto simp: readPeriod_def rows_def [symmetric] MAXIMUM_REVENUE_PERIOD_LINES_def Let_def split: if_splits)
  have "amount = period_markup (the_int lo) (the_int hi) t"
    by (simp add: res foldl_sum o_def rows_def period_rows_def period_markup_def sum_list_sort_by)
  with res small b ints show ?thesis by (simp add: rows_def)
qed

section \<open>Properties\<close>

text \<open>
  Retrying is safe: whatever the loss pattern of the deliveries of one settlement line, the
  ledger ends in the state of at most one append, every line already recorded is kept, and once a
  delivery has been accepted every further one is answered as an idempotent success.
\<close>

theorem ledger_retry_safe:
  "foldl (\<lambda>s reached. if reached then snd (appendLine l s) else s) t rs =
     (if True \<in> set rs then snd (appendLine l t) else t)
   \<and> (\<forall>k m. ledger_read t k = Some m \<longrightarrow>
        ledger_read (foldl (\<lambda>s reached. if reached then snd (appendLine l s) else s) t rs) k = Some m)
   \<and> (\<forall>idem stored. fst (appendLine l t) = Inr (Appended idem stored) \<longrightarrow>
        fst (appendLine l (snd (appendLine l t))) = Inr (Appended True l))"
proof (intro conjI allI impI)
  show "foldl (\<lambda>s reached. if reached then snd (appendLine l s) else s) t rs =
      (if True \<in> set rs then snd (appendLine l t) else t)"
    using ledger.deliveries_once [of l rs t] by (simp add: ledger.deliveries_def ledger.deliver_def)
  show "ledger_read (foldl (\<lambda>s reached. if reached then snd (appendLine l s) else s) t rs) k = Some m"
    if "ledger_read t k = Some m" for k m
    using ledger.deliveries_keep [OF that, of l rs] by (simp add: ledger.deliveries_def ledger.deliver_def)
  show "fst (appendLine l (snd (appendLine l t))) = Inr (Appended True l)"
    if "fst (appendLine l t) = Inr (Appended idem stored)" for idem stored
    using appendLine_repeat [of l t idem stored "snd (appendLine l t)"] that
    by (metis fst_conv prod.collapse)
qed

definition sample_line :: revenue_line where
  "sample_line = \<lparr>settlementId = ''set-1'', agentId = ''agent-1'', settledAmountMinor = Integer 1999,
     currency = ''EUR'', appliedRateBasisPoints = Integer 250, markupMinor = Integer 50,
     recordedAtMs = Integer 0, recordedAt = ''1970-01-01T00:00:00.000Z''\<rparr>"

lemma sample_line_accepted: "fst (appendLine sample_line []) = Inr (Appended False sample_line)"
  by code_simp

theorem ledger_retry_safe_witness:
  "fst (appendLine sample_line (snd (appendLine sample_line []))) = Inr (Appended True sample_line)"
  using ledger_retry_safe [of sample_line "[]" "[]"] sample_line_accepted by blast

text \<open>
  Whatever lines are offered in whatever order, the table holds at most one row per settlement,
  every row passes the line validation, a recorded line is never changed, and an accepted line
  that differs from the recorded one of its settlement is impossible.
\<close>

theorem ledger_history_sound:
  "ledger_ok (append_all ls [])
   \<and> (\<forall>k m. ledger_read (append_all ls []) k = Some m \<longrightarrow>
        settlementId m = k \<and> validRevenueLine m = Inr True \<and> ledger_read (append_all (ls @ later) []) k = Some m)
   \<and> (\<forall>l idem stored m. fst (appendLine l (append_all ls [])) = Inr (Appended idem stored) \<longrightarrow>
        ledger_read (append_all ls []) (settlementId l) = Some m \<longrightarrow> idem \<and> stored = l \<and> m = l)"
proof (intro conjI allI impI)
  show ok: "ledger_ok (append_all ls [])" by (simp add: append_all_ok ledger_ok_Nil)
  fix k m
  assume m: "ledger_read (append_all ls []) k = Some m"
  then show "settlementId m = k" by (rule ledger_key)
  from ledger_read_in [OF m] ok show "validRevenueLine m = Inr True"
    by (auto simp: ledger_ok_def list_all_iff stored_ok_def)
  have "append_all (ls @ later) [] = append_all later (append_all ls [])" by (simp add: append_all_def)
  with m show "ledger_read (append_all (ls @ later) []) k = Some m" by (simp add: append_all_keeps)
next
  fix l idem stored m
  assume "fst (appendLine l (append_all ls [])) = Inr (Appended idem stored)"
    and "ledger_read (append_all ls []) (settlementId l) = Some m"
  then show "idem" "stored = l" "m = l"
    by (auto simp: appendLine_cases split: sum.splits bool.splits if_splits)
qed

theorem ledger_history_sound_witness:
  "ledger_read (append_all ([sample_line] @ [sample_line\<lparr>markupMinor := Integer 51\<rparr>]) []) ''set-1'' = Some sample_line"
proof -
  have "ledger_read (append_all [sample_line] []) ''set-1'' = Some sample_line"
    by code_simp
  then show ?thesis using ledger_history_sound [of "[sample_line]" "[sample_line\<lparr>markupMinor := Integer 51\<rparr>]"] by blast
qed

text \<open>
  A period read returns exactly the recorded lines of the half-open interval, in the order of
  time and settlement, with the exact sum of their markups; adjacent periods add up, so no line is
  counted twice or missed at a boundary.
\<close>

theorem readPeriod_additive:
  assumes "readPeriod (Integer a) (Integer b) t = Period a b ls1 m1 n1"
    and "readPeriod (Integer b) (Integer c) t = Period b c ls2 m2 n2"
    and "readPeriod (Integer a) (Integer c) t = Period a c ls m n"
  shows "m = m1 + m2 \<and> set ls = set ls1 \<union> set ls2
    \<and> m1 = sum_list (map (\<lambda>l. the_int (markupMinor l)) ls1) \<and> n1 = length ls1 \<and> n1 \<le> 500
    \<and> set ls1 = readRevenueLine ` {r \<in> set t. a \<le> recorded_at_ms r \<and> recorded_at_ms r < b}
    \<and> sorted_wrt (\<lambda>x y. the_int (recordedAtMs x) \<le> the_int (recordedAtMs y)) ls1"
proof -
  note p = readPeriod_Period [OF assms(1)] readPeriod_Period [OF assms(2)] readPeriod_Period [OF assms(3)]
  have "a \<le> b" "b \<le> c" using p by auto
  moreover have "m1 = sum_list (map (\<lambda>l. the_int (markupMinor l)) ls1)"
    using p(1) by (simp add: o_def period_rows_def sum_list_sort_by period_markup_def)
  moreover have "sorted_wrt (\<lambda>x y. recorded_at_ms x \<le> recorded_at_ms y) (period_rows a b t)"
    by (rule sorted_wrt_mono_rel [OF _ period_rows_sorted]) (auto simp: row_order_def)
  then have "sorted_wrt (\<lambda>x y. the_int (recordedAtMs x) \<le> the_int (recordedAtMs y)) ls1"
    using p(1) by (simp add: sorted_wrt_map readRevenueLine_def)
  moreover have "set ls = set ls1 \<union> set ls2"
  proof -
    have "set (period_rows a c t) = set (period_rows a b t) \<union> set (period_rows b c t)"
      using \<open>a \<le> b\<close> \<open>b \<le> c\<close> by (auto simp: set_period_rows)
    then show ?thesis using p by (simp add: image_Un)
  qed
  moreover have "n1 = length ls1" "n1 \<le> 500" using p(1) by auto
  moreover have "m = m1 + m2" using p period_markup_split [of a b c t] by auto
  moreover have "set ls1 = readRevenueLine ` {r \<in> set t. a \<le> recorded_at_ms r \<and> recorded_at_ms r < b}"
    using p(1) by (simp add: set_period_rows)
  ultimately show ?thesis by blast
qed

lemma readPeriod_small:
  assumes "0 \<le> a" "a < b" "b \<le> max_safe" "length (period_rows a b t) \<le> 500" "\<bar>period_markup a b t\<bar> \<le> max_safe"
  shows "readPeriod (Integer a) (Integer b) t =
    Period a b (map readRevenueLine (period_rows a b t)) (period_markup a b t) (length (period_rows a b t))"
  using assms
  by (simp add: readPeriod_def MAXIMUM_REVENUE_PERIOD_LINES_def Let_def foldl_sum o_def
      period_rows_def sum_list_sort_by period_markup_def)

definition sample_table :: revenue_table where
  "sample_table = [revenue_row sample_line, revenue_row (sample_line\<lparr>settlementId := ''set-2'',
     markupMinor := Integer 7, recordedAtMs := Integer 1, recordedAt := ''1970-01-01T00:00:00.001Z''\<rparr>)]"

lemmas sample_defs = sample_table_def sample_line_def revenue_row_def period_rows_def period_markup_def max_safe_def

theorem readPeriod_additive_witness:
  "(\<Sum>l\<leftarrow>map readRevenueLine (period_rows 0 1 sample_table). the_int (markupMinor l)) = 50"
proof -
  have "readPeriod (Integer 0) (Integer 1) sample_table =
      Period 0 1 (map readRevenueLine (period_rows 0 1 sample_table)) 50 (length (period_rows 0 1 sample_table))"
    "readPeriod (Integer 1) (Integer 2) sample_table =
      Period 1 2 (map readRevenueLine (period_rows 1 2 sample_table)) 7 (length (period_rows 1 2 sample_table))"
    "readPeriod (Integer 0) (Integer 2) sample_table =
      Period 0 2 (map readRevenueLine (period_rows 0 2 sample_table)) 57 (length (period_rows 0 2 sample_table))"
    by (subst readPeriod_small; simp add: sample_defs)+
  from readPeriod_additive [OF this] show ?thesis by simp
qed

end
