(* ===== verification/Checkout_State.thy ===== *)
theory Checkout_State imports Checkout_Receipts Revenue_Ledger begin

text \<open>
  \<open>src/src/core/checkout-state.ts\<close> and \<open>checkout-input.ts\<close>: the inputs of a checkout, its stored
  row and events, the validation of the inputs, the digests that bind a confirmation to what the
  shopper saw, and the results of the operations. A text column is held as its text; \<open>updated_at\<close>,
  which nothing reads, is left out.
\<close>

section \<open>Data\<close>

record prepare_input =
  pi_checkoutId :: string
  pi_intentId :: string
  pi_agentId :: string
  pi_offerId :: string
  pi_offerReceiptDigest :: string
  pi_offerProviderRevision :: string
  pi_amountMinor :: jsnum
  pi_budgetMinor :: jsnum
  pi_currency :: string

record confirm_input =
  ci_checkoutId :: string
  ci_confirmationToken :: string
  ci_offerId :: string
  ci_amountMinor :: jsnum
  ci_currency :: string
  ci_blockerDigest :: string
  ci_shopperPrincipalDigest :: string

datatype checkout_status =
    Preparing | Confirmation_required | Confirming | Reconciliation_required | Settled | Failed

datatype finalization_status = Finalization_pending | Finalization_completed

record stored_checkout =
  co_checkout_id :: string
  co_request_digest :: string
  co_intent_id :: string
  co_agent_id :: string
  co_offer_id :: string
  co_offer_receipt_digest :: string
  co_offer_provider_revision :: string
  co_amount_minor :: int
  co_budget_minor :: int
  co_currency :: string
  co_state :: checkout_status
  co_guardrail_receipt_json :: "string option"
  co_guardrail_receipt_digest :: "string option"
  co_confirmation_token :: "string option"
  co_confirmation_token_digest :: "string option"
  co_confirmation_expires_at :: "int option"
  co_human_confirmation_digest :: "string option"
  co_settlement_idempotency_key :: "string option"
  co_applied_rate_basis_points :: "int option"
  co_provider_result_json :: "string option"
  co_settlement_receipt_json :: "string option"
  co_markup_outbox_json :: "string option"
  co_markup_finalization_state :: finalization_status
  co_markup_finalization_json :: "string option"
  co_failure_code :: "string option"
  co_observation_failure_count :: nat

text \<open>A row of \<open>checkout_event\<close>, and the event that \<open>#events\<close> reads from it.\<close>

record event_row =
  er_sequence :: nat
  er_event_type :: string
  er_evidence_json :: string
  er_created_at :: string

record stored_event =
  ev_sequence :: nat
  ev_eventType :: string
  ev_evidence :: json
  ev_createdAt :: string

text \<open>A text column that JavaScript finds falsy: null or the empty text.\<close>

definition truthy :: "string option \<Rightarrow> bool" where
  "truthy s = (s \<noteq> None \<and> s \<noteq> Some [])"

section \<open>Inputs\<close>

definition PREPARE_FIELDS :: "string list" where
  "PREPARE_FIELDS = [''agentId'', ''amountMinor'', ''budgetMinor'', ''checkoutId'', ''currency'', ''intentId'',
     ''offerId'', ''offerReceiptDigest'']"

definition CONFIRM_FIELDS :: "string list" where
  "CONFIRM_FIELDS = [''amountMinor'', ''blockerDigest'', ''checkoutId'', ''confirmationToken'', ''currency'',
     ''offerId'', ''shopperPrincipalDigest'']"

definition checkoutInputFieldsAllowed :: "json \<Rightarrow> bool \<Rightarrow> bool" where
  "checkoutInputFieldsAllowed body preparing =
     list_all (\<lambda>k. k \<in> set (if preparing then PREPARE_FIELDS else CONFIRM_FIELDS)) (keys_of body)"

definition validPrepare :: "prepare_input \<Rightarrow> bool" where
  "validPrepare input =
     (list_all (id_pattern 127) [pi_checkoutId input, pi_intentId input, pi_agentId input, pi_offerId input]
      \<and> sha256_pattern (pi_offerReceiptDigest input)
      \<and> sha1_pattern (pi_offerProviderRevision input)
      \<and> safe_ge 1 (pi_amountMinor input)
      \<and> safe_ge (the_int (pi_amountMinor input)) (pi_budgetMinor input)
      \<and> currency_pattern (pi_currency input))"

definition confirmation_token_pattern :: "string \<Rightarrow> bool" where
  "confirmation_token_pattern = all_chars is_graph 64 128"

definition validConfirm :: "confirm_input \<Rightarrow> bool" where
  "validConfirm input =
     (id_pattern 127 (ci_checkoutId input)
      \<and> id_pattern 127 (ci_offerId input)
      \<and> confirmation_token_pattern (ci_confirmationToken input)
      \<and> safe_ge 1 (ci_amountMinor input)
      \<and> currency_pattern (ci_currency input)
      \<and> sha256_pattern (ci_blockerDigest input)
      \<and> sha256_pattern (ci_shopperPrincipalDigest input))"

definition prepare_json :: "prepare_input \<Rightarrow> json" where
  "prepare_json input = JObj [
     (''checkoutId'', JStr (pi_checkoutId input)),
     (''intentId'', JStr (pi_intentId input)),
     (''agentId'', JStr (pi_agentId input)),
     (''offerId'', JStr (pi_offerId input)),
     (''offerReceiptDigest'', JStr (pi_offerReceiptDigest input)),
     (''offerProviderRevision'', JStr (pi_offerProviderRevision input)),
     (''amountMinor'', JNum (pi_amountMinor input)),
     (''budgetMinor'', JNum (pi_budgetMinor input)),
     (''currency'', JStr (pi_currency input))]"

section \<open>Digests\<close>

definition digestHumanConfirmation :: "confirm_input \<Rightarrow> string \<Rightarrow> string" where
  "digestHumanConfirmation input confirmationTokenDigest = sha256Hex (canonicalJson (JObj [
     (''checkoutId'', JStr (ci_checkoutId input)),
     (''offerId'', JStr (ci_offerId input)),
     (''amountMinor'', JNum (ci_amountMinor input)),
     (''currency'', JStr (ci_currency input)),
     (''blockerDigest'', JStr (ci_blockerDigest input)),
     (''shopperPrincipalDigest'', JStr (ci_shopperPrincipalDigest input)),
     (''confirmationTokenDigest'', JStr confirmationTokenDigest)]))"

definition blocker_json :: "stored_event \<Rightarrow> json" where
  "blocker_json e = JObj [
     (''sequence'', JNum (Integer (int (ev_sequence e)))),
     (''eventType'', JStr (ev_eventType e)),
     (''evidence'', ev_evidence e)]"

definition digestCheckoutBlockers :: "stored_event list \<Rightarrow> string" where
  "digestCheckoutBlockers blockers = sha256Hex (canonicalJson (JArr (map blocker_json blockers)))"

section \<open>Results\<close>

datatype reject_detail =
    No_detail
  | Blockers (blocker_digest: string) (blocker_events: "stored_event list")
  | Inactive_agent string "stored_event list" nat json

datatype checkout_result =
    Prepared (prepared_again: bool) (prepared_checkout: string) (prepared_token: "string option")
      (prepared_expires: "int option") (prepared_receipt: json)
  | Rejected (reject_code: string) (reject_detail: reject_detail)
  | Settled_result (settled_again: bool) (settled_payload: json) (settled_markup: "json option")
  | Reconciliation_pending (pending_code: string)

abbreviation rejected :: "string \<Rightarrow> checkout_result" where
  "rejected code \<equiv> Rejected code No_detail"

definition preparedResult :: "stored_checkout \<Rightarrow> bool \<Rightarrow> checkout_result" where
  "preparedResult state idempotent =
     Prepared idempotent (co_checkout_id state) (co_confirmation_token state) (co_confirmation_expires_at state)
       (case co_guardrail_receipt_json state of
          Some s \<Rightarrow> if s = [] then JNull else parse_column s
        | None \<Rightarrow> JNull)"

definition settledResult :: "json \<Rightarrow> bool \<Rightarrow> json option \<Rightarrow> checkout_result" where
  "settledResult result idempotent markup = Settled_result idempotent result markup"

section \<open>Facts\<close>

lemma validPrepare_amounts:
  assumes "validPrepare input"
  obtains a b where "pi_amountMinor input = Integer a" "pi_budgetMinor input = Integer b"
    "1 \<le> a" "a \<le> b" "b \<le> max_safe"
  using assms by (auto simp: validPrepare_def elim!: safe_geE)

lemma validConfirm_amount:
  assumes "validConfirm input"
  obtains a where "ci_amountMinor input = Integer a" "1 \<le> a" "a \<le> max_safe"
  using assms by (auto simp: validConfirm_def elim!: safe_geE)

lemma storable_prepare_json: "validPrepare input \<Longrightarrow> storable (prepare_json input)"
  by (elim validPrepare_amounts) (simp add: prepare_json_def storable_JObj)

text \<open>
  Two confirmations with the same digest text agree on everything the shopper saw: the JSON text
  under the digest determines the fields.
\<close>

lemma confirmation_text_inj:
  assumes "canonicalJson (JObj [(''checkoutId'', JStr a1), (''offerId'', JStr b1), (''amountMinor'', JNum (Integer c1)),
      (''currency'', JStr d1), (''blockerDigest'', JStr e1), (''shopperPrincipalDigest'', JStr f1),
      (''confirmationTokenDigest'', JStr g1)])
    = canonicalJson (JObj [(''checkoutId'', JStr a2), (''offerId'', JStr b2), (''amountMinor'', JNum (Integer c2)),
      (''currency'', JStr d2), (''blockerDigest'', JStr e2), (''shopperPrincipalDigest'', JStr f2),
      (''confirmationTokenDigest'', JStr g2)])" (is "canonicalJson ?l = canonicalJson ?r")
  shows "a1 = a2 \<and> b1 = b2 \<and> c1 = c2 \<and> d1 = d2 \<and> e1 = e2 \<and> f1 = f2 \<and> g1 = g2"
proof -
  have st: "storable ?l" "storable ?r" by (simp_all add: storable_JObj)
  note f = canonicalJson_field [OF st assms]
  have a: "a1 = a2" using f [of "''checkoutId''"] by simp
  have b: "b1 = b2" using f [of "''offerId''"] by simp
  have c: "c1 = c2" using f [of "''amountMinor''"] by simp
  have d: "d1 = d2" using f [of "''currency''"] by simp
  have e: "e1 = e2" using f [of "''blockerDigest''"] by simp
  have f': "f1 = f2" using f [of "''shopperPrincipalDigest''"] by simp
  have g: "g1 = g2" using f [of "''confirmationTokenDigest''"] by simp
  from a b c d e f' g show ?thesis by blast
qed

end
