(* ===== verification/Checkout_Markup.thy ===== *)
theory Checkout_Markup imports Checkout_State begin

text \<open>
  \<open>src/src/core/checkout-markup.ts\<close>: the markup outbox of a settled checkout. The outbox is written
  in the transaction that records the settlement; \<open>recordSettlementMarkup\<close> then delivers its line to
  the ledger in at most three attempts. Each attempt has a fate, an input of the model: the ledger
  answers, it appends but the answer is lost (or later than the timeout), or the call never arrives.
\<close>

section \<open>Model\<close>

definition MARKUP_ATTEMPT_LIMIT :: nat where
  "MARKUP_ATTEMPT_LIMIT = 3"

record retry_input =
  ri_settlementId :: string
  ri_agentId :: string
  ri_settledAmountMinor :: jsnum
  ri_currency :: string
  ri_appliedRateBasisPoints :: jsnum
  ri_recordedAtMs :: jsnum
  ri_recordedAt :: string

text \<open>A deferral names the stage that failed; every one counts three attempts.\<close>

datatype markup_outcome =
    Recorded (recorded_markup: jsnum) (recorded_idempotent: bool) (recorded_attempts: nat)
  | Deferred_compute string
  | Deferred_append string
  | Deferred_unexpected

datatype markup_outbox =
    Outbox_ready (outbox_line: revenue_line)
  | Outbox_deferred (outbox_input: retry_input) (outbox_settlement: string)

text \<open>A computation: the applied rate and the markup, or an exception.\<close>

type_synonym markup_computation = "jsnum \<Rightarrow> jsnum \<Rightarrow> range_error + jsnum \<times> jsnum"

definition computeSettlementMarkup :: markup_computation where
  "computeSettlementMarkup settled rate =
     (case readRateBasisPoints (Some (JNum rate)) of
        None \<Rightarrow> Inl Rate_basis_points_invalid
      | Some r \<Rightarrow> (case computeMarkupMinor settled (Integer r) of
            Inl e \<Rightarrow> Inl e
          | Inr m \<Rightarrow> Inr (Integer r, Integer m)))"

definition validComputation :: "jsnum \<times> jsnum \<Rightarrow> jsnum \<Rightarrow> jsnum \<Rightarrow> range_error + bool" where
  "validComputation computed settled rate =
     (case readRateBasisPoints (Some (JNum rate)) of
        None \<Rightarrow> Inr False
      | Some pinnedRate \<Rightarrow>
          if fst computed \<noteq> Integer pinnedRate
             \<or> \<not> isSafeInteger (snd computed)
             \<or> the_int (snd computed) < 0
             \<or> \<not> num_ge settled (the_int (snd computed)) \<and> settled \<noteq> NotANumber
          then Inr False
          else case computeMarkupMinor settled (Integer pinnedRate) of
              Inl e \<Rightarrow> Inl e
            | Inr m \<Rightarrow> Inr (snd computed = Integer m))"

definition line_of_input :: "retry_input \<Rightarrow> jsnum \<times> jsnum \<Rightarrow> revenue_line" where
  "line_of_input input computed = \<lparr>
     settlementId = ri_settlementId input, agentId = ri_agentId input,
     settledAmountMinor = ri_settledAmountMinor input, currency = ri_currency input,
     appliedRateBasisPoints = fst computed, markupMinor = snd computed,
     recordedAtMs = ri_recordedAtMs input, recordedAt = ri_recordedAt input\<rparr>"

text \<open>The attempts that remain; attempt \<open>n\<close> uses the computation's \<open>n\<close>-th answer.\<close>

fun compute_attempts :: "nat list \<Rightarrow> (nat \<Rightarrow> markup_computation) \<Rightarrow> retry_input \<Rightarrow> revenue_line option" where
  "compute_attempts [] compute input = None"
| "compute_attempts (attempt # rest) compute input =
     (case compute attempt (ri_settledAmountMinor input) (ri_appliedRateBasisPoints input) of
        Inl _ \<Rightarrow> compute_attempts rest compute input
      | Inr computed \<Rightarrow>
          (case validComputation computed (ri_settledAmountMinor input) (ri_appliedRateBasisPoints input) of
             Inr True \<Rightarrow> Some (line_of_input input computed)
           | _ \<Rightarrow> compute_attempts rest compute input))"

definition computeRevenueLine :: "(nat \<Rightarrow> markup_computation) \<Rightarrow> retry_input \<Rightarrow> revenue_line option" where
  "computeRevenueLine compute input = compute_attempts [1..<Suc MARKUP_ATTEMPT_LIMIT] compute input"

abbreviation default_compute :: "nat \<Rightarrow> markup_computation" where
  "default_compute \<equiv> \<lambda>_. computeSettlementMarkup"

definition createSettlementMarkupOutbox ::
  "jsnum \<Rightarrow> string \<Rightarrow> settlement_receipt \<Rightarrow> int \<Rightarrow> (nat \<Rightarrow> markup_computation) \<Rightarrow> (range_error + js_exn) + markup_outbox" where
  "createSettlementMarkupOutbox rate agent receipt now compute =
     (case readRateBasisPoints (Some (JNum rate)) of
        None \<Rightarrow> Inl (Inl Rate_basis_points_invalid)
      | Some applied \<Rightarrow>
          (case toISOString now of
             None \<Rightarrow> Inl (Inr Invalid_time)
           | Some at \<Rightarrow>
               (let input = \<lparr>ri_settlementId = sr_settlementId receipt, ri_agentId = agent,
                      ri_settledAmountMinor = Integer (sr_amountMinor receipt), ri_currency = sr_currency receipt,
                      ri_appliedRateBasisPoints = Integer applied,
                      ri_recordedAtMs = Integer now, ri_recordedAt = at\<rparr>
                in Inr (case computeRevenueLine compute input of
                     Some line \<Rightarrow> Outbox_ready line
                   | None \<Rightarrow> Outbox_deferred input (ri_settlementId input)))))"

section \<open>The stored outbox\<close>

definition line_json :: "revenue_line \<Rightarrow> json" where
  "line_json l = JObj [
     (''settlementId'', JStr (settlementId l)), (''agentId'', JStr (agentId l)),
     (''settledAmountMinor'', JNum (settledAmountMinor l)), (''currency'', JStr (currency l)),
     (''appliedRateBasisPoints'', JNum (appliedRateBasisPoints l)),
     (''recordedAtMs'', JNum (recordedAtMs l)), (''recordedAt'', JStr (recordedAt l)),
     (''markupMinor'', JNum (markupMinor l))]"

definition input_json :: "retry_input \<Rightarrow> json" where
  "input_json i = JObj [
     (''settlementId'', JStr (ri_settlementId i)), (''agentId'', JStr (ri_agentId i)),
     (''settledAmountMinor'', JNum (ri_settledAmountMinor i)), (''currency'', JStr (ri_currency i)),
     (''appliedRateBasisPoints'', JNum (ri_appliedRateBasisPoints i)),
     (''recordedAtMs'', JNum (ri_recordedAtMs i)), (''recordedAt'', JStr (ri_recordedAt i))]"

definition outcome_fields :: "markup_outcome \<Rightarrow> (string \<times> json) list" where
  "outcome_fields m = (case m of
      Recorded markup idem attempts \<Rightarrow> [
        (''stage'', JStr ''recorded''), (''markupMinor'', JNum markup), (''idempotent'', JBool idem),
        (''attempts'', JNum (Integer (int attempts)))]
    | Deferred_compute sid \<Rightarrow> [(''settlementId'', JStr sid), (''stage'', JStr ''deferred''),
        (''failingStage'', JStr ''compute''), (''attempts'', JNum (Integer 3))]
    | Deferred_append sid \<Rightarrow> [(''settlementId'', JStr sid), (''stage'', JStr ''deferred''),
        (''failingStage'', JStr ''append''), (''attempts'', JNum (Integer 3))]
    | Deferred_unexpected \<Rightarrow> [(''stage'', JStr ''deferred''), (''failingStage'', JStr ''unexpected''),
        (''attempts'', JNum (Integer 3))])"

definition outbox_json :: "markup_outbox \<Rightarrow> json" where
  "outbox_json b = (case b of
      Outbox_ready line \<Rightarrow> JObj [(''schema'', JStr ''commerce.markup-outbox/v2''), (''state'', JStr ''ready''),
        (''line'', line_json line)]
    | Outbox_deferred input sid \<Rightarrow> JObj [(''schema'', JStr ''commerce.markup-outbox/v2''), (''state'', JStr ''deferred''),
        (''input'', input_json input), (''outcome'', JObj (outcome_fields (Deferred_compute sid)))])"

definition nonempty :: "string \<Rightarrow> bool" where
  "nonempty s = (s \<noteq> [])"

definition num_of :: "json \<Rightarrow> string \<Rightarrow> jsnum" where
  "num_of v k = (case field v k of Some (JNum n) \<Rightarrow> n | _ \<Rightarrow> NotANumber)"

definition validPinnedRate :: "json option \<Rightarrow> bool" where
  "validPinnedRate v = is_num v (\<lambda>n. isSafeInteger n \<and> readRateBasisPoints v = Some (the_int n))"

text \<open>\<open>new Date(ms).toISOString() === recordedAt\<close>; the RangeError is caught by the reader.\<close>

definition recorded_time_ok :: "json \<Rightarrow> bool" where
  "recorded_time_ok v =
     (is_num (field v ''recordedAtMs'') isSafeInteger
      \<and> is_str (field v ''recordedAt'') (\<lambda>s. toISOString (int_of v ''recordedAtMs'') = Some s))"

definition validOutboxLine :: "json \<Rightarrow> bool" where
  "validOutboxLine v =
     (isRecord v \<and> validPinnedRate (field v ''appliedRateBasisPoints'')
      \<and> is_str (field v ''settlementId'') nonempty
      \<and> is_str (field v ''agentId'') nonempty
      \<and> is_num (field v ''settledAmountMinor'') (safe_ge 1)
      \<and> is_str (field v ''currency'') currency_pattern
      \<and> is_num (field v ''markupMinor'') (safe_ge 0)
      \<and> int_of v ''markupMinor'' \<le> int_of v ''settledAmountMinor''
      \<and> computeMarkupMinor (num_of v ''settledAmountMinor'') (num_of v ''appliedRateBasisPoints'')
          = Inr (int_of v ''markupMinor'')
      \<and> recorded_time_ok v)"

definition validRetryInput :: "json \<Rightarrow> bool" where
  "validRetryInput v =
     (isRecord v
      \<and> is_str (field v ''settlementId'') nonempty
      \<and> is_str (field v ''agentId'') nonempty
      \<and> is_num (field v ''settledAmountMinor'') (safe_ge 1)
      \<and> is_str (field v ''currency'') currency_pattern
      \<and> validPinnedRate (field v ''appliedRateBasisPoints'')
      \<and> recorded_time_ok v)"

definition validDeferredOutcome :: "json \<Rightarrow> bool" where
  "validDeferredOutcome v =
     (isRecord v
      \<and> is_str (field v ''settlementId'') nonempty
      \<and> field v ''stage'' = Some (JStr ''deferred'')
      \<and> field v ''failingStage'' = Some (JStr ''compute'')
      \<and> field v ''attempts'' = Some (JNum (Integer (int MARKUP_ATTEMPT_LIMIT))))"

definition line_of_json :: "json \<Rightarrow> revenue_line" where
  "line_of_json v = \<lparr>
     settlementId = text_of v ''settlementId'', agentId = text_of v ''agentId'',
     settledAmountMinor = num_of v ''settledAmountMinor'', currency = text_of v ''currency'',
     appliedRateBasisPoints = num_of v ''appliedRateBasisPoints'', markupMinor = num_of v ''markupMinor'',
     recordedAtMs = num_of v ''recordedAtMs'', recordedAt = text_of v ''recordedAt''\<rparr>"

definition input_of_json :: "json \<Rightarrow> retry_input" where
  "input_of_json v = \<lparr>
     ri_settlementId = text_of v ''settlementId'', ri_agentId = text_of v ''agentId'',
     ri_settledAmountMinor = num_of v ''settledAmountMinor'', ri_currency = text_of v ''currency'',
     ri_appliedRateBasisPoints = num_of v ''appliedRateBasisPoints'',
     ri_recordedAtMs = num_of v ''recordedAtMs'', ri_recordedAt = text_of v ''recordedAt''\<rparr>"

definition read_outbox :: "json \<Rightarrow> markup_outbox option" where
  "read_outbox v =
     (if \<not> isRecord v
         \<or> field v ''schema'' \<noteq> Some (JStr ''commerce.markup-outbox/v1'')
           \<and> field v ''schema'' \<noteq> Some (JStr ''commerce.markup-outbox/v2'')
      then None
      else case (field v ''state'', field v ''line'', field v ''input'', field v ''outcome'') of
        (Some (JStr st), line, input, outcome) \<Rightarrow>
          if st = ''ready'' \<and> (case line of Some l \<Rightarrow> validOutboxLine l | None \<Rightarrow> False)
          then map_option (\<lambda>l. Outbox_ready (line_of_json l)) line
          else if field v ''schema'' = Some (JStr ''commerce.markup-outbox/v2'') \<and> st = ''deferred''
          then (case (input, outcome) of
              (Some i, Some out) \<Rightarrow>
                if validRetryInput i \<and> validDeferredOutcome out \<and> text_of out ''settlementId'' = text_of i ''settlementId''
                then Some (Outbox_deferred (input_of_json i) (text_of out ''settlementId'')) else None
            | _ \<Rightarrow> None)
          else None
      | _ \<Rightarrow> None)"

definition readSettlementMarkupOutbox :: "string option \<Rightarrow> markup_outbox option" where
  "readSettlementMarkupOutbox serialized =
     (case serialized of
        None \<Rightarrow> None
      | Some s \<Rightarrow> if s = [] then None else Option.bind (json_parse s) read_outbox)"

section \<open>Delivery\<close>

definition isAppendSuccess :: "js_exn + append_result \<Rightarrow> bool option" where
  "isAppendSuccess a = (case a of Inr (Appended idem _) \<Rightarrow> Some idem | _ \<Rightarrow> None)"

text \<open>The attempts that remain, with their fates; the ledger's table is threaded through.\<close>

fun append_attempts :: "nat list \<Rightarrow> (nat \<Rightarrow> delivery) \<Rightarrow> revenue_line \<Rightarrow> revenue_table \<Rightarrow> markup_outcome \<times> revenue_table" where
  "append_attempts [] fate line t = (Deferred_append (settlementId line), t)"
| "append_attempts (attempt # rest) fate line t =
     (case fate attempt of
        Undelivered \<Rightarrow> append_attempts rest fate line t
      | Answer_lost \<Rightarrow> append_attempts rest fate line (snd (appendLine line t))
      | Answered \<Rightarrow>
          (let (result, t') = appendLine line t
           in case isAppendSuccess result of
                Some idem \<Rightarrow> (Recorded (markupMinor line) idem attempt, t')
              | None \<Rightarrow> append_attempts rest fate line t'))"

definition recordSettlementMarkup :: "(nat \<Rightarrow> delivery) \<Rightarrow> markup_outbox \<Rightarrow> revenue_table \<Rightarrow> markup_outcome \<times> revenue_table" where
  "recordSettlementMarkup fate outbox t =
     (case (case outbox of
              Outbox_deferred input _ \<Rightarrow> computeRevenueLine default_compute input
            | Outbox_ready line \<Rightarrow> Some line) of
        None \<Rightarrow> ((case outbox of Outbox_deferred _ sid \<Rightarrow> Deferred_compute sid | _ \<Rightarrow> Deferred_unexpected), t)
      | Some retriedLine \<Rightarrow> append_attempts [1..<Suc MARKUP_ATTEMPT_LIMIT] fate retriedLine t)"

section \<open>Computation\<close>

definition markup_due :: "int \<Rightarrow> int \<Rightarrow> int" where
  "markup_due a r = (a * r + 5000) div 10000"

lemma computeMarkup_due:
  "computeMarkupMinor s r = Inr m \<longleftrightarrow>
     (\<exists>a b. s = Integer a \<and> r = Integer b \<and> 0 \<le> a \<and> a \<le> max_safe \<and> 1 \<le> b \<and> b \<le> 1000 \<and> m = markup_due a b)"
  unfolding computeMarkup_Inr markup_due_def using markup_cap_idle by metis

lemma markup_due_bounds: "0 \<le> a \<Longrightarrow> 1 \<le> r \<Longrightarrow> r \<le> 1000 \<Longrightarrow> 0 \<le> markup_due a r \<and> markup_due a r \<le> a"
  using markup_bounds [of a r] markup_cap_idle [of a r] by (simp add: markup_due_def)

lemma computeMarkup_due_Inr [simp]:
  "0 \<le> a \<Longrightarrow> a \<le> max_safe \<Longrightarrow> 1 \<le> r \<Longrightarrow> r \<le> 1000 \<Longrightarrow>
     computeMarkupMinor (Integer a) (Integer r) = Inr (markup_due a r)"
  by (simp add: computeMarkup_due)

text \<open>Whatever a computation answers, a line that comes out has the markup due at the pinned rate.\<close>

lemma compute_attempts_sound:
  assumes "compute_attempts ns compute i = Some l"
  shows "\<exists>a r. ri_settledAmountMinor i = Integer a \<and> ri_appliedRateBasisPoints i = Integer r
    \<and> 0 \<le> a \<and> a \<le> max_safe \<and> 1 \<le> r \<and> r \<le> 1000 \<and> l = line_of_input i (Integer r, Integer (markup_due a r))"
  using assms
proof (induction ns compute i rule: compute_attempts.induct)
  case (2 n rest compute i)
  show ?case
  proof (cases "compute n (ri_settledAmountMinor i) (ri_appliedRateBasisPoints i)")
    case (Inr computed)
    show ?thesis
    proof (cases "validComputation computed (ri_settledAmountMinor i) (ri_appliedRateBasisPoints i) = Inr True")
      case True
      then obtain r where r: "readRateBasisPoints (Some (JNum (ri_appliedRateBasisPoints i))) = Some r" "fst computed = Integer r"
          "computeMarkupMinor (ri_settledAmountMinor i) (Integer r) = Inr (the_int (snd computed))"
          "snd computed = Integer (the_int (snd computed))"
        by (auto simp: validComputation_def split: option.splits if_splits sum.splits)
      then have "computed = (Integer r, Integer (the_int (snd computed)))" by (metis prod.collapse)
      moreover have "l = line_of_input i computed" using "2.prems" Inr True by simp
      ultimately show ?thesis using r by (auto simp: computeMarkup_due readRate_JNum_Some)
    next
      case False
      with 2 Inr show ?thesis by (auto split: sum.splits bool.splits)
    qed
  qed (use 2 in auto)
qed simp

lemma computeRevenueLine_default:
  assumes "ri_settledAmountMinor i = Integer a" "ri_appliedRateBasisPoints i = Integer r"
    "0 \<le> a" "a \<le> max_safe" "1 \<le> r" "r \<le> 1000"
  shows "computeRevenueLine default_compute i = Some (line_of_input i (Integer r, Integer (markup_due a r)))"
proof -
  have up: "[1..<Suc MARKUP_ATTEMPT_LIMIT] = [1, 2, 3]" by (simp add: MARKUP_ATTEMPT_LIMIT_def upt_rec)
  have "0 \<le> markup_due a r" "markup_due a r \<le> a" using assms markup_due_bounds by auto
  then show ?thesis using assms
    unfolding computeRevenueLine_def up by (simp add: computeSettlementMarkup_def validComputation_def)
qed

section \<open>The outbox of an accepted settlement\<close>

text \<open>The retry input that \<open>createSettlementMarkupOutbox\<close> builds, and the line it yields.\<close>

definition outbox_input_of :: "int \<Rightarrow> string \<Rightarrow> settlement_receipt \<Rightarrow> int \<Rightarrow> string \<Rightarrow> retry_input" where
  "outbox_input_of rate agent receipt now at =
     \<lparr>ri_settlementId = sr_settlementId receipt, ri_agentId = agent,
      ri_settledAmountMinor = Integer (sr_amountMinor receipt), ri_currency = sr_currency receipt,
      ri_appliedRateBasisPoints = Integer rate, ri_recordedAtMs = Integer now, ri_recordedAt = at\<rparr>"

definition due_line :: "int \<Rightarrow> string \<Rightarrow> settlement_receipt \<Rightarrow> int \<Rightarrow> string \<Rightarrow> revenue_line" where
  "due_line rate agent receipt now at = line_of_input (outbox_input_of rate agent receipt now at)
     (Integer rate, Integer (markup_due (sr_amountMinor receipt) rate))"

lemma create_outbox_default:
  assumes "settlement_ok receipt" "1 \<le> rate" "rate \<le> 1000" "toISOString now = Some at"
  shows "createSettlementMarkupOutbox (Integer rate) agent receipt now default_compute =
    Inr (Outbox_ready (due_line rate agent receipt now at))"
proof -
  have "computeRevenueLine default_compute (outbox_input_of rate agent receipt now at) =
      Some (due_line rate agent receipt now at)"
    unfolding due_line_def
    by (rule computeRevenueLine_default) (use assms in \<open>simp_all add: outbox_input_of_def settlement_ok_def\<close>)
  with assms show ?thesis
    by (simp add: createSettlementMarkupOutbox_def Let_def flip: outbox_input_of_def)
qed

text \<open>The outbox for any computation: a line with the markup due, or a deferral for the same settlement.\<close>

lemma create_outbox_any:
  assumes "settlement_ok receipt" "1 \<le> rate" "rate \<le> 1000" "toISOString now = Some at"
  shows "createSettlementMarkupOutbox (Integer rate) agent receipt now compute
    \<in> {Inr (Outbox_ready (due_line rate agent receipt now at)),
       Inr (Outbox_deferred (outbox_input_of rate agent receipt now at) (sr_settlementId receipt))}"
proof (cases "computeRevenueLine compute (outbox_input_of rate agent receipt now at)")
  case None
  with assms show ?thesis
    by (simp add: createSettlementMarkupOutbox_def Let_def flip: outbox_input_of_def)
      (simp add: outbox_input_of_def)
next
  case (Some l)
  have "l = due_line rate agent receipt now at"
    using compute_attempts_sound [OF Some [unfolded computeRevenueLine_def]]
    by (auto simp: due_line_def outbox_input_of_def)
  with Some assms show ?thesis
    by (simp add: createSettlementMarkupOutbox_def Let_def flip: outbox_input_of_def)
qed

lemma id_pattern_mono: "id_pattern n s \<Longrightarrow> n \<le> m \<Longrightarrow> id_pattern m s"
  unfolding id_pattern_def by (rule head_tail_mono)

lemma due_line_valid:
  assumes "settlement_ok receipt" "id_pattern 127 agent" "1 \<le> rate" "rate \<le> 1000" "toISOString now = Some at"
    "0 \<le> now" "now \<le> max_safe"
  shows "validRevenueLine (due_line rate agent receipt now at) = Inr True"
proof -
  have "0 \<le> markup_due (sr_amountMinor receipt) rate \<and> markup_due (sr_amountMinor receipt) rate \<le> sr_amountMinor receipt"
    using assms by (intro markup_due_bounds) (auto simp: settlement_ok_def)
  moreover have "rate \<le> max_safe" using assms by (simp add: max_safe_def)
  ultimately show ?thesis using assms
    by (simp add: validRevenueLine_def revenue_line_shape_def due_line_def line_of_input_def outbox_input_of_def
        settlement_ok_def id_pattern_mono [of 127 _ 255])
qed

section \<open>Storing the outbox\<close>

lemma num_of_is_num: "is_num (field v k) p \<Longrightarrow> field v k = Some (JNum (num_of v k)) \<and> p (num_of v k)"
  by (auto simp: num_of_def elim: is_numE)

lemma storable_line_json:
  "settledAmountMinor l = Integer a \<Longrightarrow> appliedRateBasisPoints l = Integer b \<Longrightarrow> markupMinor l = Integer c \<Longrightarrow>
     recordedAtMs l = Integer d \<Longrightarrow> storable (line_json l)"
  by (simp add: line_json_def storable_JObj)

lemma line_fields:
  assumes "storable (line_json l)"
  shows "field (canonicalValue (line_json l)) k = map_option canonicalValue (field (line_json l) k)"
  using assms by (rule field_canonicalValue)

lemma input_fields:
  assumes "storable (input_json i)"
  shows "field (canonicalValue (input_json i)) k = map_option canonicalValue (field (input_json i) k)"
  using assms by (rule field_canonicalValue)

lemma isRecord_outbox [simp]:
  "isRecord (line_json l)" "isRecord (input_json i)" "isRecord (outbox_json b)"
  by (simp_all add: line_json_def input_json_def outbox_json_def split: markup_outbox.splits)

lemma line_of_line_json:
  assumes "storable (line_json l)" shows "line_of_json (canonicalValue (line_json l)) = l"
  by (simp add: line_of_json_def text_of_def num_of_def line_fields [OF assms]) (simp add: line_json_def)

lemma input_of_input_json:
  assumes "storable (input_json i)" shows "input_of_json (canonicalValue (input_json i)) = i"
  by (simp add: input_of_json_def text_of_def num_of_def input_fields [OF assms]) (simp add: input_json_def)

definition outbox_ok :: "markup_outbox \<Rightarrow> bool" where
  "outbox_ok b = (case b of
      Outbox_ready line \<Rightarrow> storable (line_json line) \<and> validOutboxLine (canonicalValue (line_json line))
    | Outbox_deferred input sid \<Rightarrow> storable (input_json input) \<and> validRetryInput (canonicalValue (input_json input))
        \<and> sid = ri_settlementId input)"

lemma storable_outbox: "outbox_ok b \<Longrightarrow> storable (outbox_json b)"
  by (cases b) (simp_all add: outbox_ok_def outbox_json_def outcome_fields_def storable_JObj)

lemma outbox_fields:
  assumes "outbox_ok b"
  shows "field (canonicalValue (outbox_json b)) k = map_option canonicalValue (field (outbox_json b) k)"
  using storable_outbox [OF assms] by (rule field_canonicalValue)

lemma outcome_canonical:
  "validDeferredOutcome (canonicalValue (JObj (outcome_fields (Deferred_compute sid)))) \<longleftrightarrow> sid \<noteq> []"
  "text_of (canonicalValue (JObj (outcome_fields (Deferred_compute sid)))) ''settlementId'' = sid"
proof -
  have "storable (JObj (outcome_fields (Deferred_compute sid)))" by (simp add: outcome_fields_def storable_JObj)
  note f = field_canonicalValue [OF this]
  show "validDeferredOutcome (canonicalValue (JObj (outcome_fields (Deferred_compute sid)))) \<longleftrightarrow> sid \<noteq> []"
    by (simp add: validDeferredOutcome_def f) (simp add: outcome_fields_def MARKUP_ATTEMPT_LIMIT_def nonempty_def)
  show "text_of (canonicalValue (JObj (outcome_fields (Deferred_compute sid)))) ''settlementId'' = sid"
    by (simp add: text_of_def f) (simp add: outcome_fields_def)
qed

lemma read_outbox_canonical:
  assumes ok: "outbox_ok b"
  shows "read_outbox (canonicalValue (outbox_json b)) = Some b"
proof (cases b)
  case (Outbox_ready l)
  with ok have "storable (line_json l)" "validOutboxLine (canonicalValue (line_json l))"
    by (simp_all add: outbox_ok_def)
  then show ?thesis using Outbox_ready
    by (simp add: read_outbox_def outbox_fields [OF ok, unfolded Outbox_ready])
      (simp add: outbox_json_def line_of_line_json)
next
  case (Outbox_deferred i sid)
  with ok have i: "storable (input_json i)" "validRetryInput (canonicalValue (input_json i))" "sid = ri_settlementId i"
    by (simp_all add: outbox_ok_def)
  have sid: "text_of (canonicalValue (input_json i)) ''settlementId'' = ri_settlementId i"
    by (simp add: text_of_def input_fields [OF i(1)]) (simp add: input_json_def)
  have "nonempty (text_of (canonicalValue (input_json i)) ''settlementId'')"
    using i(2) by (auto simp: validRetryInput_def dest!: text_of_is_str)
  with sid have ne: "ri_settlementId i \<noteq> []" by (simp add: nonempty_def)
  have fs: "field (canonicalValue (outbox_json b)) ''schema'' = Some (JStr ''commerce.markup-outbox/v2'')"
    "field (canonicalValue (outbox_json b)) ''state'' = Some (JStr ''deferred'')"
    "field (canonicalValue (outbox_json b)) ''line'' = None"
    "field (canonicalValue (outbox_json b)) ''input'' = Some (canonicalValue (input_json i))"
    "field (canonicalValue (outbox_json b)) ''outcome'' =
       Some (canonicalValue (JObj (outcome_fields (Deferred_compute (ri_settlementId i)))))"
    unfolding outbox_fields [OF ok] by (simp_all add: outbox_json_def Outbox_deferred i(3))
  have "read_outbox (canonicalValue (outbox_json b)) = Some (Outbox_deferred i (ri_settlementId i))"
    using i sid ne by (simp add: read_outbox_def fs input_of_input_json outcome_canonical)
  with Outbox_deferred i(3) show ?thesis by simp
qed

lemma read_stored_outbox:
  assumes "outbox_ok b"
  shows "readSettlementMarkupOutbox (Some (canonicalJson (outbox_json b))) = Some b"
proof -
  have "canonicalJson (outbox_json b) \<noteq> []"
    by (simp add: outbox_json_def canonicalJson_nonempty split: markup_outbox.splits)
  with assms show ?thesis
    by (simp add: readSettlementMarkupOutbox_def json_parse_canonicalJson storable_outbox read_outbox_canonical)
qed

lemma toISOString_safe: "toISOString now = Some at \<Longrightarrow> \<bar>now\<bar> \<le> max_safe"
  using toISOString_range [of now] by (auto simp: max_safe_def)

lemma input_valid:
  assumes "settlement_ok receipt" "id_pattern 127 agent" "1 \<le> rate" "rate \<le> 1000" "toISOString now = Some at"
  shows "storable (input_json (outbox_input_of rate agent receipt now at))
    \<and> validRetryInput (canonicalValue (input_json (outbox_input_of rate agent receipt now at)))"
proof -
  let ?i = "outbox_input_of rate agent receipt now at"
  have st: "storable (input_json ?i)" by (simp add: input_json_def outbox_input_of_def storable_JObj)
  have "rate \<le> max_safe" using assms by (simp add: max_safe_def)
  moreover have "sr_settlementId receipt \<noteq> []" "agent \<noteq> []"
    using assms id_pattern_nonempty by (auto simp: settlement_ok_def)
  ultimately have "validRetryInput (canonicalValue (input_json ?i))"
    using assms toISOString_safe [OF assms(5)]
    by (simp add: validRetryInput_def validPinnedRate_def recorded_time_ok_def int_of_def input_fields [OF st])
      (simp add: input_json_def outbox_input_of_def settlement_ok_def nonempty_def)
  with st show ?thesis by blast
qed

lemma due_line_outbox:
  assumes "settlement_ok receipt" "id_pattern 127 agent" "1 \<le> rate" "rate \<le> 1000" "toISOString now = Some at"
  shows "outbox_ok (Outbox_ready (due_line rate agent receipt now at))"
proof -
  let ?l = "due_line rate agent receipt now at"
  note defs = due_line_def line_of_input_def outbox_input_of_def
  have st: "storable (line_json ?l)" by (simp add: line_json_def defs storable_JObj)
  have "rate \<le> max_safe" using assms by (simp add: max_safe_def)
  moreover have "sr_settlementId receipt \<noteq> []" "agent \<noteq> []"
    using assms id_pattern_nonempty by (auto simp: settlement_ok_def)
  moreover have "0 \<le> markup_due (sr_amountMinor receipt) rate \<and> markup_due (sr_amountMinor receipt) rate \<le> sr_amountMinor receipt"
    using assms by (intro markup_due_bounds) (auto simp: settlement_ok_def)
  ultimately have "validOutboxLine (canonicalValue (line_json ?l))"
    using assms toISOString_safe [OF assms(5)]
    by (simp add: validOutboxLine_def validPinnedRate_def recorded_time_ok_def int_of_def num_of_def line_fields [OF st])
      (simp add: line_json_def defs settlement_ok_def nonempty_def)
  with st show ?thesis by (simp add: outbox_ok_def)
qed

lemma create_outbox_ok:
  assumes "settlement_ok receipt" "id_pattern 127 agent" "1 \<le> rate" "rate \<le> 1000" "toISOString now = Some at"
    and "createSettlementMarkupOutbox (Integer rate) agent receipt now compute = Inr b"
  shows "outbox_ok b"
  using create_outbox_any [OF assms(1,3,4,5), of agent compute] assms(6) due_line_outbox [OF assms(1-5)]
    input_valid [OF assms(1-5)]
  by (auto simp: outbox_ok_def outbox_input_of_def)

section \<open>Delivery of a line\<close>

lemma markup_attempts: "[1..<Suc MARKUP_ATTEMPT_LIMIT] = [1, 2, 3]"
  by (simp add: MARKUP_ATTEMPT_LIMIT_def upt_rec)

text \<open>Delivering a line changes the ledger by at most one append of it.\<close>

lemma append_attempts_table:
  "snd (append_attempts ns fate line t) \<in> {t, snd (appendLine line t)}"
proof (induction ns arbitrary: t)
  case (Cons n ns)
  have again: "snd (appendLine line (snd (appendLine line t))) = snd (appendLine line t)"
    using ledger.deliveries_once [of line "[True, True]" t] by (simp add: ledger.deliveries_def ledger.deliver_def)
  show ?case
    using Cons [of t] Cons [of "snd (appendLine line t)"] again
    by (auto simp: split_beta split: delivery.splits option.splits)
qed simp

lemma append_attempts_recorded:
  assumes "append_attempts ns fate line t = (Recorded m idem n, t')"
  shows "m = markupMinor line \<and> n \<in> set ns \<and> fate n = Answered \<and> ledger_read t' (settlementId line) = Some line"
  using assms
proof (induction ns arbitrary: t)
  case (Cons k ns)
  show ?case
  proof (cases "fate k = Answered \<and> isAppendSuccess (fst (appendLine line t)) \<noteq> None")
    case True
    then obtain i where i: "isAppendSuccess (fst (appendLine line t)) = Some i" by auto
    then obtain l where "appendLine line t = (Inr (Appended i l), snd (appendLine line t))"
      by (auto simp: isAppendSuccess_def split: sum.splits append_result.splits) (metis prod.collapse)
    from appendLine_Appended [OF this] i True Cons.prems show ?thesis by (auto simp: split_beta)
  next
    case False
    with Cons.prems obtain t0 where "append_attempts ns fate line t0 = (Recorded m idem n, t')"
      by (auto simp: split_beta split: delivery.splits option.splits)
    with Cons.IH show ?thesis by auto
  qed
qed simp

lemma append_attempts_answered:
  assumes "validRevenueLine line = Inr True" "ledger_read t (settlementId line) \<in> {None, Some line}"
    and "\<exists>n \<in> set ns. fate n = Answered"
  shows "\<exists>idem n. append_attempts ns fate line t = (Recorded (markupMinor line) idem n, snd (appendLine line t))
    \<and> n \<in> set ns"
  using assms(2,3)
proof (induction ns arbitrary: t)
  case (Cons n ns)
  have acc: "\<exists>i. fst (appendLine line t) = Inr (Appended i line)"
    using assms(1) Cons.prems(1) by (auto simp: appendLine_cases)
  then obtain i where ack: "fst (appendLine line t) = Inr (Appended i line)" by blast
  then have i: "appendLine line t = (Inr (Appended i line), snd (appendLine line t))"
    by (metis prod.collapse)
  have again: "snd (appendLine line (snd (appendLine line t))) = snd (appendLine line t)"
    using appendLine_repeat [OF i] by simp
  show ?case
  proof (cases "fate n")
    case Answered
    with ack show ?thesis by (auto simp: isAppendSuccess_def split_beta)
  next
    case Answer_lost
    have "ledger_read (snd (appendLine line t)) (settlementId line) \<in> {None, Some line}"
      using appendLine_Appended [OF i] by simp
    from Cons.IH [OF this] Cons.prems(2) Answer_lost again show ?thesis by auto
  next
    case Undelivered
    with Cons.IH [OF Cons.prems(1)] Cons.prems(2) show ?thesis by auto
  qed
qed simp

lemma append_accepts:
  assumes "validRevenueLine line = Inr True" "ledger_read t (settlementId line) \<in> {None, Some line}"
  shows "\<exists>i. appendLine line t = (Inr (Appended i line), snd (appendLine line t))"
proof -
  have "\<exists>i. fst (appendLine line t) = Inr (Appended i line)" using assms by (auto simp: appendLine_cases)
  then show ?thesis by (metis prod.collapse)
qed

text \<open>The ledger after the attempts: the line was appended if one of them was delivered.\<close>

lemma append_attempts_delivered:
  assumes "validRevenueLine line = Inr True" "ledger_read t (settlementId line) \<in> {None, Some line}"
  shows "snd (append_attempts ns fate line t) = (if \<exists>n \<in> set ns. fate n \<noteq> Undelivered then snd (appendLine line t) else t)"
  using assms(2)
proof (induction ns arbitrary: t)
  case (Cons n ns)
  obtain i where i: "appendLine line t = (Inr (Appended i line), snd (appendLine line t))"
    using append_accepts [OF assms(1) Cons.prems] by blast
  have same: "snd (appendLine line (snd (appendLine line t))) = snd (appendLine line t)"
    using appendLine_repeat [OF i] by simp
  show ?case
  proof (cases "fate n")
    case Answered
    moreover have "isAppendSuccess (fst (appendLine line t)) = Some i"
      using arg_cong [OF i, of fst] by (simp add: isAppendSuccess_def)
    ultimately show ?thesis by (simp add: split_beta)
  next
    case Answer_lost
    have "ledger_read (snd (appendLine line t)) (settlementId line) \<in> {None, Some line}"
      using appendLine_Appended [OF i] by simp
    from Cons.IH [OF this] Answer_lost same show ?thesis by auto
  next
    case Undelivered
    with Cons.IH [OF Cons.prems] show ?thesis by auto
  qed
qed simp

lemma append_attempts_deferred:
  "\<forall>n \<in> set ns. fate n \<noteq> Answered \<Longrightarrow> fst (append_attempts ns fate line t) = Deferred_append (settlementId line)"
  by (induction ns fate line t rule: append_attempts.induct) (auto split: delivery.splits)

lemma record_outbox:
  assumes "settlement_ok receipt" "1 \<le> rate" "rate \<le> 1000" "toISOString now = Some at"
    and "createSettlementMarkupOutbox (Integer rate) agent receipt now compute = Inr b"
  shows "recordSettlementMarkup fate b t = append_attempts [1, 2, 3] fate (due_line rate agent receipt now at) t"
proof -
  have "computeRevenueLine default_compute (outbox_input_of rate agent receipt now at) =
      Some (due_line rate agent receipt now at)"
    unfolding due_line_def
    by (rule computeRevenueLine_default) (use assms in \<open>simp_all add: outbox_input_of_def settlement_ok_def\<close>)
  then show ?thesis
    using create_outbox_any [OF assms(1-4), of agent compute] assms(5) markup_attempts
    by (auto simp: recordSettlementMarkup_def)
qed

section \<open>Properties\<close>

text \<open>
  The markup outbox survives storage: the outbox created for an accepted receipt, with whatever
  computation (failing ones included), is stored as canonical JSON and read back as itself; it always
  names the receipt's settlement, so a recovery retries the same line.
\<close>

theorem markup_outbox_roundtrip:
  assumes "normalizeSettlementReceipt payload e = Inr receipt" "id_pattern 127 agent"
    and "createSettlementMarkupOutbox rate agent receipt now compute = Inr b"
  shows "readSettlementMarkupOutbox (Some (canonicalJson (outbox_json b))) = Some b
    \<and> (case b of Outbox_ready line \<Rightarrow> settlementId line = sr_settlementId receipt
            \<and> settledAmountMinor line = Integer (sr_amountMinor receipt)
            \<and> markupMinor line = Integer (markup_due (sr_amountMinor receipt) (the_int rate))
        | Outbox_deferred i sid \<Rightarrow> sid = sr_settlementId receipt \<and> ri_appliedRateBasisPoints i = rate)"
proof -
  have rok: "settlement_ok receipt" using normalizeSettlement_ok [OF assms(1)] by simp
  from assms(3) obtain r at where r: "rate = Integer r" "1 \<le> r" "r \<le> 1000" "toISOString now = Some at"
    by (auto simp: createSettlementMarkupOutbox_def readRate_JNum_Some split: option.splits)
  have "outbox_ok b" by (rule create_outbox_ok [OF rok assms(2) r(2-4)]) (use assms(3) r(1) in simp)
  moreover have "b \<in> {Outbox_ready (due_line r agent receipt now at),
      Outbox_deferred (outbox_input_of r agent receipt now at) (sr_settlementId receipt)}"
    using create_outbox_any [OF rok r(2-4), of agent compute] assms(3) r(1) by auto
  ultimately show ?thesis
    by (auto simp: read_stored_outbox due_line_def line_of_input_def outbox_input_of_def r(1))
qed

lemma sample_outbox:
  "createSettlementMarkupOutbox (Integer 250) ''agent-1'' sample_receipt 0 default_compute =
     Inr (Outbox_ready (due_line 250 ''agent-1'' sample_receipt 0 ''1970-01-01T00:00:00.000Z''))"
  by (rule create_outbox_default) (simp_all add: sample_receipt_ok toISOString_epoch)

lemma sample_agent: "id_pattern 127 ''agent-1''"
  by code_simp

theorem markup_outbox_roundtrip_witness:
  "\<exists>b. createSettlementMarkupOutbox (Integer 250) ''agent-1'' sample_receipt 0 default_compute = Inr b
     \<and> readSettlementMarkupOutbox (Some (canonicalJson (outbox_json b))) = Some b"
  using markup_outbox_roundtrip [OF normalize_payload_of [OF sample_receipt_ok] sample_agent sample_outbox] sample_outbox
  by blast

text \<open>
  C27. The markup of a settlement is recorded at most once, and as soon as an attempt reaches the ledger: when
  none of the three attempts is delivered the ledger is unchanged; otherwise the ledger is changed by the one due line
  (its markup the half-up share at the pinned rate) if that line is not there yet, even when every answer is
  lost, and no later run, with any fates, changes it again. The outcome is a recording when an attempt is
  answered and a deferral when none is.
\<close>

theorem markup_recorded_once:
  assumes "normalizeSettlementReceipt payload e = Inr receipt" "id_pattern 127 agent"
    and "createSettlementMarkupOutbox (Integer rate) agent receipt now compute = Inr b"
    and "0 \<le> now" "toISOString now = Some at"
    and "ledger_read t (sr_settlementId receipt) \<in> {None, Some (due_line rate agent receipt now at)}"
    and "recordSettlementMarkup fate b t = (outcome, t')"
  shows "t' = (if \<exists>n \<in> {1, 2, 3}. fate n \<noteq> Undelivered then snd (appendLine (due_line rate agent receipt now at) t) else t)
    \<and> ((\<exists>n \<in> {1, 2, 3}. fate n \<noteq> Undelivered) \<longrightarrow>
        ledger_read t' (sr_settlementId receipt) = Some (due_line rate agent receipt now at)
        \<and> snd (recordSettlementMarkup fate' b t') = t')
    \<and> ((\<exists>n \<in> {1, 2, 3}. fate n = Answered) \<longrightarrow>
        (\<exists>idem n. outcome = Recorded (Integer (markup_due (sr_amountMinor receipt) rate)) idem n))
    \<and> ((\<forall>n \<in> {1, 2, 3}. fate n \<noteq> Answered) \<longrightarrow> outcome = Deferred_append (sr_settlementId receipt))"
proof -
  let ?l = "due_line rate agent receipt now at"
  have rok: "settlement_ok receipt" using normalizeSettlement_ok [OF assms(1)] by simp
  have r: "1 \<le> rate" "rate \<le> 1000"
    using assms(3) by (auto simp: createSettlementMarkupOutbox_def split: option.splits if_splits)
  note rec = record_outbox [OF rok r assms(5,3)]
  have run: "append_attempts [1, 2, 3] fate ?l t = (outcome, t')" using rec assms(7) by simp
  have key: "settlementId ?l = sr_settlementId receipt" and m: "markupMinor ?l = Integer (markup_due (sr_amountMinor receipt) rate)"
    by (simp_all add: due_line_def line_of_input_def outbox_input_of_def)
  have valid: "validRevenueLine ?l = Inr True"
    using due_line_valid [OF rok assms(2) r assms(5,4)] toISOString_safe [OF assms(5)] by simp
  have tab: "t' = (if \<exists>n \<in> {1, 2, 3}. fate n \<noteq> Undelivered then snd (appendLine ?l t) else t)"
    using append_attempts_delivered [OF valid, of t "[1, 2, 3]" fate] assms(6) key run by simp
  obtain i where "appendLine ?l t = (Inr (Appended i ?l), snd (appendLine ?l t))"
    using append_accepts [OF valid, of t] assms(6) key by auto
  then have "ledger_read (snd (appendLine ?l t)) (settlementId ?l) = Some ?l" using appendLine_Appended by blast
  then have there: "ledger_read t' (settlementId ?l) = Some ?l" if "\<exists>n \<in> {1, 2, 3}. fate n \<noteq> Undelivered" using tab that by simp
  have stay: "snd (recordSettlementMarkup fate' b t') = t'" if "ledger_read t' (settlementId ?l) = Some ?l"
    using append_attempts_table [of "[1,2,3]" fate' ?l t'] that valid unfolding rec by (auto simp: appendLine_cases)
  have answered: "\<exists>idem n. outcome = Recorded (markupMinor ?l) idem n" if "\<exists>n \<in> {1, 2, 3}. fate n = Answered"
    using append_attempts_answered [OF valid, of t "[1, 2, 3]" fate] assms(6) key that run by auto
  have deferred: "outcome = Deferred_append (settlementId ?l)" if "\<forall>n \<in> {1, 2, 3}. fate n \<noteq> Answered"
    using append_attempts_deferred [of "[1, 2, 3]" fate ?l t] that run by simp
  show ?thesis using tab there stay answered deferred unfolding key m by blast
qed

theorem markup_recorded_once_witness:
  "\<exists>idem n. fst (recordSettlementMarkup (\<lambda>n. if n = 3 then Answered else Answer_lost)
     (Outbox_ready (due_line 250 ''agent-1'' sample_receipt 0 ''1970-01-01T00:00:00.000Z'')) [])
     = Recorded (Integer (markup_due (sr_amountMinor sample_receipt) 250)) idem n"
proof -
  let ?fate = "\<lambda>n :: nat. if n = 3 then Answered else Answer_lost"
  have "ledger_read [] (sr_settlementId sample_receipt) \<in>
      {None, Some (due_line 250 ''agent-1'' sample_receipt 0 ''1970-01-01T00:00:00.000Z'')}"
    by (simp add: ledger_read_def sql)
  moreover obtain m t' where "recordSettlementMarkup ?fate
      (Outbox_ready (due_line 250 ''agent-1'' sample_receipt 0 ''1970-01-01T00:00:00.000Z'')) [] = (m, t')"
    by (rule prod.exhaust)
  ultimately show ?thesis
    using markup_recorded_once [OF normalize_payload_of [OF sample_receipt_ok] sample_agent sample_outbox _ toISOString_epoch,
      of "[]" ?fate m t'] by simp
qed

end
