(* ===== verification/Offer_Watch.thy ===== *)
theory Offer_Watch imports Checkout_Markup begin

text \<open>
  \<open>src/src/core/offer-watch.ts\<close>: the observation of a held offer. The provider's reply and the agent
  registry's snapshot are inputs; the result says what changed against the terms of the checkout, and
  counts the failures up to the suspension.
\<close>

section \<open>Model\<close>

definition OBSERVATION_INTERVAL_MS :: int where
  "OBSERVATION_INTERVAL_MS = 60000"

definition MAXIMUM_OBSERVATION_RETRIES :: nat where
  "MAXIMUM_OBSERVATION_RETRIES = 3"

text \<open>
  What a provider call comes to: the operation gate refuses it, the call (or the preparation of it)
  throws, or a response arrives, with its \<open>ok\<close> flag, whether it carries the operation's evidence
  binding, and its body (\<open>None\<close> when reading it throws).
\<close>

datatype provider_reply =
    Gate_refused string
  | Fetch_threw
  | Reply (reply_ok: bool) (reply_bound: bool) (reply_body: "json option")

record observed_attributes =
  oa_priceMinor :: int
  oa_available :: bool
  oa_agentActive :: bool

record change_event =
  ce_attribute :: string
  ce_recordedValue :: json
  ce_observedValue :: json
  ce_observedAt :: string

record held_offer =
  ho_offerId :: string
  ho_agentId :: string
  ho_recorded :: observed_attributes
  ho_priorChanges :: "json list"
  ho_failedAttempts :: nat

datatype observation_outcome =
    Unchanged observed_attributes
  | Changed (changed_events: "change_event list") observed_attributes
  | Agent_inactive string observed_attributes
  | Observation_failed nat
  | Observation_suspended

record registry_entry =
  re_agentId :: string
  re_registrationState :: string
  re_admissionVerified :: bool

definition change :: "string \<Rightarrow> json \<Rightarrow> json \<Rightarrow> string \<Rightarrow> change_event" where
  "change attribute recorded observed at =
     \<lparr>ce_attribute = attribute, ce_recordedValue = recorded, ce_observedValue = observed, ce_observedAt = at\<rparr>"

definition diffObservation :: "observed_attributes \<Rightarrow> observed_attributes \<Rightarrow> string \<Rightarrow> change_event list" where
  "diffObservation r ob at =
     (if oa_priceMinor r \<noteq> oa_priceMinor ob
      then [change ''priceMinor'' (JNum (Integer (oa_priceMinor r))) (JNum (Integer (oa_priceMinor ob))) at] else [])
     @ (if oa_available r \<noteq> oa_available ob
        then [change ''available'' (JBool (oa_available r)) (JBool (oa_available ob)) at] else [])
     @ (if oa_agentActive r \<noteq> oa_agentActive ob
        then [change ''agentActive'' (JBool (oa_agentActive r)) (JBool (oa_agentActive ob)) at] else [])"

definition readProviderAttributes :: "json \<Rightarrow> (int \<times> bool) option" where
  "readProviderAttributes v =
     (if \<not> hasProviderContract v CHECKOUT_PROVIDER_CONTRACT \<or> field v ''ok'' \<noteq> Some (JBool True) then None
      else case field v ''observed'' of
        None \<Rightarrow> None
      | Some observed \<Rightarrow>
          if isRecord observed \<and> is_num (field observed ''priceMinor'') (safe_ge 0)
             \<and> as_bool (field observed ''available'') \<noteq> None
          then Some (int_of observed ''priceMinor'', field observed ''available'' = Some (JBool True)) else None)"

text \<open>\<open>`${attribute}:${JSON.stringify(observedValue)}`\<close>\<close>

definition change_key :: "string \<Rightarrow> json \<Rightarrow> string" where
  "change_key attribute observed = attribute @ '':'' @ json_text observed"

definition prior_key :: "json \<Rightarrow> string" where
  "prior_key evidence = change_key (text_of evidence ''attribute'')
     (case field evidence ''observedValue'' of Some v \<Rightarrow> v | None \<Rightarrow> JNull)"

definition observation_failure :: "held_offer \<Rightarrow> observation_outcome" where
  "observation_failure held =
     (let attempt = min MAXIMUM_OBSERVATION_RETRIES (ho_failedAttempts held + 1)
      in if attempt \<ge> MAXIMUM_OBSERVATION_RETRIES then Observation_suspended else Observation_failed attempt)"

definition observeHeldOffer :: "provider_reply \<Rightarrow> registry_entry list option \<Rightarrow> string \<Rightarrow> held_offer \<Rightarrow> observation_outcome" where
  "observeHeldOffer reply registry at held =
     (case reply of
        Reply ok True (Some payload) \<Rightarrow>
          (case (readProviderAttributes payload, registry) of
             (Some (price, available), Some agents) \<Rightarrow>
               if \<not> ok then observation_failure held
               else
                 let active = list_ex (\<lambda>agent. re_agentId agent = ho_agentId held
                                \<and> re_registrationState agent = ''active'' \<and> re_admissionVerified agent) agents;
                     observed = \<lparr>oa_priceMinor = price, oa_available = available, oa_agentActive = active\<rparr>
                 in if \<not> active then Agent_inactive (ho_agentId held) observed
                    else
                      let prior = map prior_key (ho_priorChanges held);
                          events = filter (\<lambda>e. change_key (ce_attribute e) (ce_observedValue e) \<notin> set prior)
                                     (diffObservation (ho_recorded held) observed at)
                      in if events = [] then Unchanged observed else Changed events observed
           | _ \<Rightarrow> observation_failure held)
      | _ \<Rightarrow> observation_failure held)"

definition change_event_json :: "change_event \<Rightarrow> json" where
  "change_event_json e = JObj [
     (''eventType'', JStr ''offer_changed''), (''attribute'', JStr (ce_attribute e)),
     (''recordedValue'', ce_recordedValue e), (''observedValue'', ce_observedValue e),
     (''observedAt'', JStr (ce_observedAt e))]"

text \<open>\<open>isChangeEvent\<close> of \<open>checkout-session.ts\<close>\<close>

definition isChangeEvent :: "json \<Rightarrow> bool" where
  "isChangeEvent v =
     (isRecord v \<and> field v ''eventType'' = Some (JStr ''offer_changed'')
      \<and> is_str (field v ''attribute'') (\<lambda>a. a \<in> {''priceMinor'', ''available'', ''agentActive''})
      \<and> field v ''observedValue'' \<noteq> None)"

section \<open>Facts\<close>

lemma storable_change_event: "e \<in> set (diffObservation r ob at) \<Longrightarrow> storable (change_event_json e)"
  by (auto simp: diffObservation_def change_def change_event_json_def storable_JObj split: if_splits)

lemma diff_event_value: "e \<in> set (diffObservation r ob at) \<Longrightarrow> canonicalValue (ce_observedValue e) = ce_observedValue e"
  by (auto simp: diffObservation_def change_def split: if_splits)

lemma diff_event_isChange: "e \<in> set (diffObservation r ob at) \<Longrightarrow> isChangeEvent (canonicalValue (change_event_json e))"
  using storable_change_event [of e r ob at] field_canonicalValue [of "change_event_json e"]
  by (auto simp: isChangeEvent_def) (auto simp: change_event_json_def diffObservation_def change_def split: if_splits)

text \<open>A recorded event has, read back from its column, the key it was checked with.\<close>

lemma prior_key_event:
  assumes "e \<in> set (diffObservation r ob at)"
  shows "prior_key (canonicalValue (change_event_json e)) = change_key (ce_attribute e) (ce_observedValue e)"
  using field_canonicalValue [OF storable_change_event [OF assms]] diff_event_value [OF assms]
  by (simp add: prior_key_def text_of_def) (simp add: change_event_json_def)

lemma observe_Changed:
  assumes "observeHeldOffer reply registry at held = Changed evs ob"
  shows "evs \<noteq> [] \<and> oa_agentActive ob
    \<and> evs = filter (\<lambda>e. change_key (ce_attribute e) (ce_observedValue e) \<notin> prior_key ` set (ho_priorChanges held))
        (diffObservation (ho_recorded held) ob at)"
  using assms
  by (auto simp: observeHeldOffer_def Let_def observation_failure_def
      split: provider_reply.splits option.splits bool.splits prod.splits if_splits)

text \<open>The same reply, with the priors or the time changed.\<close>

lemma observe_again:
  assumes "observeHeldOffer reply registry at held = Changed evs ob"
  shows "observeHeldOffer reply registry at' (held\<lparr>ho_priorChanges := priors\<rparr>) =
    (let es = filter (\<lambda>e. change_key (ce_attribute e) (ce_observedValue e) \<notin> prior_key ` set priors)
                (diffObservation (ho_recorded held) ob at')
     in if es = [] then Unchanged ob else Changed es ob)"
proof -
  from assms obtain ok payload price available agents where
    r: "reply = Reply ok True (Some payload)" "readProviderAttributes payload = Some (price, available)"
      "registry = Some agents" "ok"
    by (auto simp: observeHeldOffer_def observation_failure_def Let_def
        split: provider_reply.splits option.splits bool.splits prod.splits if_splits)
  with assms show ?thesis by (auto simp: observeHeldOffer_def Let_def split: if_splits)
qed

lemma diff_keys_at:
  "map (\<lambda>e. change_key (ce_attribute e) (ce_observedValue e)) (diffObservation r ob at) =
   map (\<lambda>e. change_key (ce_attribute e) (ce_observedValue e)) (diffObservation r ob at')"
  by (simp add: diffObservation_def change_def)

section \<open>Properties\<close>

text \<open>
  A change is reported once: the events of an observation differ from the recorded terms and
  from every earlier report, and once they are stored (as canonical JSON, read back by
  \<open>JSON.parse\<close>) the same observation reports nothing further, at whatever time it is repeated.
\<close>

theorem observation_reports_once:
  assumes "observeHeldOffer reply registry at held = Changed evs ob"
  shows "evs \<noteq> []
    \<and> (\<forall>e \<in> set evs. e \<in> set (diffObservation (ho_recorded held) ob at)
          \<and> change_key (ce_attribute e) (ce_observedValue e) \<notin> prior_key ` set (ho_priorChanges held))
    \<and> observeHeldOffer reply registry at'
        (held\<lparr>ho_priorChanges := ho_priorChanges held @ map (\<lambda>e. parse_column (canonicalJson (change_event_json e))) evs\<rparr>)
      = Unchanged ob"
proof (intro conjI ballI)
  let ?key = "\<lambda>e. change_key (ce_attribute e) (ce_observedValue e)"
  let ?held = "held\<lparr>ho_priorChanges := ho_priorChanges held @ map (\<lambda>e. parse_column (canonicalJson (change_event_json e))) evs\<rparr>"
  note ch = observe_Changed [OF assms]
  show "evs \<noteq> []" using ch by blast
  show "e \<in> set (diffObservation (ho_recorded held) ob at)" "?key e \<notin> prior_key ` set (ho_priorChanges held)"
    if "e \<in> set evs" for e using that ch by auto
  have "prior_key (parse_column (canonicalJson (change_event_json e))) = ?key e" if "e \<in> set evs" for e
    using that ch prior_key_event storable_change_event by (force simp: parse_column_canonicalJson)
  then have "(\<lambda>e. prior_key (parse_column (canonicalJson (change_event_json e)))) ` set evs = ?key ` set evs"
    by (intro image_cong) simp_all
  then have priors: "prior_key ` set (ho_priorChanges ?held) = prior_key ` set (ho_priorChanges held) \<union> ?key ` set evs"
    by (simp add: image_Un image_image)
  have "?key e \<in> prior_key ` set (ho_priorChanges ?held)" if "e \<in> set (diffObservation (ho_recorded held) ob at')" for e
  proof -
    from that have "?key e \<in> set (map ?key (diffObservation (ho_recorded held) ob at'))" by auto
    then obtain e' where e': "e' \<in> set (diffObservation (ho_recorded held) ob at)" "?key e = ?key e'"
      unfolding diff_keys_at [of _ _ at' at] by auto
    show ?thesis
    proof (cases "?key e' \<in> prior_key ` set (ho_priorChanges held)")
      case False
      with ch e' have "e' \<in> set evs" by simp
      with e' show ?thesis unfolding priors by auto
    qed (use e' priors in auto)
  qed
  then have none: "filter (\<lambda>e. ?key e \<notin> prior_key ` set (ho_priorChanges ?held)) (diffObservation (ho_recorded held) ob at') = []"
    by (simp add: filter_empty_conv)
  then show "observeHeldOffer reply registry at' ?held = Unchanged ob"
    using observe_again [OF assms, of at' "ho_priorChanges ?held"] by (simp add: Let_def)
qed

definition sample_observation :: provider_reply where
  "sample_observation = Reply True True (Some (JObj [(''contract'', JStr CHECKOUT_PROVIDER_CONTRACT),
     (''ok'', JBool True), (''observed'', JObj [(''priceMinor'', JNum (Integer 2100)), (''available'', JBool True)])]))"

definition sample_agents :: "registry_entry list" where
  "sample_agents = [\<lparr>re_agentId = ''agent-1'', re_registrationState = ''active'', re_admissionVerified = True\<rparr>]"

definition sample_held :: held_offer where
  "sample_held = \<lparr>ho_offerId = ''offer-1'', ho_agentId = ''agent-1'',
     ho_recorded = \<lparr>oa_priceMinor = 1999, oa_available = True, oa_agentActive = True\<rparr>,
     ho_priorChanges = [], ho_failedAttempts = 0\<rparr>"

lemma sample_observation_changed:
  "observeHeldOffer sample_observation (Some sample_agents) ''t'' sample_held =
     Changed [change ''priceMinor'' (JNum (Integer 1999)) (JNum (Integer 2100)) ''t'']
       \<lparr>oa_priceMinor = 2100, oa_available = True, oa_agentActive = True\<rparr>"
  by (simp add: observeHeldOffer_def sample_observation_def sample_agents_def sample_held_def readProviderAttributes_def
      hasProviderContract_def int_of_def max_safe_def diffObservation_def Let_def)

theorem observation_reports_once_witness:
  "observeHeldOffer sample_observation (Some sample_agents) ''u''
     (sample_held\<lparr>ho_priorChanges := [parse_column (canonicalJson (change_event_json
        (change ''priceMinor'' (JNum (Integer 1999)) (JNum (Integer 2100)) ''t'')))]\<rparr>)
   = Unchanged \<lparr>oa_priceMinor = 2100, oa_available = True, oa_agentActive = True\<rparr>"
  using observation_reports_once [OF sample_observation_changed, of "''u''"] by (simp add: sample_held_def)

end
