(* ===== verification/Checkout_Session.thy ===== *)
theory Checkout_Session imports Offer_Watch begin

text \<open>
  \<open>src/src/core/checkout-session.ts\<close>, with the settlement calls of \<open>checkout-provider-client.ts\<close>: the
  durable object of one checkout. Its state is the single row of \<open>checkout_state\<close>, the rows of
  \<open>checkout_event\<close> and the alarm. The state record of the model adds the ledger the object calls, the
  prepare call that awaits its guardrail reply, and the log of the provider calls made.

  \<open>confirm\<close> and \<open>alarm\<close> run one after the other behind the offer gate; \<open>prepare\<close> is split where it
  awaits the guardrail, because other calls may run there. What a run takes from outside is an input:
  the clock, the take-rate setting, the random token, the replies of the provider and of the registry,
  the fates of the ledger calls, and which storage operations fail where the code handles a failure.
\<close>

section \<open>The provider client\<close>

definition guardrail_expectation :: "prepare_input \<Rightarrow> guardrail_expected" where
  "guardrail_expectation input = \<lparr>
     ge_checkoutId = pi_checkoutId input, ge_intentId = pi_intentId input, ge_agentId = pi_agentId input,
     ge_offerReceiptDigest = pi_offerReceiptDigest input, ge_amountMinor = pi_amountMinor input,
     ge_budgetMinor = pi_budgetMinor input, ge_currency = pi_currency input,
     ge_providerRevision = pi_offerProviderRevision input\<rparr>"

definition requestGuardrail :: "provider_reply \<Rightarrow> prepare_input \<Rightarrow> guardrail_receipt option" where
  "requestGuardrail reply input =
     (case reply of
        Reply True True (Some payload) \<Rightarrow>
          (case normalizeGuardrailReceipt payload (guardrail_expectation input) of
             Inr receipt \<Rightarrow> Some receipt
           | Inl _ \<Rightarrow> None)
      | _ \<Rightarrow> None)"

definition text_or_empty :: "string option \<Rightarrow> string" where
  "text_or_empty s = (case s of Some t \<Rightarrow> t | None \<Rightarrow> [])"

definition settlement_expectation :: "stored_checkout \<Rightarrow> string \<Rightarrow> string \<Rightarrow> settlement_expected" where
  "settlement_expectation state humanConfirmationDigest idempotencyKey = \<lparr>
     se_checkoutId = co_checkout_id state, se_offerId = co_offer_id state,
     se_amountMinor = co_amount_minor state, se_currency = co_currency state,
     se_idempotencyKey = idempotencyKey, se_humanConfirmationDigest = humanConfirmationDigest,
     se_guardrailReceiptDigest = text_or_empty (co_guardrail_receipt_digest state),
     se_providerRevision = co_offer_provider_revision state\<rparr>"

text \<open>A settlement reply: a failure code, or the payload with its accepted receipt.\<close>

type_synonym settlement_result = "string + json \<times> settlement_receipt"

definition consumeSettlementResponse :: "bool \<Rightarrow> json option \<Rightarrow> stored_checkout \<Rightarrow> string \<Rightarrow> string \<Rightarrow> settlement_result" where
  "consumeSettlementResponse ok body state digest key =
     (if \<not> ok then Inl ''settlement_provider_result_unknown''
      else case body of
        None \<Rightarrow> Inl ''settlement_provider_result_unknown''
      | Some payload \<Rightarrow>
          (case normalizeSettlementReceipt payload (settlement_expectation state digest key) of
             Inl _ \<Rightarrow> Inl ''settlement_receipt_invalid''
           | Inr receipt \<Rightarrow> Inr (payload, receipt)))"

definition settlement_reply :: "string \<Rightarrow> provider_reply \<Rightarrow> stored_checkout \<Rightarrow> string \<Rightarrow> string \<Rightarrow> settlement_result" where
  "settlement_reply threw reply state digest key =
     (case reply of
        Gate_refused code \<Rightarrow> Inl code
      | Fetch_threw \<Rightarrow> Inl threw
      | Reply ok bound body \<Rightarrow>
          if \<not> bound then Inl ''settlement_provider_evidence_binding_mismatch''
          else consumeSettlementResponse ok body state digest key)"

definition submitSettlement :: "provider_reply \<Rightarrow> stored_checkout \<Rightarrow> string \<Rightarrow> string \<Rightarrow> settlement_result" where
  "submitSettlement = settlement_reply ''settlement_provider_result_unknown''"

definition reconcileSettlement :: "provider_reply \<Rightarrow> stored_checkout \<Rightarrow> string \<Rightarrow> string \<Rightarrow> settlement_result" where
  "reconcileSettlement = settlement_reply ''settlement_reconciliation_incomplete''"

definition settlementRequest :: "stored_checkout \<Rightarrow> string \<Rightarrow> string \<Rightarrow> json" where
  "settlementRequest state humanConfirmationDigest idempotencyKey = JObj [
     (''contract'', JStr CHECKOUT_PROVIDER_CONTRACT),
     (''checkoutId'', JStr (co_checkout_id state)),
     (''offerId'', JStr (co_offer_id state)),
     (''amountMinor'', JNum (Integer (co_amount_minor state))),
     (''currency'', JStr (co_currency state)),
     (''guardrailReceipt'', case co_guardrail_receipt_json state of Some s \<Rightarrow> parse_column s | None \<Rightarrow> JNull),
     (''guardrailReceiptDigest'', case co_guardrail_receipt_digest state of Some d \<Rightarrow> JStr d | None \<Rightarrow> JNull),
     (''humanConfirmationDigest'', JStr humanConfirmationDigest),
     (''idempotencyKey'', JStr idempotencyKey)]"

text \<open>The provider calls the object makes, with what identifies the request.\<close>

datatype provider_call =
    Guardrail_call prepare_input
  | Submit_call (submit_body: json) (submit_blockers: "stored_event list")
  | Status_call string
  | Observe_call string

section \<open>State and inputs\<close>

record session =
  ss_row :: "stored_checkout option"
  ss_events :: "event_row list"
  ss_alarm :: "int option"
  ss_ledger :: revenue_table
  ss_pending :: "prepare_input option"
  ss_calls :: "provider_call list"

record session_env =
  env_now :: int
  env_later :: int
  env_take_rate :: "json option"
  env_token :: string
  env_reply :: provider_reply
  env_observation :: provider_reply
  env_registry :: "registry_entry list option"
  env_fates :: "nat \<Rightarrow> delivery"
  env_alarm_ok :: bool
  env_settle_alarm_ok :: bool
  env_last_alarm_ok :: bool
  env_delete_alarm_ok :: bool
  env_finalize_ok :: bool

definition CONFIRMATION_TTL_MS :: int where "CONFIRMATION_TTL_MS = 10 * 60 * 1000"
definition MARKUP_RETRY_MAX_MS :: int where "MARKUP_RETRY_MAX_MS = 15 * 60 * 1000"

definition BLOCKING_EVENT_TYPES :: "string list" where
  "BLOCKING_EVENT_TYPES = [''offer_changed'', ''offer_observation_suspended'', ''offer_agent_inactive'']"

text \<open>\<open>new Date(now).toISOString()\<close>, for a clock within the range of \<open>Date\<close>.\<close>

definition stamp :: "int \<Rightarrow> string" where
  "stamp now = (case toISOString now of Some s \<Rightarrow> s | None \<Rightarrow> [])"

section \<open>Storage helpers\<close>

definition next_sequence :: "event_row list \<Rightarrow> nat" where
  "next_sequence es = Suc (foldr max (map er_sequence es) 0)"

definition appendEvent :: "int \<Rightarrow> string \<Rightarrow> json \<Rightarrow> session \<Rightarrow> session" where
  "appendEvent now eventType evidence s =
     s\<lparr>ss_events := ss_events s @ [\<lparr>er_sequence = next_sequence (ss_events s), er_event_type = eventType,
         er_evidence_json = canonicalJson evidence, er_created_at = stamp now\<rparr>]\<rparr>"

definition read_event :: "event_row \<Rightarrow> stored_event" where
  "read_event r = \<lparr>ev_sequence = er_sequence r, ev_eventType = er_event_type r,
     ev_evidence = parse_column (er_evidence_json r), ev_createdAt = er_created_at r\<rparr>"

definition events :: "session \<Rightarrow> stored_event list" where
  "events s = map read_event (sort_by (\<lambda>a b. er_sequence a \<le> er_sequence b) (ss_events s))"

definition events_of :: "string \<Rightarrow> session \<Rightarrow> stored_event list" where
  "events_of eventType s = map read_event (sort_by (\<lambda>a b. er_sequence a \<le> er_sequence b)
     (filter (\<lambda>r. er_event_type r = eventType) (ss_events s)))"

text \<open>\<open>UPDATE checkout_state ... WHERE singleton = 1 AND p\<close>, with whether a row was written.\<close>

definition update_row :: "(stored_checkout \<Rightarrow> bool) \<Rightarrow> (stored_checkout \<Rightarrow> stored_checkout) \<Rightarrow> session \<Rightarrow> session \<times> bool" where
  "update_row p f s =
     (case ss_row s of
        Some r \<Rightarrow> if p r then (s\<lparr>ss_row := Some (f r)\<rparr>, True) else (s, False)
      | None \<Rightarrow> (s, False))"

definition log_call :: "provider_call \<Rightarrow> session \<Rightarrow> session" where
  "log_call c s = s\<lparr>ss_calls := ss_calls s @ [c]\<rparr>"

definition setObservationFailures :: "nat \<Rightarrow> session \<Rightarrow> session" where
  "setObservationFailures n s = fst (update_row (\<lambda>_. True) (\<lambda>r. r\<lparr>co_observation_failure_count := n\<rparr>) s)"

definition recordObservationStopped :: "int \<Rightarrow> string \<Rightarrow> session \<Rightarrow> session" where
  "recordObservationStopped now reason s =
     (if events_of ''offer_observation_stopped'' s = []
      then appendEvent now ''offer_observation_stopped''
             (JObj [(''reason'', JStr reason), (''stoppedAt'', JStr (stamp now))]) s
      else s)"

text \<open>\<open>deleteAlarm\<close> comes last and may throw.\<close>

definition stopObservation :: "session_env \<Rightarrow> string \<Rightarrow> session \<Rightarrow> bool \<times> session" where
  "stopObservation env reason s =
     (let s = recordObservationStopped (env_now env) reason s
      in if env_delete_alarm_ok env then (True, s\<lparr>ss_alarm := None\<rparr>) else (False, s))"

definition armRecoveryAlarm :: "session_env \<Rightarrow> session \<Rightarrow> bool \<times> session" where
  "armRecoveryAlarm env s =
     (if env_alarm_ok env then (True, s\<lparr>ss_alarm := Some (env_now env + OBSERVATION_INTERVAL_MS)\<rparr>) else (False, s))"

definition acknowledged_sequence :: "json \<Rightarrow> int" where
  "acknowledged_sequence evidence =
     (if isRecord evidence \<and> is_num (field evidence ''eventSequence'') isSafeInteger
      then int_of evidence ''eventSequence'' else - 1)"

definition unacknowledgedBlockingEvents :: "session \<Rightarrow> stored_event list" where
  "unacknowledgedBlockingEvents s =
     (let acknowledged = map (\<lambda>e. acknowledged_sequence (ev_evidence e)) (events_of ''offer_change_acknowledged'' s)
      in filter (\<lambda>e. int (ev_sequence e) \<notin> set acknowledged)
           (filter (\<lambda>e. ev_eventType e \<in> set BLOCKING_EVENT_TYPES) (events s)))"

section \<open>Failures\<close>

definition prepareFailure :: "int \<Rightarrow> string \<Rightarrow> session \<Rightarrow> checkout_result \<times> session" where
  "prepareFailure now code s =
     (rejected code, appendEvent now ''checkout_prepare_failed'' (JObj [(''code'', JStr code)])
        (fst (update_row (\<lambda>_. True) (\<lambda>r. r\<lparr>co_state := Failed, co_failure_code := Some code\<rparr>) s)))"

definition requireReconciliation :: "int \<Rightarrow> string \<Rightarrow> session \<Rightarrow> checkout_result \<times> session" where
  "requireReconciliation now code s =
     (let (s', written) = update_row (\<lambda>r. co_state r \<in> {Confirming, Reconciliation_required})
            (\<lambda>r. r\<lparr>co_state := Reconciliation_required, co_failure_code := Some code\<rparr>) s;
          s'' = (if written then appendEvent now ''settlement_reconciliation_required'' (JObj [(''code'', JStr code)]) s' else s')
      in (case ss_row s'' of
            Some stored \<Rightarrow>
              if co_state stored = Settled \<and> truthy (co_provider_result_json stored)
              then settledResult (parse_column (text_or_empty (co_provider_result_json stored))) True None
              else Reconciliation_pending code
          | None \<Rightarrow> Reconciliation_pending code, s''))"

definition close_failed :: "int \<Rightarrow> string \<Rightarrow> session \<Rightarrow> session" where
  "close_failed now code s =
     appendEvent now ''checkout_failed'' (JObj [(''code'', JStr code)])
       (fst (update_row (\<lambda>_. True)
          (\<lambda>r. r\<lparr>co_state := Failed, co_confirmation_token := None, co_failure_code := Some code\<rparr>) s))"

definition terminalFailure :: "session_env \<Rightarrow> string \<Rightarrow> session \<Rightarrow> (js_exn + checkout_result) \<times> session" where
  "terminalFailure env code s =
     (let (deleted, s'') = stopObservation env ''closed'' (close_failed (env_now env) code s)
      in (if deleted then Inr (rejected code) else Inl Storage_failed, s''))"

section \<open>Settlement and its finalization\<close>

definition row_expectation :: "stored_checkout \<Rightarrow> settlement_expected" where
  "row_expectation r = \<lparr>
     se_checkoutId = co_checkout_id r, se_offerId = co_offer_id r, se_amountMinor = co_amount_minor r,
     se_currency = co_currency r, se_idempotencyKey = text_or_empty (co_settlement_idempotency_key r),
     se_humanConfirmationDigest = text_or_empty (co_human_confirmation_digest r),
     se_guardrailReceiptDigest = text_or_empty (co_guardrail_receipt_digest r),
     se_providerRevision = co_offer_provider_revision r\<rparr>"

definition is_deferred :: "markup_outcome \<Rightarrow> bool" where
  "is_deferred m = (case m of Recorded _ _ _ \<Rightarrow> False | _ \<Rightarrow> True)"

definition retry_delay :: "nat \<Rightarrow> int" where
  "retry_delay attempt = min MARKUP_RETRY_MAX_MS (OBSERVATION_INTERVAL_MS * 2 ^ min (attempt - 1) 4)"

definition optional_int :: "int option \<Rightarrow> json" where
  "optional_int i = (case i of Some n \<Rightarrow> JNum (Integer n) | None \<Rightarrow> JNull)"

definition finalization_json :: "markup_outcome \<Rightarrow> bool \<Rightarrow> int option \<Rightarrow> json" where
  "finalization_json markup stopped retryAt = JObj (outcome_fields markup @ [
     (''evidenceDisposition'', JStr ''persisted''),
     (''observationStopDisposition'', JStr (if stopped then ''completed'' else ''deferred'')),
     (''retryAt'', optional_int retryAt)])"

definition response_only_json :: "markup_outcome \<Rightarrow> bool \<Rightarrow> json" where
  "response_only_json markup stopped = JObj (outcome_fields markup @ [
     (''evidenceDisposition'', JStr ''response-only-deferred''),
     (''observationStopDisposition'', JStr (if stopped then ''completed'' else ''deferred''))])"

text \<open>\<open>{ settlementId: receipt?.settlementId ?? null, ...markup, retryAttempt, retryAt }\<close>\<close>

definition markup_event_json :: "settlement_receipt option \<Rightarrow> markup_outcome \<Rightarrow> nat \<Rightarrow> int option \<Rightarrow> json" where
  "markup_event_json receipt markup attempt retryAt = JObj (foldl (\<lambda>kvs kv. put_entry (fst kv) (snd kv) kvs)
     [(''settlementId'', case receipt of Some r \<Rightarrow> JStr (sr_settlementId r) | None \<Rightarrow> JNull)]
     (outcome_fields markup @ [(''retryAttempt'', JNum (Integer (int attempt))), (''retryAt'', optional_int retryAt)]))"

text \<open>The transaction that records the finalization: its event, unless the markup was recorded before, and the row.\<close>

definition record_finalization ::
  "int \<Rightarrow> settlement_receipt option \<Rightarrow> markup_outcome \<Rightarrow> bool \<Rightarrow> nat \<Rightarrow> int option \<Rightarrow> session \<Rightarrow> session" where
  "record_finalization now receipt markup stopped retryAttempt retryAt s =
     fst (update_row (\<lambda>r. co_state r = Settled)
       (\<lambda>r. r\<lparr>co_markup_finalization_state := if is_deferred markup then Finalization_pending else Finalization_completed,
              co_markup_finalization_json := Some (canonicalJson (finalization_json markup stopped retryAt))\<rparr>)
       (if is_deferred markup \<or> events_of ''markup_recorded'' s = []
        then appendEvent now (if is_deferred markup then ''markup_deferred'' else ''markup_recorded'')
               (markup_event_json receipt markup retryAttempt retryAt) s
        else s))"

definition resumeSettledFinalization :: "session_env \<Rightarrow> stored_checkout \<Rightarrow> bool \<Rightarrow> session \<Rightarrow> checkout_result \<times> session" where
  "resumeSettledFinalization env row idempotent s =
     (let providerResult = (case co_provider_result_json row of Some t \<Rightarrow> parse_column t | None \<Rightarrow> JNull)
      in if co_markup_finalization_state row = Finalization_completed \<and> truthy (co_markup_finalization_json row)
         then (settledResult providerResult idempotent (Some (parse_column (text_or_empty (co_markup_finalization_json row)))), s)
         else
           let now = env_later env;
               s1 = (if env_settle_alarm_ok env
                     then recordObservationStopped now ''settled'' (s\<lparr>ss_alarm := Some (now + OBSERVATION_INTERVAL_MS)\<rparr>)
                     else s);
               receipt = restoreSettlementReceipt (co_settlement_receipt_json row) (row_expectation row);
               outbox = readSettlementMarkupOutbox (co_markup_outbox_json row);
               (markup, ledger') = (case (receipt, outbox) of
                   (Some _, Some b) \<Rightarrow> recordSettlementMarkup (env_fates env) b (ss_ledger s1)
                 | _ \<Rightarrow> (Deferred_unexpected, ss_ledger s1));
               s2 = s1\<lparr>ss_ledger := ledger'\<rparr>;
               retryAttempt = length (events_of ''markup_deferred'' s2) + 1;
               retryAt = (if is_deferred markup then Some (now + retry_delay retryAttempt) else None);
               stopped = env_settle_alarm_ok env
           in if \<not> env_finalize_ok env
              then (settledResult providerResult idempotent (Some (response_only_json markup stopped)), s2)
              else
                let s3 = record_finalization now receipt markup stopped retryAttempt retryAt s2;
                    s4 = (if env_last_alarm_ok env then s3\<lparr>ss_alarm := retryAt\<rparr> else s3)
                in (settledResult providerResult idempotent (Some (finalization_json markup stopped retryAt)), s4))"

text \<open>The transaction that records a settlement, with its outbox.\<close>

definition settle_row :: "json \<Rightarrow> settlement_receipt \<Rightarrow> markup_outbox \<Rightarrow> stored_checkout \<Rightarrow> stored_checkout" where
  "settle_row payload receipt outbox r = r\<lparr>
     co_state := Settled, co_provider_result_json := Some (canonicalJson payload),
     co_settlement_receipt_json := Some (canonicalJson (settlement_json receipt)),
     co_markup_outbox_json := Some (canonicalJson (outbox_json outbox)),
     co_markup_finalization_state := Finalization_pending, co_markup_finalization_json := None,
     co_failure_code := None\<rparr>"

definition record_settlement :: "int \<Rightarrow> json \<Rightarrow> settlement_receipt \<Rightarrow> markup_outbox \<Rightarrow> session \<Rightarrow> session \<times> bool" where
  "record_settlement now payload receipt outbox s =
     (let (s', recorded) = update_row (\<lambda>r. co_state r \<in> {Confirming, Reconciliation_required})
            (settle_row payload receipt outbox) s
      in (if recorded then appendEvent now ''settlement_recorded'' (settlement_json receipt) s' else s', recorded))"

definition consumeSettlement :: "session_env \<Rightarrow> settlement_result \<Rightarrow> bool \<Rightarrow> session \<Rightarrow> (js_exn + checkout_result) \<times> session" where
  "consumeSettlement env provider idempotent s =
     (case provider of
        Inl code \<Rightarrow> map_prod Inr id (requireReconciliation (env_later env) code s)
      | Inr (payload, receipt) \<Rightarrow>
          (case ss_row s of
             None \<Rightarrow> (Inr (rejected ''checkout_persistence_failed''), s)
           | Some pending \<Rightarrow>
               (case readRateBasisPoints (map_option (\<lambda>r. JNum (Integer r)) (co_applied_rate_basis_points pending)) of
                  None \<Rightarrow> map_prod Inr id (requireReconciliation (env_later env) ''rate_basis_points_pin_required'' s)
                | Some rate \<Rightarrow>
                    (case createSettlementMarkupOutbox (Integer rate) (co_agent_id pending) receipt (env_later env) default_compute of
                       Inl e \<Rightarrow> (Inl Invalid_time, s)
                     | Inr outbox \<Rightarrow>
                         (let (s', recorded) = record_settlement (env_later env) payload receipt outbox s
                          in case ss_row s' of
                               Some stored \<Rightarrow>
                                 if truthy (co_provider_result_json stored)
                                 then map_prod Inr id
                                        (resumeSettledFinalization env stored (if recorded then idempotent else True) s')
                                 else (Inr (rejected ''checkout_persistence_failed''), s')
                             | None \<Rightarrow> (Inr (rejected ''checkout_persistence_failed''), s'))))))"

definition mark_reconciliation :: "int \<Rightarrow> stored_checkout \<Rightarrow> string \<Rightarrow> string \<Rightarrow> session \<Rightarrow> session" where
  "mark_reconciliation now row digest key s =
     (let (s', written) = update_row (\<lambda>r. co_state r \<in> {Confirming, Reconciliation_required})
            (\<lambda>r. r\<lparr>co_state := Reconciliation_required\<rparr>) s
      in if written
         then appendEvent now ''settlement_reconciliation_requested'' (JObj [
                (''checkoutId'', JStr (co_checkout_id row)), (''humanConfirmationDigest'', JStr digest),
                (''idempotencyKey'', JStr key)]) s'
         else s')"

definition reconcile :: "session_env \<Rightarrow> stored_checkout \<Rightarrow> string \<Rightarrow> string \<Rightarrow> session \<Rightarrow> (js_exn + checkout_result) \<times> session" where
  "reconcile env row digest key s =
     (if readRateBasisPoints (map_option (\<lambda>r. JNum (Integer r)) (co_applied_rate_basis_points row)) = None
      then map_prod Inr id (requireReconciliation (env_now env) ''rate_basis_points_pin_required'' s)
      else
        let s1 = log_call (Status_call key) (mark_reconciliation (env_now env) row digest key s)
        in consumeSettlement env (reconcileSettlement (env_reply env) row digest key) True s1)"

section \<open>Prepare\<close>

definition new_checkout :: "prepare_input \<Rightarrow> string \<Rightarrow> stored_checkout" where
  "new_checkout input requestDigest = \<lparr>
     co_checkout_id = pi_checkoutId input, co_request_digest = requestDigest,
     co_intent_id = pi_intentId input, co_agent_id = pi_agentId input, co_offer_id = pi_offerId input,
     co_offer_receipt_digest = pi_offerReceiptDigest input,
     co_offer_provider_revision = pi_offerProviderRevision input,
     co_amount_minor = the_int (pi_amountMinor input), co_budget_minor = the_int (pi_budgetMinor input),
     co_currency = pi_currency input, co_state = Preparing,
     co_guardrail_receipt_json = None, co_guardrail_receipt_digest = None,
     co_confirmation_token = None, co_confirmation_token_digest = None, co_confirmation_expires_at = None,
     co_human_confirmation_digest = None, co_settlement_idempotency_key = None,
     co_applied_rate_basis_points = None, co_provider_result_json = None, co_settlement_receipt_json = None,
     co_markup_outbox_json = None, co_markup_finalization_state = Finalization_pending,
     co_markup_finalization_json = None, co_failure_code = None, co_observation_failure_count = 0\<rparr>"

text \<open>The transaction that opens the checkout.\<close>

definition open_checkout :: "session_env \<Rightarrow> prepare_input \<Rightarrow> session \<Rightarrow> session" where
  "open_checkout env input s =
     appendEvent (env_now env) ''checkout_prepare_requested'' (prepare_json input)
       (s\<lparr>ss_row := Some (new_checkout input (sha256Hex (canonicalJson (prepare_json input)))), ss_pending := Some input\<rparr>)"

text \<open>Up to the guardrail call: a result, or the call is pending.\<close>

definition prepare_begin :: "session_env \<Rightarrow> prepare_input \<Rightarrow> session \<Rightarrow> checkout_result option \<times> session" where
  "prepare_begin env input s =
     (if \<not> validPrepare input then (Some (rejected ''checkout_prepare_malformed''), s)
      else
        let requestDigest = sha256Hex (canonicalJson (prepare_json input))
        in case ss_row s of
             Some prior \<Rightarrow>
               (Some (if co_request_digest prior \<noteq> requestDigest then rejected ''checkout_prepare_precondition_failed''
                      else if co_state prior = Confirmation_required then preparedResult prior True
                      else rejected (if co_state prior = Preparing then ''checkout_prepare_result_unknown''
                                     else ''checkout_not_preparable'')), s)
           | None \<Rightarrow> (None, log_call (Guardrail_call input) (open_checkout env input s)))"

definition record_guardrail :: "session_env \<Rightarrow> guardrail_receipt \<Rightarrow> session \<Rightarrow> session" where
  "record_guardrail env receipt s =
     appendEvent (env_later env) ''guardrail_passed'' (guardrail_json receipt)
       (fst (update_row (\<lambda>r. co_state r = Preparing)
          (\<lambda>r. r\<lparr>co_state := Confirmation_required,
                 co_guardrail_receipt_json := Some (canonicalJson (guardrail_json receipt)),
                 co_guardrail_receipt_digest := Some (gr_receiptDigest receipt),
                 co_confirmation_token := Some (env_token env),
                 co_confirmation_token_digest := Some (sha256Hex (env_token env)),
                 co_confirmation_expires_at := Some (env_later env + CONFIRMATION_TTL_MS)\<rparr>) s))"

definition prepare_finish :: "session_env \<Rightarrow> prepare_input \<Rightarrow> session \<Rightarrow> checkout_result \<times> session" where
  "prepare_finish env input s0 =
     (let s = s0\<lparr>ss_pending := None\<rparr>
      in case requestGuardrail (env_reply env) input of
           None \<Rightarrow> prepareFailure (env_later env) ''guardrail_provider_unavailable'' s
         | Some receipt \<Rightarrow>
             (let s1 = record_guardrail env receipt s
              in if env_alarm_ok env
                 then let s2 = s1\<lparr>ss_alarm := Some (env_later env + OBSERVATION_INTERVAL_MS)\<rparr>
                      in (case ss_row s2 of
                            Some stored \<Rightarrow> preparedResult stored False
                          | None \<Rightarrow> rejected ''checkout_persistence_failed'', s2)
                 else prepareFailure (env_later env) ''checkout_persistence_failed'' s1))"

section \<open>Confirm\<close>

text \<open>What \<open>#confirm\<close> decides from the row, the events and the input, before it changes anything.\<close>

datatype confirm_decision =
    Refuse checkout_result
  | Resume stored_checkout
  | Resume_reconciliation stored_checkout string string
  | Expire
  | Accept (accept_digest: string) (accept_blockers: "stored_event list") (accept_blocker_digest: string) (accept_rate: int)

definition last_inactive :: "stored_event list \<Rightarrow> stored_event option" where
  "last_inactive blockers = List.find (\<lambda>e. ev_eventType e = ''offer_agent_inactive'') (rev blockers)"

definition confirm_offer :: "session_env \<Rightarrow> confirm_input \<Rightarrow> string \<Rightarrow> session \<Rightarrow> confirm_decision" where
  "confirm_offer env input digest s =
     (let blockers = unacknowledgedBlockingEvents s;
          blockerDigest = digestCheckoutBlockers blockers
      in case last_inactive blockers of
           Some inactive \<Rightarrow> Refuse (Rejected ''offer_agent_inactive''
             (Inactive_agent blockerDigest blockers (ev_sequence inactive) (ev_evidence inactive)))
         | None \<Rightarrow>
             if ci_blockerDigest input \<noteq> blockerDigest
             then Refuse (Rejected ''offer_reconfirmation_required'' (Blockers blockerDigest blockers))
             else case readRateBasisPoints (env_take_rate env) of
                 None \<Rightarrow> Refuse (rejected ''rate_basis_points_invalid'')
               | Some rate \<Rightarrow> Accept digest blockers blockerDigest rate)"

definition confirm_decide :: "session_env \<Rightarrow> confirm_input \<Rightarrow> session \<Rightarrow> confirm_decision" where
  "confirm_decide env input s =
     (if \<not> validConfirm input then Refuse (rejected ''checkout_confirmation_malformed'')
      else case ss_row s of
        None \<Rightarrow> Refuse (rejected ''checkout_not_prepared'')
      | Some row \<Rightarrow>
          if co_checkout_id row \<noteq> ci_checkoutId input then Refuse (rejected ''checkout_not_prepared'')
          else if co_offer_id row \<noteq> ci_offerId input \<or> Integer (co_amount_minor row) \<noteq> ci_amountMinor input
                  \<or> co_currency row \<noteq> ci_currency input
          then Refuse (rejected ''checkout_confirmation_precondition_failed'')
          else
            let candidate = sha256Hex (ci_confirmationToken input)
            in if \<not> truthy (co_confirmation_token_digest row)
                  \<or> \<not> constantTimeTextMatch candidate (text_or_empty (co_confirmation_token_digest row))
               then Refuse (rejected ''confirmation_token_invalid'')
               else
                 let digest = digestHumanConfirmation input candidate
                 in if co_state row = Settled \<and> truthy (co_provider_result_json row)
                    then (if co_human_confirmation_digest row \<noteq> Some digest
                          then Refuse (rejected ''checkout_confirmation_precondition_failed'') else Resume row)
                    else if co_state row \<in> {Confirming, Reconciliation_required}
                    then (if co_human_confirmation_digest row \<noteq> Some digest
                             \<or> \<not> truthy (co_settlement_idempotency_key row)
                          then Refuse (rejected ''checkout_confirmation_precondition_failed'')
                          else Resume_reconciliation row digest (text_or_empty (co_settlement_idempotency_key row)))
                    else if co_state row \<noteq> Confirmation_required then Refuse (rejected ''checkout_not_confirmable'')
                    else if (case co_confirmation_expires_at row of None \<Rightarrow> True | Some t \<Rightarrow> t = 0 \<or> env_now env > t)
                    then Expire
                    else if \<not> truthy (co_guardrail_receipt_json row) \<or> \<not> truthy (co_guardrail_receipt_digest row)
                            \<or> co_offer_provider_revision row = []
                    then Refuse (rejected ''guardrail_receipt_required'')
                    else confirm_offer env input digest s)"

definition idempotency_key :: "confirm_input \<Rightarrow> string" where
  "idempotency_key input = ''checkout-confirm:'' @ ci_checkoutId input"

definition acknowledgement_json :: "stored_event \<Rightarrow> string \<Rightarrow> json" where
  "acknowledgement_json e blockerDigest = JObj [
     (''eventSequence'', JNum (Integer (int (ev_sequence e)))), (''blockerDigest'', JStr blockerDigest)]"

definition human_confirmed_json :: "confirm_input \<Rightarrow> string \<Rightarrow> stored_event list \<Rightarrow> string \<Rightarrow> int \<Rightarrow> json" where
  "human_confirmed_json input digest blockers blockerDigest rate = JObj [
     (''checkoutId'', JStr (ci_checkoutId input)), (''offerId'', JStr (ci_offerId input)),
     (''amountMinor'', JNum (ci_amountMinor input)), (''currency'', JStr (ci_currency input)),
     (''blockerDigest'', JStr blockerDigest),
     (''shopperPrincipalDigest'', JStr (ci_shopperPrincipalDigest input)),
     (''acknowledgedEventSequences'', JArr (map (\<lambda>b. JNum (Integer (int (ev_sequence b)))) blockers)),
     (''humanConfirmationDigest'', JStr digest), (''idempotencyKey'', JStr (idempotency_key input)),
     (''appliedRateBasisPoints'', JNum (Integer rate))]"

definition confirm_row :: "string \<Rightarrow> string \<Rightarrow> int \<Rightarrow> stored_checkout \<Rightarrow> stored_checkout" where
  "confirm_row digest key rate r = r\<lparr>co_state := Confirming, co_confirmation_token := None,
     co_human_confirmation_digest := Some digest, co_settlement_idempotency_key := Some key,
     co_applied_rate_basis_points := Some rate, co_failure_code := None\<rparr>"

text \<open>The transaction that consumes the confirmation.\<close>

definition record_confirmation ::
  "session_env \<Rightarrow> confirm_input \<Rightarrow> string \<Rightarrow> stored_event list \<Rightarrow> string \<Rightarrow> int \<Rightarrow> session \<Rightarrow> session \<times> bool" where
  "record_confirmation env input digest blockers blockerDigest rate s =
     (let (s', recorded) = update_row (\<lambda>r. co_state r = Confirmation_required)
            (confirm_row digest (idempotency_key input) rate) s
      in (if recorded
          then appendEvent (env_now env) ''human_confirmed'' (human_confirmed_json input digest blockers blockerDigest rate)
                 (foldl (\<lambda>s b. appendEvent (env_now env) ''offer_change_acknowledged'' (acknowledgement_json b blockerDigest) s)
                    s' blockers)
          else s', recorded))"

text \<open>The settlement call that follows an accepted confirmation.\<close>

definition submit_confirmed :: "session_env \<Rightarrow> stored_checkout \<Rightarrow> string \<Rightarrow> string \<Rightarrow> session \<Rightarrow> (js_exn + checkout_result) \<times> session" where
  "submit_confirmed env confirming digest key s =
     consumeSettlement env (submitSettlement (env_reply env) confirming digest key) False
       (log_call (Submit_call (settlementRequest confirming digest key) (unacknowledgedBlockingEvents s)) s)"

definition confirm :: "session_env \<Rightarrow> confirm_input \<Rightarrow> session \<Rightarrow> (js_exn + checkout_result) \<times> session" where
  "confirm env input s =
     (case confirm_decide env input s of
        Refuse r \<Rightarrow> (Inr r, s)
      | Resume row \<Rightarrow> map_prod Inr id (resumeSettledFinalization env row True s)
      | Resume_reconciliation row digest key \<Rightarrow>
          (let (armed, s1) = armRecoveryAlarm env s
           in if armed then reconcile env row digest key s1
              else (Inr (rejected ''checkout_recovery_alarm_unavailable''), s1))
      | Expire \<Rightarrow> terminalFailure env ''confirmation_expired'' s
      | Accept digest blockers blockerDigest rate \<Rightarrow>
          (let (armed, s1) = armRecoveryAlarm env s
           in if \<not> armed then (Inr (rejected ''checkout_recovery_alarm_unavailable''), s1)
              else
                let (s2, recorded) = record_confirmation env input digest blockers blockerDigest rate s1
                in if \<not> recorded then (Inr (rejected ''checkout_confirmation_precondition_failed''), s2)
                   else case ss_row s2 of
                       None \<Rightarrow> (Inr (rejected ''rate_basis_points_pin_persistence_failed''), s2)
                     | Some confirming \<Rightarrow>
                         if co_applied_rate_basis_points confirming \<noteq> Some rate
                         then (Inr (rejected ''rate_basis_points_pin_persistence_failed''), s2)
                         else submit_confirmed env confirming digest (idempotency_key input) s2))"

section \<open>Observation and the alarm\<close>

text \<open>The recorded outcome, and whether the observation is suspended.\<close>

definition recordObservation :: "int \<Rightarrow> observation_outcome \<Rightarrow> session \<Rightarrow> bool \<times> session" where
  "recordObservation now outcome s =
     (case outcome of
        Changed evs _ \<Rightarrow>
          (False, setObservationFailures 0
             (foldl (\<lambda>s e. appendEvent now ''offer_changed'' (change_event_json e) s) s evs))
      | Agent_inactive agent _ \<Rightarrow>
          (False, if events_of ''offer_agent_inactive'' s = []
                  then appendEvent now ''offer_agent_inactive''
                         (JObj [(''agentId'', JStr agent), (''observedAt'', JStr (stamp now))]) s
                  else s)
      | Observation_failed attempt \<Rightarrow>
          (False, appendEvent now ''offer_observation_failed''
             (JObj [(''attempt'', JNum (Integer (int attempt))), (''observedAt'', JStr (stamp now))])
             (setObservationFailures attempt s))
      | Observation_suspended \<Rightarrow>
          (True, setObservationFailures MAXIMUM_OBSERVATION_RETRIES
             (if events_of ''offer_observation_suspended'' s = []
              then appendEvent now ''offer_observation_suspended''
                     (JObj [(''attempts'', JNum (Integer (int MAXIMUM_OBSERVATION_RETRIES))), (''observedAt'', JStr (stamp now))]) s
              else s))
      | Unchanged _ \<Rightarrow> (False, setObservationFailures 0 s))"

definition held_of :: "stored_checkout \<Rightarrow> session \<Rightarrow> held_offer" where
  "held_of row s = \<lparr>
     ho_offerId = co_offer_id row, ho_agentId = co_agent_id row,
     ho_recorded = \<lparr>oa_priceMinor = co_amount_minor row, oa_available = True, oa_agentActive = True\<rparr>,
     ho_priorChanges = filter isChangeEvent (map ev_evidence (events_of ''offer_changed'' s)),
     ho_failedAttempts = co_observation_failure_count row\<rparr>"

definition watched :: "stored_checkout \<Rightarrow> bool" where
  "watched row = (co_state row \<in> {Confirmation_required, Confirming, Reconciliation_required})"

text \<open>\<open>#observeHeldOffer\<close>; \<open>False\<close> when a storage operation of its end throws.\<close>

definition session_observe :: "session_env \<Rightarrow> session \<Rightarrow> bool \<times> session" where
  "session_observe env s =
     (case ss_row s of
        None \<Rightarrow> (True, s)
      | Some row \<Rightarrow>
          if \<not> watched row
          then stopObservation env (if co_state row = Settled then ''settled'' else ''closed'') s
          else
            let s1 = log_call (Observe_call (co_offer_id row)) s;
                outcome = observeHeldOffer (env_observation env) (env_registry env) (stamp (env_now env)) (held_of row s);
                (suspended, s2) = recordObservation (env_now env) outcome s1
            in if suspended then (True, s2)
               else if env_alarm_ok env
               then (True, s2\<lparr>ss_alarm := Some (env_now env + OBSERVATION_INTERVAL_MS)\<rparr>)
               else (False, s2))"

definition recovering :: "stored_checkout \<Rightarrow> bool" where
  "recovering row = (co_state row \<in> {Confirming, Reconciliation_required}
     \<and> truthy (co_human_confirmation_digest row) \<and> truthy (co_settlement_idempotency_key row))"

text \<open>The platform clears the alarm before it runs the handler. \<open>False\<close>: the handler throws.\<close>

definition alarm :: "session_env \<Rightarrow> session \<Rightarrow> bool \<times> session" where
  "alarm env s0 =
     (let s = s0\<lparr>ss_alarm := None\<rparr>
      in case ss_row s of
           None \<Rightarrow> session_observe env s
         | Some row \<Rightarrow>
             if co_state row = Settled \<and> truthy (co_provider_result_json row)
                \<and> co_markup_finalization_state row \<noteq> Finalization_completed
             then (True, snd (resumeSettledFinalization env row True s))
             else if recovering row
             then
               (let (ok, s1) = session_observe env s
                in if \<not> ok then (False, s1)
                   else case ss_row s1 of
                     None \<Rightarrow> (True, s1)
                   | Some observed \<Rightarrow>
                       if recovering observed
                       then
                         (let (res, s2) = reconcile env observed (text_or_empty (co_human_confirmation_digest observed))
                                (text_or_empty (co_settlement_idempotency_key observed)) s1
                          in case res of
                               Inl _ \<Rightarrow> (False, s2)
                             | Inr _ \<Rightarrow>
                                 (case ss_row s2 of
                                    Some remaining \<Rightarrow>
                                      if co_state remaining \<in> {Confirming, Reconciliation_required} \<and> ss_alarm s2 = None
                                      then (True, snd (armRecoveryAlarm env s2)) else (True, s2)
                                  | None \<Rightarrow> (True, s2)))
                       else (True, s1))
             else session_observe env s)"

datatype status_result =
    Checkout_missing
  | Checkout_status string checkout_status "string option" "stored_event list"

definition status :: "session \<Rightarrow> status_result" where
  "status s = (case ss_row s of
      None \<Rightarrow> Checkout_missing
    | Some row \<Rightarrow> Checkout_status (co_checkout_id row) (co_state row) (co_failure_code row) (events s))"

end
