(* ===== verification/Checkout_Steps.thy ===== *)
theory Checkout_Steps imports Checkout_Session begin

text \<open>
  The checkout object as a transition system. A step of \<open>session_tx\<close> is one storage transaction (or
  one alarm write, one provider call, one ledger append) together with the guard under which the code
  runs it. Every handler run is a sequence of these steps (\<open>confirm_steps\<close>, \<open>alarm_steps\<close>, ...), so a
  property kept by every step holds after every run and also where an eviction cuts a run short.
\<close>

section \<open>Steps\<close>

definition outbox_retry_line :: "markup_outbox \<Rightarrow> revenue_line option" where
  "outbox_retry_line b = (case b of
      Outbox_deferred input _ \<Rightarrow> computeRevenueLine default_compute input
    | Outbox_ready line \<Rightarrow> Some line)"

text \<open>A recorded markup rests on the line of the row's outbox being in the ledger.\<close>

definition markup_evidence :: "stored_checkout \<Rightarrow> markup_outcome \<Rightarrow> revenue_table \<Rightarrow> bool" where
  "markup_evidence row markup t =
     (case markup of
        Recorded m _ _ \<Rightarrow>
          (case (restoreSettlementReceipt (co_settlement_receipt_json row) (row_expectation row),
                 Option.bind (readSettlementMarkupOutbox (co_markup_outbox_json row)) outbox_retry_line) of
             (Some _, Some line) \<Rightarrow> ledger_read t (settlementId line) = Some line \<and> m = markupMinor line
           | _ \<Rightarrow> False)
      | _ \<Rightarrow> True)"

inductive session_tx :: "session \<Rightarrow> session \<Rightarrow> bool" where
  tx_open: "validPrepare input \<Longrightarrow> ss_row s = None \<Longrightarrow> session_tx s (open_checkout env input s)"
| tx_guardrail: "ss_pending s = Some input \<Longrightarrow> requestGuardrail reply input = Some receipt \<Longrightarrow>
    session_tx s (record_guardrail env receipt (s\<lparr>ss_pending := None\<rparr>))"
| tx_prepare_failed: "ss_pending s = Some input \<Longrightarrow>
    session_tx s (snd (prepareFailure now code (s\<lparr>ss_pending := None\<rparr>)))"
| tx_guardrail_failed: "ss_pending s = Some input \<Longrightarrow> requestGuardrail reply input = Some receipt \<Longrightarrow>
    session_tx s (snd (prepareFailure now code (record_guardrail env receipt (s\<lparr>ss_pending := None\<rparr>))))"
| tx_evicted: "session_tx s (s\<lparr>ss_pending := None\<rparr>)"
| tx_confirm: "confirm_decide env input s = Accept digest blockers blockerDigest rate \<Longrightarrow>
    session_tx s (fst (record_confirmation env input digest blockers blockerDigest rate s))"
| tx_submit: "confirm_decide env input s = Accept digest blockers blockerDigest rate \<Longrightarrow>
    s' = fst (record_confirmation env input digest blockers blockerDigest rate s) \<Longrightarrow> ss_row s' = Some row \<Longrightarrow>
    session_tx s (log_call (Submit_call (settlementRequest row digest (idempotency_key input))
      (unacknowledgedBlockingEvents s')) s')"
| tx_expired: "confirm_decide env input s = Expire \<Longrightarrow> session_tx s (close_failed now code s)"
| tx_mark: "ss_row s = Some row \<Longrightarrow> session_tx s (mark_reconciliation now row digest key s)"
| tx_require: "session_tx s (snd (requireReconciliation now code s))"
| tx_settle: "ss_row s = Some row \<Longrightarrow> normalizeSettlementReceipt payload (row_expectation row) = Inr receipt \<Longrightarrow>
    co_applied_rate_basis_points row = Some rate \<Longrightarrow>
    createSettlementMarkupOutbox (Integer rate) (co_agent_id row) receipt now default_compute = Inr outbox \<Longrightarrow>
    session_tx s (fst (record_settlement now payload receipt outbox s))"
| tx_finalize: "ss_row s = Some row \<Longrightarrow> truthy (co_provider_result_json row) \<Longrightarrow>
    \<not> (co_markup_finalization_state row = Finalization_completed \<and> truthy (co_markup_finalization_json row)) \<Longrightarrow>
    markup_evidence row markup (ss_ledger s) \<Longrightarrow>
    session_tx s (record_finalization now receipt markup stopped n retryAt s)"
| tx_stopped: "session_tx s (recordObservationStopped now reason s)"
| tx_observe: "ss_row s = Some row \<Longrightarrow> watched row \<Longrightarrow>
    outcome = observeHeldOffer reply registry (stamp now) (held_of row s) \<Longrightarrow>
    session_tx s (snd (recordObservation now outcome s))"
| tx_alarm: "session_tx s (s\<lparr>ss_alarm := a\<rparr>)"
| tx_call: "(\<And>body bs. c \<noteq> Submit_call body bs) \<Longrightarrow> session_tx s (log_call c s)"
| tx_ledger: "session_tx s (s\<lparr>ss_ledger := snd (appendLine line (ss_ledger s))\<rparr>)"

abbreviation session_run :: "session \<Rightarrow> session \<Rightarrow> bool" where
  "session_run \<equiv> rtranclp session_tx"

lemmas run_trans = rtranclp_trans [of session_tx]
lemmas run_step = r_into_rtranclp [of session_tx]

lemma run_alarm [intro]: "session_run s (s\<lparr>ss_alarm := a\<rparr>)"
  by (rule run_step) (rule tx_alarm)

lemma run_alarm_after: "session_run s s' \<Longrightarrow> session_run s (s'\<lparr>ss_alarm := a\<rparr>)"
  by (rule run_trans) auto

section \<open>Fields that an operation leaves alone\<close>

lemma appendEvent_fields [simp]:
  "ss_row (appendEvent now ty ev s) = ss_row s" "ss_alarm (appendEvent now ty ev s) = ss_alarm s"
  "ss_ledger (appendEvent now ty ev s) = ss_ledger s" "ss_pending (appendEvent now ty ev s) = ss_pending s"
  "ss_calls (appendEvent now ty ev s) = ss_calls s"
  by (simp_all add: appendEvent_def)

lemma log_call_fields [simp]:
  "ss_row (log_call c s) = ss_row s" "ss_alarm (log_call c s) = ss_alarm s" "ss_events (log_call c s) = ss_events s"
  "ss_ledger (log_call c s) = ss_ledger s" "ss_pending (log_call c s) = ss_pending s"
  by (simp_all add: log_call_def)

lemma update_row_fields [simp]:
  "ss_events (fst (update_row p f s)) = ss_events s" "ss_alarm (fst (update_row p f s)) = ss_alarm s"
  "ss_ledger (fst (update_row p f s)) = ss_ledger s" "ss_pending (fst (update_row p f s)) = ss_pending s"
  "ss_calls (fst (update_row p f s)) = ss_calls s"
  by (simp_all add: update_row_def split: option.splits)

lemma update_row_row [simp]:
  "ss_row (fst (update_row p f s)) = map_option (\<lambda>r. if p r then f r else r) (ss_row s)"
  by (simp add: update_row_def split: option.splits)

lemma update_row_written: "snd (update_row p f s) = (case ss_row s of Some r \<Rightarrow> p r | None \<Rightarrow> False)"
  by (simp add: update_row_def split: option.splits)

lemma events_cong [simp]:
  "events (s\<lparr>ss_alarm := a\<rparr>) = events s" "events (s\<lparr>ss_ledger := t\<rparr>) = events s"
  "events (s\<lparr>ss_pending := p\<rparr>) = events s" "events (log_call c s) = events s"
  "events (fst (update_row p' f s)) = events s"
  by (simp_all add: events_def)

lemma events_of_cong [simp]:
  "events_of ty (s\<lparr>ss_alarm := a\<rparr>) = events_of ty s" "events_of ty (s\<lparr>ss_ledger := t\<rparr>) = events_of ty s"
  "events_of ty (s\<lparr>ss_pending := p\<rparr>) = events_of ty s" "events_of ty (log_call c s) = events_of ty s"
  "events_of ty (fst (update_row p' f s)) = events_of ty s"
  by (simp_all add: events_of_def)

lemma confirm_decide_alarm: "confirm_decide env input (s\<lparr>ss_alarm := a\<rparr>) = confirm_decide env input s"
  by (simp add: confirm_decide_def confirm_offer_def unacknowledgedBlockingEvents_def Let_def split: option.splits)

section \<open>Handler runs are sequences of steps\<close>

lemma recordSettlementMarkup_table:
  "\<exists>line. snd (recordSettlementMarkup fate b t) \<in> {t, snd (appendLine line t)}"
proof -
  have "\<exists>line. snd (append_attempts ns fate l t) \<in> {t, snd (appendLine line t)}" for ns l
    using append_attempts_table by blast
  then show ?thesis by (auto simp: recordSettlementMarkup_def split: option.splits)
qed

lemma run_ledger: "session_run s (s\<lparr>ss_ledger := snd (recordSettlementMarkup fate b (ss_ledger s))\<rparr>)"
proof -
  obtain line where "snd (recordSettlementMarkup fate b (ss_ledger s)) \<in> {ss_ledger s, snd (appendLine line (ss_ledger s))}"
    using recordSettlementMarkup_table by blast
  then show ?thesis using tx_ledger [of s line] by auto
qed

lemma recorded_evidence:
  assumes "recordSettlementMarkup fate b t = (Recorded m idem n, t')"
  shows "\<exists>line. outbox_retry_line b = Some line \<and> ledger_read t' (settlementId line) = Some line \<and> m = markupMinor line"
  using assms append_attempts_recorded
  by (auto simp: recordSettlementMarkup_def outbox_retry_line_def split: option.splits markup_outbox.splits)

text \<open>The ledger part of a finalization: the outcome it reports has its evidence.\<close>

lemma settlement_markup_evidence:
  assumes "(case (restoreSettlementReceipt (co_settlement_receipt_json row) (row_expectation row),
        readSettlementMarkupOutbox (co_markup_outbox_json row)) of
      (Some _, Some b) \<Rightarrow> recordSettlementMarkup fate b t | _ \<Rightarrow> (Deferred_unexpected, t)) = (markup, t')"
  shows "markup_evidence row markup t'"
proof (cases markup)
  case (Recorded m idem n)
  with assms obtain r b where r: "restoreSettlementReceipt (co_settlement_receipt_json row) (row_expectation row) = Some r"
    "readSettlementMarkupOutbox (co_markup_outbox_json row) = Some b" "recordSettlementMarkup fate b t = (Recorded m idem n, t')"
    by (auto split: option.splits)
  with recorded_evidence [OF r(3)] Recorded show ?thesis by (auto simp: markup_evidence_def)
qed (simp_all add: markup_evidence_def)

lemma resume_steps:
  assumes row: "ss_row s = Some row" and pr: "truthy (co_provider_result_json row)"
  shows "session_run s (snd (resumeSettledFinalization env row idem s))"
proof (cases "co_markup_finalization_state row = Finalization_completed \<and> truthy (co_markup_finalization_json row)")
  case True
  then show ?thesis by (simp add: resumeSettledFinalization_def Let_def)
next
  case False
  define s1 where "s1 = (if env_settle_alarm_ok env
    then recordObservationStopped (env_later env) ''settled'' (s\<lparr>ss_alarm := Some (env_later env + OBSERVATION_INTERVAL_MS)\<rparr>) else s)"
  have stop_row: "ss_row (recordObservationStopped n t x) = ss_row x" "ss_ledger (recordObservationStopped n t x) = ss_ledger x" for n t x
    by (simp_all add: recordObservationStopped_def)
  have s1: "session_run s s1" "ss_row s1 = Some row"
    using tx_stopped [of "s\<lparr>ss_alarm := Some (env_later env + OBSERVATION_INTERVAL_MS)\<rparr>" "env_later env" "''settled''"] row
    by (auto simp: s1_def stop_row intro: run_trans [OF run_alarm run_step])
  obtain markup t' where m: "(case (restoreSettlementReceipt (co_settlement_receipt_json row) (row_expectation row),
        readSettlementMarkupOutbox (co_markup_outbox_json row)) of
      (Some _, Some b) \<Rightarrow> recordSettlementMarkup (env_fates env) b (ss_ledger s1)
    | _ \<Rightarrow> (Deferred_unexpected, ss_ledger s1)) = (markup, t')" by (rule prod.exhaust)
  define s2 where "s2 = s1\<lparr>ss_ledger := t'\<rparr>"
  have "t' = ss_ledger s1 \<or> (\<exists>b. t' = snd (recordSettlementMarkup (env_fates env) b (ss_ledger s1)))"
    using m by (auto split: option.splits) (metis snd_conv)+
  then have s2: "session_run s s2" "ss_row s2 = Some row"
    using s1 run_ledger [of s1 "env_fates env"] by (auto simp: s2_def intro: run_trans)
  have "markup_evidence row markup (ss_ledger s2)"
    using settlement_markup_evidence [OF m] by (simp add: s2_def)
  then have fin: "session_run s (record_finalization now receipt markup stopped n r s2)" for now receipt stopped n r
    using s2 pr False tx_finalize [of s2 row markup] by (blast intro: run_trans run_step)
  show ?thesis
    unfolding resumeSettledFinalization_def Let_def s1_def [symmetric] m [unfolded prod.case] prod.case s2_def [symmetric]
    using False fin s2(1) run_alarm_after [OF fin] by simp
qed

lemma require_steps: "session_run s (snd (requireReconciliation now code s))"
  by (rule run_step) (rule tx_require)

lemma readRate_optional:
  "readRateBasisPoints (map_option (\<lambda>r. JNum (Integer r)) x) = Some r \<longleftrightarrow> x = Some r \<and> 1 \<le> r \<and> r \<le> 1000"
  by (cases x) (auto simp: readRateBasisPoints_def in_rate_range_Some)

lemma record_settlement_row:
  "ss_row (fst (record_settlement now payload receipt outbox s)) =
     map_option (\<lambda>r. if co_state r \<in> {Confirming, Reconciliation_required} then settle_row payload receipt outbox r else r) (ss_row s)"
  by (simp add: record_settlement_def split_beta)

lemma consume_steps:
  assumes row: "ss_row s = Some row"
    and acc: "\<And>payload receipt. provider = Inr (payload, receipt) \<Longrightarrow>
      normalizeSettlementReceipt payload (row_expectation row) = Inr receipt"
  shows "session_run s (snd (consumeSettlement env provider idem s))"
proof (cases provider)
  case (Inl code)
  then show ?thesis using require_steps by (simp add: consumeSettlement_def split_beta)
next
  case (Inr pr)
  then obtain payload receipt where pr: "provider = Inr (payload, receipt)" by (cases pr) auto
  show ?thesis
  proof (cases "readRateBasisPoints (map_option (\<lambda>r. JNum (Integer r)) (co_applied_rate_basis_points row))")
    case None
    then show ?thesis using require_steps pr row by (simp add: consumeSettlement_def split_beta)
  next
    case (Some rate)
    show ?thesis
    proof (cases "createSettlementMarkupOutbox (Integer rate) (co_agent_id row) receipt (env_later env) default_compute")
      case (Inl e)
      then show ?thesis using pr row Some by (simp add: consumeSettlement_def)
    next
      case (Inr outbox)
      let ?s' = "fst (record_settlement (env_later env) payload receipt outbox s)"
      have "session_tx s ?s'"
        using tx_settle [OF row acc [OF pr] _ Inr] Some by (simp add: readRate_optional)
      moreover obtain stored where st: "ss_row ?s' = Some stored" using row by (simp add: record_settlement_row)
      ultimately show ?thesis
        using pr row Some Inr resume_steps [OF st]
        by (auto simp: consumeSettlement_def split_beta intro: run_step run_trans)
    qed
  qed
qed

lemma reply_accepted:
  "settlement_reply threw reply row digest key = Inr (payload, receipt) \<Longrightarrow>
     normalizeSettlementReceipt payload (settlement_expectation row digest key) = Inr receipt"
  by (auto simp: settlement_reply_def consumeSettlementResponse_def
      split: provider_reply.splits if_splits option.splits sum.splits)

lemma mark_row: "ss_row (mark_reconciliation now row digest key s) =
    map_option (\<lambda>r. if co_state r \<in> {Confirming, Reconciliation_required} then r\<lparr>co_state := Reconciliation_required\<rparr> else r) (ss_row s)"
  by (simp add: mark_reconciliation_def split_beta)

lemma expectation_fields:
  assumes "co_human_confirmation_digest row = Some digest" "co_settlement_idempotency_key row = Some key"
  shows "settlement_expectation row digest key = row_expectation row"
  using assms by (simp add: settlement_expectation_def row_expectation_def text_or_empty_def)

lemma reconcile_steps:
  assumes row: "ss_row s = Some row" and d: "co_human_confirmation_digest row = Some digest"
    and k: "co_settlement_idempotency_key row = Some key"
  shows "session_run s (snd (reconcile env row digest key s))"
proof (cases "readRateBasisPoints (map_option (\<lambda>r. JNum (Integer r)) (co_applied_rate_basis_points row)) = None")
  case True
  then show ?thesis using require_steps by (simp add: reconcile_def split_beta)
next
  case False
  define s1 where "s1 = log_call (Status_call key) (mark_reconciliation (env_now env) row digest key s)"
  have "session_run s s1"
    unfolding s1_def by (rule run_trans [OF run_step [OF tx_mark [OF row]] run_step [OF tx_call]]) simp
  moreover obtain row1 where r1: "ss_row s1 = Some row1" "row_expectation row1 = row_expectation row"
    using row by (auto simp: s1_def mark_row row_expectation_def)
  have "session_run s1 (snd (consumeSettlement env (reconcileSettlement (env_reply env) row digest key) True s1))"
    by (rule consume_steps [OF r1(1)])
      (simp add: reconcileSettlement_def reply_accepted r1(2) flip: expectation_fields [OF d k])
  ultimately have "session_run s (snd (consumeSettlement env (reconcileSettlement (env_reply env) row digest key) True s1))"
    by (rule run_trans)
  then show ?thesis unfolding reconcile_def if_not_P [OF False] Let_def s1_def [symmetric] .
qed

lemma confirm_decide_row:
  "confirm_decide env input s = Resume row \<Longrightarrow> ss_row s = Some row \<and> co_state row = Settled \<and> truthy (co_provider_result_json row)"
  "confirm_decide env input s = Resume_reconciliation row digest key \<Longrightarrow>
     ss_row s = Some row \<and> co_state row \<in> {Confirming, Reconciliation_required}
     \<and> co_human_confirmation_digest row = Some digest \<and> co_settlement_idempotency_key row = Some key"
  by (auto simp: confirm_decide_def confirm_offer_def Let_def truthy_def text_or_empty_def split: option.splits if_splits)

lemma record_confirmation_row:
  "ss_row (fst (record_confirmation env input digest blockers bd rate s)) =
     map_option (\<lambda>r. if co_state r = Confirmation_required then confirm_row digest (idempotency_key input) rate r else r) (ss_row s)"
proof -
  have fold: "ss_row (foldl (\<lambda>s b. appendEvent (env_now env) ''offer_change_acknowledged'' (acknowledgement_json b bd) s) x bs) = ss_row x" for x bs
    by (induction bs arbitrary: x) simp_all
  show ?thesis by (simp add: record_confirmation_def split_beta fold)
qed

lemma armed_steps: "session_run s (snd (armRecoveryAlarm env s))"
  by (auto simp: armRecoveryAlarm_def)

lemma armed_fields:
  "ss_row (snd (armRecoveryAlarm env s)) = ss_row s"
  "confirm_decide env input (snd (armRecoveryAlarm env s)) = confirm_decide env input s"
  by (simp_all add: armRecoveryAlarm_def confirm_decide_alarm)

lemma stop_steps: "session_run s (snd (stopObservation env reason s))"
  using run_step [OF tx_stopped] run_alarm_after by (auto simp: stopObservation_def Let_def)

lemma submit_steps:
  assumes acc: "confirm_decide env input s = Accept digest blockers bd rate"
    and s': "s' = fst (record_confirmation env input digest blockers bd rate s)" and row: "ss_row s' = Some row"
    and rate: "co_human_confirmation_digest row = Some digest" "co_settlement_idempotency_key row = Some (idempotency_key input)"
  shows "session_run s (snd (submit_confirmed env row digest (idempotency_key input) s'))"
proof -
  let ?s'' = "log_call (Submit_call (settlementRequest row digest (idempotency_key input)) (unacknowledgedBlockingEvents s')) s'"
  have "session_run s ?s''" by (rule run_step [OF tx_submit [OF acc s' row]])
  moreover have "session_run ?s'' (snd (submit_confirmed env row digest (idempotency_key input) s'))"
    unfolding submit_confirmed_def
    by (rule consume_steps [where row = row])
      (simp_all add: row submitSettlement_def reply_accepted flip: expectation_fields [OF rate])
  ultimately show ?thesis by (rule run_trans)
qed

lemma accept_row:
  assumes "confirm_decide env input s = Accept digest blockers bd rate"
  shows "\<exists>row. ss_row s = Some row \<and> co_state row = Confirmation_required"
  using assms by (auto simp: confirm_decide_def confirm_offer_def Let_def split: option.splits if_splits)

theorem confirm_steps: "session_run s (snd (confirm env input s))"
proof (cases "confirm_decide env input s")
  case (Refuse r)
  then show ?thesis by (simp add: confirm_def)
next
  case (Resume row)
  with confirm_decide_row(1) [OF this] show ?thesis using resume_steps by (simp add: confirm_def)
next
  case (Resume_reconciliation row digest key)
  note r = confirm_decide_row(2) [OF this]
  show ?thesis
    using r Resume_reconciliation armed_steps [of s env]
      reconcile_steps [of "snd (armRecoveryAlarm env s)" row digest key env]
    by (auto simp: confirm_def split_beta armed_fields intro: run_trans)
next
  case Expire
  have "session_run s (close_failed (env_now env) ''confirmation_expired'' s)"
    by (rule run_step [OF tx_expired [OF Expire]])
  with Expire stop_steps show ?thesis
    by (auto simp: confirm_def terminalFailure_def Let_def split_beta intro: run_trans)
next
  case (Accept digest blockers bd rate)
  define s1 where "s1 = snd (armRecoveryAlarm env s)"
  define s2 where "s2 = fst (record_confirmation env input digest blockers bd rate s1)"
  have acc: "confirm_decide env input s1 = Accept digest blockers bd rate" using Accept by (simp add: s1_def armed_fields)
  then obtain row0 where row0: "ss_row s1 = Some row0" "co_state row0 = Confirmation_required" using accept_row by blast
  then have row: "ss_row s2 = Some (confirm_row digest (idempotency_key input) rate row0)"
    by (simp add: s2_def record_confirmation_row)
  have run: "session_run s1 (snd (submit_confirmed env (confirm_row digest (idempotency_key input) rate row0) digest (idempotency_key input) s2))"
    by (rule submit_steps [OF acc s2_def row]) (simp_all add: confirm_row_def)
  have "snd (record_confirmation env input digest blockers bd rate s1)"
    using row0 by (simp add: record_confirmation_def split_beta update_row_written)
  then have "snd (confirm env input s) = (if fst (armRecoveryAlarm env s)
      then snd (submit_confirmed env (confirm_row digest (idempotency_key input) rate row0) digest (idempotency_key input) s2) else s1)"
    using Accept row by (simp add: confirm_def split_beta flip: s1_def s2_def) (simp add: confirm_row_def)
  with run armed_steps [of s env] show ?thesis by (auto simp: s1_def intro: run_trans)
qed

lemma observe_fields: "ss_row (log_call c s) = ss_row s" "held_of row (log_call c s) = held_of row s"
  by (simp_all add: held_of_def)

lemma session_observe_steps: "session_run s (snd (session_observe env s))"
proof (cases "ss_row s")
  case (Some row)
  show ?thesis
  proof (cases "watched row")
    case True
    let ?s1 = "log_call (Observe_call (co_offer_id row)) s"
    let ?o = "observeHeldOffer (env_observation env) (env_registry env) (stamp (env_now env)) (held_of row s)"
    have "session_run s ?s1" by (rule run_step [OF tx_call]) simp
    moreover have "session_tx ?s1 (snd (recordObservation (env_now env) ?o ?s1))"
      by (rule tx_observe [where row = row]) (use Some True in \<open>simp_all add: observe_fields\<close>)
    ultimately have "session_run s (snd (recordObservation (env_now env) ?o ?s1))"
      by (metis rtranclp.rtrancl_into_rtrancl)
    with Some True show ?thesis
      by (auto simp: session_observe_def Let_def split_beta intro: run_alarm_after)
  qed (use Some stop_steps in \<open>simp add: session_observe_def\<close>)
qed (simp add: session_observe_def)

lemma truthy_text: "truthy x \<Longrightarrow> x = Some (text_or_empty x)"
  by (auto simp: truthy_def text_or_empty_def split: option.splits)

theorem alarm_steps: "session_run s (snd (alarm env s))"
proof -
  define s0 where "s0 = s\<lparr>ss_alarm := None\<rparr>"
  have start: "session_run s s0" unfolding s0_def by (rule run_alarm)
  have row0: "ss_row s0 = ss_row s" by (simp add: s0_def)
  have obs: "session_run s (snd (session_observe env s0))"
    using start session_observe_steps by (rule run_trans)
  have rec: "session_run s (snd (reconcile env r (text_or_empty (co_human_confirmation_digest r)) (text_or_empty (co_settlement_idempotency_key r)) s1))"
    if "session_run s s1" "ss_row s1 = Some r" "recovering r" for r s1
    using that reconcile_steps [OF that(2)] truthy_text by (auto simp: recovering_def intro: run_trans)
  have arm: "session_run s s1 \<Longrightarrow> session_run s (snd (armRecoveryAlarm env s1))" for s1
    using armed_steps by (blast intro: run_trans)
  show ?thesis
  proof (cases "ss_row s0")
    case None
    then show ?thesis using obs by (auto simp: alarm_def Let_def simp flip: s0_def)
  next
    case (Some row)
    have res: "truthy (co_provider_result_json row) \<Longrightarrow> session_run s (snd (resumeSettledFinalization env row True s0))"
      using start resume_steps [OF Some] by (blast intro: run_trans)
    show ?thesis
      unfolding alarm_def Let_def s0_def [symmetric]
      using Some by (auto simp: split_beta split: option.splits sum.splits intro!: obs res rec arm)
  qed
qed

theorem prepare_begin_steps: "session_run s (snd (prepare_begin env input s))"
proof (cases "validPrepare input \<and> ss_row s = None")
  case True
  have "session_run s (log_call (Guardrail_call input) (open_checkout env input s))"
    by (rule run_trans [OF run_step [OF tx_open] run_step [OF tx_call]]) (use True in auto)
  with True show ?thesis by (simp add: prepare_begin_def Let_def)
qed (auto simp: prepare_begin_def Let_def)

theorem prepare_finish_steps:
  assumes "ss_pending s = Some input"
  shows "session_run s (snd (prepare_finish env input s))"
  using run_step [OF tx_prepare_failed [OF assms]] run_step [OF tx_guardrail [OF assms]] run_step [OF tx_guardrail_failed [OF assms]]
  by (auto simp: prepare_finish_def Let_def split: option.splits intro: run_alarm_after)

end
