(* ===== verification/Checkout_Invariants.thy ===== *)
theory Checkout_Invariants imports Checkout_Steps begin

text \<open>
  The invariant of a checkout and the properties that follow from it in every reachable state:
  what a row holds in each status, how often each event and each settlement call can occur, and what
  never changes again. The properties at the end are stated for the states reachable from the empty
  object by any sequence of steps, which includes every handler run and every interrupted run.
\<close>

section \<open>The event log\<close>

definition event_stored :: "event_row \<Rightarrow> bool" where
  "event_stored r = (\<exists>v. storable v \<and> er_evidence_json r = canonicalJson v)"

definition log_ok :: "session \<Rightarrow> bool" where
  "log_ok s = (map er_sequence (ss_events s) = [1..<Suc (length (ss_events s))] \<and> list_all event_stored (ss_events s))"

definition count_events :: "string \<Rightarrow> session \<Rightarrow> nat" where
  "count_events ty s = length (filter (\<lambda>r. er_event_type r = ty) (ss_events s))"

lemma next_sequence_upt:
  assumes "map er_sequence es = [1..<Suc (length es)]"
  shows "next_sequence es = Suc (length es)"
proof -
  have fold: "foldr max xs (0 :: nat) = (if xs = [] then 0 else Max (set xs))" for xs
    by (induction xs) auto
  have "{1..<Suc n} = {} \<or> Max {1..<Suc n} = n" for n :: nat
    by (cases n) (auto intro: Max_eqI)
  then show ?thesis
    using assms by (cases "es = []") (auto simp: next_sequence_def fold simp del: upt_Suc)
qed

lemma appendEvent_log:
  assumes "log_ok s" "storable ev" shows "log_ok (appendEvent now ty ev s)"
proof -
  have "next_sequence (ss_events s) = Suc (length (ss_events s))"
    using assms(1) by (simp add: log_ok_def next_sequence_upt)
  with assms show ?thesis by (auto simp: log_ok_def appendEvent_def event_stored_def)
qed

lemma count_appendEvent [simp]:
  "count_events ty (appendEvent now ty' ev s) = count_events ty s + (if ty = ty' then 1 else 0)"
  by (simp add: count_events_def appendEvent_def)

lemma count_cong [simp]:
  "count_events ty (s\<lparr>ss_alarm := a\<rparr>) = count_events ty s" "count_events ty (s\<lparr>ss_ledger := t\<rparr>) = count_events ty s"
  "count_events ty (s\<lparr>ss_pending := p\<rparr>) = count_events ty s" "count_events ty (log_call c s) = count_events ty s"
  "count_events ty (s\<lparr>ss_row := r\<rparr>) = count_events ty s"
  "count_events ty (fst (update_row p' f s)) = count_events ty s"
  by (simp_all add: count_events_def)

lemma log_cong [simp]:
  "log_ok (s\<lparr>ss_alarm := a\<rparr>) = log_ok s" "log_ok (s\<lparr>ss_ledger := t\<rparr>) = log_ok s"
  "log_ok (s\<lparr>ss_pending := p\<rparr>) = log_ok s" "log_ok (log_call c s) = log_ok s"
  "log_ok (s\<lparr>ss_row := r\<rparr>) = log_ok s" "log_ok (fst (update_row p' f s)) = log_ok s"
  by (simp_all add: log_ok_def)

text \<open>Appending one event for each element of a list.\<close>

definition append_each :: "int \<Rightarrow> string \<Rightarrow> ('a \<Rightarrow> json) \<Rightarrow> 'a list \<Rightarrow> session \<Rightarrow> session" where
  "append_each now ty f xs s = foldl (\<lambda>s x. appendEvent now ty (f x) s) s xs"

lemma append_each_simps [simp]:
  "append_each now ty f [] s = s"
  "append_each now ty f (x # xs) s = append_each now ty f xs (appendEvent now ty (f x) s)"
  by (simp_all add: append_each_def)

lemma append_each_fields [simp]:
  "ss_row (append_each now ty f xs s) = ss_row s" "ss_ledger (append_each now ty f xs s) = ss_ledger s"
  "ss_pending (append_each now ty f xs s) = ss_pending s" "ss_calls (append_each now ty f xs s) = ss_calls s"
  by (induction xs arbitrary: s) simp_all

lemma append_each_log: "log_ok s \<Longrightarrow> (\<And>x. x \<in> set xs \<Longrightarrow> storable (f x)) \<Longrightarrow> log_ok (append_each now ty f xs s)"
  by (induction xs arbitrary: s) (simp_all add: appendEvent_log)

lemma count_append_each [simp]:
  "count_events ty (append_each now ty' f xs s) = count_events ty s + (if ty = ty' then length xs else 0)"
  by (induction xs arbitrary: s) simp_all

lemma appendEvent_events:
  "ss_events (appendEvent now ty ev s) = ss_events s @ [\<lparr>er_sequence = next_sequence (ss_events s), er_event_type = ty,
     er_evidence_json = canonicalJson ev, er_created_at = stamp now\<rparr>]"
  by (simp add: appendEvent_def)

text \<open>The rows that were appended: all of the type, one with the evidence of each element.\<close>

lemma append_each_events:
  "\<exists>new. ss_events (append_each now ty f xs s) = ss_events s @ new \<and> (\<forall>r \<in> set new. er_event_type r = ty)
    \<and> map er_evidence_json new = map (\<lambda>x. canonicalJson (f x)) xs"
proof (induction xs arbitrary: s)
  case (Cons x xs)
  from Cons [of "appendEvent now ty (f x) s"] show ?case by (fastforce simp: appendEvent_events)
qed simp

lemma events_log: "log_ok s \<Longrightarrow> events s = map read_event (ss_events s)"
  and events_of_log: "log_ok s \<Longrightarrow> events_of ty s = map read_event (filter (\<lambda>r. er_event_type r = ty) (ss_events s))"
proof -
  assume "log_ok s"
  then have "sorted_wrt (\<lambda>a b. er_sequence a \<le> er_sequence b) (ss_events s)"
  proof -
    have "sorted (map er_sequence (ss_events s))" using \<open>log_ok s\<close> by (simp add: log_ok_def del: upt_Suc)
    then show ?thesis by (simp add: sorted_wrt_map)
  qed
  then show "events s = map read_event (ss_events s)"
    "events_of ty s = map read_event (filter (\<lambda>r. er_event_type r = ty) (ss_events s))"
    by (simp_all add: events_def events_of_def sort_by_id sorted_wrt_filter)
qed

lemma events_of_count: "log_ok s \<Longrightarrow> events_of ty s = [] \<longleftrightarrow> count_events ty s = 0"
  by (simp add: events_of_log count_events_def)

section \<open>Acknowledgements\<close>

lemma acknowledged_canonical:
  assumes "int (ev_sequence b) \<le> max_safe"
  shows "acknowledged_sequence (parse_column (canonicalJson (acknowledgement_json b d))) = int (ev_sequence b)"
proof -
  have st: "storable (acknowledgement_json b d)" by (simp add: acknowledgement_json_def)
  have "isRecord (acknowledgement_json b d)" by (simp add: acknowledgement_json_def)
  with assms show ?thesis
    by (simp add: acknowledged_sequence_def parse_column_canonicalJson [OF st] field_canonicalValue [OF st] int_of_def)
      (simp add: acknowledgement_json_def)
qed

text \<open>After a confirmation that acknowledges every open blocker, none is open.\<close>

lemma sequence_le:
  assumes "log_ok s" "r \<in> set (ss_events s)"
  shows "er_sequence r \<le> length (ss_events s)"
proof -
  have "er_sequence r \<in> set (map er_sequence (ss_events s))" using assms(2) by simp
  with assms(1) show ?thesis by (auto simp: log_ok_def simp del: set_map)
qed

lemma unacknowledged_log:
  assumes "log_ok s"
  shows "unacknowledgedBlockingEvents s = filter (\<lambda>e. int (ev_sequence e) \<notin>
      acknowledged_sequence ` ev_evidence ` read_event ` {r \<in> set (ss_events s). er_event_type r = ''offer_change_acknowledged''})
    (filter (\<lambda>e. ev_eventType e \<in> set BLOCKING_EVENT_TYPES) (map read_event (ss_events s)))"
  using assms by (simp add: unacknowledgedBlockingEvents_def events_log events_of_log Let_def image_image)

lemma acknowledged_all:
  assumes log: "log_ok s" and small: "int (length (ss_events s)) \<le> max_safe"
    and bs: "bs = unacknowledgedBlockingEvents s"
    and s': "s' = appendEvent now ''human_confirmed'' h (append_each now ''offer_change_acknowledged'' (\<lambda>b. acknowledgement_json b d) bs s)"
    and sth: "storable h"
  shows "log_ok s' \<and> unacknowledgedBlockingEvents s' = []"
proof
  have st: "storable (acknowledgement_json b d)" for b by (simp add: acknowledgement_json_def)
  show log': "log_ok s'" unfolding s' by (intro appendEvent_log append_each_log log st sth)
  obtain new where new: "ss_events s' = ss_events s @ new"
    "\<forall>r \<in> set new. er_event_type r \<in> {''offer_change_acknowledged'', ''human_confirmed''}"
    "\<forall>b \<in> set bs. \<exists>r \<in> set new. er_event_type r = ''offer_change_acknowledged'' \<and> er_evidence_json r = canonicalJson (acknowledgement_json b d)"
  proof -
    obtain acks where a: "ss_events (append_each now ''offer_change_acknowledged'' (\<lambda>b. acknowledgement_json b d) bs s) = ss_events s @ acks"
      "\<forall>r \<in> set acks. er_event_type r = ''offer_change_acknowledged''"
      "map er_evidence_json acks = map (\<lambda>x. canonicalJson (acknowledgement_json x d)) bs"
      using append_each_events by blast
    have "\<exists>r \<in> set acks. er_event_type r = ''offer_change_acknowledged'' \<and> er_evidence_json r = canonicalJson (acknowledgement_json b d)" if "b \<in> set bs" for b
    proof -
      have "canonicalJson (acknowledgement_json b d) \<in> set (map er_evidence_json acks)" using a(3) that by simp
      with a(2) show ?thesis by auto
    qed
    with a show ?thesis by (intro that) (auto simp: s' appendEvent_events)
  qed
  have False if e: "e \<in> set (unacknowledgedBlockingEvents s')" for e
  proof -
    from e obtain r where r: "r \<in> set (ss_events s')" "e = read_event r" "er_event_type r \<in> set BLOCKING_EVENT_TYPES"
      and na: "int (er_sequence r) \<notin> acknowledged_sequence ` ev_evidence ` read_event ` {r \<in> set (ss_events s'). er_event_type r = ''offer_change_acknowledged''}"
      unfolding unacknowledged_log [OF log'] by (auto simp: read_event_def)
    from r(1,3) new have old: "r \<in> set (ss_events s)" by (auto simp: BLOCKING_EVENT_TYPES_def)
    then have "e \<in> set bs"
      using r na new(1) unfolding bs unacknowledged_log [OF log] by (auto simp: read_event_def)
    with new(3) obtain a where a: "a \<in> set new" "er_event_type a = ''offer_change_acknowledged''"
      "er_evidence_json a = canonicalJson (acknowledgement_json e d)" by blast
    have "int (ev_sequence e) \<le> max_safe" using sequence_le [OF log old] small r(2) by (simp add: read_event_def)
    with a have "acknowledged_sequence (ev_evidence (read_event a)) = int (er_sequence r)"
      using acknowledged_canonical [of e d] r(2) by (simp add: read_event_def)
    moreover have "a \<in> {r \<in> set (ss_events s'). er_event_type r = ''offer_change_acknowledged''}"
      using a new(1) by simp
    ultimately show False using na by (metis (no_types, lifting) image_eqI)
  qed
  then have "set (unacknowledgedBlockingEvents s') = {}" by (meson equals0I)
  then show "unacknowledgedBlockingEvents s' = []" by simp
qed

section \<open>What a row holds in each status\<close>

definition terms_ok :: "stored_checkout \<Rightarrow> bool" where
  "terms_ok r =
     (list_all (id_pattern 127) [co_checkout_id r, co_intent_id r, co_agent_id r, co_offer_id r]
      \<and> sha256_pattern (co_offer_receipt_digest r) \<and> sha1_pattern (co_offer_provider_revision r)
      \<and> 1 \<le> co_amount_minor r \<and> co_amount_minor r \<le> co_budget_minor r \<and> co_budget_minor r \<le> max_safe
      \<and> currency_pattern (co_currency r))"

definition guardrail_evidence :: "stored_checkout \<Rightarrow> bool" where
  "guardrail_evidence r = (\<exists>g. guardrail_ok g
      \<and> co_guardrail_receipt_json r = Some (canonicalJson (guardrail_json g))
      \<and> co_guardrail_receipt_digest r = Some (gr_receiptDigest g)
      \<and> gr_checkoutId g = co_checkout_id r \<and> gr_intentId g = co_intent_id r \<and> gr_agentId g = co_agent_id r
      \<and> gr_offerReceiptDigest g = co_offer_receipt_digest r \<and> gr_amountMinor g = co_amount_minor r
      \<and> gr_budgetMinor g = co_budget_minor r \<and> gr_currency g = co_currency r
      \<and> gr_providerRevision g = co_offer_provider_revision r)"

definition unconfirmed :: "stored_checkout \<Rightarrow> bool" where
  "unconfirmed r = (co_human_confirmation_digest r = None \<and> co_settlement_idempotency_key r = None
      \<and> co_applied_rate_basis_points r = None)"

definition confirmed :: "stored_checkout \<Rightarrow> bool" where
  "confirmed r = (\<exists>digest rate. co_human_confirmation_digest r = Some digest \<and> sha256_pattern digest
      \<and> co_settlement_idempotency_key r = Some (''checkout-confirm:'' @ co_checkout_id r)
      \<and> co_applied_rate_basis_points r = Some rate \<and> 1 \<le> rate \<and> rate \<le> 1000 \<and> co_confirmation_token r = None)"

definition unsettled :: "stored_checkout \<Rightarrow> bool" where
  "unsettled r = (co_provider_result_json r = None \<and> co_settlement_receipt_json r = None
      \<and> co_markup_outbox_json r = None \<and> co_markup_finalization_state r = Finalization_pending)"

definition settlement_evidence :: "stored_checkout \<Rightarrow> bool" where
  "settlement_evidence r = (\<exists>payload receipt rate now outbox.
      normalizeSettlementReceipt payload (row_expectation r) = Inr receipt
      \<and> co_provider_result_json r = Some (canonicalJson payload)
      \<and> co_settlement_receipt_json r = Some (canonicalJson (settlement_json receipt))
      \<and> co_applied_rate_basis_points r = Some rate
      \<and> createSettlementMarkupOutbox (Integer rate) (co_agent_id r) receipt now default_compute = Inr outbox
      \<and> co_markup_outbox_json r = Some (canonicalJson (outbox_json outbox)))"

definition token_offered :: "stored_checkout \<Rightarrow> bool" where
  "token_offered r = (\<exists>token. co_confirmation_token r = Some token \<and> co_confirmation_token_digest r = Some (sha256Hex token))"

definition row_ok :: "stored_checkout \<Rightarrow> bool" where
  "row_ok r = (terms_ok r
     \<and> (case co_state r of
          Preparing \<Rightarrow> unconfirmed r \<and> unsettled r \<and> co_confirmation_token_digest r = None
        | Confirmation_required \<Rightarrow> unconfirmed r \<and> unsettled r \<and> guardrail_evidence r \<and> token_offered r
        | Confirming \<Rightarrow> confirmed r \<and> unsettled r \<and> guardrail_evidence r
        | Reconciliation_required \<Rightarrow> confirmed r \<and> unsettled r \<and> guardrail_evidence r
        | Settled \<Rightarrow> confirmed r \<and> guardrail_evidence r \<and> settlement_evidence r
        | Failed \<Rightarrow> unconfirmed r \<and> unsettled r))"

definition is_confirmed :: "session \<Rightarrow> bool" where
  "is_confirmed s = (case ss_row s of
      Some r \<Rightarrow> co_state r \<in> {Confirming, Reconciliation_required, Settled} | None \<Rightarrow> False)"

definition is_settled :: "session \<Rightarrow> bool" where
  "is_settled s = (case ss_row s of Some r \<Rightarrow> co_state r = Settled | None \<Rightarrow> False)"

text \<open>The settlement calls made.\<close>

definition is_submit :: "provider_call \<Rightarrow> bool" where
  "is_submit c = (case c of Submit_call _ _ \<Rightarrow> True | _ \<Rightarrow> False)"

definition submits :: "session \<Rightarrow> provider_call list" where
  "submits s = filter is_submit (ss_calls s)"

text \<open>A settlement call carries the row's terms and confirmation, and no blocker was open when it was made.\<close>

definition submit_ok :: "stored_checkout \<Rightarrow> nat \<Rightarrow> provider_call \<Rightarrow> bool" where
  "submit_ok r n c = (case c of
      Submit_call body blockers \<Rightarrow>
        body = settlementRequest r (text_or_empty (co_human_confirmation_digest r)) (text_or_empty (co_settlement_idempotency_key r))
        \<and> (int n \<le> max_safe \<longrightarrow> blockers = [])
    | _ \<Rightarrow> True)"

definition pending_ok :: "session \<Rightarrow> bool" where
  "pending_ok s = (\<forall>input. ss_pending s = Some input \<longrightarrow> validPrepare input \<and> (\<exists>r. ss_row s = Some r
     \<and> co_state r = Preparing
     \<and> r = new_checkout input (sha256Hex (canonicalJson (prepare_json input)))))"

definition session_ok :: "session \<Rightarrow> bool" where
  "session_ok s =
     (log_ok s \<and> pending_ok s
      \<and> (\<forall>r. ss_row s = Some r \<longrightarrow> row_ok r)
      \<and> count_events ''human_confirmed'' s = (if is_confirmed s then 1 else 0)
      \<and> count_events ''settlement_recorded'' s = (if is_settled s then 1 else 0)
      \<and> length (submits s) \<le> (if is_confirmed s then 1 else 0)
      \<and> (\<forall>r c. ss_row s = Some r \<longrightarrow> c \<in> set (submits s) \<longrightarrow> submit_ok r (length (ss_events s)) c))"

definition empty_session :: "revenue_table \<Rightarrow> session" where
  "empty_session ledger = \<lparr>ss_row = None, ss_events = [], ss_alarm = None, ss_ledger = ledger, ss_pending = None, ss_calls = []\<rparr>"

lemma empty_session_ok: "session_ok (empty_session t)"
  by (simp add: session_ok_def empty_session_def log_ok_def pending_ok_def count_events_def is_confirmed_def
      is_settled_def submits_def)

section \<open>The steps keep the invariant\<close>

lemma submits_fields [simp]:
  "submits (appendEvent now ty ev s) = submits s" "submits (append_each now ty f xs s) = submits s"
  "submits (s\<lparr>ss_alarm := a\<rparr>) = submits s" "submits (s\<lparr>ss_ledger := t\<rparr>) = submits s"
  "submits (s\<lparr>ss_pending := p\<rparr>) = submits s" "submits (s\<lparr>ss_row := r\<rparr>) = submits s"
  "submits (fst (update_row p' g s)) = submits s"
  "submits (log_call c s) = submits s @ (if is_submit c then [c] else [])"
  by (simp_all add: submits_def) (simp add: log_call_def)

lemma confirmed_fields [simp]:
  "is_confirmed (appendEvent now ty ev s) = is_confirmed s" "is_confirmed (append_each now ty f xs s) = is_confirmed s"
  "is_confirmed (s\<lparr>ss_alarm := a\<rparr>) = is_confirmed s" "is_confirmed (s\<lparr>ss_ledger := t\<rparr>) = is_confirmed s"
  "is_confirmed (s\<lparr>ss_pending := p\<rparr>) = is_confirmed s" "is_confirmed (log_call c s) = is_confirmed s"
  "is_settled (appendEvent now ty ev s) = is_settled s" "is_settled (append_each now ty f xs s) = is_settled s"
  "is_settled (s\<lparr>ss_alarm := a\<rparr>) = is_settled s" "is_settled (s\<lparr>ss_ledger := t\<rparr>) = is_settled s"
  "is_settled (s\<lparr>ss_pending := p\<rparr>) = is_settled s" "is_settled (log_call c s) = is_settled s"
  by (simp_all add: is_confirmed_def is_settled_def)

lemma submit_ok_mono: "submit_ok r n c \<Longrightarrow> n \<le> m \<Longrightarrow> submit_ok r m c"
  by (auto simp: submit_ok_def split: provider_call.splits)

lemma submit_ok_Suc: "submit_ok r n c \<Longrightarrow> submit_ok r (Suc n) c"
  by (erule submit_ok_mono) simp

lemma length_events [simp]:
  "length (ss_events (appendEvent now ty ev s)) = Suc (length (ss_events s))"
  by (simp add: appendEvent_def)

lemma length_append_each [simp]:
  "length (ss_events (append_each now ty f xs s)) = length (ss_events s) + length xs"
  by (induction xs arbitrary: s) simp_all

text \<open>An event of another type than the counted ones keeps the invariant.\<close>

lemma session_ok_appendEvent:
  assumes "session_ok s" "storable ev" "ty \<noteq> ''human_confirmed''" "ty \<noteq> ''settlement_recorded''"
  shows "session_ok (appendEvent now ty ev s)"
  using assms by (auto simp: session_ok_def appendEvent_log pending_ok_def intro: submit_ok_Suc)

lemma session_ok_append_each:
  assumes "session_ok s" "\<And>x. x \<in> set xs \<Longrightarrow> storable (f x)" "ty \<noteq> ''human_confirmed''" "ty \<noteq> ''settlement_recorded''"
  shows "session_ok (append_each now ty f xs s)"
  using assms(1,2) by (induction xs arbitrary: s) (simp_all add: session_ok_appendEvent assms(3,4))

lemma session_ok_cong [simp]:
  "session_ok (s\<lparr>ss_alarm := a\<rparr>) = session_ok s" "session_ok (s\<lparr>ss_ledger := t\<rparr>) = session_ok s"
  by (simp_all add: session_ok_def pending_ok_def)

lemma session_ok_evict: "session_ok s \<Longrightarrow> session_ok (s\<lparr>ss_pending := None\<rparr>)"
  by (simp add: session_ok_def pending_ok_def)

lemma session_ok_call: "session_ok s \<Longrightarrow> \<not> is_submit c \<Longrightarrow> session_ok (log_call c s)"
  by (simp add: session_ok_def pending_ok_def)

text \<open>Changing the row without changing its confirmation or settlement status.\<close>

lemma session_ok_update_row:
  assumes ok: "session_ok s"
    and keep: "\<And>r. ss_row s = Some r \<Longrightarrow> p r \<Longrightarrow> row_ok (f r)
        \<and> (co_state (f r) \<in> {Confirming, Reconciliation_required, Settled} \<longleftrightarrow> co_state r \<in> {Confirming, Reconciliation_required, Settled})
        \<and> (co_state (f r) = Settled \<longleftrightarrow> co_state r = Settled)
        \<and> (co_state r \<in> {Confirming, Reconciliation_required, Settled} \<longrightarrow>
              (\<forall>digest key. settlementRequest (f r) digest key = settlementRequest r digest key)
              \<and> co_human_confirmation_digest (f r) = co_human_confirmation_digest r
              \<and> co_settlement_idempotency_key (f r) = co_settlement_idempotency_key r)"
    and pend: "ss_pending s = None \<or> (\<forall>r. ss_row s = Some r \<longrightarrow> p r \<longrightarrow> f r = r)"
  shows "session_ok (fst (update_row p f s))"
proof (cases "\<exists>r. ss_row s = Some r \<and> p r")
  case True
  then obtain r where r: "ss_row s = Some r" "p r" by blast
  have "fst (update_row p f s) = s\<lparr>ss_row := Some (f r)\<rparr>" using r by (simp add: update_row_def)
  moreover have "session_ok (s\<lparr>ss_row := Some (f r)\<rparr>)"
  proof -
    have "is_confirmed (s\<lparr>ss_row := Some (f r)\<rparr>) = is_confirmed s" "is_settled (s\<lparr>ss_row := Some (f r)\<rparr>) = is_settled s"
      using keep [OF r] r by (auto simp: is_confirmed_def is_settled_def)
    moreover have "pending_ok (s\<lparr>ss_row := Some (f r)\<rparr>)"
      using ok pend r by (auto simp: session_ok_def pending_ok_def)
    moreover have "\<forall>c \<in> set (submits s). submit_ok (f r) (length (ss_events s)) c"
    proof (cases "is_confirmed s")
      case True
      then have c: "co_state r \<in> {Confirming, Reconciliation_required, Settled}" using r by (simp add: is_confirmed_def)
      then have eq: "settlementRequest (f r) = settlementRequest r"
        "co_human_confirmation_digest (f r) = co_human_confirmation_digest r"
        "co_settlement_idempotency_key (f r) = co_settlement_idempotency_key r"
        using keep [OF r] by (blast intro: ext)+
      have "submit_ok (f r) n c = submit_ok r n c" for n c
        by (cases c) (simp_all add: submit_ok_def eq)
      with ok r show ?thesis by (simp add: session_ok_def)
    next
      case False
      with ok have "submits s = []" by (simp add: session_ok_def)
      then show ?thesis by simp
    qed
    ultimately show ?thesis using ok keep [OF r] r by (simp add: session_ok_def)
  qed
  ultimately show ?thesis by simp
next
  case False
  then have "fst (update_row p f s) = s" by (auto simp: update_row_def split: option.splits)
  with ok show ?thesis by simp
qed

lemma validPrepare_terms:
  assumes "validPrepare input" shows "terms_ok (new_checkout input d)"
  using assms by (auto simp: validPrepare_def terms_ok_def new_checkout_def elim!: safe_geE)

lemma keep_open:
  assumes "session_ok s" "validPrepare input" "ss_row s = None"
  shows "session_ok (open_checkout env input s)"
proof -
  let ?r = "new_checkout input (sha256Hex (canonicalJson (prepare_json input)))"
  let ?s = "s\<lparr>ss_row := Some ?r, ss_pending := Some input\<rparr>"
  have st: "co_state ?r = Preparing" by (simp add: new_checkout_def)
  moreover have "unconfirmed ?r" "unsettled ?r" "co_confirmation_token_digest ?r = None"
    by (simp_all add: unconfirmed_def unsettled_def new_checkout_def)
  ultimately have "row_ok ?r"
    using validPrepare_terms [OF assms(2)] by (simp add: row_ok_def)
  moreover note st
  moreover have "submits s = []" "\<not> is_confirmed s" "\<not> is_settled s"
    using assms(1,3) by (auto simp: session_ok_def is_confirmed_def is_settled_def)
  ultimately have "session_ok ?s"
    using assms
    by (simp add: session_ok_def pending_ok_def is_confirmed_def is_settled_def count_events_def log_ok_def submits_def del: upt_Suc)
  then show ?thesis
    unfolding open_checkout_def
    by (rule session_ok_appendEvent) (simp_all add: storable_prepare_json [OF assms(2)])
qed

lemma requestGuardrail_ok:
  assumes "requestGuardrail reply input = Some g"
  shows "guardrail_ok g \<and> guardrail_matches g (guardrail_expectation input)"
  using assms normalizeGuardrail_ok
  by (fastforce simp: requestGuardrail_def split: provider_reply.splits bool.splits option.splits sum.splits)

lemma keep_guardrail:
  assumes ok: "session_ok s" and pend: "ss_pending s = Some input" and g: "requestGuardrail reply input = Some receipt"
  shows "session_ok (record_guardrail env receipt (s\<lparr>ss_pending := None\<rparr>))"
proof -
  note gr = requestGuardrail_ok [OF g]
  from ok pend obtain r where r: "ss_row s = Some r" "co_state r = Preparing" "validPrepare input"
    "r = new_checkout input (sha256Hex (canonicalJson (prepare_json input)))" "row_ok r"
    by (auto simp: session_ok_def pending_ok_def)
  let ?f = "\<lambda>r. r\<lparr>co_state := Confirmation_required,
      co_guardrail_receipt_json := Some (canonicalJson (guardrail_json receipt)),
      co_guardrail_receipt_digest := Some (gr_receiptDigest receipt),
      co_confirmation_token := Some (env_token env),
      co_confirmation_token_digest := Some (sha256Hex (env_token env)),
      co_confirmation_expires_at := Some (env_later env + CONFIRMATION_TTL_MS)\<rparr>"
  have "guardrail_evidence (?f r)"
    using gr r(3,4) unfolding guardrail_evidence_def
    by (intro exI [of _ receipt])
      (auto simp: guardrail_matches_def guardrail_expectation_def new_checkout_def elim!: validPrepare_amounts)
  then have "row_ok (?f r)"
    using r(2,5) by (simp add: row_ok_def terms_ok_def unconfirmed_def unsettled_def token_offered_def)
  then have "session_ok (fst (update_row (\<lambda>r. co_state r = Preparing) ?f (s\<lparr>ss_pending := None\<rparr>)))"
    using r by (intro session_ok_update_row session_ok_evict ok)
      (auto simp: row_ok_def)
  then show ?thesis unfolding record_guardrail_def by (rule session_ok_appendEvent) simp_all
qed

text \<open>Failing before any confirmation.\<close>

lemma keep_failure:
  assumes ok: "session_ok s" and pend: "ss_pending s = None"
    and row: "\<And>r. ss_row s = Some r \<Longrightarrow> co_state r \<in> {Preparing, Confirmation_required}"
    and f: "f \<in> {(\<lambda>r. r\<lparr>co_state := Failed, co_failure_code := Some code\<rparr>),
      (\<lambda>r. r\<lparr>co_state := Failed, co_confirmation_token := None, co_failure_code := Some code\<rparr>)}"
  shows "session_ok (fst (update_row (\<lambda>_. True) f s))"
proof (rule session_ok_update_row [OF ok _ disjI1 [OF pend]])
  fix r
  assume r: "ss_row s = Some r"
  have "row_ok r" using ok r by (simp add: session_ok_def)
  with row [OF r] have "row_ok (f r)"
    using f by (auto simp: row_ok_def terms_ok_def unconfirmed_def unsettled_def)
  with row [OF r] f show "row_ok (f r)
      \<and> (co_state (f r) \<in> {Confirming, Reconciliation_required, Settled} \<longleftrightarrow> co_state r \<in> {Confirming, Reconciliation_required, Settled})
      \<and> (co_state (f r) = Settled \<longleftrightarrow> co_state r = Settled)
      \<and> (co_state r \<in> {Confirming, Reconciliation_required, Settled} \<longrightarrow>
            (\<forall>digest key. settlementRequest (f r) digest key = settlementRequest r digest key)
            \<and> co_human_confirmation_digest (f r) = co_human_confirmation_digest r
            \<and> co_settlement_idempotency_key (f r) = co_settlement_idempotency_key r)"
    by auto
qed

lemma keep_prepareFailure:
  assumes ok: "session_ok s" and pend: "ss_pending s = None"
    and row: "\<And>r. ss_row s = Some r \<Longrightarrow> co_state r \<in> {Preparing, Confirmation_required}"
  shows "session_ok (snd (prepareFailure now code s))"
proof -
  have "session_ok (fst (update_row (\<lambda>_. True) (\<lambda>r. r\<lparr>co_state := Failed, co_failure_code := Some code\<rparr>) s))"
    by (rule keep_failure [OF ok pend row]) auto
  then show ?thesis unfolding prepareFailure_def snd_conv by (rule session_ok_appendEvent) simp_all
qed

lemma record_guardrail_row:
  "ss_row (record_guardrail env g s) = Some r \<Longrightarrow> (\<forall>r. ss_row s = Some r \<longrightarrow> co_state r = Preparing) \<Longrightarrow>
     co_state r = Confirmation_required"
  by (auto simp: record_guardrail_def)

lemma record_guardrail_pending [simp]: "ss_pending (record_guardrail env g s) = ss_pending s"
  by (simp add: record_guardrail_def)

lemma pending_row: "session_ok s \<Longrightarrow> ss_pending s = Some input \<Longrightarrow> ss_row s = Some r \<Longrightarrow> co_state r = Preparing"
  by (auto simp: session_ok_def pending_ok_def)

text \<open>The confirmation: the only step that consumes the token, and the only one before a settlement call.\<close>

lemma acceptD:
  assumes "confirm_decide env input s = Accept digest bs bd rate"
  obtains r where "ss_row s = Some r" "co_state r = Confirmation_required" "validConfirm input"
    "co_checkout_id r = ci_checkoutId input" "co_offer_id r = ci_offerId input"
    "Integer (co_amount_minor r) = ci_amountMinor input" "co_currency r = ci_currency input"
    "digest = digestHumanConfirmation input (sha256Hex (ci_confirmationToken input))"
    "constantTimeTextMatch (sha256Hex (ci_confirmationToken input)) (text_or_empty (co_confirmation_token_digest r))"
    "bs = unacknowledgedBlockingEvents s" "bd = digestCheckoutBlockers bs" "ci_blockerDigest input = bd"
    "last_inactive bs = None" "readRateBasisPoints (env_take_rate env) = Some rate"
  using assms
  by (auto simp: confirm_decide_def confirm_offer_def Let_def split: option.splits if_splits)

lemma expireD:
  assumes "confirm_decide env input s = Expire"
  obtains r t where "ss_row s = Some r" "co_state r = Confirmation_required"
    "validConfirm input" "co_confirmation_expires_at r = None \<or> co_confirmation_expires_at r = Some t \<and> (t = 0 \<or> t < env_now env)"
  using assms
  by (auto simp: confirm_decide_def confirm_offer_def Let_def split: option.splits if_splits)

lemma digestHumanConfirmation_pattern [simp]: "sha256_pattern (digestHumanConfirmation input d)"
  by (simp add: digestHumanConfirmation_def)

lemma storable_human_confirmed:
  assumes "validConfirm input" shows "storable (human_confirmed_json input digest bs bd rate)"
  using assms by (elim validConfirm_amount) (auto simp: human_confirmed_json_def)

lemma record_confirmation_eq:
  assumes "ss_row s = Some r" "co_state r = Confirmation_required"
  shows "fst (record_confirmation env input digest bs bd rate s) =
    appendEvent (env_now env) ''human_confirmed'' (human_confirmed_json input digest bs bd rate)
      (append_each (env_now env) ''offer_change_acknowledged'' (\<lambda>b. acknowledgement_json b bd) bs
        (s\<lparr>ss_row := Some (confirm_row digest (idempotency_key input) rate r)\<rparr>))"
  using assms by (simp add: record_confirmation_def update_row_def append_each_def)

lemma keep_confirm:
  assumes ok: "session_ok s" and acc: "confirm_decide env input s = Accept digest bs bd rate"
    and s': "s' = fst (record_confirmation env input digest bs bd rate s)"
  shows "session_ok s' \<and> submits s' = [] \<and> is_confirmed s' \<and> ss_pending s' = None
    \<and> (int (length (ss_events s')) \<le> max_safe \<longrightarrow> unacknowledgedBlockingEvents s' = [])"
proof -
  from acc obtain r where r: "ss_row s = Some r" "co_state r = Confirmation_required" "validConfirm input"
    "co_checkout_id r = ci_checkoutId input" "digest = digestHumanConfirmation input (sha256Hex (ci_confirmationToken input))"
    "bs = unacknowledgedBlockingEvents s" "readRateBasisPoints (env_take_rate env) = Some rate"
    by (rule acceptD)
  let ?r = "confirm_row digest (idempotency_key input) rate r"
  let ?s = "s\<lparr>ss_row := Some ?r\<rparr>"
  let ?a = "append_each (env_now env) ''offer_change_acknowledged'' (\<lambda>b. acknowledgement_json b bd) bs ?s"
  note s'_eq = s' [unfolded record_confirmation_eq [OF r(1,2)]]
  have rowr: "row_ok r" and log: "log_ok s" using ok r by (simp_all add: session_ok_def)
  have "row_ok ?r"
    using rowr r readRate_range [OF r(7)]
    by (simp add: row_ok_def) (auto simp: confirm_row_def terms_ok_def confirmed_def unsettled_def guardrail_evidence_def idempotency_key_def)
  moreover have "co_state ?r = Confirming" by (simp add: confirm_row_def)
  moreover have none: "submits s = []" "\<not> is_confirmed s" "\<not> is_settled s"
    using ok r by (auto simp: session_ok_def is_confirmed_def is_settled_def)
  moreover have pend: "ss_pending s = None"
    using ok r pending_row by fastforce
  moreover have sth: "storable (human_confirmed_json input digest bs bd rate)"
    by (rule storable_human_confirmed [OF r(3)])
  moreover have sta: "storable (acknowledgement_json b bd)" for b by (simp add: acknowledgement_json_def)
  moreover have "log_ok s'" unfolding s'_eq by (intro appendEvent_log append_each_log sth sta) (simp add: log)
  ultimately have ok': "session_ok s'"
    using ok by (simp add: session_ok_def s'_eq pending_ok_def is_confirmed_def is_settled_def)
  have "unacknowledgedBlockingEvents s' = []" if "int (length (ss_events s')) \<le> max_safe"
  proof -
    have "int (length (ss_events ?s)) \<le> max_safe" using that by (simp add: s'_eq)
    moreover have "bs = unacknowledgedBlockingEvents ?s"
      using r(6) by (simp add: unacknowledgedBlockingEvents_def events_def events_of_def)
    ultimately show ?thesis using acknowledged_all [OF _ _ _ s'_eq sth] log by simp
  qed
  moreover have "is_confirmed s'" by (simp add: s'_eq is_confirmed_def confirm_row_def)
  ultimately show ?thesis using ok' none pend by (simp add: s'_eq)
qed

lemma keep_submit:
  assumes ok: "session_ok s" and acc: "confirm_decide env input s = Accept digest bs bd rate"
    and s': "s' = fst (record_confirmation env input digest bs bd rate s)" and row: "ss_row s' = Some row"
  shows "session_ok (log_call (Submit_call (settlementRequest row digest (idempotency_key input))
      (unacknowledgedBlockingEvents s')) s')"
proof -
  note k = keep_confirm [OF ok acc s']
  from acc obtain r where r: "ss_row s = Some r" "co_state r = Confirmation_required" by (rule acceptD)
  have "row = confirm_row digest (idempotency_key input) rate r"
    using row r by (simp add: s' record_confirmation_row)
  then have "co_human_confirmation_digest row = Some digest" "co_settlement_idempotency_key row = Some (idempotency_key input)"
    by (simp_all add: confirm_row_def)
  then have "submit_ok row (length (ss_events s')) (Submit_call (settlementRequest row digest (idempotency_key input))
      (unacknowledgedBlockingEvents s'))"
    using k by (simp add: submit_ok_def text_or_empty_def)
  with k row show ?thesis by (simp add: session_ok_def pending_ok_def is_submit_def)
qed

lemma keep_expired:
  assumes ok: "session_ok s" and ex: "confirm_decide env input s = Expire"
  shows "session_ok (close_failed now code s)"
proof -
  from ex obtain r where r: "ss_row s = Some r" "co_state r = Confirmation_required" by (rule expireD) blast
  have "ss_pending s = None" using ok r pending_row by fastforce
  then have "session_ok (fst (update_row (\<lambda>_. True)
      (\<lambda>r. r\<lparr>co_state := Failed, co_confirmation_token := None, co_failure_code := Some code\<rparr>) s))"
    by (rule keep_failure [OF ok]) (use r in auto)
  then show ?thesis unfolding close_failed_def by (rule session_ok_appendEvent) simp_all
qed

lemma pending_confirmed: "session_ok s \<Longrightarrow> is_confirmed s \<Longrightarrow> ss_pending s = None"
  using pending_row by (fastforce simp: is_confirmed_def split: option.splits)

lemma to_reconciliation:
  assumes "row_ok r" "co_state r \<in> {Confirming, Reconciliation_required}"
  shows "row_ok (r\<lparr>co_state := Reconciliation_required, co_failure_code := c\<rparr>)"
  using assms by (auto simp: row_ok_def terms_ok_def confirmed_def unsettled_def guardrail_evidence_def)

lemma keep_reconciliation_row:
  assumes ok: "session_ok s"
    and f: "f = (\<lambda>r. r\<lparr>co_state := Reconciliation_required, co_failure_code := c r\<rparr>)"
  shows "session_ok (fst (update_row (\<lambda>r. co_state r \<in> {Confirming, Reconciliation_required}) f s))"
proof (rule session_ok_update_row [OF ok])
  fix r
  assume r: "ss_row s = Some r" "co_state r \<in> {Confirming, Reconciliation_required}"
  have "row_ok (f r)" using to_reconciliation r ok by (simp add: f session_ok_def)
  with r show "row_ok (f r)
        \<and> (co_state (f r) \<in> {Confirming, Reconciliation_required, Settled} \<longleftrightarrow> co_state r \<in> {Confirming, Reconciliation_required, Settled})
        \<and> (co_state (f r) = Settled \<longleftrightarrow> co_state r = Settled)
        \<and> (co_state r \<in> {Confirming, Reconciliation_required, Settled} \<longrightarrow>
              (\<forall>digest key. settlementRequest (f r) digest key = settlementRequest r digest key)
              \<and> co_human_confirmation_digest (f r) = co_human_confirmation_digest r
              \<and> co_settlement_idempotency_key (f r) = co_settlement_idempotency_key r)"
    by (auto simp: f settlementRequest_def)
next
  show "ss_pending s = None \<or> (\<forall>r. ss_row s = Some r \<longrightarrow> co_state r \<in> {Confirming, Reconciliation_required} \<longrightarrow> f r = r)"
    using pending_row [OF ok] by fastforce
qed

lemma keep_mark:
  assumes ok: "session_ok s" shows "session_ok (mark_reconciliation now row digest key s)"
proof -
  have "(\<lambda>r. r\<lparr>co_state := Reconciliation_required\<rparr>) = (\<lambda>r. r\<lparr>co_state := Reconciliation_required, co_failure_code := co_failure_code r\<rparr>)"
    by (rule ext) simp
  from keep_reconciliation_row [OF ok this] show ?thesis
    by (simp add: mark_reconciliation_def split_beta session_ok_appendEvent)
qed

lemma keep_require:
  assumes ok: "session_ok s" shows "session_ok (snd (requireReconciliation now code s))"
  using keep_reconciliation_row [OF ok refl, of "\<lambda>_. Some code"]
  by (simp add: requireReconciliation_def split_beta session_ok_appendEvent)

lemma keep_settle:
  assumes ok: "session_ok s" and row: "ss_row s = Some row"
    and acc: "normalizeSettlementReceipt payload (row_expectation row) = Inr receipt"
    and rate: "co_applied_rate_basis_points row = Some rate"
    and out: "createSettlementMarkupOutbox (Integer rate) (co_agent_id row) receipt now default_compute = Inr outbox"
  shows "session_ok (fst (record_settlement now payload receipt outbox s))"
proof (cases "co_state row \<in> {Confirming, Reconciliation_required}")
  case False
  with row ok show ?thesis by (simp add: record_settlement_def update_row_def)
next
  case True
  let ?r = "settle_row payload receipt outbox row"
  have rowr: "row_ok row" using ok row by (simp add: session_ok_def)
  have exp: "row_expectation ?r = row_expectation row" by (simp add: row_expectation_def settle_row_def)
  have "settlement_evidence ?r"
    unfolding settlement_evidence_def exp using acc rate out
    by (intro exI [of _ payload] exI [of _ receipt] exI [of _ rate] exI [of _ now] exI [of _ outbox]) (simp add: settle_row_def)
  then have "row_ok ?r"
    using rowr True by (auto simp: row_ok_def terms_ok_def confirmed_def guardrail_evidence_def settle_row_def)
  moreover have st: "co_state ?r = Settled" by (simp add: settle_row_def)
  moreover have "is_confirmed s" "\<not> is_settled s" using row True by (auto simp: is_confirmed_def is_settled_def)
  moreover have "ss_pending s = None" using pending_confirmed ok \<open>is_confirmed s\<close> by blast
  moreover have "submit_ok ?r n c = submit_ok row n c" for n c
    by (cases c) (simp_all add: submit_ok_def settlementRequest_def settle_row_def)
  moreover have "fst (record_settlement now payload receipt outbox s) =
      appendEvent now ''settlement_recorded'' (settlement_json receipt) (s\<lparr>ss_row := Some ?r\<rparr>)"
    using row True by (simp add: record_settlement_def update_row_def)
  ultimately show ?thesis
    using ok row
    by (auto simp: session_ok_def pending_ok_def is_confirmed_def is_settled_def appendEvent_log intro: submit_ok_Suc)
qed

text \<open>What a finalization writes can be stored.\<close>

lemma outbox_line_markup:
  assumes "Option.bind (readSettlementMarkupOutbox x) outbox_retry_line = Some line"
  shows "\<exists>i. markupMinor line = Integer i"
proof -
  from assms obtain b where b: "readSettlementMarkupOutbox x = Some b" "outbox_retry_line b = Some line"
    by (auto simp: bind_eq_Some_conv)
  show ?thesis
  proof (cases b)
    case (Outbox_ready l)
    with b obtain j where "l = line_of_json j" "validOutboxLine j"
      by (auto simp: readSettlementMarkupOutbox_def bind_eq_Some_conv read_outbox_def
          split: option.splits if_splits json.splits)
    then show ?thesis using b Outbox_ready
      by (auto simp: outbox_retry_line_def line_of_json_def validOutboxLine_def num_of_def elim!: is_numE safe_geE)
  next
    case (Outbox_deferred i sid)
    with b have "computeRevenueLine default_compute i = Some line" by (simp add: outbox_retry_line_def)
    from compute_attempts_sound [OF this [unfolded computeRevenueLine_def]] show ?thesis
      by (auto simp: line_of_input_def)
  qed
qed

lemma evidence_markup: "markup_evidence row (Recorded m idem n) t \<Longrightarrow> \<exists>i. m = Integer i"
  using outbox_line_markup by (auto simp: markup_evidence_def split: option.splits)

lemma storable_finalization:
  assumes "markup_evidence row markup t"
  shows "storable (markup_event_json receipt markup n retryAt)" "storable (finalization_json markup stopped retryAt)"
proof -
  have "\<exists>i. m = Integer i" if "markup = Recorded m idem k" for m idem k
    using that assms evidence_markup by blast
  then show "storable (markup_event_json receipt markup n retryAt)" "storable (finalization_json markup stopped retryAt)"
    by (cases markup; force simp: markup_event_json_def finalization_json_def outcome_fields_def optional_int_def
        split: option.splits)+
qed

lemma keep_finalize:
  assumes ok: "session_ok s" and row: "ss_row s = Some row" and ev: "markup_evidence row markup (ss_ledger s)"
  shows "session_ok (record_finalization now receipt markup stopped n retryAt s)"
proof -
  let ?s = "if is_deferred markup \<or> events_of ''markup_recorded'' s = []
      then appendEvent now (if is_deferred markup then ''markup_deferred'' else ''markup_recorded'')
             (markup_event_json receipt markup n retryAt) s else s"
  have "session_ok ?s"
    using ok storable_finalization [OF ev] by (auto intro!: session_ok_appendEvent)
  moreover have "ss_row ?s = Some row" "ss_pending ?s = ss_pending s" using row by auto
  moreover have "row_ok row" using ok row by (simp add: session_ok_def)
  moreover have "ss_pending s = None" if "co_state row = Settled"
    using pending_confirmed ok that row by (simp add: is_confirmed_def)
  ultimately show ?thesis
    unfolding record_finalization_def
    by (intro session_ok_update_row)
      (auto simp: row_ok_def terms_ok_def confirmed_def guardrail_evidence_def settlement_evidence_def row_expectation_def
        settlementRequest_def)
qed

lemma keep_stopped: "session_ok s \<Longrightarrow> session_ok (recordObservationStopped now reason s)"
  by (auto simp: recordObservationStopped_def intro!: session_ok_appendEvent)

lemma keep_failures:
  assumes ok: "session_ok s" and row: "ss_row s = Some row" "watched row"
  shows "session_ok (setObservationFailures n s)"
  unfolding setObservationFailures_def
proof (rule session_ok_update_row [OF ok])
  have "row_ok row" using ok row by (simp add: session_ok_def)
  then have "row_ok (row\<lparr>co_observation_failure_count := n\<rparr>)"
    by (auto simp: row_ok_def terms_ok_def confirmed_def unconfirmed_def unsettled_def guardrail_evidence_def
        settlement_evidence_def row_expectation_def token_offered_def split: checkout_status.splits)
  with row show "row_ok (r\<lparr>co_observation_failure_count := n\<rparr>)
        \<and> (co_state (r\<lparr>co_observation_failure_count := n\<rparr>) \<in> {Confirming, Reconciliation_required, Settled} \<longleftrightarrow> co_state r \<in> {Confirming, Reconciliation_required, Settled})
        \<and> (co_state (r\<lparr>co_observation_failure_count := n\<rparr>) = Settled \<longleftrightarrow> co_state r = Settled)
        \<and> (co_state r \<in> {Confirming, Reconciliation_required, Settled} \<longrightarrow>
              (\<forall>digest key. settlementRequest (r\<lparr>co_observation_failure_count := n\<rparr>) digest key = settlementRequest r digest key)
              \<and> co_human_confirmation_digest (r\<lparr>co_observation_failure_count := n\<rparr>) = co_human_confirmation_digest r
              \<and> co_settlement_idempotency_key (r\<lparr>co_observation_failure_count := n\<rparr>) = co_settlement_idempotency_key r)"
    if "ss_row s = Some r" for r
    using that by (simp add: settlementRequest_def)
  show "ss_pending s = None \<or> (\<forall>r. ss_row s = Some r \<longrightarrow> True \<longrightarrow> r\<lparr>co_observation_failure_count := n\<rparr> = r)"
  proof (cases "ss_pending s")
    case (Some input)
    with pending_row [OF ok Some row(1)] row(2) have False by (simp add: watched_def)
    then show ?thesis ..
  qed (rule disjI1)
qed

lemma keep_observe:
  assumes ok: "session_ok s" and row: "ss_row s = Some row" "watched row"
    and o: "outcome = observeHeldOffer reply registry (stamp now) (held_of row s)"
  shows "session_ok (snd (recordObservation now outcome s))"
proof (cases outcome)
  case (Changed evs ob)
  have "storable (change_event_json e)" if "e \<in> set evs" for e
    using observe_Changed [of reply registry "stamp now" "held_of row s" evs ob] Changed o that storable_change_event
    by fastforce
  then have "session_ok (append_each now ''offer_changed'' change_event_json evs s)"
    by (intro session_ok_append_each ok) auto
  then show ?thesis
    using Changed row by (simp add: recordObservation_def keep_failures flip: append_each_def)
qed (use ok row in \<open>auto simp: recordObservation_def intro!: session_ok_appendEvent keep_failures [where row = row]\<close>)

theorem session_tx_ok: "session_tx s s' \<Longrightarrow> session_ok s \<Longrightarrow> session_ok s'"
proof (induction rule: session_tx.induct)
  case (tx_guardrail_failed s input reply receipt now code env)
  note g = keep_guardrail [OF tx_guardrail_failed(3,1,2)]
  show ?case
  proof (rule keep_prepareFailure [OF g])
    fix r
    assume "ss_row (record_guardrail env receipt (s\<lparr>ss_pending := None\<rparr>)) = Some r"
    then show "co_state r \<in> {Preparing, Confirmation_required}"
      using record_guardrail_row pending_row [OF tx_guardrail_failed(3,1)] by fastforce
  qed simp
next
  case (tx_prepare_failed s input now code)
  then show ?case by (intro keep_prepareFailure session_ok_evict) (auto dest: pending_row)
next
  case (tx_call c s)
  then show ?case by (intro session_ok_call) (auto simp: is_submit_def split: provider_call.splits)
next
  case (tx_confirm env input s digest bs bd rate)
  then show ?case using keep_confirm by blast
next
  case (tx_submit env input s digest bs bd rate s' row)
  then show ?case using keep_submit by blast
next
  case (tx_settle s row payload receipt rate now outbox)
  then show ?case using keep_settle by blast
next
  case (tx_finalize s row markup now receipt stopped n retryAt)
  then show ?case using keep_finalize by blast
next
  case (tx_observe s row outcome reply registry now)
  then show ?case using keep_observe by blast
next
  case (tx_guardrail s input reply receipt env)
  then show ?case using keep_guardrail by blast
next
  case (tx_expired env input s now code)
  then show ?case using keep_expired by blast
qed (simp_all add: keep_open session_ok_evict keep_mark keep_require keep_stopped)

corollary session_run_ok: "session_run s s' \<Longrightarrow> session_ok s \<Longrightarrow> session_ok s'"
  by (induction rule: rtranclp_induct) (auto intro: session_tx_ok)

end
