(* ===== verification/Checkout_Properties.thy ===== *)
theory Checkout_Properties imports Checkout_Invariants begin

text \<open>
  The properties of the checkout object: what never changes along any history, that the settlement
  is called and recorded at most once and only under an informed confirmation, that a finalized
  checkout has its revenue line, and what a run of a handler achieves.
\<close>

section \<open>History\<close>

definition same_terms :: "stored_checkout \<Rightarrow> stored_checkout \<Rightarrow> bool" where
  "same_terms r r' =
     (co_checkout_id r' = co_checkout_id r \<and> co_request_digest r' = co_request_digest r
      \<and> co_intent_id r' = co_intent_id r \<and> co_agent_id r' = co_agent_id r \<and> co_offer_id r' = co_offer_id r
      \<and> co_offer_receipt_digest r' = co_offer_receipt_digest r
      \<and> co_offer_provider_revision r' = co_offer_provider_revision r
      \<and> co_amount_minor r' = co_amount_minor r \<and> co_budget_minor r' = co_budget_minor r
      \<and> co_currency r' = co_currency r)"

definition same_confirmation :: "stored_checkout \<Rightarrow> stored_checkout \<Rightarrow> bool" where
  "same_confirmation r r' =
     (co_human_confirmation_digest r' = co_human_confirmation_digest r
      \<and> co_settlement_idempotency_key r' = co_settlement_idempotency_key r
      \<and> co_applied_rate_basis_points r' = co_applied_rate_basis_points r
      \<and> co_guardrail_receipt_json r' = co_guardrail_receipt_json r
      \<and> co_guardrail_receipt_digest r' = co_guardrail_receipt_digest r)"

definition same_settlement :: "stored_checkout \<Rightarrow> stored_checkout \<Rightarrow> bool" where
  "same_settlement r r' =
     (co_provider_result_json r' = co_provider_result_json r
      \<and> co_settlement_receipt_json r' = co_settlement_receipt_json r
      \<and> co_markup_outbox_json r' = co_markup_outbox_json r)"

text \<open>The status changes the code can make.\<close>

fun status_next :: "checkout_status \<Rightarrow> checkout_status list" where
  "status_next Preparing = [Preparing, Confirmation_required, Failed]"
| "status_next Confirmation_required = [Confirmation_required, Confirming, Failed]"
| "status_next Confirming = [Confirming, Reconciliation_required, Settled]"
| "status_next Reconciliation_required = [Reconciliation_required, Settled]"
| "status_next Settled = [Settled]"
| "status_next Failed = [Failed]"

definition confirmed_status :: "checkout_status \<Rightarrow> bool" where
  "confirmed_status st = (st \<in> {Confirming, Reconciliation_required, Settled})"

definition row_history :: "stored_checkout \<Rightarrow> stored_checkout \<Rightarrow> bool" where
  "row_history r r' =
     (same_terms r r'
      \<and> (confirmed_status (co_state r) \<longrightarrow> confirmed_status (co_state r') \<and> same_confirmation r r')
      \<and> (co_state r = Settled \<longrightarrow> co_state r' = Settled \<and> same_settlement r r')
      \<and> (co_state r = Failed \<longrightarrow> co_state r' = Failed))"

lemma row_history_refl: "row_history r r"
  by (simp add: row_history_def same_terms_def same_confirmation_def same_settlement_def)

lemma row_history_trans: "row_history a b \<Longrightarrow> row_history b c \<Longrightarrow> row_history a c"
  by (auto simp: row_history_def same_terms_def same_confirmation_def same_settlement_def)

definition session_history :: "session \<Rightarrow> session \<Rightarrow> bool" where
  "session_history s s' =
     ((\<forall>r. ss_row s = Some r \<longrightarrow> (\<exists>r'. ss_row s' = Some r' \<and> row_history r r'))
      \<and> (\<exists>new. ss_events s' = ss_events s @ new)
      \<and> (\<forall>k m. ledger_read (ss_ledger s) k = Some m \<longrightarrow> ledger_read (ss_ledger s') k = Some m))"

lemma session_history_refl: "session_history s s"
  by (auto simp: session_history_def row_history_refl)

lemma session_history_trans: "session_history a b \<Longrightarrow> session_history b c \<Longrightarrow> session_history a c"
  by (auto simp: session_history_def intro: row_history_trans) (meson row_history_trans)

lemma history_append: "session_history s s' \<Longrightarrow> session_history s (appendEvent now ty ev s')"
  by (auto simp: session_history_def appendEvent_events)

lemma history_append_each: "session_history s s' \<Longrightarrow> session_history s (append_each now ty f xs s')"
  by (induction xs arbitrary: s') (simp_all add: history_append)

lemma history_fields:
  "session_history s (s'\<lparr>ss_alarm := a\<rparr>) = session_history s s'"
  "session_history s (s'\<lparr>ss_pending := p\<rparr>) = session_history s s'"
  "session_history s (log_call c s') = session_history s s'"
  by (simp_all add: session_history_def)

lemma history_update:
  assumes "session_history s s'"
    and "\<And>r. ss_row s' = Some r \<Longrightarrow> p r \<Longrightarrow> row_history r (f r)"
  shows "session_history s (fst (update_row p f s'))"
proof -
  have "session_history s' (fst (update_row p f s'))"
    using assms(2) by (auto simp: session_history_def row_history_refl)
  with assms(1) show ?thesis by (rule session_history_trans)
qed

lemmas history_intros = history_append history_append_each history_update history_fields [THEN iffD2] session_history_refl

named_theorems row_change \<comment> \<open>what a change of the row leaves alone\<close>

lemmas [row_change] = row_history_def same_terms_def same_confirmation_def same_settlement_def confirmed_status_def

lemma session_tx_history:
  assumes "session_tx s s'" "session_ok s"
  shows "session_history s s'"
  using assms
proof (induction rule: session_tx.induct)
  case (tx_open input s env)
  then show ?case by (auto simp: open_checkout_def session_history_def appendEvent_events)
next
  case (tx_guardrail s input reply receipt env)
  then show ?case unfolding record_guardrail_def by (intro history_intros) (simp add: row_change)
next
  case (tx_prepare_failed s input now code)
  then show ?case unfolding prepareFailure_def snd_conv
    by (intro history_intros) (auto simp: row_change dest: pending_row)
next
  case (tx_guardrail_failed s input reply receipt now code env)
  have "session_history s (record_guardrail env receipt (s\<lparr>ss_pending := None\<rparr>))"
    unfolding record_guardrail_def by (intro history_intros) (simp add: row_change)
  moreover have "co_state r = Confirmation_required" if "ss_row (record_guardrail env receipt (s\<lparr>ss_pending := None\<rparr>)) = Some r" for r
    using that record_guardrail_row pending_row [OF tx_guardrail_failed(3,1)] by fastforce
  ultimately show ?case unfolding prepareFailure_def snd_conv
    by (intro history_intros) (auto simp: row_change)
next
  case (tx_confirm env input s digest bs bd rate)
  obtain r where "ss_row s = Some r" "co_state r = Confirmation_required" using tx_confirm(1) by (rule acceptD)
  then show ?case
    unfolding record_confirmation_eq [OF \<open>ss_row s = Some r\<close> \<open>co_state r = Confirmation_required\<close>]
    by (intro history_intros) (auto simp: session_history_def row_change confirm_row_def)
next
  case (tx_submit env input s digest bs bd rate s' row)
  obtain r where r: "ss_row s = Some r" "co_state r = Confirmation_required" using tx_submit(1) by (rule acceptD)
  show ?case
    unfolding tx_submit(2) record_confirmation_eq [OF r]
    by (intro history_intros) (use r in \<open>auto simp: session_history_def row_change confirm_row_def\<close>)
next
  case (tx_expired env input s now code)
  obtain r where "ss_row s = Some r" "co_state r = Confirmation_required" using tx_expired(1) by (rule expireD) blast
  then show ?case unfolding close_failed_def by (intro history_intros) (auto simp: row_change)
next
  case (tx_mark s row now digest key)
  then show ?case unfolding mark_reconciliation_def
    by (auto simp: split_beta intro!: history_intros) (auto simp: row_change)
next
  case (tx_require s now code)
  then show ?case unfolding requireReconciliation_def
    by (auto simp: split_beta Let_def intro!: history_intros) (auto simp: row_change)
next
  case (tx_settle s row payload receipt rate now outbox)
  then show ?case unfolding record_settlement_def
    by (auto simp: split_beta intro!: history_intros) (auto simp: row_change settle_row_def)
next
  case (tx_finalize s row markup now receipt stopped n retryAt)
  then show ?case unfolding record_finalization_def
    by (auto intro!: history_intros) (auto simp: row_change)
next
  case (tx_stopped s now reason)
  then show ?case by (auto simp: recordObservationStopped_def intro: history_intros)
next
  case (tx_observe s row outcome reply registry now)
  then show ?case
    by (auto simp: recordObservation_def setObservationFailures_def simp flip: append_each_def
        split: observation_outcome.splits intro!: history_intros) (auto simp: row_change)
next
  case (tx_ledger s line)
  then show ?case by (auto simp: session_history_def row_history_refl ledger.lines_stay)
qed (auto intro: history_intros)

lemma session_run_history: "session_run s s' \<Longrightarrow> session_ok s \<Longrightarrow> session_history s s'"
proof (induction rule: rtranclp_induct)
  case (step y z)
  then show ?case using session_tx_history session_run_ok session_history_trans by blast
qed (rule session_history_refl)

section \<open>A finalized checkout has its revenue line\<close>

definition finalized :: "stored_checkout \<Rightarrow> bool" where
  "finalized r = (co_markup_finalization_state r = Finalization_completed)"

definition finalized_ok :: "session \<Rightarrow> bool" where
  "finalized_ok s = (\<forall>r. ss_row s = Some r \<longrightarrow> finalized r \<longrightarrow> co_state r = Settled \<and> truthy (co_markup_finalization_json r)
     \<and> (\<exists>line. Option.bind (readSettlementMarkupOutbox (co_markup_outbox_json r)) outbox_retry_line = Some line
          \<and> ledger_read (ss_ledger s) (settlementId line) = Some line))"

text \<open>What a step does to the finalization: nothing, or it completes it with its evidence.\<close>

definition finalization_kept :: "session \<Rightarrow> session \<Rightarrow> bool" where
  "finalization_kept s s' = (\<forall>r'. ss_row s' = Some r' \<longrightarrow> finalized r' \<longrightarrow>
     (\<exists>r. ss_row s = Some r \<and> finalized r \<and> co_markup_finalization_json r' = co_markup_finalization_json r)
     \<or> truthy (co_markup_finalization_json r') \<and> co_state r' = Settled
       \<and> (\<exists>line. Option.bind (readSettlementMarkupOutbox (co_markup_outbox_json r')) outbox_retry_line = Some line
            \<and> ledger_read (ss_ledger s') (settlementId line) = Some line))"

lemma finalization_kept_refl: "finalization_kept s s"
  by (auto simp: finalization_kept_def)

lemma kept_append: "finalization_kept s s' \<Longrightarrow> finalization_kept s (appendEvent now ty ev s')"
  by (simp add: finalization_kept_def)

lemma kept_append_each: "finalization_kept s s' \<Longrightarrow> finalization_kept s (append_each now ty f xs s')"
  by (induction xs arbitrary: s') (simp_all add: kept_append)

lemma kept_fields:
  "finalization_kept s (s'\<lparr>ss_alarm := a\<rparr>) = finalization_kept s s'"
  "finalization_kept s (s'\<lparr>ss_pending := p\<rparr>) = finalization_kept s s'"
  "finalization_kept s (log_call c s') = finalization_kept s s'"
  by (simp_all add: finalization_kept_def)

text \<open>An update that leaves the finalization columns alone.\<close>

lemma kept_update:
  assumes "finalization_kept s s'"
    and "\<And>r. ss_row s' = Some r \<Longrightarrow> p r \<Longrightarrow>
      co_markup_finalization_state (f r) = Finalization_pending
      \<or> co_markup_finalization_state (f r) = co_markup_finalization_state r
        \<and> co_markup_finalization_json (f r) = co_markup_finalization_json r
        \<and> co_markup_outbox_json (f r) = co_markup_outbox_json r \<and> (co_state r = Settled \<longrightarrow> co_state (f r) = Settled)"
  shows "finalization_kept s (fst (update_row p f s'))"
  using assms
  by (cases "ss_row s'") (fastforce simp: finalization_kept_def finalized_def)+

lemmas kept_intros = kept_append kept_append_each kept_update kept_fields [THEN iffD2] finalization_kept_refl

lemma session_tx_kept:
  assumes "session_tx s s'" "session_ok s"
  shows "finalization_kept s s'"
  using assms
proof (induction rule: session_tx.induct)
  case (tx_open input s env)
  then show ?case
    by (simp add: open_checkout_def finalization_kept_def finalized_def) (simp add: new_checkout_def)
next
  case (tx_finalize s row markup now receipt stopped n retryAt)
  show ?case
  proof (cases markup)
    case (Recorded m idem k)
    with tx_finalize(4) obtain line where
      "Option.bind (readSettlementMarkupOutbox (co_markup_outbox_json row)) outbox_retry_line = Some line"
      "ledger_read (ss_ledger s) (settlementId line) = Some line"
      by (auto simp: markup_evidence_def split: option.splits)
    moreover have "canonicalJson (finalization_json markup stopped retryAt) \<noteq> []"
      by (simp add: finalization_json_def canonicalJson_nonempty)
    ultimately show ?thesis using tx_finalize(1)
      by (auto simp: record_finalization_def finalization_kept_def truthy_def)
  qed (use tx_finalize(1) in \<open>auto simp: record_finalization_def finalization_kept_def is_deferred_def finalized_def\<close>)
next
  case (tx_confirm env input s digest bs bd rate)
  obtain r where r: "ss_row s = Some r" "co_state r = Confirmation_required" using tx_confirm(1) by (rule acceptD)
  then show ?case
    unfolding record_confirmation_eq [OF r]
    by (intro kept_intros) (auto simp: finalization_kept_def finalized_def confirm_row_def)
next
  case (tx_submit env input s digest bs bd rate s' row)
  obtain r where r: "ss_row s = Some r" "co_state r = Confirmation_required" using tx_submit(1) by (rule acceptD)
  show ?case
    unfolding tx_submit(2) record_confirmation_eq [OF r]
    by (intro kept_intros) (use r in \<open>auto simp: finalization_kept_def finalized_def confirm_row_def\<close>)
next
  case (tx_ledger s line)
  then show ?case by (auto simp: finalization_kept_def)
next
  case (tx_observe s row outcome reply registry now)
  then show ?case
    by (auto simp: recordObservation_def setObservationFailures_def simp flip: append_each_def
        split: observation_outcome.splits intro!: kept_intros)
next
  case (tx_prepare_failed s input now code)
  then show ?case unfolding prepareFailure_def snd_conv
    by (intro kept_intros) (auto dest: pending_row)
next
  case (tx_guardrail_failed s input reply receipt now code env)
  have "finalization_kept s (record_guardrail env receipt (s\<lparr>ss_pending := None\<rparr>))"
    unfolding record_guardrail_def by (intro kept_intros) simp
  moreover have "co_state r = Confirmation_required" if "ss_row (record_guardrail env receipt (s\<lparr>ss_pending := None\<rparr>)) = Some r" for r
    using that record_guardrail_row pending_row [OF tx_guardrail_failed(3,1)] by fastforce
  ultimately show ?case unfolding prepareFailure_def snd_conv by (intro kept_intros) auto
next
  case (tx_expired env input s now code)
  obtain r where "ss_row s = Some r" "co_state r = Confirmation_required" using tx_expired(1) by (rule expireD) blast
  then show ?case unfolding close_failed_def by (intro kept_intros) auto
qed (auto simp: record_guardrail_def prepareFailure_def close_failed_def mark_reconciliation_def
    requireReconciliation_def record_settlement_def settle_row_def recordObservationStopped_def split_beta Let_def
    intro!: kept_intros)

lemma session_tx_finalized:
  assumes "session_tx s s'" "session_ok s" "finalized_ok s"
  shows "finalized_ok s'"
proof -
  note kept = session_tx_kept [OF assms(1,2)] and hist = session_tx_history [OF assms(1,2)]
  show ?thesis
    unfolding finalized_ok_def
  proof (intro allI impI)
    fix r'
    assume r': "ss_row s' = Some r'" "finalized r'"
    show "co_state r' = Settled \<and> truthy (co_markup_finalization_json r')
     \<and> (\<exists>line. Option.bind (readSettlementMarkupOutbox (co_markup_outbox_json r')) outbox_retry_line = Some line
          \<and> ledger_read (ss_ledger s') (settlementId line) = Some line)"
    proof (cases "\<exists>r. ss_row s = Some r \<and> finalized r \<and> co_markup_finalization_json r' = co_markup_finalization_json r")
      case True
      then obtain r where r: "ss_row s = Some r" "finalized r" "co_markup_finalization_json r' = co_markup_finalization_json r"
        by blast
      with assms(3) have "co_state r = Settled" "truthy (co_markup_finalization_json r')"
        "\<exists>line. Option.bind (readSettlementMarkupOutbox (co_markup_outbox_json r)) outbox_retry_line = Some line
          \<and> ledger_read (ss_ledger s) (settlementId line) = Some line"
        by (auto simp: finalized_ok_def)
      moreover have "row_history r r'" using hist r(1) r'(1) by (auto simp: session_history_def)
      ultimately show ?thesis using hist
        by (auto simp: row_history_def same_settlement_def session_history_def)
    next
      case False
      with kept r' show ?thesis unfolding finalization_kept_def by blast
    qed
  qed
qed

lemma session_run_finalized: "session_run s s' \<Longrightarrow> session_ok s \<Longrightarrow> finalized_ok s \<Longrightarrow> finalized_ok s'"
proof (induction rule: rtranclp_induct)
  case (step y z)
  then show ?case using session_tx_finalized session_run_ok by blast
qed simp

text \<open>The line of a settled row's outbox is the due one.\<close>

lemma settled_line:
  assumes "row_ok r" "co_state r = Settled"
    and "Option.bind (readSettlementMarkupOutbox (co_markup_outbox_json r)) outbox_retry_line = Some line"
  shows "\<exists>receipt rate now at. restoreSettlementReceipt (co_settlement_receipt_json r) (row_expectation r) = Some receipt
    \<and> co_applied_rate_basis_points r = Some rate \<and> 1 \<le> rate \<and> rate \<le> 1000 \<and> toISOString now = Some at
    \<and> settlement_ok receipt \<and> sr_amountMinor receipt = co_amount_minor r \<and> line = due_line rate (co_agent_id r) receipt now at"
proof -
  from assms obtain payload receipt rate now outbox where ev:
    "normalizeSettlementReceipt payload (row_expectation r) = Inr receipt"
    "co_settlement_receipt_json r = Some (canonicalJson (settlement_json receipt))"
    "co_applied_rate_basis_points r = Some rate" "1 \<le> rate" "rate \<le> 1000"
    "createSettlementMarkupOutbox (Integer rate) (co_agent_id r) receipt now default_compute = Inr outbox"
    "co_markup_outbox_json r = Some (canonicalJson (outbox_json outbox))" "id_pattern 127 (co_agent_id r)"
    by (auto simp: row_ok_def settlement_evidence_def confirmed_def terms_ok_def)
  note ok = normalizeSettlement_ok [OF ev(1)]
  from ev(6) obtain at where at: "toISOString now = Some at"
    by (auto simp: createSettlementMarkupOutbox_def split: option.splits if_splits)
  have out: "outbox = Outbox_ready (due_line rate (co_agent_id r) receipt now at)"
    using create_outbox_default [OF _ ev(4,5) at, of receipt "co_agent_id r"] ok ev(6) by simp
  have "readSettlementMarkupOutbox (co_markup_outbox_json r) = Some outbox"
    unfolding ev(7) by (rule read_stored_outbox) (rule create_outbox_ok [OF _ ev(8) ev(4,5) at ev(6)], use ok in simp)
  with assms(3) out have "line = due_line rate (co_agent_id r) receipt now at" by (simp add: outbox_retry_line_def)
  moreover have "restoreSettlementReceipt (co_settlement_receipt_json r) (row_expectation r) = Some receipt"
    unfolding ev(2) using ok by (simp add: restore_accepted)
  moreover have "sr_amountMinor receipt = co_amount_minor r"
    using ok by (simp add: settlement_matches_def row_expectation_def)
  ultimately show ?thesis using ev at ok by blast
qed

section \<open>What a confirmation run does\<close>

lemma requireReconciliation_row:
  "ss_row (snd (requireReconciliation now code s)) =
     map_option (\<lambda>r. if co_state r \<in> {Confirming, Reconciliation_required}
        then r\<lparr>co_state := Reconciliation_required, co_failure_code := Some code\<rparr> else r) (ss_row s)"
  by (simp add: requireReconciliation_def split_beta Let_def)

text \<open>Every answer of a resumed finalization is the settled result with the stored payload.\<close>

lemma resume_result:
  "\<exists>m. fst (resumeSettledFinalization env row idem s) =
     Settled_result idem (case co_provider_result_json row of Some t \<Rightarrow> parse_column t | None \<Rightarrow> JNull) (Some m)"
  by (auto simp: resumeSettledFinalization_def Let_def settledResult_def split_beta)

lemma canonicalJson_payload:
  assumes "normalizeSettlementReceipt payload e = Inr receipt"
  shows "truthy (Some (canonicalJson payload)) \<and> parse_column (canonicalJson payload) = canonicalValue payload"
proof -
  from assms obtain kvs where "payload = JObj kvs"
    by (cases payload) (auto simp: normalizeSettlementReceipt_def)
  then show ?thesis
    using settlement_payload_storable [OF assms] canonicalJson_nonempty
    by (simp add: truthy_def parse_column_canonicalJson)
qed

lemma consume_accepted:
  assumes ok: "session_ok s" and row: "ss_row s = Some row" and st: "co_state row \<in> {Confirming, Reconciliation_required}"
    and acc: "normalizeSettlementReceipt payload (row_expectation row) = Inr receipt"
    and at: "toISOString (env_later env) = Some at"
  shows "\<exists>m r'. fst (consumeSettlement env (Inr (payload, receipt)) idem s) = Inr (Settled_result idem (canonicalValue payload) (Some m))
    \<and> ss_row (snd (consumeSettlement env (Inr (payload, receipt)) idem s)) = Some r' \<and> co_state r' = Settled
    \<and> co_settlement_receipt_json r' = Some (canonicalJson (settlement_json receipt)) \<and> row_history row r'"
proof -
  have "row_ok row" using ok row by (simp add: session_ok_def)
  then obtain rate where rate: "co_applied_rate_basis_points row = Some rate" "1 \<le> rate" "rate \<le> 1000"
    using st by (auto simp: row_ok_def confirmed_def)
  have rok: "settlement_ok receipt" using normalizeSettlement_ok [OF acc] by simp
  let ?out = "Outbox_ready (due_line rate (co_agent_id row) receipt (env_later env) at)"
  have out: "createSettlementMarkupOutbox (Integer rate) (co_agent_id row) receipt (env_later env) default_compute = Inr ?out"
    by (rule create_outbox_default [OF rok rate(2,3) at])
  let ?s' = "fst (record_settlement (env_later env) payload receipt ?out s)"
  have rec: "snd (record_settlement (env_later env) payload receipt ?out s)"
    using row st by (simp add: record_settlement_def split_beta update_row_written)
  have tx: "session_tx s ?s'" by (rule tx_settle [OF row acc rate(1) out])
  then have ok': "session_ok ?s'" using ok by (rule session_tx_ok)
  have row': "ss_row ?s' = Some (settle_row payload receipt ?out row)"
    using row st by (simp add: record_settlement_row)
  have tr: "truthy (co_provider_result_json (settle_row payload receipt ?out row))"
    using canonicalJson_payload [OF acc] by (simp add: settle_row_def)
  have eq: "consumeSettlement env (Inr (payload, receipt)) idem s =
      map_prod Inr id (resumeSettledFinalization env (settle_row payload receipt ?out row) idem ?s')"
    using row rate out rec row' tr
    by (simp add: consumeSettlement_def split_beta readRate_optional [THEN iffD2])
  have run: "session_run ?s' (snd (resumeSettledFinalization env (settle_row payload receipt ?out row) idem ?s'))"
    by (rule resume_steps [OF row' tr])
  from session_run_history [OF run ok'] row' obtain r' where
    r': "ss_row (snd (resumeSettledFinalization env (settle_row payload receipt ?out row) idem ?s')) = Some r'"
      "row_history (settle_row payload receipt ?out row) r'" by (auto simp: session_history_def)
  have "row_history row (settle_row payload receipt ?out row)"
    using st by (auto simp: row_change settle_row_def)
  then have "row_history row r'" using r'(2) by (rule row_history_trans)
  moreover have "co_state r' = Settled" "co_settlement_receipt_json r' = Some (canonicalJson (settlement_json receipt))"
    using r'(2) by (auto simp: row_history_def same_settlement_def settle_row_def)
  moreover obtain m where "fst (resumeSettledFinalization env (settle_row payload receipt ?out row) idem ?s') =
      Settled_result idem (canonicalValue payload) (Some m)"
    using resume_result [of env "settle_row payload receipt ?out row" idem ?s'] canonicalJson_payload [OF acc]
    by (auto simp: settle_row_def)
  ultimately show ?thesis using r'(1) unfolding eq by auto
qed

lemma confirm_row_expectation:
  "row_expectation (confirm_row digest key rate r) = settlement_expectation r digest key"
  by (simp add: row_expectation_def settlement_expectation_def confirm_row_def text_or_empty_def)

lemma confirm_accepts:
  assumes "confirm_decide env input s = Accept digest bs bd rate" "env_alarm_ok env" "ss_row s = Some r"
  shows "\<exists>s2. ss_row s2 = Some (confirm_row digest (idempotency_key input) rate r) \<and> session_run s s2
    \<and> co_state r = Confirmation_required
    \<and> confirm env input s = consumeSettlement env
        (submitSettlement (env_reply env) (confirm_row digest (idempotency_key input) rate r) digest (idempotency_key input)) False s2"
proof -
  have r: "co_state r = Confirmation_required" using assms by (auto elim: acceptD)
  let ?s0 = "snd (armRecoveryAlarm env s)"
  let ?s1 = "fst (record_confirmation env input digest bs bd rate ?s0)"
  let ?row = "confirm_row digest (idempotency_key input) rate r"
  let ?s2 = "log_call (Submit_call (settlementRequest ?row digest (idempotency_key input)) (unacknowledgedBlockingEvents ?s1)) ?s1"
  have acc: "confirm_decide env input ?s0 = Accept digest bs bd rate" using assms(1) by (simp add: armed_fields)
  have row: "ss_row ?s1 = Some ?row"
    using r assms(3) by (simp add: record_confirmation_row armed_fields)
  have "snd (record_confirmation env input digest bs bd rate ?s0)" "fst (armRecoveryAlarm env s)"
    using r assms(2,3) by (simp_all add: record_confirmation_def split_beta update_row_written armRecoveryAlarm_def)
  then have "confirm env input s = submit_confirmed env ?row digest (idempotency_key input) ?s1"
    using assms(1) row by (simp add: confirm_def split_beta) (simp add: confirm_row_def)
  then have "confirm env input s = consumeSettlement env (submitSettlement (env_reply env) ?row digest (idempotency_key input)) False ?s2"
    by (simp add: submit_confirmed_def)
  moreover have "session_run s ?s2"
    using armed_steps run_step [OF tx_submit [OF acc refl row]] by (rule run_trans)
  moreover have "ss_row ?s2 = Some ?row" using row by simp
  ultimately show ?thesis using r by blast
qed

lemma reply_Inr:
  assumes "normalizeSettlementReceipt payload (settlement_expectation row digest key) = Inr receipt"
  shows "settlement_reply threw (Reply True True (Some payload)) row digest key = Inr (payload, receipt)"
  using assms by (simp add: settlement_reply_def consumeSettlementResponse_def)

lemma text_nonempty [simp]: "canonicalJson (guardrail_json g) \<noteq> []" "sha256Hex x \<noteq> []" "digestGuardrailReceipt g \<noteq> []"
  using sha256_length [OF sha256Hex_pattern [of x]] sha256_length [OF digest_patterns(2) [of g]]
  by (auto simp: guardrail_json_def canonicalJson_nonempty)

lemmas [simp] = text_nonempty [symmetric]

text \<open>The decision on an informed confirmation.\<close>

lemma decide_informed:
  assumes "ss_row s = Some r" "co_state r = Confirmation_required" "row_ok r" "validConfirm input"
    and "ci_checkoutId input = co_checkout_id r" "ci_offerId input = co_offer_id r"
      "ci_amountMinor input = Integer (co_amount_minor r)" "ci_currency input = co_currency r"
    and "co_confirmation_token r = Some (ci_confirmationToken input)"
    and "co_confirmation_expires_at r = Some expires" "expires \<noteq> 0" "env_now env \<le> expires"
    and "ci_blockerDigest input = digestCheckoutBlockers (unacknowledgedBlockingEvents s)"
    and "\<forall>e \<in> set (unacknowledgedBlockingEvents s). ev_eventType e \<noteq> ''offer_agent_inactive''"
    and "readRateBasisPoints (env_take_rate env) = Some rate"
  shows "confirm_decide env input s = Accept (digestHumanConfirmation input (sha256Hex (ci_confirmationToken input)))
    (unacknowledgedBlockingEvents s) (digestCheckoutBlockers (unacknowledgedBlockingEvents s)) rate"
proof -
  from assms(2,3,9) have tok: "co_confirmation_token_digest r = Some (sha256Hex (ci_confirmationToken input))"
    and gd: "truthy (co_guardrail_receipt_json r)" "truthy (co_guardrail_receipt_digest r)"
    and rev: "co_offer_provider_revision r \<noteq> []"
    by (auto simp: row_ok_def token_offered_def guardrail_evidence_def truthy_def guardrail_ok_def
        terms_ok_def sha1_pattern_def all_chars_def)
  have tt: "truthy (Some (sha256Hex x))" for x
    by (simp add: truthy_def)
  have "last_inactive (unacknowledgedBlockingEvents s) = None"
    using assms(14) by (auto simp: last_inactive_def find_None_iff)
  then show ?thesis
    using assms tok gd rev tt
    by (simp add: confirm_decide_def confirm_offer_def Let_def text_or_empty_def)
qed

text \<open>The outbox of a settled row always yields its line.\<close>

lemma settled_outbox:
  assumes "row_ok r" "co_state r = Settled"
  shows "\<exists>line. Option.bind (readSettlementMarkupOutbox (co_markup_outbox_json r)) outbox_retry_line = Some line"
proof -
  from assms obtain payload receipt rate now outbox where ev:
    "normalizeSettlementReceipt payload (row_expectation r) = Inr receipt"
    "co_applied_rate_basis_points r = Some rate" "1 \<le> rate" "rate \<le> 1000"
    "createSettlementMarkupOutbox (Integer rate) (co_agent_id r) receipt now default_compute = Inr outbox"
    "co_markup_outbox_json r = Some (canonicalJson (outbox_json outbox))" "id_pattern 127 (co_agent_id r)"
    by (auto simp: row_ok_def settlement_evidence_def confirmed_def terms_ok_def)
  note ok = normalizeSettlement_ok [OF ev(1)]
  from ev(5) obtain at where at: "toISOString now = Some at"
    by (auto simp: createSettlementMarkupOutbox_def split: option.splits if_splits)
  have "outbox = Outbox_ready (due_line rate (co_agent_id r) receipt now at)"
    using create_outbox_default [OF _ ev(3,4) at, of receipt "co_agent_id r"] ok ev(5) by simp
  moreover have "readSettlementMarkupOutbox (co_markup_outbox_json r) = Some outbox"
    unfolding ev(6) by (rule read_stored_outbox) (rule create_outbox_ok [OF _ ev(7) ev(3,4) at ev(5)], use ok in simp)
  ultimately show ?thesis by (simp add: outbox_retry_line_def)
qed

text \<open>An observation run: it returns when the alarm can be set, and changes the failure count only.\<close>

lemma setObservationFailures_row [simp]:
  "ss_row (setObservationFailures n s) = map_option (\<lambda>r. r\<lparr>co_observation_failure_count := n\<rparr>) (ss_row s)"
  by (simp add: setObservationFailures_def)

lemma session_observe_ok:
  assumes "ss_row s = Some row" "watched row" "env_alarm_ok env"
  shows "fst (session_observe env s)"
  using assms by (simp add: session_observe_def Let_def split_beta)

lemma recordObservation_row:
  assumes "ss_row s = Some row"
  shows "\<exists>n. ss_row (snd (recordObservation now outcome s)) = Some (row\<lparr>co_observation_failure_count := n\<rparr>)"
proof (cases outcome)
  case Agent_inactive
  show ?thesis
    by (rule exI [of _ "co_observation_failure_count row"]) (simp add: recordObservation_def assms Agent_inactive)
next
  case (Observation_failed k)
  then show ?thesis by (intro exI [of _ k]) (simp add: recordObservation_def assms)
qed (auto simp: recordObservation_def assms simp flip: append_each_def)

lemma session_observe_row:
  assumes "ss_row s = Some row"
  shows "\<exists>n. ss_row (snd (session_observe env s)) = Some (row\<lparr>co_observation_failure_count := n\<rparr>)"
proof (cases "watched row")
  case True
  let ?s1 = "log_call (Observe_call (co_offer_id row)) s"
  have "ss_row ?s1 = Some row" using assms by simp
  from recordObservation_row [OF this] show ?thesis using assms True
    by (auto simp: session_observe_def Let_def split_beta)
next
  case False
  show ?thesis by (rule exI [of _ "co_observation_failure_count row"])
      (use assms False in \<open>simp add: session_observe_def stopObservation_def Let_def recordObservationStopped_def\<close>)
qed

end
