(* ===== verification/Checkout_Claims.thy ===== *)
theory Checkout_Claims imports Checkout_Properties begin

text \<open>
  The claims about the checkout object, with a concrete checkout that is prepared, confirmed and
  settled as their witness. A state is reachable when a sequence of steps leads to it from an empty
  object over any ledger; every handler run is such a sequence (\<open>handlers_are_steps\<close>).
\<close>

section \<open>A concrete checkout\<close>

definition sample_prepare :: prepare_input where
  "sample_prepare = \<lparr>pi_checkoutId = ''chk-1'', pi_intentId = ''intent-1'', pi_agentId = ''agent-1'',
     pi_offerId = ''offer-1'', pi_offerReceiptDigest = sha256Hex ''offer'',
     pi_offerProviderRevision = replicate 40 (CHR ''a''), pi_amountMinor = Integer 1999,
     pi_budgetMinor = Integer 5000, pi_currency = ''EUR''\<rparr>"

definition sample_guardrail_base :: guardrail_receipt where
  "sample_guardrail_base = \<lparr>gr_receiptId = ''guard-1'', gr_checkoutId = ''chk-1'', gr_intentId = ''intent-1'',
     gr_agentId = ''agent-1'', gr_offerReceiptDigest = sha256Hex ''offer'', gr_amountMinor = 1999, gr_budgetMinor = 5000,
     gr_currency = ''EUR'', gr_providerRevision = replicate 40 (CHR ''a''), gr_receiptDigest = []\<rparr>"

definition sample_guardrail :: guardrail_receipt where
  "sample_guardrail = sample_guardrail_base\<lparr>gr_receiptDigest := digestGuardrailReceipt sample_guardrail_base\<rparr>"

definition sample_token :: string where
  "sample_token = replicate 72 (CHR ''t'')"

definition sample_env :: "provider_reply \<Rightarrow> session_env" where
  "sample_env reply = \<lparr>env_now = 0, env_later = 0, env_take_rate = Some (JStr ''250''), env_token = sample_token,
     env_reply = reply, env_observation = Fetch_threw, env_registry = None, env_fates = (\<lambda>_. Answered),
     env_alarm_ok = True, env_settle_alarm_ok = True, env_last_alarm_ok = True, env_delete_alarm_ok = True,
     env_finalize_ok = True\<rparr>"

definition guardrail_env :: session_env where
  "guardrail_env = sample_env (Reply True True (Some (guardrail_payload_of sample_guardrail)))"

definition prepared_session :: session where
  "prepared_session = snd (prepare_finish guardrail_env sample_prepare
     (snd (prepare_begin guardrail_env sample_prepare (empty_session []))))"

definition sample_confirm :: confirm_input where
  "sample_confirm = \<lparr>ci_checkoutId = ''chk-1'', ci_confirmationToken = sample_token, ci_offerId = ''offer-1'',
     ci_amountMinor = Integer 1999, ci_currency = ''EUR'', ci_blockerDigest = digestCheckoutBlockers [],
     ci_shopperPrincipalDigest = sha256Hex ''shopper''\<rparr>"

definition sample_digest :: string where
  "sample_digest = digestHumanConfirmation sample_confirm (sha256Hex sample_token)"

definition settled_receipt :: settlement_receipt where
  "settled_receipt = sign_receipt \<lparr>sr_settlementId = ''set-1'', sr_checkoutId = ''chk-1'', sr_offerId = ''offer-1'',
     sr_amountMinor = 1999, sr_currency = ''EUR'', sr_idempotencyKey = ''checkout-confirm:chk-1'',
     sr_humanConfirmationDigest = sample_digest, sr_guardrailReceiptDigest = gr_receiptDigest sample_guardrail,
     sr_providerRevision = replicate 40 (CHR ''a''), sr_receiptDigest = []\<rparr>"

definition settle_env :: session_env where
  "settle_env = sample_env (Reply True True (Some (payload_of settled_receipt)))"

definition settled_session :: session where
  "settled_session = snd (confirm settle_env sample_confirm prepared_session)"

lemma sample_patterns:
  "id_pattern 127 ''chk-1''" "id_pattern 127 ''intent-1''" "id_pattern 127 ''agent-1''" "id_pattern 127 ''offer-1''"
  "id_pattern 127 ''guard-1''" "id_pattern 127 ''set-1''"
  "currency_pattern ''EUR''" "sha1_pattern (replicate 40 (CHR ''a''))" "confirmation_token_pattern sample_token"
  "idempotency_key_pattern ''checkout-confirm:chk-1''"
  by code_simp+

lemma sample_prepare_valid: "validPrepare sample_prepare"
  by (simp add: validPrepare_def sample_prepare_def sample_patterns max_safe_def)

lemma digestGuardrail_ignores: "digestGuardrailReceipt (g\<lparr>gr_receiptDigest := d\<rparr>) = digestGuardrailReceipt g"
  by (simp add: digestGuardrailReceipt_def guardrail_json_def)

lemma sample_guardrail_ok: "guardrail_ok sample_guardrail"
proof -
  have "gr_receiptDigest sample_guardrail = digestGuardrailReceipt sample_guardrail"
    by (simp add: sample_guardrail_def digestGuardrail_ignores)
  then show ?thesis
    by (simp add: guardrail_ok_def) (simp add: sample_guardrail_def sample_guardrail_base_def sample_patterns max_safe_def)
qed

lemma sample_guardrail_matches: "guardrail_matches sample_guardrail (guardrail_expectation sample_prepare)"
  by (simp add: guardrail_matches_def guardrail_expectation_def sample_guardrail_def sample_guardrail_base_def sample_prepare_def)

lemma sample_guardrail_reply: "requestGuardrail (env_reply guardrail_env) sample_prepare = Some sample_guardrail"
  by (simp add: requestGuardrail_def guardrail_env_def sample_env_def
      normalize_guardrail_payload_of [OF sample_guardrail_ok sample_guardrail_matches])

definition prepared_row :: stored_checkout where
  "prepared_row = (new_checkout sample_prepare (sha256Hex (canonicalJson (prepare_json sample_prepare))))\<lparr>
     co_state := Confirmation_required,
     co_guardrail_receipt_json := Some (canonicalJson (guardrail_json sample_guardrail)),
     co_guardrail_receipt_digest := Some (gr_receiptDigest sample_guardrail),
     co_confirmation_token := Some sample_token, co_confirmation_token_digest := Some (sha256Hex sample_token),
     co_confirmation_expires_at := Some 600000\<rparr>"

lemma sample_begin:
  "snd (prepare_begin guardrail_env sample_prepare (empty_session [])) =
     log_call (Guardrail_call sample_prepare) (open_checkout guardrail_env sample_prepare (empty_session []))"
  by (simp add: prepare_begin_def Let_def sample_prepare_valid) (simp add: empty_session_def)

lemma prepared_fields: "ss_row prepared_session = Some prepared_row" "ss_ledger prepared_session = []"
  "map er_event_type (ss_events prepared_session) = [''checkout_prepare_requested'', ''guardrail_passed'']"
proof -
  have al: "env_alarm_ok guardrail_env" "env_token guardrail_env = sample_token" "env_later guardrail_env = 0"
    by (simp_all add: guardrail_env_def sample_env_def)
  show "ss_row prepared_session = Some prepared_row" "ss_ledger prepared_session = []"
    "map er_event_type (ss_events prepared_session) = [''checkout_prepare_requested'', ''guardrail_passed'']"
    by (simp_all add: prepared_session_def sample_begin prepare_finish_def sample_guardrail_reply Let_def al
        record_guardrail_def open_checkout_def appendEvent_events)
      (simp_all add: prepared_row_def new_checkout_def CONFIRMATION_TTL_MS_def empty_session_def)
qed

lemma prepared_reachable: "session_run (empty_session []) prepared_session"
proof -
  have "session_run (empty_session []) (snd (prepare_begin guardrail_env sample_prepare (empty_session [])))"
    by (rule prepare_begin_steps)
  moreover have "ss_pending (snd (prepare_begin guardrail_env sample_prepare (empty_session []))) = Some sample_prepare"
    unfolding sample_begin by (simp add: open_checkout_def)
  ultimately show ?thesis unfolding prepared_session_def
    using prepare_finish_steps run_trans by blast
qed

lemma prepared_ok: "session_ok prepared_session"
  using session_run_ok [OF prepared_reachable empty_session_ok] .

lemma prepared_blockers: "unacknowledgedBlockingEvents prepared_session = []"
proof -
  have log: "log_ok prepared_session" using prepared_ok by (simp add: session_ok_def)
  have "er_event_type r \<notin> set BLOCKING_EVENT_TYPES" if "r \<in> set (ss_events prepared_session)" for r
  proof -
    have "er_event_type r \<in> set (map er_event_type (ss_events prepared_session))" using that by simp
    then show ?thesis unfolding prepared_fields(3) by (auto simp: BLOCKING_EVENT_TYPES_def)
  qed
  then show ?thesis unfolding unacknowledged_log [OF log]
    by (auto simp: filter_empty_conv read_event_def)
qed

lemma settled_receipt_ok: "settlement_ok settled_receipt"
proof -
  have "sha256_pattern (gr_receiptDigest sample_guardrail)" using sample_guardrail_ok by (simp add: guardrail_ok_def)
  then show ?thesis
    by (simp add: settled_receipt_def sign_receipt_ok sample_patterns max_safe_def sample_digest_def)
qed

lemma settled_payload_accepted:
  "normalizeSettlementReceipt (payload_of settled_receipt) (settlement_expectation prepared_row sample_digest ''checkout-confirm:chk-1'') = Inr settled_receipt"
proof -
  have "settlement_expectation prepared_row sample_digest ''checkout-confirm:chk-1'' = expected_of settled_receipt"
    by (simp add: settlement_expectation_def expected_of_def settled_receipt_def sign_receipt_def prepared_row_def
        new_checkout_def sample_prepare_def text_or_empty_def)
  with normalize_payload_of [OF settled_receipt_ok] show ?thesis by simp
qed

lemma sample_rate: "readRateBasisPoints (Some (JStr ''250'')) = Some 250"
  by code_simp

lemma sample_confirm_valid: "validConfirm sample_confirm"
  by (simp add: validConfirm_def sample_confirm_def sample_patterns max_safe_def digestCheckoutBlockers_def)

section \<open>Claims\<close>

text \<open>Every handler run is a sequence of the transactions of \<open>session_tx\<close>, so what these keep holds wherever a run is cut.\<close>

lemma handlers_are_steps:
  "session_run s (snd (prepare_begin env input s))"
  "ss_pending s = Some pending \<Longrightarrow> session_run s (snd (prepare_finish env pending s))"
  "session_run s (snd (confirm env confirmation s))" "session_run s (snd (alarm env s))"
  using prepare_begin_steps prepare_finish_steps confirm_steps alarm_steps by blast+

text \<open>
  C1. In every reachable state the provider has been asked to settle at most once, only after a
  confirmation that is still recorded; the request carries the stored terms, guardrail receipt,
  confirmation digest and idempotency key, and no blocking observation was unacknowledged when it was
  sent. The human confirmation and the settlement are recorded at most once, the latter only when the
  checkout is settled, and the events are numbered 1, 2, 3, ...
\<close>

theorem settlement_called_once:
  assumes "session_run (empty_session ledger) s"
  shows "length (submits s) \<le> 1
    \<and> (\<forall>c \<in> set (submits s). \<exists>r. ss_row s = Some r \<and> confirmed_status (co_state r)
        \<and> submit_body c = settlementRequest r (text_or_empty (co_human_confirmation_digest r)) (text_or_empty (co_settlement_idempotency_key r))
        \<and> (int (length (ss_events s)) \<le> max_safe \<longrightarrow> submit_blockers c = []))
    \<and> count_events ''human_confirmed'' s = (if is_confirmed s then 1 else 0)
    \<and> count_events ''settlement_recorded'' s = (if is_settled s then 1 else 0)
    \<and> map er_sequence (ss_events s) = [1..<Suc (length (ss_events s))]"
proof -
  have ok: "session_ok s" using session_run_ok [OF assms empty_session_ok] .
  then have len: "length (submits s) \<le> (if is_confirmed s then 1 else 0)" by (simp add: session_ok_def)
  have "\<exists>r. ss_row s = Some r \<and> confirmed_status (co_state r)
        \<and> submit_body c = settlementRequest r (text_or_empty (co_human_confirmation_digest r)) (text_or_empty (co_settlement_idempotency_key r))
        \<and> (int (length (ss_events s)) \<le> max_safe \<longrightarrow> submit_blockers c = [])" if c: "c \<in> set (submits s)" for c
  proof -
    have "is_confirmed s" using len c by (cases "submits s") (auto split: if_splits)
    then obtain r where r: "ss_row s = Some r" "confirmed_status (co_state r)"
      by (auto simp: is_confirmed_def confirmed_status_def split: option.splits)
    moreover have "submit_ok r (length (ss_events s)) c" using ok r(1) c by (simp add: session_ok_def)
    moreover have "is_submit c" using c by (simp add: submits_def)
    ultimately show ?thesis by (auto simp: submit_ok_def is_submit_def split: provider_call.splits)
  qed
  moreover have "length (submits s) \<le> 1" using len by (simp split: if_splits)
  ultimately show ?thesis using ok by (simp add: session_ok_def log_ok_def del: upt_Suc)
qed

theorem settlement_called_once_witness: "length (submits settled_session) \<le> 1"
proof -
  have "session_run (empty_session []) settled_session"
    unfolding settled_session_def using prepared_reachable confirm_steps by (rule run_trans)
  from settlement_called_once [OF this] show ?thesis by blast
qed

text \<open>
  C22. What is fixed stays fixed. From any reachable state on, the terms of the checkout never
  change; after the confirmation neither do the confirmation digest, the idempotency key, the pinned
  take rate and the guardrail receipt; a settled checkout stays settled with the same payload,
  receipt and outbox, and a failed one stays failed. Events are only appended, and the lines of the
  ledger stay.
\<close>

theorem checkout_history:
  assumes "session_run (empty_session ledger) s" "session_run s s'" "ss_row s = Some r"
  shows "\<exists>r'. ss_row s' = Some r' \<and> same_terms r r'
    \<and> (confirmed_status (co_state r) \<longrightarrow> confirmed_status (co_state r') \<and> same_confirmation r r')
    \<and> (co_state r = Settled \<longrightarrow> co_state r' = Settled \<and> same_settlement r r')
    \<and> (co_state r = Failed \<longrightarrow> co_state r' = Failed)
    \<and> (\<exists>new. ss_events s' = ss_events s @ new)
    \<and> (\<forall>k m. ledger_read (ss_ledger s) k = Some m \<longrightarrow> ledger_read (ss_ledger s') k = Some m)"
  using session_run_history [OF assms(2) session_run_ok [OF assms(1) empty_session_ok]] assms(3)
  by (auto simp: session_history_def row_history_def)

theorem checkout_history_witness:
  "\<exists>r'. ss_row (snd (alarm settle_env settled_session)) = Some r' \<and> same_terms prepared_row r'"
proof -
  have "session_run prepared_session (snd (alarm settle_env settled_session))"
    unfolding settled_session_def using confirm_steps alarm_steps by (rule run_trans)
  from checkout_history [OF prepared_reachable this prepared_fields(1)] show ?thesis by blast
qed

text \<open>
  C13. An informed confirmation is accepted: in a reachable state that awaits confirmation, the
  input that names the stored terms and carries the offered token, the digest of exactly the open
  blockers (none of them an inactive agent) and comes before the expiry settles the checkout when
  the alarm can be armed, the take rate is valid and the provider answers with an acceptable
  receipt; the answer is the first, not idempotent, settlement with the provider's payload, and the
  receipt is stored.
\<close>

theorem informed_confirmation_settles:
  assumes run: "session_run (empty_session ledger) s" and row: "ss_row s = Some r" and st: "co_state r = Confirmation_required"
    and valid: "validConfirm input"
    and terms: "ci_checkoutId input = co_checkout_id r" "ci_offerId input = co_offer_id r"
      "ci_amountMinor input = Integer (co_amount_minor r)" "ci_currency input = co_currency r"
    and token: "co_confirmation_token r = Some (ci_confirmationToken input)"
    and time: "co_confirmation_expires_at r = Some expires" "expires \<noteq> 0" "env_now env \<le> expires"
    and blockers: "ci_blockerDigest input = digestCheckoutBlockers (unacknowledgedBlockingEvents s)"
      "\<forall>e \<in> set (unacknowledgedBlockingEvents s). ev_eventType e \<noteq> ''offer_agent_inactive''"
    and rate: "readRateBasisPoints (env_take_rate env) = Some rate" and armed: "env_alarm_ok env"
    and reply: "env_reply env = Reply True True (Some payload)"
      "normalizeSettlementReceipt payload (settlement_expectation r
         (digestHumanConfirmation input (sha256Hex (ci_confirmationToken input))) (idempotency_key input)) = Inr receipt"
    and clock: "toISOString (env_later env) = Some at"
  shows "\<exists>m r'. fst (confirm env input s) = Inr (Settled_result False (canonicalValue payload) (Some m))
    \<and> ss_row (snd (confirm env input s)) = Some r' \<and> co_state r' = Settled
    \<and> co_applied_rate_basis_points r' = Some rate
    \<and> co_settlement_receipt_json r' = Some (canonicalJson (settlement_json receipt))"
proof -
  let ?digest = "digestHumanConfirmation input (sha256Hex (ci_confirmationToken input))"
  let ?bs = "unacknowledgedBlockingEvents s"
  have ok: "session_ok s" by (rule session_run_ok [OF run empty_session_ok])
  then have rowr: "row_ok r" using row by (simp add: session_ok_def)
  have dec: "confirm_decide env input s = Accept ?digest ?bs (digestCheckoutBlockers ?bs) rate"
    by (rule decide_informed [OF row st rowr valid terms token time blockers rate])
  let ?r1 = "confirm_row ?digest (idempotency_key input) rate r"
  obtain s2 where s2: "ss_row s2 = Some ?r1" "session_run s s2"
    "confirm env input s = consumeSettlement env (submitSettlement (env_reply env) ?r1 ?digest (idempotency_key input)) False s2"
    using confirm_accepts [OF dec armed row] by auto
  have ok2: "session_ok s2" by (rule session_run_ok [OF s2(2) ok])
  have acc: "normalizeSettlementReceipt payload (row_expectation ?r1) = Inr receipt"
    using reply(2) by (simp add: confirm_row_expectation)
  have "settlement_expectation ?r1 ?digest (idempotency_key input) = settlement_expectation r ?digest (idempotency_key input)"
    by (simp add: settlement_expectation_def confirm_row_def)
  then have "submitSettlement (env_reply env) ?r1 ?digest (idempotency_key input) = Inr (payload, receipt)"
    unfolding submitSettlement_def reply(1) using reply(2) by (simp add: reply_Inr)
  moreover have "co_state ?r1 \<in> {Confirming, Reconciliation_required}" by (simp add: confirm_row_def)
  ultimately obtain m r' where res: "fst (confirm env input s) = Inr (Settled_result False (canonicalValue payload) (Some m))"
    "ss_row (snd (confirm env input s)) = Some r'" "co_state r' = Settled"
    "co_settlement_receipt_json r' = Some (canonicalJson (settlement_json receipt))" "row_history ?r1 r'"
    using consume_accepted [OF ok2 s2(1) _ acc clock, of False] s2(3) by auto
  then have "co_applied_rate_basis_points r' = Some rate"
    by (auto simp: row_history_def same_confirmation_def confirmed_status_def confirm_row_def)
  with res show ?thesis by blast
qed

theorem informed_confirmation_settles_witness:
  "\<exists>m r'. fst (confirm settle_env sample_confirm prepared_session) =
      Inr (Settled_result False (canonicalValue (payload_of settled_receipt)) (Some m))
    \<and> ss_row settled_session = Some r' \<and> co_state r' = Settled \<and> co_applied_rate_basis_points r' = Some 250
    \<and> co_settlement_receipt_json r' = Some (canonicalJson (settlement_json settled_receipt))"
proof -
  have env: "env_take_rate settle_env = Some (JStr ''250'')" "env_alarm_ok settle_env" "env_now settle_env = 0"
    "env_later settle_env = 0" "env_reply settle_env = Reply True True (Some (payload_of settled_receipt))"
    by (simp_all add: settle_env_def sample_env_def)
  have key: "idempotency_key sample_confirm = ''checkout-confirm:chk-1''"
    by (simp add: idempotency_key_def sample_confirm_def)
  have fields: "co_state prepared_row = Confirmation_required" "ci_checkoutId sample_confirm = co_checkout_id prepared_row"
    "ci_offerId sample_confirm = co_offer_id prepared_row" "ci_amountMinor sample_confirm = Integer (co_amount_minor prepared_row)"
    "ci_currency sample_confirm = co_currency prepared_row"
    "co_confirmation_token prepared_row = Some (ci_confirmationToken sample_confirm)"
    "co_confirmation_expires_at prepared_row = Some 600000"
    by (simp_all add: prepared_row_def new_checkout_def sample_prepare_def sample_confirm_def)
  show ?thesis
    unfolding settled_session_def
    by (rule informed_confirmation_settles [OF prepared_reachable prepared_fields(1) fields(1) sample_confirm_valid fields(2-7)])
      (use settled_payload_accepted toISOString_epoch in \<open>simp_all add: env prepared_blockers sample_rate key
        sample_confirm_def [THEN arg_cong [where f = ci_blockerDigest]]
        sample_digest_def sample_confirm_def [THEN arg_cong [where f = ci_confirmationToken]]\<close>)
qed

definition sample_confirmed :: stored_checkout where
  "sample_confirmed = confirm_row sample_digest ''checkout-confirm:chk-1'' 250 prepared_row"

lemma sample_env_fields:
  "env_take_rate (sample_env reply) = Some (JStr ''250'')" "env_alarm_ok (sample_env reply)" "env_now (sample_env reply) = 0"
  "env_later (sample_env reply) = 0" "env_reply (sample_env reply) = reply"
  by (simp_all add: sample_env_def)

lemma sample_confirmed_run:
  "\<exists>s2. ss_row s2 = Some sample_confirmed \<and> session_run prepared_session s2
    \<and> confirm (sample_env reply) sample_confirm prepared_session =
       consumeSettlement (sample_env reply) (submitSettlement reply sample_confirmed sample_digest ''checkout-confirm:chk-1'') False s2"
proof -
  have st: "co_state prepared_row = Confirmation_required" by (simp add: prepared_row_def)
  have dec: "confirm_decide (sample_env reply) sample_confirm prepared_session = Accept sample_digest [] (digestCheckoutBlockers []) 250"
    using decide_informed [OF prepared_fields(1) st _ sample_confirm_valid, of 600000 "sample_env reply" 250]
      prepared_ok prepared_fields(1)
    by (simp add: session_ok_def prepared_blockers sample_env_fields sample_rate sample_digest_def)
      (simp add: sample_confirm_def prepared_row_def new_checkout_def sample_prepare_def)
  have key: "idempotency_key sample_confirm = ''checkout-confirm:chk-1''"
    by (simp add: idempotency_key_def sample_confirm_def)
  show ?thesis
    using confirm_accepts [OF dec sample_env_fields(2) prepared_fields(1)]
    by (auto simp: key sample_env_fields simp flip: sample_confirmed_def)
qed

lemma sample_confirmed_fields:
  "co_state sample_confirmed = Confirming"
  "settlement_expectation sample_confirmed d k = settlement_expectation prepared_row d k"
  "row_expectation sample_confirmed = settlement_expectation prepared_row sample_digest ''checkout-confirm:chk-1''"
  unfolding sample_confirmed_def
  by (simp_all add: confirm_row_expectation) (simp_all add: settlement_expectation_def confirm_row_def)

lemma settled_row:
  "\<exists>r. ss_row settled_session = Some r \<and> co_state r = Settled"
proof -
  let ?reply = "Reply True True (Some (payload_of settled_receipt))"
  obtain s2 where s2: "ss_row s2 = Some sample_confirmed" "session_run prepared_session s2"
    "confirm settle_env sample_confirm prepared_session =
       consumeSettlement settle_env (submitSettlement ?reply sample_confirmed sample_digest ''checkout-confirm:chk-1'') False s2"
    using sample_confirmed_run [of ?reply] by (auto simp: settle_env_def)
  have "submitSettlement ?reply sample_confirmed sample_digest ''checkout-confirm:chk-1'' = Inr (payload_of settled_receipt, settled_receipt)"
    unfolding submitSettlement_def using settled_payload_accepted by (simp add: reply_Inr sample_confirmed_fields)
  moreover have "toISOString (env_later settle_env) = Some ''1970-01-01T00:00:00.000Z''"
    by (simp add: settle_env_def sample_env_fields toISOString_epoch)
  ultimately show ?thesis
    using consume_accepted [OF session_run_ok [OF s2(2) prepared_ok] s2(1), of "payload_of settled_receipt" settled_receipt settle_env _ False]
      settled_payload_accepted s2(3) by (auto simp: settled_session_def sample_confirmed_fields)
qed

lemma settled_reachable: "session_run (empty_session []) settled_session"
  unfolding settled_session_def using prepared_reachable confirm_steps by (rule run_trans)

text \<open>
  C2. Only an informed confirmation is consumed: when a run of \<open>confirm\<close> takes a checkout out of the
  state that awaits confirmation into a confirmed one, the input named the stored terms, its token
  has the digest of the offered one, it carried the digest of exactly the open blockers, none of them
  reports an inactive agent, the confirmation had not expired, and the rate that is pinned is the
  configured one, between 1 and 1000 basis points.
\<close>

theorem only_informed_confirmation:
  assumes "session_run (empty_session ledger) s" "ss_row s = Some r" "co_state r = Confirmation_required"
    and "ss_row (snd (confirm env input s)) = Some r'" "confirmed_status (co_state r')"
  shows "ci_checkoutId input = co_checkout_id r \<and> ci_offerId input = co_offer_id r
    \<and> ci_amountMinor input = Integer (co_amount_minor r) \<and> ci_currency input = co_currency r
    \<and> constantTimeTextMatch (sha256Hex (ci_confirmationToken input)) (text_or_empty (co_confirmation_token_digest r))
    \<and> ci_blockerDigest input = digestCheckoutBlockers (unacknowledgedBlockingEvents s)
    \<and> (\<forall>e \<in> set (unacknowledgedBlockingEvents s). ev_eventType e \<noteq> ''offer_agent_inactive'')
    \<and> (\<exists>expires. co_confirmation_expires_at r = Some expires \<and> env_now env \<le> expires)
    \<and> readRateBasisPoints (env_take_rate env) = co_applied_rate_basis_points r'
    \<and> co_human_confirmation_digest r' = Some (digestHumanConfirmation input (sha256Hex (ci_confirmationToken input)))"
proof -
  have ok: "session_ok s" by (rule session_run_ok [OF assms(1) empty_session_ok])
  show ?thesis
  proof (cases "confirm_decide env input s")
    case (Refuse x)
    with assms show ?thesis by (simp add: confirm_def confirmed_status_def)
  next
    case (Resume row)
    with confirm_decide_row(1) [OF Resume] assms show ?thesis by simp
  next
    case (Resume_reconciliation row digest key)
    with confirm_decide_row(2) [OF Resume_reconciliation] assms show ?thesis by simp
  next
    case Expire
    let ?s1 = "close_failed (env_now env) ''confirmation_expired'' s"
    have "session_run ?s1 (snd (confirm env input s))"
      using stop_steps [of ?s1 env "''closed''"] Expire by (simp add: confirm_def terminalFailure_def split_beta Let_def)
    moreover have "session_ok ?s1" by (rule keep_expired [OF ok Expire])
    moreover have "ss_row ?s1 = Some (r\<lparr>co_state := Failed, co_confirmation_token := None, co_failure_code := Some ''confirmation_expired''\<rparr>)"
      using assms(2) by (simp add: close_failed_def)
    ultimately have "co_state r' = Failed"
      using session_run_history assms(4) by (fastforce simp: session_history_def row_history_def)
    with assms(5) show ?thesis by (simp add: confirmed_status_def)
  next
    case (Accept digest bs bd rate)
    have "env_alarm_ok env"
    proof (rule ccontr)
      assume "\<not> env_alarm_ok env"
      with Accept assms show False by (simp add: confirm_def armRecoveryAlarm_def confirmed_status_def)
    qed
    obtain s2 where s2: "ss_row s2 = Some (confirm_row digest (idempotency_key input) rate r)" "session_run s s2"
      "confirm env input s = consumeSettlement env
        (submitSettlement (env_reply env) (confirm_row digest (idempotency_key input) rate r) digest (idempotency_key input)) False s2"
      using confirm_accepts [OF Accept \<open>env_alarm_ok env\<close> assms(2)] by auto
    let ?r1 = "confirm_row digest (idempotency_key input) rate r"
    have "settlement_expectation ?r1 digest (idempotency_key input) = row_expectation ?r1"
      by (rule expectation_fields) (simp_all add: confirm_row_def)
    then have "normalizeSettlementReceipt payload (row_expectation ?r1) = Inr receipt"
      if "submitSettlement (env_reply env) ?r1 digest (idempotency_key input) = Inr (payload, receipt)" for payload receipt
      using reply_accepted that unfolding submitSettlement_def by metis
    then have "session_run s2 (snd (confirm env input s))"
      unfolding s2(3) by (rule consume_steps [OF s2(1)])
    then have "row_history (confirm_row digest (idempotency_key input) rate r) r'"
      using session_run_history session_run_ok [OF s2(2) ok] s2(1) assms(4) by (fastforce simp: session_history_def)
    then have "co_applied_rate_basis_points r' = Some rate" "co_human_confirmation_digest r' = Some digest"
      by (auto simp: row_history_def same_confirmation_def confirmed_status_def confirm_row_def)
    moreover have "last_inactive bs = None \<Longrightarrow> \<forall>e \<in> set bs. ev_eventType e \<noteq> ''offer_agent_inactive''"
      by (auto simp: last_inactive_def find_None_iff)
    moreover have "\<exists>expires. co_confirmation_expires_at r = Some expires \<and> env_now env \<le> expires"
      using Accept assms(2,3)
      by (auto simp: confirm_decide_def confirm_offer_def Let_def split: option.splits if_splits)
    ultimately show ?thesis using Accept assms(2) by (auto elim!: acceptD)
  qed
qed

theorem only_informed_confirmation_witness:
  "ci_blockerDigest sample_confirm = digestCheckoutBlockers (unacknowledgedBlockingEvents prepared_session)"
proof -
  obtain r where r: "ss_row (snd (confirm settle_env sample_confirm prepared_session)) = Some r" "co_state r = Settled"
    using settled_row by (auto simp: settled_session_def)
  have "co_state prepared_row = Confirmation_required" by (simp add: prepared_row_def)
  moreover have "confirmed_status (co_state r)" using r by (simp add: confirmed_status_def)
  ultimately show ?thesis
    using only_informed_confirmation [OF prepared_reachable prepared_fields(1) _ r(1)] by blast
qed

text \<open>
  C8. A settled checkout carries its evidence: in every reachable state that is settled, the stored
  receipt restores under the row's own terms, for the row's amount and currency; the outbox reads
  back and names that settlement with the markup due at the pinned rate; and when the finalization is
  completed, exactly that line is in the ledger.
\<close>

theorem settled_evidence:
  assumes "session_run (empty_session ledger) s" "ss_row s = Some r" "co_state r = Settled"
  shows "\<exists>receipt rate line. restoreSettlementReceipt (co_settlement_receipt_json r) (row_expectation r) = Some receipt
    \<and> sr_amountMinor receipt = co_amount_minor r \<and> sr_currency receipt = co_currency r
    \<and> co_applied_rate_basis_points r = Some rate \<and> 1 \<le> rate \<and> rate \<le> 1000
    \<and> Option.bind (readSettlementMarkupOutbox (co_markup_outbox_json r)) outbox_retry_line = Some line
    \<and> settlementId line = sr_settlementId receipt \<and> settledAmountMinor line = Integer (co_amount_minor r)
    \<and> markupMinor line = Integer (markup_due (co_amount_minor r) rate)
    \<and> (co_markup_finalization_state r = Finalization_completed \<longrightarrow>
         ledger_read (ss_ledger s) (sr_settlementId receipt) = Some line)"
proof -
  have ok: "session_ok s" by (rule session_run_ok [OF assms(1) empty_session_ok])
  have fin: "finalized_ok s"
    by (rule session_run_finalized [OF assms(1) empty_session_ok]) (simp add: finalized_ok_def empty_session_def)
  have rowr: "row_ok r" using ok assms(2) by (simp add: session_ok_def)
  from rowr assms(3) obtain line where line:
    "Option.bind (readSettlementMarkupOutbox (co_markup_outbox_json r)) outbox_retry_line = Some line"
    using settled_outbox by blast
  from settled_line [OF rowr assms(3) line] obtain receipt rate now at where l:
    "restoreSettlementReceipt (co_settlement_receipt_json r) (row_expectation r) = Some receipt"
    "co_applied_rate_basis_points r = Some rate" "1 \<le> rate" "rate \<le> 1000"
    "sr_amountMinor receipt = co_amount_minor r" "line = due_line rate (co_agent_id r) receipt now at" by blast
  have "sr_currency receipt = co_currency r"
    using restore_sound [OF l(1)] by (simp add: settlement_matches_def row_expectation_def)
  moreover have "settlementId line = sr_settlementId receipt" "settledAmountMinor line = Integer (co_amount_minor r)"
    "markupMinor line = Integer (markup_due (co_amount_minor r) rate)"
    using l(5,6) by (simp_all add: due_line_def line_of_input_def outbox_input_of_def)
  moreover have "ledger_read (ss_ledger s) (sr_settlementId receipt) = Some line"
    if "co_markup_finalization_state r = Finalization_completed"
    using fin assms(2) that line \<open>settlementId line = sr_settlementId receipt\<close>
    by (auto simp: finalized_ok_def finalized_def)
  ultimately show ?thesis using l line by blast
qed

theorem settled_evidence_witness:
  "\<exists>r receipt. ss_row settled_session = Some r
     \<and> restoreSettlementReceipt (co_settlement_receipt_json r) (row_expectation r) = Some receipt"
  using settled_row settled_evidence [OF settled_reachable] by blast

text \<open>
  C18. Recovery of a lost settlement answer: from any reachable state in which a confirmation was
  consumed but no settlement is recorded, one alarm run settles the checkout when the alarm can be
  set and the provider's status answer is an acceptable receipt for the stored terms, whatever the
  observation that precedes it reports.
\<close>

theorem alarm_recovers_settlement:
  assumes "session_run (empty_session ledger) s" "ss_row s = Some r" "co_state r \<in> {Confirming, Reconciliation_required}"
    and "env_alarm_ok env" "env_reply env = Reply True True (Some payload)"
    and "normalizeSettlementReceipt payload (row_expectation r) = Inr receipt"
    and "toISOString (env_later env) = Some at"
  shows "fst (alarm env s) \<and> (\<exists>r'. ss_row (snd (alarm env s)) = Some r' \<and> co_state r' = Settled
    \<and> co_settlement_receipt_json r' = Some (canonicalJson (settlement_json receipt)))"
proof -
  define s0 where "s0 = s\<lparr>ss_alarm := None\<rparr>"
  have ok: "session_ok s" by (rule session_run_ok [OF assms(1) empty_session_ok])
  then have ok0: "session_ok s0" by (simp add: s0_def)
  have row0: "ss_row s0 = Some r" using assms(2) by (simp add: s0_def)
  have "row_ok r" using ok assms(2) by (simp add: session_ok_def)
  then obtain digest rate where conf: "co_human_confirmation_digest r = Some digest" "sha256_pattern digest"
    "co_settlement_idempotency_key r = Some (''checkout-confirm:'' @ co_checkout_id r)"
    "co_applied_rate_basis_points r = Some rate" "1 \<le> rate" "rate \<le> 1000"
    using assms(3) by (auto simp: row_ok_def confirmed_def)
  have rec: "recovering r" using conf assms(3) sha256_length [OF conf(2)] by (auto simp: recovering_def truthy_def)
  obtain s1 where s1: "session_observe env s0 = (True, s1)" "session_run s0 s1"
    using session_observe_steps [of s0 env] session_observe_ok [OF row0 _ assms(4)] assms(3)
    by (cases "session_observe env s0") (auto simp: watched_def)
  have ok1: "session_ok s1" by (rule session_run_ok [OF s1(2) ok0])
  obtain n where "ss_row s1 = Some (r\<lparr>co_observation_failure_count := n\<rparr>)"
    using session_observe_row [OF row0, of env] s1(1) by auto
  then obtain r1 where r1: "ss_row s1 = Some r1" "co_state r1 = co_state r" "row_expectation r1 = row_expectation r"
    "co_human_confirmation_digest r1 = co_human_confirmation_digest r"
    "co_settlement_idempotency_key r1 = co_settlement_idempotency_key r"
    "co_applied_rate_basis_points r1 = co_applied_rate_basis_points r" "co_checkout_id r1 = co_checkout_id r"
    by (rule that) (simp_all add: row_expectation_def settlement_expectation_def)
  have rec1: "recovering r1" using rec r1 by (simp add: recovering_def)
  let ?key = "''checkout-confirm:'' @ co_checkout_id r"
  let ?s2 = "log_call (Status_call ?key) (mark_reconciliation (env_now env) r1 digest ?key s1)"
  let ?r2 = "r1\<lparr>co_state := Reconciliation_required\<rparr>"
  have row2: "ss_row ?s2 = Some ?r2" using r1 assms(3) by (simp add: mark_row)
  have run2: "session_run s1 ?s2"
    by (rule run_trans [OF run_step [OF tx_mark [OF r1(1)]] run_step [OF tx_call]]) simp
  have acc: "normalizeSettlementReceipt payload (row_expectation ?r2) = Inr receipt"
    using assms(6) r1(3) by (simp add: row_expectation_def)
  have "settlement_expectation r1 digest ?key = row_expectation r1"
    by (rule expectation_fields) (use r1 conf in simp_all)
  then have reply: "reconcileSettlement (env_reply env) r1 digest ?key = Inr (payload, receipt)"
    unfolding reconcileSettlement_def assms(5) by (intro reply_Inr) (use assms(6) r1(3) in simp)
  have recon: "reconcile env r1 digest ?key s1 = consumeSettlement env (Inr (payload, receipt)) True ?s2"
    using conf r1(6) reply by (simp add: reconcile_def Let_def readRate_optional [THEN iffD2])
  obtain m r' where fin: "fst (reconcile env r1 digest ?key s1) = Inr (Settled_result True (canonicalValue payload) (Some m))"
    "ss_row (snd (reconcile env r1 digest ?key s1)) = Some r'" "co_state r' = Settled"
    "co_settlement_receipt_json r' = Some (canonicalJson (settlement_json receipt))"
    unfolding recon
    using consume_accepted [OF session_run_ok [OF run2 ok1] row2 _ acc assms(7), of True] by auto
  have "alarm env s = (True, snd (reconcile env r1 digest ?key s1))"
    using row0 rec s1(1) r1(1,4,5) rec1 fin assms(3) conf
    by (auto simp: alarm_def Let_def split_beta text_or_empty_def simp flip: s0_def)
  with fin show ?thesis by auto
qed

lemma require_row:
  "ss_row s = Some r \<Longrightarrow> co_state r = Confirming \<Longrightarrow>
    ss_row (snd (requireReconciliation now code s)) = Some (r\<lparr>co_state := Reconciliation_required, co_failure_code := Some code\<rparr>)"
  by (simp add: requireReconciliation_def update_row_def split_beta Let_def)

lemma lost_answer:
  "\<exists>r. ss_row (snd (confirm (sample_env Fetch_threw) sample_confirm prepared_session)) = Some r
     \<and> co_state r = Reconciliation_required \<and> row_expectation r = row_expectation sample_confirmed"
proof -
  obtain s2 where s2: "ss_row s2 = Some sample_confirmed"
    "confirm (sample_env Fetch_threw) sample_confirm prepared_session =
       consumeSettlement (sample_env Fetch_threw) (submitSettlement Fetch_threw sample_confirmed sample_digest ''checkout-confirm:chk-1'') False s2"
    using sample_confirmed_run [of Fetch_threw] by blast
  then show ?thesis
    by (simp add: submitSettlement_def settlement_reply_def consumeSettlement_def require_row sample_confirmed_fields(1))
      (simp add: row_expectation_def settlement_expectation_def)
qed

theorem alarm_recovers_settlement_witness:
  "\<exists>r. ss_row (snd (alarm settle_env (snd (confirm (sample_env Fetch_threw) sample_confirm prepared_session)))) = Some r
     \<and> co_state r = Settled \<and> co_settlement_receipt_json r = Some (canonicalJson (settlement_json settled_receipt))"
proof -
  obtain r where r: "ss_row (snd (confirm (sample_env Fetch_threw) sample_confirm prepared_session)) = Some r"
    "co_state r = Reconciliation_required" "row_expectation r = row_expectation sample_confirmed" using lost_answer by blast
  have "session_run (empty_session []) (snd (confirm (sample_env Fetch_threw) sample_confirm prepared_session))"
    using prepared_reachable confirm_steps by (rule run_trans)
  from alarm_recovers_settlement [OF this r(1), of settle_env "payload_of settled_receipt" settled_receipt "''1970-01-01T00:00:00.000Z''"]
  show ?thesis using r settled_payload_accepted
    by (auto simp: settle_env_def sample_env_fields toISOString_epoch sample_confirmed_fields)
qed

end
