(* ===== verification/Js_Canonical.thy ===== *)
theory Js_Canonical imports Js_Json begin

text \<open>
  The collation of \<open>localeCompare\<close> is a linear order on printable ASCII texts, so that
  \<open>canonicalJson\<close> of \<open>src/src/shared/digest.ts\<close> depends on the entries of an object and not on
  their order, and is a fixed point of storing and reading back.
\<close>

section \<open>The collation order\<close>

lemma weights_less_irrefl [simp]: "\<not> weights_less s s"
  by (induction s) auto

lemma weights_less_trans: "weights_less a b \<Longrightarrow> weights_less b c \<Longrightarrow> weights_less a c"
proof (induction a b arbitrary: c rule: weights_less.induct)
  case (2 b bs)
  then show ?case by (cases c) auto
next
  case (3 a as b bs)
  then show ?case by (cases c) auto
qed simp

lemma weights_less_linear: "weights_less a b \<or> a = b \<or> weights_less b a"
proof (induction a b rule: weights_less.induct)
  case (1 a)
  then show ?case by (cases a) auto
next
  case (3 a as b bs)
  then show ?case by (metis linorder_neqE_nat weights_less.simps(3))
qed auto

lemma weights_less_asym: "weights_less a b \<Longrightarrow> \<not> weights_less b a"
  using weights_less_trans weights_less_irrefl by blast

lemma locale_le_total: "locale_le s t \<or> locale_le t s"
  unfolding locale_le_def Let_def
  using weights_less_linear [of "map primary_weight s" "map primary_weight t"]
    weights_less_asym [of "map case_weight t" "map case_weight s"] by metis

lemma locale_le_trans: "locale_le a b \<Longrightarrow> locale_le b c \<Longrightarrow> locale_le a c"
proof -
  let ?p = "map primary_weight" and ?k = "map case_weight"
  assume "locale_le a b" "locale_le b c"
  then consider "weights_less (?p a) (?p b)" "weights_less (?p b) (?p c) \<or> ?p b = ?p c"
    | "?p a = ?p b" "weights_less (?p b) (?p c)"
    | "?p a = ?p b" "?p b = ?p c" "\<not> weights_less (?k b) (?k a)" "\<not> weights_less (?k c) (?k b)"
    by (auto simp: locale_le_def Let_def)
  then show ?thesis
  proof cases
    case 3
    then have "\<not> weights_less (?k c) (?k a)"
      using weights_less_linear [of "?k b" "?k a"] weights_less_trans [of "?k c" "?k a" "?k b"] by auto
    with 3 show ?thesis by (simp add: locale_le_def Let_def)
  qed (auto simp: locale_le_def Let_def intro: weights_less_trans)
qed

text \<open>The two weights of a character determine it.\<close>

definition weight_char :: "nat \<Rightarrow> nat \<Rightarrow> char" where
  "weight_char p k =
     (if p < length collation_order
      then (if k = 1 then uppers ! position (collation_order ! p) lowers else collation_order ! p)
      else char_of (p - length collation_order))"


lemma position_nth: "c \<in> set xs \<Longrightarrow> position c xs < length xs \<and> xs ! position c xs = c"
  by (induction xs) auto

lemma position_distinct: "distinct xs \<Longrightarrow> i < length xs \<Longrightarrow> position (xs ! i) xs = i"
  using position_nth [of "xs ! i" xs] nth_eq_iff_index_eq [of xs] by auto

lemma alphabets: "distinct lowers" "length lowers = length uppers" "list_all (\<lambda>c. c \<in> set collation_order) lowers"
  by code_simp+

lemma weight_char_weights: "weight_char (primary_weight c) (case_weight c) = c"
proof (cases "is_upper c")
  case True
  let ?i = "position c uppers"
  have i: "?i < length lowers" "uppers ! ?i = c"
    using True position_nth [of c uppers] alphabets(2) by (simp_all add: is_upper_def)
  then have "lowers ! ?i \<in> set collation_order" using alphabets(3) by (simp add: list_all_length)
  with position_nth [OF this] i True show ?thesis
    by (simp add: weight_char_def primary_weight_def case_weight_def position_distinct [OF alphabets(1)])
next
  case False
  then show ?thesis using position_nth [of c collation_order]
    by (simp add: weight_char_def primary_weight_def case_weight_def char_code_of)
qed

lemma weights_unique:
  "map primary_weight s = map primary_weight t \<Longrightarrow> map case_weight s = map case_weight t \<Longrightarrow> s = t"
proof (induction s arbitrary: t)
  case (Cons c s)
  then show ?case using weight_char_weights by (cases t) (auto, metis)
qed simp

lemma locale_le_antisym: "locale_le s t \<Longrightarrow> locale_le t s \<Longrightarrow> s = t"
proof -
  assume a: "locale_le s t" "locale_le t s"
  then have "map primary_weight s = map primary_weight t"
    using weights_less_asym by (auto simp: locale_le_def Let_def)
  moreover from this a have "map case_weight s = map case_weight t"
    using weights_less_linear [of "map case_weight s" "map case_weight t"] by (auto simp: locale_le_def Let_def)
  ultimately show ?thesis by (rule weights_unique)
qed

section \<open>Sorted entries\<close>

abbreviation entry_le :: "string \<times> 'a \<Rightarrow> string \<times> 'a \<Rightarrow> bool" where
  "entry_le l r \<equiv> locale_le (fst l) (fst r)"

lemma sorted_entries: "sorted_wrt entry_le (sort_by entry_le xs)"
  by (rule sorted_wrt_sort_by) (use locale_le_total locale_le_trans in blast)+

lemma map_insert_by:
  "map (\<lambda>e. (fst e, f (snd e))) (insert_by entry_le x xs) =
     insert_by entry_le (fst x, f (snd x)) (map (\<lambda>e. (fst e, f (snd e))) xs)"
  by (induction xs) auto

lemma map_sort_by:
  "map (\<lambda>e. (fst e, f (snd e))) (sort_by entry_le xs) = sort_by entry_le (map (\<lambda>e. (fst e, f (snd e))) xs)"
  by (induction xs) (simp_all add: map_insert_by)

text \<open>The sorted entries of distinct keys depend on the lookup only.\<close>

lemma entries_of_map: "distinct (map fst xs) \<Longrightarrow> xs = map (\<lambda>k. (k, the (map_of xs k))) (map fst xs)"
proof -
  assume "distinct (map fst xs)"
  then have "(fst e, the (map_of xs (fst e))) = e" if "e \<in> set xs" for e
    using that by (cases e) (simp add: map_of_is_SomeI)
  then show ?thesis by (simp add: map_idI)
qed

lemma sorted_entries_eq:
  assumes "sorted_wrt entry_le xs" "sorted_wrt entry_le ys" "distinct (map fst xs)" "distinct (map fst ys)"
    and "map_of xs = map_of ys"
  shows "xs = ys"
proof -
  have keys: "set (map fst xs) = set (map fst ys)"
    using assms(5) by (metis dom_map_of_conv_image_fst set_map)
  have "map fst xs = map fst ys"
    by (rule sorted_wrt_unique [of locale_le, OF locale_le_antisym _ _ assms(3,4) keys])
      (use assms(1,2) in \<open>simp_all add: sorted_wrt_map\<close>)
  then show ?thesis using entries_of_map [OF assms(3)] entries_of_map [OF assms(4)] assms(5) by metis
qed

section \<open>Canonical values\<close>

theorem canonicalValue_idem [simp]: "canonicalValue (canonicalValue v) = canonicalValue v"
proof (induction v rule: json_induct)
  case (Obj kvs)
  let ?c = "\<lambda>e :: string \<times> json. (fst e, canonicalValue (snd e))"
  have "map ?c (map ?c kvs) = map ?c kvs" using Obj by simp
  then have "map ?c (sort_by entry_le (map ?c kvs)) = sort_by entry_le (map ?c kvs)"
    by (simp only: map_sort_by)
  then show ?case by (simp add: canonicalValue_JObj sort_by_id [OF sorted_entries])
qed auto

lemma canonicalJson_canonicalValue [simp]: "canonicalJson (canonicalValue v) = canonicalJson v"
  by (simp add: canonicalJson_def)

lemma canonicalJson_iff:
  "storable v \<Longrightarrow> storable w \<Longrightarrow> canonicalJson v = canonicalJson w \<longleftrightarrow> canonicalValue v = canonicalValue w"
  using canonicalJson_eq by (auto simp: canonicalJson_def)

lemma canonicalValue_records:
  assumes "storable (JObj kvs)" "storable (JObj kvs')"
    and "\<And>k. map_option canonicalValue (map_of kvs k) = map_option canonicalValue (map_of kvs' k)"
  shows "canonicalValue (JObj kvs) = canonicalValue (JObj kvs')"
proof -
  let ?c = "\<lambda>e :: string \<times> json. (fst e, canonicalValue (snd e))"
  have dist: "distinct (map fst (map ?c kvs))" "distinct (map fst (map ?c kvs'))"
    using assms(1,2) by (simp_all add: storable_JObj comp_def)
  have look: "map_of (map ?c xs) k = map_option canonicalValue (map_of xs k)" for xs k
    by (induction xs) auto
  have "sort_by entry_le (map ?c kvs) = sort_by entry_le (map ?c kvs')"
    by (rule sorted_entries_eq [OF sorted_entries sorted_entries])
      (use dist assms(3) in \<open>auto simp: distinct_sort_by map_of_sort_by look simp del: map_map\<close>)
  then show ?thesis by (simp add: canonicalValue_JObj)
qed


lemma storable_lookup: "storable (JObj kvs) \<Longrightarrow> map_of kvs k = Some v \<Longrightarrow> storable v"
  by (auto simp: storable_JObj dest: map_of_SomeD)

text \<open>An object with exactly the given keys, each with a storable value, can be stored.\<close>

lemma exact_keys_storable:
  assumes "exact_keys v ks" "distinct ks" "\<And>k. k \<in> set ks \<Longrightarrow> \<exists>w. field v k = Some w \<and> storable w"
  shows "storable v"
proof (cases v)
  case (JObj kvs)
  have "storable w" if "(k, w) \<in> set kvs" for k w
  proof -
    have "k \<in> set ks" using that exact_keys_set [OF assms(1,2)] JObj by force
    moreover have "field v k = Some w" using that assms(1) JObj by (simp add: exact_keys_def)
    ultimately show ?thesis using assms(3) by force
  qed
  then show ?thesis using JObj assms(1) by (auto simp: storable_JObj exact_keys_def)
qed (use assms(1) in \<open>simp_all add: exact_keys_def\<close>)

text \<open>
  The canonical text of an object says exactly what the object holds: two storable objects have
  the same text precisely when they have the same keys with canonically equal values, whatever the
  order of their entries; the text parses back, and the parsed object has the same text again.
\<close>

theorem canonical_form:
  assumes "storable (JObj kvs)" "storable (JObj kvs')"
  shows "(canonicalJson (JObj kvs) = canonicalJson (JObj kvs')
      \<longleftrightarrow> (\<forall>k. map_option canonicalJson (map_of kvs k) = map_option canonicalJson (map_of kvs' k)))
    \<and> (\<exists>v. json_parse (canonicalJson (JObj kvs)) = Some v \<and> canonicalJson v = canonicalJson (JObj kvs)
         \<and> (\<forall>k. map_option canonicalJson (field v k) = map_option canonicalJson (map_of kvs k)))"
proof -
  have same: "map_option canonicalJson (map_of kvs k) = map_option canonicalJson (map_of kvs' k)
      \<longleftrightarrow> map_option canonicalValue (map_of kvs k) = map_option canonicalValue (map_of kvs' k)" for k
    using canonicalJson_iff storable_lookup [OF assms(1)] storable_lookup [OF assms(2)]
    by (cases "map_of kvs k"; cases "map_of kvs' k") auto
  have "canonicalJson (JObj kvs) = canonicalJson (JObj kvs')
      \<longleftrightarrow> (\<forall>k. map_option canonicalValue (map_of kvs k) = map_option canonicalValue (map_of kvs' k))"
    using canonicalValue_records [OF assms] field_canonicalValue [OF assms(1)] field_canonicalValue [OF assms(2)]
    unfolding canonicalJson_iff [OF assms] field.simps by metis
  moreover have "map_option canonicalJson (field (canonicalValue (JObj kvs)) k) = map_option canonicalJson (map_of kvs k)" for k
    by (simp add: field_canonicalValue [OF assms(1)] option.map_comp comp_def)
  ultimately show ?thesis using json_parse_canonicalJson [OF assms(1)] by (simp add: same)
qed

theorem canonical_form_witness:
  "canonicalJson (JObj [(''b'', JNull), (''a'', JStr ''x'')]) = canonicalJson (JObj [(''a'', JStr ''x''), (''b'', JNull)])"
  using canonical_form [of "[(''b'', JNull), (''a'', JStr ''x'')]" "[(''a'', JStr ''x''), (''b'', JNull)]"]
  by simp

end
