(* ===== verification/Authoring_Policy.thy ===== *)
theory Authoring_Policy imports Js_Canonical Js_Sql begin

text \<open>
  \<open>src/src/domain/authoring-claim-policy.ts\<close>: claims on a semantic scope with a declared write set
  and a lease, the requests to mutate under a claim, the permits that a begun mutation carries, and
  their validation. The regular expression of \<open>fenceRevision\<close> is tested on the string its type
  declares.
\<close>

section \<open>Data\<close>

record claim =
  cl_claimId :: string
  cl_actorId :: string
  cl_deviceId :: string
  cl_sessionId :: string
  cl_worktree :: string
  cl_branch :: string
  cl_semanticScope :: string
  cl_declaredWriteSet :: "string list"
  cl_leaseEpoch :: int
  cl_leaseExpiresAtMs :: int
  cl_fenceRevision :: string

record mutation_request =
  mr_semanticScope :: string
  mr_claimId :: string
  mr_leaseEpoch :: int
  mr_fenceRevision :: string
  mr_requiredWriteTarget :: string

record mutation_permit =
  pm_mutationId :: string
  pm_operationId :: string
  pm_requestDigest :: string
  pm_mutationSequence :: int
  pm_semanticScope :: string
  pm_claimId :: string
  pm_leaseEpoch :: int
  pm_leaseExpiresAtMs :: int
  pm_fenceRevision :: string
  pm_requiredWriteTarget :: string
  pm_reservedAtMs :: int

record claim_binding =
  cb_semanticScope :: string
  cb_writeTarget :: string

text \<open>The codes of the claim coordinator and of the fence in front of a fenced object.\<close>

datatype refusal_code =
    Scope_held | Lease_expired | Write_set_overlap | Mutation_out_of_write_set | Fence_stale
  | Claim_malformed | Mutation_reconciliation_required | Mutation_request_mismatch

text \<open>
  The answer to a claim or to the start of a mutation. A refusal names the claim, epoch and revision
  that hold the scope, or none.
\<close>

datatype 'a admission =
    Admitted (admitted: 'a)
  | Claim_refused (refused_code: refusal_code) (refused_holding: "(string \<times> int \<times> string) option")

type_synonym claim_admission = "claim admission"
type_synonym mutation_reservation = "mutation_permit admission"

definition claimRefusal :: "refusal_code \<Rightarrow> claim option \<Rightarrow> 'a admission" where
  "claimRefusal code holding =
     Claim_refused code (map_option (\<lambda>c. (cl_claimId c, cl_leaseEpoch c, cl_fenceRevision c)) holding)"

definition claimAccepted :: "claim \<Rightarrow> claim_admission" where
  "claimAccepted claim = Admitted claim"

definition CLAIM_FIELDS :: "string list" where
  "CLAIM_FIELDS = [''claimId'', ''actorId'', ''deviceId'', ''sessionId'', ''worktree'', ''branch'',
     ''semanticScope'', ''declaredWriteSet'', ''leaseEpoch'', ''leaseExpiresAtMs'', ''fenceRevision'']"

definition MUTATION_REQUEST_FIELDS :: "string list" where
  "MUTATION_REQUEST_FIELDS = [''semanticScope'', ''claimId'', ''leaseEpoch'', ''fenceRevision'', ''requiredWriteTarget'']"

definition MUTATION_PERMIT_SCHEMA :: string where
  "MUTATION_PERMIT_SCHEMA = ''agentic-graph-authoring-mutation-permit/v2''"

definition MUTATION_PERMIT_FIELDS :: "string list" where
  "MUTATION_PERMIT_FIELDS = [''schema'', ''mutationId'', ''operationId'', ''requestDigest'', ''mutationSequence'',
     ''semanticScope'', ''claimId'', ''leaseEpoch'', ''leaseExpiresAtMs'', ''fenceRevision'',
     ''requiredWriteTarget'', ''reservedAtMs'']"

definition MUTATION_OPERATION_SCHEMA :: string where
  "MUTATION_OPERATION_SCHEMA = ''agentic-graph-authoring-operation/v1''"

abbreviation authoring_id :: "string \<Rightarrow> bool" where
  "authoring_id \<equiv> path_pattern 255"

abbreviation text_within :: "nat \<Rightarrow> string \<Rightarrow> bool" where
  "text_within n s \<equiv> s \<noteq> [] \<and> length s \<le> n"

section \<open>Write targets\<close>

definition AGENT_REGISTRY_CLAIM :: claim_binding where
  "AGENT_REGISTRY_CLAIM = \<lparr>cb_semanticScope = ''operator-registry'', cb_writeTarget = ''registry''\<rparr>"

definition merchantThemeClaim :: "string \<Rightarrow> claim_binding" where
  "merchantThemeClaim merchantId =
     (let target = ''merchant-theme:'' @ merchantId in \<lparr>cb_semanticScope = target, cb_writeTarget = target\<rparr>)"

definition vendorTransitionClaim :: "string \<Rightarrow> claim_binding" where
  "vendorTransitionClaim vendorId =
     (let target = ''vendor:'' @ vendorId in \<lparr>cb_semanticScope = target, cb_writeTarget = target\<rparr>)"

definition writeSetsOverlap :: "string list \<Rightarrow> string list \<Rightarrow> bool" where
  "writeSetsOverlap left right = list_ex (\<lambda>entry. entry \<in> set right) left"

lemma writeSetsOverlap_iff: "writeSetsOverlap a b \<longleftrightarrow> set a \<inter> set b \<noteq> {}"
  by (auto simp: writeSetsOverlap_def list_ex_iff)

section \<open>Claims\<close>

text \<open>The texts of an array all of whose entries are strings.\<close>

fun strings_of :: "json option \<Rightarrow> string list option" where
  "strings_of (Some (JArr vs)) = those (map (\<lambda>v. as_str (Some v)) vs)"
| "strings_of _ = None"

definition validClaim :: "json \<Rightarrow> int \<Rightarrow> bool" where
  "validClaim v nowMs =
     (exact_keys v CLAIM_FIELDS
      \<and> list_all (\<lambda>k. is_str (field v k) authoring_id) [''claimId'', ''actorId'', ''deviceId'', ''sessionId'', ''semanticScope'']
      \<and> is_str (field v ''worktree'') (text_within 1024)
      \<and> is_str (field v ''branch'') (text_within 512)
      \<and> (case strings_of (field v ''declaredWriteSet'') of
           None \<Rightarrow> False
         | Some entries \<Rightarrow> entries \<noteq> [] \<and> length entries \<le> 1000 \<and> list_all (text_within 512) entries
             \<and> card (set entries) = length entries)
      \<and> is_num (field v ''leaseEpoch'') (safe_ge 1)
      \<and> is_num (field v ''leaseExpiresAtMs'') isSafeInteger
      \<and> int_of v ''leaseExpiresAtMs'' > nowMs
      \<and> is_str (field v ''fenceRevision'') authoring_id)"

text \<open>The claim that a validated value is.\<close>

definition claim_of :: "json \<Rightarrow> claim" where
  "claim_of v = \<lparr>
     cl_claimId = text_of v ''claimId'', cl_actorId = text_of v ''actorId'', cl_deviceId = text_of v ''deviceId'',
     cl_sessionId = text_of v ''sessionId'', cl_worktree = text_of v ''worktree'', cl_branch = text_of v ''branch'',
     cl_semanticScope = text_of v ''semanticScope'',
     cl_declaredWriteSet = (case strings_of (field v ''declaredWriteSet'') of Some es \<Rightarrow> es | None \<Rightarrow> []),
     cl_leaseEpoch = int_of v ''leaseEpoch'', cl_leaseExpiresAtMs = int_of v ''leaseExpiresAtMs'',
     cl_fenceRevision = text_of v ''fenceRevision''\<rparr>"

definition sameClaim :: "json \<Rightarrow> json \<Rightarrow> bool" where
  "sameClaim left right = (canonicalJson left = canonicalJson right)"

definition claimWouldBeAdmitted :: "json \<Rightarrow> json list \<Rightarrow> int \<Rightarrow> claim_admission" where
  "claimWouldBeAdmitted v active nowMs =
     (let claim = claim_of v;
          live = filter (\<lambda>h. cl_leaseExpiresAtMs (claim_of h) > nowMs) active
      in if \<not> validClaim v nowMs then claimRefusal Claim_malformed None
         else case List.find (\<lambda>h. cl_semanticScope (claim_of h) = cl_semanticScope claim) live of
             Some held \<Rightarrow> if sameClaim held v then claimAccepted claim else claimRefusal Scope_held (Some (claim_of held))
           | None \<Rightarrow>
               (case List.find (\<lambda>h. writeSetsOverlap (cl_declaredWriteSet (claim_of h)) (cl_declaredWriteSet claim)) live of
                  Some held \<Rightarrow> claimRefusal Write_set_overlap (Some (claim_of held))
                | None \<Rightarrow> claimAccepted claim))"

section \<open>Requests and permits\<close>

definition readClaimMutationRequest :: "json \<Rightarrow> mutation_request option" where
  "readClaimMutationRequest v =
     (if exact_keys v MUTATION_REQUEST_FIELDS
         \<and> is_str (field v ''semanticScope'') authoring_id
         \<and> is_str (field v ''claimId'') authoring_id
         \<and> is_num (field v ''leaseEpoch'') (safe_ge 1)
         \<and> is_str (field v ''fenceRevision'') authoring_id
         \<and> is_str (field v ''requiredWriteTarget'') (text_within 512)
      then Some \<lparr>mr_semanticScope = text_of v ''semanticScope'', mr_claimId = text_of v ''claimId'',
             mr_leaseEpoch = int_of v ''leaseEpoch'', mr_fenceRevision = text_of v ''fenceRevision'',
             mr_requiredWriteTarget = text_of v ''requiredWriteTarget''\<rparr>
      else None)"

definition mutation_id :: "int \<Rightarrow> int \<Rightarrow> string \<Rightarrow> string" where
  "mutation_id epoch seqno digest =
     ''mutation:'' @ int_text epoch @ '':'' @ int_text seqno @ '':'' @ take 32 digest"

definition authoringMutationOperationId :: "string \<Rightarrow> string option" where
  "authoringMutationOperationId requestDigest =
     (if sha256_pattern requestDigest then Some (''operation:'' @ requestDigest) else None)"

definition claimMutationPermit ::
  "claim \<Rightarrow> mutation_request \<Rightarrow> string \<Rightarrow> string \<Rightarrow> int \<Rightarrow> int \<Rightarrow> mutation_permit option" where
  "claimMutationPermit claim request operationId requestDigest mutationSequence reservedAtMs =
     (let mutationId = mutation_id (cl_leaseEpoch claim) mutationSequence requestDigest
      in if authoring_id mutationId \<and> authoring_id operationId \<and> sha256_pattern requestDigest
            \<and> safe_ge 1 (Integer mutationSequence) \<and> safe_ge 0 (Integer reservedAtMs)
            \<and> cl_semanticScope claim = mr_semanticScope request
            \<and> cl_claimId claim = mr_claimId request
            \<and> cl_leaseEpoch claim = mr_leaseEpoch request
            \<and> cl_fenceRevision claim = mr_fenceRevision request
         then Some \<lparr>pm_mutationId = mutationId, pm_operationId = operationId, pm_requestDigest = requestDigest,
                pm_mutationSequence = mutationSequence, pm_semanticScope = mr_semanticScope request,
                pm_claimId = mr_claimId request, pm_leaseEpoch = mr_leaseEpoch request,
                pm_leaseExpiresAtMs = cl_leaseExpiresAtMs claim, pm_fenceRevision = mr_fenceRevision request,
                pm_requiredWriteTarget = mr_requiredWriteTarget request, pm_reservedAtMs = reservedAtMs\<rparr>
         else None)"

definition permit_json :: "mutation_permit \<Rightarrow> json" where
  "permit_json p = JObj [
     (''schema'', JStr MUTATION_PERMIT_SCHEMA), (''mutationId'', JStr (pm_mutationId p)),
     (''operationId'', JStr (pm_operationId p)), (''requestDigest'', JStr (pm_requestDigest p)),
     (''mutationSequence'', JNum (Integer (pm_mutationSequence p))), (''semanticScope'', JStr (pm_semanticScope p)),
     (''claimId'', JStr (pm_claimId p)), (''leaseEpoch'', JNum (Integer (pm_leaseEpoch p))),
     (''leaseExpiresAtMs'', JNum (Integer (pm_leaseExpiresAtMs p))), (''fenceRevision'', JStr (pm_fenceRevision p)),
     (''requiredWriteTarget'', JStr (pm_requiredWriteTarget p)), (''reservedAtMs'', JNum (Integer (pm_reservedAtMs p)))]"

definition permit_of :: "json \<Rightarrow> mutation_permit" where
  "permit_of v = \<lparr>
     pm_mutationId = text_of v ''mutationId'', pm_operationId = text_of v ''operationId'',
     pm_requestDigest = text_of v ''requestDigest'', pm_mutationSequence = int_of v ''mutationSequence'',
     pm_semanticScope = text_of v ''semanticScope'', pm_claimId = text_of v ''claimId'',
     pm_leaseEpoch = int_of v ''leaseEpoch'', pm_leaseExpiresAtMs = int_of v ''leaseExpiresAtMs'',
     pm_fenceRevision = text_of v ''fenceRevision'', pm_requiredWriteTarget = text_of v ''requiredWriteTarget'',
     pm_reservedAtMs = int_of v ''reservedAtMs''\<rparr>"

definition permit_shape :: "json \<Rightarrow> bool" where
  "permit_shape v =
     (exact_keys v MUTATION_PERMIT_FIELDS
      \<and> field v ''schema'' = Some (JStr MUTATION_PERMIT_SCHEMA)
      \<and> is_str (field v ''mutationId'') authoring_id
      \<and> is_str (field v ''operationId'') authoring_id
      \<and> is_str (field v ''requestDigest'') sha256_pattern
      \<and> is_num (field v ''mutationSequence'') (safe_ge 1)
      \<and> is_str (field v ''semanticScope'') authoring_id
      \<and> is_str (field v ''claimId'') authoring_id
      \<and> is_num (field v ''leaseEpoch'') (safe_ge 1)
      \<and> is_num (field v ''leaseExpiresAtMs'') (safe_ge 1)
      \<and> is_str (field v ''fenceRevision'') authoring_id
      \<and> is_str (field v ''requiredWriteTarget'') (text_within 512)
      \<and> is_num (field v ''reservedAtMs'') (safe_ge 0)
      \<and> int_of v ''reservedAtMs'' < int_of v ''leaseExpiresAtMs'')"

definition readClaimMutationPermit :: "json \<Rightarrow> mutation_permit option" where
  "readClaimMutationPermit v =
     (let p = permit_of v
      in if permit_shape v
            \<and> authoringMutationOperationId (pm_requestDigest p) = Some (pm_operationId p)
            \<and> pm_mutationId p = mutation_id (pm_leaseEpoch p) (pm_mutationSequence p) (pm_requestDigest p)
         then Some p else None)"

definition authoringMutationRequestDigest :: "claim_binding \<Rightarrow> json \<Rightarrow> string" where
  "authoringMutationRequestDigest expected payload = sha256Hex (canonicalJson (JObj [
     (''schema'', JStr MUTATION_OPERATION_SCHEMA),
     (''semanticScope'', JStr (cb_semanticScope expected)),
     (''writeTarget'', JStr (cb_writeTarget expected)),
     (''payload'', payload)]))"


section \<open>Facts about claims\<close>

lemma strings_of_Some: "strings_of v = Some es \<longleftrightarrow> v = Some (JArr (map JStr es))"
proof -
  have "those (map (\<lambda>v. as_str (Some v)) vs) = Some es \<longleftrightarrow> vs = map JStr es" for vs es
  proof (induction vs arbitrary: es)
    case (Cons v vs)
    then show ?case by (cases es) (auto split: option.splits)
  qed auto
  then show ?thesis by (cases v rule: strings_of.cases) auto
qed

declare strings_of.simps [simp del]

lemma strings_of_JStr [simp]: "strings_of (Some (JArr (map JStr es))) = Some es"
  by (simp add: strings_of_Some)

lemma sameClaim_fields:
  assumes "storable l" "storable r" "sameClaim l r"
  shows "map_option canonicalValue (field l k) = map_option canonicalValue (field r k)"
  using canonicalJson_field [OF assms(1,2)] assms(3) by (simp add: sameClaim_def)

lemma sameClaim_refl [simp]: "sameClaim v v"
  by (simp add: sameClaim_def)

definition claim_ok :: "claim \<Rightarrow> bool" where
  "claim_ok c =
     (list_all authoring_id [cl_claimId c, cl_actorId c, cl_deviceId c, cl_sessionId c, cl_semanticScope c, cl_fenceRevision c]
      \<and> cl_declaredWriteSet c \<noteq> [] \<and> distinct (cl_declaredWriteSet c) \<and> list_all (text_within 512) (cl_declaredWriteSet c)
      \<and> 1 \<le> cl_leaseEpoch c \<and> cl_leaseEpoch c \<le> max_safe \<and> \<bar>cl_leaseExpiresAtMs c\<bar> \<le> max_safe)"

lemma CLAIM_FIELDS_distinct: "distinct CLAIM_FIELDS"
  by (simp add: CLAIM_FIELDS_def)

text \<open>The value of every field of a valid claim.\<close>

lemma validClaim_fields:
  assumes "validClaim v now"
  shows "field v ''claimId'' = Some (JStr (cl_claimId (claim_of v)))"
    "field v ''actorId'' = Some (JStr (cl_actorId (claim_of v)))"
    "field v ''deviceId'' = Some (JStr (cl_deviceId (claim_of v)))"
    "field v ''sessionId'' = Some (JStr (cl_sessionId (claim_of v)))"
    "field v ''worktree'' = Some (JStr (cl_worktree (claim_of v)))"
    "field v ''branch'' = Some (JStr (cl_branch (claim_of v)))"
    "field v ''semanticScope'' = Some (JStr (cl_semanticScope (claim_of v)))"
    "field v ''declaredWriteSet'' = Some (JArr (map JStr (cl_declaredWriteSet (claim_of v))))"
    "field v ''leaseEpoch'' = Some (JNum (Integer (cl_leaseEpoch (claim_of v))))"
    "field v ''leaseExpiresAtMs'' = Some (JNum (Integer (cl_leaseExpiresAtMs (claim_of v))))"
    "field v ''fenceRevision'' = Some (JStr (cl_fenceRevision (claim_of v)))"
  using assms
  by (auto simp: validClaim_def claim_of_def strings_of_Some isSafeInteger_Int text_of_def int_of_def
      split: option.splits elim!: is_strE is_numE safe_geE)

lemma validClaim_ok:
  assumes "validClaim v now"
  shows "claim_ok (claim_of v)" "now < cl_leaseExpiresAtMs (claim_of v)"
  using assms unfolding validClaim_def int_of_def
  by (auto simp: validClaim_fields [OF assms] claim_ok_def card_distinct)

lemma validClaim_storable:
  assumes "validClaim v now"
  shows "storable v"
proof (rule exact_keys_storable [OF _ CLAIM_FIELDS_distinct])
  show "exact_keys v CLAIM_FIELDS" using assms by (simp add: validClaim_def)
  show "\<exists>w. field v k = Some w \<and> storable w" if "k \<in> set CLAIM_FIELDS" for k
    using that validClaim_fields [OF assms] by (auto simp: CLAIM_FIELDS_def storable_JArr)
qed

text \<open>A claim reads back from its canonical text.\<close>

lemma claim_of_canonical:
  assumes "validClaim v now"
  shows "claim_of (parse_column (canonicalJson v)) = claim_of v"
proof -
  note f = validClaim_fields [OF assms] and st = validClaim_storable [OF assms]
  have same: "field (canonicalValue v) k = field v k" if "k \<in> set CLAIM_FIELDS" for k
    using that f by (auto simp: CLAIM_FIELDS_def field_canonicalValue [OF st])
  show ?thesis
    using same by (simp add: parse_column_canonicalJson [OF st] claim_of_def text_of_def int_of_def CLAIM_FIELDS_def)
qed

lemma sameClaim_eq:
  assumes "validClaim v now" "validClaim w now'" "sameClaim (parse_column (canonicalJson v)) w"
  shows "claim_of v = claim_of w"
proof -
  note f = validClaim_fields [OF assms(1)] validClaim_fields [OF assms(2)]
  note st = validClaim_storable [OF assms(1)] validClaim_storable [OF assms(2)]
  have "sameClaim v w" using assms(3) by (simp add: sameClaim_def parse_column_canonicalJson [OF st(1)])
  note same = sameClaim_fields [OF st this]
  have inj: "map JStr xs = map JStr ys \<longleftrightarrow> xs = ys" for xs ys
    by (rule inj_map_eq_map) (simp add: inj_def)
  show ?thesis
    by (rule claim.equality)
      (use same [of "''claimId''"] same [of "''actorId''"] same [of "''deviceId''"] same [of "''sessionId''"]
        same [of "''worktree''"] same [of "''branch''"] same [of "''semanticScope''"] same [of "''declaredWriteSet''"]
        same [of "''leaseEpoch''"] same [of "''leaseExpiresAtMs''"] same [of "''fenceRevision''"]
        in \<open>simp_all add: f inj comp_def\<close>)
qed

section \<open>Facts about permits\<close>

definition permit_ok :: "mutation_permit \<Rightarrow> bool" where
  "permit_ok p =
     (sha256_pattern (pm_requestDigest p) \<and> 1 \<le> pm_mutationSequence p \<and> pm_mutationSequence p \<le> max_safe
      \<and> pm_operationId p = ''operation:'' @ pm_requestDigest p
      \<and> pm_mutationId p = mutation_id (pm_leaseEpoch p) (pm_mutationSequence p) (pm_requestDigest p)
      \<and> authoring_id (pm_mutationId p) \<and> authoring_id (pm_operationId p)
      \<and> authoring_id (pm_semanticScope p) \<and> authoring_id (pm_claimId p) \<and> authoring_id (pm_fenceRevision p)
      \<and> 1 \<le> pm_leaseEpoch p \<and> pm_leaseEpoch p \<le> max_safe \<and> pm_leaseExpiresAtMs p \<le> max_safe
      \<and> text_within 512 (pm_requiredWriteTarget p)
      \<and> 0 \<le> pm_reservedAtMs p \<and> pm_reservedAtMs p < pm_leaseExpiresAtMs p)"

lemma storable_permit_json [simp]: "storable (permit_json p)"
  by (simp add: permit_json_def storable_JObj)

lemma permit_json_exact [simp]: "exact_keys (permit_json p) MUTATION_PERMIT_FIELDS"
  by (simp add: exact_keys_def permit_json_def MUTATION_PERMIT_FIELDS_def)

lemma exact_keys_canonical: "storable v \<Longrightarrow> exact_keys (canonicalValue v) ks = exact_keys v ks"
  using distinct_keys_storable distinct_keys_canonicalValue
  by (cases v) (auto simp: exact_keys_def canonicalValue_JObj list_all_iff storable_JObj comp_def distinct_sort_by)

lemma permit_of_json [simp]: "permit_of (permit_json p) = p"
  by (simp add: permit_of_def permit_json_def text_of_def int_of_def)

lemma permit_fields_canonical:
  "field (canonicalValue (permit_json p)) k = field (permit_json p) k"
  by (simp add: field_canonicalValue) (simp add: permit_json_def)

lemma permit_json_fields:
  "field (permit_json p) ''schema'' = Some (JStr MUTATION_PERMIT_SCHEMA)"
  "field (permit_json p) ''mutationId'' = Some (JStr (pm_mutationId p))"
  "field (permit_json p) ''operationId'' = Some (JStr (pm_operationId p))"
  "field (permit_json p) ''requestDigest'' = Some (JStr (pm_requestDigest p))"
  "field (permit_json p) ''mutationSequence'' = Some (JNum (Integer (pm_mutationSequence p)))"
  "field (permit_json p) ''semanticScope'' = Some (JStr (pm_semanticScope p))"
  "field (permit_json p) ''claimId'' = Some (JStr (pm_claimId p))"
  "field (permit_json p) ''leaseEpoch'' = Some (JNum (Integer (pm_leaseEpoch p)))"
  "field (permit_json p) ''leaseExpiresAtMs'' = Some (JNum (Integer (pm_leaseExpiresAtMs p)))"
  "field (permit_json p) ''fenceRevision'' = Some (JStr (pm_fenceRevision p))"
  "field (permit_json p) ''requiredWriteTarget'' = Some (JStr (pm_requiredWriteTarget p))"
  "field (permit_json p) ''reservedAtMs'' = Some (JNum (Integer (pm_reservedAtMs p)))"
  by (simp_all add: permit_json_def)

lemma permit_shape_json: "permit_shape (permit_json p) \<longleftrightarrow>
    authoring_id (pm_mutationId p) \<and> authoring_id (pm_operationId p) \<and> sha256_pattern (pm_requestDigest p)
    \<and> 1 \<le> pm_mutationSequence p \<and> pm_mutationSequence p \<le> max_safe
    \<and> authoring_id (pm_semanticScope p) \<and> authoring_id (pm_claimId p)
    \<and> 1 \<le> pm_leaseEpoch p \<and> pm_leaseEpoch p \<le> max_safe
    \<and> 1 \<le> pm_leaseExpiresAtMs p \<and> pm_leaseExpiresAtMs p \<le> max_safe
    \<and> authoring_id (pm_fenceRevision p) \<and> text_within 512 (pm_requiredWriteTarget p)
    \<and> 0 \<le> pm_reservedAtMs p \<and> pm_reservedAtMs p \<le> max_safe \<and> pm_reservedAtMs p < pm_leaseExpiresAtMs p"
  by (auto simp: permit_shape_def permit_json_fields int_of_def)

lemma read_permit_json: "readClaimMutationPermit (permit_json p) = (if permit_ok p then Some p else None)"
  unfolding readClaimMutationPermit_def Let_def permit_of_json permit_shape_json authoringMutationOperationId_def permit_ok_def
  by auto

lemma readClaimMutationPermit_canonical:
  "readClaimMutationPermit (canonicalValue (permit_json p)) = readClaimMutationPermit (permit_json p)"
proof -
  have "permit_of (canonicalValue (permit_json p)) = permit_of (permit_json p)"
    unfolding permit_of_def text_of_def int_of_def permit_fields_canonical ..
  moreover have "permit_shape (canonicalValue (permit_json p)) = permit_shape (permit_json p)"
    by (simp add: permit_shape_def exact_keys_canonical permit_fields_canonical int_of_def)
  ultimately show ?thesis by (simp add: readClaimMutationPermit_def)
qed

lemma read_stored_permit:
  "permit_ok p \<Longrightarrow> readClaimMutationPermit (parse_column (canonicalJson (permit_json p))) = Some p"
  by (simp add: parse_column_canonicalJson readClaimMutationPermit_canonical read_permit_json)

text \<open>What \<open>readClaimMutationPermit\<close> accepts is a well-formed permit.\<close>

lemma readClaimMutationPermit_ok:
  assumes "readClaimMutationPermit v = Some p"
  shows "permit_ok p"
proof -
  have t: "is_str (field v k) P \<Longrightarrow> P (text_of v k)" for k P
    using text_of_is_str by blast
  have n: "is_num (field v k) (safe_ge lo) \<Longrightarrow> lo \<le> int_of v k \<and> int_of v k \<le> max_safe" for k lo
    using int_of_is_num [of v k lo] by auto
  have "permit_shape v" "p = permit_of v" "authoringMutationOperationId (pm_requestDigest p) = Some (pm_operationId p)"
    "pm_mutationId p = mutation_id (pm_leaseEpoch p) (pm_mutationSequence p) (pm_requestDigest p)"
    using assms by (auto simp: readClaimMutationPermit_def Let_def split: if_splits)
  then show ?thesis
    by (auto simp: permit_shape_def permit_ok_def authoringMutationOperationId_def permit_of_def
        dest!: t n split: if_splits)
qed

lemma permit_text_inj: "canonicalJson (permit_json p) = canonicalJson (permit_json q) \<longleftrightarrow> p = q"
proof
  assume "canonicalJson (permit_json p) = canonicalJson (permit_json q)"
  then have same: "field (permit_json p) k = field (permit_json q) k" for k
    using canonicalJson_eq [of "permit_json p" "permit_json q"] permit_fields_canonical by (metis storable_permit_json)
  have "permit_of (permit_json p) = permit_of (permit_json q)"
    unfolding permit_of_def text_of_def int_of_def same ..
  then show "p = q" by simp
qed simp

end
