(* ===== verification/Authoring_Claim.thy ===== *)
theory Authoring_Claim imports Authoring_Policy begin

text \<open>
  \<open>src/src/core/authoring-claim.ts\<close>: the one object that coordinates all semantic scopes. Its five
  tables are lists of rows; a JSON column is held as its text. The clock reading \<open>nowMs\<close> is an
  argument of every operation.
\<close>

section \<open>State\<close>

record claim_row =
  ac_semantic_scope :: string
  ac_claim_id :: string
  ac_claim_json :: string
  ac_lease_epoch :: int
  ac_lease_expires_at_ms :: int
  ac_fence_revision :: string
  ac_released_at_ms :: "int option"

record reservation_row =
  rv_semantic_scope :: string
  rv_mutation_id :: string
  rv_permit_json :: string

record sequence_row =
  sq_semantic_scope :: string
  sq_last_sequence :: int

record completion_row =
  cm_semantic_scope :: string
  cm_claim_id :: string
  cm_lease_epoch :: int
  cm_operation_id :: string
  cm_permit_json :: string
  cm_completed_at_ms :: int

record reconciliation_row =
  rc_mutation_id :: string
  rc_semantic_scope :: string
  rc_permit_json :: string
  rc_evidence_json :: string
  rc_evidence_digest :: string
  rc_recorded_at :: string

record authoring =
  au_claims :: "claim_row list"
  au_reservations :: "reservation_row list"
  au_sequences :: "sequence_row list"
  au_completions :: "completion_row list"
  au_reconciliations :: "reconciliation_row list"

definition empty_authoring :: authoring where
  "empty_authoring = \<lparr>au_claims = [], au_reservations = [], au_sequences = [], au_completions = [],
     au_reconciliations = []\<rparr>"

section \<open>Reading\<close>

abbreviation by_scope :: "('r \<Rightarrow> string) \<Rightarrow> 'r list \<Rightarrow> 'r list" where
  "by_scope key rows \<equiv> sort_by (\<lambda>l r. compareText (key l) (key r) \<le> 0) rows"

definition row_claim :: "claim_row \<Rightarrow> json" where
  "row_claim r = parse_column (ac_claim_json r)"

definition live_row :: "int \<Rightarrow> claim_row \<Rightarrow> bool" where
  "live_row nowMs r = (ac_released_at_ms r = None \<and> ac_lease_expires_at_ms r > nowMs)"

definition active :: "int \<Rightarrow> authoring \<Rightarrow> json list" where
  "active nowMs s = map row_claim (by_scope ac_semantic_scope (filter (live_row nowMs) (au_claims s)))"

definition readScope :: "string \<Rightarrow> authoring \<Rightarrow> json option" where
  "readScope scope s = map_option row_claim (select_key ac_semantic_scope scope (au_claims s))"

definition row_permit :: "string \<Rightarrow> mutation_permit option" where
  "row_permit text = Option.bind (json_parse text) readClaimMutationPermit"

definition readReservation :: "string \<Rightarrow> authoring \<Rightarrow> mutation_permit option" where
  "readReservation scope s =
     Option.bind (select_key rv_semantic_scope scope (au_reservations s)) (row_permit \<circ> rv_permit_json)"

definition hasReservation :: "string \<Rightarrow> authoring \<Rightarrow> bool" where
  "hasReservation scope s = has_key rv_semantic_scope scope (au_reservations s)"

definition readReconciliation :: "string \<Rightarrow> authoring \<Rightarrow> reconciliation_row option" where
  "readReconciliation mutationId s = select_key rc_mutation_id mutationId (au_reconciliations s)"

definition completion_key :: "completion_row \<Rightarrow> string \<times> string \<times> int \<times> string" where
  "completion_key r = (cm_semantic_scope r, cm_claim_id r, cm_lease_epoch r, cm_operation_id r)"

definition readCompletion :: "string \<times> string \<times> int \<times> string \<Rightarrow> authoring \<Rightarrow> mutation_permit option" where
  "readCompletion key s = Option.bind (select_key completion_key key (au_completions s)) (row_permit \<circ> cm_permit_json)"

definition permit_key :: "mutation_permit \<Rightarrow> string \<times> string \<times> int \<times> string" where
  "permit_key p = (pm_semanticScope p, pm_claimId p, pm_leaseEpoch p, pm_operationId p)"

definition reservedClaims :: "authoring \<Rightarrow> json list" where
  "reservedClaims s = List.map_filter (\<lambda>r. readScope (rv_semantic_scope r) s) (by_scope rv_semantic_scope (au_reservations s))"

section \<open>Acquiring a claim\<close>

definition claim_row_of :: "json \<Rightarrow> claim_row" where
  "claim_row_of v = (let claim = claim_of v in \<lparr>
     ac_semantic_scope = cl_semanticScope claim, ac_claim_id = cl_claimId claim, ac_claim_json = canonicalJson v,
     ac_lease_epoch = cl_leaseEpoch claim, ac_lease_expires_at_ms = cl_leaseExpiresAtMs claim,
     ac_fence_revision = cl_fenceRevision claim, ac_released_at_ms = None\<rparr>)"

text \<open>The upsert throws when the claim id is taken by another scope.\<close>

definition store_claim :: "json \<Rightarrow> authoring \<Rightarrow> js_exn + authoring" where
  "store_claim v s =
     (let row = claim_row_of v
      in if list_ex (\<lambda>r. ac_semantic_scope r \<noteq> ac_semantic_scope row \<and> ac_claim_id r = ac_claim_id row) (au_claims s)
         then Inl Constraint_violation
         else Inr (s\<lparr>au_claims := upsert ac_semantic_scope row (au_claims s)\<rparr>))"

abbreviation overlapping :: "claim \<Rightarrow> json \<Rightarrow> bool" where
  "overlapping claim held \<equiv> writeSetsOverlap (cl_declaredWriteSet (claim_of held)) (cl_declaredWriteSet claim)"

definition acquire_check :: "json \<Rightarrow> int \<Rightarrow> authoring \<Rightarrow> claim_admission option" where
  "acquire_check v nowMs s =
     (if \<not> validClaim v nowMs then Some (claimRefusal Claim_malformed None)
      else let claim = claim_of v;
               reserved = reservedClaims s;
               same_scope = (\<lambda>held. cl_semanticScope (claim_of held) = cl_semanticScope claim)
      in case List.find (\<lambda>held. same_scope held) reserved of
        Some held \<Rightarrow> if sameClaim held v then None else Some (claimRefusal Scope_held (Some (claim_of held)))
      | None \<Rightarrow> None)"

definition acquire :: "json \<Rightarrow> int \<Rightarrow> authoring \<Rightarrow> (js_exn + claim_admission) \<times> authoring" where
  "acquire v nowMs s =
     (let claim = claim_of v;
          reserved = reservedClaims s
      in case acquire_check v nowMs s of
        Some refused \<Rightarrow> (Inr refused, s)
      | None \<Rightarrow>
      (case List.find (\<lambda>held. cl_claimId (claim_of held) \<noteq> cl_claimId claim \<and> overlapping claim held) reserved of
        Some held \<Rightarrow> (Inr (claimRefusal Write_set_overlap (Some (claim_of held))), s)
      | None \<Rightarrow>
      (case List.find (\<lambda>held. cl_semanticScope (claim_of held) = cl_semanticScope claim) (active nowMs s) of
        Some held \<Rightarrow>
          (Inr (if sameClaim held v then claimAccepted claim else claimRefusal Scope_held (Some (claim_of held))), s)
      | None \<Rightarrow>
      (case List.find (overlapping claim) (active nowMs s) of
        Some held \<Rightarrow> (Inr (claimRefusal Write_set_overlap (Some (claim_of held))), s)
      | None \<Rightarrow>
          let prior = map_option claim_of (readScope (cl_semanticScope claim) s)
          in if (case prior of Some p \<Rightarrow> cl_leaseEpoch claim \<le> cl_leaseEpoch p | None \<Rightarrow> False)
             then (Inr (claimRefusal Fence_stale prior), s)
             else case store_claim v s of
                 Inl e \<Rightarrow> (Inl e, s)
               | Inr s' \<Rightarrow> (Inr (claimAccepted claim), s')))))"

section \<open>Admitting a mutation\<close>

definition mutationAdmission :: "json \<Rightarrow> int \<Rightarrow> authoring \<Rightarrow> claim_admission" where
  "mutationAdmission v nowMs s =
     (case readClaimMutationRequest v of
        None \<Rightarrow> claimRefusal Claim_malformed None
      | Some request \<Rightarrow>
          if \<not> isSafeInteger (Integer nowMs) then claimRefusal Claim_malformed None
          else case map_option claim_of (readScope (mr_semanticScope request) s) of
              None \<Rightarrow> claimRefusal Scope_held None
            | Some claim \<Rightarrow>
                if cl_claimId claim \<noteq> mr_claimId request then claimRefusal Scope_held (Some claim)
                else if cl_leaseExpiresAtMs claim \<le> nowMs then claimRefusal Lease_expired (Some claim)
                else if cl_leaseEpoch claim \<noteq> mr_leaseEpoch request \<or> cl_fenceRevision claim \<noteq> mr_fenceRevision request
                then claimRefusal Fence_stale (Some claim)
                else if mr_requiredWriteTarget request \<notin> set (cl_declaredWriteSet claim)
                then claimRefusal Mutation_out_of_write_set (Some claim)
                else case List.find (\<lambda>c. cl_claimId (claim_of c) \<noteq> cl_claimId claim \<and> overlapping claim c) (active nowMs s) of
                    Some overlap \<Rightarrow> claimRefusal Write_set_overlap (Some (claim_of overlap))
                  | None \<Rightarrow> claimAccepted claim)"

definition admitMutation :: "json \<Rightarrow> int \<Rightarrow> authoring \<Rightarrow> claim_admission" where
  "admitMutation = mutationAdmission"

section \<open>Beginning a mutation\<close>

text \<open>The next sequence number of a scope, and the table that remembers it.\<close>

definition next_mutation :: "string \<Rightarrow> sequence_row list \<Rightarrow> int \<times> sequence_row list" where
  "next_mutation scope t =
     (let t0 = fst (insert_ignore sq_semantic_scope \<lparr>sq_semantic_scope = scope, sq_last_sequence = 0\<rparr> t);
          t1 = fst (update_where (\<lambda>r. sq_semantic_scope r = scope) (\<lambda>r. r\<lparr>sq_last_sequence := sq_last_sequence r + 1\<rparr>) t0)
      in (case select_key sq_semantic_scope scope t1 of Some r \<Rightarrow> sq_last_sequence r | None \<Rightarrow> 0, t1))"

definition reservation_of :: "mutation_permit \<Rightarrow> reservation_row" where
  "reservation_of p = \<lparr>rv_semantic_scope = pm_semanticScope p, rv_mutation_id = pm_mutationId p,
     rv_permit_json = canonicalJson (permit_json p)\<rparr>"

text \<open>The insert of a reservation throws when its scope or mutation id is taken; the transaction is undone.\<close>

definition reserve_mutation ::
  "claim \<Rightarrow> mutation_request \<Rightarrow> string \<Rightarrow> string \<Rightarrow> int \<Rightarrow> authoring \<Rightarrow> (js_exn + mutation_permit option) \<times> authoring" where
  "reserve_mutation claim request operationId requestDigest nowMs s =
     (let (seqno, sequences) = next_mutation (mr_semanticScope request) (au_sequences s);
          s1 = s\<lparr>au_sequences := sequences\<rparr>
      in case claimMutationPermit claim request operationId requestDigest seqno nowMs of
           None \<Rightarrow> (Inr None, s1)
         | Some permit \<Rightarrow>
             if has_key rv_semantic_scope (pm_semanticScope permit) (au_reservations s)
                \<or> has_key rv_mutation_id (pm_mutationId permit) (au_reservations s)
             then (Inl Constraint_violation, s)
             else (Inr (Some permit), s1\<lparr>au_reservations := au_reservations s @ [reservation_of permit]\<rparr>))"

definition same_mutation :: "mutation_permit \<Rightarrow> mutation_request \<Rightarrow> string \<Rightarrow> string \<Rightarrow> bool" where
  "same_mutation p request operationId requestDigest =
     (pm_operationId p = operationId \<and> pm_requestDigest p = requestDigest
      \<and> pm_claimId p = mr_claimId request \<and> pm_leaseEpoch p = mr_leaseEpoch request
      \<and> pm_fenceRevision p = mr_fenceRevision request \<and> pm_requiredWriteTarget p = mr_requiredWriteTarget request)"

definition beginMutation ::
  "json \<Rightarrow> string \<Rightarrow> string \<Rightarrow> int \<Rightarrow> authoring \<Rightarrow> (js_exn + mutation_reservation) \<times> authoring" where
  "beginMutation v operationId requestDigest nowMs s =
     (case readClaimMutationRequest v of
        None \<Rightarrow> (Inr (claimRefusal Claim_malformed None), s)
      | Some request \<Rightarrow>
          let scope = mr_semanticScope request; holder = map_option claim_of (readScope scope s)
          in if \<not> isSafeInteger (Integer nowMs) \<or> authoringMutationOperationId requestDigest \<noteq> Some operationId
             then (Inr (claimRefusal Claim_malformed None), s)
             else case readReservation scope s of
                 Some existing \<Rightarrow>
                   (Inr (if same_mutation existing request operationId requestDigest then Admitted existing
                         else claimRefusal Mutation_reconciliation_required holder), s)
               | None \<Rightarrow>
                   if hasReservation scope s then (Inr (claimRefusal Mutation_reconciliation_required holder), s)
                   else case readCompletion (scope, mr_claimId request, mr_leaseEpoch request, operationId) s of
                       Some completed \<Rightarrow>
                         (Inr (if pm_requestDigest completed = requestDigest
                                  \<and> pm_fenceRevision completed = mr_fenceRevision request
                                  \<and> pm_requiredWriteTarget completed = mr_requiredWriteTarget request
                               then Admitted completed else claimRefusal Claim_malformed holder), s)
                     | None \<Rightarrow>
                         (case mutationAdmission v nowMs s of
                            Claim_refused code holding \<Rightarrow> (Inr (Claim_refused code holding), s)
                          | Admitted _ \<Rightarrow>
                              (case holder of
                                 None \<Rightarrow> (Inr (claimRefusal Scope_held None), s)
                               | Some claim \<Rightarrow>
                                   (let (result, s') = reserve_mutation claim request operationId requestDigest nowMs s
                                    in (case result of
                                          Inl e \<Rightarrow> Inl e
                                        | Inr (Some permit) \<Rightarrow> Inr (Admitted permit)
                                        | Inr None \<Rightarrow> Inr (claimRefusal Claim_malformed (Some claim)), s')))))"

section \<open>Completing a mutation\<close>

definition completion_of :: "mutation_permit \<Rightarrow> int \<Rightarrow> completion_row" where
  "completion_of p nowMs = \<lparr>cm_semantic_scope = pm_semanticScope p, cm_claim_id = pm_claimId p,
     cm_lease_epoch = pm_leaseEpoch p, cm_operation_id = pm_operationId p,
     cm_permit_json = canonicalJson (permit_json p), cm_completed_at_ms = nowMs\<rparr>"

definition same_permit :: "mutation_permit \<Rightarrow> mutation_permit option \<Rightarrow> bool" where
  "same_permit p stored = (case stored of
     None \<Rightarrow> False | Some q \<Rightarrow> canonicalJson (permit_json q) = canonicalJson (permit_json p))"

definition completeMutation :: "json \<Rightarrow> int \<Rightarrow> authoring \<Rightarrow> bool \<times> authoring" where
  "completeMutation v nowMs s =
     (case readClaimMutationPermit v of
        None \<Rightarrow> (False, s)
      | Some permit \<Rightarrow>
          if \<not> safe_ge 0 (Integer nowMs) then (False, s)
          else case readReservation (pm_semanticScope permit) s of
              None \<Rightarrow> (same_permit permit (readCompletion (permit_key permit) s), s)
            | Some existing \<Rightarrow>
                if \<not> same_permit permit (Some existing) then (False, s)
                else
                  let s1 = s\<lparr>au_completions := fst (insert_ignore completion_key (completion_of permit nowMs) (au_completions s))\<rparr>
                  in if \<not> same_permit permit (readCompletion (permit_key permit) s1) then (False, s1)
                     else
                       let (reservations, deleted) = delete_where (\<lambda>r. rv_semantic_scope r = pm_semanticScope permit
                              \<and> rv_mutation_id r = pm_mutationId permit
                              \<and> rv_permit_json r = canonicalJson (permit_json permit)) (au_reservations s1);
                           s2 = s1\<lparr>au_reservations := reservations\<rparr>
                       in if deleted = 1
                          then (True, s2\<lparr>au_reconciliations :=
                                 fst (delete_where (\<lambda>r. rc_mutation_id r = pm_mutationId permit) (au_reconciliations s2))\<rparr>)
                          else (False, s2))"


section \<open>Preserving a reconciliation\<close>

definition validReconciliationEvidence :: "json \<Rightarrow> bool" where
  "validReconciliationEvidence v =
     (isRecord v
      \<and> keys_text v = ''admissionReceipt,boundary,disposition,localOutcome,phase,schema''
      \<and> field v ''schema'' = Some (JStr ''agentic-commerce-acos-registration-reconciliation/v1'')
      \<and> field v ''boundary'' = Some (JStr ''acos-to-commerce-registry'')
      \<and> field v ''disposition'' = Some (JStr ''preserve-required'')
      \<and> coerced (field v ''phase'') \<in> {''commerce-commit-rejected'', ''commerce-commit-unconfirmed'',
           ''reservation-completion-unconfirmed''}
      \<and> (case field v ''admissionReceipt'' of Some w \<Rightarrow> is_object w | None \<Rightarrow> False)
      \<and> (case field v ''localOutcome'' of Some w \<Rightarrow> is_object w | None \<Rightarrow> False))"

datatype preserve_result =
    Preserved (preserved_mutation: string) (preserved_operation: string) (preserved_digest: string) (preserved_at: string)
  | Preserve_refused (preserve_code: string)

definition reconciliationReceipt :: "mutation_permit \<Rightarrow> string \<Rightarrow> string \<Rightarrow> preserve_result" where
  "reconciliationReceipt permit evidenceDigest recordedAt =
     Preserved (pm_mutationId permit) (pm_operationId permit) evidenceDigest recordedAt"

definition preserveMutationReconciliation ::
  "json \<Rightarrow> json \<Rightarrow> int \<Rightarrow> authoring \<Rightarrow> (js_exn + preserve_result) \<times> authoring" where
  "preserveMutationReconciliation v evidence now s =
     (let evidenceJson = canonicalJson evidence; evidenceDigest = sha256Hex evidenceJson
      in case readClaimMutationPermit v of
        None \<Rightarrow> (Inr (Preserve_refused ''mutation_reconciliation_evidence_invalid''), s)
      | Some permit \<Rightarrow>
          if \<not> validReconciliationEvidence evidence \<or> length evidenceJson > 65536
          then (Inr (Preserve_refused ''mutation_reconciliation_evidence_invalid''), s)
          else if \<not> same_permit permit (readReservation (pm_semanticScope permit) s)
          then (Inr (Preserve_refused ''mutation_reconciliation_reservation_mismatch''), s)
          else case readReconciliation (pm_mutationId permit) s of
              Some prior \<Rightarrow>
                (Inr (if rc_permit_json prior = canonicalJson (permit_json permit) \<and> rc_evidence_digest prior = evidenceDigest
                      then reconciliationReceipt permit (rc_evidence_digest prior) (rc_recorded_at prior)
                      else Preserve_refused ''mutation_reconciliation_evidence_mismatch''), s)
            | None \<Rightarrow>
                (case toISOString now of
                   None \<Rightarrow> (Inl Invalid_time, s)
                 | Some recordedAt \<Rightarrow>
                     (Inr (reconciliationReceipt permit evidenceDigest recordedAt),
                      s\<lparr>au_reconciliations := au_reconciliations s @ [\<lparr>rc_mutation_id = pm_mutationId permit,
                           rc_semantic_scope = pm_semanticScope permit, rc_permit_json = canonicalJson (permit_json permit),
                           rc_evidence_json = evidenceJson, rc_evidence_digest = evidenceDigest,
                           rc_recorded_at = recordedAt\<rparr>]\<rparr>)))"

section \<open>Status, release and the current claims\<close>

datatype mutation_status =
    Status_malformed
  | Status_none
  | Status_unreadable
  | Status_pending mutation_permit "reconciliation_row option"

definition mutationStatus :: "string \<Rightarrow> authoring \<Rightarrow> mutation_status" where
  "mutationStatus scope s =
     (if \<not> authoring_id scope then Status_malformed
      else case readReservation scope s of
          Some permit \<Rightarrow> Status_pending permit (readReconciliation (pm_mutationId permit) s)
        | None \<Rightarrow> if hasReservation scope s then Status_unreadable else Status_none)"

definition releasable :: "string \<Rightarrow> string \<Rightarrow> int \<Rightarrow> string \<Rightarrow> int \<Rightarrow> claim_row \<Rightarrow> bool" where
  "releasable scope claimId leaseEpoch fenceRevision nowMs r =
     (ac_semantic_scope r = scope \<and> ac_claim_id r = claimId \<and> ac_lease_epoch r = leaseEpoch
      \<and> ac_fence_revision r = fenceRevision \<and> ac_lease_expires_at_ms r > nowMs \<and> ac_released_at_ms r = None)"

definition release :: "string \<Rightarrow> string \<Rightarrow> jsnum \<Rightarrow> string \<Rightarrow> int \<Rightarrow> authoring \<Rightarrow> bool \<times> authoring" where
  "release scope claimId leaseEpoch fenceRevision nowMs s =
     (if \<not> authoring_id scope \<or> \<not> authoring_id claimId \<or> \<not> safe_ge 1 leaseEpoch \<or> \<not> authoring_id fenceRevision
      then (False, s)
      else if hasReservation scope s then (False, s)
      else let (claims, released) = update_where (releasable scope claimId (the_int leaseEpoch) fenceRevision nowMs)
                  (\<lambda>r. r\<lparr>ac_released_at_ms := Some nowMs\<rparr>) (au_claims s)
           in (released = 1, s\<lparr>au_claims := claims\<rparr>))"

definition current :: "int \<Rightarrow> authoring \<Rightarrow> claim list" where
  "current nowMs s = map claim_of (active nowMs s)"

end
