(* ===== verification/Authoring_Invariants.thy ===== *)
theory Authoring_Invariants imports Authoring_Claim begin

text \<open>
  Histories of the claim coordinator and what every history keeps: the tables hold what the object
  wrote, live claims have disjoint write sets, and a claim with a mutation in flight keeps its scope
  and its write set even after its lease has run out. The clock never goes back along a history.
\<close>

section \<open>Histories\<close>

definition scope_of_request :: "json \<Rightarrow> string" where
  "scope_of_request v = text_of v ''semanticScope''"

text \<open>The claim that the request names has not been released.\<close>

definition unreleased :: "json \<Rightarrow> authoring \<Rightarrow> bool" where
  "unreleased v s = (\<forall>r \<in> set (au_claims s). ac_semantic_scope r = scope_of_request v \<longrightarrow> ac_released_at_ms r = None)"

inductive authoring_run :: "bool \<Rightarrow> int \<Rightarrow> authoring \<Rightarrow> bool" for strict where
  run_start: "authoring_run strict t empty_authoring"
| run_acquire: "authoring_run strict t s \<Longrightarrow> t \<le> now \<Longrightarrow> authoring_run strict now (snd (acquire v now s))"
| run_begin: "authoring_run strict t s \<Longrightarrow> t \<le> now \<Longrightarrow> (strict \<Longrightarrow> unreleased v s) \<Longrightarrow>
    authoring_run strict now (snd (beginMutation v operationId requestDigest now s))"
| run_complete: "authoring_run strict t s \<Longrightarrow> t \<le> now \<Longrightarrow> authoring_run strict now (snd (completeMutation v now s))"
| run_preserve: "authoring_run strict t s \<Longrightarrow> t \<le> now \<Longrightarrow>
    authoring_run strict now (snd (preserveMutationReconciliation v evidence now s))"
| run_release: "authoring_run strict t s \<Longrightarrow> t \<le> now \<Longrightarrow>
    authoring_run strict now (snd (release scope claimId epoch revision now s))"

section \<open>The invariant\<close>

definition held :: "claim_row \<Rightarrow> claim" where
  "held r = claim_of (row_claim r)"

definition claim_row_ok :: "claim_row \<Rightarrow> bool" where
  "claim_row_ok r = (\<exists>v now. validClaim v now \<and> r\<lparr>ac_released_at_ms := None\<rparr> = claim_row_of v)"

text \<open>A permit in flight belongs to the claim that its scope's row holds.\<close>

definition permit_of_row :: "mutation_permit \<Rightarrow> claim_row \<Rightarrow> bool" where
  "permit_of_row p r =
     (ac_semantic_scope r = pm_semanticScope p \<and> cl_claimId (held r) = pm_claimId p
      \<and> cl_leaseEpoch (held r) = pm_leaseEpoch p \<and> cl_fenceRevision (held r) = pm_fenceRevision p
      \<and> cl_leaseExpiresAtMs (held r) = pm_leaseExpiresAtMs p
      \<and> pm_requiredWriteTarget p \<in> set (cl_declaredWriteSet (held r)))"

definition disjoint_rows :: "claim_row \<Rightarrow> claim_row \<Rightarrow> bool" where
  "disjoint_rows r q = (set (cl_declaredWriteSet (held r)) \<inter> set (cl_declaredWriteSet (held q)) = {})"

definition reserved_row :: "authoring \<Rightarrow> claim_row \<Rightarrow> bool" where
  "reserved_row s r = hasReservation (ac_semantic_scope r) s"

definition tables_ok :: "authoring \<Rightarrow> bool" where
  "tables_ok s =
     (distinct (map ac_semantic_scope (au_claims s)) \<and> distinct (map ac_claim_id (au_claims s))
      \<and> distinct (map rv_semantic_scope (au_reservations s)) \<and> distinct (map rv_mutation_id (au_reservations s))
      \<and> distinct (map sq_semantic_scope (au_sequences s)) \<and> distinct (map completion_key (au_completions s))
      \<and> (\<forall>r \<in> set (au_claims s). claim_row_ok r)
      \<and> (\<forall>v \<in> set (au_reservations s). \<exists>p. permit_ok p \<and> v = reservation_of p
           \<and> (\<exists>r \<in> set (au_claims s). permit_of_row p r))
      \<and> (\<forall>c \<in> set (au_completions s). \<exists>p t. permit_ok p \<and> c = completion_of p t))"

text \<open>Write sets at time \<open>t\<close>: live claims are disjoint, and so is every live claim from a reserved one.\<close>

definition writes_ok :: "int \<Rightarrow> authoring \<Rightarrow> bool" where
  "writes_ok t s =
     (\<forall>r \<in> set (au_claims s). \<forall>q \<in> set (au_claims s). ac_semantic_scope r \<noteq> ac_semantic_scope q \<longrightarrow>
        live_row t q \<longrightarrow> live_row t r \<or> reserved_row s r \<longrightarrow> disjoint_rows r q)"

text \<open>
  Reserved claims are disjoint, unless one of them has been released; and in a history that begins no mutation
  under a released claim they are disjoint in any case.
\<close>

definition reserved_disjoint :: "bool \<Rightarrow> authoring \<Rightarrow> bool" where
  "reserved_disjoint strict s =
     (\<forall>r \<in> set (au_claims s). \<forall>q \<in> set (au_claims s). ac_semantic_scope r \<noteq> ac_semantic_scope q \<longrightarrow>
        reserved_row s r \<longrightarrow> reserved_row s q \<longrightarrow>
        strict \<or> ac_released_at_ms r = None \<and> ac_released_at_ms q = None \<longrightarrow> disjoint_rows r q)"

definition authoring_ok :: "bool \<Rightarrow> int \<Rightarrow> authoring \<Rightarrow> bool" where
  "authoring_ok strict t s = (tables_ok s \<and> writes_ok t s \<and> reserved_disjoint strict s)"

section \<open>Rows\<close>

lemma claim_row_ok_fields:
  assumes "claim_row_ok r"
  shows "ac_semantic_scope r = cl_semanticScope (held r)" "ac_claim_id r = cl_claimId (held r)"
    "ac_lease_epoch r = cl_leaseEpoch (held r)" "ac_lease_expires_at_ms r = cl_leaseExpiresAtMs (held r)"
    "ac_fence_revision r = cl_fenceRevision (held r)" "claim_ok (held r)"
proof -
  obtain v now where v: "validClaim v now" "r\<lparr>ac_released_at_ms := None\<rparr> = claim_row_of v"
    using assms by (auto simp: claim_row_ok_def)
  have f: "ac_semantic_scope r = ac_semantic_scope (claim_row_of v)" "ac_claim_id r = ac_claim_id (claim_row_of v)"
    "ac_lease_epoch r = ac_lease_epoch (claim_row_of v)" "ac_claim_json r = ac_claim_json (claim_row_of v)"
    "ac_lease_expires_at_ms r = ac_lease_expires_at_ms (claim_row_of v)"
    "ac_fence_revision r = ac_fence_revision (claim_row_of v)"
    using v(2) by (cases r; simp add: claim_row_of_def Let_def)+
  have "held r = claim_of v" using claim_of_canonical [OF v(1)] f(4)
    by (simp add: held_def row_claim_def claim_row_of_def Let_def)
  with f validClaim_ok [OF v(1)]
  show "ac_semantic_scope r = cl_semanticScope (held r)" "ac_claim_id r = cl_claimId (held r)"
    "ac_lease_epoch r = cl_leaseEpoch (held r)" "ac_lease_expires_at_ms r = cl_leaseExpiresAtMs (held r)"
    "ac_fence_revision r = cl_fenceRevision (held r)" "claim_ok (held r)"
    by (simp_all add: claim_row_of_def Let_def)
qed

lemma held_claim_row_of: "validClaim v now \<Longrightarrow> held (claim_row_of v) = claim_of v"
  using claim_of_canonical by (simp add: held_def row_claim_def claim_row_of_def Let_def)

lemma claim_row_of_ok: "validClaim v now \<Longrightarrow> claim_row_ok (claim_row_of v)"
  unfolding claim_row_ok_def by (rule exI [of _ v], rule exI [of _ now]) (simp add: claim_row_of_def Let_def)

lemma live_row_mono: "live_row now r \<Longrightarrow> t \<le> now \<Longrightarrow> live_row t r"
  by (simp add: live_row_def)

lemma writes_ok_mono: "writes_ok t s \<Longrightarrow> t \<le> now \<Longrightarrow> writes_ok now s"
  unfolding writes_ok_def using live_row_mono by blast

lemma disjoint_rows_sym: "disjoint_rows r q = disjoint_rows q r"
  by (auto simp: disjoint_rows_def)

lemma active_set: "set (active now s) = row_claim ` {r \<in> set (au_claims s). live_row now r}"
  by (simp add: active_def)

lemma readScope_Some:
  "tables_ok s \<Longrightarrow> readScope scope s = Some c \<longleftrightarrow> (\<exists>r \<in> set (au_claims s). ac_semantic_scope r = scope \<and> c = row_claim r)"
  by (auto simp: readScope_def tables_ok_def select_key_iff)

lemma set_map_filter: "set (List.map_filter f xs) = {y. \<exists>x \<in> set xs. f x = Some y}"
  by (force simp: List.map_filter_def)

lemma reservedClaims_set:
  "tables_ok s \<Longrightarrow> set (reservedClaims s) = row_claim ` {r \<in> set (au_claims s). reserved_row s r}"
  unfolding reservedClaims_def set_map_filter set_sort_by
  by (fastforce simp: readScope_Some reserved_row_def hasReservation_def has_key_iff image_iff)

lemma find_none: "List.find P xs = None \<longleftrightarrow> (\<forall>x \<in> set xs. \<not> P x)"
  by (auto simp: find_None_iff)

lemma find_found: "List.find P xs = Some x \<Longrightarrow> x \<in> set xs \<and> P x"
  by (auto simp: find_Some_iff)

lemma overlapping_rows: "overlapping (held r) (row_claim q) \<longleftrightarrow> \<not> disjoint_rows r q"
  by (auto simp: writeSetsOverlap_iff disjoint_rows_def held_def)

section \<open>Acquiring\<close>

lemma reserved_claim_row:
  assumes "tables_ok s" "hasReservation scope s"
  shows "\<exists>r \<in> set (au_claims s). ac_semantic_scope r = scope \<and> reserved_row s r"
proof -
  obtain w where w: "w \<in> set (au_reservations s)" "rv_semantic_scope w = scope"
    using assms(2) by (auto simp: hasReservation_def has_key_iff)
  then obtain p r where "w = reservation_of p" "r \<in> set (au_claims s)" "permit_of_row p r"
    using assms(1) by (fastforce simp: tables_ok_def)
  then show ?thesis using w assms(2)
    by (auto simp: permit_of_row_def reservation_of_def reserved_row_def)
qed

text \<open>What has been checked when a claim is stored.\<close>

definition acquirable :: "json \<Rightarrow> int \<Rightarrow> authoring \<Rightarrow> bool" where
  "acquirable v now s =
     (validClaim v now \<and> \<not> hasReservation (cl_semanticScope (claim_of v)) s
      \<and> (\<forall>r \<in> set (au_claims s). reserved_row s r \<or> live_row now r \<longrightarrow> disjoint_rows (claim_row_of v) r)
      \<and> (\<forall>r \<in> set (au_claims s). live_row now r \<longrightarrow> ac_semantic_scope r \<noteq> cl_semanticScope (claim_of v))
      \<and> (\<forall>r \<in> set (au_claims s). ac_semantic_scope r = cl_semanticScope (claim_of v) \<longrightarrow>
           cl_leaseEpoch (held r) < cl_leaseEpoch (claim_of v))
      \<and> (\<forall>r \<in> set (au_claims s). ac_semantic_scope r \<noteq> cl_semanticScope (claim_of v) \<longrightarrow>
           ac_claim_id r \<noteq> cl_claimId (claim_of v)))"

lemma acquire_store:
  "snd (acquire v now s) = s \<or>
    (acquire_check v now s = None
     \<and> (\<forall>h \<in> set (reservedClaims s). cl_claimId (claim_of h) \<noteq> cl_claimId (claim_of v) \<longrightarrow> \<not> overlapping (claim_of v) h)
     \<and> (\<forall>h \<in> set (active now s). cl_semanticScope (claim_of h) \<noteq> cl_semanticScope (claim_of v))
     \<and> (\<forall>h \<in> set (active now s). \<not> overlapping (claim_of v) h)
     \<and> (\<forall>p. readScope (cl_semanticScope (claim_of v)) s = Some p \<longrightarrow> cl_leaseEpoch (claim_of p) < cl_leaseEpoch (claim_of v))
     \<and> (\<exists>s'. store_claim v s = Inr s' \<and> acquire v now s = (Inr (claimAccepted (claim_of v)), s')))"
  unfolding acquire_def Let_def
  by (auto simp: find_None_iff split: option.splits sum.splits)

lemma acquire_cases:
  assumes ok: "tables_ok s"
  shows "snd (acquire v now s) = s
    \<or> acquirable v now s \<and> acquire v now s =
        (Inr (claimAccepted (claim_of v)), s\<lparr>au_claims := upsert ac_semantic_scope (claim_row_of v) (au_claims s)\<rparr>)"
  using acquire_store [of v now s]
proof (elim disjE conjE exE)
  fix s'
  let ?scope = "cl_semanticScope (claim_of v)"
  assume chk: "acquire_check v now s = None"
    and res: "\<forall>h \<in> set (reservedClaims s). cl_claimId (claim_of h) \<noteq> cl_claimId (claim_of v) \<longrightarrow> \<not> overlapping (claim_of v) h"
    and act: "\<forall>h \<in> set (active now s). cl_semanticScope (claim_of h) \<noteq> ?scope"
      "\<forall>h \<in> set (active now s). \<not> overlapping (claim_of v) h"
    and epoch: "\<forall>p. readScope ?scope s = Some p \<longrightarrow> cl_leaseEpoch (claim_of p) < cl_leaseEpoch (claim_of v)"
    and st: "store_claim v s = Inr s'" "acquire v now s = (Inr (claimAccepted (claim_of v)), s')"
  have valid: "validClaim v now" using chk by (auto simp: acquire_check_def split: if_splits)
  have rows: "claim_row_ok r" if "r \<in> set (au_claims s)" for r
    using ok that by (simp add: tables_ok_def)
  note f = claim_row_ok_fields [OF rows]
  have key: "ac_semantic_scope (claim_row_of v) = ?scope" "ac_claim_id (claim_row_of v) = cl_claimId (claim_of v)"
    by (simp_all add: claim_row_of_def Let_def)
  have ids: "\<forall>r \<in> set (au_claims s). ac_semantic_scope r \<noteq> ?scope \<longrightarrow> ac_claim_id r \<noteq> cl_claimId (claim_of v)"
    and s': "s' = s\<lparr>au_claims := upsert ac_semantic_scope (claim_row_of v) (au_claims s)\<rparr>"
    using st(1) by (auto simp: store_claim_def Let_def list_ex_iff key split: if_splits)
  have prior: "cl_leaseEpoch (held r) < cl_leaseEpoch (claim_of v)"
    if "r \<in> set (au_claims s)" "ac_semantic_scope r = ?scope" for r
    using epoch that readScope_Some [OF ok] by (auto simp: held_def)
  have free: "\<not> hasReservation ?scope s"
  proof
    assume "hasReservation ?scope s"
    from reserved_claim_row [OF ok this] obtain r where r: "r \<in> set (au_claims s)" "ac_semantic_scope r = ?scope" "reserved_row s r"
      by blast
    then have "row_claim r \<in> set (reservedClaims s)" "cl_semanticScope (claim_of (row_claim r)) = ?scope"
      using reservedClaims_set [OF ok] f(1) by (auto simp: held_def)
    then obtain h where h: "List.find (\<lambda>h. cl_semanticScope (claim_of h) = ?scope) (reservedClaims s) = Some h"
      "h \<in> set (reservedClaims s)" "cl_semanticScope (claim_of h) = ?scope"
      by (cases "List.find (\<lambda>h. cl_semanticScope (claim_of h) = ?scope) (reservedClaims s)")
        (auto simp: find_None_iff dest: find_found)
    obtain q where q: "q \<in> set (au_claims s)" "h = row_claim q" using h(2) reservedClaims_set [OF ok] by auto
    have "sameClaim h v" using chk h(1) valid by (auto simp: acquire_check_def Let_def split: if_splits)
    moreover obtain w t where w: "validClaim w t" "q\<lparr>ac_released_at_ms := None\<rparr> = claim_row_of w"
      using rows [OF q(1)] by (auto simp: claim_row_ok_def)
    moreover have stored: "h = parse_column (canonicalJson w)"
      using w(2) q(2) by (cases q) (simp add: row_claim_def claim_row_of_def Let_def)
    ultimately have "claim_of w = claim_of v" using sameClaim_eq [OF w(1) valid] by simp
    then have "held q = claim_of v" using claim_of_canonical [OF w(1)] stored q(2) by (simp add: held_def)
    with prior [OF q(1)] f(1) [OF q(1)] show False by simp
  qed
  have disj: "disjoint_rows (claim_row_of v) r" if "r \<in> set (au_claims s)" "reserved_row s r \<or> live_row now r" for r
  proof (cases "live_row now r")
    case True
    with that(1) act(2) active_set have "\<not> overlapping (claim_of v) (row_claim r)" by auto
    then show ?thesis using overlapping_rows [where r = "claim_row_of v" and q = r] by (simp add: held_claim_row_of [OF valid])
  next
    case False
    with that have "reserved_row s r" by simp
    then have "ac_semantic_scope r \<noteq> ?scope" using free by (auto simp: reserved_row_def)
    with ids that(1) f(2) have "cl_claimId (held r) \<noteq> cl_claimId (claim_of v)" by metis
    with that(1) \<open>reserved_row s r\<close> res reservedClaims_set [OF ok]
    have "\<not> overlapping (claim_of v) (row_claim r)" by (auto simp: held_def)
    then show ?thesis using overlapping_rows [where r = "claim_row_of v" and q = r] by (simp add: held_claim_row_of [OF valid])
  qed
  have "ac_semantic_scope r \<noteq> ?scope" if "r \<in> set (au_claims s)" "live_row now r" for r
    using act(1) active_set that f(1) [OF that(1)] by (auto simp: held_def)
  with valid free disj prior ids have "acquirable v now s" by (simp add: acquirable_def)
  then show ?thesis using st(2) s' by simp
qed simp

lemma keep_acquire:
  assumes ok: "authoring_ok strict t s" and "t \<le> now"
  shows "authoring_ok strict now (snd (acquire v now s))"
proof -
  have tab: "tables_ok s" and wr: "writes_ok now s" and rd: "reserved_disjoint strict s"
    using ok writes_ok_mono [OF _ assms(2)] by (auto simp: authoring_ok_def)
  from acquire_cases [OF tab, of v now] show ?thesis
  proof (elim disjE conjE)
    assume acq: "acquirable v now s" and eq: "acquire v now s =
        (Inr (claimAccepted (claim_of v)), s\<lparr>au_claims := upsert ac_semantic_scope (claim_row_of v) (au_claims s)\<rparr>)"
    let ?row = "claim_row_of v" let ?s = "snd (acquire v now s)"
    have valid: "validClaim v now" using acq by (simp add: acquirable_def)
    have key: "ac_semantic_scope ?row = cl_semanticScope (claim_of v)" "ac_claim_id ?row = cl_claimId (claim_of v)"
      by (simp_all add: claim_row_of_def Let_def)
    have set: "set (au_claims ?s) = insert ?row {r \<in> set (au_claims s). ac_semantic_scope r \<noteq> ac_semantic_scope ?row}"
      unfolding eq by (simp add: set_upsert_eq)
    have same: "au_reservations ?s = au_reservations s" "au_sequences ?s = au_sequences s" "au_completions ?s = au_completions s"
      unfolding eq by simp_all
    have has: "hasReservation scope ?s = hasReservation scope s" for scope
      by (simp add: hasReservation_def same)
    have free: "\<not> hasReservation (ac_semantic_scope ?row) s" using acq key by (simp add: acquirable_def)
    have keep: "\<exists>r \<in> set (au_claims ?s). permit_of_row p r"
      if "reservation_of p \<in> set (au_reservations s)" "r \<in> set (au_claims s)" "permit_of_row p r" for p r
    proof -
      have "hasReservation (pm_semanticScope p) s"
        using that(1) by (force simp: hasReservation_def has_key_iff reservation_of_def)
      then have "ac_semantic_scope r \<noteq> ac_semantic_scope ?row" using free that(3) by (auto simp: permit_of_row_def)
      then show ?thesis using that unfolding set by blast
    qed
    have "tables_ok ?s"
      unfolding tables_ok_def same set
    proof (intro conjI ballI)
      show "distinct (map ac_semantic_scope (au_claims ?s))"
        unfolding eq using tab by (simp add: tables_ok_def distinct_upsert)
      show "distinct (map ac_claim_id (au_claims ?s))"
        unfolding eq using tab acq key by (auto simp: tables_ok_def acquirable_def intro!: distinct_upsert_other)
      show "\<exists>p. permit_ok p \<and> w = reservation_of p \<and> (\<exists>r \<in> insert ?row {r \<in> set (au_claims s). ac_semantic_scope r \<noteq> ac_semantic_scope ?row}. permit_of_row p r)"
        if w: "w \<in> set (au_reservations s)" for w
      proof -
        obtain p r where "permit_ok p" "w = reservation_of p" "r \<in> set (au_claims s)" "permit_of_row p r"
          using tab w by (auto simp: tables_ok_def)
        then show ?thesis using keep w unfolding set by blast
      qed
    qed (use tab claim_row_of_ok [OF valid] in \<open>auto simp: tables_ok_def\<close>)
    moreover have "writes_ok now ?s"
      unfolding writes_ok_def reserved_row_def has set
    proof (intro ballI impI)
      fix r q
      assume r: "r \<in> insert ?row {r \<in> set (au_claims s). ac_semantic_scope r \<noteq> ac_semantic_scope ?row}"
        and q: "q \<in> insert ?row {r \<in> set (au_claims s). ac_semantic_scope r \<noteq> ac_semantic_scope ?row}"
        and h: "ac_semantic_scope r \<noteq> ac_semantic_scope q" "live_row now q" "live_row now r \<or> hasReservation (ac_semantic_scope r) s"
      consider "r = ?row" "q \<in> set (au_claims s)" | "q = ?row" "r \<in> set (au_claims s)"
        | "r \<in> set (au_claims s)" "q \<in> set (au_claims s)" using r q h(1) by blast
      then show "disjoint_rows r q"
      proof cases
        case 1
        then show ?thesis using acq h by (auto simp: acquirable_def)
      next
        case 2
        then show ?thesis using acq h disjoint_rows_sym [of r q] by (auto simp: acquirable_def reserved_row_def)
      next
        case 3
        then show ?thesis using wr h by (auto simp: writes_ok_def reserved_row_def)
      qed
    qed
    moreover have "reserved_disjoint strict ?s"
      using rd free by (auto simp: reserved_disjoint_def reserved_row_def has set)
    ultimately show ?thesis by (simp add: authoring_ok_def)
  qed (use tab wr rd in \<open>simp add: authoring_ok_def\<close>)
qed

section \<open>Beginning\<close>

definition seq_of :: "string \<Rightarrow> sequence_row list \<Rightarrow> int" where
  "seq_of scope t = (case select_key sq_semantic_scope scope t of Some r \<Rightarrow> sq_last_sequence r | None \<Rightarrow> 0)"

lemma select_key_map:
  "(\<And>x. key (f x) = key x) \<Longrightarrow> select_key key k (map f t) = map_option f (select_key key k t)"
  by (induction t) (auto simp: select_key_def)

lemma next_mutation_facts:
  "fst (next_mutation scope t) = seq_of scope t + 1"
  "seq_of scope' (snd (next_mutation scope t)) = (if scope' = scope then seq_of scope t + 1 else seq_of scope' t)"
  "distinct (map sq_semantic_scope t) \<Longrightarrow> distinct (map sq_semantic_scope (snd (next_mutation scope t)))"
proof -
  let ?f = "\<lambda>r. if sq_semantic_scope r = scope then r\<lparr>sq_last_sequence := sq_last_sequence r + 1\<rparr> else r"
  let ?t0 = "fst (insert_ignore sq_semantic_scope \<lparr>sq_semantic_scope = scope, sq_last_sequence = 0\<rparr> t)"
  have t1: "snd (next_mutation scope t) = map ?f ?t0" by (simp add: next_mutation_def Let_def update_where_def)
  have look: "select_key sq_semantic_scope k (map ?f ?t0) = map_option ?f (select_key sq_semantic_scope k ?t0)" for k
    by (rule select_key_map) simp
  have s0: "select_key sq_semantic_scope k ?t0 = (case select_key sq_semantic_scope k t of Some r \<Rightarrow> Some r
      | None \<Rightarrow> if scope = k then Some \<lparr>sq_semantic_scope = scope, sq_last_sequence = 0\<rparr> else None)" for k
    by (simp add: select_key_insert_ignore)
  have seq: "seq_of k (map ?f ?t0) = (if k = scope then seq_of scope t + 1 else seq_of k t)" for k
    by (auto simp: seq_of_def look s0 split: option.splits dest: select_key_Some)
  then show "seq_of scope' (snd (next_mutation scope t)) = (if scope' = scope then seq_of scope t + 1 else seq_of scope' t)"
    by (simp add: t1)
  have "fst (next_mutation scope t) = seq_of scope (snd (next_mutation scope t))"
    by (simp add: next_mutation_def Let_def seq_of_def)
  with seq [of scope] show "fst (next_mutation scope t) = seq_of scope t + 1" by (simp add: t1)
  assume "distinct (map sq_semantic_scope t)"
  then have "distinct (map sq_semantic_scope ?t0)" by (rule distinct_insert_ignore)
  then show "distinct (map sq_semantic_scope (snd (next_mutation scope t)))"
    unfolding t1 by (simp add: comp_def if_distrib cong: if_cong)
qed

text \<open>What has been checked when a mutation is reserved.\<close>

definition granted :: "mutation_permit \<Rightarrow> claim_row \<Rightarrow> int \<Rightarrow> authoring \<Rightarrow> bool" where
  "granted p r now s =
     (permit_ok p \<and> r \<in> set (au_claims s) \<and> permit_of_row p r \<and> now < cl_leaseExpiresAtMs (held r)
      \<and> \<not> hasReservation (pm_semanticScope p) s \<and> pm_mutationId p \<notin> rv_mutation_id ` set (au_reservations s)
      \<and> readCompletion (permit_key p) s = None
      \<and> pm_mutationSequence p = seq_of (pm_semanticScope p) (au_sequences s) + 1 \<and> pm_reservedAtMs p = now
      \<and> (\<forall>q \<in> set (au_claims s). live_row now q \<longrightarrow> ac_semantic_scope q \<noteq> ac_semantic_scope r \<longrightarrow> disjoint_rows r q))"

lemma readRequest_fields:
  assumes "readClaimMutationRequest v = Some request"
  shows "authoring_id (mr_semanticScope request)" "authoring_id (mr_claimId request)" "authoring_id (mr_fenceRevision request)"
    "1 \<le> mr_leaseEpoch request" "mr_leaseEpoch request \<le> max_safe" "text_within 512 (mr_requiredWriteTarget request)"
    "mr_semanticScope request = scope_of_request v"
proof -
  have t: "is_str (field v k) P \<Longrightarrow> P (text_of v k)" for k P
    using text_of_is_str by blast
  have n: "is_num (field v k) (safe_ge lo) \<Longrightarrow> lo \<le> int_of v k \<and> int_of v k \<le> max_safe" for k lo
    using int_of_is_num [of v k lo] by auto
  show "authoring_id (mr_semanticScope request)" "authoring_id (mr_claimId request)" "authoring_id (mr_fenceRevision request)"
    "1 \<le> mr_leaseEpoch request" "mr_leaseEpoch request \<le> max_safe" "text_within 512 (mr_requiredWriteTarget request)"
    "mr_semanticScope request = scope_of_request v"
    using assms by (auto simp: readClaimMutationRequest_def scope_of_request_def dest!: t n split: if_splits)
qed

lemma mutationAdmission_Admitted:
  assumes "mutationAdmission v now s = Admitted c" "readClaimMutationRequest v = Some request"
  shows "map_option claim_of (readScope (mr_semanticScope request) s) = Some c"
    "cl_claimId c = mr_claimId request" "now < cl_leaseExpiresAtMs c" "cl_leaseEpoch c = mr_leaseEpoch request"
    "cl_fenceRevision c = mr_fenceRevision request" "mr_requiredWriteTarget request \<in> set (cl_declaredWriteSet c)"
    "\<forall>h \<in> set (active now s). cl_claimId (claim_of h) \<noteq> cl_claimId c \<longrightarrow> \<not> overlapping c h"
  using assms
  by (auto simp: mutationAdmission_def claimRefusal_def claimAccepted_def find_None_iff split: option.splits if_splits)

definition grant :: "mutation_permit \<Rightarrow> authoring \<Rightarrow> authoring" where
  "grant p s = s\<lparr>au_sequences := snd (next_mutation (pm_semanticScope p) (au_sequences s)),
     au_reservations := au_reservations s @ [reservation_of p]\<rparr>"

lemma begin_reserves:
  assumes "readClaimMutationRequest v = Some request" "authoringMutationOperationId requestDigest = Some operationId"
    and "\<not> hasReservation (mr_semanticScope request) s"
    and "readCompletion (mr_semanticScope request, mr_claimId request, mr_leaseEpoch request, operationId) s = None"
    and "mutationAdmission v now s = Admitted c" and ok: "tables_ok s"
    and res: "reserve_mutation c request operationId requestDigest now s = (Inr (Some p), s')"
  shows "\<exists>r. granted p r now s \<and> same_mutation p request operationId requestDigest
    \<and> pm_semanticScope p = mr_semanticScope request \<and> s' = grant p s"
proof -
  note adm = mutationAdmission_Admitted [OF assms(5,1)] and rq = readRequest_fields [OF assms(1)]
  obtain r where r: "r \<in> set (au_claims s)" "ac_semantic_scope r = mr_semanticScope request" "c = held r"
    using adm(1) readScope_Some [OF ok] by (auto simp: held_def)
  have rok: "claim_row_ok q" if "q \<in> set (au_claims s)" for q using ok that by (simp add: tables_ok_def)
  note f = claim_row_ok_fields [OF rok]
  let ?n = "seq_of (mr_semanticScope request) (au_sequences s) + 1"
  have p: "claimMutationPermit c request operationId requestDigest ?n now = Some p"
    and fresh: "\<not> has_key rv_mutation_id (pm_mutationId p) (au_reservations s)"
    and s': "s' = s\<lparr>au_sequences := snd (next_mutation (mr_semanticScope request) (au_sequences s)),
      au_reservations := au_reservations s @ [reservation_of p]\<rparr>"
    using res by (auto simp: reserve_mutation_def split_beta Let_def next_mutation_facts(1) split: option.splits if_splits)
  have op: "sha256_pattern requestDigest" "operationId = ''operation:'' @ requestDigest"
    using assms(2) by (auto simp: authoringMutationOperationId_def split: if_splits)
  have pm: "pm_semanticScope p = mr_semanticScope request" "same_mutation p request operationId requestDigest"
    "pm_mutationSequence p = ?n" "pm_reservedAtMs p = now" "pm_leaseExpiresAtMs p = cl_leaseExpiresAtMs c"
    using p by (auto simp: claimMutationPermit_def Let_def same_mutation_def split: if_splits)
  have "cl_leaseExpiresAtMs c \<le> max_safe" using f(6) [OF r(1)] r(3) by (auto simp: claim_ok_def)
  then have "permit_ok p"
    using p rq adm(3) op by (auto simp: claimMutationPermit_def Let_def permit_ok_def split: if_splits)
  moreover have "permit_of_row p r"
    using pm adm r by (simp add: permit_of_row_def same_mutation_def)
  moreover have "disjoint_rows r q"
    if q: "q \<in> set (au_claims s)" "live_row now q" "ac_semantic_scope q \<noteq> ac_semantic_scope r" for q
  proof -
    have "ac_claim_id q \<noteq> ac_claim_id r"
      using ok q r(1) by (auto simp: tables_ok_def distinct_map inj_on_def)
    then have "cl_claimId (claim_of (row_claim q)) \<noteq> cl_claimId c"
      using f(2) q(1) r(1,3) by (simp add: held_def)
    then have "\<not> overlapping c (row_claim q)" using adm(7) q active_set by blast
    then show ?thesis using overlapping_rows [where r = r and q = q] r(3) by simp
  qed
  ultimately have "granted p r now s"
    using r pm adm(3) assms(3,4) fresh
    by (auto simp: granted_def has_key_iff permit_key_def same_mutation_def)
  then show ?thesis using pm s' by (auto simp: grant_def)
qed

lemma begin_cases:
  assumes ok: "tables_ok s"
  shows "snd (beginMutation v operationId requestDigest now s) = s
    \<or> (\<exists>scope. snd (beginMutation v operationId requestDigest now s) = s\<lparr>au_sequences := snd (next_mutation scope (au_sequences s))\<rparr>
        \<and> (\<forall>p. fst (beginMutation v operationId requestDigest now s) \<noteq> Inr (Admitted p)))
    \<or> (\<exists>p r request. granted p r now s \<and> readClaimMutationRequest v = Some request
        \<and> same_mutation p request operationId requestDigest \<and> pm_semanticScope p = mr_semanticScope request
        \<and> beginMutation v operationId requestDigest now s = (Inr (Admitted p), grant p s))"
proof (cases "readClaimMutationRequest v")
  case (Some request)
  show ?thesis
  proof (rule disjCI)
    assume change: "\<not> ((\<exists>scope. snd (beginMutation v operationId requestDigest now s) = s\<lparr>au_sequences := snd (next_mutation scope (au_sequences s))\<rparr>
        \<and> (\<forall>p. fst (beginMutation v operationId requestDigest now s) \<noteq> Inr (Admitted p)))
    \<or> (\<exists>p r request. granted p r now s \<and> readClaimMutationRequest v = Some request
        \<and> same_mutation p request operationId requestDigest \<and> pm_semanticScope p = mr_semanticScope request
        \<and> beginMutation v operationId requestDigest now s = (Inr (Admitted p), grant p s)))"
    show "snd (beginMutation v operationId requestDigest now s) = s"
    proof (rule ccontr)
      assume ne: "snd (beginMutation v operationId requestDigest now s) \<noteq> s"
      obtain c where c: "isSafeInteger (Integer now)" "authoringMutationOperationId requestDigest = Some operationId"
        "readReservation (mr_semanticScope request) s = None"
        "\<not> hasReservation (mr_semanticScope request) s"
        "readCompletion (mr_semanticScope request, mr_claimId request, mr_leaseEpoch request, operationId) s = None"
        "mutationAdmission v now s = Admitted c"
        using ne Some by (auto simp: beginMutation_def Let_def split: option.splits if_splits admission.splits)
      have holder: "map_option claim_of (readScope (mr_semanticScope request) s) = Some c"
        by (rule mutationAdmission_Admitted(1) [OF c(6) Some])
      have eq: "beginMutation v operationId requestDigest now s =
          (let (result, s') = reserve_mutation c request operationId requestDigest now s
           in (case result of Inl e \<Rightarrow> Inl e | Inr (Some permit) \<Rightarrow> Inr (Admitted permit)
               | Inr None \<Rightarrow> Inr (claimRefusal Claim_malformed (Some c)), s'))"
        using c Some holder by (auto simp: beginMutation_def Let_def split_beta)
      obtain result s' where rs: "reserve_mutation c request operationId requestDigest now s = (result, s')" by fastforce
      show False
      proof (cases result)
        case (Inl e)
        then show False using rs ne eq by (auto simp: reserve_mutation_def split_beta Let_def split: option.splits if_splits)
      next
        case (Inr x)
        show False
        proof (cases x)
          case None
          then have "s' = s\<lparr>au_sequences := snd (next_mutation (mr_semanticScope request) (au_sequences s))\<rparr>"
            using rs Inr by (auto simp: reserve_mutation_def split_beta Let_def split: option.splits if_splits)
          then show False using change eq rs Inr None by (auto simp: claimRefusal_def)
        next
          case (Some p)
          with rs Inr have "reserve_mutation c request operationId requestDigest now s = (Inr (Some p), s')" by simp
          from begin_reserves [OF \<open>readClaimMutationRequest v = Some request\<close> c(2,4,5,6) ok this]
          show False using change eq rs Inr Some \<open>readClaimMutationRequest v = Some request\<close> by auto
        qed
      qed
    qed
  qed
qed (simp add: beginMutation_def)

lemma grant_fields [simp]:
  "au_claims (grant p s) = au_claims s" "au_reservations (grant p s) = au_reservations s @ [reservation_of p]"
  "au_completions (grant p s) = au_completions s" "au_reconciliations (grant p s) = au_reconciliations s"
  "au_sequences (grant p s) = snd (next_mutation (pm_semanticScope p) (au_sequences s))"
  by (simp_all add: grant_def)

lemma reservation_of_fields [simp]:
  "rv_semantic_scope (reservation_of p) = pm_semanticScope p" "rv_mutation_id (reservation_of p) = pm_mutationId p"
  "rv_permit_json (reservation_of p) = canonicalJson (permit_json p)"
  by (simp_all add: reservation_of_def)

lemma has_grant: "hasReservation scope (grant p s) \<longleftrightarrow> hasReservation scope s \<or> scope = pm_semanticScope p"
  by (auto simp: hasReservation_def has_key_iff)

lemma keep_grant:
  assumes ok: "authoring_ok strict t s" and "t \<le> now" and gr: "granted p r now s" and st: "strict \<Longrightarrow> ac_released_at_ms r = None"
  shows "authoring_ok strict now (grant p s)"
proof -
  have tab: "tables_ok s" and wr: "writes_ok now s" and rd: "reserved_disjoint strict s"
    using ok writes_ok_mono [OF _ assms(2)] by (auto simp: authoring_ok_def)
  have r: "r \<in> set (au_claims s)" "ac_semantic_scope r = pm_semanticScope p" "permit_of_row p r"
    using gr by (auto simp: granted_def permit_of_row_def)
  have only: "q = r" if "q \<in> set (au_claims s)" "ac_semantic_scope q = pm_semanticScope p" for q
    using tab that r by (auto simp: tables_ok_def distinct_map inj_on_def)
  have "tables_ok (grant p s)"
    using tab gr r next_mutation_facts(3)
    by (auto simp: tables_ok_def granted_def hasReservation_def has_key_iff)
  moreover have "writes_ok now (grant p s)"
    using wr gr only by (auto simp: writes_ok_def reserved_row_def has_grant granted_def)
  moreover have "reserved_disjoint strict (grant p s)"
  proof -
    have "live_row now r" if "strict \<or> ac_released_at_ms r = None"
      using st that gr tab claim_row_ok_fields(4) [of r] by (auto simp: live_row_def granted_def tables_ok_def)
    then have new: "disjoint_rows q r" if "q \<in> set (au_claims s)" "reserved_row s q" "ac_semantic_scope q \<noteq> ac_semantic_scope r"
        "strict \<or> ac_released_at_ms r = None" for q
      using wr that r(1) by (auto simp: writes_ok_def)
    show ?thesis unfolding reserved_disjoint_def reserved_row_def has_grant grant_fields
    proof (intro ballI impI)
      fix a b
      assume ab: "a \<in> set (au_claims s)" "b \<in> set (au_claims s)" "ac_semantic_scope a \<noteq> ac_semantic_scope b"
        "hasReservation (ac_semantic_scope a) s \<or> ac_semantic_scope a = pm_semanticScope p"
        "hasReservation (ac_semantic_scope b) s \<or> ac_semantic_scope b = pm_semanticScope p"
        "strict \<or> ac_released_at_ms a = None \<and> ac_released_at_ms b = None"
      consider "a = r" "reserved_row s b" | "b = r" "reserved_row s a" | "reserved_row s a" "reserved_row s b"
        using ab only by (auto simp: reserved_row_def)
      then show "disjoint_rows a b"
      proof cases
        case 1
        then show ?thesis using new [of b] ab disjoint_rows_sym [of a b] by auto
      next
        case 2
        then show ?thesis using new [of a] ab by auto
      next
        case 3
        then show ?thesis using rd ab by (auto simp: reserved_disjoint_def)
      qed
    qed
  qed
  ultimately show ?thesis by (simp add: authoring_ok_def)
qed

lemma keep_begin:
  assumes ok: "authoring_ok strict t s" and "t \<le> now" and st: "strict \<Longrightarrow> unreleased v s"
  shows "authoring_ok strict now (snd (beginMutation v operationId requestDigest now s))"
proof -
  have tab: "tables_ok s" using ok by (simp add: authoring_ok_def)
  have weaker: "authoring_ok strict now s"
    using ok writes_ok_mono [OF _ assms(2)] by (auto simp: authoring_ok_def)
  from begin_cases [OF tab, of v operationId requestDigest now] show ?thesis
  proof (elim disjE exE conjE)
    fix scope
    assume "snd (beginMutation v operationId requestDigest now s) = s\<lparr>au_sequences := snd (next_mutation scope (au_sequences s))\<rparr>"
    then show ?thesis using weaker next_mutation_facts(3)
      by (auto simp: authoring_ok_def tables_ok_def writes_ok_def reserved_disjoint_def reserved_row_def hasReservation_def)
  next
    fix p r request
    assume gr: "granted p r now s" and rq: "readClaimMutationRequest v = Some request"
      "pm_semanticScope p = mr_semanticScope request"
      and eq: "beginMutation v operationId requestDigest now s = (Inr (Admitted p), grant p s)"
    have "ac_released_at_ms r = None" if strict
      using st [OF that] gr rq readRequest_fields(7) [OF rq(1)] by (auto simp: unreleased_def granted_def permit_of_row_def)
    from keep_grant [OF ok assms(2) gr this] show ?thesis by (simp add: eq)
  qed (use weaker in simp)
qed

section \<open>Completing, preserving and releasing\<close>

definition completable :: "mutation_permit \<Rightarrow> authoring \<Rightarrow> bool" where
  "completable p s = (permit_ok p \<and> reservation_of p \<in> set (au_reservations s))"

lemma stored_reservation:
  assumes "tables_ok s"
  shows "readReservation scope s = Some p \<longleftrightarrow> permit_ok p \<and> pm_semanticScope p = scope \<and> reservation_of p \<in> set (au_reservations s)"
proof -
  have read: "row_permit (rv_permit_json (reservation_of q)) = Some q" if "permit_ok q" for q
    using json_parse_canonicalJson [of "permit_json q"] read_stored_permit [OF that]
    by (simp add: row_permit_def parse_column_def)
  have sel: "select_key rv_semantic_scope scope (au_reservations s) = Some w \<longleftrightarrow>
      w \<in> set (au_reservations s) \<and> rv_semantic_scope w = scope" for w
    using assms by (auto simp: tables_ok_def select_key_iff)
  have row: "\<exists>q. permit_ok q \<and> w = reservation_of q" if "w \<in> set (au_reservations s)" for w
    using assms that by (fastforce simp: tables_ok_def)
  show ?thesis
  proof
    assume "readReservation scope s = Some p"
    then obtain w where "select_key rv_semantic_scope scope (au_reservations s) = Some w" "row_permit (rv_permit_json w) = Some p"
      by (auto simp: readReservation_def bind_eq_Some_conv)
    with sel row read show "permit_ok p \<and> pm_semanticScope p = scope \<and> reservation_of p \<in> set (au_reservations s)"
      by (metis option.inject reservation_of_fields(1))
  next
    assume "permit_ok p \<and> pm_semanticScope p = scope \<and> reservation_of p \<in> set (au_reservations s)"
    with sel read show "readReservation scope s = Some p"
      by (auto simp: readReservation_def bind_eq_Some_conv)
  qed
qed

lemma stored_completion:
  assumes "tables_ok s"
  shows "readCompletion key s = Some p \<longleftrightarrow> permit_ok p \<and> permit_key p = key \<and> (\<exists>t. completion_of p t \<in> set (au_completions s))"
proof -
  have read: "row_permit (cm_permit_json (completion_of q t)) = Some q" if "permit_ok q" for q t
    using json_parse_canonicalJson [of "permit_json q"] read_stored_permit [OF that]
    by (simp add: row_permit_def parse_column_def completion_of_def)
  have sel: "select_key completion_key key (au_completions s) = Some w \<longleftrightarrow>
      w \<in> set (au_completions s) \<and> completion_key w = key" for w
    using assms by (auto simp: tables_ok_def select_key_iff)
  have row: "\<exists>q t. permit_ok q \<and> w = completion_of q t" if "w \<in> set (au_completions s)" for w
    using assms that by (fastforce simp: tables_ok_def)
  have ckey: "completion_key (completion_of q t) = permit_key q" for q t
    by (simp add: completion_key_def completion_of_def permit_key_def)
  show ?thesis
  proof
    assume "readCompletion key s = Some p"
    then obtain w where w: "select_key completion_key key (au_completions s) = Some w" "row_permit (cm_permit_json w) = Some p"
      by (auto simp: readCompletion_def bind_eq_Some_conv)
    then obtain q t where "permit_ok q" "w = completion_of q t" using sel row by blast
    with w sel read ckey show "permit_ok p \<and> permit_key p = key \<and> (\<exists>t. completion_of p t \<in> set (au_completions s))"
      by (metis option.inject)
  next
    assume "permit_ok p \<and> permit_key p = key \<and> (\<exists>t. completion_of p t \<in> set (au_completions s))"
    with sel read ckey show "readCompletion key s = Some p"
      by (auto simp: readCompletion_def bind_eq_Some_conv)
  qed
qed

lemma same_permit_iff: "same_permit p q \<longleftrightarrow> q = Some p"
  using permit_text_inj by (auto simp: same_permit_def split: option.splits)

definition finish_mutation :: "mutation_permit \<Rightarrow> int \<Rightarrow> authoring \<Rightarrow> authoring" where
  "finish_mutation p now s = s\<lparr>
     au_completions := fst (insert_ignore completion_key (completion_of p now) (au_completions s)),
     au_reservations := filter (\<lambda>w. w \<noteq> reservation_of p) (au_reservations s),
     au_reconciliations := filter (\<lambda>c. rc_mutation_id c \<noteq> pm_mutationId p) (au_reconciliations s)\<rparr>"

lemma completion_key_of [simp]: "completion_key (completion_of p t) = permit_key p"
  by (simp add: completion_key_def completion_of_def permit_key_def)

lemma length_filter_eq: "distinct xs \<Longrightarrow> x \<in> set xs \<Longrightarrow> length (filter (\<lambda>w. w = x) xs) = 1"
  by (induction xs) (auto simp: filter_empty_conv)

text \<open>What a completion does: nothing, or it moves the reserved permit to the completed ones.\<close>

lemma complete_cases:
  assumes ok: "tables_ok s" and p: "readClaimMutationPermit v = Some p"
  shows "completeMutation v now s =
    (if safe_ge 0 (Integer now) \<and> readReservation (pm_semanticScope p) s = Some p
        \<and> (readCompletion (permit_key p) s = None \<or> readCompletion (permit_key p) s = Some p)
     then (True, finish_mutation p now s)
     else (safe_ge 0 (Integer now) \<and> readReservation (pm_semanticScope p) s = None
             \<and> readCompletion (permit_key p) s = Some p, s))"
proof (cases "safe_ge 0 (Integer now) \<and> readReservation (pm_semanticScope p) s = Some p")
  case True
  note pok = readClaimMutationPermit_ok [OF p]
  let ?cs = "fst (insert_ignore completion_key (completion_of p now) (au_completions s))"
  let ?s1 = "s\<lparr>au_completions := ?cs\<rparr>"
  have look: "readCompletion (permit_key p) ?s1 =
      (case readCompletion (permit_key p) s of Some q \<Rightarrow> Some q | None \<Rightarrow>
        (if has_key completion_key (permit_key p) (au_completions s) then None else Some p))"
  proof (cases "select_key completion_key (permit_key p) (au_completions s)")
    case None
    then have "permit_key p \<notin> completion_key ` set (au_completions s)" by (simp add: select_key_None)
    then have "select_key completion_key (permit_key p) ?cs = Some (completion_of p now)"
      by (simp add: select_key_insert_ignore None)
    moreover have "row_permit (cm_permit_json (completion_of p now)) = Some p"
      using json_parse_canonicalJson [of "permit_json p"] read_stored_permit [OF pok]
      by (simp add: row_permit_def parse_column_def completion_of_def)
    ultimately show ?thesis using None \<open>permit_key p \<notin> _\<close>
      by (simp add: readCompletion_def has_key_iff)
  next
    case (Some w)
    then have "has_key completion_key (permit_key p) (au_completions s)" by (metis has_key_iff image_eqI select_key_Some)
    then show ?thesis using Some by (auto simp: readCompletion_def insert_ignore_def split: option.splits)
  qed
  have none: "readCompletion (permit_key p) s = None \<Longrightarrow> \<not> has_key completion_key (permit_key p) (au_completions s)"
  proof
    assume a: "readCompletion (permit_key p) s = None" "has_key completion_key (permit_key p) (au_completions s)"
    then obtain w where w: "w \<in> set (au_completions s)" "completion_key w = permit_key p" by (auto simp: has_key_iff)
    then obtain q t where "permit_ok q" "w = completion_of q t" using ok by (fastforce simp: tables_ok_def)
    then have "readCompletion (permit_key p) s = Some q" using stored_completion [OF ok] w by (metis completion_key_of)
    with a show False by simp
  qed
  have res: "reservation_of p \<in> set (au_reservations s)" using True stored_reservation [OF ok] by simp
  have uniq: "rv_semantic_scope w = pm_semanticScope p \<and> rv_mutation_id w = pm_mutationId p
      \<and> rv_permit_json w = canonicalJson (permit_json p) \<longleftrightarrow> w = reservation_of p" for w
    by (cases w) (auto simp: reservation_of_def)
  have one: "length (filter (\<lambda>w. w = reservation_of p) (au_reservations s)) = 1"
  proof -
    have "distinct (au_reservations s)" using ok by (auto simp: tables_ok_def distinct_map)
    then show ?thesis using res by (rule length_filter_eq)
  qed
  show ?thesis
  proof (cases "readCompletion (permit_key p) s = None \<or> readCompletion (permit_key p) s = Some p")
    case case_ok: True
    then have "same_permit p (readCompletion (permit_key p) ?s1)"
      using look none by (auto simp: same_permit_iff)
    then show ?thesis using True case_ok p one
      by (simp add: completeMutation_def Let_def split_beta delete_where_def uniq finish_mutation_def
          same_permit_iff)
  next
    case case_bad: False
    then obtain q where q: "readCompletion (permit_key p) s = Some q" "q \<noteq> p" by auto
    then have "has_key completion_key (permit_key p) (au_completions s)"
      by (auto simp: readCompletion_def has_key_iff bind_eq_Some_conv intro!: image_eqI dest!: select_key_Some)
    then have "?s1 = s" by (simp add: insert_ignore_def)
    then show ?thesis using True q p case_bad
      by (simp add: completeMutation_def Let_def same_permit_iff)
  qed
next
  case False
  then show ?thesis using p
    by (auto simp: completeMutation_def Let_def same_permit_iff split: option.splits)
qed

text \<open>Reservations may be dropped and completions added.\<close>

lemma keep_shrink:
  assumes ok: "authoring_ok strict t s" and "t \<le> now" and claims: "au_claims s' = au_claims s"
    and res: "au_reservations s' = filter P (au_reservations s)" and sq: "au_sequences s' = au_sequences s"
    and comp: "distinct (map completion_key (au_completions s'))"
      "\<forall>c \<in> set (au_completions s'). \<exists>p t. permit_ok p \<and> c = completion_of p t"
  shows "authoring_ok strict now s'"
proof -
  have has: "hasReservation scope s' \<Longrightarrow> hasReservation scope s" for scope
    by (auto simp: hasReservation_def has_key_iff res)
  have "tables_ok s'" using ok comp
    by (auto simp: authoring_ok_def tables_ok_def claims res sq distinct_map intro: inj_on_subset)
  moreover have "writes_ok now s'"
    using ok writes_ok_mono [OF _ assms(2)] has
    unfolding authoring_ok_def writes_ok_def claims reserved_row_def by blast
  moreover have "reserved_disjoint strict s'"
    using ok has unfolding authoring_ok_def reserved_disjoint_def claims reserved_row_def by blast
  ultimately show ?thesis by (simp add: authoring_ok_def)
qed

lemma keep_complete:
  assumes ok: "authoring_ok strict t s" and "t \<le> now"
  shows "authoring_ok strict now (snd (completeMutation v now s))"
proof (cases "readClaimMutationPermit v")
  case None
  then show ?thesis using keep_shrink [OF assms, of s "\<lambda>_. True"] ok
    by (simp add: completeMutation_def authoring_ok_def tables_ok_def)
next
  case (Some p)
  have tab: "tables_ok s" using ok by (simp add: authoring_ok_def)
  have "authoring_ok strict now (finish_mutation p now s)"
    by (rule keep_shrink [OF assms])
      (use tab readClaimMutationPermit_ok [OF Some] in \<open>auto simp: finish_mutation_def tables_ok_def distinct_insert_ignore set_insert_ignore\<close>)
  moreover have "authoring_ok strict now s" using keep_shrink [OF assms, of s "\<lambda>_. True"] tab by (simp add: tables_ok_def)
  ultimately show ?thesis by (simp add: complete_cases [OF tab Some])
qed

lemma keep_preserve:
  assumes ok: "authoring_ok strict t s" and "t \<le> now"
  shows "authoring_ok strict now (snd (preserveMutationReconciliation v evidence now s))"
  by (rule keep_shrink [OF assms, where P = "\<lambda>_. True"])
    (use ok in \<open>auto simp: preserveMutationReconciliation_def Let_def authoring_ok_def tables_ok_def split: option.splits\<close>)

lemma held_released [simp]: "held (r\<lparr>ac_released_at_ms := x\<rparr>) = held r"
  by (simp add: held_def row_claim_def)

lemma claim_row_ok_released: "claim_row_ok r \<Longrightarrow> claim_row_ok (r\<lparr>ac_released_at_ms := x\<rparr>)"
  by (simp add: claim_row_ok_def)

text \<open>A change of the claim rows that leaves the claims alone and brings none to life.\<close>

lemma keep_rows:
  assumes ok: "authoring_ok strict t s"
    and same: "\<And>r. ac_semantic_scope (f r) = ac_semantic_scope r" "\<And>r. ac_claim_id (f r) = ac_claim_id r" "\<And>r. held (f r) = held r"
    and live: "\<And>r. live_row t (f r) \<Longrightarrow> live_row t r" "\<And>r. ac_released_at_ms (f r) = None \<Longrightarrow> ac_released_at_ms r = None" and row: "\<And>r. claim_row_ok r \<Longrightarrow> claim_row_ok (f r)"
  shows "authoring_ok strict t (s\<lparr>au_claims := map f (au_claims s)\<rparr>)"
proof -
  have "permit_of_row p (f r) = permit_of_row p r" for p r by (simp add: permit_of_row_def same)
  then have "tables_ok (s\<lparr>au_claims := map f (au_claims s)\<rparr>)"
    using ok row by (simp add: authoring_ok_def tables_ok_def comp_def same)
  moreover have "writes_ok t (s\<lparr>au_claims := map f (au_claims s)\<rparr>)"
    using ok live by (auto simp: authoring_ok_def writes_ok_def reserved_row_def disjoint_rows_def hasReservation_def same)
  moreover have "reserved_disjoint strict (s\<lparr>au_claims := map f (au_claims s)\<rparr>)"
    using ok live(2) by (auto simp: authoring_ok_def reserved_disjoint_def reserved_row_def disjoint_rows_def hasReservation_def same)
  ultimately show ?thesis by (simp add: authoring_ok_def)
qed

lemma keep_release:
  assumes ok: "authoring_ok strict t s" and "t \<le> now"
  shows "authoring_ok strict now (snd (release scope claimId epoch revision now s))"
proof -
  have weaker: "authoring_ok strict now s" using ok writes_ok_mono [OF _ assms(2)] by (auto simp: authoring_ok_def)
  have "authoring_ok strict now (s\<lparr>au_claims :=
      map (\<lambda>r. if releasable scope claimId (the_int epoch) revision now r then r\<lparr>ac_released_at_ms := Some now\<rparr> else r) (au_claims s)\<rparr>)"
    by (rule keep_rows [OF weaker]) (auto simp: live_row_def claim_row_ok_released split: if_splits)
  then show ?thesis using weaker by (auto simp: release_def update_where_def split_beta)
qed

theorem authoring_run_ok: "authoring_run strict t s \<Longrightarrow> authoring_ok strict t s"
proof (induction rule: authoring_run.induct)
  case (run_start t)
  then show ?case by (simp add: authoring_ok_def tables_ok_def writes_ok_def reserved_disjoint_def empty_authoring_def)
qed (auto intro: keep_acquire keep_begin keep_complete keep_preserve keep_release)

end
