(* ===== verification/Authoring_Fence.thy ===== *)
theory Authoring_Fence imports Authoring_Policy begin

text \<open>
  \<open>src/src/core/authoring-mutation-fence.ts\<close>: the fence in front of an object that is mutated under a
  permit. The object's own state is the type parameter, and its mutation an argument that may throw;
  a thrown mutation undoes the transaction. The result of the mutation is the JSON value that the
  code stores.
\<close>

section \<open>State\<close>

record fence_row =
  ff_semantic_scope :: string
  ff_claim_id :: string
  ff_lease_epoch :: int
  ff_fence_revision :: string
  ff_mutation_id :: string
  ff_mutation_sequence :: int
  ff_request_digest :: string
  ff_lease_expires_at_ms :: int

record outcome_row =
  oc_mutation_id :: string
  oc_semantic_scope :: string
  oc_mutation_sequence :: int
  oc_permit_json :: string
  oc_request_digest :: string
  oc_outcome_json :: string

record 'd fenced =
  fn_fences :: "fence_row list"
  fn_outcomes :: "outcome_row list"
  fn_data :: 'd

definition readFence :: "string \<Rightarrow> 'd fenced \<Rightarrow> fence_row option" where
  "readFence scope s = select_key ff_semantic_scope scope (fn_fences s)"

definition readOutcome :: "string \<Rightarrow> 'd fenced \<Rightarrow> outcome_row option" where
  "readOutcome mutationId s = select_key oc_mutation_id mutationId (fn_outcomes s)"

definition isStale :: "mutation_permit \<Rightarrow> fence_row \<Rightarrow> bool" where
  "isStale permit prior =
     (pm_leaseEpoch permit < ff_lease_epoch prior
      \<or> pm_leaseEpoch permit = ff_lease_epoch prior
        \<and> (pm_claimId permit \<noteq> ff_claim_id prior \<or> pm_fenceRevision permit \<noteq> ff_fence_revision prior
            \<or> pm_leaseExpiresAtMs permit \<noteq> ff_lease_expires_at_ms prior
            \<or> pm_mutationSequence permit \<le> ff_mutation_sequence prior))"

definition refusal :: "refusal_code \<Rightarrow> mutation_permit \<Rightarrow> 'a admission" where
  "refusal code p = Claim_refused code (Some (pm_claimId p, pm_leaseEpoch p, pm_fenceRevision p))"

definition fence_refusal :: "refusal_code \<Rightarrow> fence_row \<Rightarrow> 'a admission" where
  "fence_refusal code f = Claim_refused code (Some (ff_claim_id f, ff_lease_epoch f, ff_fence_revision f))"

section \<open>A fenced mutation\<close>

definition fence_of :: "mutation_permit \<Rightarrow> fence_row" where
  "fence_of p = \<lparr>ff_semantic_scope = pm_semanticScope p, ff_claim_id = pm_claimId p, ff_lease_epoch = pm_leaseEpoch p,
     ff_fence_revision = pm_fenceRevision p, ff_mutation_id = pm_mutationId p,
     ff_mutation_sequence = pm_mutationSequence p, ff_request_digest = pm_requestDigest p,
     ff_lease_expires_at_ms = pm_leaseExpiresAtMs p\<rparr>"

definition outcome_of :: "mutation_permit \<Rightarrow> json \<Rightarrow> outcome_row" where
  "outcome_of p value = \<lparr>oc_mutation_id = pm_mutationId p, oc_semantic_scope = pm_semanticScope p,
     oc_mutation_sequence = pm_mutationSequence p, oc_permit_json = canonicalJson (permit_json p),
     oc_request_digest = pm_requestDigest p, oc_outcome_json = canonicalJson value\<rparr>"

definition record_mutation :: "mutation_permit \<Rightarrow> json \<Rightarrow> 'd \<Rightarrow> 'd fenced \<Rightarrow> 'd fenced" where
  "record_mutation p value d s = s\<lparr>fn_fences := upsert ff_semantic_scope (fence_of p) (fn_fences s),
     fn_outcomes := fn_outcomes s @ [outcome_of p value], fn_data := d\<rparr>"

definition fenced_transaction ::
  "mutation_permit \<Rightarrow> string \<Rightarrow> ('d \<Rightarrow> js_exn + json \<times> 'd) \<Rightarrow> int \<Rightarrow> 'd fenced \<Rightarrow> (js_exn + json admission) \<times> 'd fenced" where
  "fenced_transaction permit actualRequestDigest mutation nowMs s =
     (case readOutcome (pm_mutationId permit) s of
        Some prior \<Rightarrow>
          (Inr (if oc_permit_json prior \<noteq> canonicalJson (permit_json permit) \<or> oc_request_digest prior \<noteq> actualRequestDigest
                then refusal Mutation_request_mismatch permit
                else Admitted (parse_column (oc_outcome_json prior))), s)
      | None \<Rightarrow>
          if \<not> isSafeInteger (Integer nowMs) \<or> pm_leaseExpiresAtMs permit \<le> nowMs
          then (Inr (refusal Lease_expired permit), s)
          else
            case readFence (pm_semanticScope permit) s of
              Some prior \<Rightarrow>
                if isStale permit prior then (Inr (fence_refusal Fence_stale prior), s)
                else (case mutation (fn_data s) of
                        Inl e \<Rightarrow> (Inl e, s)
                      | Inr (value, d) \<Rightarrow> (Inr (Admitted value), record_mutation permit value d s))
            | None \<Rightarrow>
                (case mutation (fn_data s) of
                   Inl e \<Rightarrow> (Inl e, s)
                 | Inr (value, d) \<Rightarrow> (Inr (Admitted value), record_mutation permit value d s)))"

definition runAuthoringFencedMutation ::
  "json \<Rightarrow> claim_binding \<Rightarrow> string \<Rightarrow> ('d \<Rightarrow> js_exn + json \<times> 'd) \<Rightarrow> int \<Rightarrow> 'd fenced \<Rightarrow> (js_exn + json admission) \<times> 'd fenced" where
  "runAuthoringFencedMutation v expected actualRequestDigest mutation nowMs s =
     (case readClaimMutationPermit v of
        None \<Rightarrow> (Inr (claimRefusal Claim_malformed None), s)
      | Some permit \<Rightarrow>
          if pm_semanticScope permit \<noteq> cb_semanticScope expected \<or> pm_requiredWriteTarget permit \<noteq> cb_writeTarget expected
          then (Inr (refusal Mutation_out_of_write_set permit), s)
          else if pm_requestDigest permit \<noteq> actualRequestDigest
          then (Inr (refusal Mutation_request_mismatch permit), s)
          else fenced_transaction permit actualRequestDigest mutation nowMs s)"

section \<open>What the fence keeps\<close>

text \<open>
  The fence of a scope is the permit of its last executed mutation, every executed mutation has one
  outcome row, and the executed permits of a scope came in increasing order of epoch and sequence.
\<close>

definition position_of :: "outcome_row \<Rightarrow> mutation_permit \<Rightarrow> json \<Rightarrow> bool" where
  "position_of w p value = (permit_ok p \<and> storable value \<and> w = outcome_of p value)"

definition not_after :: "mutation_permit \<Rightarrow> fence_row \<Rightarrow> bool" where
  "not_after p f = (pm_leaseEpoch p < ff_lease_epoch f
     \<or> pm_leaseEpoch p = ff_lease_epoch f \<and> pm_mutationSequence p \<le> ff_mutation_sequence f)"

definition fence_ok :: "'d fenced \<Rightarrow> bool" where
  "fence_ok s =
     (distinct (map ff_semantic_scope (fn_fences s)) \<and> distinct (map oc_mutation_id (fn_outcomes s))
      \<and> (\<forall>w \<in> set (fn_outcomes s). \<exists>p value. position_of w p value
           \<and> (\<exists>f \<in> set (fn_fences s). ff_semantic_scope f = pm_semanticScope p \<and> not_after p f)))"

lemma readFence_iff: "fence_ok s \<Longrightarrow> readFence scope s = Some f \<longleftrightarrow> f \<in> set (fn_fences s) \<and> ff_semantic_scope f = scope"
  by (auto simp: fence_ok_def readFence_def select_key_iff)

lemma readOutcome_iff: "fence_ok s \<Longrightarrow> readOutcome m s = Some w \<longleftrightarrow> w \<in> set (fn_outcomes s) \<and> oc_mutation_id w = m"
  by (auto simp: fence_ok_def readOutcome_def select_key_iff)

text \<open>The answer that the fence has for an executed permit.\<close>

definition executed :: "mutation_permit \<Rightarrow> 'd fenced \<Rightarrow> json option" where
  "executed p s = (case readOutcome (pm_mutationId p) s of
     Some w \<Rightarrow> if oc_permit_json w = canonicalJson (permit_json p) \<and> oc_request_digest w = pm_requestDigest p
                then Some (parse_column (oc_outcome_json w)) else None
   | None \<Rightarrow> None)"

text \<open>A run of the fence on a well-formed permit: a replay, a refusal or an execution.\<close>

lemma fenced_cases:
  obtains (replay) answer where "executed p s = Some answer"
      "fenced_transaction p (pm_requestDigest p) mutation now s = (Inr (Admitted answer), s)"
  | (refused) r where "executed p s = None" "snd (fenced_transaction p (pm_requestDigest p) mutation now s) = s"
      "fst (fenced_transaction p (pm_requestDigest p) mutation now s) = r" "\<And>answer. r \<noteq> Inr (Admitted answer)"
  | (run) answer d where "executed p s = None" "readOutcome (pm_mutationId p) s = None" "now < pm_leaseExpiresAtMs p"
      "\<And>f. readFence (pm_semanticScope p) s = Some f \<Longrightarrow> \<not> isStale p f" "mutation (fn_data s) = Inr (answer, d)"
      "fenced_transaction p (pm_requestDigest p) mutation now s = (Inr (Admitted answer), record_mutation p answer d s)"
proof (cases "readOutcome (pm_mutationId p) s")
  case (Some w)
  then show ?thesis
    by (cases "executed p s") (auto simp: fenced_transaction_def executed_def refusal_def intro: replay refused split: if_splits)
next
  case None
  then have ex: "executed p s = None" by (simp add: executed_def)
  let ?go = "isSafeInteger (Integer now) \<and> now < pm_leaseExpiresAtMs p \<and> (\<forall>f. readFence (pm_semanticScope p) s = Some f \<longrightarrow> \<not> isStale p f)"
  show ?thesis
  proof (cases "?go \<and> (\<exists>answer d. mutation (fn_data s) = Inr (answer, d))")
    case True
    then obtain answer d where "mutation (fn_data s) = Inr (answer, d)" by blast
    moreover have "fenced_transaction p (pm_requestDigest p) mutation now s = (Inr (Admitted answer), record_mutation p answer d s)"
      if "mutation (fn_data s) = Inr (answer, d)" for answer d
      using True None that by (auto simp: fenced_transaction_def split: option.splits)
    ultimately show ?thesis using run ex None True by blast
  next
    case False
    then show ?thesis using None ex
      by (intro refused [OF ex _ refl])
        (auto simp: fenced_transaction_def refusal_def fence_refusal_def split: option.splits sum.splits)
  qed
qed

lemma outcome_key [simp]: "oc_mutation_id (outcome_of p answer) = pm_mutationId p"
  by (simp add: outcome_of_def)

lemma executed_record:
  assumes "fence_ok s" "readOutcome (pm_mutationId p) s = None" "storable answer"
  shows "executed q (record_mutation p answer d s) = (if q = p then Some (canonicalValue answer) else executed q s)"
proof -
  have look: "readOutcome m (record_mutation p answer d s) =
      (case readOutcome m s of Some w \<Rightarrow> Some w
       | None \<Rightarrow> if pm_mutationId p = m then Some (outcome_of p answer) else None)" for m
    by (simp add: readOutcome_def record_mutation_def select_key_append split: option.splits)
  have own: "oc_permit_json (outcome_of p answer) = canonicalJson (permit_json p)"
    "oc_request_digest (outcome_of p answer) = pm_requestDigest p"
    "parse_column (oc_outcome_json (outcome_of p answer)) = canonicalValue answer"
    by (simp_all add: outcome_of_def parse_column_canonicalJson [OF assms(3)])
  show ?thesis
  proof (cases "q = p")
    case True
    then show ?thesis using assms(2) by (simp add: executed_def look own)
  next
    case False
    then have "canonicalJson (permit_json p) \<noteq> canonicalJson (permit_json q)" by (simp add: permit_text_inj)
    then show ?thesis using False
      by (cases "readOutcome (pm_mutationId q) s") (simp_all add: executed_def look own)
  qed
qed

lemma fence_ok_record:
  assumes ok: "fence_ok s" and p: "permit_ok p" "storable answer" and new: "readOutcome (pm_mutationId p) s = None"
    and fresh: "\<And>f. readFence (pm_semanticScope p) s = Some f \<Longrightarrow> \<not> isStale p f"
  shows "fence_ok (record_mutation p answer d s)"
proof -
  have m: "pm_mutationId p \<notin> oc_mutation_id ` set (fn_outcomes s)"
    using new by (simp add: readOutcome_def select_key_None)
  have f: "fn_fences (record_mutation p answer d s) = upsert ff_semantic_scope (fence_of p) (fn_fences s)"
    "fn_outcomes (record_mutation p answer d s) = fn_outcomes s @ [outcome_of p answer]"
    by (simp_all add: record_mutation_def)
  have scope: "ff_semantic_scope (fence_of p) = pm_semanticScope p" by (simp add: fence_of_def)
  have "\<exists>g \<in> set (upsert ff_semantic_scope (fence_of p) (fn_fences s)). ff_semantic_scope g = pm_semanticScope q \<and> not_after q g"
    if g: "f \<in> set (fn_fences s)" "ff_semantic_scope f = pm_semanticScope q" "not_after q f" for f q
  proof (cases "pm_semanticScope q = pm_semanticScope p")
    case True
    then have "\<not> isStale p f" using fresh readFence_iff [OF ok] g by auto
    with g(3) have "not_after q (fence_of p)" by (auto simp: not_after_def isStale_def fence_of_def)
    then show ?thesis using True scope by (auto simp: set_upsert_eq)
  next
    case False
    then show ?thesis using g scope by (auto simp: set_upsert_eq)
  qed
  moreover have "not_after p (fence_of p)" by (simp add: not_after_def fence_of_def)
  moreover have "position_of (outcome_of p answer) p answer" using p by (simp add: position_of_def)
  moreover have "distinct (map oc_mutation_id (fn_outcomes s @ [outcome_of p answer]))"
    using ok m by (simp add: fence_ok_def)
  moreover have "distinct (map ff_semantic_scope (upsert ff_semantic_scope (fence_of p) (fn_fences s)))"
    using ok by (simp add: fence_ok_def distinct_upsert)
  ultimately show ?thesis
    using ok scope unfolding fence_ok_def f by (fastforce simp: set_upsert_eq)
qed


section \<open>Exactly-once execution\<close>

text \<open>
  What a client may rely on when it sends an operation again: an executor answers an operation it has
  executed with the answer it stored, without doing anything, and stores the answer of every
  operation it executes.
\<close>

locale exactly_once =
  fixes run :: "'p \<Rightarrow> 'e \<Rightarrow> 's \<Rightarrow> 'r option \<times> 's"
    and answer :: "'p \<Rightarrow> 's \<Rightarrow> 'r option"
    and stored :: "'r \<Rightarrow> 'r"
    and wf :: "'s \<Rightarrow> bool"
    and good :: "'e \<Rightarrow> bool"
  assumes again: "wf s \<Longrightarrow> answer p s = Some r \<Longrightarrow> run p e s = (Some r, s)"
    and first: "wf s \<Longrightarrow> good e \<Longrightarrow> answer p s = None \<Longrightarrow> run p e s = (Some r, s') \<Longrightarrow>
      answer q s' = (if q = p then Some (stored r) else answer q s)"
    and refused: "wf s \<Longrightarrow> run p e s = (None, s') \<Longrightarrow> s' = s"
    and wf_run: "wf s \<Longrightarrow> good e \<Longrightarrow> wf (snd (run p e s))"
begin

fun deliver :: "('p \<times> 'e) list \<Rightarrow> 's \<Rightarrow> 's" where
  "deliver [] s = s"
| "deliver ((p, e) # ds) s = deliver ds (snd (run p e s))"

lemma wf_deliver: "wf s \<Longrightarrow> \<forall>d \<in> set ds. good (snd d) \<Longrightarrow> wf (deliver ds s)"
  by (induction ds arbitrary: s) (auto simp: wf_run)

lemma answer_stays_run:
  assumes "wf s" "good e" "answer p s = Some r"
  shows "answer p (snd (run q e s)) = Some r"
proof (cases "answer q s")
  case None
  obtain x s' where run: "run q e s = (x, s')" by fastforce
  then show ?thesis
    using first [OF assms(1,2) None, of _ s' p] refused [OF assms(1)] assms(3) None by (cases x) auto
next
  case (Some x)
  then show ?thesis using again [OF assms(1) Some] assms(3) by simp
qed

lemma answer_stays:
  "wf s \<Longrightarrow> \<forall>d \<in> set ds. good (snd d) \<Longrightarrow> answer p s = Some r \<Longrightarrow> answer p (deliver ds s) = Some r"
  by (induction ds arbitrary: s) (auto simp: wf_run answer_stays_run)

text \<open>After the first execution, repeating the operation is a stored answer, whatever happened meanwhile.\<close>

lemma retry:
  assumes "wf s" "good e" "answer p s = None" "run p e s = (Some r, s')" "\<forall>d \<in> set ds. good (snd d)"
  shows "run p e' (deliver ds s') = (Some (stored r), deliver ds s')"
proof -
  have wf': "wf s'" using wf_run [OF assms(1,2), of p] assms(4) by simp
  moreover have "answer p s' = Some (stored r)" using first [OF assms(1-4)] by simp
  ultimately show ?thesis using again wf_deliver answer_stays assms(5) by blast
qed

text \<open>Deliveries of an executed operation can be dropped.\<close>

lemma drop_repeats:
  "wf s \<Longrightarrow> \<forall>d \<in> set ds. good (snd d) \<Longrightarrow> answer p s = Some r \<Longrightarrow> deliver (filter (\<lambda>d. fst d \<noteq> p) ds) s = deliver ds s"
  by (induction ds arbitrary: s) (auto simp: wf_run answer_stays_run again)

end

section \<open>The fence as an exactly-once executor\<close>

definition fence_run ::
  "claim_binding \<Rightarrow> mutation_permit \<Rightarrow> ('d \<Rightarrow> js_exn + json \<times> 'd) \<times> int \<Rightarrow> 'd fenced \<Rightarrow> json option \<times> 'd fenced" where
  "fence_run expected p e s =
     (let (r, s') = runAuthoringFencedMutation (permit_json p) expected (pm_requestDigest p) (fst e) (snd e) s
      in (case r of Inr (Admitted v) \<Rightarrow> Some v | _ \<Rightarrow> None, s'))"

text \<open>A mutation whose results can be stored as JSON.\<close>

definition storable_mutation :: "('d \<Rightarrow> js_exn + json \<times> 'd) \<times> int \<Rightarrow> bool" where
  "storable_mutation e = (\<forall>d v d'. fst e d = Inr (v, d') \<longrightarrow> storable v)"

definition fence_wf :: "claim_binding \<Rightarrow> 'd fenced \<Rightarrow> bool" where
  "fence_wf expected s = (fence_ok s \<and>
     (\<forall>w \<in> set (fn_outcomes s). \<exists>p v. position_of w p v \<and> pm_semanticScope p = cb_semanticScope expected
        \<and> pm_requiredWriteTarget p = cb_writeTarget expected))"

lemma executed_known:
  assumes "fence_wf expected s" "executed p s = Some v"
  shows "permit_ok p" "pm_semanticScope p = cb_semanticScope expected" "pm_requiredWriteTarget p = cb_writeTarget expected"
proof -
  obtain w where w: "readOutcome (pm_mutationId p) s = Some w" "oc_permit_json w = canonicalJson (permit_json p)"
    using assms(2) by (auto simp: executed_def split: option.splits if_splits)
  then have "w \<in> set (fn_outcomes s)" using assms(1) readOutcome_iff by (auto simp: fence_wf_def)
  then obtain q u where "position_of w q u" "pm_semanticScope q = cb_semanticScope expected"
      "pm_requiredWriteTarget q = cb_writeTarget expected"
    using assms(1) by (auto simp: fence_wf_def)
  moreover from this w have "q = p" by (simp add: position_of_def outcome_of_def permit_text_inj)
  ultimately show "permit_ok p" "pm_semanticScope p = cb_semanticScope expected" "pm_requiredWriteTarget p = cb_writeTarget expected"
    by (auto simp: position_of_def)
qed

lemma fence_run_eq:
  "fence_run expected p e s =
    (if permit_ok p \<and> pm_semanticScope p = cb_semanticScope expected \<and> pm_requiredWriteTarget p = cb_writeTarget expected
     then (case fst (fenced_transaction p (pm_requestDigest p) (fst e) (snd e) s) of Inr (Admitted v) \<Rightarrow> Some v | _ \<Rightarrow> None,
           snd (fenced_transaction p (pm_requestDigest p) (fst e) (snd e) s))
     else (None, s))"
  by (auto simp: fence_run_def runAuthoringFencedMutation_def read_permit_json refusal_def claimRefusal_def split_beta Let_def)

lemma fence_wf_record:
  assumes wf: "fence_wf expected s" and p: "permit_ok p" "pm_semanticScope p = cb_semanticScope expected"
      "pm_requiredWriteTarget p = cb_writeTarget expected" "storable v"
    and new: "readOutcome (pm_mutationId p) s = None"
    and fresh: "\<And>f. readFence (pm_semanticScope p) s = Some f \<Longrightarrow> \<not> isStale p f"
  shows "fence_wf expected (record_mutation p v d s)"
proof -
  have "fence_ok (record_mutation p v d s)"
    using wf fence_ok_record [OF _ p(1,4) new fresh] by (simp add: fence_wf_def)
  moreover have "position_of (outcome_of p v) p v" using p by (simp add: position_of_def)
  ultimately show ?thesis using wf p by (auto simp: fence_wf_def record_mutation_def)
qed

interpretation fence: exactly_once
    "fence_run expected :: mutation_permit \<Rightarrow> ('d \<Rightarrow> js_exn + json \<times> 'd) \<times> int \<Rightarrow> 'd fenced \<Rightarrow> json option \<times> 'd fenced"
    executed canonicalValue "fence_wf expected" storable_mutation
  for expected :: claim_binding
proof unfold_locales
  fix s :: "'d fenced" and p r e
  assume wf: "fence_wf expected s" and ex: "executed p s = Some r"
  show "fence_run expected p e s = (Some r, s)"
    by (rule fenced_cases [of p s "fst e" "snd e"]) (use ex executed_known [OF wf ex] in \<open>simp_all add: fence_run_eq\<close>)
next
  fix s s' :: "'d fenced" and e p r q
  assume wf: "fence_wf expected s" and g: "storable_mutation e" and new: "executed p s = None"
    and run: "fence_run expected p e s = (Some r, s')"
  then have p: "permit_ok p" by (auto simp: fence_run_eq split: if_splits)
  show "executed q s' = (if q = p then Some (canonicalValue r) else executed q s)"
  proof (rule fenced_cases [of p s "fst e" "snd e"])
    fix v d assume a: "readOutcome (pm_mutationId p) s = None" "fst e (fn_data s) = Inr (v, d)"
      "fenced_transaction p (pm_requestDigest p) (fst e) (snd e) s = (Inr (Admitted v), record_mutation p v d s)"
    then have "s' = record_mutation p v d s" "r = v" using run by (auto simp: fence_run_eq split: if_splits)
    moreover have "storable v" using g a(2) unfolding storable_mutation_def by blast
    ultimately show ?thesis
      using executed_record [of s p v q d] a(1) wf by (simp add: fence_wf_def)
  qed (use new run in \<open>auto simp: fence_run_eq split: if_splits sum.splits admission.splits\<close>)
next
  fix s s' :: "'d fenced" and p e
  assume "fence_run expected p e s = (None, s')"
  then show "s' = s"
    by (rule_tac fenced_cases [of p s "fst e" "snd e"]) (auto simp: fence_run_eq split: if_splits sum.splits admission.splits)
next
  fix s :: "'d fenced" and e :: "('d \<Rightarrow> js_exn + json \<times> 'd) \<times> int" and p
  assume wf: "fence_wf expected s" and g: "storable_mutation e"
  show "fence_wf expected (snd (fence_run expected p e s))"
  proof (cases "permit_ok p \<and> pm_semanticScope p = cb_semanticScope expected \<and> pm_requiredWriteTarget p = cb_writeTarget expected")
    case True
    show ?thesis
    proof (rule fenced_cases [of p s "fst e" "snd e"])
      fix v d assume a: "readOutcome (pm_mutationId p) s = None" "fst e (fn_data s) = Inr (v, d)"
        "\<And>f. readFence (pm_semanticScope p) s = Some f \<Longrightarrow> \<not> isStale p f"
        "fenced_transaction p (pm_requestDigest p) (fst e) (snd e) s = (Inr (Admitted v), record_mutation p v d s)"
      have "storable v" using g a(2) unfolding storable_mutation_def by blast
      then have "fence_wf expected (record_mutation p v d s)" using fence_wf_record [OF wf] True a(1,3) by blast
      then show ?thesis using a(4) True by (simp add: fence_run_eq)
    qed (use True wf in \<open>simp_all add: fence_run_eq\<close>)
  next
    case False
    then have "fence_run expected p e s = (None, s)" by (auto simp: fence_run_eq)
    then show ?thesis using wf by simp
  qed
qed

section \<open>Superseded permits\<close>

definition fence_le :: "fence_row \<Rightarrow> fence_row \<Rightarrow> bool" where
  "fence_le f g = (ff_lease_epoch f < ff_lease_epoch g
     \<or> ff_lease_epoch f = ff_lease_epoch g \<and> ff_mutation_sequence f \<le> ff_mutation_sequence g)"

lemma fence_grows_run:
  assumes wf: "fence_wf expected s" and f: "readFence scope s = Some f"
  shows "\<exists>g. readFence scope (snd (fence_run expected p e s)) = Some g \<and> fence_le f g"
proof (cases "permit_ok p \<and> pm_semanticScope p = cb_semanticScope expected \<and> pm_requiredWriteTarget p = cb_writeTarget expected")
  case True
  show ?thesis
  proof (rule fenced_cases [of p s "fst e" "snd e"])
    fix v d
    assume fresh: "\<And>f. readFence (pm_semanticScope p) s = Some f \<Longrightarrow> \<not> isStale p f"
      and eq: "fenced_transaction p (pm_requestDigest p) (fst e) (snd e) s = (Inr (Admitted v), record_mutation p v d s)"
    have s': "snd (fence_run expected p e s) = record_mutation p v d s" using True eq by (simp add: fence_run_eq)
    have "readFence scope (record_mutation p v d s) = (if scope = pm_semanticScope p then Some (fence_of p) else readFence scope s)"
      by (simp add: readFence_def record_mutation_def select_key_upsert fence_of_def)
    moreover have "fence_le f (fence_of p)" if "scope = pm_semanticScope p"
      using fresh f that by (auto simp: isStale_def fence_le_def fence_of_def)
    ultimately show ?thesis using f unfolding s' by (auto simp: fence_le_def)
  qed (use f True in \<open>auto simp: fence_run_eq fence_le_def\<close>)
qed (use f in \<open>auto simp: fence_run_eq fence_le_def\<close>)

lemma fence_grows:
  "fence_wf expected s \<Longrightarrow> \<forall>d \<in> set ds. storable_mutation (snd d) \<Longrightarrow> readFence scope s = Some f \<Longrightarrow>
    \<exists>g. readFence scope (fence.deliver expected ds s) = Some g \<and> fence_le f g"
proof (induction ds arbitrary: s f)
  case (Cons d ds)
  obtain g where g: "readFence scope (snd (fence_run expected (fst d) (snd d) s)) = Some g" "fence_le f g"
    using fence_grows_run Cons.prems by blast
  moreover have "fence_wf expected (snd (fence_run expected (fst d) (snd d) s))"
    using Cons.prems by (intro fence.wf_run) auto
  ultimately obtain h where "readFence scope (fence.deliver expected ds (snd (fence_run expected (fst d) (snd d) s))) = Some h" "fence_le g h"
    using Cons.IH Cons.prems by force
  then show ?case using g(2) by (cases d) (auto simp: fence_le_def)
qed (auto simp: fence_le_def)

definition superseded :: "mutation_permit \<Rightarrow> 'd fenced \<Rightarrow> bool" where
  "superseded q s = (executed q s = None \<and> (\<exists>f. readFence (pm_semanticScope q) s = Some f \<and> not_after q f))"

lemma superseded_run:
  assumes "superseded q s"
  shows "fence_run expected q e s = (None, s)"
proof -
  obtain f where f: "readFence (pm_semanticScope q) s = Some f" "not_after q f" and ex: "executed q s = None"
    using assms by (auto simp: superseded_def)
  have "isStale q f" using f(2) by (auto simp: not_after_def isStale_def)
  then show ?thesis
    by (rule_tac fenced_cases [of q s "fst e" "snd e"])
      (use f(1) ex in \<open>auto simp: fence_run_eq split: sum.splits admission.splits\<close>)
qed

lemma superseded_stays:
  "fence_wf expected s \<Longrightarrow> \<forall>d \<in> set ds. storable_mutation (snd d) \<Longrightarrow> superseded q s \<Longrightarrow> superseded q (fence.deliver expected ds s)"
proof (induction ds arbitrary: s)
  case (Cons d ds)
  obtain p e where d: "d = (p, e)" by (cases d) auto
  let ?s = "snd (fence_run expected p e s)"
  have wf: "fence_wf expected ?s" using Cons.prems d by (intro fence.wf_run) auto
  obtain r s' where run: "fence_run expected p e s = (r, s')" by fastforce
  have "executed q ?s = None"
  proof (cases "p = q \<or> r = None \<or> executed p s \<noteq> None")
    case True
    then have "?s = s"
      using superseded_run [OF Cons.prems(3), of expected e] fence.refused [OF Cons.prems(1), of p e s']
        fence.again [OF Cons.prems(1), of p _ e] run by auto
    then show ?thesis using Cons.prems(3) by (simp add: superseded_def)
  next
    case False
    then obtain v where v: "fence_run expected p e s = (Some v, s')" "executed p s = None" "q \<noteq> p" using run by auto
    then show ?thesis using fence.first [OF Cons.prems(1) _ v(2,1), of q] Cons.prems d by (simp add: superseded_def)
  qed
  moreover obtain f where "readFence (pm_semanticScope q) s = Some f" "not_after q f"
    using Cons.prems(3) by (auto simp: superseded_def)
  moreover from this obtain g where "readFence (pm_semanticScope q) ?s = Some g" "fence_le f g"
    using fence_grows_run [OF Cons.prems(1)] by blast
  ultimately have "superseded q ?s" by (auto simp: superseded_def not_after_def fence_le_def)
  then show ?case using Cons.IH [OF wf] Cons.prems d by simp
qed simp

lemma executed_fence:
  assumes "fence_wf expected s" "executed p s = Some v"
  shows "\<exists>f. readFence (pm_semanticScope p) s = Some f \<and> not_after p f"
proof -
  have ok: "fence_ok s" using assms(1) by (simp add: fence_wf_def)
  obtain w where w: "readOutcome (pm_mutationId p) s = Some w" "oc_permit_json w = canonicalJson (permit_json p)"
    using assms(2) by (auto simp: executed_def split: option.splits if_splits)
  then have "w \<in> set (fn_outcomes s)" using readOutcome_iff [OF ok] by auto
  then obtain q u f where q: "position_of w q u" "f \<in> set (fn_fences s)" "ff_semantic_scope f = pm_semanticScope q" "not_after q f"
    using ok by (auto simp: fence_ok_def)
  then have "q = p" using w by (simp add: position_of_def outcome_of_def permit_text_inj)
  then show ?thesis using q readFence_iff [OF ok] by auto
qed

section \<open>Claims\<close>

definition sample_permit :: "int \<Rightarrow> string \<Rightarrow> mutation_permit" where
  "sample_permit n digest = \<lparr>pm_mutationId = mutation_id 1 n digest, pm_operationId = ''operation:'' @ digest,
     pm_requestDigest = digest, pm_mutationSequence = n, pm_semanticScope = ''operator-registry'', pm_claimId = ''claim-1'',
     pm_leaseEpoch = 1, pm_leaseExpiresAtMs = 1000, pm_fenceRevision = ''rev-1'', pm_requiredWriteTarget = ''registry'',
     pm_reservedAtMs = 5\<rparr>"

definition sample_mutation :: "(int \<Rightarrow> js_exn + json \<times> int) \<times> int" where
  "sample_mutation = (\<lambda>d. Inr (JBool True, d + 1), 10)"

definition sample_fenced :: "int fenced" where
  "sample_fenced = \<lparr>fn_fences = [], fn_outcomes = [], fn_data = 0\<rparr>"

lemma sample_permit_ok:
  "permit_ok (sample_permit 1 (replicate 64 (CHR ''a'')))" "permit_ok (sample_permit 2 (replicate 64 (CHR ''a'')))"
  by code_simp+

lemma sample_mutation_good: "storable_mutation sample_mutation"
  by (simp add: storable_mutation_def sample_mutation_def)

lemma sample_fenced_wf: "fence_wf AGENT_REGISTRY_CLAIM sample_fenced"
  by (simp add: fence_wf_def fence_ok_def sample_fenced_def)

lemma sample_fence_run:
  "fence_run AGENT_REGISTRY_CLAIM (sample_permit 2 (replicate 64 (CHR ''a''))) sample_mutation sample_fenced =
    (Some (JBool True), record_mutation (sample_permit 2 (replicate 64 (CHR ''a''))) (JBool True) 1 sample_fenced)"
  using sample_permit_ok(2)
  by (simp add: fence_run_eq fenced_transaction_def readOutcome_def readFence_def sample_fenced_def sample_mutation_def select_key_Nil max_safe_def)
    (simp add: sample_permit_def AGENT_REGISTRY_CLAIM_def)

text \<open>
  C5. A fenced mutation runs exactly once: after the delivery that executed it, however often it and
  other permits are delivered again, in whatever order and with whatever mutations, every further
  delivery of it answers with the stored result and changes nothing, and dropping the repeated
  deliveries gives the same state; the one execution applied the mutation to the data.
\<close>

theorem fenced_mutation_once:
  assumes "fence_wf expected s" "storable_mutation e" "executed p s = None"
    and "fence_run expected p e s = (Some v, s1)" "\<forall>d \<in> set ds. storable_mutation (snd d)"
  shows "fence_run expected p e' (fence.deliver expected ds s1) = (Some (canonicalValue v), fence.deliver expected ds s1)
    \<and> fence.deliver expected (filter (\<lambda>d. fst d \<noteq> p) ds) s1 = fence.deliver expected ds s1
    \<and> fst e (fn_data s) = Inr (v, fn_data s1)"
proof -
  have wf1: "fence_wf expected s1" using fence.wf_run [OF assms(1,2), of p] assms(4) by simp
  have "executed p s1 = Some (canonicalValue v)" using fence.first [OF assms(1-4)] by simp
  then have "fence.deliver expected (filter (\<lambda>d. fst d \<noteq> p) ds) s1 = fence.deliver expected ds s1"
    using fence.drop_repeats [OF wf1 assms(5)] by blast
  moreover have "fst e (fn_data s) = Inr (v, fn_data s1)"
    by (rule fenced_cases [of p s "fst e" "snd e"])
      (use assms(3,4) in \<open>auto simp: fence_run_eq record_mutation_def split: if_splits sum.splits admission.splits\<close>)
  ultimately show ?thesis using fence.retry [OF assms] by simp
qed

theorem fenced_mutation_once_witness:
  "\<exists>s1. fence_run AGENT_REGISTRY_CLAIM (sample_permit 2 (replicate 64 (CHR ''a''))) sample_mutation sample_fenced = (Some (JBool True), s1)
    \<and> fence_run AGENT_REGISTRY_CLAIM (sample_permit 2 (replicate 64 (CHR ''a''))) sample_mutation s1 = (Some (JBool True), s1)"
proof -
  have "executed (sample_permit 2 (replicate 64 (CHR ''a''))) sample_fenced = None"
    by (simp add: executed_def readOutcome_def sample_fenced_def select_key_Nil)
  from fenced_mutation_once [OF sample_fenced_wf sample_mutation_good this sample_fence_run, of "[]" sample_mutation]
  show ?thesis by (auto simp: sample_fence_run)
qed

text \<open>
  C19. Superseded permits are refused for good: once a permit has been executed, a permit of the same
  scope that has not been executed and has a smaller lease epoch, or the same epoch and no greater
  sequence number, is refused at every later time, and its deliveries change nothing.
\<close>

theorem superseded_refused:
  assumes "fence_wf expected s" "executed p s = Some v" "executed q s = None" "pm_semanticScope q = pm_semanticScope p"
    and "pm_leaseEpoch q < pm_leaseEpoch p \<or> pm_leaseEpoch q = pm_leaseEpoch p \<and> pm_mutationSequence q \<le> pm_mutationSequence p"
    and "\<forall>d \<in> set ds. storable_mutation (snd d)"
  shows "fence_run expected q e (fence.deliver expected ds s) = (None, fence.deliver expected ds s)"
proof -
  obtain f where "readFence (pm_semanticScope p) s = Some f" "not_after p f" using executed_fence [OF assms(1,2)] by blast
  then have "superseded q s" using assms(3-5) by (auto simp: superseded_def not_after_def)
  then show ?thesis by (intro superseded_run superseded_stays assms)
qed

theorem superseded_refused_witness:
  "\<exists>s1. fence_run AGENT_REGISTRY_CLAIM (sample_permit 1 (replicate 64 (CHR ''a''))) sample_mutation s1 = (None, s1)
    \<and> fn_data s1 = 1"
proof -
  let ?p = "sample_permit 2 (replicate 64 (CHR ''a''))" and ?q = "sample_permit 1 (replicate 64 (CHR ''a''))"
  let ?s1 = "record_mutation ?p (JBool True) 1 sample_fenced"
  have new: "executed x sample_fenced = None" for x by (simp add: executed_def readOutcome_def sample_fenced_def select_key_Nil)
  have ne: "?q \<noteq> ?p" by (simp add: sample_permit_def)
  have wf: "fence_wf AGENT_REGISTRY_CLAIM ?s1"
    using fence.wf_run [OF sample_fenced_wf sample_mutation_good, of ?p] by (simp add: sample_fence_run)
  have "executed ?p ?s1 = Some (JBool True)" "executed ?q ?s1 = None"
    using fence.first [OF sample_fenced_wf sample_mutation_good new sample_fence_run] ne by (simp_all add: new)
  from superseded_refused [OF wf this, of "[]" sample_mutation]
  have "fence_run AGENT_REGISTRY_CLAIM ?q sample_mutation ?s1 = (None, ?s1)" by (simp add: sample_permit_def)
  then show ?thesis by (auto simp: record_mutation_def intro!: exI [of _ ?s1])
qed

end
