(* ===== verification/Authoring_Claims.thy ===== *)
theory Authoring_Claims imports Authoring_Invariants Authoring_Fence begin

text \<open>
  The claims about the coordinator of authoring claims and about the permits it issues: exclusive
  write targets, idempotent begin and complete, and that a fresh permit passes the fence of an object
  that has only executed permits of this coordinator.
\<close>

section \<open>Issued permits\<close>

definition issued :: "authoring \<Rightarrow> mutation_permit \<Rightarrow> bool" where
  "issued s p = (permit_ok p \<and> (reservation_of p \<in> set (au_reservations s) \<or> (\<exists>t. completion_of p t \<in> set (au_completions s))))"

text \<open>An issued permit is of the claim that holds its scope, or of an earlier one.\<close>

definition under_row :: "mutation_permit \<Rightarrow> claim_row \<Rightarrow> bool" where
  "under_row p r = (ac_semantic_scope r = pm_semanticScope p
     \<and> (pm_leaseEpoch p < cl_leaseEpoch (held r)
        \<or> pm_leaseEpoch p = cl_leaseEpoch (held r) \<and> pm_claimId p = cl_claimId (held r)
          \<and> pm_fenceRevision p = cl_fenceRevision (held r) \<and> pm_leaseExpiresAtMs p = cl_leaseExpiresAtMs (held r)))"

definition issued_ok :: "authoring \<Rightarrow> bool" where
  "issued_ok s = (\<forall>p. issued s p \<longrightarrow>
     pm_mutationSequence p \<le> seq_of (pm_semanticScope p) (au_sequences s) \<and> (\<exists>r \<in> set (au_claims s). under_row p r))"

lemma issued_okD:
  assumes "issued_ok s" "issued s p"
  shows "pm_mutationSequence p \<le> seq_of (pm_semanticScope p) (au_sequences s)" "\<exists>r \<in> set (au_claims s). under_row p r"
  using assms by (auto simp: issued_ok_def)

lemma permit_of_under: "permit_of_row p r \<Longrightarrow> under_row p r"
  by (auto simp: permit_of_row_def under_row_def)

lemma reservation_of_inj: "reservation_of p = reservation_of q \<longleftrightarrow> p = q"
  by (auto simp: reservation_of_def permit_text_inj)

lemma issued_cong:
  "au_reservations s' = au_reservations s \<Longrightarrow> au_completions s' = au_completions s \<Longrightarrow> issued s' p = issued s p"
  by (simp add: issued_def)

lemma issued_acquire:
  assumes "tables_ok s" "issued_ok s"
  shows "issued_ok (snd (acquire v now s))"
  using acquire_cases [OF assms(1), of v now]
proof (elim disjE conjE)
  assume acq: "acquirable v now s" and eq: "acquire v now s =
      (Inr (claimAccepted (claim_of v)), s\<lparr>au_claims := upsert ac_semantic_scope (claim_row_of v) (au_claims s)\<rparr>)"
  let ?row = "claim_row_of v" let ?s = "snd (acquire v now s)"
  have valid: "validClaim v now" using acq by (simp add: acquirable_def)
  have key: "ac_semantic_scope ?row = cl_semanticScope (claim_of v)" by (simp add: claim_row_of_def Let_def)
  have set: "set (au_claims ?s) = insert ?row {r \<in> set (au_claims s). ac_semantic_scope r \<noteq> ac_semantic_scope ?row}"
    unfolding eq by (simp add: set_upsert_eq)
  have "\<exists>q \<in> set (au_claims ?s). under_row p q" if r: "r \<in> set (au_claims s)" "under_row p r" for p r
  proof (cases "ac_semantic_scope r = ac_semantic_scope ?row")
    case True
    then have "cl_leaseEpoch (held r) < cl_leaseEpoch (held ?row)"
      using acq r(1) key by (simp add: acquirable_def held_claim_row_of [OF valid])
    then have "under_row p ?row" using r(2) True by (auto simp: under_row_def)
    then show ?thesis using set by blast
  qed (use r set in blast)
  moreover have "issued ?s p = issued s p" "seq_of k (au_sequences ?s) = seq_of k (au_sequences s)" for p k
    unfolding eq by (simp_all add: issued_def)
  ultimately show ?thesis using assms(2) by (fastforce simp: issued_ok_def)
qed (use assms in simp)

lemma issued_grant:
  assumes "granted p r now s"
  shows "issued (grant p s) q \<longleftrightarrow> issued s q \<or> q = p"
  using assms by (auto simp: issued_def granted_def reservation_of_inj)

lemma seq_of_mono: "seq_of k t \<le> seq_of k (snd (next_mutation scope t))"
  by (simp add: next_mutation_facts(2))

lemma issued_begin:
  assumes "tables_ok s" "issued_ok s"
  shows "issued_ok (snd (beginMutation v operationId requestDigest now s))"
  using begin_cases [OF assms(1), of v operationId requestDigest now]
proof (elim disjE exE conjE)
  fix scope
  assume eq: "snd (beginMutation v operationId requestDigest now s) = s\<lparr>au_sequences := snd (next_mutation scope (au_sequences s))\<rparr>"
  have "pm_mutationSequence p \<le> seq_of (pm_semanticScope p) (snd (next_mutation scope (au_sequences s)))" if "issued s p" for p
    using issued_okD(1) [OF assms(2) that] seq_of_mono order_trans by blast
  then show ?thesis using issued_okD(2) [OF assms(2)] unfolding eq issued_ok_def by (simp add: issued_def)
next
  fix p r request
  assume gr: "granted p r now s" and eq: "beginMutation v operationId requestDigest now s = (Inr (Admitted p), grant p s)"
  have "pm_mutationSequence p \<le> seq_of (pm_semanticScope p) (au_sequences (grant p s))"
    using gr by (simp add: granted_def next_mutation_facts(2))
  moreover have "\<exists>r \<in> set (au_claims s). under_row p r" using gr permit_of_under by (auto simp: granted_def)
  moreover have "pm_mutationSequence q \<le> seq_of (pm_semanticScope q) (au_sequences (grant p s))" if "issued s q" for q
    using issued_okD(1) [OF assms(2) that] seq_of_mono order_trans by (metis grant_fields(5))
  ultimately show ?thesis
    using issued_okD(2) [OF assms(2)] by (auto simp: eq issued_ok_def issued_grant [OF gr])
qed (use assms in simp)

lemma issued_complete:
  assumes "tables_ok s" "issued_ok s"
  shows "issued_ok (snd (completeMutation v now s))"
proof (cases "readClaimMutationPermit v")
  case (Some p)
  have "issued (finish_mutation p now s) q \<Longrightarrow> issued s q" if "readReservation (pm_semanticScope p) s = Some p" for q
  proof -
    have "issued s p" using that stored_reservation [OF assms(1)] by (simp add: issued_def)
    moreover have "completion_of q t = completion_of p now \<Longrightarrow> q = p" for t
      by (auto simp: completion_of_def permit_text_inj)
    ultimately show "issued (finish_mutation p now s) q \<Longrightarrow> issued s q"
      by (auto simp: issued_def finish_mutation_def set_insert_ignore split: if_splits)
  qed
  then show ?thesis using assms(2)
    by (auto simp: complete_cases [OF assms(1) Some] issued_ok_def finish_mutation_def)
qed (use assms in \<open>simp add: completeMutation_def\<close>)

lemma issued_rows:
  assumes "issued_ok s" "\<And>p r. under_row p (f r) = under_row p r"
  shows "issued_ok (s\<lparr>au_claims := map f (au_claims s)\<rparr>)"
  using assms by (auto simp: issued_ok_def issued_def)

lemma issued_release:
  assumes "issued_ok s"
  shows "issued_ok (snd (release scope claimId epoch revision now s))"
proof -
  have "issued_ok (s\<lparr>au_claims :=
      map (\<lambda>r. if releasable scope claimId (the_int epoch) revision now r then r\<lparr>ac_released_at_ms := Some now\<rparr> else r) (au_claims s)\<rparr>)"
    by (rule issued_rows [OF assms]) (simp add: under_row_def)
  then show ?thesis using assms by (simp add: release_def update_where_def split_beta Let_def)
qed

lemma issued_preserve:
  assumes "issued_ok s"
  shows "issued_ok (snd (preserveMutationReconciliation v evidence now s))"
  using assms by (simp add: preserveMutationReconciliation_def Let_def issued_ok_def issued_def split: option.split)

lemma run_tables: "authoring_run strict t s \<Longrightarrow> tables_ok s"
  using authoring_run_ok by (auto simp: authoring_ok_def)

lemma authoring_run_issued: "authoring_run strict t s \<Longrightarrow> issued_ok s"
proof (induction rule: authoring_run.induct)
  case (run_start t)
  then show ?case by (simp add: issued_ok_def issued_def empty_authoring_def)
qed (blast intro: issued_release issued_acquire issued_begin issued_complete issued_preserve run_tables)+


section \<open>Mutation ids\<close>

lemma int_text_inj: "int_text i = int_text j \<Longrightarrow> i = j"
  using parse_number_int [of "[]" i] parse_number_int [of "[]" j] by simp

lemma int_text_no_colon: "CHR '':'' \<notin> set (int_text i)"
proof -
  have "\<not> is_digit (CHR '':'')" by (simp add: is_digit_def digits_def)
  then have "CHR '':'' \<notin> set (nat_text n)" for n
    using nat_text_digits [of n] by (auto simp: list_all_iff simp del: nat_text.simps)
  then show ?thesis by (simp add: int_text_def del: nat_text.simps)
qed

lemma split_colon:
  assumes "xs @ CHR '':'' # as = ys @ CHR '':'' # bs" "CHR '':'' \<notin> set xs" "CHR '':'' \<notin> set ys"
  shows "xs = ys \<and> as = bs"
  using assms
proof (induction xs arbitrary: ys)
  case Nil
  then show ?case by (cases ys) auto
next
  case (Cons x xs)
  then show ?case by (cases ys) auto
qed

lemma mutation_id_inj:
  assumes "mutation_id e n d = mutation_id e' n' d'"
  shows "e = e' \<and> n = n'"
proof -
  have "int_text e @ CHR '':'' # (int_text n @ CHR '':'' # take 32 d) = int_text e' @ CHR '':'' # (int_text n' @ CHR '':'' # take 32 d')"
    using assms by (simp add: mutation_id_def)
  from split_colon [OF this int_text_no_colon int_text_no_colon]
  have e: "int_text e = int_text e'" and rest: "int_text n @ CHR '':'' # take 32 d = int_text n' @ CHR '':'' # take 32 d'"
    by simp_all
  from split_colon [OF rest int_text_no_colon int_text_no_colon] e int_text_inj show ?thesis by blast
qed

section \<open>A concrete history\<close>

definition sample_claim :: "string \<Rightarrow> string \<Rightarrow> json" where
  "sample_claim scope claimId = JObj [
     (''claimId'', JStr claimId), (''actorId'', JStr ''actor''), (''deviceId'', JStr ''device''),
     (''sessionId'', JStr ''session''), (''worktree'', JStr ''tree''), (''branch'', JStr ''main''),
     (''semanticScope'', JStr scope), (''declaredWriteSet'', JArr [JStr ''registry'']),
     (''leaseEpoch'', JNum (Integer 1)), (''leaseExpiresAtMs'', JNum (Integer 1000)), (''fenceRevision'', JStr ''rev-1'')]"

definition sample_request :: "string \<Rightarrow> string \<Rightarrow> json" where
  "sample_request scope claimId = JObj [
     (''semanticScope'', JStr scope), (''claimId'', JStr claimId), (''leaseEpoch'', JNum (Integer 1)),
     (''fenceRevision'', JStr ''rev-1''), (''requiredWriteTarget'', JStr ''registry'')]"

definition digest_a :: string where "digest_a = replicate 64 (CHR ''a'')"
definition digest_b :: string where "digest_b = replicate 64 (CHR ''b'')"

text \<open>The operation id the code derives from a request digest.\<close>

definition sample_operation :: "string \<Rightarrow> string" where
  "sample_operation d = ''operation:'' @ d"

definition claimed :: authoring where
  "claimed = snd (acquire (sample_claim ''operator-registry'' ''claim-1'') 1 empty_authoring)"

lemma sample_claim_valid:
  "validClaim (sample_claim ''operator-registry'' ''claim-1'') 1" "validClaim (sample_claim ''scope-b'' ''claim-2'') 1"
  by code_simp+

lemma sample_claim_of:
  "claim_of (sample_claim scope claimId) = \<lparr>cl_claimId = claimId, cl_actorId = ''actor'', cl_deviceId = ''device'',
     cl_sessionId = ''session'', cl_worktree = ''tree'', cl_branch = ''main'', cl_semanticScope = scope,
     cl_declaredWriteSet = [''registry''], cl_leaseEpoch = 1, cl_leaseExpiresAtMs = 1000, cl_fenceRevision = ''rev-1''\<rparr>"
  by (simp add: claim_of_def sample_claim_def text_of_def int_of_def strings_of_Some [THEN iffD2, of _ "[''registry'']"])

lemma sample_request_of:
  "readClaimMutationRequest (sample_request ''operator-registry'' ''claim-1'') = Some \<lparr>mr_semanticScope = ''operator-registry'',
     mr_claimId = ''claim-1'', mr_leaseEpoch = 1, mr_fenceRevision = ''rev-1'', mr_requiredWriteTarget = ''registry''\<rparr>"
  "readClaimMutationRequest (sample_request ''scope-b'' ''claim-2'') = Some \<lparr>mr_semanticScope = ''scope-b'',
     mr_claimId = ''claim-2'', mr_leaseEpoch = 1, mr_fenceRevision = ''rev-1'', mr_requiredWriteTarget = ''registry''\<rparr>"
  by code_simp+

lemma digest_patterns_ab:
  "authoringMutationOperationId digest_a = Some (sample_operation digest_a)"
  "authoringMutationOperationId digest_b = Some (sample_operation digest_b)"
  by code_simp+

lemma empty_reads [simp]:
  "active now empty_authoring = []" "readScope k empty_authoring = None" "reservedClaims empty_authoring = []"
  by (simp_all add: empty_authoring_def active_def readScope_def reservedClaims_def select_key_Nil List.map_filter_def)

lemma claimed_eq: "acquire (sample_claim ''operator-registry'' ''claim-1'') 1 empty_authoring =
    (Inr (claimAccepted (claim_of (sample_claim ''operator-registry'' ''claim-1''))),
     empty_authoring\<lparr>au_claims := [claim_row_of (sample_claim ''operator-registry'' ''claim-1'')]\<rparr>)"
  by (simp add: acquire_def acquire_check_def sample_claim_valid store_claim_def Let_def)
    (simp add: empty_authoring_def upsert_def has_key_def)

lemma claimed_run: "authoring_run strict 1 claimed"
  unfolding claimed_def by (rule run_acquire [OF run_start [of _ 1]]) simp


abbreviation row_a :: claim_row where
  "row_a \<equiv> claim_row_of (sample_claim ''operator-registry'' ''claim-1'')"

lemma row_a_claim: "claim_of (row_claim row_a) = claim_of (sample_claim ''operator-registry'' ''claim-1'')"
  using held_claim_row_of [OF sample_claim_valid(1)] by (simp add: held_def)

lemma row_a_fields: "ac_semantic_scope row_a = ''operator-registry''" "ac_claim_id row_a = ''claim-1''"
  "ac_lease_expires_at_ms row_a = 1000" "ac_released_at_ms row_a = None" "ac_lease_epoch row_a = 1"
  "ac_fence_revision row_a = ''rev-1''"
  by (simp_all add: claim_row_of_def Let_def sample_claim_of)

lemma claimed_state: "claimed = empty_authoring\<lparr>au_claims := [row_a]\<rparr>"
  by (simp add: claimed_def claimed_eq)

abbreviation permit_a :: mutation_permit where
  "permit_a \<equiv> sample_permit 1 digest_a"

definition permit_b :: mutation_permit where
  "permit_b = (sample_permit 1 digest_b)\<lparr>pm_semanticScope := ''scope-b'', pm_claimId := ''claim-2''\<rparr>"

abbreviation made :: "string \<Rightarrow> string \<Rightarrow> string \<Rightarrow> int \<Rightarrow> mutation_permit option" where
  "made scope claimId d now \<equiv> claimMutationPermit (claim_of (sample_claim scope claimId)) \<lparr>mr_semanticScope = scope,
     mr_claimId = claimId, mr_leaseEpoch = 1, mr_fenceRevision = ''rev-1'', mr_requiredWriteTarget = ''registry''\<rparr>
     (sample_operation d) d 1 now"

lemma permits_made:
  "made ''operator-registry'' ''claim-1'' digest_a 5 = Some permit_a"
  "made ''scope-b'' ''claim-2'' digest_b 5 = Some permit_b"
  by code_simp+

lemma permit_scopes: "pm_semanticScope permit_a = ''operator-registry''" "pm_semanticScope permit_b = ''scope-b''"
  by (simp_all add: sample_permit_def permit_b_def)

lemma permit_ids: "pm_mutationId permit_a \<noteq> pm_mutationId permit_b" "permit_ok permit_a" "permit_ok permit_b"
  by code_simp+

text \<open>A mutation that begins when nothing stands in its way.\<close>

lemma begin_sample:
  assumes idle: "readReservation scope s = None" "\<not> hasReservation scope s" "readCompletion (scope, claimId, 1, sample_operation d) s = None"
    and holder: "readScope scope s = Some v" "claim_of v = claim_of (sample_claim scope claimId)"
    and alone: "\<forall>c \<in> set (active 5 s). cl_claimId (claim_of c) = claimId"
    and seq: "seq_of scope (au_sequences s) = 0"
    and request: "readClaimMutationRequest (sample_request scope claimId) = Some \<lparr>mr_semanticScope = scope,
      mr_claimId = claimId, mr_leaseEpoch = 1, mr_fenceRevision = ''rev-1'', mr_requiredWriteTarget = ''registry''\<rparr>"
    and made: "made scope claimId d 5 = Some p" "pm_semanticScope p = scope"
    and fresh: "\<not> has_key rv_mutation_id (pm_mutationId p) (au_reservations s)"
    and op: "authoringMutationOperationId d = Some (sample_operation d)"
  shows "beginMutation (sample_request scope claimId) (sample_operation d) d 5 s = (Inr (Admitted p), grant p s)"
proof -
  have none: "List.find (\<lambda>c. cl_claimId (claim_of c) \<noteq> claimId \<and> P c) (active 5 s) = None" for P
    using alone by (auto simp: find_None_iff)
  have adm: "mutationAdmission (sample_request scope claimId) 5 s = Admitted (claim_of (sample_claim scope claimId))"
    by (simp add: mutationAdmission_def request holder claimAccepted_def max_safe_def)
      (simp add: sample_claim_of none claimAccepted_def)
  have seqno: "next_mutation scope (au_sequences s) = (1, snd (next_mutation scope (au_sequences s)))"
    using next_mutation_facts(1) [of scope "au_sequences s"] by (simp add: seq prod_eq_iff)
  have "reserve_mutation (claim_of (sample_claim scope claimId)) \<lparr>mr_semanticScope = scope,
     mr_claimId = claimId, mr_leaseEpoch = 1, mr_fenceRevision = ''rev-1'', mr_requiredWriteTarget = ''registry''\<rparr>
     (sample_operation d) d 5 s = (Inr (Some p), grant p s)"
    unfolding reserve_mutation_def mutation_request.select_convs
    by (subst seqno) (use idle(2) in \<open>simp add: made grant_def fresh hasReservation_def\<close>)
  then show ?thesis
    by (simp add: beginMutation_def request op idle adm holder max_safe_def Let_def)
qed

lemma begin_a:
  "beginMutation (sample_request ''operator-registry'' ''claim-1'') (sample_operation digest_a) digest_a 5 claimed =
     (Inr (Admitted permit_a), grant permit_a claimed)"
  by (rule begin_sample [OF _ _ _ _ row_a_claim _ _ sample_request_of(1) permits_made(1) permit_scopes(1) _ digest_patterns_ab(1)])
    (simp_all add: claimed_state empty_authoring_def readReservation_def hasReservation_def has_key_def readCompletion_def
        readScope_def select_key_def row_a_fields active_def live_row_def seq_of_def row_a_claim, simp add: sample_claim_of)

lemma granted_run: "authoring_run strict 5 (grant permit_a claimed)"
proof -
  have "scope_of_request (sample_request ''operator-registry'' ''claim-1'') = ''operator-registry''"
    by (simp add: scope_of_request_def sample_request_def text_of_def)
  then have "unreleased (sample_request ''operator-registry'' ''claim-1'') claimed"
    by (simp add: unreleased_def claimed_state row_a_fields)
  with run_begin [OF claimed_run, of 5 strict "sample_request ''operator-registry'' ''claim-1''" "sample_operation digest_a" digest_a]
  show ?thesis by (simp add: begin_a)
qed

section \<open>Claims\<close>

text \<open>
  C4. Mutations in flight share a write target only through a released claim: along every history of the
  coordinator whose clock does not go back, two reserved mutations of different scopes have different targets
  unless the claim of one of the two scopes has been released, and always when no mutation was begun under a
  released claim; no live claim of another scope may write the target of a reserved mutation, even after the
  lease of its own claim has run out; and the live claims have pairwise disjoint write sets.
\<close>

theorem in_flight_exclusive:
  assumes run: "authoring_run strict t s" and p: "readReservation scope s = Some p"
  shows "(\<forall>scope' q. scope' \<noteq> scope \<longrightarrow> readReservation scope' s = Some q \<longrightarrow>
        pm_requiredWriteTarget q \<noteq> pm_requiredWriteTarget p
        \<or> \<not> strict \<and> (\<exists>r \<in> set (au_claims s). ac_semantic_scope r \<in> {scope, scope'} \<and> ac_released_at_ms r \<noteq> None))
    \<and> (\<forall>c \<in> set (current t s). cl_semanticScope c \<noteq> scope \<longrightarrow> pm_requiredWriteTarget p \<notin> set (cl_declaredWriteSet c))
    \<and> (\<forall>c \<in> set (current t s). \<forall>c' \<in> set (current t s). cl_semanticScope c \<noteq> cl_semanticScope c' \<longrightarrow>
         \<not> writeSetsOverlap (cl_declaredWriteSet c) (cl_declaredWriteSet c'))"
proof -
  have ok: "authoring_ok strict t s" by (rule authoring_run_ok [OF run])
  then have tab: "tables_ok s" by (simp add: authoring_ok_def)
  have row: "\<exists>r \<in> set (au_claims s). permit_of_row q r \<and> ac_semantic_scope r = k \<and> reserved_row s r"
    if "readReservation k s = Some q" for k q
  proof -
    have q: "permit_ok q" "pm_semanticScope q = k" "reservation_of q \<in> set (au_reservations s)"
      using that stored_reservation [OF tab] by auto
    then obtain q' r where "permit_ok q'" "reservation_of q = reservation_of q'" "r \<in> set (au_claims s)" "permit_of_row q' r"
      using tab by (fastforce simp: tables_ok_def)
    then show ?thesis using q by (auto simp: reservation_of_inj permit_of_row_def reserved_row_def hasReservation_def has_key_iff intro!: bexI [of _ r] image_eqI [of _ _ "reservation_of q"])
  qed
  have cur: "\<exists>r \<in> set (au_claims s). live_row t r \<and> c = held r \<and> cl_semanticScope c = ac_semantic_scope r"
    if "c \<in> set (current t s)" for c
    using that tab claim_row_ok_fields(1) by (fastforce simp: current_def active_set held_def tables_ok_def)
  obtain r where r: "r \<in> set (au_claims s)" "permit_of_row p r" "ac_semantic_scope r = scope" "reserved_row s r"
    using row [OF p] by blast
  have target: "pm_requiredWriteTarget p \<in> set (cl_declaredWriteSet (held r))" using r(2) by (simp add: permit_of_row_def)
  have "pm_requiredWriteTarget q \<noteq> pm_requiredWriteTarget p"
    if q: "scope' \<noteq> scope" "readReservation scope' s = Some q"
      "strict \<or> (\<forall>r \<in> set (au_claims s). ac_semantic_scope r \<in> {scope, scope'} \<longrightarrow> ac_released_at_ms r = None)" for scope' q
  proof -
    obtain r' where "r' \<in> set (au_claims s)" "permit_of_row q r'" "ac_semantic_scope r' = scope'" "reserved_row s r'"
      using row [OF q(2)] by blast
    then have "disjoint_rows r r'" "pm_requiredWriteTarget q \<in> set (cl_declaredWriteSet (held r'))"
      using ok r q(1,3) by (auto simp: authoring_ok_def reserved_disjoint_def permit_of_row_def)
    then show ?thesis using target by (auto simp: disjoint_rows_def)
  qed
  moreover have "pm_requiredWriteTarget p \<notin> set (cl_declaredWriteSet c)" if c: "c \<in> set (current t s)" "cl_semanticScope c \<noteq> scope" for c
    using cur [OF c(1)] ok r target c(2) unfolding authoring_ok_def writes_ok_def disjoint_rows_def by fastforce
  moreover have "\<not> writeSetsOverlap (cl_declaredWriteSet c) (cl_declaredWriteSet c')"
    if "c \<in> set (current t s)" "c' \<in> set (current t s)" "cl_semanticScope c \<noteq> cl_semanticScope c'" for c c'
    using cur [OF that(1)] cur [OF that(2)] ok that(3)
    unfolding authoring_ok_def writes_ok_def disjoint_rows_def writeSetsOverlap_iff by fastforce
  ultimately show ?thesis by blast
qed

lemma reserved_a: "readReservation ''operator-registry'' (grant permit_a claimed) = Some permit_a"
proof -
  have "permit_ok permit_a" using sample_permit_ok(1) by (simp add: digest_a_def)
  then show ?thesis
    using stored_reservation [OF run_tables [OF granted_run [of True]]] by (simp add: sample_permit_def)
qed

theorem in_flight_exclusive_witness:
  "filter (\<lambda>c. cl_semanticScope c \<noteq> ''operator-registry'' \<and> ''registry'' \<in> set (cl_declaredWriteSet c))
     (current 5 (grant permit_a claimed)) = []"
  using in_flight_exclusive [OF granted_run [of False] reserved_a] by (auto simp: filter_empty_conv sample_permit_def)

section \<open>Released claims\<close>

abbreviation row_b :: claim_row where
  "row_b \<equiv> claim_row_of (sample_claim ''scope-b'' ''claim-2'')"

lemma row_b_claim: "claim_of (row_claim row_b) = claim_of (sample_claim ''scope-b'' ''claim-2'')"
  using held_claim_row_of [OF sample_claim_valid(2)] by (simp add: held_def)

lemma row_b_fields: "ac_semantic_scope row_b = ''scope-b''" "ac_claim_id row_b = ''claim-2''"
  "ac_lease_expires_at_ms row_b = 1000" "ac_released_at_ms row_b = None" "ac_lease_epoch row_b = 1"
  "ac_fence_revision row_b = ''rev-1''"
  by (simp_all add: claim_row_of_def Let_def sample_claim_of)

lemma released_claim [simp]: "row_claim (r\<lparr>ac_released_at_ms := x\<rparr>) = row_claim r"
  by (simp add: row_claim_def)

definition released_state :: authoring where
  "released_state = empty_authoring\<lparr>au_claims := [row_a\<lparr>ac_released_at_ms := Some 2\<rparr>, row_b\<lparr>ac_released_at_ms := Some 4\<rparr>]\<rparr>"

lemma sample_ids: "authoring_id ''operator-registry''" "authoring_id ''scope-b''" "authoring_id ''claim-1''"
  "authoring_id ''claim-2''" "authoring_id ''rev-1''" "safe_ge 1 (Integer 1)" "the_int (Integer 1) = 1"
  by code_simp+

lemma released_run: "authoring_run strict 4 released_state"
proof -
  let ?s2 = "empty_authoring\<lparr>au_claims := [row_a\<lparr>ac_released_at_ms := Some 2\<rparr>]\<rparr>"
  let ?s3 = "empty_authoring\<lparr>au_claims := [row_a\<lparr>ac_released_at_ms := Some 2\<rparr>, row_b]\<rparr>"
  have "snd (release ''operator-registry'' ''claim-1'' (Integer 1) ''rev-1'' 2 claimed) = ?s2"
    by (simp add: release_def sample_ids max_safe_def update_where_def releasable_def row_a_fields claimed_state hasReservation_def
        has_key_def) (simp add: empty_authoring_def)
  then have s2: "authoring_run strict 2 ?s2"
    using run_release [OF claimed_run, of 2 strict "''operator-registry''" "''claim-1''" "Integer 1" "''rev-1''"] by simp
  have reads: "active 3 ?s2 = []" "readScope ''scope-b'' ?s2 = None" "reservedClaims ?s2 = []"
    by (simp_all add: active_def live_row_def readScope_def select_key_def row_a_fields reservedClaims_def)
      (simp_all add: empty_authoring_def List.map_filter_def)
  have "store_claim (sample_claim ''scope-b'' ''claim-2'') ?s2 = Inr ?s3"
    by (simp add: store_claim_def Let_def row_a_fields row_b_fields upsert_def has_key_def)
  then have "acquire (sample_claim ''scope-b'' ''claim-2'') 3 ?s2 = (Inr (claimAccepted (claim_of (sample_claim ''scope-b'' ''claim-2''))), ?s3)"
    if "validClaim (sample_claim ''scope-b'' ''claim-2'') 3"
    using that by (simp add: acquire_def acquire_check_def reads Let_def) (simp add: sample_claim_of reads)
  moreover have "validClaim (sample_claim ''scope-b'' ''claim-2'') 3" by code_simp
  ultimately have s3: "authoring_run strict 3 ?s3"
    using run_acquire [OF s2, of 3 "sample_claim ''scope-b'' ''claim-2''"] by simp
  have "snd (release ''scope-b'' ''claim-2'' (Integer 1) ''rev-1'' 4 ?s3) = released_state"
    by (simp add: release_def sample_ids max_safe_def update_where_def releasable_def row_a_fields row_b_fields released_state_def hasReservation_def
        has_key_def) (simp add: empty_authoring_def)
  then show ?thesis using run_release [OF s3, of 4 "''scope-b''" "''claim-2''" "Integer 1" "''rev-1''"] by simp
qed


lemma released_reads:
  "active 5 released_state = []" "readScope ''operator-registry'' released_state = Some (row_claim row_a)"
  "readScope ''scope-b'' released_state = Some (row_claim row_b)" "au_reservations released_state = []"
  "au_completions released_state = []" "au_sequences released_state = []"
  by (simp_all add: released_state_def active_def live_row_def readScope_def select_key_def row_a_fields row_b_fields)
    (simp_all add: empty_authoring_def)

lemma begin_released:
  "beginMutation (sample_request ''operator-registry'' ''claim-1'') (sample_operation digest_a) digest_a 5 released_state =
     (Inr (Admitted permit_a), grant permit_a released_state)"
  "beginMutation (sample_request ''scope-b'' ''claim-2'') (sample_operation digest_b) digest_b 5 (grant permit_a released_state) =
     (Inr (Admitted permit_b), grant permit_b (grant permit_a released_state))"
proof -
  show "beginMutation (sample_request ''operator-registry'' ''claim-1'') (sample_operation digest_a) digest_a 5 released_state =
     (Inr (Admitted permit_a), grant permit_a released_state)"
    by (rule begin_sample [OF _ _ _ _ row_a_claim _ _ sample_request_of(1) permits_made(1) permit_scopes(1) _ digest_patterns_ab(1)])
      (simp_all add: released_reads readReservation_def hasReservation_def has_key_def readCompletion_def select_key_Nil seq_of_def)
  let ?s = "grant permit_a released_state"
  have "seq_of ''scope-b'' (au_sequences ?s) = 0"
    by (simp add: next_mutation_facts(2) permit_scopes released_reads) (simp add: seq_of_def select_key_Nil)
  moreover have "active 5 ?s = []" "readScope ''scope-b'' ?s = Some (row_claim row_b)"
    using released_reads by (simp_all add: active_def readScope_def)
  ultimately show "beginMutation (sample_request ''scope-b'' ''claim-2'') (sample_operation digest_b) digest_b 5 ?s =
     (Inr (Admitted permit_b), grant permit_b ?s)"
    using permit_ids
    by (intro begin_sample [OF _ _ _ _ row_b_claim _ _ sample_request_of(2) permits_made(2) permit_scopes(2) _ digest_patterns_ab(2)])
      (simp_all add: released_reads readReservation_def hasReservation_def has_key_def readCompletion_def select_key_def
        reservation_of_def permit_scopes)
qed

text \<open>
  C24. The exclusion of write targets rests on released claims not being used: a history in which two
  claims are acquired and released one after the other, and a mutation is then begun under each of
  them, ends with two mutations in flight for the same write target. The code looks the holder of a
  scope up without asking whether its claim has been released, while a released claim no longer
  counts as active against others.
\<close>

theorem released_claims_conflict:
  "\<exists>s p q. authoring_run False 5 s \<and> readReservation ''operator-registry'' s = Some p \<and> readReservation ''scope-b'' s = Some q
     \<and> pm_requiredWriteTarget p = pm_requiredWriteTarget q
     \<and> list_all (\<lambda>r. ac_released_at_ms r \<noteq> None) (au_claims s)"
proof -
  let ?s1 = "grant permit_a released_state"
  let ?s2 = "grant permit_b ?s1"
  have "authoring_run False 5 ?s1"
    using run_begin [OF released_run, of 5 False "sample_request ''operator-registry'' ''claim-1''" "sample_operation digest_a" digest_a]
    by (simp add: begin_released)
  then have run: "authoring_run False 5 ?s2"
    using run_begin [of False 5 ?s1 5 "sample_request ''scope-b'' ''claim-2''" "sample_operation digest_b" digest_b]
    by (simp add: begin_released)
  have "readReservation ''operator-registry'' ?s2 = Some permit_a" "readReservation ''scope-b'' ?s2 = Some permit_b"
    using stored_reservation [OF run_tables [OF run]] permit_ids permit_scopes by simp_all
  moreover have "pm_requiredWriteTarget permit_a = pm_requiredWriteTarget permit_b" by (simp add: sample_permit_def permit_b_def)
  moreover have "list_all (\<lambda>r. ac_released_at_ms r \<noteq> None) (au_claims ?s2)" by (simp add: released_state_def)
  ultimately show ?thesis using run by blast
qed


section \<open>The protocol of one mutation\<close>

lemma weaken_ok: "authoring_ok strict t s \<Longrightarrow> authoring_ok False t s"
  by (auto simp: authoring_ok_def reserved_disjoint_def)

text \<open>A begin that admits a permit and changes the state has granted it.\<close>

lemma begin_granted:
  assumes ok: "authoring_ok strict t s" and "t \<le> now" and admit: "beginMutation v op d now s = (Inr (Admitted p), s')" "s' \<noteq> s"
  shows "\<exists>r request. granted p r now s \<and> s' = grant p s \<and> readClaimMutationRequest v = Some request
    \<and> same_mutation p request op d \<and> pm_semanticScope p = mr_semanticScope request
    \<and> authoringMutationOperationId d = Some op \<and> tables_ok s'"
proof -
  have tab: "tables_ok s" using ok by (simp add: authoring_ok_def)
  obtain r request where gr: "granted p r now s" "s' = grant p s" "readClaimMutationRequest v = Some request"
    "same_mutation p request op d" "pm_semanticScope p = mr_semanticScope request"
    using begin_cases [OF tab, of v op d now] admit by auto
  moreover have "authoringMutationOperationId d = Some op"
    using admit(1) gr(3) by (auto simp: beginMutation_def Let_def claimRefusal_def split: if_splits)
  moreover have "tables_ok s'"
    using keep_begin [OF weaken_ok [OF ok] assms(2), of v op d] admit(1) by (simp add: authoring_ok_def)
  ultimately show ?thesis by blast
qed

lemma begin_replays_reserved:
  assumes "readClaimMutationRequest v = Some request" "authoringMutationOperationId d = Some op" "isSafeInteger (Integer now)"
    "readReservation (mr_semanticScope request) s = Some p" "same_mutation p request op d"
  shows "beginMutation v op d now s = (Inr (Admitted p), s)"
  using assms by (simp add: beginMutation_def Let_def)

lemma reservation_absent: "\<not> hasReservation scope s \<Longrightarrow> readReservation scope s = None"
proof -
  assume "\<not> hasReservation scope s"
  then have "select_key rv_semantic_scope scope (au_reservations s) = None"
    by (simp add: hasReservation_def has_key_iff select_key_None)
  then show ?thesis by (simp add: readReservation_def)
qed

lemma begin_replays_completed:
  assumes "readClaimMutationRequest v = Some request" "authoringMutationOperationId d = Some op" "isSafeInteger (Integer now)"
    "\<not> hasReservation (mr_semanticScope request) s"
    "readCompletion (permit_key p) s = Some p" "same_mutation p request op d" "pm_semanticScope p = mr_semanticScope request"
  shows "beginMutation v op d now s = (Inr (Admitted p), s)"
proof -
  have "readReservation (mr_semanticScope request) s = None"
    using assms(4) by (rule reservation_absent)
  moreover have "permit_key p = (mr_semanticScope request, mr_claimId request, mr_leaseEpoch request, op)"
    using assms(6,7) by (simp add: permit_key_def same_mutation_def)
  ultimately show ?thesis using assms
    by (simp add: beginMutation_def Let_def same_mutation_def)
qed

lemma finish_tables:
  assumes "tables_ok s" "permit_ok p"
  shows "tables_ok (finish_mutation p n s)"
proof -
  have "distinct (map f (filter P xs))" if "distinct (map f xs)" for f P and xs :: "reservation_row list"
    using that by (auto simp: distinct_map intro: inj_on_subset)
  then show ?thesis using assms
    by (auto simp: finish_mutation_def tables_ok_def distinct_insert_ignore set_insert_ignore)
qed

lemma finished:
  assumes "tables_ok s" "readCompletion (permit_key p) s = None"
  shows "completion_of p n \<in> set (au_completions (finish_mutation p n s))"
proof -
  have "permit_key p \<notin> completion_key ` set (au_completions s)"
  proof
    assume "permit_key p \<in> completion_key ` set (au_completions s)"
    then obtain w where w: "w \<in> set (au_completions s)" "completion_key w = permit_key p" by force
    then obtain q t where "permit_ok q" "w = completion_of q t" using assms(1) by (fastforce simp: tables_ok_def)
    then have "readCompletion (permit_key p) s = Some q" using stored_completion [OF assms(1)] w by (metis completion_key_of)
    with assms(2) show False by simp
  qed
  then show ?thesis by (simp add: finish_mutation_def set_insert_ignore has_key_iff)
qed

lemma finish_idle:
  assumes "tables_ok s" "readReservation (pm_semanticScope p) s = Some p"
  shows "\<not> hasReservation (pm_semanticScope p) (finish_mutation p n s)"
proof
  assume "hasReservation (pm_semanticScope p) (finish_mutation p n s)"
  then obtain w where w: "w \<in> set (au_reservations s)" "w \<noteq> reservation_of p" "rv_semantic_scope w = pm_semanticScope p"
    by (auto simp: hasReservation_def has_key_iff finish_mutation_def)
  moreover have "reservation_of p \<in> set (au_reservations s)" using assms stored_reservation by blast
  moreover have "inj_on rv_semantic_scope (set (au_reservations s))" using assms(1) by (simp add: tables_ok_def distinct_map)
  ultimately show False by (auto simp: reservation_of_fields dest!: inj_onD [of _ _ w "reservation_of p"])
qed

text \<open>
  C10. Begin and complete are idempotent: after a mutation has been granted, beginning it again gives
  the same permit and changes nothing; completing it succeeds once and completing it again answers
  true and changes nothing; and beginning it again after it is complete gives the completed permit,
  whatever the lease of the claim has become, without a second reservation.
\<close>

theorem begin_complete_protocol:
  assumes run: "authoring_run strict t s" "t \<le> now" and granted: "beginMutation v op d now s = (Inr (Admitted p), s1)" "s1 \<noteq> s"
    and clock: "isSafeInteger (Integer n1)" "safe_ge 0 (Integer n2)" "safe_ge 0 (Integer n3)"
  shows "beginMutation v op d n1 s1 = (Inr (Admitted p), s1)
    \<and> (\<exists>s2. completeMutation (permit_json p) n2 s1 = (True, s2) \<and> completeMutation (permit_json p) n3 s2 = (True, s2)
         \<and> beginMutation v op d n1 s2 = (Inr (Admitted p), s2) \<and> \<not> hasReservation (pm_semanticScope p) s2)"
proof -
  have ok: "authoring_ok strict t s" by (rule authoring_run_ok [OF run(1)])
  obtain r request where gr: "granted p r now s" "s1 = grant p s" and req: "readClaimMutationRequest v = Some request"
    "authoringMutationOperationId d = Some op" "same_mutation p request op d" "pm_semanticScope p = mr_semanticScope request"
    and tab: "tables_ok s1"
    using begin_granted [OF ok run(2) granted] by blast
  have pok: "permit_ok p" using gr(1) by (simp add: granted_def)
  then have read: "readClaimMutationPermit (permit_json p) = Some p" by (simp add: read_permit_json)
  have res: "readReservation (mr_semanticScope request) s1 = Some p"
    using stored_reservation [OF tab] pok req(4) by (simp add: gr(2))
  have none: "readCompletion (permit_key p) s1 = None" using gr(1) by (simp add: gr(2) granted_def readCompletion_def)
  let ?s2 = "finish_mutation p n2 s1"
  have fin: "completeMutation (permit_json p) n2 s1 = (True, ?s2)"
    using clock(2) res req(4) none by (subst complete_cases [OF tab read]) (simp add: abs_le_iff)
  have tab2: "tables_ok ?s2" by (rule finish_tables [OF tab pok])
  have comp: "readCompletion (permit_key p) ?s2 = Some p"
    using finished [OF tab none] by (auto simp: stored_completion [OF tab2] pok)
  have idle: "\<not> hasReservation (mr_semanticScope request) ?s2"
    using finish_idle [OF tab, of p n2] res req(4) by simp
  have "completeMutation (permit_json p) n3 ?s2 = (True, ?s2)"
    using clock(3) comp idle req(4) by (subst complete_cases [OF tab2 read]) (simp add: reservation_absent abs_le_iff)
  then show ?thesis
    using begin_replays_reserved [OF req(1,2) clock(1) res req(3)] fin
      begin_replays_completed [OF req(1,2) clock(1) idle comp req(3,4)] idle req(4) by auto
qed


lemma grant_changes: "grant p s \<noteq> s"
  by (metis grant_def append_self_conv authoring.ext_inject authoring.surjective authoring.update_convs list.discI)

theorem begin_complete_protocol_witness:
  "\<exists>s2. completeMutation (permit_json permit_a) 8 (grant permit_a claimed) = (True, s2)
    \<and> completeMutation (permit_json permit_a) 9 s2 = (True, s2) \<and> \<not> hasReservation ''operator-registry'' s2"
proof -
  have clocks: "isSafeInteger (Integer 7)" "safe_ge 0 (Integer 8)" "safe_ge 0 (Integer 9)" by code_simp+
  show ?thesis
    using begin_complete_protocol [OF claimed_run [of True] _ begin_a grant_changes clocks] permit_scopes(1) by auto
qed

section \<open>A granted permit at the fence\<close>

text \<open>The object has executed permits of this coordinator only.\<close>

definition from_coordinator :: "authoring \<Rightarrow> 'd fenced \<Rightarrow> bool" where
  "from_coordinator s f = ((\<forall>w \<in> set (fn_outcomes f). \<exists>q v. w = outcome_of q v \<and> issued s q)
     \<and> (\<forall>x \<in> set (fn_fences f). \<exists>q. x = fence_of q \<and> issued s q))"

lemma issued_new:
  assumes ok: "issued_ok s" and gr: "granted p r now s" and q: "issued s q" "pm_semanticScope q = pm_semanticScope p"
  shows "pm_mutationSequence q < pm_mutationSequence p"
  using issued_okD(1) [OF ok q(1)] gr q(2) by (simp add: granted_def)

lemma granted_not_stale:
  assumes ok: "issued_ok s" and tab: "tables_ok s" and gr: "granted p r now s"
    and q: "issued s q" "pm_semanticScope q = pm_semanticScope p"
  shows "\<not> isStale p (fence_of q)"
proof -
  obtain r' where r': "r' \<in> set (au_claims s)" "under_row q r'" using issued_okD(2) [OF ok q(1)] by blast
  have r: "r \<in> set (au_claims s)" "permit_of_row p r" using gr by (auto simp: granted_def)
  have "ac_semantic_scope r' = ac_semantic_scope r" using r' r q(2) by (simp add: under_row_def permit_of_row_def)
  then have "r' = r" using tab r' r by (auto simp: tables_ok_def distinct_map dest: inj_onD)
  then have "under_row q r" using r'(2) by simp
  then show ?thesis using r(2) issued_new [OF ok gr q]
    unfolding isStale_def fence_of_def under_row_def permit_of_row_def fence_row.select_convs
    by (metis less_irrefl order.asym not_le)
qed

lemma fence_stays_issued:
  assumes "from_coordinator s f" "issued s p"
  shows "from_coordinator s (record_mutation p v d f)"
  using assms by (fastforce simp: from_coordinator_def record_mutation_def set_upsert_eq)

text \<open>
  C6. A granted permit does its work: when the coordinator has just granted a permit, an object whose
  executed permits all came from this coordinator accepts it before its lease runs out: the mutation
  is applied to the object's data, its value is the answer, and the object has still executed
  permits of this coordinator only.
\<close>

theorem granted_permit_runs:
  assumes run: "authoring_run strict t s" "t \<le> now" and granted: "beginMutation v op d now s = (Inr (Admitted p), s1)" "s1 \<noteq> s"
    and object: "fence_wf expected f" "from_coordinator s f" and mutation: "mutation (fn_data f) = Inr (value', data')"
    and binding: "pm_semanticScope p = cb_semanticScope expected" "pm_requiredWriteTarget p = cb_writeTarget expected"
    and clock: "isSafeInteger (Integer at)" "at < pm_leaseExpiresAtMs p"
  shows "runAuthoringFencedMutation (permit_json p) expected (pm_requestDigest p) mutation at f =
      (Inr (Admitted value'), record_mutation p value' data' f)
    \<and> from_coordinator s1 (record_mutation p value' data' f)"
proof -
  have ok: "authoring_ok strict t s" by (rule authoring_run_ok [OF run(1)])
  have iss: "issued_ok s" by (rule authoring_run_issued [OF run(1)])
  have tab: "tables_ok s" using ok by (simp add: authoring_ok_def)
  obtain r where gr: "granted p r now s" and s1: "s1 = grant p s" using begin_granted [OF ok run(2) granted] by blast
  then have pok: "permit_ok p" by (simp add: granted_def)
  have fok: "fence_ok f" using object(1) by (simp add: fence_wf_def)
  have new: "readOutcome (pm_mutationId p) f = None"
  proof (rule ccontr)
    assume "readOutcome (pm_mutationId p) f \<noteq> None"
    then obtain w where w: "w \<in> set (fn_outcomes f)" "oc_mutation_id w = pm_mutationId p" using readOutcome_iff [OF fok] by auto
    then obtain q u where q: "w = outcome_of q u" "issued s q" using object(2) by (auto simp: from_coordinator_def)
    obtain q' u' where q': "position_of w q' u'" "pm_semanticScope q' = cb_semanticScope expected"
      using object(1) w(1) by (auto simp: fence_wf_def)
    then have scope: "pm_semanticScope q = pm_semanticScope p"
      using q(1) binding(1) by (simp add: position_of_def outcome_of_def permit_text_inj)
    have "pm_mutationId q = pm_mutationId p" using w(2) q(1) by (simp add: outcome_of_def)
    then have "pm_mutationSequence q = pm_mutationSequence p"
      using pok q(2) mutation_id_inj unfolding permit_ok_def issued_def by metis
    then show False using issued_new [OF iss gr q(2) scope] by simp
  qed
  have "\<not> isStale p x" if "readFence (pm_semanticScope p) f = Some x" for x
  proof -
    have "x \<in> set (fn_fences f)" "ff_semantic_scope x = pm_semanticScope p" using that readFence_iff [OF fok] by auto
    then show ?thesis using object(2) granted_not_stale [OF iss tab gr] by (fastforce simp: from_coordinator_def fence_of_def)
  qed
  then have "fenced_transaction p (pm_requestDigest p) mutation at f = (Inr (Admitted value'), record_mutation p value' data' f)"
    using new mutation clock by (simp add: fenced_transaction_def split: option.split)
  moreover have "from_coordinator s1 (record_mutation p value' data' f)"
  proof (rule fence_stays_issued)
    show "from_coordinator s1 f" using object(2) unfolding from_coordinator_def s1 issued_grant [OF gr] by blast
    show "issued s1 p" by (simp add: s1 issued_grant [OF gr])
  qed
  ultimately show ?thesis
    using pok binding by (simp add: runAuthoringFencedMutation_def read_permit_json)
qed

theorem granted_permit_runs_witness:
  "runAuthoringFencedMutation (permit_json permit_a) AGENT_REGISTRY_CLAIM digest_a (\<lambda>n. Inr (JBool True, n + 1)) 10 sample_fenced =
    (Inr (Admitted (JBool True)), record_mutation permit_a (JBool True) 1 sample_fenced)"
proof -
  have "from_coordinator claimed sample_fenced" by (simp add: from_coordinator_def sample_fenced_def)
  moreover have "isSafeInteger (Integer 10)" by code_simp
  ultimately show ?thesis
    using granted_permit_runs [OF claimed_run [of True] _ begin_a grant_changes sample_fenced_wf, of "\<lambda>n. Inr (JBool True, n + 1)" "JBool True" 1 10]
    by (simp add: sample_fenced_def) (simp add: sample_permit_def AGENT_REGISTRY_CLAIM_def)
qed

end
