(* ===== verification/Js_Http.thy ===== *)
theory Js_Http imports Js_Digest "HOL-Library.AList" begin

text \<open>
  Text functions and HTTP messages as the code meets them: the \<open>Headers\<close> class, request and response
  bodies, and \<open>src/src/shared/http.ts\<close>, which reads JSON from a body of bounded size. A body is the
  sizes of the chunks its reader delivers, and the text they decode to.
\<close>

section \<open>Texts\<close>

definition js_space :: "char \<Rightarrow> bool" where
  "js_space c = (c \<in> {CHR 0x09, CHR 0x0A, CHR 0x0B, CHR 0x0C, CHR 0x0D, CHR '' '', CHR 0xA0})"

definition js_trim :: "string \<Rightarrow> string" where
  "js_trim s = rev (dropWhile js_space (rev (dropWhile js_space s)))"

definition lower_char :: "char \<Rightarrow> char" where
  "lower_char c = (if is_upper c then lowers ! position c uppers else c)"

definition upper_char :: "char \<Rightarrow> char" where
  "upper_char c = (if is_lower c then uppers ! position c lowers else c)"

fun starts_with :: "string \<Rightarrow> string \<Rightarrow> bool" where
  "starts_with [] s = True"
| "starts_with (c # cs) [] = False"
| "starts_with (c # cs) (d # ds) = (c = d \<and> starts_with cs ds)"

fun text_includes :: "string \<Rightarrow> string \<Rightarrow> bool" where
  "text_includes s [] = (s = [])"
| "text_includes s (c # cs) = (starts_with s (c # cs) \<or> text_includes s cs)"

lemma starts_with_append [simp]: "starts_with p (p @ s)"
  by (induction p) auto

lemma starts_with_iff: "starts_with p s \<longleftrightarrow> (\<exists>r. s = p @ r)"
  by (induction p s rule: starts_with.induct) auto

lemma includes_iff: "text_includes p s \<longleftrightarrow> (\<exists>l r. s = l @ p @ r)"
proof (induction p s rule: text_includes.induct)
  case (2 p c cs)
  have "(\<exists>l r. c # cs = l @ p @ r) \<longleftrightarrow> starts_with p (c # cs) \<or> (\<exists>l r. cs = l @ p @ r)"
    unfolding starts_with_iff by (metis append_Cons append_Nil list.exhaust list.inject)
  with 2 show ?case by simp
qed auto

section \<open>Headers\<close>

text \<open>
  A \<open>Headers\<close> object, for lower-case names: a value is stored without its leading and trailing blanks, and
  one that still has a NUL or a line break is a TypeError.
\<close>

type_synonym headers = "(string \<times> string) list"

definition http_blank :: "char \<Rightarrow> bool" where
  "http_blank c = (c \<in> {CHR 0x09, CHR 0x0A, CHR 0x0D, CHR '' ''})"

definition strip_blanks :: "string \<Rightarrow> string" where
  "strip_blanks s = rev (dropWhile http_blank (rev (dropWhile http_blank s)))"

definition header_value :: "string \<Rightarrow> string option" where
  "header_value s = (let t = strip_blanks s in
     if list_ex (\<lambda>c. c \<in> {CHR 0x00, CHR 0x0A, CHR 0x0D}) t then None else Some t)"

definition make_headers :: "(string \<times> string) list \<Rightarrow> headers option" where
  "make_headers entries = those (map (\<lambda>(name, v). map_option (Pair name) (header_value v)) entries)"

definition headers_get :: "headers \<Rightarrow> string \<Rightarrow> string option" where
  "headers_get h name = map_of h name"

definition headers_set :: "string \<Rightarrow> string \<Rightarrow> headers \<Rightarrow> headers" where
  "headers_set name v h = AList.update name (strip_blanks v) h"

lemma headers_get_set [simp]: "headers_get (headers_set name v h) k = (if k = name then Some (strip_blanks v) else headers_get h k)"
  by (simp add: headers_get_def headers_set_def update_conv)

lemma strip_blanks_id: "list_all (\<lambda>c. \<not> http_blank c) s \<Longrightarrow> strip_blanks s = s"
proof -
  have drop: "dropWhile http_blank xs = xs" if "\<forall>c \<in> set xs. \<not> http_blank c" for xs
    using that by (cases xs) auto
  then show "list_all (\<lambda>c. \<not> http_blank c) s \<Longrightarrow> strip_blanks s = s"
    by (simp add: strip_blanks_def list_all_iff drop)
qed

section \<open>Bodies\<close>

text \<open>
  \<open>bd_text\<close> is what a decoder makes of the bytes, \<open>bd_valid\<close> whether they are valid UTF-8; a decoder that is
  not fatal replaces what is not.
\<close>

record body =
  bd_chunks :: "nat list"
  bd_text :: string
  bd_valid :: bool

definition body_bytes :: "body \<Rightarrow> nat" where
  "body_bytes b = sum_list (bd_chunks b)"

record http_failure =
  hf_code :: string
  hf_message :: string

definition failure :: "string \<Rightarrow> string \<Rightarrow> http_failure" where
  "failure code message = \<lparr>hf_code = code, hf_message = message\<rparr>"

definition failure_json :: "http_failure \<Rightarrow> json" where
  "failure_json f = JObj [(''ok'', JBool False), (''code'', JStr (hf_code f)), (''message'', JStr (hf_message f))]"

definition isHttpFailure :: "json \<Rightarrow> bool" where
  "isHttpFailure v = (isRecord v \<and> field v ''ok'' = Some (JBool False)
     \<and> is_str (field v ''code'') (\<lambda>_. True) \<and> is_str (field v ''message'') (\<lambda>_. True))"

definition MAX_REQUEST_BYTES :: nat where
  "MAX_REQUEST_BYTES = 65536"

definition bound_message :: "string \<Rightarrow> nat \<Rightarrow> string" where
  "bound_message subject maximumBytes = subject @ '' must not exceed '' @ nat_text maximumBytes @ '' bytes.''"

text \<open>The reading loop: \<open>None\<close> when the bytes read so far exceed the bound, which cancels the reader.\<close>

fun read_chunks :: "nat \<Rightarrow> nat \<Rightarrow> nat list \<Rightarrow> nat option" where
  "read_chunks maximumBytes len [] = Some len"
| "read_chunks maximumBytes len (n # ns) =
     (let len' = len + n in if maximumBytes < len' then None else read_chunks maximumBytes len' ns)"

lemma read_chunks_iff:
  "read_chunks maximumBytes len ns = (if ns = [] \<or> len + sum_list ns \<le> maximumBytes then Some (len + sum_list ns) else None)"
  by (induction maximumBytes len ns rule: read_chunks.induct) (auto simp: Let_def)

text \<open>The decoded bytes of a body, of no body the empty text.\<close>

definition readBoundedBytes :: "body option \<Rightarrow> nat \<Rightarrow> http_failure + (string \<times> bool)" where
  "readBoundedBytes b maximumBytes =
     (case b of None \<Rightarrow> Inr ('''', True)
      | Some body \<Rightarrow>
          (case read_chunks maximumBytes 0 (bd_chunks body) of
             None \<Rightarrow> Inl (failure ''body_too_large'' (bound_message ''Request body'' maximumBytes))
           | Some _ \<Rightarrow> Inr (bd_text body, bd_valid body)))"

text \<open>\<open>/^\d+$/u\<close> and a safe integer that does not exceed the bound.\<close>

definition declared_length_ok :: "nat \<Rightarrow> string option \<Rightarrow> bool" where
  "declared_length_ok maximumBytes declared =
     (case declared of None \<Rightarrow> True
      | Some s \<Rightarrow> s \<noteq> [] \<and> list_all is_digit s \<and> int (digits_value s) \<le> max_safe \<and> digits_value s \<le> maximumBytes)"

definition parse_fatal :: "string \<times> bool \<Rightarrow> json option" where
  "parse_fatal bytes = (if snd bytes then json_parse (fst bytes) else None)"

definition media_type :: "string option \<Rightarrow> string" where
  "media_type v = (case v of None \<Rightarrow> '''' | Some s \<Rightarrow> map lower_char (js_trim (takeWhile (\<lambda>c. c \<noteq> CHR '';'') s)))"

definition readJsonObject :: "headers \<Rightarrow> body option \<Rightarrow> nat \<Rightarrow> http_failure + json" where
  "readJsonObject h b maximumBytes =
     (if media_type (headers_get h ''content-type'') \<noteq> ''application/json''
      then Inl (failure ''content_type_required'' ''Content-Type must be application/json.'')
      else if \<not> declared_length_ok maximumBytes (headers_get h ''content-length'')
      then Inl (failure ''body_too_large'' (bound_message ''Request body'' maximumBytes))
      else case readBoundedBytes b maximumBytes of
        Inl f \<Rightarrow> Inl f
      | Inr bytes \<Rightarrow>
          (case parse_fatal bytes of
             None \<Rightarrow> Inl (failure ''json_malformed'' ''Request body is not valid UTF-8 JSON.'')
           | Some v \<Rightarrow> if isRecord v then Inr v
               else Inl (failure ''json_object_required'' ''Request body must be one JSON object.'')))"

text \<open>A response that cannot be read is a failure value, which the caller receives as the payload.\<close>

definition readJsonResponse :: "headers \<Rightarrow> body option \<Rightarrow> nat \<Rightarrow> json" where
  "readJsonResponse h b maximumBytes =
     (if \<not> declared_length_ok maximumBytes (headers_get h ''content-length'')
      then failure_json (failure ''response_too_large'' (bound_message ''Response body'' maximumBytes))
      else case readBoundedBytes b maximumBytes of
        Inl f \<Rightarrow> failure_json f
      | Inr bytes \<Rightarrow>
          (case parse_fatal bytes of
             None \<Rightarrow> failure_json (failure ''response_malformed'' ''Response body is not valid UTF-8 JSON.'')
           | Some v \<Rightarrow> v))"

lemma isHttpFailure_failure [simp]: "isHttpFailure (failure_json f)"
  by (simp add: isHttpFailure_def failure_json_def)

lemma readJsonObject_bounded:
  assumes "readJsonObject h (Some b) maximumBytes = Inr v"
  shows "isRecord v" "body_bytes b \<le> maximumBytes" "json_parse (bd_text b) = Some v"
  using assms
  by (auto simp: readJsonObject_def readBoundedBytes_def read_chunks_iff parse_fatal_def body_bytes_def
      split: if_splits option.splits sum.splits)

text \<open>A response that was read is not a failure of its transport: it is within the bound.\<close>

lemma readJsonResponse_bounded:
  assumes "\<not> isHttpFailure (readJsonResponse h (Some b) maximumBytes)"
  shows "body_bytes b \<le> maximumBytes" "json_parse (bd_text b) = Some (readJsonResponse h (Some b) maximumBytes)"
  using assms
  by (auto simp: readJsonResponse_def readBoundedBytes_def read_chunks_iff parse_fatal_def body_bytes_def
      split: if_splits option.splits sum.splits)

section \<open>Errors\<close>

text \<open>What a \<open>catch\<close> receives: an \<open>Error\<close> with its name and message, or some other value.\<close>

datatype thrown = Js_error string string | Js_other

abbreviation error_of :: "string \<Rightarrow> thrown" where
  "error_of message \<equiv> Js_error ''Error'' message"

end
