(* ===== verification/Authoring_Headers.thy ===== *)
theory Authoring_Headers imports Authoring_Policy Js_Http begin

text \<open>
  \<open>src/src/core/authoring-mutation-headers.ts\<close>: a permit written to the headers of a request and read
  back from them, and the check that a response echoes it.
\<close>

section \<open>Writing and reading a permit\<close>

definition authoringMutationHeaders :: "mutation_permit \<Rightarrow> (string \<times> string) list" where
  "authoringMutationHeaders p = [
     (''x-authoring-mutation-contract'', MUTATION_PERMIT_SCHEMA),
     (''x-authoring-mutation-id'', pm_mutationId p),
     (''x-authoring-operation-id'', pm_operationId p),
     (''x-authoring-request-digest'', pm_requestDigest p),
     (''x-authoring-mutation-sequence'', int_text (pm_mutationSequence p)),
     (''x-authoring-semantic-scope'', pm_semanticScope p),
     (''x-authoring-claim-id'', pm_claimId p),
     (''x-authoring-lease-epoch'', int_text (pm_leaseEpoch p)),
     (''x-authoring-lease-expires-at-ms'', int_text (pm_leaseExpiresAtMs p)),
     (''x-authoring-fence-revision'', pm_fenceRevision p),
     (''x-authoring-write-target'', pm_requiredWriteTarget p),
     (''x-authoring-reserved-at-ms'', int_text (pm_reservedAtMs p))]"

definition safe_digits :: "string \<Rightarrow> int option" where
  "safe_digits s = (let parsed = int (digits_value s) in if parsed \<le> max_safe then Some parsed else None)"

definition readPositiveInteger :: "string option \<Rightarrow> int option" where
  "readPositiveInteger v = (case v of
     Some (c # cs) \<Rightarrow> if is_digit c \<and> c \<noteq> CHR ''0'' \<and> list_all is_digit cs then safe_digits (c # cs) else None
   | _ \<Rightarrow> None)"

definition readNonnegativeInteger :: "string option \<Rightarrow> int option" where
  "readNonnegativeInteger v = (case v of
     Some (c # cs) \<Rightarrow> if list_all is_digit (c # cs) then safe_digits (c # cs) else None
   | _ \<Rightarrow> None)"

definition header_text :: "headers \<Rightarrow> string \<Rightarrow> json" where
  "header_text h name = (case headers_get h name of Some s \<Rightarrow> JStr s | None \<Rightarrow> JNull)"

definition header_number :: "int option \<Rightarrow> json" where
  "header_number n = (case n of Some i \<Rightarrow> JNum (Integer i) | None \<Rightarrow> JNull)"

definition readAuthoringMutationHeaders :: "headers \<Rightarrow> mutation_permit option" where
  "readAuthoringMutationHeaders h = readClaimMutationPermit (JObj [
     (''schema'', header_text h ''x-authoring-mutation-contract''),
     (''mutationId'', header_text h ''x-authoring-mutation-id''),
     (''operationId'', header_text h ''x-authoring-operation-id''),
     (''requestDigest'', header_text h ''x-authoring-request-digest''),
     (''mutationSequence'', header_number (readPositiveInteger (headers_get h ''x-authoring-mutation-sequence''))),
     (''semanticScope'', header_text h ''x-authoring-semantic-scope''),
     (''claimId'', header_text h ''x-authoring-claim-id''),
     (''leaseEpoch'', header_number (readPositiveInteger (headers_get h ''x-authoring-lease-epoch''))),
     (''leaseExpiresAtMs'', header_number (readPositiveInteger (headers_get h ''x-authoring-lease-expires-at-ms''))),
     (''fenceRevision'', header_text h ''x-authoring-fence-revision''),
     (''requiredWriteTarget'', header_text h ''x-authoring-write-target''),
     (''reservedAtMs'', header_number (readNonnegativeInteger (headers_get h ''x-authoring-reserved-at-ms'')))])"

definition responseMatchesAuthoringMutation :: "headers \<Rightarrow> mutation_permit \<Rightarrow> bool" where
  "responseMatchesAuthoringMutation h p = list_all (\<lambda>(name, v). headers_get h name = Some v) (authoringMutationHeaders p)"

section \<open>Facts\<close>

lemma readPositiveInteger_text:
  assumes "1 \<le> i" "i \<le> max_safe"
  shows "readPositiveInteger (Some (int_text i)) = Some i"
proof -
  obtain c cs where t: "nat_text (nat i) = c # cs" by (metis nat_text_digits list.exhaust)
  have "c \<noteq> CHR ''0''"
  proof (cases cs)
    case Nil
    have v: "digits_value [c] = nat i" using nat_text_value [of "nat i"] t Nil by simp
    show ?thesis
    proof
      assume "c = CHR ''0''"
      moreover have "digits_value ''0'' = 0" by code_simp
      ultimately show False using v assms(1) by simp
    qed
  next
    case (Cons d ds)
    then show ?thesis using nat_text_no_leading_zero [of "nat i"] t by simp
  qed
  then show ?thesis using assms nat_text_digits [of "nat i"] nat_text_value [of "nat i"] t
    by (simp add: readPositiveInteger_def int_text_def safe_digits_def)
qed

lemma readNonnegativeInteger_text:
  assumes "0 \<le> i" "i \<le> max_safe"
  shows "readNonnegativeInteger (Some (int_text i)) = Some i"
proof -
  obtain c cs where "nat_text (nat i) = c # cs" by (metis nat_text_digits list.exhaust)
  then show ?thesis using assms nat_text_digits [of "nat i"] nat_text_value [of "nat i"]
    by (simp add: readNonnegativeInteger_def int_text_def safe_digits_def)
qed

text \<open>Texts that survive a header.\<close>

definition header_safe :: "string \<Rightarrow> bool" where
  "header_safe s = (header_value s = Some s)"

lemma header_safe_graph:
  assumes "list_all (\<lambda>c. \<not> http_blank c \<and> c \<noteq> CHR 0x00) s"
  shows "header_safe s"
proof -
  have "dropWhile http_blank t = t" if "list_all (\<lambda>c. \<not> http_blank c \<and> c \<noteq> CHR 0x00) t" for t
    using that by (cases t) auto
  then have "strip_blanks s = s" using assms by (simp add: strip_blanks_def list_all_rev)
  moreover have "\<not> list_ex (\<lambda>c. c \<in> {CHR 0x00, CHR 0x0A, CHR 0x0D}) s"
    using assms by (auto simp: list_all_iff list_ex_iff http_blank_def)
  ultimately show ?thesis by (simp add: header_safe_def header_value_def)
qed

lemma char_not_blank:
  "is_digit c \<Longrightarrow> \<not> http_blank c \<and> c \<noteq> CHR 0x00" "is_hex c \<Longrightarrow> \<not> http_blank c \<and> c \<noteq> CHR 0x00"
  "is_alnum c \<Longrightarrow> \<not> http_blank c \<and> c \<noteq> CHR 0x00" "path_tail c \<Longrightarrow> \<not> http_blank c \<and> c \<noteq> CHR 0x00"
  by (auto simp: char_class_defs http_blank_def)

lemma header_safe_fields:
  "authoring_id s \<Longrightarrow> header_safe s" "sha256_pattern s \<Longrightarrow> header_safe s" "header_safe (int_text (int n))"
  "header_safe MUTATION_PERMIT_SCHEMA"
proof -
  show "header_safe s" if "authoring_id s"
    by (rule header_safe_graph) (use that char_not_blank in \<open>auto simp: path_pattern_def head_tail_def list_all_iff split: list.splits\<close>)
  show "header_safe s" if "sha256_pattern s"
    by (rule header_safe_graph) (use that char_not_blank in \<open>auto simp: sha256_pattern_def all_chars_def list_all_iff\<close>)
  show "header_safe (int_text (int n))"
    by (rule header_safe_graph) (use nat_text_digits [of n] char_not_blank in \<open>auto simp: int_text_def list_all_iff\<close>)
  show "header_safe MUTATION_PERMIT_SCHEMA" by code_simp
qed

lemma make_headers_safe: "list_all (\<lambda>(name, v). header_safe v) entries \<Longrightarrow> make_headers entries = Some entries"
  by (induction entries) (auto simp: make_headers_def header_safe_def)

lemma matching_headers_read:
  assumes "permit_ok p" "responseMatchesAuthoringMutation h p"
  shows "readAuthoringMutationHeaders h = Some p"
proof -
  have get: "headers_get h ''x-authoring-mutation-contract'' = Some MUTATION_PERMIT_SCHEMA"
    "headers_get h ''x-authoring-mutation-id'' = Some (pm_mutationId p)"
    "headers_get h ''x-authoring-operation-id'' = Some (pm_operationId p)"
    "headers_get h ''x-authoring-request-digest'' = Some (pm_requestDigest p)"
    "headers_get h ''x-authoring-mutation-sequence'' = Some (int_text (pm_mutationSequence p))"
    "headers_get h ''x-authoring-semantic-scope'' = Some (pm_semanticScope p)"
    "headers_get h ''x-authoring-claim-id'' = Some (pm_claimId p)"
    "headers_get h ''x-authoring-lease-epoch'' = Some (int_text (pm_leaseEpoch p))"
    "headers_get h ''x-authoring-lease-expires-at-ms'' = Some (int_text (pm_leaseExpiresAtMs p))"
    "headers_get h ''x-authoring-fence-revision'' = Some (pm_fenceRevision p)"
    "headers_get h ''x-authoring-write-target'' = Some (pm_requiredWriteTarget p)"
    "headers_get h ''x-authoring-reserved-at-ms'' = Some (int_text (pm_reservedAtMs p))"
    using assms(2) by (simp_all add: responseMatchesAuthoringMutation_def authoringMutationHeaders_def)
  have numbers: "readPositiveInteger (Some (int_text (pm_mutationSequence p))) = Some (pm_mutationSequence p)"
    "readPositiveInteger (Some (int_text (pm_leaseEpoch p))) = Some (pm_leaseEpoch p)"
    "readPositiveInteger (Some (int_text (pm_leaseExpiresAtMs p))) = Some (pm_leaseExpiresAtMs p)"
    "readNonnegativeInteger (Some (int_text (pm_reservedAtMs p))) = Some (pm_reservedAtMs p)"
    using assms(1) by (auto simp: permit_ok_def intro!: readPositiveInteger_text readNonnegativeInteger_text)
  have "readAuthoringMutationHeaders h = readClaimMutationPermit (permit_json p)"
    unfolding readAuthoringMutationHeaders_def header_text_def header_number_def get numbers option.case permit_json_def
    by (rule refl)
  then show ?thesis using assms(1) by (simp add: read_permit_json)
qed

lemma made_header:
  "make_headers entries = Some h \<Longrightarrow> headers_get h k = Option.bind (map_of entries k) header_value"
  by (induction entries arbitrary: h) (auto simp: make_headers_def headers_get_def split: option.splits)

lemma read_target:
  assumes "readAuthoringMutationHeaders h = Some p"
  shows "headers_get h ''x-authoring-write-target'' = Some (pm_requiredWriteTarget p)"
proof (cases "headers_get h ''x-authoring-write-target''")
  case None
  then show ?thesis using assms
    by (simp add: readAuthoringMutationHeaders_def readClaimMutationPermit_def Let_def permit_shape_def header_text_def is_str_def split: if_splits)
next
  case (Some t)
  then show ?thesis using assms
    by (auto simp: readAuthoringMutationHeaders_def readClaimMutationPermit_def Let_def permit_of_def text_of_def header_text_def split: if_splits)
qed

section \<open>Claims\<close>

text \<open>
  C37. A permit survives the headers exactly when its write target does: writing a well-formed permit to headers
  and reading them gives the permit back if and only if the target neither begins nor ends with a blank and has no
  NUL or line break, and then the headers also pass the check that a response echoes the permit.
\<close>

theorem permit_headers_roundtrip:
  assumes "permit_ok p"
  shows "((\<exists>h. make_headers (authoringMutationHeaders p) = Some h \<and> readAuthoringMutationHeaders h = Some p)
        \<longleftrightarrow> header_safe (pm_requiredWriteTarget p))
    \<and> (header_safe (pm_requiredWriteTarget p) \<longrightarrow> (\<exists>h. make_headers (authoringMutationHeaders p) = Some h
        \<and> readAuthoringMutationHeaders h = Some p \<and> responseMatchesAuthoringMutation h p))"
proof -
  have numbers: "0 \<le> pm_mutationSequence p" "0 \<le> pm_leaseEpoch p" "0 \<le> pm_leaseExpiresAtMs p" "0 \<le> pm_reservedAtMs p"
    using assms by (auto simp: permit_ok_def)
  have ids: "authoring_id (pm_mutationId p)" "authoring_id (pm_operationId p)" "authoring_id (pm_semanticScope p)"
    "authoring_id (pm_claimId p)" "authoring_id (pm_fenceRevision p)" "sha256_pattern (pm_requestDigest p)"
    using assms unfolding permit_ok_def by blast+
  have "header_safe (int_text i)" if "0 \<le> i" for i using header_safe_fields(3) [of "nat i"] that by simp
  then have "list_all (\<lambda>(name, v). header_safe v) (authoringMutationHeaders p)" if "header_safe (pm_requiredWriteTarget p)"
    using that ids numbers by (simp add: authoringMutationHeaders_def header_safe_fields)
  then have made: "make_headers (authoringMutationHeaders p) = Some (authoringMutationHeaders p)" if "header_safe (pm_requiredWriteTarget p)"
    using that by (intro make_headers_safe)
  have echoed: "responseMatchesAuthoringMutation (authoringMutationHeaders p) p"
    by (simp add: responseMatchesAuthoringMutation_def headers_get_def authoringMutationHeaders_def)
  have survives: "header_safe (pm_requiredWriteTarget p) \<longrightarrow> (\<exists>h. make_headers (authoringMutationHeaders p) = Some h
      \<and> readAuthoringMutationHeaders h = Some p \<and> responseMatchesAuthoringMutation h p)"
    using made matching_headers_read [OF assms echoed] echoed by blast
  have "header_safe (pm_requiredWriteTarget p)"
    if "make_headers (authoringMutationHeaders p) = Some h" "readAuthoringMutationHeaders h = Some p" for h
    using made_header [OF that(1), of "''x-authoring-write-target''"] read_target [OF that(2)]
    by (simp add: authoringMutationHeaders_def header_safe_def)
  with survives show ?thesis by blast
qed

definition header_permit :: "string \<Rightarrow> mutation_permit" where
  "header_permit target = \<lparr>pm_mutationId = mutation_id 1 2 (replicate 64 (CHR ''a'')),
     pm_operationId = ''operation:'' @ replicate 64 (CHR ''a''), pm_requestDigest = replicate 64 (CHR ''a''),
     pm_mutationSequence = 2, pm_semanticScope = ''operator-registry'', pm_claimId = ''claim-1'', pm_leaseEpoch = 1,
     pm_leaseExpiresAtMs = 1000, pm_fenceRevision = ''rev-1'', pm_requiredWriteTarget = target, pm_reservedAtMs = 5\<rparr>"

theorem permit_headers_roundtrip_witness:
  "\<exists>h. make_headers (authoringMutationHeaders (header_permit ''registry'')) = Some h
     \<and> readAuthoringMutationHeaders h = Some (header_permit ''registry'')"
proof -
  have "permit_ok (header_permit ''registry'')" "header_safe (pm_requiredWriteTarget (header_permit ''registry''))" by code_simp+
  with permit_headers_roundtrip [of "header_permit ''registry''"] show ?thesis by blast
qed

text \<open>A write target that ends with a blank is admitted by the coordinator but does not survive the headers.\<close>

lemma blank_target_lost:
  "permit_ok (header_permit ''registry '') \<and>
     map_option readAuthoringMutationHeaders (make_headers (authoringMutationHeaders (header_permit ''registry ''))) \<noteq> Some (Some (header_permit ''registry ''))"
  by code_simp

end
