(* ===== verification/Authoring_Operator.thy ===== *)
theory Authoring_Operator imports Authoring_Claims Authoring_Headers begin

text \<open>
  \<open>src/src/core/authoring-mutation.ts\<close>: how the HTTP core reserves a mutation for an operator's request,
  and finishes it. The state is the coordinator's; a call to the coordinator may be lost or lose its
  answer.
\<close>

section \<open>Reserving\<close>

text \<open>A response: the code of a rejection, or the coordinator's refusal, with the HTTP status.\<close>

datatype operator_response = Op_rejected string nat | Op_refused refusal_code "(string \<times> int \<times> string) option" nat

definition header_or_empty :: "headers \<Rightarrow> string \<Rightarrow> string" where
  "header_or_empty h name = (case headers_get h name of Some s \<Rightarrow> s | None \<Rightarrow> '''')"

definition request_json :: "claim_binding \<Rightarrow> string \<Rightarrow> int \<Rightarrow> string \<Rightarrow> json" where
  "request_json expected claimId leaseEpoch fenceRevision = JObj [
     (''semanticScope'', JStr (cb_semanticScope expected)), (''claimId'', JStr claimId),
     (''leaseEpoch'', JNum (Integer leaseEpoch)), (''fenceRevision'', JStr fenceRevision),
     (''requiredWriteTarget'', JStr (cb_writeTarget expected))]"

definition readOperatorClaimRequest :: "headers \<Rightarrow> claim_binding \<Rightarrow> string + json" where
  "readOperatorClaimRequest h expected =
     (let claimedScope = header_or_empty h ''x-authoring-semantic-scope'';
          claimId = header_or_empty h ''x-authoring-claim-id'';
          leaseEpoch = readPositiveInteger (headers_get h ''x-authoring-lease-epoch'');
          fenceRevision = header_or_empty h ''x-authoring-fence-revision''
      in if claimedScope = '''' \<or> claimId = '''' \<or> fenceRevision = '''' then Inl ''authoring_claim_required''
         else case leaseEpoch of
             None \<Rightarrow> Inl ''authoring_claim_required''
           | Some epoch \<Rightarrow>
               if claimedScope \<noteq> cb_semanticScope expected then Inl ''authoring_claim_scope_mismatch''
               else Inr (request_json expected claimId epoch fenceRevision))"

definition admitOperatorMutation :: "headers \<Rightarrow> claim_binding \<Rightarrow> int \<Rightarrow> authoring \<Rightarrow> operator_response option" where
  "admitOperatorMutation h expected nowMs s =
     (case readOperatorClaimRequest h expected of
        Inl code \<Rightarrow> Some (Op_rejected code 409)
      | Inr request \<Rightarrow>
          (case admitMutation request nowMs s of
             Admitted _ \<Rightarrow> None
           | Claim_refused code holding \<Rightarrow> Some (Op_refused code holding 409)))"

definition reserveOperatorMutation ::
  "headers \<Rightarrow> claim_binding \<Rightarrow> json \<Rightarrow> int \<Rightarrow> authoring \<Rightarrow> (js_exn + operator_response + mutation_permit) \<times> authoring" where
  "reserveOperatorMutation h expected operation nowMs s =
     (case readOperatorClaimRequest h expected of
        Inl code \<Rightarrow> (Inr (Inl (Op_rejected code 409)), s)
      | Inr request \<Rightarrow>
          let requestDigest = authoringMutationRequestDigest expected operation
          in case authoringMutationOperationId requestDigest of
               None \<Rightarrow> (Inr (Inl (Op_rejected ''authoring_mutation_operation_invalid'' 503)), s)
             | Some operationId \<Rightarrow>
                 (let (result, s') = beginMutation request operationId requestDigest nowMs s
                  in (case result of
                        Inl e \<Rightarrow> Inl e
                      | Inr (Claim_refused code holding) \<Rightarrow> Inr (Inl (Op_refused code holding 409))
                      | Inr (Admitted p) \<Rightarrow>
                          (case readClaimMutationPermit (permit_json p) of
                             None \<Rightarrow> Inr (Inl (Op_rejected ''authoring_mutation_permit_invalid'' 503))
                           | Some permit \<Rightarrow> Inr (Inr permit)), s')))"

section \<open>Finishing\<close>

record operator_mutation =
  om_permit :: mutation_permit
  om_finished :: bool

definition finish :: "delivery \<Rightarrow> int \<Rightarrow> operator_mutation \<times> authoring \<Rightarrow> bool \<times> operator_mutation \<times> authoring" where
  "finish fate nowMs = (\<lambda>(r, s).
     if om_finished r then (True, r, s)
     else let (completed, s') = completeMutation (permit_json (om_permit r)) nowMs s
          in (case fate of
                Undelivered \<Rightarrow> (False, r\<lparr>om_finished := False\<rparr>, s)
              | Answer_lost \<Rightarrow> (False, r\<lparr>om_finished := False\<rparr>, s')
              | Answered \<Rightarrow> (completed, r\<lparr>om_finished := completed\<rparr>, s')))"

text \<open>\<open>None\<close> is the answer \<open>mutation_reconciliation_persistence_unavailable\<close>.\<close>

definition preserve :: "delivery \<Rightarrow> json \<Rightarrow> int \<Rightarrow> operator_mutation \<Rightarrow> authoring \<Rightarrow> preserve_result option \<times> authoring" where
  "preserve fate evidence nowMs r s =
     (let (result, s') = preserveMutationReconciliation (permit_json (om_permit r)) evidence nowMs s
      in case fate of
           Undelivered \<Rightarrow> (None, s)
         | Answer_lost \<Rightarrow> (None, s')
         | Answered \<Rightarrow> (case result of Inl e \<Rightarrow> None | Inr receipt \<Rightarrow> Some receipt, s'))"

fun finish_attempts :: "(delivery \<times> int) list \<Rightarrow> operator_mutation \<times> authoring \<Rightarrow> operator_mutation \<times> authoring" where
  "finish_attempts [] x = x"
| "finish_attempts ((fate, nowMs) # rest) x = finish_attempts rest (snd (finish fate nowMs x))"

section \<open>What a reservation is bound to\<close>

lemma readRequest_json:
  assumes "readClaimMutationRequest (request_json expected claimId epoch revision) = Some request"
  shows "request = \<lparr>mr_semanticScope = cb_semanticScope expected, mr_claimId = claimId, mr_leaseEpoch = epoch,
     mr_fenceRevision = revision, mr_requiredWriteTarget = cb_writeTarget expected\<rparr>"
  using assms by (simp add: readClaimMutationRequest_def request_json_def text_of_def int_of_def split: if_splits)

text \<open>Whatever way a begin admits a permit, the permit is the one that was asked for.\<close>

lemma begin_admitted:
  assumes tab: "tables_ok s" and admit: "beginMutation v op d now s = (Inr (Admitted p), s')"
  shows "\<exists>request. readClaimMutationRequest v = Some request \<and> same_mutation p request op d
    \<and> pm_semanticScope p = mr_semanticScope request \<and> permit_ok p \<and> issued s' p"
proof (cases "s' = s")
  case False
  then obtain r request where gr: "granted p r now s" "readClaimMutationRequest v = Some request" "same_mutation p request op d"
      "pm_semanticScope p = mr_semanticScope request" "s' = grant p s"
    using begin_cases [OF tab, of v op d now] admit by auto
  then show ?thesis using issued_grant [OF gr(1)] by (auto simp: granted_def)
next
  case True
  obtain request where req: "readClaimMutationRequest v = Some request" "authoringMutationOperationId d = Some op"
      "isSafeInteger (Integer now)"
    using admit by (auto simp: beginMutation_def Let_def claimRefusal_def split: option.splits if_splits)
  let ?scope = "mr_semanticScope request"
  have no_grant: "fst (reserve_mutation c request op d now s) \<noteq> Inr (Some p)" if "snd (reserve_mutation c request op d now s) = s" for c
  proof
    assume "fst (reserve_mutation c request op d now s) = Inr (Some p)"
    then have "length (au_reservations (snd (reserve_mutation c request op d now s))) = Suc (length (au_reservations s))"
      by (auto simp: reserve_mutation_def Let_def split: prod.splits option.splits if_splits)
    with that show False by simp
  qed
  consider (reserved) "readReservation ?scope s = Some p" "same_mutation p request op d"
    | (completed) "readCompletion (?scope, mr_claimId request, mr_leaseEpoch request, op) s = Some p"
        "pm_requestDigest p = d" "pm_fenceRevision p = mr_fenceRevision request" "pm_requiredWriteTarget p = mr_requiredWriteTarget request"
  proof (cases "readReservation ?scope s")
    case (Some q)
    then show ?thesis using that(1) admit req by (auto simp: beginMutation_def Let_def claimRefusal_def split: if_splits)
  next
    case none: None
    have idle: "\<not> hasReservation ?scope s" using admit req none by (auto simp: beginMutation_def Let_def claimRefusal_def split: if_splits)
    show ?thesis
    proof (cases "readCompletion (?scope, mr_claimId request, mr_leaseEpoch request, op) s")
      case (Some q)
      then show ?thesis using that(2) admit req none idle by (auto simp: beginMutation_def Let_def claimRefusal_def split: if_splits)
    next
      case None
      then show ?thesis using admit req none idle no_grant True
        by (auto simp: beginMutation_def Let_def claimRefusal_def prod_eq_iff split: admission.splits option.splits sum.splits prod.splits)
    qed
  qed
  then show ?thesis
  proof cases
    case reserved
    then show ?thesis using req stored_reservation [OF tab] True by (auto simp: issued_def)
  next
    case completed
    then have "permit_ok p" "permit_key p = (mr_semanticScope request, mr_claimId request, mr_leaseEpoch request, op)"
      "\<exists>t. completion_of p t \<in> set (au_completions s)"
      using stored_completion [OF tab] by blast+
    then show ?thesis using completed req True by (auto simp: issued_def same_mutation_def permit_key_def)
  qed
qed

lemma reserve_reserved:
  assumes "reserveOperatorMutation h expected operation now s = (Inr (Inr p), s')"
  obtains claimId epoch revision op where
    "header_or_empty h ''x-authoring-claim-id'' = claimId" "readPositiveInteger (headers_get h ''x-authoring-lease-epoch'') = Some epoch"
    "header_or_empty h ''x-authoring-fence-revision'' = revision" "header_or_empty h ''x-authoring-semantic-scope'' = cb_semanticScope expected"
    "authoringMutationOperationId (authoringMutationRequestDigest expected operation) = Some op"
    "beginMutation (request_json expected claimId epoch revision) op (authoringMutationRequestDigest expected operation) now s = (Inr (Admitted p), s')"
proof -
  obtain request where request: "readOperatorClaimRequest h expected = Inr request"
    using assms by (auto simp: reserveOperatorMutation_def split: sum.splits)
  obtain op where op: "authoringMutationOperationId (authoringMutationRequestDigest expected operation) = Some op"
    using assms request by (auto simp: reserveOperatorMutation_def Let_def split: option.splits)
  obtain q where q: "beginMutation request op (authoringMutationRequestDigest expected operation) now s = (Inr (Admitted q), s')"
      "readClaimMutationPermit (permit_json q) = Some p"
    using assms request op by (auto simp: reserveOperatorMutation_def Let_def split: prod.splits sum.splits admission.splits option.splits)
  have "q = p" using q(2) by (simp add: read_permit_json split: if_splits)
  moreover obtain epoch where "readPositiveInteger (headers_get h ''x-authoring-lease-epoch'') = Some epoch"
      "header_or_empty h ''x-authoring-semantic-scope'' = cb_semanticScope expected"
      "request = request_json expected (header_or_empty h ''x-authoring-claim-id'') epoch (header_or_empty h ''x-authoring-fence-revision'')"
    using request by (auto simp: readOperatorClaimRequest_def Let_def split: if_splits option.splits)
  ultimately show thesis using op q(1) that by blast
qed

section \<open>Claims\<close>


lemma finish_done: "finish_attempts fates (\<lparr>om_permit = p, om_finished = True\<rparr>, s) = (\<lparr>om_permit = p, om_finished = True\<rparr>, s)"
  by (induction fates) (auto simp: finish_def)

lemma finish_replay:
  assumes tab: "tables_ok s" and p: "permit_ok p" "readCompletion (permit_key p) s = Some p"
    and idle: "\<not> hasReservation (pm_semanticScope p) s"
    and fates: "\<forall>(fate, n) \<in> set fates. safe_ge 0 (Integer n)"
  shows "finish_attempts fates (\<lparr>om_permit = p, om_finished = b\<rparr>, s) =
    (\<lparr>om_permit = p, om_finished = b \<or> Answered \<in> fst ` set fates\<rparr>, s)"
  using fates
proof (induction fates arbitrary: b)
  case (Cons x fates)
  obtain fate n where x: "x = (fate, n)" by (cases x)
  have "completeMutation (permit_json p) n s = (True, s)"
    using Cons.prems x p idle
    by (subst complete_cases [OF tab, of _ p]) (auto simp: read_permit_json reservation_absent abs_le_iff)
  then have "finish fate n (\<lparr>om_permit = p, om_finished = b\<rparr>, s) =
      (b \<or> fate = Answered, \<lparr>om_permit = p, om_finished = b \<or> fate = Answered\<rparr>, s)"
    by (cases fate) (auto simp: finish_def)
  then show ?case using Cons x by auto
qed simp

text \<open>
  Finishing is safe to retry: whatever happens to the calls that finish a reserved mutation, the
  coordinator is left as after one completion, at the time of the first call that reached it, or
  untouched when none did; and as soon as one call is answered the reservation is known to be
  finished.
\<close>

theorem operator_finish_retries:
  assumes run: "authoring_run strict t s" and p: "readReservation (pm_semanticScope p) s = Some p" "readCompletion (permit_key p) s = None"
    and fates: "\<forall>(fate, n) \<in> set fates. safe_ge 0 (Integer n)"
  shows "finish_attempts fates (\<lparr>om_permit = p, om_finished = False\<rparr>, s) =
    (\<lparr>om_permit = p, om_finished = (Answered \<in> fst ` set fates)\<rparr>,
     case List.find (\<lambda>(fate, n). fate \<noteq> Undelivered) fates of None \<Rightarrow> s | Some (_, n) \<Rightarrow> finish_mutation p n s)"
  using fates
proof (induction fates)
  case (Cons x fates)
  let ?r = "\<lparr>om_permit = p, om_finished = False\<rparr>"
  obtain fate n where x: "x = (fate, n)" by (cases x)
  have tab: "tables_ok s" by (rule run_tables [OF run])
  have pok: "permit_ok p" using stored_reservation [OF tab] p(1) by blast
  have once: "completeMutation (permit_json p) n s = (True, finish_mutation p n s)"
    using Cons.prems x p pok by (subst complete_cases [OF tab, of _ p]) (auto simp: read_permit_json abs_le_iff)
  show ?case
  proof (cases "fate = Undelivered")
    case True
    then show ?thesis using Cons x by (simp add: finish_def once)
  next
    case False
    have tab2: "tables_ok (finish_mutation p n s)" by (rule finish_tables [OF tab pok])
    have comp: "readCompletion (permit_key p) (finish_mutation p n s) = Some p"
      using finished [OF tab p(2)] by (auto simp: stored_completion [OF tab2] pok)
    have rest: "\<forall>(fate, n) \<in> set fates. safe_ge 0 (Integer n)" using Cons.prems by simp
    show ?thesis using False x finish_replay [OF tab2 pok comp finish_idle [OF tab p(1)] rest]
      by (cases fate) (simp_all add: finish_def once)
  qed
qed simp

theorem operator_finish_retries_witness:
  "finish_attempts [(Undelivered, 6), (Answer_lost, 7), (Answered, 8)] (\<lparr>om_permit = permit_a, om_finished = False\<rparr>, grant permit_a claimed) =
     (\<lparr>om_permit = permit_a, om_finished = True\<rparr>, finish_mutation permit_a 7 (grant permit_a claimed))"
proof -
  have "readReservation (pm_semanticScope permit_a) (grant permit_a claimed) = Some permit_a" by (simp add: permit_scopes reserved_a)
  moreover have "readCompletion (permit_key permit_a) (grant permit_a claimed) = None"
    by (simp add: readCompletion_def claimed_state empty_authoring_def select_key_Nil)
  moreover have "\<forall>(fate, n) \<in> set [(Undelivered, 6), (Answer_lost, 7), (Answered, 8)]. safe_ge 0 (Integer n)"
    by (simp add: max_safe_def)
  ultimately show ?thesis
    by (subst operator_finish_retries [OF granted_run [of True]]) simp_all
qed

definition sample_headers :: headers where
  "sample_headers = [(''x-authoring-semantic-scope'', ''operator-registry''), (''x-authoring-claim-id'', ''claim-1''),
     (''x-authoring-lease-epoch'', ''1''), (''x-authoring-fence-revision'', ''rev-1'')]"

lemma sample_headers_request:
  "readOperatorClaimRequest sample_headers AGENT_REGISTRY_CLAIM = Inr (request_json AGENT_REGISTRY_CLAIM ''claim-1'' 1 ''rev-1'')"
  by code_simp

lemma sample_request_json: "request_json AGENT_REGISTRY_CLAIM ''claim-1'' 1 ''rev-1'' = sample_request ''operator-registry'' ''claim-1''"
  by (simp add: request_json_def sample_request_def AGENT_REGISTRY_CLAIM_def)

lemma sha_ids:
  assumes "sha256_pattern d"
  shows "authoring_id (mutation_id 1 1 d)" "authoring_id (''operation:'' @ d)"
proof -
  have hex: "is_hex c \<Longrightarrow> path_tail c" for c by (auto simp: char_class_defs)
  have d: "length d = 64" "list_all path_tail d"
    using assms hex by (auto simp: sha256_pattern_def all_chars_def list_all_iff)
  have one: "int_text 1 = ''1''" by code_simp
  have known: "authoring_id ''mutation:1:1:''" "authoring_id ''operation:''" by code_simp+
  have "authoring_id (p @ x)" if "authoring_id p" "length p \<le> 20" "length x \<le> 64" "list_all path_tail x" for p x
    using that by (cases p) (auto simp: path_pattern_def head_tail_def)
  from this [OF known(1), of "take 32 d"] this [OF known(2), of d]
  show "authoring_id (mutation_id 1 1 d)" "authoring_id (''operation:'' @ d)"
    using d by (simp_all add: mutation_id_def one list_all_iff) (metis in_set_takeD)
qed

lemma sample_made:
  assumes "sha256_pattern d"
  shows "made ''operator-registry'' ''claim-1'' d 5 = Some (sample_permit 1 d)"
  using assms sha_ids [OF assms]
  by (simp add: claimMutationPermit_def sample_claim_of sample_permit_def sample_operation_def max_safe_def Let_def)

lemma begin_fresh:
  assumes "sha256_pattern d"
  shows "beginMutation (sample_request ''operator-registry'' ''claim-1'') (sample_operation d) d 5 claimed =
    (Inr (Admitted (sample_permit 1 d)), grant (sample_permit 1 d) claimed)"
proof -
  have op: "authoringMutationOperationId d = Some (sample_operation d)"
    using assms by (simp add: authoringMutationOperationId_def sample_operation_def)
  have scope: "pm_semanticScope (sample_permit 1 d) = ''operator-registry''" by (simp add: sample_permit_def)
  show ?thesis
    by (rule begin_sample [OF _ _ _ _ row_a_claim _ _ sample_request_of(1) sample_made [OF assms] scope _ op])
      (simp_all add: claimed_state empty_authoring_def readReservation_def hasReservation_def has_key_def readCompletion_def
        readScope_def select_key_def row_a_fields active_def live_row_def seq_of_def row_a_claim, simp add: sample_claim_of)
qed


end
