(* ===== verification/Js_Order.thy ===== *)
theory Js_Order imports Js_Prelude begin

text \<open>
  Comparison functions, as \<open>Array.prototype.sort\<close> takes them: what makes one consistent, how the code's
  chains \<open>a || b\<close> of comparisons combine, and when the sorted list is determined by the keys of its
  elements. Selection, routing and merging share these facts.
\<close>

definition comparator :: "('a \<Rightarrow> 'a \<Rightarrow> int) \<Rightarrow> bool" where
  "comparator f = ((\<forall>a b. f a b < 0 \<longleftrightarrow> 0 < f b a) \<and> (\<forall>a b c. f a b \<le> 0 \<longrightarrow> f b c \<le> 0 \<longrightarrow> f a c \<le> 0))"

text \<open>JavaScript's \<open>a || b || ...\<close> on comparison results.\<close>

fun first_nonzero :: "int list \<Rightarrow> int" where
  "first_nonzero [] = 0"
| "first_nonzero (i # is) = (if i \<noteq> 0 then i else first_nonzero is)"

named_theorems comparators \<comment> \<open>which comparison functions are consistent\<close>

lemma comparatorI:
  assumes "\<And>a b. f a b < 0 \<longleftrightarrow> 0 < f b a" "\<And>a b c. f a b \<le> 0 \<Longrightarrow> f b c \<le> 0 \<Longrightarrow> f a c \<le> 0"
  shows "comparator f"
  using assms unfolding comparator_def by blast

lemma comparator_sym: "comparator f \<Longrightarrow> f a b < 0 \<longleftrightarrow> 0 < f b a"
  unfolding comparator_def by blast

lemma comparator_zero: "comparator f \<Longrightarrow> f a b = 0 \<longleftrightarrow> f b a = 0"
  using comparator_sym [of f a b] comparator_sym [of f b a] by linarith

lemma comparator_refl: "comparator f \<Longrightarrow> f a a = 0"
  using comparator_sym [of f a a] by linarith

lemma comparator_total: "comparator f \<Longrightarrow> f a b \<le> 0 \<or> f b a \<le> 0"
  using comparator_sym [of f b a] by linarith

lemma comparator_antisym: "comparator f \<Longrightarrow> f a b \<le> 0 \<Longrightarrow> f b a \<le> 0 \<Longrightarrow> f a b = 0"
  using comparator_sym [of f a b] by linarith

lemma comparator_trans: "comparator f \<Longrightarrow> f a b \<le> 0 \<Longrightarrow> f b c \<le> 0 \<Longrightarrow> f a c \<le> 0"
  unfolding comparator_def by blast

lemma comparator_cong: "comparator f \<Longrightarrow> f a a' = 0 \<Longrightarrow> f b b' = 0 \<Longrightarrow> f a b \<le> 0 \<longleftrightarrow> f a' b' \<le> 0"
  using comparator_trans [of f] comparator_zero [of f] by (metis order_refl)

lemma comparator_text [comparators]: "comparator (\<lambda>a b. compareText (k a) (k b))"
proof (rule comparatorI)
  show "compareText (k a) (k b) < 0 \<longleftrightarrow> 0 < compareText (k b) (k a)" for a b
    using text_less_asym [of "k a" "k b"] by (auto simp: compareText_def)
  show "compareText (k a) (k b) \<le> 0 \<Longrightarrow> compareText (k b) (k c) \<le> 0 \<Longrightarrow> compareText (k a) (k c) \<le> 0" for a b c
    using text_less_trans by (auto simp: compareText_le)
qed

lemma comparator_diff [comparators]: "comparator (\<lambda>a b. k a - k b)"
  by (rule comparatorI) auto

lemma comparator_Nil [comparators]: "comparator (\<lambda>a b. first_nonzero [])"
  by (rule comparatorI) auto

lemma comparator_Cons [comparators]:
  assumes f: "comparator f" and g: "comparator (\<lambda>a b. first_nonzero (gs a b))"
  shows "comparator (\<lambda>a b. first_nonzero (f a b # gs a b))"
proof (rule comparatorI)
  show "first_nonzero (f a b # gs a b) < 0 \<longleftrightarrow> 0 < first_nonzero (f b a # gs b a)" for a b
    using comparator_sym [OF f, of a b] comparator_zero [OF f, of a b] comparator_sym [OF g, of a b] by auto
  fix a b c
  assume ab: "first_nonzero (f a b # gs a b) \<le> 0" and bc: "first_nonzero (f b c # gs b c) \<le> 0"
  then have fab: "f a b \<le> 0" and fbc: "f b c \<le> 0" by (auto split: if_splits)
  then have fac: "f a c \<le> 0" by (rule comparator_trans [OF f])
  show "first_nonzero (f a c # gs a c) \<le> 0"
  proof (cases "f a c = 0")
    case True
    have "f c a \<le> 0" using True comparator_zero [OF f, of a c] by simp
    then have "f b a \<le> 0" "f c b \<le> 0" using comparator_trans [OF f] fab fbc by blast+
    then have "f a b = 0" "f b c = 0" using comparator_antisym [OF f] fab fbc by blast+
    then show ?thesis using ab bc True comparator_trans [OF g, of a b c] by simp
  qed (use fac in simp)
qed

lemma first_nonzero_zero: "first_nonzero is = 0 \<longleftrightarrow> (\<forall>i \<in> set is. i = 0)"
  by (induction "is") auto

lemma sorted_comparator: "comparator f \<Longrightarrow> sorted_wrt (\<lambda>l r. f l r \<le> 0) (sort_by (\<lambda>l r. f l r \<le> 0) xs)"
  by (rule sorted_wrt_sort_by) (rule comparator_total, assumption, rule comparator_trans)

text \<open>
  When two elements compare equal exactly if they have the same key, the keys of the sorted list are
  determined by the set of keys.
\<close>

lemma sort_keys_unique:
  assumes cmp: "comparator f" and key: "\<And>a b. f a b = 0 \<longleftrightarrow> k a = k b"
    and "distinct (map k xs)" "distinct (map k ys)" "k ` set xs = k ` set ys"
  shows "map k (sort_by (\<lambda>l r. f l r \<le> 0) xs) = map k (sort_by (\<lambda>l r. f l r \<le> 0) ys)"
proof (rule sorted_wrt_unique)
  let ?le = "\<lambda>x y. \<exists>a b. k a = x \<and> k b = y \<and> f a b \<le> 0"
  show "x = y" if le: "?le x y" "?le y x" for x y
  proof -
    obtain a b a' b' where *: "k a = x" "k b = y" "f a b \<le> 0" "k b' = y" "k a' = x" "f b' a' \<le> 0" using le by blast
    then have "f b b' = 0" "f a' a = 0" using key by simp_all
    then have "f b a \<le> 0" using * comparator_trans [OF cmp] by (metis order_refl)
    then have "f a b = 0" using * comparator_antisym [OF cmp] by blast
    then show ?thesis using * key by simp
  qed
  have "sorted_wrt ?le (map k (sort_by (\<lambda>l r. f l r \<le> 0) zs))" for zs
    unfolding sorted_wrt_map by (rule sorted_wrt_mono_rel [OF _ sorted_comparator [OF cmp]]) blast
  then show "sorted_wrt ?le (map k (sort_by (\<lambda>l r. f l r \<le> 0) xs))" "sorted_wrt ?le (map k (sort_by (\<lambda>l r. f l r \<le> 0) ys))"
    by blast+
qed (use assms(3-5) in \<open>simp_all add: distinct_sort_by\<close>)

lemma distinct_finer: "distinct (map g xs) \<Longrightarrow> (\<And>x y. f x = f y \<Longrightarrow> g x = g y) \<Longrightarrow> distinct (map f xs)"
  unfolding distinct_map inj_on_def by blast

lemma separator_split:
  "c \<notin> set xs \<Longrightarrow> c \<notin> set ys \<Longrightarrow> xs @ c # as = ys @ c # bs \<longleftrightarrow> xs = ys \<and> as = bs"
proof (induction xs arbitrary: ys)
  case Nil
  then show ?case by (cases ys) auto
next
  case (Cons x xs)
  then show ?case by (cases ys) auto
qed

lemma comparator_greatest:
  assumes "comparator f" "finite A" "A \<noteq> {}"
  shows "\<exists>m \<in> A. \<forall>x \<in> A. f x m \<le> 0"
  using assms(2,3)
proof (induction A rule: finite_ne_induct)
  case (singleton x)
  then show ?case using comparator_refl [OF assms(1)] by simp
next
  case (insert x A)
  then obtain m where m: "m \<in> A" "\<forall>y \<in> A. f y m \<le> 0" by blast
  show ?case
  proof (cases "f x m \<le> 0")
    case False
    then have "f m x \<le> 0" using comparator_total [OF assms(1)] by blast
    then have "\<forall>y \<in> A. f y x \<le> 0" using m comparator_trans [OF assms(1)] by blast
    then show ?thesis using comparator_refl [OF assms(1)] by auto
  qed (use m in blast)
qed

end
