(* ===== verification/Sync_Merge.thy ===== *)
theory Sync_Merge imports Js_Sql Js_Order begin

text \<open>
  \<open>src/src/core/sync-merge.ts\<close>: merging the field changes that devices recorded while they were
  apart. A state is the log of all changes and, for every field, the latest of them.
\<close>

section \<open>Changes and states\<close>

record field_change =
  ch_scope :: string
  ch_field :: string
  ch_value :: json
  ch_deviceId :: string
  ch_sequence :: int
  ch_recordedAtMs :: int

record merged =
  ms_fields :: "field_change list"
  ms_eventLog :: "field_change list"

definition EMPTY_MERGED_STATE :: merged where
  "EMPTY_MERGED_STATE = \<lparr>ms_fields = [], ms_eventLog = []\<rparr>"

definition short_text :: "string \<Rightarrow> bool" where
  "short_text s = (s \<noteq> [] \<and> length s \<le> 256)"

definition hasExactKeys :: "json \<Rightarrow> string list \<Rightarrow> bool" where
  "hasExactKeys v expected =
     (sort_by (\<lambda>l r. compareText l r \<le> 0) (keys_of v) = sort_by (\<lambda>l r. compareText l r \<le> 0) expected)"

text \<open>\<open>freezeChange\<close> copies the fields of a change; an object with fields is read into the record.\<close>

definition origin_of :: "json \<Rightarrow> json" where
  "origin_of v = (case field v ''origin'' of Some w \<Rightarrow> w | None \<Rightarrow> JNull)"

definition isFieldChange :: "json \<Rightarrow> bool" where
  "isFieldChange v =
     (isRecord v \<and> hasExactKeys v [''scope'', ''field'', ''value'', ''origin'']
      \<and> is_str (field v ''scope'') short_text \<and> is_str (field v ''field'') short_text
      \<and> isRecord (origin_of v) \<and> hasExactKeys (origin_of v) [''deviceId'', ''recordedAtMs'', ''sequence'']
      \<and> is_str (field (origin_of v) ''deviceId'') short_text
      \<and> is_num (field (origin_of v) ''sequence'') (safe_ge 0)
      \<and> is_num (field (origin_of v) ''recordedAtMs'') (safe_ge 0))"

definition freezeChange :: "json \<Rightarrow> field_change" where
  "freezeChange v = \<lparr>ch_scope = text_of v ''scope'', ch_field = text_of v ''field'',
     ch_value = (case field v ''value'' of Some w \<Rightarrow> w | None \<Rightarrow> JNull),
     ch_deviceId = text_of (origin_of v) ''deviceId'', ch_sequence = int_of (origin_of v) ''sequence'',
     ch_recordedAtMs = int_of (origin_of v) ''recordedAtMs''\<rparr>"

definition change_json :: "field_change \<Rightarrow> json" where
  "change_json c = JObj [(''scope'', JStr (ch_scope c)), (''field'', JStr (ch_field c)), (''value'', ch_value c),
     (''origin'', JObj [(''deviceId'', JStr (ch_deviceId c)), (''recordedAtMs'', JNum (Integer (ch_recordedAtMs c))),
        (''sequence'', JNum (Integer (ch_sequence c)))])]"

fun validChangeSequence :: "json option \<Rightarrow> bool" where
  "validChangeSequence (Some (JArr vs)) = list_all isFieldChange vs"
| "validChangeSequence _ = False"

fun changes_of :: "json option \<Rightarrow> field_change list" where
  "changes_of (Some (JArr vs)) = map freezeChange vs"
| "changes_of _ = []"

definition isMergedState :: "json \<Rightarrow> bool" where
  "isMergedState v = (isRecord v \<and> hasExactKeys v [''eventLog'', ''fields'']
     \<and> validChangeSequence (field v ''fields'') \<and> validChangeSequence (field v ''eventLog''))"

definition merged_of :: "json \<Rightarrow> merged" where
  "merged_of v = \<lparr>ms_fields = changes_of (field v ''fields''), ms_eventLog = changes_of (field v ''eventLog'')\<rparr>"

definition merged_json :: "merged \<Rightarrow> json" where
  "merged_json s = JObj [(''fields'', JArr (map change_json (ms_fields s))), (''eventLog'', JArr (map change_json (ms_eventLog s)))]"

section \<open>Order and identity\<close>

definition changeIdentity :: "field_change \<Rightarrow> string" where
  "changeIdentity c = canonicalJson (change_json c)"

definition compareChange :: "field_change \<Rightarrow> field_change \<Rightarrow> int" where
  "compareChange l r = first_nonzero [ch_recordedAtMs l - ch_recordedAtMs r, compareText (ch_deviceId l) (ch_deviceId r),
     ch_sequence l - ch_sequence r, compareText (ch_scope l) (ch_scope r), compareText (ch_field l) (ch_field r),
     compareText (canonicalJson (ch_value l)) (canonicalJson (ch_value r))]"

definition field_key :: "field_change \<Rightarrow> string" where
  "field_key c = ch_scope c @ [CHR 0x00] @ ch_field c"

definition compareField :: "field_change \<Rightarrow> field_change \<Rightarrow> int" where
  "compareField l r = first_nonzero [compareText (ch_scope l) (ch_scope r), compareText (ch_field l) (ch_field r), compareChange l r]"

section \<open>Merging\<close>

text \<open>\<open>Map.set\<close> keeps the place of a key that is present.\<close>

definition unique_changes :: "field_change list \<Rightarrow> field_change list" where
  "unique_changes cs = foldl (\<lambda>t c. upsert changeIdentity c t) [] cs"

definition set_winner :: "field_change list \<Rightarrow> field_change \<Rightarrow> field_change list" where
  "set_winner winners c =
     (case select_key field_key (field_key c) winners of
        None \<Rightarrow> upsert field_key c winners
      | Some prior \<Rightarrow> if compareChange prior c < 0 then upsert field_key c winners else winners)"

definition merge_changes :: "merged \<Rightarrow> field_change list \<Rightarrow> field_change list \<Rightarrow> merged" where
  "merge_changes base left right =
     (let eventLog = sort_by (\<lambda>l r. compareChange l r \<le> 0)
            (unique_changes (ms_eventLog base @ ms_fields base @ left @ right));
          winners = foldl set_winner [] eventLog
      in \<lparr>ms_fields = sort_by (\<lambda>l r. compareField l r \<le> 0) winners, ms_eventLog = eventLog\<rparr>)"

datatype merge_error = Sync_merge_malformed

definition mergeSequences :: "json \<Rightarrow> json \<Rightarrow> json \<Rightarrow> merge_error + merged" where
  "mergeSequences base left right =
     (if \<not> isMergedState base \<or> \<not> validChangeSequence (Some left) \<or> \<not> validChangeSequence (Some right)
      then Inl Sync_merge_malformed
      else Inr (merge_changes (merged_of base) (changes_of (Some left)) (changes_of (Some right))))"

section \<open>Identity\<close>

lemma quote_split:
  "quote_text s @ r = quote_text t @ r' \<longleftrightarrow> s = t \<and> r = r'"
proof
  assume a: "quote_text s @ r = quote_text t @ r'"
  from a have "concat (map escape_char s) @ quote_ch # r = concat (map escape_char t) @ quote_ch # r'"
    by (simp only: quote_text_def append_Cons append_Nil append_assoc list.inject simp_thms)
  then have "parse_str (concat (map escape_char s) @ quote_ch # r) = parse_str (concat (map escape_char t) @ quote_ch # r')"
    by (rule arg_cong)
  then show "s = t \<and> r = r'" by (simp only: parse_quoted option.inject prod.inject)
qed simp

lemma int_split:
  assumes "delimiter r" "delimiter r'"
  shows "int_text i @ r = int_text j @ r' \<longleftrightarrow> i = j \<and> r = r'"
proof
  assume "int_text i @ r = int_text j @ r'"
  then have "parse_number (int_text i @ r) = parse_number (int_text j @ r')" by (rule arg_cong)
  then show "i = j \<and> r = r'"
    by (simp only: parse_number_int [OF assms(1)] parse_number_int [OF assms(2)] option.inject prod.inject json.inject jsnum.inject)
qed simp

lemma change_key_order:
  "locale_le ''field'' ''origin''" "locale_le ''scope'' ''value''" "\<not> locale_le ''value'' ''origin''"
  "\<not> locale_le ''scope'' ''field''" "\<not> locale_le ''scope'' ''origin''"
  "locale_le ''recordedAtMs'' ''sequence''" "locale_le ''deviceId'' ''recordedAtMs''"
  by code_simp+

lemma change_text:
  "changeIdentity c = (''{'' @ quote_text ''field'' @ '':'') @ quote_text (ch_field c) @ ('','' @ quote_text ''origin'' @ '':{''
     @ quote_text ''deviceId'' @ '':'') @ quote_text (ch_deviceId c) @ ('','' @ quote_text ''recordedAtMs'' @ '':'')
     @ int_text (ch_recordedAtMs c) @ ('','' @ quote_text ''sequence'' @ '':'')
     @ int_text (ch_sequence c) @ (''},'' @ quote_text ''scope'' @ '':'') @ quote_text (ch_scope c) @ ('','' @ quote_text ''value'' @ '':'')
     @ canonicalJson (ch_value c) @ ''}''"
  by (simp add: changeIdentity_def canonicalJson_def change_json_def canonicalValue_JObj change_key_order member_text_def)

lemma changeIdentity_iff:
  "changeIdentity c = changeIdentity d \<longleftrightarrow> ch_scope c = ch_scope d \<and> ch_field c = ch_field d \<and> ch_deviceId c = ch_deviceId d
     \<and> ch_sequence c = ch_sequence d \<and> ch_recordedAtMs c = ch_recordedAtMs d
     \<and> canonicalJson (ch_value c) = canonicalJson (ch_value d)"
  unfolding change_text by (simp add: quote_split int_split) blast

section \<open>What a merge keeps\<close>

lemma comparator_change [comparators]: "comparator compareChange"
  unfolding compareChange_def by (intro comparators)

lemma comparator_field [comparators]: "comparator compareField"
  unfolding compareField_def by (intro comparators)

lemma compareChange_zero: "compareChange c d = 0 \<longleftrightarrow> changeIdentity c = changeIdentity d"
  by (auto simp: compareChange_def first_nonzero_zero changeIdentity_iff)

lemma compareField_zero: "compareField c d = 0 \<longleftrightarrow> changeIdentity c = changeIdentity d"
  by (auto simp: compareField_def first_nonzero_zero compareChange_zero changeIdentity_iff)

lemma field_key_identity: "changeIdentity c = changeIdentity d \<Longrightarrow> field_key c = field_key d"
  by (simp add: changeIdentity_iff field_key_def)

lemma unique_snoc: "unique_changes (cs @ [c]) = upsert changeIdentity c (unique_changes cs)"
  by (simp add: unique_changes_def)

lemma unique_changes_facts:
  "distinct (map changeIdentity (unique_changes cs))"
  "changeIdentity ` set (unique_changes cs) = changeIdentity ` set cs"
  "set (unique_changes cs) \<subseteq> set cs"
proof (induction cs rule: rev_induct)
  case Nil
  show "distinct (map changeIdentity (unique_changes []))" "changeIdentity ` set (unique_changes []) = changeIdentity ` set []"
    "set (unique_changes []) \<subseteq> set []"
    by (simp_all add: unique_changes_def)
next
  case (snoc c cs)
  show "distinct (map changeIdentity (unique_changes (cs @ [c])))"
    using snoc.IH(1) by (simp add: unique_snoc distinct_upsert)
  have set: "set (unique_changes (cs @ [c])) = insert c {d \<in> set (unique_changes cs). changeIdentity d \<noteq> changeIdentity c}"
    by (simp add: unique_snoc set_upsert_eq)
  show "changeIdentity ` set (unique_changes (cs @ [c])) = changeIdentity ` set (cs @ [c])"
  proof -
    have "changeIdentity ` {d \<in> U. changeIdentity d \<noteq> changeIdentity c} = changeIdentity ` U - {changeIdentity c}" for U by auto
    then show ?thesis unfolding set by (simp add: snoc.IH(2))
  qed
  show "set (unique_changes (cs @ [c])) \<subseteq> set (cs @ [c])"
    unfolding set using snoc.IH(3) by auto
qed

text \<open>The latest change of every field, among those of a sorted log.\<close>

definition latest :: "field_change set \<Rightarrow> field_change set" where
  "latest L = {c \<in> L. \<forall>d \<in> L. field_key d = field_key c \<longrightarrow> compareChange d c \<le> 0}"

lemma winners_facts:
  assumes "sorted_wrt (\<lambda>l r. compareChange l r \<le> 0) log" "distinct (map changeIdentity log)"
  shows "distinct (map field_key (foldl set_winner [] log)) \<and> set (foldl set_winner [] log) = latest (set log)"
  using assms
proof (induction log rule: rev_induct)
  case Nil
  then show ?case by (simp add: latest_def)
next
  case (snoc c cs)
  let ?w = "foldl set_winner [] cs"
  have IH: "distinct (map field_key ?w)" "set ?w = latest (set cs)"
    using snoc by (simp_all add: sorted_wrt_append)
  have before: "compareChange d c < 0" if "d \<in> set cs" for d
  proof -
    have "compareChange d c \<le> 0" using snoc.prems(1) that by (simp add: sorted_wrt_append)
    moreover have "changeIdentity d \<noteq> changeIdentity c" using snoc.prems(2) that by (auto simp: image_iff)
    ultimately show ?thesis using compareChange_zero [of d c] by linarith
  qed
  have step: "set_winner ?w c = upsert field_key c ?w"
  proof (cases "select_key field_key (field_key c) ?w")
    case (Some prior)
    then have "prior \<in> set cs" using select_key_Some IH(2) by (fastforce simp: latest_def)
    then show ?thesis using Some before by (simp add: set_winner_def)
  qed (simp add: set_winner_def)
  have after: "\<not> compareChange c d \<le> 0" if "d \<in> set cs" for d
    using before [OF that] comparator_sym [OF comparator_change, of d c] by simp
  have "set (upsert field_key c ?w) = latest (insert c (set cs))"
    unfolding set_upsert_eq IH(2) latest_def
    using before after comparator_refl [OF comparator_change] by (auto simp: order.strict_iff_order)
  then show ?case using IH(1) by (simp add: step distinct_upsert)
qed

lemma merge_facts:
  fixes base left right
  defines "s \<equiv> merge_changes base left right"
  shows "distinct (map changeIdentity (ms_eventLog s))"
    "changeIdentity ` set (ms_eventLog s) = changeIdentity ` (set (ms_eventLog base) \<union> set (ms_fields base) \<union> set left \<union> set right)"
    "set (ms_eventLog s) \<subseteq> set (ms_eventLog base) \<union> set (ms_fields base) \<union> set left \<union> set right"
    "distinct (map field_key (ms_fields s))" "set (ms_fields s) = latest (set (ms_eventLog s))"
proof -
  let ?all = "ms_eventLog base @ ms_fields base @ left @ right"
  have log: "ms_eventLog s = sort_by (\<lambda>l r. compareChange l r \<le> 0) (unique_changes ?all)"
    by (simp add: s_def merge_changes_def Let_def)
  have fields: "ms_fields s = sort_by (\<lambda>l r. compareField l r \<le> 0) (foldl set_winner [] (ms_eventLog s))"
    by (simp add: s_def merge_changes_def Let_def)
  show d: "distinct (map changeIdentity (ms_eventLog s))"
    unfolding log distinct_sort_by by (rule unique_changes_facts(1))
  show "changeIdentity ` set (ms_eventLog s) = changeIdentity ` (set (ms_eventLog base) \<union> set (ms_fields base) \<union> set left \<union> set right)"
    unfolding log set_sort_by unique_changes_facts(2) by (simp add: Un_assoc)
  show "set (ms_eventLog s) \<subseteq> set (ms_eventLog base) \<union> set (ms_fields base) \<union> set left \<union> set right"
    unfolding log set_sort_by using unique_changes_facts(3) [of ?all] by auto
  have "sorted_wrt (\<lambda>l r. compareChange l r \<le> 0) (ms_eventLog s)"
    unfolding log by (rule sorted_comparator [OF comparator_change])
  from winners_facts [OF this d]
  show "distinct (map field_key (ms_fields s))" "set (ms_fields s) = latest (set (ms_eventLog s))"
    unfolding fields distinct_sort_by set_sort_by by simp_all
qed

text \<open>What two replicas can compare: the identities of the changes of a state.\<close>

definition seen :: "merged \<Rightarrow> string set" where
  "seen s = changeIdentity ` (set (ms_eventLog s) \<union> set (ms_fields s))"

definition same_state :: "merged \<Rightarrow> merged \<Rightarrow> bool" where
  "same_state s s' = (map changeIdentity (ms_eventLog s) = map changeIdentity (ms_eventLog s')
     \<and> map changeIdentity (ms_fields s) = map changeIdentity (ms_fields s'))"

lemma seen_merge: "seen (merge_changes base left right) = seen base \<union> changeIdentity ` (set left \<union> set right)"
  using merge_facts(2,5) [of base left right] by (auto simp: seen_def latest_def)

lemma log_merge: "changeIdentity ` set (ms_eventLog (merge_changes base left right)) = seen (merge_changes base left right)"
  using merge_facts(5) [of base left right] by (auto simp: seen_def latest_def)

lemma latest_identities:
  assumes "changeIdentity ` L = changeIdentity ` L'"
  shows "changeIdentity ` latest L \<subseteq> changeIdentity ` latest L'"
proof
  fix x assume "x \<in> changeIdentity ` latest L"
  then obtain c where c: "c \<in> L" "x = changeIdentity c" "\<forall>d \<in> L. field_key d = field_key c \<longrightarrow> compareChange d c \<le> 0"
    by (auto simp: latest_def)
  then obtain c' where c': "c' \<in> L'" "changeIdentity c' = changeIdentity c" using assms by (metis imageE imageI)
  have "compareChange d' c' \<le> 0" if d': "d' \<in> L'" "field_key d' = field_key c'" for d'
  proof -
    obtain d where d: "d \<in> L" "changeIdentity d = changeIdentity d'" using assms d'(1) by (metis imageE imageI)
    then have "field_key d = field_key c" using field_key_identity c'(2) d'(2) by metis
    then have "compareChange d c \<le> 0" using c(3) d(1) by blast
    then show ?thesis
      using comparator_cong [OF comparator_change, of d d' c c'] d(2) c'(2) by (simp add: compareChange_zero)
  qed
  then show "x \<in> changeIdentity ` latest L'" using c' c(2) by (auto simp: latest_def intro!: image_eqI [of _ _ c'])
qed

lemma sorted_again: "sort_by (\<lambda>l r. f l r \<le> 0) (sort_by (\<lambda>l r. f l r \<le> 0) xs) = sort_by (\<lambda>l r. f l r \<le> 0) xs" if "comparator f"
  by (rule sort_by_id) (rule sorted_comparator [OF that])

text \<open>What has been seen determines the merged state.\<close>

lemma seen_same_state:
  assumes "seen (merge_changes b l r) = seen (merge_changes b' l' r')"
  shows "same_state (merge_changes b l r) (merge_changes b' l' r')"
proof -
  let ?s = "merge_changes b l r" and ?s' = "merge_changes b' l' r'"
  have log: "changeIdentity ` set (ms_eventLog ?s) = changeIdentity ` set (ms_eventLog ?s')"
    using assms by (simp add: log_merge)
  have sorted: "sort_by (\<lambda>l r. compareChange l r \<le> 0) (ms_eventLog (merge_changes b l r)) = ms_eventLog (merge_changes b l r)"
    "sort_by (\<lambda>l r. compareField l r \<le> 0) (ms_fields (merge_changes b l r)) = ms_fields (merge_changes b l r)" for b l r
    by (simp_all add: merge_changes_def Let_def sorted_again comparators)
  have "map changeIdentity (ms_eventLog ?s) = map changeIdentity (ms_eventLog ?s')"
    using sort_keys_unique [OF comparator_change compareChange_zero merge_facts(1,1) log] by (simp add: sorted)
  moreover have "distinct (map changeIdentity (ms_fields (merge_changes b l r)))" for b l r
    by (rule distinct_finer [OF merge_facts(4) field_key_identity])
  moreover have "changeIdentity ` set (ms_fields ?s) = changeIdentity ` set (ms_fields ?s')"
    unfolding merge_facts(5) using latest_identities [OF log] latest_identities [OF log [symmetric]] by blast
  ultimately show ?thesis
    using sort_keys_unique [OF comparator_field compareField_zero, of "ms_fields ?s" "ms_fields ?s'"]
    by (simp add: sorted same_state_def)
qed

text \<open>A replica that merges pairs of change sequences one after the other.\<close>

definition replica :: "merged \<Rightarrow> (field_change list \<times> field_change list) list \<Rightarrow> merged" where
  "replica base batches = foldl (\<lambda>s (l, r). merge_changes s l r) base batches"

definition batch_changes :: "(field_change list \<times> field_change list) list \<Rightarrow> field_change list" where
  "batch_changes batches = concat (map (\<lambda>(l, r). l @ r) batches)"

lemma seen_replica: "seen (replica base batches) = seen base \<union> changeIdentity ` set (batch_changes batches)"
  by (induction batches rule: rev_induct)
    (auto simp: replica_def batch_changes_def seen_merge image_Un split: prod.split)

lemma replica_merged: "batches \<noteq> [] \<Longrightarrow> \<exists>b l r. replica base batches = merge_changes b l r"
  by (cases batches rule: rev_cases) (auto simp: replica_def)

lemma filter_key: "distinct (map k xs) \<Longrightarrow> x \<in> set xs \<Longrightarrow> filter (\<lambda>y. k y = k x) xs = [x]"
  by (induction xs) (auto simp: filter_empty_conv image_iff)

section \<open>Claims\<close>

definition sample_change :: "string \<Rightarrow> string \<Rightarrow> string \<Rightarrow> int \<Rightarrow> field_change" where
  "sample_change scope name device at = \<lparr>ch_scope = scope, ch_field = name, ch_value = JStr device, ch_deviceId = device,
     ch_sequence = 0, ch_recordedAtMs = at\<rparr>"

text \<open>
  C26. Replicas converge: two replicas that start from the same state and have merged the same set of
  changes, in whatever order, batches and repetitions, hold the same log and the same fields (up to
  the order of the entries of objects in the values). In particular merging is commutative,
  associative and idempotent.
\<close>

theorem merge_replicas_converge:
  assumes "changeIdentity ` set (batch_changes bs) = changeIdentity ` set (batch_changes bs')" "bs \<noteq> []" "bs' \<noteq> []"
  shows "same_state (replica base bs) (replica base bs')"
proof -
  obtain b l r b' l' r' where "replica base bs = merge_changes b l r" "replica base bs' = merge_changes b' l' r'"
    using replica_merged assms(2,3) by meson
  moreover have "seen (replica base bs) = seen (replica base bs')" by (simp add: seen_replica assms(1))
  ultimately show ?thesis using seen_same_state by metis
qed

theorem merge_replicas_converge_witness:
  "same_state (replica EMPTY_MERGED_STATE [([sample_change ''s'' ''f'' ''d1'' 1], []), ([], [sample_change ''s'' ''f'' ''d2'' 2])])
     (replica EMPTY_MERGED_STATE [([sample_change ''s'' ''f'' ''d2'' 2, sample_change ''s'' ''f'' ''d2'' 2], [sample_change ''s'' ''f'' ''d1'' 1])])"
  by (rule merge_replicas_converge) (auto simp: batch_changes_def)

text \<open>
  The last writer wins: after a merge every field that some change wrote has exactly one entry, one
  of the changes merged, and no merged change of that field is later, where a later change is one
  with a greater time, device, sequence number, and value in this order; this rests on scopes that
  contain no NUL character, which the code uses to separate the scope from the field.
\<close>

theorem merge_last_writer:
  fixes base left right
  defines "all \<equiv> set (ms_eventLog base) \<union> set (ms_fields base) \<union> set left \<union> set right"
  assumes "CHR 0x00 \<notin> (\<Union>c \<in> all. set (ch_scope c))" "c \<in> all"
  shows "\<exists>f \<in> set (ms_fields (merge_changes base left right)). f \<in> all \<and> ch_scope f = ch_scope c \<and> ch_field f = ch_field c
    \<and> compareChange c f \<le> 0
    \<and> filter (\<lambda>g. ch_scope g = ch_scope c \<and> ch_field g = ch_field c) (ms_fields (merge_changes base left right)) = [f]"
proof -
  let ?s = "merge_changes base left right"
  have log: "set (ms_eventLog ?s) \<subseteq> all" "changeIdentity ` set (ms_eventLog ?s) = changeIdentity ` all"
    using merge_facts(2,3) [of base left right] by (simp_all add: all_def)
  from log(2) assms(3) obtain c' where c': "c' \<in> set (ms_eventLog ?s)" "changeIdentity c' = changeIdentity c"
    by (metis imageE imageI)
  let ?A = "{d \<in> set (ms_eventLog ?s). field_key d = field_key c'}"
  have "?A \<noteq> {}" using c'(1) by blast
  then obtain f where f: "f \<in> ?A" "\<forall>d \<in> ?A. compareChange d f \<le> 0"
    using comparator_greatest [OF comparator_change, of ?A] by auto
  then have member: "f \<in> set (ms_fields ?s)" by (auto simp: merge_facts(5) latest_def)
  have keys: "field_key d = field_key e \<longleftrightarrow> ch_scope d = ch_scope e \<and> ch_field d = ch_field e" if "d \<in> all" "e \<in> all" for d e
    using that assms(2) by (auto simp: field_key_def separator_split)
  have in_all: "f \<in> all" "c' \<in> all" "set (ms_fields ?s) \<subseteq> all" using f(1) c'(1) log(1) by (auto simp: merge_facts(5) latest_def)
  have same: "ch_scope f = ch_scope c" "ch_field f = ch_field c"
    using f(1) keys [OF in_all(1,2)] c'(2) by (simp_all add: changeIdentity_iff)
  have "compareChange c' f \<le> 0" using f c'(1) by simp
  then have le: "compareChange c f \<le> 0"
    using comparator_cong [OF comparator_change, of c' c f f] c'(2) by (simp add: compareChange_zero)
  have "filter (\<lambda>g. field_key g = field_key f) (ms_fields ?s) = [f]"
    by (rule filter_key [OF merge_facts(4) member])
  moreover have "filter (\<lambda>g. ch_scope g = ch_scope c \<and> ch_field g = ch_field c) (ms_fields ?s) = filter (\<lambda>g. field_key g = field_key f) (ms_fields ?s)"
    using keys [OF _ in_all(1)] in_all(3) same by (intro filter_cong) auto
  ultimately show ?thesis using member in_all(1) same le by auto
qed

theorem merge_last_writer_witness:
  "\<exists>f \<in> set (ms_fields (merge_changes EMPTY_MERGED_STATE [sample_change ''s'' ''f'' ''d1'' 1] [sample_change ''s'' ''f'' ''d2'' 2])).
     ch_scope f = ''s'' \<and> ch_field f = ''f'' \<and> compareChange (sample_change ''s'' ''f'' ''d1'' 1) f \<le> 0"
proof -
  have "CHR 0x00 \<notin> (\<Union>c \<in> {sample_change ''s'' ''f'' ''d1'' 1, sample_change ''s'' ''f'' ''d2'' 2}. set (ch_scope c))"
    by (simp add: sample_change_def)
  then show ?thesis
    using merge_last_writer [of EMPTY_MERGED_STATE "[sample_change ''s'' ''f'' ''d1'' 1]" "[sample_change ''s'' ''f'' ''d2'' 2]"
        "sample_change ''s'' ''f'' ''d1'' 1"]
    by (fastforce simp: EMPTY_MERGED_STATE_def sample_change_def)
qed

text \<open>
  Two different fields can collide: the key under which the latest change is kept joins scope and
  field with a NUL character, which neither may be kept from containing, so a merge of two accepted
  changes of different scopes can forget one of them.
\<close>

theorem merge_separator_collision:
  "\<exists>c d. isFieldChange (change_json c) \<and> isFieldChange (change_json d) \<and> ch_scope c \<noteq> ch_scope d
     \<and> length (ms_eventLog (merge_changes EMPTY_MERGED_STATE [c] [d])) = 2
     \<and> ms_fields (merge_changes EMPTY_MERGED_STATE [c] [d]) = [d]"
proof -
  let ?c = "sample_change [CHR ''a''] [CHR ''b'', CHR 0x00, CHR ''c''] ''d1'' 1"
  let ?d = "sample_change [CHR ''a'', CHR 0x00, CHR ''b''] [CHR ''c''] ''d2'' 2"
  let ?s = "merge_changes EMPTY_MERGED_STATE [?c] [?d]"
  have ok: "isFieldChange (change_json ?c)" "isFieldChange (change_json ?d)" by code_simp+
  have ids: "changeIdentity ?c \<noteq> changeIdentity ?d" by (simp add: changeIdentity_iff sample_change_def)
  have "card (changeIdentity ` set (ms_eventLog ?s)) = 2"
    unfolding merge_facts(2) using ids by (simp add: EMPTY_MERGED_STATE_def)
  then have two: "length (ms_eventLog ?s) = 2"
    using distinct_card [OF merge_facts(1) [of EMPTY_MERGED_STATE "[?c]" "[?d]"]] by simp
  have sub: "set (ms_eventLog ?s) \<subseteq> {?c, ?d}" using merge_facts(3) [of EMPTY_MERGED_STATE "[?c]" "[?d]"] by (auto simp: EMPTY_MERGED_STATE_def)
  have "changeIdentity ?d \<in> changeIdentity ` set (ms_eventLog ?s)" "changeIdentity ?c \<in> changeIdentity ` set (ms_eventLog ?s)"
    unfolding merge_facts(2) by simp_all
  then have log: "set (ms_eventLog ?s) = {?c, ?d}" using sub ids by auto
  have later: "compareChange ?c ?d \<le> 0" "\<not> compareChange ?d ?c \<le> 0" by (simp_all add: compareChange_def sample_change_def)
  have "field_key ?c = field_key ?d" by (simp add: field_key_def sample_change_def)
  then have "set (ms_fields ?s) = {?d}"
    unfolding merge_facts(5) log latest_def using later comparator_refl [OF comparator_change] by auto
  moreover have "distinct (ms_fields ?s)" using merge_facts(4) [of EMPTY_MERGED_STATE "[?c]" "[?d]"] by (simp add: distinct_map)
  ultimately have "ms_fields ?s = [?d]" by (cases "ms_fields ?s"; cases "tl (ms_fields ?s)") auto
  then show ?thesis using ok two by (intro exI [of _ ?c] exI [of _ ?d]) (auto simp: sample_change_def)
qed

section \<open>A merged state as an input\<close>

lemma freeze_change_json [simp]: "freezeChange (change_json c) = c"
  by (simp add: freezeChange_def change_json_def text_of_def int_of_def origin_of_def)

lemma keys_exact:
  "hasExactKeys (change_json c) [''scope'', ''field'', ''value'', ''origin'']"
  "hasExactKeys (origin_of (change_json c)) [''deviceId'', ''recordedAtMs'', ''sequence'']"
  by (simp_all add: hasExactKeys_def change_json_def origin_of_def del: sort_by.simps)

lemma isFieldChange_frozen:
  assumes "isFieldChange v"
  shows "isFieldChange (change_json (freezeChange v))"
proof -
  note t = text_of_is_str int_of_is_num
  show ?thesis
    using assms keys_exact [of "freezeChange v"] t(1) [of v "''scope''"] t(1) [of v "''field''"] t(1) [of "origin_of v" "''deviceId''"]
      t(2) [of "origin_of v" "''sequence''"] t(2) [of "origin_of v" "''recordedAtMs''"]
    by (auto simp: isFieldChange_def) (auto simp: change_json_def origin_of_def freezeChange_def)
qed

lemma changes_of_valid: "validChangeSequence v \<Longrightarrow> c \<in> set (changes_of v) \<Longrightarrow> isFieldChange (change_json c)"
  by (cases v rule: validChangeSequence.cases) (auto simp: list_all_iff isFieldChange_frozen)

lemma merged_keys: "hasExactKeys (merged_json s) [''eventLog'', ''fields'']"
proof -
  have "sort_by (\<lambda>l r. compareText l r \<le> 0) [''fields'', ''eventLog''] = sort_by (\<lambda>l r. compareText l r \<le> 0) [''eventLog'', ''fields'']"
    by code_simp
  then show ?thesis by (simp add: hasExactKeys_def merged_json_def del: sort_by.simps)
qed

text \<open>A state that a merge returned is merged with nothing.\<close>

lemma unique_again:
  assumes "distinct (map changeIdentity xs)" "set ys \<subseteq> set xs"
  shows "unique_changes (xs @ ys) = xs"
proof -
  have "unique_changes xs = xs" using assms(1)
  proof (induction xs rule: rev_induct)
    case (snoc x xs)
    then have "\<not> has_key changeIdentity (changeIdentity x) xs" by (auto simp: has_key_iff image_iff)
    with snoc show ?case by (simp add: unique_snoc upsert_def)
  qed (simp add: unique_changes_def)
  moreover have "upsert changeIdentity c xs = xs" if "c \<in> set xs" for c
    using that assms(1) by (auto simp: upsert_def has_key_iff distinct_map inj_on_def intro!: map_idI)
  then have "foldl (\<lambda>t c. upsert changeIdentity c t) xs ys = xs" using assms(2) by (induction ys) auto
  ultimately show ?thesis by (simp add: unique_changes_def)
qed

lemma merge_nothing: "merge_changes (merge_changes base left right) [] [] = merge_changes base left right"
proof -
  let ?s = "merge_changes base left right"
  have fields: "ms_fields ?s = sort_by (\<lambda>l r. compareField l r \<le> 0) (foldl set_winner [] (ms_eventLog ?s))"
    and log: "sort_by (\<lambda>l r. compareChange l r \<le> 0) (ms_eventLog ?s) = ms_eventLog ?s"
    by (simp_all add: merge_changes_def Let_def sorted_again comparators)
  have "set (ms_fields ?s) \<subseteq> set (ms_eventLog ?s)" unfolding merge_facts(5) by (auto simp: latest_def)
  then have "unique_changes (ms_eventLog ?s @ ms_fields ?s) = ms_eventLog ?s"
    using merge_facts(1) by (rule unique_again [rotated])
  then show ?thesis
    unfolding merge_changes_def [of ?s] Let_def by (simp add: log fields [symmetric])
qed

lemma strictly_sorted:
  assumes "sorted_wrt (\<lambda>l r. f l r \<le> 0) xs" "distinct (map changeIdentity xs)" "\<And>l r. f l r = 0 \<longleftrightarrow> changeIdentity l = changeIdentity r"
  shows "sorted_wrt (\<lambda>l r. f l r < (0::int)) xs"
  using assms(1,2)
proof (induction xs)
  case (Cons x xs)
  have "f x y \<noteq> 0" if "y \<in> set xs" for y using that Cons.prems(2) assms(3) by auto
  then show ?case using Cons by (fastforce simp: order.order_iff_strict)
qed simp

lemma merge_sorted:
  "sorted_wrt (\<lambda>l r. compareChange l r < 0) (ms_eventLog (merge_changes base left right))"
  "sorted_wrt (\<lambda>l r. compareField l r < 0) (ms_fields (merge_changes base left right))"
proof -
  have "sorted_wrt (\<lambda>l r. compareChange l r \<le> 0) (ms_eventLog (merge_changes base left right))"
    "sorted_wrt (\<lambda>l r. compareField l r \<le> 0) (ms_fields (merge_changes base left right))"
    by (simp_all add: merge_changes_def Let_def sorted_comparator comparators)
  then show "sorted_wrt (\<lambda>l r. compareChange l r < 0) (ms_eventLog (merge_changes base left right))"
    "sorted_wrt (\<lambda>l r. compareField l r < 0) (ms_fields (merge_changes base left right))"
    by (auto intro!: strictly_sorted merge_facts(1) distinct_finer [OF merge_facts(4) field_key_identity]
        simp: compareChange_zero compareField_zero)
qed



end
