(* ===== verification/Provider_Auth.thy ===== *)
theory Provider_Auth imports Js_Http begin

text \<open>
  \<open>src/src/shared/commerce-provider-auth.ts\<close>: requests to the commerce providers carry an HMAC-SHA256
  signature over the contract, the digest of the request and the digest of the evidence it is bound to.
\<close>

section \<open>HMAC-SHA256\<close>

text \<open>As \<open>crypto.subtle.sign\<close> computes it, on SHA-256 of \<open>Js_Digest\<close>.\<close>

definition word_bytes :: "w32 list \<Rightarrow> w32 list" where
  "word_bytes ws = concat (map (\<lambda>w. map (\<lambda>i. drop_bit i w AND 255) [24, 16, 8, 0]) ws)"

definition hmac_block :: "w32 list \<Rightarrow> w32 list" where
  "hmac_block key = (let k = (if 64 < length key then word_bytes (sha256 key) else key) in k @ replicate (64 - length k) 0)"

definition hmac_sha256 :: "w32 list \<Rightarrow> w32 list \<Rightarrow> w32 list" where
  "hmac_sha256 key message =
     (let block = hmac_block key; inner = word_bytes (sha256 (map (\<lambda>b. b XOR 54) block @ message))
      in word_bytes (sha256 (map (\<lambda>b. b XOR 92) block @ inner)))"

definition bytesHex :: "w32 list \<Rightarrow> string" where
  "bytesHex bs = concat (map byte_hex bs)"

text \<open>The pairs of characters, each read as a hexadecimal number; only checked signatures are read.\<close>

fun hexBytes :: "string \<Rightarrow> w32 list" where
  "hexBytes (a # b # s) = word_of_nat (16 * position a hexes + position b hexes) # hexBytes s"
| "hexBytes _ = []"

section \<open>Requests\<close>

record request =
  rq_method :: string
  rq_url :: string
  rq_headers :: headers
  rq_body :: "body option"

definition header_json :: "headers \<Rightarrow> string \<Rightarrow> json" where
  "header_json h name = (case headers_get h name of Some v \<Rightarrow> JStr v | None \<Rightarrow> JNull)"

definition semantic_headers :: "headers \<Rightarrow> string list \<Rightarrow> json" where
  "semantic_headers h names = JObj (map (\<lambda>name. (name, header_json h name)) names)"

definition COMMERCE_PROVIDER_AUTH_SCHEMA :: string where
  "COMMERCE_PROVIDER_AUTH_SCHEMA = ''commerce-provider-auth/v1''"

definition AUTH_SCHEMA_HEADER :: string where
  "AUTH_SCHEMA_HEADER = ''x-commerce-provider-auth-schema''"

definition AUTH_SIGNATURE_HEADER :: string where
  "AUTH_SIGNATURE_HEADER = ''x-commerce-provider-auth-signature''"

definition UNBOUND_DIGEST :: string where
  "UNBOUND_DIGEST = replicate 64 (CHR ''0'')"

record provider_authentication =
  pu_contract :: string
  pu_requestDigest :: string
  pu_bindingDigest :: string

definition signaturePayload :: "provider_authentication \<Rightarrow> string" where
  "signaturePayload a = canonicalJson (JObj [
     (''schema'', JStr COMMERCE_PROVIDER_AUTH_SCHEMA),
     (''contract'', JStr (pu_contract a)),
     (''requestDigest'', JStr (pu_requestDigest a)),
     (''bindingDigest'', JStr (pu_bindingDigest a))])"

text \<open>\<open>/^[a-z][a-z0-9.-]{0,127}\/v[1-9]\d*$/u\<close>\<close>

definition contract_pattern :: "string \<Rightarrow> bool" where
  "contract_pattern s =
     (let name = takeWhile (\<lambda>c. c \<noteq> CHR ''/'') s
      in head_tail is_lower (\<lambda>c. is_lower c \<or> is_digit c \<or> c \<in> set ''.-'') 127 name
         \<and> (case drop (length name) s of
              sl # v # d # ds \<Rightarrow> sl = CHR ''/'' \<and> v = CHR ''v'' \<and> is_digit d \<and> d \<noteq> CHR ''0'' \<and> list_all is_digit ds
            | _ \<Rightarrow> False))"

definition validAuthentication :: "provider_authentication \<Rightarrow> bool" where
  "validAuthentication a = (contract_pattern (pu_contract a) \<and> sha256_pattern (pu_requestDigest a) \<and> sha256_pattern (pu_bindingDigest a))"

definition validCommerceProviderSecret :: "string \<Rightarrow> bool" where
  "validCommerceProviderSecret = all_chars is_graph 32 4096"

definition commerceProviderSignature :: "provider_authentication \<Rightarrow> string \<Rightarrow> string option" where
  "commerceProviderSignature a secret =
     (if \<not> validAuthentication a \<or> \<not> validCommerceProviderSecret secret then None
      else Some (bytesHex (hmac_sha256 (utf8 secret) (utf8 (signaturePayload a)))))"

definition authenticateCommerceProviderRequest :: "request \<Rightarrow> provider_authentication \<Rightarrow> string \<Rightarrow> request option" where
  "authenticateCommerceProviderRequest request' a secret =
     (case commerceProviderSignature a secret of
        None \<Rightarrow> None
      | Some signature' \<Rightarrow> Some (request'\<lparr>rq_headers := headers_set AUTH_SIGNATURE_HEADER signature'
          (headers_set AUTH_SCHEMA_HEADER COMMERCE_PROVIDER_AUTH_SCHEMA (rq_headers request'))\<rparr>))"

definition verifyCommerceProviderRequestAuthentication :: "request \<Rightarrow> provider_authentication \<Rightarrow> string \<Rightarrow> bool" where
  "verifyCommerceProviderRequestAuthentication request' a secret =
     (let signature' = (case headers_get (rq_headers request') AUTH_SIGNATURE_HEADER of Some s \<Rightarrow> s | None \<Rightarrow> '''')
      in if headers_get (rq_headers request') AUTH_SCHEMA_HEADER \<noteq> Some COMMERCE_PROVIDER_AUTH_SCHEMA
            \<or> \<not> sha256_pattern signature' \<or> \<not> validAuthentication a \<or> \<not> validCommerceProviderSecret secret
         then False
         else hexBytes signature' = hmac_sha256 (utf8 secret) (utf8 (signaturePayload a)))"

definition CONTROL_HEADERS :: "string list" where
  "CONTROL_HEADERS = [''accept'', ''content-type'', ''mcp-protocol-version'', ''mcp-session-id'', ''x-commerce-contract'', ''x-operator-id'']"

definition controlRequestDigest :: "request \<Rightarrow> string option" where
  "controlRequestDigest request' =
     (if map upper_char (rq_method request') \<noteq> ''GET'' \<or> rq_body request' \<noteq> None then None
      else Some (sha256Hex (canonicalJson (JObj [
        (''method'', JStr ''GET''),
        (''url'', JStr (rq_url request')),
        (''semanticHeaders'', semantic_headers (rq_headers request') CONTROL_HEADERS),
        (''bodyDigest'', JStr (sha256Hex ''''))]))))"

definition authenticateCommerceProviderControlRequest :: "request \<Rightarrow> string \<Rightarrow> string \<Rightarrow> request option" where
  "authenticateCommerceProviderControlRequest request' contract secret =
     (case controlRequestDigest request' of
        None \<Rightarrow> None
      | Some d \<Rightarrow> authenticateCommerceProviderRequest request'
          \<lparr>pu_contract = contract, pu_requestDigest = d, pu_bindingDigest = UNBOUND_DIGEST\<rparr> secret)"

definition verifyCommerceProviderControlRequest :: "request \<Rightarrow> string \<Rightarrow> string \<Rightarrow> bool" where
  "verifyCommerceProviderControlRequest request' contract secret =
     (case controlRequestDigest request' of
        None \<Rightarrow> False
      | Some d \<Rightarrow> verifyCommerceProviderRequestAuthentication request'
          \<lparr>pu_contract = contract, pu_requestDigest = d, pu_bindingDigest = UNBOUND_DIGEST\<rparr> secret)"

section \<open>Signatures and their hexadecimal form\<close>

lemma low_nibble: "unat (x AND 15 :: w32) = unat x mod 16"
proof -
  have "x AND 15 = take_bit 4 x" by (simp add: take_bit_eq_mask mask_eq_exp_minus_1)
  then have "x AND 15 = x mod 16" by (simp add: take_bit_eq_mod)
  then show ?thesis by (simp add: unat_mod)
qed

lemma byte_hex_nibbles: "byte_hex x = [hexes ! (unat x div 16 mod 16), hexes ! (unat x mod 16)]"
  unfolding byte_hex_def low_nibble unat_drop_bit_eq by (simp add: drop_bit_eq_div)

lemma hex_position: "n < 16 \<Longrightarrow> position (hexes ! n) hexes = n" "is_hex c \<Longrightarrow> position c hexes < 16 \<and> hexes ! position c hexes = c"
proof -
  have "\<forall>n \<in> set [0..<16]. position (hexes ! n) hexes = n" "\<forall>c \<in> set hexes. position c hexes < 16 \<and> hexes ! position c hexes = c"
    unfolding list_all_iff [symmetric] by code_simp+
  then show "n < 16 \<Longrightarrow> position (hexes ! n) hexes = n" "is_hex c \<Longrightarrow> position c hexes < 16 \<and> hexes ! position c hexes = c"
    by (simp_all add: is_hex_def)
qed

lemma hex_pair_bytes: "unat b < 256 \<Longrightarrow> hexBytes (byte_hex b) = [b]"
proof -
  assume b: "unat b < 256"
  then have "unat b div 16 < 16" by simp
  then have "16 * position (hexes ! (unat b div 16 mod 16)) hexes + position (hexes ! (unat b mod 16)) hexes = unat b"
    by (simp add: hex_position)
  then show ?thesis
    unfolding byte_hex_nibbles hexBytes.simps by (simp only: of_nat_unat ucast_id)
qed

lemma bytes_hex_pair: "is_hex a \<Longrightarrow> is_hex b \<Longrightarrow> byte_hex (word_of_nat (16 * position a hexes + position b hexes)) = [a, b]"
proof -
  assume hex: "is_hex a" "is_hex b"
  let ?n = "16 * position a hexes + position b hexes"
  have small: "position a hexes < 16" "position b hexes < 16" using hex_position(2) hex by blast+
  then have "unat (word_of_nat ?n :: w32) = ?n" by (simp add: unat_of_nat del: of_nat_add of_nat_mult)
  moreover have "?n div 16 mod 16 = position a hexes" "?n mod 16 = position b hexes" using small by simp_all
  ultimately show ?thesis using hex_position(2) hex
    unfolding byte_hex_nibbles by (simp del: of_nat_add of_nat_mult)
qed

lemma hexBytes_bytesHex: "\<forall>b \<in> set bs. unat b < 256 \<Longrightarrow> hexBytes (bytesHex bs) = bs"
proof (induction bs)
  case (Cons b bs)
  have "hexBytes (byte_hex b @ s) = hexBytes (byte_hex b) @ hexBytes s" for s by (simp add: byte_hex_def)
  then show ?case using Cons hex_pair_bytes [of b] by (simp add: bytesHex_def)
qed (simp add: bytesHex_def)

lemma bytesHex_hexBytes: "even (length s) \<Longrightarrow> list_all is_hex s \<Longrightarrow> bytesHex (hexBytes s) = s"
proof (induction s rule: hexBytes.induct)
  case (1 a b s)
  then show ?case using bytes_hex_pair [of a b] by (simp add: bytesHex_def)
qed (simp_all add: bytesHex_def)

lemma word_bytes_small: "b \<in> set (word_bytes ws) \<Longrightarrow> unat b < 256"
proof -
  have "unat (x AND 255) < 256" for x :: w32
  proof -
    have "unat (x AND 255) \<le> unat (255 :: w32)" by (rule word_and_le1 [THEN word_le_nat_alt [THEN iffD1]])
    then show ?thesis by simp
  qed
  then show "b \<in> set (word_bytes ws) \<Longrightarrow> ?thesis" by (auto simp: word_bytes_def)
qed

lemma length_word_bytes: "length (word_bytes ws) = 4 * length ws"
  by (simp add: word_bytes_def length_concat comp_def sum_list_triv)

lemma signature_pattern: "sha256_pattern (bytesHex (hmac_sha256 key message))"
proof -
  have "length (hmac_sha256 key message) = 32" by (simp add: hmac_sha256_def Let_def length_word_bytes length_sha256)
  then have "length (bytesHex (hmac_sha256 key message)) = 64"
    by (simp add: bytesHex_def length_concat comp_def byte_hex_def sum_list_triv)
  moreover have "list_all is_hex (bytesHex bs)" for bs
    by (auto simp: bytesHex_def list_all_iff byte_hex_def nibble_hex)
  ultimately show ?thesis by (simp add: sha256_pattern_def all_chars_def)
qed

lemma hexBytes_iff:
  assumes "sha256_pattern s"
  shows "hexBytes s = hmac_sha256 key message \<longleftrightarrow> s = bytesHex (hmac_sha256 key message)"
proof -
  have "even (length s)" "list_all is_hex s" using assms by (auto simp: sha256_pattern_def all_chars_def)
  then have "bytesHex (hexBytes s) = s" by (rule bytesHex_hexBytes)
  moreover have "hexBytes (bytesHex (hmac_sha256 key message)) = hmac_sha256 key message"
    by (rule hexBytes_bytesHex) (auto simp: hmac_sha256_def Let_def dest: word_bytes_small)
  ultimately show ?thesis by metis
qed

lemma verify_iff:
  "verifyCommerceProviderRequestAuthentication r a secret \<longleftrightarrow>
     headers_get (rq_headers r) AUTH_SCHEMA_HEADER = Some COMMERCE_PROVIDER_AUTH_SCHEMA
     \<and> (\<exists>s. commerceProviderSignature a secret = Some s \<and> headers_get (rq_headers r) AUTH_SIGNATURE_HEADER = Some s)"
proof (cases "headers_get (rq_headers r) AUTH_SIGNATURE_HEADER")
  case None
  then show ?thesis by (simp add: verifyCommerceProviderRequestAuthentication_def sha256_pattern_def all_chars_def)
next
  case (Some s)
  then show ?thesis
    using hexBytes_iff [of s "utf8 secret" "utf8 (signaturePayload a)"] signature_pattern
    by (auto simp: verifyCommerceProviderRequestAuthentication_def commerceProviderSignature_def Let_def)
qed

lemma sha256_no_blank: "sha256_pattern s \<Longrightarrow> strip_blanks s = s"
proof (rule strip_blanks_id)
  have "list_all (\<lambda>c. \<not> http_blank c) hexes" by code_simp
  then show "sha256_pattern s \<Longrightarrow> list_all (\<lambda>c. \<not> http_blank c) s"
    by (auto simp: sha256_pattern_def all_chars_def list_all_iff is_hex_def)
qed

lemma schema_no_blank: "strip_blanks COMMERCE_PROVIDER_AUTH_SCHEMA = COMMERCE_PROVIDER_AUTH_SCHEMA"
  by code_simp

lemma auth_headers_distinct: "AUTH_SCHEMA_HEADER \<noteq> AUTH_SIGNATURE_HEADER" "AUTH_SCHEMA_HEADER \<notin> set CONTROL_HEADERS"
  "AUTH_SIGNATURE_HEADER \<notin> set CONTROL_HEADERS"
  by code_simp+

lemma authenticated_headers:
  assumes "authenticateCommerceProviderRequest r a secret = Some r'"
  shows "\<exists>s. commerceProviderSignature a secret = Some s \<and> headers_get (rq_headers r') AUTH_SIGNATURE_HEADER = Some s
      \<and> headers_get (rq_headers r') AUTH_SCHEMA_HEADER = Some COMMERCE_PROVIDER_AUTH_SCHEMA"
    and "rq_method r' = rq_method r" "rq_url r' = rq_url r" "rq_body r' = rq_body r"
    and "\<And>k. k \<noteq> AUTH_SIGNATURE_HEADER \<Longrightarrow> k \<noteq> AUTH_SCHEMA_HEADER \<Longrightarrow> headers_get (rq_headers r') k = headers_get (rq_headers r) k"
  using assms signature_pattern auth_headers_distinct(1)
  by (auto simp: authenticateCommerceProviderRequest_def commerceProviderSignature_def sha256_no_blank schema_no_blank
      split: option.splits if_splits)

lemma control_digest_headers:
  assumes "rq_method r' = rq_method r" "rq_url r' = rq_url r" "rq_body r' = rq_body r"
    and "\<And>k. k \<in> set CONTROL_HEADERS \<Longrightarrow> headers_get (rq_headers r') k = headers_get (rq_headers r) k"
  shows "controlRequestDigest r' = controlRequestDigest r"
proof -
  have "semantic_headers (rq_headers r') CONTROL_HEADERS = semantic_headers (rq_headers r) CONTROL_HEADERS"
    using assms(4) by (simp add: semantic_headers_def header_json_def)
  then show ?thesis using assms(1-3) by (simp add: controlRequestDigest_def)
qed

section \<open>Claims\<close>

text \<open>
  A signed control request verifies, and only with its signature: what was authenticated passes the
  verification under the same contract and secret, its method, address and body are untouched, and
  replacing the signature header by any other text makes the verification fail.
\<close>

theorem control_request_roundtrip:
  assumes "authenticateCommerceProviderControlRequest r contract secret = Some r'"
  shows "verifyCommerceProviderControlRequest r' contract secret
    \<and> rq_method r' = rq_method r \<and> rq_url r' = rq_url r \<and> rq_body r' = rq_body r
    \<and> (\<forall>t. verifyCommerceProviderControlRequest (r'\<lparr>rq_headers := headers_set AUTH_SIGNATURE_HEADER t (rq_headers r')\<rparr>) contract secret
         \<longrightarrow> headers_get (rq_headers r') AUTH_SIGNATURE_HEADER = Some (strip_blanks t))"
proof -
  obtain d where d: "controlRequestDigest r = Some d" and
    auth: "authenticateCommerceProviderRequest r \<lparr>pu_contract = contract, pu_requestDigest = d, pu_bindingDigest = UNBOUND_DIGEST\<rparr> secret = Some r'"
    using assms by (auto simp: authenticateCommerceProviderControlRequest_def split: option.splits)
  note headers = authenticated_headers [OF auth]
  have unchanged: "headers_get (rq_headers r') k = headers_get (rq_headers r) k" if "k \<in> set CONTROL_HEADERS" for k
    by (rule headers(5)) (use that auth_headers_distinct in blast)+
  have d': "controlRequestDigest r' = Some d"
    using control_digest_headers [OF headers(2-4) unchanged] d by simp
  have "verifyCommerceProviderControlRequest r' contract secret"
    using headers(1) d' by (auto simp: verifyCommerceProviderControlRequest_def verify_iff)
  moreover have "headers_get (rq_headers r') AUTH_SIGNATURE_HEADER = Some (strip_blanks t)"
    if t: "verifyCommerceProviderControlRequest (r'\<lparr>rq_headers := headers_set AUTH_SIGNATURE_HEADER t (rq_headers r')\<rparr>) contract secret" for t
  proof -
    let ?r = "r'\<lparr>rq_headers := headers_set AUTH_SIGNATURE_HEADER t (rq_headers r')\<rparr>"
    have "controlRequestDigest ?r = Some d"
      using control_digest_headers [of ?r r'] d' auth_headers_distinct(3) by force
    then show ?thesis using t headers(1) by (auto simp: verifyCommerceProviderControlRequest_def verify_iff)
  qed
  ultimately show ?thesis using headers(2-4) by blast
qed

definition sample_control :: request where
  "sample_control = \<lparr>rq_method = ''GET'', rq_url = ''https://checkout-provider.internal/v1/runtime-evidence'',
     rq_headers = [(''accept'', ''application/json''), (''x-commerce-contract'', ''commerce.checkout-provider/v1'')], rq_body = None\<rparr>"

definition sample_secret :: string where
  "sample_secret = ''0123456789abcdef0123456789abcdef''"

lemma sample_control_signed:
  "\<exists>r. authenticateCommerceProviderControlRequest sample_control ''commerce.checkout-provider/v1'' sample_secret = Some r"
proof -
  have "validCommerceProviderSecret sample_secret" "contract_pattern ''commerce.checkout-provider/v1''" "sha256_pattern UNBOUND_DIGEST"
    "map upper_char (rq_method sample_control) = ''GET''" "rq_body sample_control = None"
    by code_simp+
  then show ?thesis
    by (simp add: authenticateCommerceProviderControlRequest_def authenticateCommerceProviderRequest_def controlRequestDigest_def
        commerceProviderSignature_def validAuthentication_def)
qed

theorem control_request_roundtrip_witness:
  "\<exists>r. authenticateCommerceProviderControlRequest sample_control ''commerce.checkout-provider/v1'' sample_secret = Some r
     \<and> verifyCommerceProviderControlRequest r ''commerce.checkout-provider/v1'' sample_secret"
proof -
  obtain r where "authenticateCommerceProviderControlRequest sample_control ''commerce.checkout-provider/v1'' sample_secret = Some r"
    using sample_control_signed by blast
  with control_request_roundtrip [OF this] show ?thesis by blast
qed

end
