(* ===== verification/Convergence.thy ===== *)
theory Convergence imports Js_Canonical Js_Http Js_Order begin

text \<open>
  \<open>src/src/core/upstream-evidence.ts\<close> and \<open>convergence-evaluator.ts\<close>: the runtime evidence that a
  provider advertises, judged against the identities pinned in the configuration and against the checks
  that the caller requires.
\<close>

section \<open>Evidence pins\<close>

definition UPSTREAM_RUNTIME_EVIDENCE_SCHEMA :: string where
  "UPSTREAM_RUNTIME_EVIDENCE_SCHEMA = ''commerce.upstream-runtime-evidence/v1''"

definition COMMERCE_PRD_REVISION :: string where
  "COMMERCE_PRD_REVISION = ''0.3.0''"

definition DISCOVERY_EVIDENCE_CHECKS :: "string list" where
  "DISCOVERY_EVIDENCE_CHECKS = [''invocation_catalog_parity'', ''registered_agent_dispatch'', ''offer_receipt_binding'']"

definition CHECKOUT_EVIDENCE_CHECKS :: "string list" where
  "CHECKOUT_EVIDENCE_CHECKS = [''guardrail_before_confirmation'', ''human_confirmation_before_issuance'',
     ''issuance_only_payment_caller'', ''settlement_readback'']"

definition MARKETPLACE_EVIDENCE_CHECKS :: "string list" where
  "MARKETPLACE_EVIDENCE_CHECKS = [''authoring_fence_atomic'', ''registry_canvas_parity'', ''active_vendor_at_dispatch'',
     ''same_transaction_split_projection'', ''commission_reproduction'', ''settlement_verified_before_payout'',
     ''payout_idempotency'', ''stored_row_reconstruction'']"

record evidence_pin =
  ep_sourceRevision :: string
  ep_receiptDigest :: string
  ep_storageCompatibilityRevision :: string
  ep_providerVersionId :: string

definition version_id_pattern :: "string \<Rightarrow> bool" where \<comment> \<open>\<open>/^[A-Za-z0-9_-]{1,128}$/u\<close>\<close>
  "version_id_pattern = all_chars (\<lambda>c. is_alnum c \<or> c \<in> set ''_-'') 1 128"

definition readUpstreamEvidencePin :: "string \<Rightarrow> evidence_pin option" where
  "readUpstreamEvidencePin s =
     (case json_parse s of
        None \<Rightarrow> None
      | Some v \<Rightarrow>
          if \<not> isRecord v \<or> keys_text v \<noteq> ''providerVersionId,receiptDigest,sourceRevision,storageCompatibilityRevision''
             \<or> \<not> isNonzeroHexIdentity (field v ''sourceRevision'') 40 \<or> \<not> isNonzeroHexIdentity (field v ''receiptDigest'') 64
             \<or> \<not> is_str (field v ''storageCompatibilityRevision'') (path_pattern 127)
             \<or> \<not> is_str (field v ''providerVersionId'') version_id_pattern
          then None
          else Some \<lparr>ep_sourceRevision = text_of v ''sourceRevision'', ep_receiptDigest = text_of v ''receiptDigest'',
             ep_storageCompatibilityRevision = text_of v ''storageCompatibilityRevision'',
             ep_providerVersionId = text_of v ''providerVersionId''\<rparr>)"

section \<open>Contract revisions\<close>

record contract_revision =
  rv_major :: nat
  rv_minor :: nat
  rv_patch :: nat

fun split_dots :: "string \<Rightarrow> string list" where
  "split_dots [] = [[]]"
| "split_dots (c # cs) =
     (if c = CHR ''.'' then [] # split_dots cs
      else case split_dots cs of [] \<Rightarrow> [[c]] | s # ss \<Rightarrow> (c # s) # ss)"

definition revision_numeral :: "string \<Rightarrow> bool" where \<comment> \<open>\<open>0|[1-9][0-9]*\<close>\<close>
  "revision_numeral s = (s = ''0'' \<or> s \<noteq> [] \<and> hd s \<noteq> CHR ''0'' \<and> list_all is_digit s)"

definition safe_numeral :: "string \<Rightarrow> bool" where
  "safe_numeral s = (revision_numeral s \<and> int (digits_value s) \<le> max_safe)"

definition parseContractRevision :: "string option \<Rightarrow> contract_revision option" where
  "parseContractRevision v =
     (case v of None \<Rightarrow> None
      | Some s \<Rightarrow>
          (case split_dots s of
             [a, b, c] \<Rightarrow> if safe_numeral a \<and> safe_numeral b \<and> safe_numeral c
               then Some \<lparr>rv_major = digits_value a, rv_minor = digits_value b, rv_patch = digits_value c\<rparr> else None
           | _ \<Rightarrow> None))"

definition formatContractRevision :: "contract_revision \<Rightarrow> string" where
  "formatContractRevision r = nat_text (rv_major r) @ ''.'' @ nat_text (rv_minor r) @ ''.'' @ nat_text (rv_patch r)"

definition revisionForwardCompatible :: "contract_revision \<Rightarrow> contract_revision \<Rightarrow> bool" where
  "revisionForwardCompatible declared advertised = (rv_major advertised = rv_major declared \<and> rv_minor declared \<le> rv_minor advertised)"

section \<open>Evaluation\<close>

datatype convergence_state = Converged | Converged_with_surplus | Blocked

record declared_requirements =
  dr_provider :: string
  dr_expectedContract :: string
  dr_requiredCheckSet :: "string list"
  dr_declaredContractRevision :: contract_revision
  dr_pin :: evidence_pin

type_synonym identity_failure = "string \<times> string" \<comment> \<open>field and reason\<close>

record convergence_verdict =
  cv_provider :: string
  cv_state :: convergence_state
  cv_reason :: "string option"
  cv_requiredSatisfied :: "string list"
  cv_requiredAbsentOrFailing :: "string list"
  cv_surplusChecks :: "string list"
  cv_unnamedEnvelopeFieldCount :: nat
  cv_declaredContractRevision :: string
  cv_advertisedContractRevision :: "string option"
  cv_identityFailures :: "identity_failure list"

abbreviation sort_text :: "string list \<Rightarrow> string list" where
  "sort_text \<equiv> sort_by (\<lambda>l r. compareText l r \<le> 0)"

text \<open>The distinct elements, in the order of their first occurrence: \<open>[...new Set(xs)]\<close>.\<close>

fun set_list :: "string list \<Rightarrow> string list \<Rightarrow> string list" where
  "set_list seen [] = []"
| "set_list seen (x # xs) = (if x \<in> set seen then set_list seen xs else x # set_list (x # seen) xs)"

definition blockedConvergenceVerdict :: "string \<Rightarrow> string \<Rightarrow> string list \<Rightarrow> string \<Rightarrow> convergence_verdict" where
  "blockedConvergenceVerdict provider declaredContractRevision requiredCheckSet reason =
     \<lparr>cv_provider = provider, cv_state = Blocked, cv_reason = Some reason, cv_requiredSatisfied = [],
      cv_requiredAbsentOrFailing = sort_text (set_list [] requiredCheckSet), cv_surplusChecks = [],
      cv_unnamedEnvelopeFieldCount = 0, cv_declaredContractRevision = declaredContractRevision,
      cv_advertisedContractRevision = None, cv_identityFailures = [(''evidence'', reason)]\<rparr>"

definition OUTER_FIELDS :: "string list" where
  "OUTER_FIELDS = [''contract'', ''evidence'', ''ok'']"

definition EVIDENCE_FIELDS :: "string list" where
  "EVIDENCE_FIELDS = [''checks'', ''prdRevision'', ''providerVersionId'', ''receiptDigest'', ''schema'', ''sourceRevision'',
     ''storageCompatibilityRevision'']"

text \<open>Property access through \<open>?.\<close>\<close>

definition opt_field :: "json option \<Rightarrow> string \<Rightarrow> json option" where
  "opt_field v k = Option.bind v (\<lambda>w. field w k)"

definition record_of :: "json option \<Rightarrow> json option" where
  "record_of v = (case v of Some w \<Rightarrow> if isRecord w then Some w else None | None \<Rightarrow> None)"

definition countUnnamed :: "json option \<Rightarrow> string list \<Rightarrow> nat" where
  "countUnnamed v named = (case v of None \<Rightarrow> 0 | Some w \<Rightarrow> length (filter (\<lambda>k. k \<notin> set named) (keys_of w)))"

definition requireIdentity :: "string \<Rightarrow> bool \<Rightarrow> string \<Rightarrow> identity_failure list" where
  "requireIdentity f condition reason = (if condition then [] else [(f, reason)])"

definition checkPinnedIdentity :: "json option \<Rightarrow> string \<Rightarrow> string \<Rightarrow> (string \<Rightarrow> bool) \<Rightarrow> identity_failure list" where
  "checkPinnedIdentity evidence f expected pattern' =
     (case as_str (opt_field evidence f) of
        None \<Rightarrow> [(f, ''missing'')]
      | Some s \<Rightarrow> if \<not> pattern' s then [(f, ''invalid_format'')] else if s \<noteq> expected then [(f, ''mismatch'')] else [])"

definition check_entry :: "json \<Rightarrow> bool" where
  "check_entry e = (isRecord e \<and> list_all (\<lambda>k. k \<in> set [''name'', ''ok'']) (keys_of e)
     \<and> is_str (field e ''name'') (\<lambda>s. s \<noteq> []) \<and> as_bool (field e ''ok'') \<noteq> None)"

fun scan_checks :: "string list \<Rightarrow> json list \<Rightarrow> bool \<times> string list" where
  "scan_checks names [] = (True, [])"
| "scan_checks names (e # es) =
     (if \<not> check_entry e \<or> text_of e ''name'' \<in> set names then (False, snd (scan_checks names es))
      else let (valid, passing) = scan_checks (text_of e ''name'' # names) es
        in (valid, if as_bool (field e ''ok'') = Some True then text_of e ''name'' # passing else passing))"

record read_checks =
  rk_valid :: bool
  rk_passing :: "string list"
  rk_raw :: "json list"

definition readChecks :: "json option \<Rightarrow> read_checks" where
  "readChecks v = (case v of
     Some (JArr entries) \<Rightarrow> let (valid, passing) = scan_checks [] entries
       in \<lparr>rk_valid = valid, rk_passing = sort_text passing, rk_raw = entries\<rparr>
   | _ \<Rightarrow> \<lparr>rk_valid = False, rk_passing = [], rk_raw = []\<rparr>)"

text \<open>\<open>JSON.stringify\<close> leaves out a property that is undefined.\<close>

definition evidence_content :: "json \<Rightarrow> json list \<Rightarrow> json" where
  "evidence_content evidence checks = JObj (concat (map (\<lambda>k. case field evidence k of None \<Rightarrow> [] | Some v \<Rightarrow> [(k, v)])
     [''schema'', ''prdRevision'', ''sourceRevision'', ''storageCompatibilityRevision'', ''providerVersionId''])
     @ [(''checks'', JArr checks)])"

definition evidence_digest :: "json \<Rightarrow> json list \<Rightarrow> string" where
  "evidence_digest evidence checks = sha256Hex (canonicalJson (evidence_content evidence checks))"

definition revision_failures :: "declared_requirements \<Rightarrow> contract_revision option \<Rightarrow> identity_failure list" where
  "revision_failures declared advertised = requireIdentity ''prdRevision'' (advertised \<noteq> None) ''invalid_format''
     @ (case advertised of Some r \<Rightarrow> if revisionForwardCompatible (dr_declaredContractRevision declared) r then []
          else [(''prdRevision'', ''not_forward_compatible'')] | None \<Rightarrow> [])"

definition identity_failures :: "declared_requirements \<Rightarrow> json \<Rightarrow> identity_failure list" where
  "identity_failures declared advertised =
     (let outer = record_of (Some advertised); evidence = record_of (opt_field outer ''evidence'');
          checks = readChecks (opt_field evidence ''checks''); pin = dr_pin declared
      in requireIdentity ''envelope'' (outer \<noteq> None) ''missing_or_malformed''
         @ requireIdentity ''ok'' (opt_field outer ''ok'' = Some (JBool True)) ''not_true''
         @ requireIdentity ''contract'' (opt_field outer ''contract'' = Some (JStr (dr_expectedContract declared))) ''mismatch''
         @ requireIdentity ''evidence'' (evidence \<noteq> None) ''missing_or_malformed''
         @ revision_failures declared (parseContractRevision (as_str (opt_field evidence ''prdRevision'')))
         @ requireIdentity ''schema'' (opt_field evidence ''schema'' = Some (JStr UPSTREAM_RUNTIME_EVIDENCE_SCHEMA)) ''mismatch''
         @ checkPinnedIdentity evidence ''sourceRevision'' (ep_sourceRevision pin) sha1_pattern
         @ checkPinnedIdentity evidence ''receiptDigest'' (ep_receiptDigest pin) sha256_pattern
         @ checkPinnedIdentity evidence ''storageCompatibilityRevision'' (ep_storageCompatibilityRevision pin) (path_pattern 127)
         @ checkPinnedIdentity evidence ''providerVersionId'' (ep_providerVersionId pin) version_id_pattern
         @ requireIdentity ''checks'' (rk_valid checks) ''malformed_or_duplicate''
         @ (case evidence of None \<Rightarrow> []
            | Some e \<Rightarrow> requireIdentity ''integrity''
                (field e ''receiptDigest'' = Some (JStr (evidence_digest e (rk_raw checks)))) ''digest_mismatch''))"

definition evaluateConvergence :: "json \<Rightarrow> declared_requirements \<Rightarrow> convergence_verdict" where
  "evaluateConvergence advertised declared =
     (let outer = record_of (Some advertised); evidence = record_of (opt_field outer ''evidence'');
          checks = readChecks (opt_field evidence ''checks'');
          failures = sort_by (\<lambda>l r. compareText (fst l @ '':'' @ snd l) (fst r @ '':'' @ snd r) \<le> 0) (identity_failures declared advertised);
          required = sort_text (set_list [] (dr_requiredCheckSet declared));
          satisfied = filter (\<lambda>k. k \<in> set (rk_passing checks)) required;
          absent = filter (\<lambda>k. k \<notin> set (rk_passing checks)) required;
          surplus = sort_text (filter (\<lambda>k. k \<notin> set required) (rk_passing checks))
      in \<lparr>cv_provider = dr_provider declared,
          cv_state = (if failures \<noteq> [] \<or> absent \<noteq> [] then Blocked else if surplus \<noteq> [] then Converged_with_surplus else Converged),
          cv_reason = (if failures \<noteq> [] then Some ''identity_or_integrity_failure''
             else if absent \<noteq> [] then Some ''required_checks_unsatisfied'' else None),
          cv_requiredSatisfied = satisfied, cv_requiredAbsentOrFailing = absent, cv_surplusChecks = surplus,
          cv_unnamedEnvelopeFieldCount = countUnnamed outer OUTER_FIELDS + countUnnamed evidence EVIDENCE_FIELDS,
          cv_declaredContractRevision = formatContractRevision (dr_declaredContractRevision declared),
          cv_advertisedContractRevision = as_str (opt_field evidence ''prdRevision''),
          cv_identityFailures = failures\<rparr>)"

definition declaredRequirements :: "string \<Rightarrow> string \<Rightarrow> string list \<Rightarrow> evidence_pin \<Rightarrow> thrown + declared_requirements" where
  "declaredRequirements provider expectedContract requiredCheckSet pin =
     (case parseContractRevision (Some COMMERCE_PRD_REVISION) of
        None \<Rightarrow> Inl (error_of ''declared_contract_revision_invalid'')
      | Some revision \<Rightarrow> Inr \<lparr>dr_provider = provider, dr_expectedContract = expectedContract, dr_requiredCheckSet = requiredCheckSet,
          dr_declaredContractRevision = revision, dr_pin = pin\<rparr>)"

text \<open>The result of a verification; without a valid pin it has no detail.\<close>

record evidence_detail =
  ed_verdict :: convergence_verdict
  ed_providerVersionId :: "string option"
  ed_sourceRevision :: "string option"
  ed_receiptDigest :: "string option"
  ed_storageCompatibilityRevision :: "string option"
  ed_checks :: "string list"

record evidence_verification =
  ev_ok :: bool
  ev_code :: "string option"
  ev_detail :: "evidence_detail option"

definition check_names :: "json option \<Rightarrow> string list" where
  "check_names v = (case v of Some (JArr entries) \<Rightarrow> map (\<lambda>e. text_of e ''name'') (filter isRecord entries) | _ \<Rightarrow> [])"

definition verifyUpstreamRuntimeEvidence ::
  "json \<Rightarrow> string \<Rightarrow> evidence_pin option \<Rightarrow> string list \<Rightarrow> thrown + evidence_verification" where
  "verifyUpstreamRuntimeEvidence v expectedContract pin requiredChecks =
     (case pin of
        None \<Rightarrow> Inr \<lparr>ev_ok = False, ev_code = Some ''evidence_pin_invalid'', ev_detail = None\<rparr>
      | Some p \<Rightarrow>
          (case declaredRequirements expectedContract expectedContract requiredChecks p of
             Inl e \<Rightarrow> Inl e
           | Inr declared \<Rightarrow>
               let verdict = evaluateConvergence v declared; ok = (cv_state verdict \<noteq> Blocked);
                   evidence = record_of (opt_field (record_of (Some v)) ''evidence'')
               in Inr \<lparr>ev_ok = ok, ev_code = (if ok then None else Some ''evidence_receipt_mismatch''),
                    ev_detail = Some \<lparr>ed_verdict = verdict,
                      ed_providerVersionId = as_str (opt_field evidence ''providerVersionId''),
                      ed_sourceRevision = as_str (opt_field evidence ''sourceRevision''),
                      ed_receiptDigest = as_str (opt_field evidence ''receiptDigest''),
                      ed_storageCompatibilityRevision = as_str (opt_field evidence ''storageCompatibilityRevision''),
                      ed_checks = check_names (opt_field evidence ''checks'')\<rparr>\<rparr>))"

definition digestUpstreamRuntimeEvidence :: "json \<Rightarrow> string" where
  "digestUpstreamRuntimeEvidence v = sha256Hex (canonicalJson v)"

section \<open>Revisions as texts\<close>

lemma digit_nth: "is_digit c \<Longrightarrow> position c digits < 10 \<and> digits ! position c digits = c"
proof -
  have "\<forall>c \<in> set digits. position c digits < 10 \<and> digits ! position c digits = c"
    unfolding list_all_iff [symmetric] by code_simp
  then show "is_digit c \<Longrightarrow> ?thesis" by (simp add: is_digit_def)
qed

lemma numeral_text: "revision_numeral s \<Longrightarrow> nat_text (digits_value s) = s"
proof (induction s rule: rev_induct)
  case (snoc c s)
  show ?case
  proof (cases "s = []")
    case True
    have "is_digit c" using snoc.prems True by (auto simp: revision_numeral_def is_digit_def digits_def)
    then show ?thesis using True digit_nth [of c] digits_value_append [of "[]" c]
      by (simp add: digits_value_def nat_text.simps)
  next
    case False
    then have s: "revision_numeral s" "hd s \<noteq> CHR ''0''" "is_digit c"
      using snoc.prems by (auto simp: revision_numeral_def)
    have v: "nat_text (digits_value s) = s" by (rule snoc.IH [OF s(1)])
    have "digits_value s \<noteq> 0"
    proof
      assume "digits_value s = 0"
      then have "s = [digits ! 0]" using v by (simp add: nat_text.simps)
      then show False using s(2) by (simp add: digits_def)
    qed
    then show ?thesis using v digit_nth [OF s(3)] by (subst nat_text.simps) (simp add: digits_value_append)
  qed
qed (simp add: revision_numeral_def)

lemma nat_text_numeral: "revision_numeral (nat_text n)"
proof (cases "length (nat_text n) > 1")
  case True
  then show ?thesis using nat_text_no_leading_zero [of n] nat_text_digits [of n] by (simp add: revision_numeral_def)
next
  case False
  then obtain c where c: "nat_text n = [c]" using nat_text_digits [of n] by (cases "nat_text n") auto
  then show ?thesis using nat_text_digits [of n] by (auto simp: revision_numeral_def)
qed

lemma split_dots_append: "CHR ''.'' \<notin> set a \<Longrightarrow> split_dots (a @ CHR ''.'' # s) = a # split_dots s"
  by (induction a) auto

lemma split_dots_one: "CHR ''.'' \<notin> set a \<Longrightarrow> split_dots a = [a]"
  by (induction a) auto

fun join_dots :: "string list \<Rightarrow> string" where
  "join_dots [] = []"
| "join_dots [s] = s"
| "join_dots (s # ss) = s @ ''.'' @ join_dots ss"

lemma join_split_dots: "join_dots (split_dots s) = s \<and> split_dots s \<noteq> []"
proof (induction s)
  case (Cons c s)
  then show ?case by (cases "split_dots s"; cases "tl (split_dots s)") auto
qed simp

lemma digits_no_dot: "list_all is_digit s \<Longrightarrow> CHR ''.'' \<notin> set s"
proof -
  have "\<not> is_digit (CHR ''.'')" by code_simp
  then show "list_all is_digit s \<Longrightarrow> ?thesis" by (auto simp: list_all_iff)
qed

text \<open>
  A contract revision is a text in one form only: a text parses to a revision exactly when it is the
  revision written out, with components that are safe integers.
\<close>

theorem contract_revision_roundtrip:
  "parseContractRevision (Some s) = Some r \<longleftrightarrow> s = formatContractRevision r
     \<and> int (rv_major r) \<le> max_safe \<and> int (rv_minor r) \<le> max_safe \<and> int (rv_patch r) \<le> max_safe"
proof
  assume parsed: "parseContractRevision (Some s) = Some r"
  then obtain a b c where abc: "split_dots s = [a, b, c]" "safe_numeral a" "safe_numeral b" "safe_numeral c"
    "r = \<lparr>rv_major = digits_value a, rv_minor = digits_value b, rv_patch = digits_value c\<rparr>"
    by (auto simp: parseContractRevision_def split: list.splits if_splits)
  have "s = a @ ''.'' @ b @ ''.'' @ c" using join_split_dots [of s] abc(1) by simp
  then show "s = formatContractRevision r
     \<and> int (rv_major r) \<le> max_safe \<and> int (rv_minor r) \<le> max_safe \<and> int (rv_patch r) \<le> max_safe"
    using abc(2-5) by (simp add: formatContractRevision_def safe_numeral_def numeral_text)
next
  assume s: "s = formatContractRevision r
     \<and> int (rv_major r) \<le> max_safe \<and> int (rv_minor r) \<le> max_safe \<and> int (rv_patch r) \<le> max_safe"
  have nodot: "CHR ''.'' \<notin> set (nat_text n)" for n using digits_no_dot nat_text_digits by blast
  then have "split_dots s = [nat_text (rv_major r), nat_text (rv_minor r), nat_text (rv_patch r)]"
    using s by (simp add: formatContractRevision_def split_dots_append split_dots_one)
  then show "parseContractRevision (Some s) = Some r"
    using s by (simp add: parseContractRevision_def safe_numeral_def nat_text_numeral nat_text_value)
qed

section \<open>When evidence is accepted\<close>

lemma scan_checks_valid:
  "fst (scan_checks names es) \<longleftrightarrow> list_all check_entry es \<and> distinct (map (\<lambda>e. text_of e ''name'') es)
     \<and> set (map (\<lambda>e. text_of e ''name'') es) \<inter> set names = {}"
proof (induction names es rule: scan_checks.induct)
  case (2 names e es)
  then show ?case by (cases "\<not> check_entry e \<or> text_of e ''name'' \<in> set names") (auto split: prod.splits)
qed simp

lemma scan_checks_passing:
  "fst (scan_checks names es) \<Longrightarrow>
     snd (scan_checks names es) = map (\<lambda>e. text_of e ''name'') (filter (\<lambda>e. as_bool (field e ''ok'') = Some True) es)"
proof (induction names es rule: scan_checks.induct)
  case (2 names e es)
  then show ?case by (cases "\<not> check_entry e \<or> text_of e ''name'' \<in> set names") (auto split: prod.splits)
qed simp

lemma set_set_list: "set (set_list seen xs) = set xs - set seen"
  by (induction seen xs rule: set_list.induct) auto

lemma requireIdentity_Nil [simp]: "requireIdentity f c reason = [] \<longleftrightarrow> c"
  by (simp add: requireIdentity_def)

lemma checkPinnedIdentity_Nil [simp]:
  "checkPinnedIdentity (Some e) f expected pattern' = [] \<longleftrightarrow> field e f = Some (JStr expected) \<and> pattern' expected"
  by (auto simp: checkPinnedIdentity_def opt_field_def split: option.splits)

lemma readChecks_valid:
  "rk_valid (readChecks v) \<longleftrightarrow> (\<exists>es. v = Some (JArr es) \<and> list_all check_entry es \<and> distinct (map (\<lambda>e. text_of e ''name'') es))"
proof (cases "\<exists>es. v = Some (JArr es)")
  case True
  then obtain es where "v = Some (JArr es)" by blast
  moreover have "rk_valid (readChecks (Some (JArr es))) = fst (scan_checks [] es)" by (simp add: readChecks_def split: prod.split)
  ultimately show ?thesis using scan_checks_valid [of "[]" es] by simp
next
  case False
  then have "\<not> rk_valid (readChecks v)" by (auto simp: readChecks_def split: option.splits json.splits)
  then show ?thesis using False by blast
qed

lemma readChecks_entries:
  "rk_valid (readChecks (Some (JArr es))) \<Longrightarrow> rk_raw (readChecks (Some (JArr es))) = es
     \<and> set (rk_passing (readChecks (Some (JArr es)))) = {k. \<exists>e \<in> set es. text_of e ''name'' = k \<and> field e ''ok'' = Some (JBool True)}"
  using scan_checks_passing [of "[]" es] by (auto simp: readChecks_def split: prod.splits)

text \<open>Evidence that names what is expected.\<close>

definition evidence_matches :: "declared_requirements \<Rightarrow> json \<Rightarrow> json list \<Rightarrow> bool" where
  "evidence_matches d e checks =
     (isRecord e \<and> field e ''schema'' = Some (JStr UPSTREAM_RUNTIME_EVIDENCE_SCHEMA)
      \<and> field e ''sourceRevision'' = Some (JStr (ep_sourceRevision (dr_pin d)))
      \<and> field e ''receiptDigest'' = Some (JStr (ep_receiptDigest (dr_pin d)))
      \<and> field e ''storageCompatibilityRevision'' = Some (JStr (ep_storageCompatibilityRevision (dr_pin d)))
      \<and> field e ''providerVersionId'' = Some (JStr (ep_providerVersionId (dr_pin d)))
      \<and> field e ''checks'' = Some (JArr checks))"

definition pin_wellformed :: "evidence_pin \<Rightarrow> bool" where
  "pin_wellformed p = (sha1_pattern (ep_sourceRevision p) \<and> sha256_pattern (ep_receiptDigest p)
     \<and> path_pattern 127 (ep_storageCompatibilityRevision p) \<and> version_id_pattern (ep_providerVersionId p))"

lemma no_failures_iff:
  "identity_failures d v = [] \<longleftrightarrow> pin_wellformed (dr_pin d)
     \<and> isRecord v \<and> field v ''ok'' = Some (JBool True) \<and> field v ''contract'' = Some (JStr (dr_expectedContract d))
     \<and> (\<exists>e checks r. field v ''evidence'' = Some e \<and> evidence_matches d e checks
          \<and> parseContractRevision (as_str (field e ''prdRevision'')) = Some r
          \<and> revisionForwardCompatible (dr_declaredContractRevision d) r
          \<and> list_all check_entry checks \<and> distinct (map (\<lambda>c. text_of c ''name'') checks)
          \<and> ep_receiptDigest (dr_pin d) = evidence_digest e checks)"
proof (cases "isRecord v \<and> (\<exists>e. field v ''evidence'' = Some e \<and> isRecord e)")
  case True
  then obtain e where e: "isRecord v" "field v ''evidence'' = Some e" "isRecord e" by blast
  have opt: "opt_field (Some w) k = field w k" for w k by (simp add: opt_field_def)
  have access: "record_of (Some v) = Some v" "record_of (Some e) = Some e" using e by (simp_all add: record_of_def)
  have rev: "revision_failures d pr = [] \<longleftrightarrow> (\<exists>r. pr = Some r \<and> revisionForwardCompatible (dr_declaredContractRevision d) r)" for pr
    by (auto simp: revision_failures_def split: option.splits)
  show ?thesis
    unfolding identity_failures_def Let_def access opt e(2) append_is_Nil_conv requireIdentity_Nil checkPinnedIdentity_Nil rev option.case
      readChecks_valid evidence_matches_def pin_wellformed_def
    using e readChecks_entries by (auto simp: readChecks_valid)
next
  case False
  then have "record_of (opt_field (record_of (Some v)) ''evidence'') = None"
    by (auto simp: record_of_def opt_field_def split: option.splits if_splits)
  then have "identity_failures d v \<noteq> []" by (simp add: identity_failures_def Let_def)
  then show ?thesis using False by (auto simp: evidence_matches_def)
qed

text \<open>
  C20. Evidence is accepted exactly when it is what was pinned: the envelope is a success of the expected
  contract, schema, source, storage and provider version are the pinned ones, the advertised contract
  revision is forward compatible, the checks are well formed with distinct names and every required
  check passes, and the pinned digest is the digest of the advertised content. Anything else is blocked.
\<close>

theorem evidence_accepted:
  "cv_state (evaluateConvergence v d) \<noteq> Blocked \<longleftrightarrow> pin_wellformed (dr_pin d)
     \<and> isRecord v \<and> field v ''ok'' = Some (JBool True) \<and> field v ''contract'' = Some (JStr (dr_expectedContract d))
     \<and> (\<exists>e checks r. field v ''evidence'' = Some e \<and> evidence_matches d e checks
          \<and> parseContractRevision (as_str (field e ''prdRevision'')) = Some r
          \<and> revisionForwardCompatible (dr_declaredContractRevision d) r
          \<and> list_all check_entry checks \<and> distinct (map (\<lambda>c. text_of c ''name'') checks)
          \<and> ep_receiptDigest (dr_pin d) = evidence_digest e checks
          \<and> set (dr_requiredCheckSet d) \<subseteq> {k. \<exists>c \<in> set checks. text_of c ''name'' = k \<and> field c ''ok'' = Some (JBool True)})"
proof -
  let ?passing = "set (rk_passing (readChecks (opt_field (record_of (opt_field (record_of (Some v)) ''evidence'')) ''checks'')))"
  have sorted: "sort_by le xs = [] \<longleftrightarrow> xs = []" for le and xs :: "'a list" by (metis length_0_conv length_sort_by)
  have "cv_state (evaluateConvergence v d) \<noteq> Blocked \<longleftrightarrow> identity_failures d v = [] \<and> set (dr_requiredCheckSet d) \<subseteq> ?passing"
    by (auto simp: evaluateConvergence_def Let_def sorted filter_empty_conv set_set_list)
  moreover have "?passing = {k. \<exists>c \<in> set checks. text_of c ''name'' = k \<and> field c ''ok'' = Some (JBool True)}"
    if "isRecord v" "field v ''evidence'' = Some e" "evidence_matches d e checks"
      "list_all check_entry checks" "distinct (map (\<lambda>c. text_of c ''name'') checks)" for e checks
  proof -
    have "rk_valid (readChecks (Some (JArr checks)))" using that(4,5) by (simp add: readChecks_valid)
    then show ?thesis using readChecks_entries that(1-3) by (simp add: record_of_def opt_field_def evidence_matches_def)
  qed
  ultimately show ?thesis unfolding no_failures_iff by blast
qed

end
