(* ===== verification/Provider_Gate.thy ===== *)
theory Provider_Gate imports Provider_Auth Convergence Authoring_Headers Checkout_Receipts begin

text \<open>
  \<open>src/src/core/provider-operation-gate.ts\<close>: no operation reaches a provider before the provider's
  runtime evidence was accepted, and the request carries that evidence, its own digest and a signature,
  which the receiver recomputes. A provider is a function from requests to responses, \<open>None\<close> when the
  call throws; the time limits of the calls are part of it.
\<close>

section \<open>Model\<close>

definition DISCOVERY_PROVIDER_CONTRACT :: string where
  "DISCOVERY_PROVIDER_CONTRACT = ''commerce.discovery-provider/v1''"

definition MARKETPLACE_PROVIDER_CONTRACT :: string where
  "MARKETPLACE_PROVIDER_CONTRACT = ''commerce.marketplace-provider/v1''"

record response =
  rs_status :: nat
  rs_headers :: headers
  rs_body :: "body option"

definition rs_ok :: "response \<Rightarrow> bool" where
  "rs_ok r = (200 \<le> rs_status r \<and> rs_status r < 300)"

type_synonym provider = "request \<Rightarrow> response option"

definition MAXIMUM_EVIDENCE_BYTES :: nat where "MAXIMUM_EVIDENCE_BYTES = 65536"
definition MAXIMUM_OPERATION_BODY_BYTES :: nat where "MAXIMUM_OPERATION_BODY_BYTES = 65536"

record evidence_permit =
  pt_pin :: evidence_pin
  pt_requiredCheckSetDigest :: string

record evidence_binding =
  bn_pin :: evidence_pin
  bn_requiredCheckSetDigest :: string
  bn_requestDigest :: string
  bn_bindingDigest :: string

datatype gate_error =
  Provider_evidence_unavailable | Provider_evidence_mismatch | Provider_request_unbindable | Provider_authentication_unavailable

fun gate_code :: "gate_error \<Rightarrow> string" where
  "gate_code Provider_evidence_unavailable = ''provider_evidence_unavailable''"
| "gate_code Provider_evidence_mismatch = ''provider_evidence_mismatch''"
| "gate_code Provider_request_unbindable = ''provider_request_unbindable''"
| "gate_code Provider_authentication_unavailable = ''provider_authentication_unavailable''"

definition check_name_pattern :: "string \<Rightarrow> bool" where \<comment> \<open>\<open>/^[a-z][a-z0-9_]{0,127}$/u\<close>\<close>
  "check_name_pattern = head_tail is_lower (\<lambda>c. is_lower c \<or> is_digit c \<or> c = CHR ''_'') 127"

definition normalizeRequiredChecks :: "string list \<Rightarrow> string list option" where
  "normalizeRequiredChecks v =
     (if v = [] \<or> 128 < length v then None
      else let normalized = sort_text (set_list [] v)
        in if length normalized = length v \<and> list_all check_name_pattern normalized then Some normalized else None)"

definition checks_digest :: "string list \<Rightarrow> string" where
  "checks_digest normalized = sha256Hex (canonicalJson (JArr (map JStr normalized)))"

definition evidence_request :: "string \<Rightarrow> string \<Rightarrow> string option \<Rightarrow> request option" where
  "evidence_request hostname expectedContract authenticationSecret =
     (let unsigned = \<lparr>rq_method = ''GET'', rq_url = ''https://'' @ hostname @ ''/v1/runtime-evidence'',
            rq_headers = [(''accept'', ''application/json''), (''x-commerce-contract'', expectedContract)], rq_body = None\<rparr>
      in case authenticationSecret of None \<Rightarrow> Some unsigned
         | Some secret \<Rightarrow> authenticateCommerceProviderControlRequest unsigned expectedContract secret)"

definition verifyOperationalEvidence ::
  "provider \<Rightarrow> string \<Rightarrow> string \<Rightarrow> string \<Rightarrow> string list \<Rightarrow> string option \<Rightarrow> gate_error + evidence_permit" where
  "verifyOperationalEvidence provider hostname expectedContract pinJson requiredChecks authenticationSecret =
     (case (readUpstreamEvidencePin pinJson, normalizeRequiredChecks requiredChecks) of
        (Some pin, Some normalizedChecks) \<Rightarrow>
          (case Option.bind (evidence_request hostname expectedContract authenticationSecret) provider of
                None \<Rightarrow> Inl Provider_evidence_unavailable
              | Some response' \<Rightarrow>
                  (case verifyUpstreamRuntimeEvidence
                      (readJsonResponse (rs_headers response') (rs_body response') MAXIMUM_EVIDENCE_BYTES)
                      expectedContract (Some pin) normalizedChecks of
                     Inl _ \<Rightarrow> Inl Provider_evidence_unavailable
                   | Inr verification \<Rightarrow>
                       if \<not> rs_ok response' \<or> \<not> ev_ok verification then Inl Provider_evidence_mismatch
                       else Inr \<lparr>pt_pin = pin, pt_requiredCheckSetDigest = checks_digest normalizedChecks\<rparr>))
      | _ \<Rightarrow> Inl Provider_evidence_mismatch)"

definition checkoutOperationalEvidence :: "provider \<Rightarrow> string \<Rightarrow> string \<Rightarrow> gate_error + evidence_permit" where
  "checkoutOperationalEvidence provider pinJson secret = verifyOperationalEvidence provider ''checkout-provider.internal''
     CHECKOUT_PROVIDER_CONTRACT pinJson CHECKOUT_EVIDENCE_CHECKS (Some secret)"

definition discoveryOperationalEvidence :: "provider \<Rightarrow> string \<Rightarrow> gate_error + evidence_permit" where
  "discoveryOperationalEvidence provider pinJson = verifyOperationalEvidence provider ''discovery-provider.internal''
     DISCOVERY_PROVIDER_CONTRACT pinJson DISCOVERY_EVIDENCE_CHECKS None"

subsection \<open>Binding a request\<close>

text \<open>The body read within the bound, replayed as one chunk.\<close>

definition readBoundedOperationBody :: "body option \<Rightarrow> body option option" where
  "readBoundedOperationBody b =
     (case b of None \<Rightarrow> Some None
      | Some body \<Rightarrow> (case read_chunks MAXIMUM_OPERATION_BODY_BYTES 0 (bd_chunks body) of
          None \<Rightarrow> None | Some len \<Rightarrow> Some (Some (body\<lparr>bd_chunks := [len]\<rparr>))))"

definition readBoundedOperationRequest :: "request \<Rightarrow> request option" where
  "readBoundedOperationRequest r =
     (if \<not> declared_length_ok MAXIMUM_OPERATION_BODY_BYTES (headers_get (rq_headers r) ''content-length'') then None
      else map_option (\<lambda>b. r\<lparr>rq_body := b\<rparr>) (readBoundedOperationBody (rq_body r)))"

definition body_text :: "request \<Rightarrow> string" where
  "body_text r = (case rq_body r of None \<Rightarrow> '''' | Some b \<Rightarrow> bd_text b)"

definition AUTHORING_MUTATION_HEADER_NAMES :: "string list" where
  "AUTHORING_MUTATION_HEADER_NAMES = [''x-authoring-mutation-contract'', ''x-authoring-mutation-id'', ''x-authoring-operation-id'',
     ''x-authoring-request-digest'', ''x-authoring-mutation-sequence'', ''x-authoring-semantic-scope'', ''x-authoring-claim-id'',
     ''x-authoring-lease-epoch'', ''x-authoring-lease-expires-at-ms'', ''x-authoring-fence-revision'', ''x-authoring-write-target'',
     ''x-authoring-reserved-at-ms'']"

definition SEMANTIC_HEADERS :: "string list" where
  "SEMANTIC_HEADERS = CONTROL_HEADERS @ AUTHORING_MUTATION_HEADER_NAMES"

definition request_content :: "request \<Rightarrow> json" where
  "request_content r = JObj [
     (''method'', JStr (map upper_char (rq_method r))),
     (''url'', JStr (rq_url r)),
     (''semanticHeaders'', semantic_headers (rq_headers r) SEMANTIC_HEADERS),
     (''bodyDigest'', JStr (sha256Hex (body_text r)))]"

definition digestProviderRequest :: "request \<Rightarrow> string" where
  "digestProviderRequest r = sha256Hex (canonicalJson (request_content r))"

definition pin_json :: "evidence_pin \<Rightarrow> (string \<times> json) list" where
  "pin_json p = [(''sourceRevision'', JStr (ep_sourceRevision p)), (''receiptDigest'', JStr (ep_receiptDigest p)),
     (''storageCompatibilityRevision'', JStr (ep_storageCompatibilityRevision p)), (''providerVersionId'', JStr (ep_providerVersionId p))]"

definition digestBinding :: "evidence_pin \<Rightarrow> string \<Rightarrow> string \<Rightarrow> thrown + string" where
  "digestBinding pin requiredCheckSetDigest requestDigest =
     (if \<not> sha256_pattern requiredCheckSetDigest \<or> \<not> sha256_pattern requestDigest
      then Inl (error_of ''operational_evidence_digest_invalid'')
      else Inr (sha256Hex (canonicalJson (JObj (pin_json pin
        @ [(''requiredCheckSetDigest'', JStr requiredCheckSetDigest), (''requestDigest'', JStr requestDigest)])))))"

definition bindingHeaderEntries :: "evidence_binding \<Rightarrow> (string \<times> string) list" where
  "bindingHeaderEntries b = [
     (''x-commerce-evidence-source-revision'', ep_sourceRevision (bn_pin b)),
     (''x-commerce-evidence-receipt-digest'', ep_receiptDigest (bn_pin b)),
     (''x-commerce-evidence-storage-revision'', ep_storageCompatibilityRevision (bn_pin b)),
     (''x-commerce-evidence-provider-version'', ep_providerVersionId (bn_pin b)),
     (''x-commerce-evidence-required-check-set-digest'', bn_requiredCheckSetDigest b),
     (''x-commerce-provider-request-digest'', bn_requestDigest b),
     (''x-commerce-provider-binding-digest'', bn_bindingDigest b)]"

definition set_entries :: "(string \<times> string) list \<Rightarrow> headers \<Rightarrow> headers" where
  "set_entries entries h = foldl (\<lambda>h (name, v). headers_set name v h) h entries"

definition bindOperationalProviderRequest ::
  "evidence_permit \<Rightarrow> request \<Rightarrow> thrown + (gate_error + request \<times> evidence_binding)" where
  "bindOperationalProviderRequest permit r =
     (case readBoundedOperationRequest r of
        None \<Rightarrow> Inr (Inl Provider_request_unbindable)
      | Some bounded \<Rightarrow>
          let requestDigest = digestProviderRequest bounded
          in (case digestBinding (pt_pin permit) (pt_requiredCheckSetDigest permit) requestDigest of
                Inl e \<Rightarrow> Inl e
              | Inr bindingDigest \<Rightarrow>
                  let binding = \<lparr>bn_pin = pt_pin permit, bn_requiredCheckSetDigest = pt_requiredCheckSetDigest permit,
                        bn_requestDigest = requestDigest, bn_bindingDigest = bindingDigest\<rparr>
                  in Inr (Inr (bounded\<lparr>rq_headers := set_entries (bindingHeaderEntries binding) (rq_headers bounded)\<rparr>, binding))))"

definition binding_authentication :: "string \<Rightarrow> evidence_binding \<Rightarrow> provider_authentication" where
  "binding_authentication contract b = \<lparr>pu_contract = contract, pu_requestDigest = bn_requestDigest b, pu_bindingDigest = bn_bindingDigest b\<rparr>"

definition bindAuthenticatedProviderRequest ::
  "evidence_permit \<Rightarrow> request \<Rightarrow> string \<Rightarrow> string \<Rightarrow> thrown + (gate_error + request \<times> evidence_binding)" where
  "bindAuthenticatedProviderRequest permit r expectedContract secret =
     (case bindOperationalProviderRequest permit r of
        Inr (Inr (bound, binding)) \<Rightarrow>
          (case authenticateCommerceProviderRequest bound (binding_authentication expectedContract binding) secret of
             Some authenticated \<Rightarrow> Inr (Inr (authenticated, binding))
           | None \<Rightarrow> Inr (Inl Provider_authentication_unavailable))
      | operation \<Rightarrow> operation)"

definition prepareProviderOperation ::
  "provider \<Rightarrow> string \<Rightarrow> string \<Rightarrow> string \<Rightarrow> string list \<Rightarrow> string \<Rightarrow> request \<Rightarrow> thrown + (gate_error + request \<times> evidence_binding)" where
  "prepareProviderOperation provider hostname expectedContract pinJson requiredChecks secret r =
     (case verifyOperationalEvidence provider hostname expectedContract pinJson requiredChecks (Some secret) of
        Inl e \<Rightarrow> Inr (Inl e)
      | Inr permit \<Rightarrow> bindAuthenticatedProviderRequest permit r expectedContract secret)"

definition prepareCheckoutProviderOperation ::
  "provider \<Rightarrow> string \<Rightarrow> string \<Rightarrow> request \<Rightarrow> thrown + (gate_error + request \<times> evidence_binding)" where
  "prepareCheckoutProviderOperation provider pinJson secret = prepareProviderOperation provider ''checkout-provider.internal''
     CHECKOUT_PROVIDER_CONTRACT pinJson CHECKOUT_EVIDENCE_CHECKS secret"

definition prepareMarketplaceProviderOperation ::
  "provider \<Rightarrow> string \<Rightarrow> string \<Rightarrow> request \<Rightarrow> thrown + (gate_error + request \<times> evidence_binding)" where
  "prepareMarketplaceProviderOperation provider pinJson secret = prepareProviderOperation provider ''marketplace-provider.internal''
     MARKETPLACE_PROVIDER_CONTRACT pinJson MARKETPLACE_EVIDENCE_CHECKS secret"

subsection \<open>The receiving side\<close>

definition headers_match :: "headers \<Rightarrow> evidence_binding \<Rightarrow> bool" where
  "headers_match h b = list_all (\<lambda>(name, v). headers_get h name = Some v) (bindingHeaderEntries b)"

definition readOperationalEvidenceBinding ::
  "request \<Rightarrow> evidence_pin \<Rightarrow> string list \<Rightarrow> (request \<times> evidence_binding) option" where
  "readOperationalEvidenceBinding r expectedPin requiredChecks =
     (case (normalizeRequiredChecks requiredChecks, readBoundedOperationRequest r) of
        (Some normalizedChecks, Some bounded) \<Rightarrow>
          let requiredCheckSetDigest = checks_digest normalizedChecks; requestDigest = digestProviderRequest bounded
          in (case digestBinding expectedPin requiredCheckSetDigest requestDigest of
                Inl _ \<Rightarrow> None
              | Inr bindingDigest \<Rightarrow>
                  let binding = \<lparr>bn_pin = expectedPin, bn_requiredCheckSetDigest = requiredCheckSetDigest,
                        bn_requestDigest = requestDigest, bn_bindingDigest = bindingDigest\<rparr>
                  in if headers_match (rq_headers bounded) binding then Some (bounded, binding) else None)
      | _ \<Rightarrow> None)"

definition readAuthenticatedOperationalEvidenceBinding ::
  "request \<Rightarrow> string \<Rightarrow> evidence_pin \<Rightarrow> string list \<Rightarrow> string \<Rightarrow> (request \<times> evidence_binding) option" where
  "readAuthenticatedOperationalEvidenceBinding r expectedContract expectedPin requiredChecks secret =
     (case readOperationalEvidenceBinding r expectedPin requiredChecks of
        None \<Rightarrow> None
      | Some (bounded, binding) \<Rightarrow>
          if verifyCommerceProviderRequestAuthentication bounded (binding_authentication expectedContract binding) secret
          then Some (bounded, binding) else None)"

definition operationalEvidenceResponseHeaders :: "evidence_binding \<Rightarrow> headers" where
  "operationalEvidenceResponseHeaders b = bindingHeaderEntries b"

definition responseMatchesOperationalEvidence :: "response \<Rightarrow> evidence_binding \<Rightarrow> bool" where
  "responseMatchesOperationalEvidence r b = headers_match (rs_headers r) b"

section \<open>Facts\<close>

text \<open>The names of the permit headers are those the permit is written to.\<close>

lemma mutation_header_names: "AUTHORING_MUTATION_HEADER_NAMES = map fst (authoringMutationHeaders p)"
  by (simp add: AUTHORING_MUTATION_HEADER_NAMES_def authoringMutationHeaders_def)

definition BINDING_HEADERS :: "string list" where
  "BINDING_HEADERS = [''x-commerce-evidence-source-revision'', ''x-commerce-evidence-receipt-digest'',
     ''x-commerce-evidence-storage-revision'', ''x-commerce-evidence-provider-version'',
     ''x-commerce-evidence-required-check-set-digest'', ''x-commerce-provider-request-digest'', ''x-commerce-provider-binding-digest'']"

lemma binding_names: "map fst (bindingHeaderEntries b) = BINDING_HEADERS"
  by (simp add: bindingHeaderEntries_def BINDING_HEADERS_def)

lemma header_names_apart:
  "distinct BINDING_HEADERS"
  "list_all (\<lambda>k. k \<notin> set BINDING_HEADERS \<and> k \<noteq> AUTH_SCHEMA_HEADER \<and> k \<noteq> AUTH_SIGNATURE_HEADER) (''content-length'' # SEMANTIC_HEADERS)"
  "list_all (\<lambda>k. k \<noteq> AUTH_SCHEMA_HEADER \<and> k \<noteq> AUTH_SIGNATURE_HEADER) BINDING_HEADERS"
  by code_simp+

lemma headers_get_set_entries:
  "distinct (map fst es) \<Longrightarrow> headers_get (set_entries es h) k =
     (case map_of es k of Some v \<Rightarrow> Some (strip_blanks v) | None \<Rightarrow> headers_get h k)"
proof (induction es arbitrary: h)
  case (Cons e es)
  have "set_entries (e # es) h = set_entries es (headers_set (fst e) (snd e) h)" by (simp add: set_entries_def split_beta)
  moreover have "map_of es (fst e) = None" using Cons.prems by (simp add: map_of_eq_None_iff)
  ultimately show ?case using Cons by (cases "k = fst e"; cases e) (simp_all split: option.split)
qed (simp add: set_entries_def)

lemma headers_match_set_entries:
  assumes "list_all (\<lambda>(_, v). strip_blanks v = v) (bindingHeaderEntries b)"
  shows "headers_match (set_entries (bindingHeaderEntries b) h) b"
proof -
  have d: "distinct (map fst (bindingHeaderEntries b))" unfolding binding_names by (rule header_names_apart(1))
  show ?thesis
    unfolding headers_match_def headers_get_set_entries [OF d] using assms d by (auto simp: list_all_iff)
qed

lemma no_blank_patterns:
  "sha1_pattern s \<Longrightarrow> strip_blanks s = s" "path_pattern n s \<Longrightarrow> strip_blanks s = s" "version_id_pattern s \<Longrightarrow> strip_blanks s = s"
proof -
  have chars: "list_all (\<lambda>c. \<not> http_blank c) (hexes @ digits @ lowers @ uppers @ ''._:/-'')" by code_simp
  then have fine: "\<not> http_blank c" if "is_hex c \<or> is_alnum c \<or> c \<in> set ''._:/-''" for c
    using that by (auto simp: list_all_iff is_hex_def is_alnum_def is_digit_def is_lower_def is_upper_def simp del: list.set)
  show "sha1_pattern s \<Longrightarrow> strip_blanks s = s"
    by (rule strip_blanks_id) (use fine in \<open>auto simp: sha1_pattern_def all_chars_def list_all_iff\<close>)
  show "path_pattern n s \<Longrightarrow> strip_blanks s = s"
    by (rule strip_blanks_id) (use fine in \<open>auto simp: path_pattern_def path_tail_def head_tail_def list_all_iff split: list.splits\<close>)
  show "version_id_pattern s \<Longrightarrow> strip_blanks s = s"
    by (rule strip_blanks_id) (use fine in \<open>auto simp: version_id_pattern_def all_chars_def list_all_iff\<close>)
qed

lemma nonzero_identity_chars: "isNonzeroHexIdentity (field v k) n \<Longrightarrow> strip_blanks (text_of v k) = text_of v k"
proof -
  have "list_all (\<lambda>c. \<not> http_blank c) hexes" by code_simp
  then show "isNonzeroHexIdentity (field v k) n \<Longrightarrow> ?thesis"
    by (intro strip_blanks_id) (auto simp: isNonzeroHexIdentity_def list_all_iff is_hex_def text_of_def elim!: is_strE)
qed

lemma pin_values:
  assumes "readUpstreamEvidencePin s = Some p"
  shows "strip_blanks (ep_sourceRevision p) = ep_sourceRevision p" "strip_blanks (ep_receiptDigest p) = ep_receiptDigest p"
    "strip_blanks (ep_storageCompatibilityRevision p) = ep_storageCompatibilityRevision p"
    "strip_blanks (ep_providerVersionId p) = ep_providerVersionId p"
proof -
  obtain v where v: "isNonzeroHexIdentity (field v ''sourceRevision'') 40" "isNonzeroHexIdentity (field v ''receiptDigest'') 64"
    "is_str (field v ''storageCompatibilityRevision'') (path_pattern 127)" "is_str (field v ''providerVersionId'') version_id_pattern"
    "p = \<lparr>ep_sourceRevision = text_of v ''sourceRevision'', ep_receiptDigest = text_of v ''receiptDigest'',
      ep_storageCompatibilityRevision = text_of v ''storageCompatibilityRevision'', ep_providerVersionId = text_of v ''providerVersionId''\<rparr>"
    using assms by (auto simp: readUpstreamEvidencePin_def split: option.splits if_splits)
  show "strip_blanks (ep_sourceRevision p) = ep_sourceRevision p" "strip_blanks (ep_receiptDigest p) = ep_receiptDigest p"
    using nonzero_identity_chars [OF v(1)] nonzero_identity_chars [OF v(2)] v(5) by simp_all
  show "strip_blanks (ep_storageCompatibilityRevision p) = ep_storageCompatibilityRevision p"
    "strip_blanks (ep_providerVersionId p) = ep_providerVersionId p"
    using text_of_is_str [OF v(3)] text_of_is_str [OF v(4)] no_blank_patterns v(5) by auto
qed

lemma checks_digest_pattern [simp]: "sha256_pattern (checks_digest cs)"
  by (simp add: checks_digest_def)

lemma digestProviderRequest_pattern [simp]: "sha256_pattern (digestProviderRequest r)"
  by (simp add: digestProviderRequest_def)

lemma digestBinding_pattern: "digestBinding p c d = Inr b \<Longrightarrow> sha256_pattern b"
  by (auto simp: digestBinding_def split: if_splits)

lemma bounded_request:
  assumes "readBoundedOperationRequest r = Some b"
  shows "rq_method b = rq_method r" "rq_url b = rq_url r" "rq_headers b = rq_headers r" "body_text b = body_text r"
    and "readBoundedOperationRequest b = Some b"
  using assms
  by (auto simp: readBoundedOperationRequest_def readBoundedOperationBody_def body_text_def read_chunks_iff
      split: if_splits option.splits)

lemma bounded_same_headers:
  assumes "readBoundedOperationRequest b = Some b" "headers_get h ''content-length'' = headers_get (rq_headers b) ''content-length''"
  shows "readBoundedOperationRequest (b\<lparr>rq_headers := h\<rparr>) = Some (b\<lparr>rq_headers := h\<rparr>)"
proof -
  have "readBoundedOperationBody (rq_body b) = Some (rq_body b)"
    using assms(1) by (cases b) (auto simp: readBoundedOperationRequest_def split: if_splits)
  moreover have "declared_length_ok MAXIMUM_OPERATION_BODY_BYTES (headers_get (rq_headers b) ''content-length'')"
    using assms(1) by (auto simp: readBoundedOperationRequest_def split: if_splits)
  ultimately show ?thesis using assms(2) by (cases b) (simp add: readBoundedOperationRequest_def)
qed

lemma digest_same_headers:
  assumes "\<And>k. k \<in> set SEMANTIC_HEADERS \<Longrightarrow> headers_get h k = headers_get (rq_headers b) k"
  shows "digestProviderRequest (b\<lparr>rq_headers := h\<rparr>) = digestProviderRequest b"
proof -
  have "semantic_headers h SEMANTIC_HEADERS = semantic_headers (rq_headers b) SEMANTIC_HEADERS"
    using assms by (simp add: semantic_headers_def header_json_def)
  then show ?thesis by (simp add: digestProviderRequest_def request_content_def body_text_def)
qed

section \<open>A bound request at its receiver\<close>

lemma bound_request:
  assumes "bindOperationalProviderRequest permit r = Inr (Inr (r', b))"
  shows "\<exists>bounded. readBoundedOperationRequest r = Some bounded
       \<and> r' = bounded\<lparr>rq_headers := set_entries (bindingHeaderEntries b) (rq_headers bounded)\<rparr>"
    and "bn_pin b = pt_pin permit" "bn_requiredCheckSetDigest b = pt_requiredCheckSetDigest permit"
    and "digestBinding (bn_pin b) (bn_requiredCheckSetDigest b) (bn_requestDigest b) = Inr (bn_bindingDigest b)"
    and "bn_requestDigest b = digestProviderRequest r'"
proof -
  obtain bounded where bounded: "readBoundedOperationRequest r = Some bounded"
    and r': "r' = bounded\<lparr>rq_headers := set_entries (bindingHeaderEntries b) (rq_headers bounded)\<rparr>"
    and b: "bn_pin b = pt_pin permit" "bn_requiredCheckSetDigest b = pt_requiredCheckSetDigest permit"
      "bn_requestDigest b = digestProviderRequest bounded"
      "digestBinding (bn_pin b) (bn_requiredCheckSetDigest b) (bn_requestDigest b) = Inr (bn_bindingDigest b)"
    using assms by (auto simp: bindOperationalProviderRequest_def Let_def split: option.splits sum.splits)
  show "\<exists>bounded. readBoundedOperationRequest r = Some bounded
       \<and> r' = bounded\<lparr>rq_headers := set_entries (bindingHeaderEntries b) (rq_headers bounded)\<rparr>"
    using bounded r' by blast
  show "bn_pin b = pt_pin permit" "bn_requiredCheckSetDigest b = pt_requiredCheckSetDigest permit"
    "digestBinding (bn_pin b) (bn_requiredCheckSetDigest b) (bn_requestDigest b) = Inr (bn_bindingDigest b)"
    using b by blast+
  have "headers_get (set_entries (bindingHeaderEntries b) h) k = headers_get h k" if "k \<in> set SEMANTIC_HEADERS" for h k
  proof -
    have "map_of (bindingHeaderEntries b) k = None"
      unfolding map_of_eq_None_iff using that header_names_apart(2) binding_names [of b]
      by (auto simp: list_all_iff simp flip: set_map)
    moreover have "distinct (map fst (bindingHeaderEntries b))" unfolding binding_names by (rule header_names_apart(1))
    ultimately show ?thesis by (simp add: headers_get_set_entries)
  qed
  then show "bn_requestDigest b = digestProviderRequest r'"
    unfolding r' b(3) by (subst digest_same_headers) auto
qed

lemma authenticated_request_same:
  assumes "authenticateCommerceProviderRequest r a secret = Some r'"
  shows "\<exists>h. r' = r\<lparr>rq_headers := h\<rparr>
       \<and> (\<forall>k. k \<noteq> AUTH_SIGNATURE_HEADER \<longrightarrow> k \<noteq> AUTH_SCHEMA_HEADER \<longrightarrow> headers_get h k = headers_get (rq_headers r) k)"
    and "verifyCommerceProviderRequestAuthentication r' a secret"
  using assms authenticated_headers [OF assms]
  by (auto simp: authenticateCommerceProviderRequest_def verify_iff split: option.splits)

lemma prepared_received:
  assumes bound: "bindAuthenticatedProviderRequest permit r contract secret = Inr (Inr (r', b))"
    and pin: "readUpstreamEvidencePin pinJson = Some (pt_pin permit)"
    and checks: "normalizeRequiredChecks requiredChecks = Some normalized" "pt_requiredCheckSetDigest permit = checks_digest normalized"
  shows "readAuthenticatedOperationalEvidenceBinding r' contract (pt_pin permit) requiredChecks secret = Some (r', b)"
    and "request_content r' = request_content r"
proof -
  obtain r1 where r1: "bindOperationalProviderRequest permit r = Inr (Inr (r1, b))"
    and auth: "authenticateCommerceProviderRequest r1 (binding_authentication contract b) secret = Some r'"
    using bound by (auto simp: bindAuthenticatedProviderRequest_def split: sum.splits option.splits)
  note b = bound_request [OF r1]
  obtain h where h: "r' = r1\<lparr>rq_headers := h\<rparr>"
    and same: "\<And>k. k \<noteq> AUTH_SIGNATURE_HEADER \<Longrightarrow> k \<noteq> AUTH_SCHEMA_HEADER \<Longrightarrow> headers_get h k = headers_get (rq_headers r1) k"
    using authenticated_request_same(1) [OF auth] by blast
  obtain bounded where bounded: "readBoundedOperationRequest r = Some bounded"
    and r1_eq: "r1 = bounded\<lparr>rq_headers := set_entries (bindingHeaderEntries b) (rq_headers bounded)\<rparr>" using b(1) by blast
  have d: "distinct (map fst (bindingHeaderEntries b))" unfolding binding_names by (rule header_names_apart(1))
  have outer: "headers_get h k = headers_get (rq_headers bounded) k" if "k \<in> set (''content-length'' # SEMANTIC_HEADERS)" for k
  proof -
    have apart: "k \<notin> set BINDING_HEADERS" "k \<noteq> AUTH_SCHEMA_HEADER" "k \<noteq> AUTH_SIGNATURE_HEADER"
      using header_names_apart(2) that unfolding list_all_iff by blast+
    then have "map_of (bindingHeaderEntries b) k = None"
      unfolding map_of_eq_None_iff binding_names [of b, symmetric] by simp
    then show ?thesis using same apart by (simp add: r1_eq headers_get_set_entries [OF d])
  qed
  have r'_eq: "r' = bounded\<lparr>rq_headers := h\<rparr>" using h r1_eq by simp
  have again: "readBoundedOperationRequest r' = Some r'"
    unfolding r'_eq by (rule bounded_same_headers [OF bounded_request(5) [OF bounded]]) (simp add: outer)
  have content: "request_content r' = request_content bounded"
    using outer by (simp add: r'_eq request_content_def semantic_headers_def header_json_def body_text_def)
  have content1: "request_content r1 = request_content r'"
    using same header_names_apart(2)
    by (simp add: h request_content_def semantic_headers_def header_json_def body_text_def list_all_iff)
  show "request_content r' = request_content r"
    using content bounded_request(1-4) [OF bounded] by (simp add: request_content_def)
  have digest: "bn_requestDigest b = digestProviderRequest r'"
    using b(5) content1 by (simp add: digestProviderRequest_def)
  have blank_free: "list_all (\<lambda>(_, v). strip_blanks v = v) (bindingHeaderEntries b)"
    using pin_values [OF pin] b(2,3) checks(2) digest digestBinding_pattern [OF b(4)]
    by (simp add: bindingHeaderEntries_def sha256_no_blank)
  have "headers_match (rq_headers r1) b" unfolding r1_eq using headers_match_set_entries [OF blank_free] by simp
  moreover have "headers_get h (fst e) = headers_get (rq_headers r1) (fst e)" if "e \<in> set (bindingHeaderEntries b)" for e
  proof -
    have "fst e \<in> set BINDING_HEADERS" using that unfolding binding_names [of b, symmetric] by simp
    then show ?thesis using same header_names_apart(3) unfolding list_all_iff by blast
  qed
  ultimately have "headers_match h b" by (simp add: headers_match_def list_all_iff split_beta)
  moreover have "digestBinding (pt_pin permit) (checks_digest normalized) (digestProviderRequest r') = Inr (bn_bindingDigest b)"
    using b(2-4) checks(2) digest by simp
  moreover have "b = \<lparr>bn_pin = pt_pin permit, bn_requiredCheckSetDigest = checks_digest normalized,
      bn_requestDigest = digestProviderRequest r', bn_bindingDigest = bn_bindingDigest b\<rparr>"
    using b(2,3) checks(2) digest by simp
  ultimately have "readOperationalEvidenceBinding r' (pt_pin permit) requiredChecks = Some (r', b)"
    using again checks(1) h by (simp add: readOperationalEvidenceBinding_def Let_def)
  then show "readAuthenticatedOperationalEvidenceBinding r' contract (pt_pin permit) requiredChecks secret = Some (r', b)"
    using authenticated_request_same(2) [OF auth] by (simp add: readAuthenticatedOperationalEvidenceBinding_def)
qed

section \<open>Claims\<close>

text \<open>
  C17. What a caller prepares is what the provider accepts: a request that was bound to evidence and signed
  is accepted by a receiver with the same pin, checks, contract and secret, as the same request and the
  same binding, and its method, address, semantic headers and body are those the caller asked for.
\<close>

theorem bound_operation_accepted:
  assumes "bindAuthenticatedProviderRequest permit r contract secret = Inr (Inr (r', b))"
    and "readUpstreamEvidencePin pinJson = Some (pt_pin permit)"
    and "normalizeRequiredChecks requiredChecks = Some normalized" "pt_requiredCheckSetDigest permit = checks_digest normalized"
  shows "readAuthenticatedOperationalEvidenceBinding r' contract (pt_pin permit) requiredChecks secret = Some (r', b)
    \<and> request_content r' = request_content r"
  using prepared_received [OF assms] by blast

definition sample_pin :: evidence_pin where
  "sample_pin = \<lparr>ep_sourceRevision = replicate 40 (CHR ''a''), ep_receiptDigest = replicate 64 (CHR ''b''),
     ep_storageCompatibilityRevision = ''storage/v1'', ep_providerVersionId = ''version-1''\<rparr>"

definition sample_permit :: evidence_permit where
  "sample_permit = \<lparr>pt_pin = sample_pin, pt_requiredCheckSetDigest = checks_digest [''settlement_readback'']\<rparr>"

definition sample_operation :: request where
  "sample_operation = \<lparr>rq_method = ''POST'', rq_url = ''https://checkout-provider.internal/v1/settlements'',
     rq_headers = [(''content-type'', ''application/json''), (''x-operator-id'', ''operator-1'')],
     rq_body = Some \<lparr>bd_chunks = [1, 1], bd_text = ''{}'', bd_valid = True\<rparr>\<rparr>"

lemma sample_gate:
  "readUpstreamEvidencePin (canonicalJson (JObj (pin_json sample_pin))) = Some sample_pin"
  "normalizeRequiredChecks [''settlement_readback''] = Some [''settlement_readback'']"
  "\<exists>r b. bindAuthenticatedProviderRequest sample_permit sample_operation ''commerce.checkout-provider/v1'' sample_secret = Inr (Inr (r, b))"
proof -
  show "normalizeRequiredChecks [''settlement_readback''] = Some [''settlement_readback'']" by code_simp
  show "readUpstreamEvidencePin (canonicalJson (JObj (pin_json sample_pin))) = Some sample_pin" by code_simp
  have "validCommerceProviderSecret sample_secret" "contract_pattern ''commerce.checkout-provider/v1''"
    by code_simp+
  moreover have "readBoundedOperationRequest sample_operation \<noteq> None"
    by (simp add: readBoundedOperationRequest_def readBoundedOperationBody_def declared_length_ok_def sample_operation_def
        headers_get_def MAXIMUM_OPERATION_BODY_BYTES_def read_chunks_iff)
  ultimately show "\<exists>r b. bindAuthenticatedProviderRequest sample_permit sample_operation ''commerce.checkout-provider/v1'' sample_secret = Inr (Inr (r, b))"
    by (auto simp: bindAuthenticatedProviderRequest_def bindOperationalProviderRequest_def digestBinding_def sample_permit_def Let_def
        authenticateCommerceProviderRequest_def commerceProviderSignature_def validAuthentication_def binding_authentication_def)
qed

theorem bound_operation_accepted_witness:
  "\<exists>r b. bindAuthenticatedProviderRequest sample_permit sample_operation ''commerce.checkout-provider/v1'' sample_secret = Inr (Inr (r, b))
     \<and> readAuthenticatedOperationalEvidenceBinding r ''commerce.checkout-provider/v1'' sample_pin [''settlement_readback''] sample_secret = Some (r, b)"
proof -
  obtain r b where rb: "bindAuthenticatedProviderRequest sample_permit sample_operation ''commerce.checkout-provider/v1'' sample_secret = Inr (Inr (r, b))"
    using sample_gate(3) by blast
  have pin: "pt_pin sample_permit = sample_pin" "pt_requiredCheckSetDigest sample_permit = checks_digest [''settlement_readback'']"
    by (simp_all add: sample_permit_def)
  from bound_operation_accepted [OF rb _ sample_gate(2) pin(2)] sample_gate(1) rb pin(1) show ?thesis by auto
qed

end
