(* ===== verification/Mcp_Provider.thy ===== *)
theory Mcp_Provider imports Provider_Gate begin

text \<open>
  \<open>src/src/core/mcp-provider.ts\<close>: calling a tool of a provider over a session of the Model Context Protocol.
  The network is a function from the requests sent so far to the reply of the last one, or to what its
  fetch throws; every operation threads the list of sent requests.
\<close>

section \<open>Requests and replies\<close>

type_synonym network = "request list \<Rightarrow> thrown + response"

definition fetch :: "network \<Rightarrow> request \<Rightarrow> request list \<Rightarrow> (thrown + response) \<times> request list" where
  "fetch net rq sent = (net (sent @ [rq]), sent @ [rq])"

definition MAXIMUM_RESPONSE_BYTES :: nat where "MAXIMUM_RESPONSE_BYTES = 1000000"

definition DOCS_INVOCATION_ENDPOINT :: string where
  "DOCS_INVOCATION_ENDPOINT = ''https://airvio.co/agentic-os/control-plane/mcp''"

definition MCP_PROTOCOL_VERSION :: string where
  "MCP_PROTOCOL_VERSION = ''2025-06-18''"

definition bearer_pattern :: "string \<Rightarrow> bool" where \<comment> \<open>\<open>/^[A-Za-z0-9._~+/-]{32,4094}={0,2}$/u\<close>\<close>
  "bearer_pattern s = (let token = takeWhile (\<lambda>c. c \<noteq> CHR ''='') s; padding = drop (length token) s
     in all_chars (\<lambda>c. is_alnum c \<or> c \<in> set ''._~+/-'') 32 4094 token \<and> length padding \<le> 2 \<and> list_all (\<lambda>c. c = CHR ''='') padding)"

definition readDiscoveryProviderAuthorization :: "string \<Rightarrow> string option" where
  "readDiscoveryProviderAuthorization v = (if bearer_pattern v then Some (''Bearer '' @ v) else None)"

definition requiredAuthorization :: "string \<Rightarrow> thrown + string" where
  "requiredAuthorization bearerToken = (case readDiscoveryProviderAuthorization bearerToken of
     None \<Rightarrow> Inl (error_of ''Discovery provider bearer token configuration is invalid.'') | Some a \<Rightarrow> Inr a)"

definition mcpHeaders :: "string \<Rightarrow> string \<Rightarrow> bool \<Rightarrow> headers" where
  "mcpHeaders authorization sessionId operational =
     [(''accept'', ''application/json, text/event-stream''), (''authorization'', authorization), (''content-type'', ''application/json'')]
     @ (if operational then [(''x-commerce-contract'', DISCOVERY_PROVIDER_CONTRACT)] else [])
     @ (if sessionId \<noteq> [] then [(''mcp-protocol-version'', MCP_PROTOCOL_VERSION), (''mcp-session-id'', sessionId)] else [])"

definition text_body :: "string \<Rightarrow> body" where
  "text_body s = \<lparr>bd_chunks = [length (utf8 s)], bd_text = s, bd_valid = True\<rparr>"

definition mcp_post :: "headers \<Rightarrow> json \<Rightarrow> request" where
  "mcp_post h payload = \<lparr>rq_method = ''POST'', rq_url = DOCS_INVOCATION_ENDPOINT, rq_headers = h,
     rq_body = Some (text_body (json_text payload))\<rparr>"

text \<open>A declared length is a number when it is written in decimal digits.\<close>

definition boundedResponseText :: "response \<Rightarrow> thrown + string" where
  "boundedResponseText r =
     (let bound = error_of ''MCP response exceeded the configured size bound.''
      in if (case headers_get (rs_headers r) ''content-length'' of None \<Rightarrow> False
             | Some s \<Rightarrow> s \<noteq> [] \<and> list_all is_digit s \<and> MAXIMUM_RESPONSE_BYTES < digits_value s) then Inl bound
         else case rs_body r of None \<Rightarrow> Inr ''''
           | Some b \<Rightarrow> (case read_chunks MAXIMUM_RESPONSE_BYTES 0 (bd_chunks b) of None \<Rightarrow> Inl bound | Some _ \<Rightarrow> Inr (bd_text b)))"

section \<open>Reading an envelope\<close>

definition parseRecord :: "string \<Rightarrow> json option" where
  "parseRecord s = (case json_parse s of Some v \<Rightarrow> if isRecord v then Some v else None | None \<Rightarrow> None)"

text \<open>The length of a line break \<open>\r?\n\<close> at the start of a text, 0 when there is none, and of an empty line.\<close>

fun newline_length :: "string \<Rightarrow> nat" where
  "newline_length (c # d # s) = (if c = CHR 0x0A then 1 else if c = CHR 0x0D \<and> d = CHR 0x0A then 2 else 0)"
| "newline_length [c] = (if c = CHR 0x0A then 1 else 0)"
| "newline_length [] = 0"

definition blank_line_length :: "string \<Rightarrow> nat" where
  "blank_line_length s = (let n = newline_length s; m = newline_length (drop n s) in if n = 0 \<or> m = 0 then 0 else n + m)"

function split_text :: "(string \<Rightarrow> nat) \<Rightarrow> string \<Rightarrow> string list" where
  "split_text sep [] = [[]]"
| "split_text sep (c # cs) =
     (if sep (c # cs) = 0 then (case split_text sep cs of [] \<Rightarrow> [[c]] | p # ps \<Rightarrow> (c # p) # ps)
      else [] # split_text sep (drop (sep (c # cs) - 1) cs))"
  by pat_completeness auto
termination
  by (relation "measure (length \<circ> snd)") auto

fun join_lines :: "string list \<Rightarrow> string" where
  "join_lines [] = []"
| "join_lines [s] = s"
| "join_lines (s # ss) = s @ CHR 0x0A # join_lines ss"

definition last_entries :: "nat \<Rightarrow> 'a list \<Rightarrow> 'a list" where \<comment> \<open>\<open>slice(-n)\<close>\<close>
  "last_entries n xs = drop (length xs - n) xs"

definition frame_data :: "string \<Rightarrow> string" where
  "frame_data frame = join_lines (map (\<lambda>line. dropWhile js_space (drop 5 line))
     (filter (starts_with ''data:'') (split_text newline_length frame)))"

text \<open>The last of the frames whose data is a record.\<close>

fun first_record :: "string list \<Rightarrow> json option" where
  "first_record [] = None"
| "first_record (frame # frames) = (case parseRecord (frame_data frame) of Some v \<Rightarrow> Some v | None \<Rightarrow> first_record frames)"

definition parseMcpEnvelope :: "string \<Rightarrow> thrown + json" where
  "parseMcpEnvelope s =
     (case parseRecord s of
        Some v \<Rightarrow> Inr v
      | None \<Rightarrow> (case first_record (rev (last_entries 16 (split_text blank_line_length s))) of
          Some v \<Rightarrow> Inr v | None \<Rightarrow> Inl (error_of ''MCP returned an unreadable JSON-RPC response.'')))"

definition read_envelope :: "response \<Rightarrow> thrown + json" where
  "read_envelope r = (case boundedResponseText r of Inl e \<Rightarrow> Inl e | Inr s \<Rightarrow> parseMcpEnvelope s)"

definition record_field :: "json \<Rightarrow> string \<Rightarrow> json option" where
  "record_field v k = record_of (field v k)"

definition readError :: "json \<Rightarrow> string" where
  "readError e = (case as_str (field e ''message'') of Some s \<Rightarrow> take 512 s | None \<Rightarrow> ''MCP request failed.'')"

text \<open>The payload of a tool result: its structured content, or its first text, which must agree.\<close>

definition text_block :: "json \<Rightarrow> bool" where
  "text_block e = (isRecord e \<and> field e ''type'' = Some (JStr ''text'') \<and> is_str (field e ''text'') (\<lambda>_. True))"

definition text_payload :: "json \<Rightarrow> json option" where
  "text_payload result =
     (case field result ''content'' of
        Some (JArr content) \<Rightarrow>
          (case List.find text_block content of
             None \<Rightarrow> None
           | Some e \<Rightarrow> (case json_parse (text_of e ''text'') of
               None \<Rightarrow> Some (JStr (text_of e ''text''))
             | Some v \<Rightarrow> if v = JNull then None else Some v))
      | _ \<Rightarrow> None)"

definition extractToolPayload :: "json \<Rightarrow> thrown + json" where
  "extractToolPayload result =
     (case (record_field result ''structuredContent'', text_payload result) of
        (Some structured, Some payload) \<Rightarrow>
          if canonicalJson structured \<noteq> canonicalJson payload
          then Inl (error_of ''MCP structured and text payloads disagree.'') else Inr structured
      | (Some structured, None) \<Rightarrow> Inr structured
      | (None, Some payload) \<Rightarrow> Inr payload
      | (None, None) \<Rightarrow> Inl (error_of ''MCP tool payload is missing.''))"

section \<open>Sessions\<close>

definition session_pattern :: "string \<Rightarrow> bool" where \<comment> \<open>\<open>/^[\x21-\x7e]{1,256}$/u\<close>\<close>
  "session_pattern = all_chars is_graph 1 256"

definition initialize_request :: "string \<Rightarrow> request" where
  "initialize_request authorization = mcp_post (mcpHeaders authorization [] False) (JObj [
     (''jsonrpc'', JStr ''2.0''), (''id'', JNum (Integer 1)), (''method'', JStr ''initialize''),
     (''params'', JObj [(''protocolVersion'', JStr MCP_PROTOCOL_VERSION), (''capabilities'', JObj []),
        (''clientInfo'', JObj [(''name'', JStr ''agentic-commerce-os''), (''version'', JStr ''0.1.0'')])])])"

definition initialized_request :: "string \<Rightarrow> string \<Rightarrow> request" where
  "initialized_request authorization sessionId = mcp_post (mcpHeaders authorization sessionId False)
     (JObj [(''jsonrpc'', JStr ''2.0''), (''method'', JStr ''notifications/initialized'')])"

definition close_request :: "string \<Rightarrow> string \<Rightarrow> request" where
  "close_request authorization sessionId = \<lparr>rq_method = ''DELETE'', rq_url = DOCS_INVOCATION_ENDPOINT,
     rq_headers = mcpHeaders authorization sessionId False, rq_body = None\<rparr>"

text \<open>What the reply to \<open>initialize\<close> says: the session, or the error that is thrown.\<close>

definition read_session :: "response \<Rightarrow> thrown + string" where
  "read_session r =
     (case read_envelope r of
        Inl e \<Rightarrow> Inl e
      | Inr rpc \<Rightarrow>
          if \<not> rs_ok r \<or> field rpc ''jsonrpc'' \<noteq> Some (JStr ''2.0'') \<or> field rpc ''id'' \<noteq> Some (JNum (Integer 1))
             \<or> record_field rpc ''error'' \<noteq> None \<or> record_field rpc ''result'' = None
             \<or> opt_field (record_field rpc ''result'') ''protocolVersion'' \<noteq> Some (JStr MCP_PROTOCOL_VERSION)
          then Inl (error_of (case record_field rpc ''error'' of Some e \<Rightarrow> readError e | None \<Rightarrow> ''MCP initialization failed.''))
          else let sessionId = (case headers_get (rs_headers r) ''mcp-session-id'' of Some s \<Rightarrow> s | None \<Rightarrow> '''')
          in if \<not> session_pattern sessionId
             then Inl (error_of ''MCP initialization did not return a valid session identifier.'') else Inr sessionId)"

definition initialize :: "network \<Rightarrow> string \<Rightarrow> request list \<Rightarrow> (thrown + string) \<times> request list" where
  "initialize net authorization sent =
     (case fetch net (initialize_request authorization) sent of
        (Inl e, sent1) \<Rightarrow> (Inl e, sent1)
      | (Inr r, sent1) \<Rightarrow>
          (case read_session r of
             Inl e \<Rightarrow> (Inl e, sent1)
           | Inr sessionId \<Rightarrow>
               (case fetch net (initialized_request authorization sessionId) sent1 of
                  (Inl e, sent2) \<Rightarrow> (Inl e, sent2)
                | (Inr n, sent2) \<Rightarrow>
                    if \<not> rs_ok n then (Inl (error_of ''MCP initialized notification failed.''), sent2)
                    else (Inr sessionId, sent2))))"

definition close :: "network \<Rightarrow> string \<Rightarrow> string \<Rightarrow> request list \<Rightarrow> request list" where
  "close net authorization sessionId sent = snd (fetch net (close_request authorization sessionId) sent)"

definition rpc_reply :: "json \<Rightarrow> response \<Rightarrow> thrown + json" where
  "rpc_reply payload r =
     (case read_envelope r of
        Inl e \<Rightarrow> Inl e
      | Inr rpc \<Rightarrow>
          if \<not> rs_ok r then Inl (error_of (''MCP request failed with HTTP '' @ nat_text (rs_status r) @ ''.''))
          else if field rpc ''jsonrpc'' \<noteq> Some (JStr ''2.0'') \<or> field rpc ''id'' \<noteq> field payload ''id''
          then Inl (error_of ''MCP response identity did not match the request.'')
          else Inr rpc)"

text \<open>The request that is dispatched, and the binding its response must repeat.\<close>

definition rpc_request ::
  "string \<Rightarrow> string \<Rightarrow> json \<Rightarrow> evidence_permit option \<Rightarrow> thrown + request \<times> evidence_binding option" where
  "rpc_request authorization sessionId payload permit =
     (let r = mcp_post (mcpHeaders authorization sessionId (permit \<noteq> None)) payload
      in case permit of
           None \<Rightarrow> Inr (r, None)
         | Some p \<Rightarrow>
             (case bindOperationalProviderRequest p r of
                Inl e \<Rightarrow> Inl e
              | Inr (Inl _) \<Rightarrow> Inl (error_of ''MCP operational evidence request binding failed.'')
              | Inr (Inr (bound, binding)) \<Rightarrow> Inr (bound, Some binding)))"

definition postRpc ::
  "network \<Rightarrow> string \<Rightarrow> string \<Rightarrow> json \<Rightarrow> evidence_permit option \<Rightarrow> request list \<Rightarrow> (thrown + json) \<times> request list" where
  "postRpc net authorization sessionId payload permit sent =
     (case rpc_request authorization sessionId payload permit of
        Inl e \<Rightarrow> (Inl e, sent)
      | Inr (dispatched, binding) \<Rightarrow>
          (case fetch net dispatched sent of
             (Inl e, sent1) \<Rightarrow> (Inl e, sent1)
           | (Inr r, sent1) \<Rightarrow>
               if (case binding of Some b \<Rightarrow> \<not> responseMatchesOperationalEvidence r b | None \<Rightarrow> False)
               then (Inl (error_of ''MCP operational evidence response binding mismatch.''), sent1)
               else (rpc_reply payload r, sent1)))"

section \<open>Calls\<close>

definition tool_call_json :: "string \<Rightarrow> json \<Rightarrow> json" where
  "tool_call_json name arguments = JObj [(''jsonrpc'', JStr ''2.0''), (''id'', JNum (Integer 2)), (''method'', JStr ''tools/call''),
     (''params'', JObj [(''name'', JStr name), (''arguments'', arguments)])]"

definition tool_result :: "json \<Rightarrow> thrown + json" where
  "tool_result rpc =
     (case record_field rpc ''error'' of
        Some e \<Rightarrow> Inl (error_of (readError e))
      | None \<Rightarrow>
          (case record_field rpc ''result'' of
             None \<Rightarrow> Inl (error_of ''MCP tool returned an error result.'')
           | Some result \<Rightarrow> if field result ''isError'' = Some (JBool True)
               then Inl (error_of ''MCP tool returned an error result.'') else extractToolPayload result))"

definition callMcpTool ::
  "network \<Rightarrow> string \<Rightarrow> string \<Rightarrow> json \<Rightarrow> evidence_permit option \<Rightarrow> request list \<Rightarrow> (thrown + json) \<times> request list" where
  "callMcpTool net bearerToken name arguments permit sent =
     (case requiredAuthorization bearerToken of
        Inl e \<Rightarrow> (Inl e, sent)
      | Inr authorization \<Rightarrow>
          (case initialize net authorization sent of
             (Inl e, sent1) \<Rightarrow> (Inl e, sent1)
           | (Inr sessionId, sent1) \<Rightarrow>
               (case postRpc net authorization sessionId (tool_call_json name arguments) permit sent1 of
                  (reply, sent2) \<Rightarrow>
                    (case reply of Inl e \<Rightarrow> Inl e | Inr rpc \<Rightarrow> tool_result rpc, close net authorization sessionId sent2))))"

definition tool_name_pattern :: "string \<Rightarrow> bool" where \<comment> \<open>\<open>/^[A-Za-z][A-Za-z0-9._:-]{0,127}$/u\<close>\<close>
  "tool_name_pattern = head_tail (\<lambda>c. is_lower c \<or> is_upper c) id_tail 127"

definition listed_name :: "json \<Rightarrow> string" where
  "listed_name e = (if isRecord e then text_of e ''name'' else '''')"

definition tool_names :: "json \<Rightarrow> thrown + string list" where
  "tool_names rpc =
     (case record_field rpc ''error'' of
        Some e \<Rightarrow> Inl (error_of (readError e))
      | None \<Rightarrow>
          (case opt_field (record_field rpc ''result'') ''tools'' of
             Some (JArr tools) \<Rightarrow>
               let names = map listed_name tools
               in if \<not> list_all tool_name_pattern names then Inl (error_of ''MCP tools/list returned an invalid tool name.'')
                  else Inr (sort_text (set_list [] names))
           | _ \<Rightarrow> Inl (error_of ''MCP tools/list result is malformed.'')))"

definition listMcpToolNames :: "network \<Rightarrow> string \<Rightarrow> request list \<Rightarrow> (thrown + string list) \<times> request list" where
  "listMcpToolNames net bearerToken sent =
     (case requiredAuthorization bearerToken of
        Inl e \<Rightarrow> (Inl e, sent)
      | Inr authorization \<Rightarrow>
          (case initialize net authorization sent of
             (Inl e, sent1) \<Rightarrow> (Inl e, sent1)
           | (Inr sessionId, sent1) \<Rightarrow>
               (case postRpc net authorization sessionId (JObj [(''jsonrpc'', JStr ''2.0''), (''id'', JNum (Integer 2)),
                    (''method'', JStr ''tools/list''), (''params'', JObj [])]) None sent1 of
                  (reply, sent2) \<Rightarrow>
                    (case reply of Inl e \<Rightarrow> Inl e | Inr rpc \<Rightarrow> tool_names rpc, close net authorization sessionId sent2))))"

section \<open>What is sent\<close>

text \<open>The requests of a session, from its opening to its end.\<close>

definition session_log :: "string \<Rightarrow> string \<Rightarrow> request list \<Rightarrow> request list" where
  "session_log a s calls = initialize_request a # initialized_request a s # calls @ [close_request a s]"

lemma initialize_log:
  assumes "initialize net a sent = (res, sent')"
  shows "(\<exists>s. res = Inr s \<and> session_pattern s \<and> sent' = sent @ [initialize_request a, initialized_request a s])
    \<or> (\<exists>e. res = Inl e \<and> (sent' = sent @ [initialize_request a]
          \<or> (\<exists>s. session_pattern s \<and> sent' = sent @ [initialize_request a, initialized_request a s])))"
proof -
  have pattern': "session_pattern s" if "read_session r = Inr s" for r s
    using that by (auto simp: read_session_def Let_def split: sum.splits if_splits)
  show ?thesis
  proof (cases "net (sent @ [initialize_request a])")
    case (Inr r)
    show ?thesis
    proof (cases "read_session r")
      case (Inl e)
      then have "initialize net a sent = (Inl e, sent @ [initialize_request a])"
        by (simp add: initialize_def fetch_def \<open>net _ = Inr r\<close>)
      then show ?thesis using assms by simp
    next
      case (Inr s)
      have "initialize net a sent = (case net (sent @ [initialize_request a, initialized_request a s]) of
          Inl e \<Rightarrow> (Inl e, sent @ [initialize_request a, initialized_request a s])
        | Inr n \<Rightarrow> (if \<not> rs_ok n then Inl (error_of ''MCP initialized notification failed.'') else Inr s,
            sent @ [initialize_request a, initialized_request a s]))"
        by (simp add: initialize_def fetch_def \<open>net _ = Inr r\<close> Inr split: sum.split)
      then show ?thesis using assms pattern' [OF Inr] by (auto split: sum.splits if_splits)
    qed
  qed (use assms in \<open>auto simp: initialize_def fetch_def\<close>)
qed

lemma postRpc_log:
  assumes "postRpc net a s payload permit sent = (res, sent')"
  shows "(sent' = sent \<and> (\<exists>e. res = Inl e)) \<or> (\<exists>call b. rpc_request a s payload permit = Inr (call, b) \<and> sent' = sent @ [call]
    \<and> (\<forall>rpc. res = Inr rpc \<longrightarrow> (\<exists>rs. net (sent @ [call]) = Inr rs \<and> rpc_reply payload rs = Inr rpc
         \<and> pred_option (responseMatchesOperationalEvidence rs) b)))"
  using assms by (auto simp: postRpc_def fetch_def split: sum.splits if_splits option.splits)

text \<open>
  C21. A tool is called at most once, in a session that is closed again if its handshake succeeded: a call sends
  at most four requests; when the handshake (the opening request and its notification) succeeded, the last request
  closes the session, whatever failed in between; when it failed, nothing follows it, and a session that the provider
  issued before the notification failed is left open; and a payload is returned only when the tool request was
  sent, its response repeats the evidence binding of that request, carries its id, and has that payload as its result.
\<close>

theorem mcp_session_protocol:
  assumes "callMcpTool net bearerToken name arguments permit sent = (res, sent')"
  shows "\<exists>log. sent' = sent @ log \<and> length log \<le> 4
    \<and> (case requiredAuthorization bearerToken of
         Inl e \<Rightarrow> log = [] \<and> res = Inl e
       | Inr a \<Rightarrow>
           (case fst (initialize net a sent) of
              Inl e \<Rightarrow> res = Inl e \<and> (log = [initialize_request a]
                \<or> (\<exists>s. session_pattern s \<and> log = [initialize_request a, initialized_request a s]))
            | Inr s \<Rightarrow> session_pattern s \<and> last log = close_request a s
                \<and> (log = session_log a s [] \<and> (\<exists>e. res = Inl e)
                   \<or> (\<exists>call b. rpc_request a s (tool_call_json name arguments) permit = Inr (call, b) \<and> log = session_log a s [call]
                       \<and> (\<forall>payload. res = Inr payload \<longrightarrow>
                            (\<exists>rs rpc. net (sent @ [initialize_request a, initialized_request a s, call]) = Inr rs
                               \<and> pred_option (responseMatchesOperationalEvidence rs) b
                               \<and> rpc_reply (tool_call_json name arguments) rs = Inr rpc \<and> tool_result rpc = Inr payload))))))"
proof (cases "requiredAuthorization bearerToken")
  case (Inl e)
  then show ?thesis using assms by (auto simp: callMcpTool_def)
next
  case (Inr a)
  obtain opened sent1 where i: "initialize net a sent = (opened, sent1)" by fastforce
  then have fst: "fst (initialize net a sent) = opened" by simp
  show ?thesis
  proof (cases opened)
    case failed: (Inl e)
    then have "res = Inl e" "sent' = sent1" using assms Inr i by (auto simp: callMcpTool_def)
    then show ?thesis using initialize_log [OF i] failed Inr fst by auto
  next
    case opened: (Inr s)
    then have s: "session_pattern s" "sent1 = sent @ [initialize_request a, initialized_request a s]" using initialize_log [OF i] by auto
    obtain reply sent2 where p: "postRpc net a s (tool_call_json name arguments) permit sent1 = (reply, sent2)" by fastforce
    have res: "res = (case reply of Inl e \<Rightarrow> Inl e | Inr rpc \<Rightarrow> tool_result rpc)" "sent' = sent2 @ [close_request a s]"
      using assms Inr i opened p by (auto simp: callMcpTool_def close_def fetch_def)
    from postRpc_log [OF p] show ?thesis
    proof (elim disjE exE conjE)
      fix e assume "sent2 = sent1" "reply = Inl e"
      then show ?thesis using res s Inr fst opened by (intro exI [of _ "session_log a s []"]) (simp add: session_log_def)
    next
      fix call b assume c: "rpc_request a s (tool_call_json name arguments) permit = Inr (call, b)" "sent2 = sent1 @ [call]"
        and got: "\<forall>rpc. reply = Inr rpc \<longrightarrow> (\<exists>rs. net (sent1 @ [call]) = Inr rs \<and> rpc_reply (tool_call_json name arguments) rs = Inr rpc
           \<and> pred_option (responseMatchesOperationalEvidence rs) b)"
      show ?thesis
        using res s Inr c got fst opened
        by (intro exI [of _ "session_log a s [call]"]) (cases reply; auto simp: session_log_def)
    qed
  qed
qed

text \<open>A session whose notification fails is left open: no request follows.\<close>

lemma failed_notification_leaves_session:
  assumes "requiredAuthorization bearerToken = Inr a" "net (sent @ [initialize_request a]) = Inr r" "read_session r = Inr s"
    and "net (sent @ [initialize_request a, initialized_request a s]) = Inl e"
  shows "callMcpTool net bearerToken name arguments permit sent = (Inl e, sent @ [initialize_request a, initialized_request a s])"
  using assms by (simp add: callMcpTool_def initialize_def fetch_def)

text \<open>A provider that answers: it opens a session, and its tool reports a success in an event stream.\<close>

definition sample_token :: string where "sample_token = ''0123456789abcdef0123456789abcdef''"

definition answer :: "string \<Rightarrow> response" where
  "answer s = \<lparr>rs_status = 200, rs_headers = [(''mcp-session-id'', ''session-1'')],
     rs_body = Some \<lparr>bd_chunks = [length s], bd_text = s, bd_valid = True\<rparr>\<rparr>"

definition opening_text :: string where
  "opening_text = ''{\"jsonrpc\":\"2.0\",\"id\":1,\"result\":{\"protocolVersion\":\"2025-06-18\"}}''"

definition tool_text :: string where
  "tool_text = ''data: {\"jsonrpc\":\"2.0\",\"id\":2,\"result\":{\"structuredContent\":{\"ok\":true}}}''
     @ [CHR 0x0A, CHR 0x0A] @ ''data: end''"

definition sample_network :: network where
  "sample_network sent = Inr (answer (if length sent = 1 then opening_text else if length sent = 3 then tool_text else []))"

lemma sample_token_ok: "requiredAuthorization sample_token = Inr (''Bearer '' @ sample_token)"
  by code_simp

lemma answer_text: "length s \<le> MAXIMUM_RESPONSE_BYTES \<Longrightarrow> boundedResponseText (answer s) = Inr s"
  by (simp add: boundedResponseText_def answer_def headers_get_def read_chunks_iff)

lemma opening_parsed: "parseMcpEnvelope opening_text
    = Inr (JObj [(''jsonrpc'', JStr ''2.0''), (''id'', JNum (Integer 1)), (''result'', JObj [(''protocolVersion'', JStr MCP_PROTOCOL_VERSION)])])"
  by code_simp

lemma tool_parsed: "parseMcpEnvelope tool_text
    = Inr (JObj [(''jsonrpc'', JStr ''2.0''), (''id'', JNum (Integer 2)), (''result'', JObj [(''structuredContent'', JObj [(''ok'', JBool True)])])])"
  by code_simp

lemma sample_texts: "length opening_text \<le> MAXIMUM_RESPONSE_BYTES" "length tool_text \<le> MAXIMUM_RESPONSE_BYTES"
  by (simp_all add: opening_text_def tool_text_def MAXIMUM_RESPONSE_BYTES_def)

lemma opening_read: "read_session (answer opening_text) = Inr ''session-1''"
proof -
  have "rs_ok (answer opening_text)" "headers_get (rs_headers (answer opening_text)) ''mcp-session-id'' = Some ''session-1''"
    by (simp_all add: rs_ok_def answer_def headers_get_def)
  moreover have "session_pattern ''session-1''" by code_simp
  ultimately show ?thesis
    by (simp add: read_session_def read_envelope_def answer_text sample_texts opening_parsed record_field_def record_of_def opt_field_def)
qed

lemma tool_read:
  "(case rpc_reply (tool_call_json ''find'' (JObj [])) (answer tool_text) of Inl e \<Rightarrow> Inl e | Inr rpc \<Rightarrow> tool_result rpc)
     = Inr (JObj [(''ok'', JBool True)])"
  by (simp add: rpc_reply_def read_envelope_def answer_text sample_texts tool_parsed tool_call_json_def tool_result_def record_field_def
      record_of_def extractToolPayload_def text_payload_def rs_ok_def) (simp add: answer_def)

lemma empty_ok: "rs_ok (answer [])"
  by (simp add: rs_ok_def answer_def)

lemmas sample_network_replies = sample_token_ok opening_read tool_read empty_ok

lemma sample_call:
  "\<exists>sent. callMcpTool sample_network sample_token ''find'' (JObj []) None [] = (Inr (JObj [(''ok'', JBool True)]), sent)"
  using sample_network_replies
  by (simp add: callMcpTool_def initialize_def postRpc_def rpc_request_def fetch_def sample_network_def Let_def)

theorem mcp_session_protocol_witness:
  "\<exists>sent. callMcpTool sample_network sample_token ''find'' (JObj []) None [] = (Inr (JObj [(''ok'', JBool True)]), sent) \<and> length sent \<le> 4"
proof -
  obtain sent where call: "callMcpTool sample_network sample_token ''find'' (JObj []) None [] = (Inr (JObj [(''ok'', JBool True)]), sent)"
    using sample_call by blast
  from mcp_session_protocol [OF call] call show ?thesis by auto
qed

end
