(* ===== verification/Discovery_Receipt.thy ===== *)
theory Discovery_Receipt imports Js_Canonical Js_Http begin

text \<open>
  \<open>src/src/core/discovery-receipt.ts\<close>: the offers an agent found for an intent. A receipt is accepted only
  when each offer is bound by its digest to the intent and to the agent that was asked.
\<close>

definition DISCOVERY_RECEIPT_CONTRACT :: string where
  "DISCOVERY_RECEIPT_CONTRACT = ''commerce.discovery-receipt/v1''"

definition DISCOVERY_OFFER_SCHEMA :: string where
  "DISCOVERY_OFFER_SCHEMA = ''commerce.discovery-offer/v1''"

record discovery_offer =
  df_intentId :: string
  df_intentDigest :: string
  df_agentId :: string
  df_offerId :: string
  df_amountMinor :: int
  df_currency :: string
  df_providerRevision :: string
  df_receiptDigest :: string

definition offer_content :: "discovery_offer \<Rightarrow> (string \<times> json) list" where
  "offer_content r = [
     (''schema'', JStr DISCOVERY_OFFER_SCHEMA),
     (''intentId'', JStr (df_intentId r)),
     (''intentDigest'', JStr (df_intentDigest r)),
     (''agentId'', JStr (df_agentId r)),
     (''offerId'', JStr (df_offerId r)),
     (''amountMinor'', JNum (Integer (df_amountMinor r))),
     (''currency'', JStr (df_currency r)),
     (''providerRevision'', JStr (df_providerRevision r))]"

definition offer_json :: "discovery_offer \<Rightarrow> json" where
  "offer_json r = JObj (offer_content r @ [(''receiptDigest'', JStr (df_receiptDigest r))])"

definition digestDiscoveryOffer :: "discovery_offer \<Rightarrow> string" where
  "digestDiscoveryOffer r = sha256Hex (canonicalJson (JObj (offer_content r)))"

definition OFFER_KEYS :: string where
  "OFFER_KEYS = ''agentId,amountMinor,currency,intentDigest,intentId,offerId,providerRevision,receiptDigest,schema''"

definition offer_shape :: "string \<Rightarrow> string \<Rightarrow> string \<Rightarrow> json \<Rightarrow> bool" where
  "offer_shape intentId intentDigest agentId v =
     (isRecord v \<and> keys_text v = OFFER_KEYS
      \<and> field v ''schema'' = Some (JStr DISCOVERY_OFFER_SCHEMA)
      \<and> field v ''intentId'' = Some (JStr intentId)
      \<and> field v ''intentDigest'' = Some (JStr intentDigest)
      \<and> field v ''agentId'' = Some (JStr agentId)
      \<and> is_str (field v ''offerId'') (id_pattern 127)
      \<and> is_num (field v ''amountMinor'') (safe_ge 1)
      \<and> is_str (field v ''currency'') currency_pattern
      \<and> is_str (field v ''providerRevision'') sha1_pattern
      \<and> is_str (field v ''receiptDigest'') sha256_pattern)"

definition offer_of :: "json \<Rightarrow> discovery_offer" where
  "offer_of v = \<lparr>df_intentId = text_of v ''intentId'', df_intentDigest = text_of v ''intentDigest'',
     df_agentId = text_of v ''agentId'', df_offerId = text_of v ''offerId'', df_amountMinor = int_of v ''amountMinor'',
     df_currency = text_of v ''currency'', df_providerRevision = text_of v ''providerRevision'',
     df_receiptDigest = text_of v ''receiptDigest''\<rparr>"

definition offer_key :: "discovery_offer \<Rightarrow> string" where
  "offer_key r = df_providerRevision r @ '':'' @ df_offerId r"

text \<open>
  The offers are read concurrently: a malformed one rejects at once, a wrong digest only after it was
  computed, so a malformed offer is reported first wherever it stands.
\<close>

definition normalizeDiscoveryReceipt :: "json \<Rightarrow> string \<Rightarrow> string \<Rightarrow> string \<Rightarrow> thrown + discovery_offer list" where
  "normalizeDiscoveryReceipt v intentId intentDigest agentId =
     (case field v ''offers'' of
        Some (JArr candidates) \<Rightarrow>
          if \<not> isRecord v \<or> keys_text v \<noteq> ''contract,offers,ok''
             \<or> field v ''contract'' \<noteq> Some (JStr DISCOVERY_RECEIPT_CONTRACT) \<or> field v ''ok'' \<noteq> Some (JBool True)
             \<or> length candidates < 1 \<or> 100 < length candidates
          then Inl (error_of ''discovery_receipt_invalid'')
          else if \<not> list_all (offer_shape intentId intentDigest agentId) candidates
          then Inl (error_of ''discovery_offer_invalid'')
          else let offers = map offer_of candidates
          in if \<not> list_all (\<lambda>r. df_receiptDigest r = digestDiscoveryOffer r) offers
             then Inl (error_of ''discovery_offer_digest_mismatch'')
             else if \<not> distinct (map offer_key offers) then Inl (error_of ''discovery_offer_duplicate'')
             else Inr offers
      | _ \<Rightarrow> Inl (error_of ''discovery_receipt_invalid''))"

definition receipt_json :: "discovery_offer list \<Rightarrow> json" where
  "receipt_json offers = JObj [(''contract'', JStr DISCOVERY_RECEIPT_CONTRACT), (''ok'', JBool True),
     (''offers'', JArr (map offer_json offers))]"

section \<open>Accepted receipts\<close>

definition offer_ok :: "discovery_offer \<Rightarrow> bool" where
  "offer_ok r = (id_pattern 127 (df_offerId r) \<and> 1 \<le> df_amountMinor r \<and> df_amountMinor r \<le> max_safe
     \<and> currency_pattern (df_currency r) \<and> sha1_pattern (df_providerRevision r)
     \<and> df_receiptDigest r = digestDiscoveryOffer r)"

lemma storable_offer [simp]: "storable (offer_json r)"
  by (simp add: offer_json_def offer_content_def storable_JObj)

lemma storable_receipt [simp]: "storable (receipt_json offers)"
  by (simp add: receipt_json_def storable_JObj storable_JArr)

lemma canonical_record: "isRecord (offer_json r)" "isRecord (receipt_json offers)"
  by (simp_all add: offer_json_def receipt_json_def)

lemma receipt_keys_text:
  "keys_text (canonicalValue (receipt_json offers)) = ''contract,offers,ok''"
proof -
  let ?ks = "[''contract'', ''offers'', ''ok'']"
  have "successively (\<lambda>l r. compareText l r \<le> 0) ?ks \<and> distinct ?ks" by code_simp
  moreover have "set (keys_of (receipt_json offers)) = set ?ks" by (auto simp: receipt_json_def)
  ultimately have "keys_text (canonicalValue (receipt_json offers)) = join_comma ?ks"
    by (intro keys_text_unique) (simp_all add: distinct_keys_canonicalValue)
  then show ?thesis by simp
qed

lemma offer_keys_text: "keys_text (canonicalValue (offer_json r)) = OFFER_KEYS"
proof -
  let ?ks = "[''agentId'', ''amountMinor'', ''currency'', ''intentDigest'', ''intentId'', ''offerId'', ''providerRevision'',
    ''receiptDigest'', ''schema'']"
  have "successively (\<lambda>l r. compareText l r \<le> 0) ?ks \<and> distinct ?ks" by code_simp
  moreover have "set (keys_of (offer_json r)) = set ?ks" by (auto simp: offer_json_def offer_content_def)
  ultimately have "keys_text (canonicalValue (offer_json r)) = join_comma ?ks"
    by (intro keys_text_unique) (simp_all add: distinct_keys_canonicalValue)
  then show ?thesis by (simp add: OFFER_KEYS_def)
qed

lemma offer_canonical:
  assumes "offer_ok r"
  shows "offer_shape (df_intentId r) (df_intentDigest r) (df_agentId r) (canonicalValue (offer_json r))"
    and "offer_of (canonicalValue (offer_json r)) = r"
proof -
  have sha: "sha256_pattern (df_receiptDigest r)" using assms by (simp add: offer_ok_def digestDiscoveryOffer_def)
  note fields = field_canonicalValue [OF storable_offer]
  show "offer_shape (df_intentId r) (df_intentDigest r) (df_agentId r) (canonicalValue (offer_json r))"
    using assms sha canonical_record(1)
    by (simp add: offer_shape_def offer_keys_text fields offer_ok_def) (simp add: offer_json_def offer_content_def)
  show "offer_of (canonicalValue (offer_json r)) = r"
    by (simp add: offer_of_def text_of_def int_of_def fields) (simp add: offer_json_def offer_content_def)
qed

lemma offer_shape_ok:
  assumes "offer_shape intentId intentDigest agentId v" "df_receiptDigest (offer_of v) = digestDiscoveryOffer (offer_of v)"
  shows "offer_ok (offer_of v)" "df_intentId (offer_of v) = intentId" "df_intentDigest (offer_of v) = intentDigest"
    "df_agentId (offer_of v) = agentId"
proof -
  note shape = assms(1) [unfolded offer_shape_def]
  have "is_str (field v ''offerId'') (id_pattern 127)" "is_num (field v ''amountMinor'') (safe_ge 1)"
    "is_str (field v ''currency'') currency_pattern" "is_str (field v ''providerRevision'') sha1_pattern"
    using shape by blast+
  then have "id_pattern 127 (text_of v ''offerId'')" "1 \<le> int_of v ''amountMinor''" "\<bar>int_of v ''amountMinor''\<bar> \<le> max_safe"
    "currency_pattern (text_of v ''currency'')" "sha1_pattern (text_of v ''providerRevision'')"
    using text_of_is_str int_of_is_num by blast+
  then show "offer_ok (offer_of v)" using assms(2) unfolding offer_ok_def by (simp add: offer_of_def)
  show "df_intentId (offer_of v) = intentId" "df_intentDigest (offer_of v) = intentDigest" "df_agentId (offer_of v) = agentId"
    using shape by (simp_all add: offer_of_def text_of_def)
qed

lemma normalize_accepted:
  assumes "normalizeDiscoveryReceipt v intentId intentDigest agentId = Inr offers"
  shows "\<forall>r \<in> set offers. offer_ok r \<and> df_intentId r = intentId \<and> df_intentDigest r = intentDigest \<and> df_agentId r = agentId"
    and "1 \<le> length offers" "length offers \<le> 100" "distinct (map offer_key offers)"
proof -
  obtain candidates where c: "list_all (offer_shape intentId intentDigest agentId) candidates" "offers = map offer_of candidates"
    "list_all (\<lambda>r. df_receiptDigest r = digestDiscoveryOffer r) offers" "1 \<le> length candidates" "length candidates \<le> 100"
    "distinct (map offer_key offers)"
    using assms
    by (auto simp: normalizeDiscoveryReceipt_def Let_def not_less Suc_le_eq split: option.splits json.splits if_splits)
  then show "\<forall>r \<in> set offers. offer_ok r \<and> df_intentId r = intentId \<and> df_intentDigest r = intentDigest \<and> df_agentId r = agentId"
    using offer_shape_ok by (auto simp: list_all_iff)
  show "1 \<le> length offers" "length offers \<le> 100" "distinct (map offer_key offers)" using c by simp_all
qed

text \<open>The stored form of sound offers is accepted as those offers.\<close>

lemma normalize_stored:
  assumes ok: "\<forall>r \<in> set offers. offer_ok r \<and> df_intentId r = intentId \<and> df_intentDigest r = intentDigest \<and> df_agentId r = agentId"
    and "1 \<le> length offers" "length offers \<le> 100" "distinct (map offer_key offers)"
  shows "normalizeDiscoveryReceipt (canonicalValue (receipt_json offers)) intentId intentDigest agentId = Inr offers"
proof -
  let ?cs = "map (\<lambda>r. canonicalValue (offer_json r)) offers"
  have shapes: "list_all (offer_shape intentId intentDigest agentId) ?cs"
    unfolding list_all_iff using offer_canonical(1) ok by auto
  have offers: "map offer_of ?cs = offers"
    unfolding map_map comp_def by (rule map_idI) (use offer_canonical(2) ok in blast)
  have digests: "list_all (\<lambda>r. df_receiptDigest r = digestDiscoveryOffer r) offers" using ok by (simp add: list_all_iff offer_ok_def)
  have fields: "field (canonicalValue (receipt_json offers)) ''offers'' = Some (JArr ?cs)"
    "field (canonicalValue (receipt_json offers)) ''contract'' = Some (JStr DISCOVERY_RECEIPT_CONTRACT)"
    "field (canonicalValue (receipt_json offers)) ''ok'' = Some (JBool True)"
    unfolding field_canonicalValue [OF storable_receipt] by (simp_all add: receipt_json_def comp_def)
  have "length ?cs = length offers" by simp
  then show ?thesis
    unfolding normalizeDiscoveryReceipt_def fields option.case json.case Let_def offers
    using assms(2-4) shapes digests canonical_record(2) receipt_keys_text by (cases offers) simp_all
qed

text \<open>
  A discovery receipt survives storage: the offers that were accepted for an intent and an agent are
  bound to both, carry their digests, have amounts between 1 and the greatest safe integer and
  distinct keys, there are at most 100, and their stored canonical JSON is accepted again as the same offers.
\<close>

theorem discovery_receipt_roundtrip:
  assumes "normalizeDiscoveryReceipt v intentId intentDigest agentId = Inr offers"
  shows "list_all (\<lambda>r. df_intentId r = intentId \<and> df_intentDigest r = intentDigest \<and> df_agentId r = agentId \<and> offer_ok r) offers
    \<and> length offers \<le> 100 \<and> distinct (map (\<lambda>r. (df_providerRevision r, df_offerId r)) offers)
    \<and> (\<exists>w. json_parse (canonicalJson (receipt_json offers)) = Some w
         \<and> normalizeDiscoveryReceipt w intentId intentDigest agentId = Inr offers)"
proof -
  note facts = normalize_accepted [OF assms]
  have "normalizeDiscoveryReceipt (canonicalValue (receipt_json offers)) intentId intentDigest agentId = Inr offers"
    by (rule normalize_stored) (fact facts)+
  moreover have "json_parse (canonicalJson (receipt_json offers)) = Some (canonicalValue (receipt_json offers))"
    by (simp add: json_parse_canonicalJson)
  moreover have "distinct (map (\<lambda>r. (df_providerRevision r, df_offerId r)) offers)"
    using facts(4) by (auto simp: distinct_map inj_on_def offer_key_def)
  ultimately show ?thesis using facts by (auto simp: list_all_iff)
qed

definition sample_offer :: "string \<Rightarrow> string \<Rightarrow> string \<Rightarrow> discovery_offer" where
  "sample_offer intentId intentDigest agentId = (let r = \<lparr>df_intentId = intentId, df_intentDigest = intentDigest, df_agentId = agentId,
     df_offerId = ''offer-1'', df_amountMinor = 1999, df_currency = ''EUR'', df_providerRevision = replicate 40 (CHR ''a''),
     df_receiptDigest = []\<rparr> in r\<lparr>df_receiptDigest := digestDiscoveryOffer r\<rparr>)"

lemma sample_offer_ok: "offer_ok (sample_offer i d a)"
proof -
  have "id_pattern 127 ''offer-1''" "currency_pattern ''EUR''" "sha1_pattern (replicate 40 (CHR ''a''))" by code_simp+
  then show ?thesis
    by (simp add: sample_offer_def offer_ok_def Let_def digestDiscoveryOffer_def offer_content_def max_safe_def)
qed

lemma sample_receipt_accepted:
  "normalizeDiscoveryReceipt (canonicalValue (receipt_json [sample_offer i d a])) i d a = Inr [sample_offer i d a]"
proof (rule normalize_stored)
  have "df_intentId (sample_offer i d a) = i" "df_intentDigest (sample_offer i d a) = d" "df_agentId (sample_offer i d a) = a"
    by (simp_all add: sample_offer_def Let_def)
  then show "\<forall>r \<in> set [sample_offer i d a]. offer_ok r \<and> df_intentId r = i \<and> df_intentDigest r = d \<and> df_agentId r = a"
    using sample_offer_ok by simp
qed simp_all

theorem discovery_receipt_roundtrip_witness:
  "\<exists>w. json_parse (canonicalJson (receipt_json [sample_offer ''intent-1'' ''d'' ''agent-1''])) = Some w
     \<and> normalizeDiscoveryReceipt w ''intent-1'' ''d'' ''agent-1'' = Inr [sample_offer ''intent-1'' ''d'' ''agent-1'']"
  using discovery_receipt_roundtrip [OF sample_receipt_accepted] by blast

end
