(* ===== verification/Js_Double.thy ===== *)
theory Js_Double imports Js_Prelude "HOL-Library.Log_Nat" begin

text \<open>
  The arithmetic of non-negative doubles (IEEE 754 binary64, rounding to the nearest value, ties to the
  even significand), on exact rationals: rounding is monotone and leaves doubles alone, which is what
  the bounds of scores rest on.
\<close>

section \<open>Rounding\<close>

definition round_even :: "rat \<Rightarrow> int" where
  "round_even r = (let f = \<lfloor>r\<rfloor>; d = r - of_int f
     in if d < 1 / 2 \<or> d = 1 / 2 \<and> even f then f else f + 1)"

text \<open>The exponent of the leading binary digit of a positive rational.\<close>

definition expo :: "rat \<Rightarrow> int" where
  "expo x = (let (p, q) = quotient_of x; e = int (floorlog 2 (nat p)) - int (floorlog 2 (nat q))
     in if 2 powi e \<le> x then e else e - 1)"

text \<open>The exponent of the last place: 53 significant digits, none below \<open>2 ^ -1074\<close>.\<close>

definition last_place :: "rat \<Rightarrow> int" where
  "last_place x = max (expo x - 52) (- 1074)"

definition rounded :: "rat \<Rightarrow> rat" where
  "rounded x = (if x \<le> 0 then 0 else of_int (round_even (x / 2 powi last_place x)) * 2 powi last_place x)"

lemma round_even_int [simp]: "round_even (of_int n) = n"
  by (simp add: round_even_def)

lemma round_even_near: "\<lfloor>r\<rfloor> \<le> round_even r" "round_even r \<le> \<lfloor>r\<rfloor> + 1"
  by (auto simp: round_even_def Let_def)

lemma round_even_mono: "r \<le> s \<Longrightarrow> round_even r \<le> round_even s"
proof (cases "\<lfloor>r\<rfloor> = \<lfloor>s\<rfloor>")
  case True
  assume "r \<le> s"
  then show ?thesis using True by (auto simp: round_even_def Let_def)
next
  case False
  assume "r \<le> s"
  then have "\<lfloor>r\<rfloor> \<le> \<lfloor>s\<rfloor>" by (rule floor_mono)
  then show ?thesis using False round_even_near(2) [of r] round_even_near(1) [of s] by linarith
qed

lemma powi_mono: "i \<le> j \<Longrightarrow> (2::rat) powi i \<le> 2 powi j"
  by (simp add: power_int_increasing)

lemma powi_less_iff: "(2::rat) powi i < 2 powi j \<longleftrightarrow> i < j"
  by (metis linorder_not_le powi_mono power_int_strict_increasing one_less_numeral_iff semiring_norm(76))

lemma expo_bounds:
  assumes "0 < x"
  shows "2 powi expo x \<le> x" "x < 2 powi (expo x + 1)"
proof -
  obtain p q where pq: "quotient_of x = (p, q)" by (cases "quotient_of x")
  have q: "0 < q" using quotient_of_denom_pos pq by blast
  have x: "x = of_int p / of_int q" by (rule quotient_of_div [OF pq])
  then have p: "0 < p" using assms q by (simp add: zero_less_divide_iff)
  let ?P = "floorlog 2 (nat p)" and ?Q = "floorlog 2 (nat q)"
  let ?e = "int ?P - int ?Q"
  have bounds: "(2::rat) powi (int (floorlog 2 (nat i)) - 1) \<le> of_int i" "of_int i < (2::rat) powi int (floorlog 2 (nat i))" if "0 < i" for i
  proof -
    have "2 ^ (floorlog 2 (nat i) - 1) \<le> nat i" "nat i < 2 ^ floorlog 2 (nat i)" "0 < floorlog 2 (nat i)"
      using floorlog_bounds [of "nat i" 2] that floorlog_eq_zero_iff [of 2 "nat i"] by auto
    then have "(2::int) ^ (floorlog 2 (nat i) - 1) \<le> i" "i < 2 ^ floorlog 2 (nat i)"
      using that by (auto simp: nat_le_iff nat_less_iff le_nat_iff)
    then have "(2::rat) ^ (floorlog 2 (nat i) - 1) \<le> of_int i" "of_int i < (2::rat) ^ floorlog 2 (nat i)"
      by (metis of_int_le_iff of_int_numeral of_int_power, metis of_int_less_iff of_int_numeral of_int_power)
    then show "(2::rat) powi (int (floorlog 2 (nat i)) - 1) \<le> of_int i" "of_int i < (2::rat) powi int (floorlog 2 (nat i))"
      using \<open>0 < floorlog 2 (nat i)\<close> by (simp_all add: power_int_def nat_diff_distrib)
  qed
  have "x < 2 powi int ?P / 2 powi (int ?Q - 1)"
    unfolding x using bounds(2) [OF p] bounds(1) [OF q] by (intro frac_less) (use p in auto)
  also have "\<dots> = 2 powi (?e + 1)" by (simp add: power_int_diff power_int_add)
  finally have upper: "x < 2 powi (?e + 1)" .
  have "2 powi (?e - 1) = (2::rat) powi (int ?P - 1) / 2 powi int ?Q" by (simp add: power_int_diff)
  also have "\<dots> \<le> x"
    unfolding x using bounds(1) [OF p] bounds(2) [OF q] p q by (intro frac_le) auto
  finally have "2 powi (?e - 1) \<le> x" .
  with upper show "2 powi expo x \<le> x" "x < 2 powi (expo x + 1)"
    by (simp_all add: expo_def pq Let_def)
qed

lemma expo_mono: "0 < x \<Longrightarrow> x \<le> y \<Longrightarrow> expo x \<le> expo y"
  using expo_bounds [of x] expo_bounds [of y] powi_less_iff [of "expo x" "expo y + 1"] by linarith

lemma round_even_powi:
  assumes "k \<le> e" "x \<le> 2 powi e"
  shows "of_int (round_even (x / 2 powi k)) * 2 powi k \<le> (2::rat) powi e"
proof -
  have n: "(2::rat) powi (e - k) = of_int (2 ^ nat (e - k))" using assms(1) by (simp add: power_int_def)
  have "x / 2 powi k \<le> 2 powi (e - k)" using assms(2) by (simp add: power_int_diff divide_right_mono)
  then have "round_even (x / 2 powi k) \<le> 2 ^ nat (e - k)"
    unfolding n using round_even_mono round_even_int by metis
  then have "of_int (round_even (x / 2 powi k)) \<le> (2::rat) powi (e - k)" unfolding n by (simp only: of_int_le_iff)
  then show ?thesis by (simp add: power_int_diff field_simps)
qed

lemma rounded_mono:
  assumes "x \<le> y"
  shows "rounded x \<le> rounded y"
proof -
  have nonneg: "0 \<le> rounded z" for z
  proof (cases "0 < z")
    case True
    then have "0 \<le> round_even (z / 2 powi last_place z)"
      using round_even_mono [of 0 "z / 2 powi last_place z"] round_even_int [of 0] by simp
    then show ?thesis by (simp add: rounded_def)
  qed (simp add: rounded_def)
  show ?thesis
  proof (cases "0 < x")
    case True
    then have y: "0 < y" using assms by simp
    have e: "expo x \<le> expo y" by (rule expo_mono [OF True assms])
    show ?thesis
    proof (cases "last_place x = last_place y")
      case same: True
      have "round_even (x / 2 powi last_place y) \<le> round_even (y / 2 powi last_place y)"
        by (intro round_even_mono divide_right_mono assms) simp
      then show ?thesis using True y by (simp add: rounded_def same)
    next
      case False
      then have k: "last_place y = expo y - 52" "expo x < expo y" "last_place x \<le> expo y"
        using e by (auto simp: last_place_def)
      have "x \<le> 2 powi expo y"
        using expo_bounds(2) [OF True] powi_mono [of "expo x + 1" "expo y"] k(2) by simp
      then have "rounded x \<le> 2 powi expo y" using round_even_powi [OF k(3)] True by (simp add: rounded_def)
      also have "\<dots> \<le> rounded y"
      proof -
        have "(2::rat) powi expo y = of_int (2 ^ 52) * 2 powi last_place y" by (simp add: k(1) power_int_diff)
        moreover have "(of_int (2 ^ 52) :: rat) \<le> y / 2 powi last_place y"
          using expo_bounds(1) [OF y] by (simp add: calculation pos_le_divide_eq)
        then have "2 ^ 52 \<le> round_even (y / 2 powi last_place y)" using round_even_mono round_even_int by metis
        then have "(of_int (2 ^ 52) :: rat) \<le> of_int (round_even (y / 2 powi last_place y))" by (simp only: of_int_le_iff)
        ultimately show ?thesis using y by (simp add: rounded_def)
      qed
      finally show ?thesis .
    qed
  qed (use nonneg in \<open>simp add: rounded_def\<close>)
qed

text \<open>The values that a double can have, overflow aside.\<close>

definition is_double :: "rat \<Rightarrow> bool" where
  "is_double x = (\<exists>m k. 0 \<le> m \<and> m \<le> 2 ^ 53 \<and> - 1074 \<le> k \<and> x = of_int m * 2 powi k)"

lemma is_double_int: "0 \<le> n \<Longrightarrow> n \<le> 2 ^ 53 \<Longrightarrow> is_double (of_int n)"
  unfolding is_double_def by (intro exI [of _ n] exI [of _ 0]) simp

lemma is_double_rounded: "is_double (rounded x)"
proof (cases "0 < x")
  case True
  let ?k = "last_place x"
  have "expo x + 1 \<le> ?k + 53" by (simp add: last_place_def)
  then have "x < 2 powi (?k + 53)" using expo_bounds(2) [OF True] powi_mono by (meson less_le_trans)
  then have "x / 2 powi ?k \<le> of_int (2 ^ 53)" by (simp add: power_int_add field_simps)
  then have "round_even (x / 2 powi ?k) \<le> 2 ^ 53" using round_even_mono round_even_int by metis
  moreover have "0 \<le> round_even (x / 2 powi ?k)"
    using round_even_mono [of 0 "x / 2 powi ?k"] round_even_int [of 0] True by simp
  moreover have "- 1074 \<le> ?k" by (simp add: last_place_def)
  ultimately show ?thesis
    unfolding is_double_def rounded_def using True
    by (intro exI [of _ "round_even (x / 2 powi ?k)"] exI [of _ ?k]) simp
next
  case False
  then show ?thesis using is_double_int [of 0] by (simp add: rounded_def)
qed

lemma rounded_double:
  assumes "is_double x"
  shows "rounded x = x"
proof (cases "0 < x")
  case True
  obtain m k where m: "0 \<le> m" "m \<le> 2 ^ 53" "- 1074 \<le> k" and x: "x = of_int m * 2 powi k"
    using assms by (auto simp: is_double_def)
  have exact: "rounded x = x" if "x / 2 powi last_place x = of_int n" for n
    using True that by (simp add: rounded_def) (simp add: field_simps)
  have le: "x \<le> 2 powi (53 + k)"
  proof -
    have "(of_int m :: rat) \<le> of_int (2 ^ 53)" using m(2) by (simp only: of_int_le_iff)
    then show ?thesis unfolding x by (simp add: power_int_add)
  qed
  show ?thesis
  proof (cases "x = 2 powi (53 + k)")
    case eq: True
    have "expo x = 53 + k"
    proof (rule order_antisym)
      have "(2::rat) powi (53 + k) < 2 powi (expo x + 1)" using expo_bounds(2) [OF True] eq by simp
      then show "53 + k \<le> expo x" by (simp add: powi_less_iff)
      have "\<not> (2::rat) powi (53 + k) < 2 powi expo x" using expo_bounds(1) [OF True] eq by simp
      then show "expo x \<le> 53 + k" by (simp add: powi_less_iff)
    qed
    then have "last_place x = k + 1" using m(3) by (simp add: last_place_def)
    then have "x / 2 powi last_place x = of_int (2 ^ 52)" using eq by (simp add: power_int_add)
    then show ?thesis by (rule exact)
  next
    case False
    then have "2 powi expo x < (2::rat) powi (53 + k)" using le expo_bounds(1) [OF True] by linarith
    then have "expo x \<le> 52 + k" by (simp add: powi_less_iff)
    then have k: "last_place x \<le> k" using m(3) by (simp add: last_place_def)
    have "x / 2 powi last_place x = of_int m * 2 powi (k - last_place x)" unfolding x by (simp add: power_int_diff)
    also have "\<dots> = of_int (m * 2 ^ nat (k - last_place x))" using k by (simp add: power_int_def)
    finally show ?thesis by (rule exact)
  qed
next
  case False
  then have "x = 0" using assms by (auto simp: is_double_def zero_less_mult_iff)
  then show ?thesis by (simp add: rounded_def)
qed

section \<open>Operations\<close>

text \<open>Doubles that are not negative; \<open>Not_a_number\<close> is what \<open>Infinity / Infinity\<close> and \<open>0 * Infinity\<close> give.\<close>

datatype double = Finite rat | Infinity | Not_a_number

definition to_double :: "rat \<Rightarrow> double" where
  "to_double x = (let r = rounded x in if 2 powi 1024 \<le> r then Infinity else Finite r)"

fun double_add :: "double \<Rightarrow> double \<Rightarrow> double" where
  "double_add (Finite a) (Finite b) = to_double (a + b)"
| "double_add Not_a_number _ = Not_a_number"
| "double_add _ Not_a_number = Not_a_number"
| "double_add _ _ = Infinity"

fun double_mult :: "double \<Rightarrow> double \<Rightarrow> double" where
  "double_mult (Finite a) (Finite b) = to_double (a * b)"
| "double_mult Not_a_number _ = Not_a_number"
| "double_mult _ Not_a_number = Not_a_number"
| "double_mult (Finite a) Infinity = (if a = 0 then Not_a_number else Infinity)"
| "double_mult Infinity (Finite b) = (if b = 0 then Not_a_number else Infinity)"
| "double_mult Infinity Infinity = Infinity"

fun double_divide :: "double \<Rightarrow> double \<Rightarrow> double" where
  "double_divide (Finite a) (Finite b) = (if b = 0 then (if a = 0 then Not_a_number else Infinity) else to_double (a / b))"
| "double_divide Not_a_number _ = Not_a_number"
| "double_divide _ Not_a_number = Not_a_number"
| "double_divide (Finite a) Infinity = Finite 0"
| "double_divide Infinity (Finite b) = Infinity"
| "double_divide Infinity Infinity = Not_a_number"

text \<open>The sign of \<open>right - left\<close>: a difference with NaN, and \<open>Infinity - Infinity\<close>, count as zero in \<open>a || b\<close>.\<close>

fun double_order :: "double \<Rightarrow> double \<Rightarrow> int" where
  "double_order (Finite l) (Finite r) = (if l < r then 1 else if r < l then - 1 else 0)"
| "double_order (Finite _) Infinity = 1"
| "double_order Infinity (Finite _) = - 1"
| "double_order _ _ = 0"

text \<open>A number as a double, when it is not negative.\<close>

fun double_of :: "jsnum \<Rightarrow> double" where
  "double_of (Integer i) = to_double (of_int i)"
| "double_of (Decimal m k) = to_double (of_int m / 10 ^ k)"
| "double_of NotANumber = Not_a_number"
| "double_of (Infinite b) = Infinity"

lemma rounded_nonneg [simp]: "0 \<le> rounded x"
  using rounded_mono [of "min 0 x" x] by (simp add: rounded_def [of "min 0 x"])

lemma to_double_fix: "is_double x \<Longrightarrow> x < 2 powi 1024 \<Longrightarrow> to_double x = Finite x"
  by (simp add: to_double_def rounded_double)

lemma to_double_Finite: "to_double x = Finite r \<longleftrightarrow> r = rounded x \<and> rounded x < 2 powi 1024"
  by (auto simp: to_double_def Let_def)

lemma to_double_below: "x \<le> y \<Longrightarrow> to_double y = Finite r \<Longrightarrow> to_double x = Finite (rounded x) \<and> rounded x \<le> r"
  using rounded_mono [of x y] by (auto simp: to_double_Finite)

lemma rounded_le_double: "x \<le> w \<Longrightarrow> is_double w \<Longrightarrow> rounded x \<le> w"
  using rounded_mono [of x w] by (simp add: rounded_double)

lemma is_double_one: "is_double 1"
  using is_double_int [of 1] by simp

end
