(* ===== verification/Selection_Policy.thy ===== *)
theory Selection_Policy imports Js_Json Js_Order Js_Double begin

text \<open>
  \<open>src/src/domain/selection-policy.ts\<close>: choosing one of the eligible agents by the weighted score of its
  declared price, quality and latency. Scores are computed in doubles.
\<close>

section \<open>Policies\<close>

record declared_attributes =
  da_priceMinor :: jsnum
  da_qualityScore :: jsnum
  da_latencyMs :: jsnum

record selection_policy =
  sp_price :: jsnum
  sp_quality :: jsnum
  sp_latency :: jsnum

definition SELECTION_POLICY_SCHEMA :: string where
  "SELECTION_POLICY_SCHEMA = ''agentic-graph-selection-policy/v1''"

definition DEFAULT_SELECTION_POLICY :: selection_policy where
  "DEFAULT_SELECTION_POLICY = \<lparr>sp_price = Integer 1, sp_quality = Integer 1, sp_latency = Integer 1\<rparr>"

definition hasOnly :: "json \<Rightarrow> string list \<Rightarrow> bool" where
  "hasOnly v allowed = list_all (\<lambda>k. k \<in> set allowed) (keys_of v)"

fun js_finite :: "jsnum \<Rightarrow> bool" where
  "js_finite (Integer _) = True"
| "js_finite (Decimal _ _) = True"
| "js_finite _ = False"

definition is_weight :: "json option \<Rightarrow> bool" where
  "is_weight v = is_num v (\<lambda>n. js_finite n \<and> num_ge n 0)"

definition weight_of :: "json \<Rightarrow> string \<Rightarrow> jsnum" where
  "weight_of v k = (case field v k of Some (JNum n) \<Rightarrow> n | _ \<Rightarrow> Integer 0)"

definition readSelectionPolicy :: "json \<Rightarrow> selection_policy option" where
  "readSelectionPolicy v =
     (case field v ''weights'' of
        None \<Rightarrow> None
      | Some w \<Rightarrow>
          if \<not> isRecord v \<or> field v ''schema'' \<noteq> Some (JStr SELECTION_POLICY_SCHEMA)
             \<or> field v ''normalization'' \<noteq> Some (JStr ''min-max'') \<or> \<not> isRecord w
             \<or> \<not> hasOnly v [''schema'', ''weights'', ''normalization''] \<or> \<not> hasOnly w [''price'', ''quality'', ''latency'']
          then None
          else if \<not> is_weight (field w ''price'') \<or> \<not> is_weight (field w ''quality'') \<or> \<not> is_weight (field w ''latency'')
             \<or> (weight_of w ''price'' = Integer 0 \<and> weight_of w ''quality'' = Integer 0 \<and> weight_of w ''latency'' = Integer 0)
          then None
          else Some \<lparr>sp_price = weight_of w ''price'', sp_quality = weight_of w ''quality'', sp_latency = weight_of w ''latency''\<rparr>)"

definition policy_json :: "selection_policy \<Rightarrow> json" where
  "policy_json p = JObj [(''schema'', JStr SELECTION_POLICY_SCHEMA),
     (''weights'', JObj [(''price'', JNum (sp_price p)), (''quality'', JNum (sp_quality p)), (''latency'', JNum (sp_latency p))]),
     (''normalization'', JStr ''min-max'')]"

section \<open>Scores\<close>

record value_range =
  vr_minimum :: int
  vr_maximum :: int

record ranges =
  rg_price :: value_range
  rg_quality :: value_range
  rg_latency :: value_range

definition range_of :: "int list \<Rightarrow> value_range" where
  "range_of values' = \<lparr>vr_minimum = foldr min (tl values') (hd values'), vr_maximum = foldr max (tl values') (hd values')\<rparr>"

definition normalizeBenefit :: "int \<Rightarrow> value_range \<Rightarrow> double" where
  "normalizeBenefit v r =
     (if vr_minimum r = vr_maximum r then Finite 1
      else double_divide (Finite (of_int (v - vr_minimum r))) (Finite (of_int (vr_maximum r - vr_minimum r))))"

definition normalizeCost :: "int \<Rightarrow> value_range \<Rightarrow> double" where
  "normalizeCost v r =
     (if vr_minimum r = vr_maximum r then Finite 1
      else double_divide (Finite (of_int (vr_maximum r - v))) (Finite (of_int (vr_maximum r - vr_minimum r))))"

definition total_weight :: "selection_policy \<Rightarrow> double" where
  "total_weight p = double_add (double_add (double_of (sp_price p)) (double_of (sp_quality p))) (double_of (sp_latency p))"

definition score :: "declared_attributes \<Rightarrow> selection_policy \<Rightarrow> ranges \<Rightarrow> double" where
  "score a p r =
     (let price = normalizeCost (the_int (da_priceMinor a)) (rg_price r);
          quality = normalizeBenefit (the_int (da_qualityScore a)) (rg_quality r);
          latency = normalizeCost (the_int (da_latencyMs a)) (rg_latency r)
      in double_divide
           (double_add (double_add (double_mult price (double_of (sp_price p))) (double_mult quality (double_of (sp_quality p))))
              (double_mult latency (double_of (sp_latency p))))
           (total_weight p))"

section \<open>Selection\<close>

type_synonym candidate = "string \<times> declared_attributes"

definition isDeclaredAttributes :: "declared_attributes \<Rightarrow> bool" where
  "isDeclaredAttributes a = (safe_ge 0 (da_priceMinor a) \<and> safe_ge 0 (da_qualityScore a) \<and> safe_ge 0 (da_latencyMs a))"

definition validCandidate :: "candidate \<Rightarrow> bool" where
  "validCandidate c = (id_pattern 255 (fst c) \<and> isDeclaredAttributes (snd c))"

record selection =
  sel_agentId :: string
  sel_score :: double
  sel_considered :: "string list"
  sel_deciding :: "(string \<times> declared_attributes) list"

definition compareScored :: "candidate \<times> double \<Rightarrow> candidate \<times> double \<Rightarrow> int" where
  "compareScored l r = first_nonzero [double_order (snd l) (snd r), compareText (fst (fst l)) (fst (fst r))]"

definition candidate_ranges :: "candidate list \<Rightarrow> ranges" where
  "candidate_ranges cs = \<lparr>rg_price = range_of (map (\<lambda>c. the_int (da_priceMinor (snd c))) cs),
     rg_quality = range_of (map (\<lambda>c. the_int (da_qualityScore (snd c))) cs),
     rg_latency = range_of (map (\<lambda>c. the_int (da_latencyMs (snd c))) cs)\<rparr>"

definition selectAgent :: "candidate list \<Rightarrow> selection_policy \<Rightarrow> selection option" where
  "selectAgent eligible policy =
     (if readSelectionPolicy (policy_json policy) = None \<or> eligible = [] then None
      else let candidates = sort_by (\<lambda>l r. compareText (fst l) (fst r) \<le> 0) (filter validCandidate eligible)
      in if length candidates \<noteq> length eligible \<or> \<not> distinct (map fst candidates) then None
         else case sort_by (\<lambda>l r. compareScored l r \<le> 0)
                (map (\<lambda>c. (c, score (snd c) policy (candidate_ranges candidates))) candidates) of
             [] \<Rightarrow> None
           | (c, value') # _ \<Rightarrow> Some \<lparr>sel_agentId = fst c, sel_score = value',
               sel_considered = map fst candidates, sel_deciding = candidates\<rparr>)"

section \<open>Bounds of scores\<close>

text \<open>A policy whose weights add up to a positive double; the weights themselves are then finite.\<close>

definition usable :: "selection_policy \<Rightarrow> bool" where
  "usable p = (\<exists>t. total_weight p = Finite t \<and> 0 < t)"

lemma double_add_Finite:
  "double_add x y = Finite r \<Longrightarrow> \<exists>a b. x = Finite a \<and> y = Finite b \<and> to_double (a + b) = Finite r"
  by (cases "(x, y)" rule: double_add.cases) auto

lemma double_of_Finite: "double_of n = Finite w \<Longrightarrow> is_double w \<and> 0 \<le> w \<and> w < 2 powi 1024"
  by (cases n) (auto simp: to_double_Finite is_double_rounded)

text \<open>A part of a score: a value between 0 and 1 times a weight.\<close>

definition unit_double :: "double \<Rightarrow> bool" where
  "unit_double x = (\<exists>v. x = Finite v \<and> 0 \<le> v \<and> v \<le> 1)"

lemma to_double_unit: "0 \<le> x \<Longrightarrow> x \<le> 1 \<Longrightarrow> to_double x = Finite (rounded x) \<and> rounded x \<le> 1"
  using rounded_le_double [of x 1, OF _ is_double_one] by (simp add: to_double_def Let_def)

lemma weighted_part:
  assumes "0 \<le> v" "v \<le> 1" "double_of n = Finite w"
  shows "double_mult (Finite v) (double_of n) = Finite (rounded (v * w))" "rounded (v * w) \<le> w"
proof -
  have w: "is_double w" "0 \<le> w" "w < 2 powi 1024" using double_of_Finite [OF assms(3)] by blast+
  have "v * w \<le> w" using assms(1,2) w(2) mult_right_mono [of v 1 w] by simp
  then show le: "rounded (v * w) \<le> w" by (rule rounded_le_double) (rule w(1))
  then show "double_mult (Finite v) (double_of n) = Finite (rounded (v * w))"
    using w(3) by (simp add: assms(3) to_double_def Let_def)
qed

text \<open>The weighted mean of three values is a double between 0 and 1, and grows with each of them.\<close>

definition mean :: "double \<Rightarrow> double \<Rightarrow> double \<Rightarrow> selection_policy \<Rightarrow> double" where
  "mean x y z p = double_divide
     (double_add (double_add (double_mult x (double_of (sp_price p))) (double_mult y (double_of (sp_quality p))))
        (double_mult z (double_of (sp_latency p)))) (total_weight p)"

definition weighted :: "rat \<Rightarrow> rat \<Rightarrow> rat \<Rightarrow> rat \<Rightarrow> rat \<Rightarrow> rat \<Rightarrow> rat" where
  "weighted x y z a b c = rounded (rounded (rounded (x * a) + rounded (y * b)) + rounded (z * c))"

lemma mean_value:
  assumes "usable p"
  shows "\<exists>a b c t. 0 \<le> a \<and> 0 \<le> b \<and> 0 \<le> c \<and> 0 < t \<and>
    (\<forall>x y z. 0 \<le> x \<longrightarrow> x \<le> 1 \<longrightarrow> 0 \<le> y \<longrightarrow> y \<le> 1 \<longrightarrow> 0 \<le> z \<longrightarrow> z \<le> 1 \<longrightarrow>
       mean (Finite x) (Finite y) (Finite z) p = Finite (rounded (weighted x y z a b c / t)) \<and> weighted x y z a b c \<le> t)"
proof -
  obtain t where t: "total_weight p = Finite t" "0 < t" using assms by (auto simp: usable_def)
  obtain s c where s: "double_add (double_of (sp_price p)) (double_of (sp_quality p)) = Finite s"
      and c: "double_of (sp_latency p) = Finite c" and st: "to_double (s + c) = Finite t"
    using double_add_Finite t(1) unfolding total_weight_def by blast
  obtain a b where a: "double_of (sp_price p) = Finite a" and b: "double_of (sp_quality p) = Finite b"
      and ab: "to_double (a + b) = Finite s"
    using double_add_Finite [OF s] by blast
  have value': "mean (Finite x) (Finite y) (Finite z) p = Finite (rounded (weighted x y z a b c / t)) \<and> weighted x y z a b c \<le> t"
    if x: "0 \<le> x" "x \<le> 1" and y: "0 \<le> y" "y \<le> 1" and z: "0 \<le> z" "z \<le> 1" for x y z
  proof -
    note parts = weighted_part [OF x a] weighted_part [OF y b] weighted_part [OF z c]
    have one: "to_double (rounded (x * a) + rounded (y * b)) = Finite (rounded (rounded (x * a) + rounded (y * b)))"
        "rounded (rounded (x * a) + rounded (y * b)) \<le> s"
      using to_double_below [OF _ ab] parts by (simp_all add: add_mono)
    have two: "to_double (rounded (rounded (x * a) + rounded (y * b)) + rounded (z * c)) = Finite (weighted x y z a b c)"
        "weighted x y z a b c \<le> t"
      using to_double_below [OF _ st] one(2) parts(6) by (simp_all add: weighted_def add_mono)
    have "0 \<le> weighted x y z a b c" by (simp add: weighted_def)
    then have "to_double (weighted x y z a b c / t) = Finite (rounded (weighted x y z a b c / t))"
      using two(2) t(2) to_double_unit by simp
    then show ?thesis using t two one(1) parts by (simp add: mean_def)
  qed
  show ?thesis
    using value' t(2) double_of_Finite [OF a] double_of_Finite [OF b] double_of_Finite [OF c] by blast
qed

lemma weighted_mono:
  assumes "x \<le> x'" "y \<le> y'" "z \<le> z'" "0 \<le> a" "0 \<le> b" "0 \<le> c"
  shows "weighted x y z a b c \<le> weighted x' y' z' a b c"
  unfolding weighted_def using assms by (intro rounded_mono add_mono mult_right_mono)

text \<open>Normalised values lie between 0 and 1, and better declared values are not worse.\<close>

definition in_range :: "int \<Rightarrow> value_range \<Rightarrow> bool" where
  "in_range v r = (vr_minimum r \<le> v \<and> v \<le> vr_maximum r)"

definition benefit :: "int \<Rightarrow> value_range \<Rightarrow> rat" where
  "benefit v r = (if vr_minimum r = vr_maximum r then 1 else rounded (of_int (v - vr_minimum r) / of_int (vr_maximum r - vr_minimum r)))"

definition cost :: "int \<Rightarrow> value_range \<Rightarrow> rat" where
  "cost v r = (if vr_minimum r = vr_maximum r then 1 else rounded (of_int (vr_maximum r - v) / of_int (vr_maximum r - vr_minimum r)))"

lemma unit_fraction:
  assumes "0 \<le> n" "n \<le> d" "0 < d"
  shows "double_divide (Finite (of_int n)) (Finite (of_int d)) = Finite (rounded (of_int n / of_int d))"
    "0 \<le> rounded (of_int n / of_int d :: rat)" "rounded (of_int n / of_int d :: rat) \<le> 1"
  using to_double_unit [of "of_int n / of_int d"] assms by simp_all

lemma normalized:
  assumes "in_range v r"
  shows "normalizeBenefit v r = Finite (benefit v r)" "0 \<le> benefit v r" "benefit v r \<le> 1"
    "normalizeCost v r = Finite (cost v r)" "0 \<le> cost v r" "cost v r \<le> 1"
  using unit_fraction [of "v - vr_minimum r" "vr_maximum r - vr_minimum r"]
    unit_fraction [of "vr_maximum r - v" "vr_maximum r - vr_minimum r"] assms
  by (auto simp: normalizeBenefit_def normalizeCost_def benefit_def cost_def in_range_def simp del: double_divide.simps)

lemma better_normalized:
  assumes "in_range v r" "in_range w r" "v \<le> w"
  shows "benefit v r \<le> benefit w r" "cost w r \<le> cost v r"
  using assms by (auto simp: benefit_def cost_def in_range_def intro!: rounded_mono divide_right_mono)


lemma range_of_in:
  assumes "v \<in> set vs"
  shows "in_range v (range_of vs)"
proof -
  have "foldr min xs a \<le> x" "x \<le> foldr max xs a" if "x \<in> insert a (set xs)" for a x :: int and xs
    using that by (induction xs) auto
  moreover have "v \<in> insert (hd vs) (set (tl vs))" using assms by (cases vs) auto
  ultimately show ?thesis by (simp add: in_range_def range_of_def)
qed

definition price_of :: "declared_attributes \<Rightarrow> int" where "price_of a = the_int (da_priceMinor a)"
definition quality_of :: "declared_attributes \<Rightarrow> int" where "quality_of a = the_int (da_qualityScore a)"
definition latency_of :: "declared_attributes \<Rightarrow> int" where "latency_of a = the_int (da_latencyMs a)"

text \<open>At least as good in every declared attribute.\<close>

definition as_good :: "declared_attributes \<Rightarrow> declared_attributes \<Rightarrow> bool" where
  "as_good a b = (price_of a \<le> price_of b \<and> quality_of b \<le> quality_of a \<and> latency_of a \<le> latency_of b)"

definition inside :: "declared_attributes \<Rightarrow> ranges \<Rightarrow> bool" where
  "inside a r = (in_range (price_of a) (rg_price r) \<and> in_range (quality_of a) (rg_quality r) \<and> in_range (latency_of a) (rg_latency r))"

lemma inside_candidates: "c \<in> set cs \<Longrightarrow> inside (snd c) (candidate_ranges cs)"
  by (auto simp: inside_def candidate_ranges_def price_of_def quality_of_def latency_of_def intro!: range_of_in)

text \<open>The value of a score that is a number.\<close>

fun double_value :: "double \<Rightarrow> rat" where
  "double_value (Finite v) = v"
| "double_value _ = 0"

lemma score_mean:
  assumes "inside a r"
  shows "score a p r = mean (Finite (cost (price_of a) (rg_price r))) (Finite (benefit (quality_of a) (rg_quality r)))
    (Finite (cost (latency_of a) (rg_latency r))) p"
  using assms by (simp add: score_def mean_def Let_def inside_def price_of_def quality_of_def latency_of_def normalized)

lemma score_unit:
  assumes "usable p" "inside a r"
  shows "score a p r = Finite (double_value (score a p r))" "0 \<le> double_value (score a p r)" "double_value (score a p r) \<le> 1"
proof -
  have in_r: "in_range (price_of a) (rg_price r)" "in_range (quality_of a) (rg_quality r)" "in_range (latency_of a) (rg_latency r)"
    using assms(2) by (simp_all add: inside_def)
  obtain wa wb wc t x y z where w: "0 < t" "score a p r = Finite (rounded (weighted x y z wa wb wc / t))" "weighted x y z wa wb wc \<le> t"
    using mean_value [OF assms(1)] score_mean [OF assms(2), of p] normalized(5,6) [OF in_r(1)] normalized(2,3) [OF in_r(2)]
      normalized(5,6) [OF in_r(3)] by metis
  then have "rounded (weighted x y z wa wb wc / t) \<le> 1" by (intro rounded_le_double is_double_one) simp
  then show "score a p r = Finite (double_value (score a p r))" "0 \<le> double_value (score a p r)" "double_value (score a p r) \<le> 1"
    using w(2) by simp_all
qed

lemma score_mono:
  assumes "usable p" "inside a r" "inside b r" "as_good a b"
  shows "double_value (score b p r) \<le> double_value (score a p r)"
proof -
  have in_r: "in_range (price_of c) (rg_price r)" "in_range (quality_of c) (rg_quality r)" "in_range (latency_of c) (rg_latency r)"
    if "inside c r" for c using that by (simp_all add: inside_def)
  obtain wa wb wc t where w: "0 \<le> wa" "0 \<le> wb" "0 \<le> wc" "0 < t"
    "\<And>x y z. 0 \<le> x \<Longrightarrow> x \<le> 1 \<Longrightarrow> 0 \<le> y \<Longrightarrow> y \<le> 1 \<Longrightarrow> 0 \<le> z \<Longrightarrow> z \<le> 1 \<Longrightarrow>
       mean (Finite x) (Finite y) (Finite z) p = Finite (rounded (weighted x y z wa wb wc / t))"
    using mean_value [OF assms(1)] by blast
  have score_c: "double_value (score c p r) = rounded (weighted (cost (price_of c) (rg_price r)) (benefit (quality_of c) (rg_quality r))
      (cost (latency_of c) (rg_latency r)) wa wb wc / t)" if "inside c r" for c
    using score_mean [OF that, of p] w(5) normalized(5,6) [OF in_r(1) [OF that]] normalized(2,3) [OF in_r(2) [OF that]]
      normalized(5,6) [OF in_r(3) [OF that]] by simp
  have "weighted (cost (price_of b) (rg_price r)) (benefit (quality_of b) (rg_quality r)) (cost (latency_of b) (rg_latency r)) wa wb wc
      \<le> weighted (cost (price_of a) (rg_price r)) (benefit (quality_of a) (rg_quality r)) (cost (latency_of a) (rg_latency r)) wa wb wc"
    using assms(4) better_normalized in_r [OF assms(2)] in_r [OF assms(3)] w(1-3)
    by (intro weighted_mono) (auto simp: as_good_def)
  then show ?thesis unfolding score_c [OF assms(2)] score_c [OF assms(3)]
    using w(4) by (intro rounded_mono divide_right_mono) simp_all
qed

section \<open>The selected candidate\<close>

lemma sort_by_cong:
  assumes "\<And>x y. x \<in> set xs \<Longrightarrow> y \<in> set xs \<Longrightarrow> le x y = le' x y"
  shows "sort_by le xs = sort_by le' xs"
proof -
  have ins: "insert_by le x ys = insert_by le' x ys" if "\<And>y. y \<in> set ys \<Longrightarrow> le x y = le' x y" for x ys
    using that by (induction ys) auto
  show ?thesis using assms
  proof (induction xs)
    case (Cons x xs)
    then have "sort_by le xs = sort_by le' xs" by simp
    then show ?case using ins [of "sort_by le' xs" x] Cons.prems by simp
  qed simp
qed

definition compareValue :: "candidate \<times> double \<Rightarrow> candidate \<times> double \<Rightarrow> int" where
  "compareValue l r = first_nonzero [double_order (Finite (double_value (snd l))) (Finite (double_value (snd r))),
     compareText (fst (fst l)) (fst (fst r))]"

lemma comparator_value [comparators]: "comparator compareValue"
proof -
  have "comparator (\<lambda>l r :: candidate \<times> double. double_order (Finite (double_value (snd l))) (Finite (double_value (snd r))))"
    by (rule comparatorI) (auto split: if_splits)
  then show ?thesis unfolding compareValue_def by (intro comparators)
qed

lemma selectAgent_cases:
  assumes "selectAgent eligible policy = Some s"
  shows "readSelectionPolicy (policy_json policy) \<noteq> None" "\<forall>c \<in> set eligible. validCandidate c" "distinct (map fst eligible)"
    "eligible \<noteq> []" "sel_deciding s = sort_by (\<lambda>l r. compareText (fst l) (fst r) \<le> 0) eligible" "sel_considered s = map fst (sel_deciding s)"
    "\<exists>c rest. sort_by (\<lambda>l r. compareScored l r \<le> 0) (map (\<lambda>c. (c, score (snd c) policy (candidate_ranges (sel_deciding s)))) (sel_deciding s))
       = (c, sel_score s) # rest \<and> sel_agentId s = fst c"
proof -
  let ?cs = "sort_by (\<lambda>l r. compareText (fst l) (fst r) \<le> 0) (filter validCandidate eligible)"
  have pre: "readSelectionPolicy (policy_json policy) \<noteq> None" "eligible \<noteq> []" "length ?cs = length eligible" "distinct (map fst ?cs)"
    using assms by (auto simp: selectAgent_def Let_def split: if_splits)
  then have all: "filter validCandidate eligible = eligible"
    by (simp only: length_sort_by) (metis filter_id_conv length_filter_conv_card length_filter_less less_irrefl)
  show "readSelectionPolicy (policy_json policy) \<noteq> None" "eligible \<noteq> []" by (fact pre)+
  show "\<forall>c \<in> set eligible. validCandidate c" using all by (simp add: filter_id_conv)
  show "distinct (map fst eligible)" using pre(4) by (simp add: all distinct_sort_by)
  have body: "(case sort_by (\<lambda>l r. compareScored l r \<le> 0) (map (\<lambda>c. (c, score (snd c) policy (candidate_ranges ?cs))) ?cs) of
             [] \<Rightarrow> None
           | (c, value') # _ \<Rightarrow> Some \<lparr>sel_agentId = fst c, sel_score = value', sel_considered = map fst ?cs, sel_deciding = ?cs\<rparr>) = Some s"
    using assms pre by (simp add: selectAgent_def Let_def)
  then show "sel_deciding s = sort_by (\<lambda>l r. compareText (fst l) (fst r) \<le> 0) eligible" "sel_considered s = map fst (sel_deciding s)"
    "\<exists>c rest. sort_by (\<lambda>l r. compareScored l r \<le> 0) (map (\<lambda>c. (c, score (snd c) policy (candidate_ranges (sel_deciding s)))) (sel_deciding s))
       = (c, sel_score s) # rest \<and> sel_agentId s = fst c"
    by (auto simp: all split: list.splits prod.splits)
qed


text \<open>With a usable policy every score is a number, and the comparison is the consistent one.\<close>

lemma selected_first:
  assumes sel: "selectAgent eligible policy = Some s" and "usable policy"
  shows "\<exists>a. (sel_agentId s, a) \<in> set eligible \<and> sel_score s = score a policy (candidate_ranges (sel_deciding s))
    \<and> (\<forall>d \<in> set eligible. compareValue ((sel_agentId s, a), sel_score s) (d, score (snd d) policy (candidate_ranges (sel_deciding s))) \<le> 0)"
proof -
  note facts = selectAgent_cases [OF sel]
  let ?r = "candidate_ranges (sel_deciding s)"
  let ?xs = "map (\<lambda>c. (c, score (snd c) policy ?r)) (sel_deciding s)"
  have same: "set (sel_deciding s) = set eligible" by (simp add: facts(5))
  have value': "score (snd c) policy ?r = Finite (double_value (score (snd c) policy ?r))" if "c \<in> set eligible" for c
    using score_unit(1) [OF assms(2) inside_candidates] that same by blast
  have sorted: "sort_by (\<lambda>l r. compareScored l r \<le> 0) ?xs = sort_by (\<lambda>l r. compareValue l r \<le> 0) ?xs"
  proof (rule sort_by_cong)
    fix x y assume xy: "x \<in> set ?xs" "y \<in> set ?xs"
    then have "snd x = Finite (double_value (snd x))" "snd y = Finite (double_value (snd y))"
      using value' same by auto
    then have "compareScored x y = compareValue x y" unfolding compareScored_def compareValue_def by simp
    then show "(compareScored x y \<le> 0) = (compareValue x y \<le> 0)" by simp
  qed
  obtain c rest where c: "sort_by (\<lambda>l r. compareValue l r \<le> 0) ?xs = (c, sel_score s) # rest" "sel_agentId s = fst c"
    using facts(7) unfolding sorted by blast
  have members: "set ?xs = insert (c, sel_score s) (set rest)" using c(1) set_sort_by [of "\<lambda>l r. compareValue l r \<le> 0" ?xs] by simp
  have "sorted_wrt (\<lambda>l r. compareValue l r \<le> 0) ((c, sel_score s) # rest)"
    using sorted_comparator [OF comparator_value, of ?xs] c(1) by simp
  then have first: "compareValue (c, sel_score s) x \<le> 0" if "x \<in> set ?xs" for x
    using that members comparator_refl [OF comparator_value, of "(c, sel_score s)"] by auto
  have "(c, sel_score s) \<in> set ?xs" using members by simp
  then have "c \<in> set eligible" "sel_score s = score (snd c) policy ?r" using same by auto
  moreover have "compareValue (c, sel_score s) (d, score (snd d) policy ?r) \<le> 0" if "d \<in> set eligible" for d
    using first that same by simp
  ultimately show ?thesis using c(2) by (intro exI [of _ "snd c"]) simp
qed

section \<open>Claims\<close>

text \<open>
  C28. The selected agent is the best: with weights whose sum does not overflow, it is one of the eligible
  agents, its score is a double between 0 and 1, no eligible agent has a greater score, of the agents
  with its score it has the least id, and an agent that declares no attribute worse has the same score.
\<close>

theorem selection_optimal:
  assumes sel: "selectAgent eligible policy = Some s" and use: "usable policy"
  shows "\<exists>a v. (sel_agentId s, a) \<in> set eligible \<and> sel_score s = Finite v \<and> 0 \<le> v \<and> v \<le> 1
    \<and> (\<forall>(i, b) \<in> set eligible. \<exists>w. score b policy (candidate_ranges (sel_deciding s)) = Finite w \<and> w \<le> v
         \<and> (w = v \<longrightarrow> compareText (sel_agentId s) i \<le> 0) \<and> (as_good b a \<longrightarrow> w = v))"
proof -
  let ?r = "candidate_ranges (sel_deciding s)"
  obtain a where a: "(sel_agentId s, a) \<in> set eligible" "sel_score s = score a policy ?r"
    and first: "\<And>d. d \<in> set eligible \<Longrightarrow> compareValue ((sel_agentId s, a), sel_score s) (d, score (snd d) policy ?r) \<le> 0"
    using selected_first [OF sel use] by blast
  have inr: "inside b ?r" if "(i, b) \<in> set eligible" for i b
    using inside_candidates [of "(i, b)" "sel_deciding s"] that selectAgent_cases(5) [OF sel] by simp
  let ?v = "double_value (sel_score s)"
  have v: "sel_score s = Finite ?v" "0 \<le> ?v" "?v \<le> 1" using score_unit [OF use inr [OF a(1)]] a(2) by simp_all
  have "\<exists>w. score b policy ?r = Finite w \<and> w \<le> ?v \<and> (w = ?v \<longrightarrow> compareText (sel_agentId s) i \<le> 0) \<and> (as_good b a \<longrightarrow> w = ?v)"
    if b: "(i, b) \<in> set eligible" for i b
  proof -
    let ?w = "double_value (score b policy ?r)"
    have le: "compareValue ((sel_agentId s, a), sel_score s) ((i, b), score b policy ?r) \<le> 0" using first [OF b] by simp
    then have "?w \<le> ?v" "?w = ?v \<longrightarrow> compareText (sel_agentId s) i \<le> 0"
      by (auto simp: compareValue_def compareText_le split: if_splits)
    moreover have "as_good b a \<longrightarrow> ?v \<le> ?w" using score_mono [OF use inr [OF b] inr [OF a(1)]] a(2) by simp
    ultimately show ?thesis using score_unit(1) [OF use inr [OF b]] by (intro exI [of _ ?w]) auto
  qed
  then show ?thesis using a(1) v by (intro exI [of _ a] exI [of _ ?v]) blast
qed

text \<open>
  A selection does not depend on the order in which the eligible agents are listed.
\<close>

theorem selection_order_independent:
  assumes "mset eligible' = mset eligible"
  shows "selectAgent eligible' policy = selectAgent eligible policy"
proof -
  let ?le = "\<lambda>l r :: candidate. compareText (fst l) (fst r) \<le> 0"
  let ?cs = "\<lambda>xs. sort_by ?le (filter validCandidate xs)"
  have m: "mset (filter validCandidate eligible') = mset (filter validCandidate eligible)"
    "length eligible' = length eligible" "eligible' = [] \<longleftrightarrow> eligible = []"
    using assms by (simp, metis size_mset, metis mset_zero_iff)
  have d: "distinct (map fst (?cs eligible')) \<longleftrightarrow> distinct (map fst (?cs eligible))"
    unfolding distinct_sort_by using m(1) mset_eq_imp_distinct_iff mset_map by metis
  have len: "length (?cs eligible') = length (?cs eligible)" using m(1) by (metis length_sort_by size_mset)
  have "?cs eligible' = ?cs eligible" if dist: "distinct (map fst (?cs eligible))"
  proof -
    have cmp: "comparator (\<lambda>l r :: candidate. compareText (fst l) (fst r))" by (intro comparators)
    have sets: "set (filter validCandidate eligible') = set (filter validCandidate eligible)" using m(1) by (metis set_mset_mset)
    have "map fst (?cs eligible') = map fst (?cs eligible)"
      by (rule sort_keys_unique [OF cmp]) (use dist d sets in \<open>simp_all add: distinct_sort_by del: set_filter\<close>)
    moreover have "inj_on fst (set (?cs eligible') \<union> set (?cs eligible))" using dist sets by (simp add: distinct_map del: set_filter)
    ultimately show ?thesis by (metis map_inj_on)
  qed
  then show ?thesis
    using m(2,3) d len unfolding selectAgent_def Let_def
    by (cases "distinct (map fst (?cs eligible))") (simp_all only: if_True if_False simp_thms)
qed

definition sample_candidates :: "candidate list" where
  "sample_candidates = [(''b'', \<lparr>da_priceMinor = Integer 100, da_qualityScore = Integer 9, da_latencyMs = Integer 10\<rparr>),
     (''a'', \<lparr>da_priceMinor = Integer 300, da_qualityScore = Integer 9, da_latencyMs = Integer 10\<rparr>)]"

text \<open>A valid policy and valid candidates with distinct ids always give a selection.\<close>

lemma selectAgent_complete:
  assumes "readSelectionPolicy (policy_json policy) \<noteq> None" "eligible \<noteq> []" "\<forall>c \<in> set eligible. validCandidate c"
    and "distinct (map fst eligible)"
  shows "\<exists>s. selectAgent eligible policy = Some s"
proof -
  have all: "filter validCandidate eligible = eligible" using assms(3) by (simp add: filter_id_conv)
  let ?cs = "sort_by (\<lambda>l r. compareText (fst l) (fst r) \<le> 0) eligible"
  let ?xs = "sort_by (\<lambda>l r. compareScored l r \<le> 0) (map (\<lambda>c. (c, score (snd c) policy (candidate_ranges ?cs))) ?cs)"
  have "length ?xs \<noteq> 0" using assms(2) by simp
  then obtain c v rest where xs: "?xs = (c, v) # rest" by (cases ?xs) auto
  have "distinct (map fst ?cs)" "length ?cs = length eligible" using assms(4) by (simp_all add: distinct_sort_by)
  then show ?thesis
    unfolding selectAgent_def Let_def all by (simp add: assms(1,2) xs)
qed

lemma to_double_int:
  assumes "0 \<le> n" "n \<le> 2 ^ 53"
  shows "to_double (of_int n) = Finite (of_int n)"
proof (rule to_double_fix [OF is_double_int [OF assms]])
  have "(of_int n :: rat) \<le> of_int (2 ^ 53)" using assms(2) by (simp only: of_int_le_iff)
  also have "\<dots> = 2 powi 53" by (simp add: power_int_def)
  also have "\<dots> < 2 powi 1024" by (simp add: powi_less_iff)
  finally show "of_int n < (2::rat) powi 1024" .
qed

lemma default_policy: "readSelectionPolicy (policy_json DEFAULT_SELECTION_POLICY) \<noteq> None" "usable DEFAULT_SELECTION_POLICY"
proof -
  show "readSelectionPolicy (policy_json DEFAULT_SELECTION_POLICY) \<noteq> None" by code_simp
  have "total_weight DEFAULT_SELECTION_POLICY = Finite 3"
    using to_double_int [of 1] to_double_int [of 2] to_double_int [of 3] by (simp add: total_weight_def DEFAULT_SELECTION_POLICY_def)
  then show "usable DEFAULT_SELECTION_POLICY" by (simp add: usable_def)
qed

lemma sample_candidates_valid: "list_all validCandidate sample_candidates" "distinct (map fst sample_candidates)" "sample_candidates \<noteq> []"
  by code_simp+

theorem selection_optimal_witness:
  "\<exists>s v. selectAgent sample_candidates DEFAULT_SELECTION_POLICY = Some s \<and> sel_score s = Finite v \<and> 0 \<le> v \<and> v \<le> 1"
proof -
  obtain s where s: "selectAgent sample_candidates DEFAULT_SELECTION_POLICY = Some s"
    using selectAgent_complete [OF default_policy(1) sample_candidates_valid(3) _ sample_candidates_valid(2)] sample_candidates_valid(1)
    by (auto simp: list_all_iff)
  from selection_optimal [OF s default_policy(2)] show ?thesis using s by blast
qed

theorem selection_order_independent_witness:
  "selectAgent (rev sample_candidates) DEFAULT_SELECTION_POLICY = selectAgent sample_candidates DEFAULT_SELECTION_POLICY"
  by (rule selection_order_independent) simp

definition huge_weight :: int where
  "huge_weight = 2 ^ 1023"

definition huge_policy :: selection_policy where
  "huge_policy = \<lparr>sp_price = Integer huge_weight, sp_quality = Integer huge_weight, sp_latency = Integer 0\<rparr>"

definition huge_candidates :: "candidate list" where
  "huge_candidates = [(''a'', \<lparr>da_priceMinor = Integer 300, da_qualityScore = Integer 1, da_latencyMs = Integer 90\<rparr>),
     (''b'', \<lparr>da_priceMinor = Integer 100, da_qualityScore = Integer 9, da_latencyMs = Integer 10\<rparr>)]"

lemma rounded_unit: "to_double 0 = Finite 0" "to_double 1 = Finite 1"
  using to_double_int [of 0] to_double_int [of 1] by simp_all

lemma huge_doubles:
  "to_double (of_int huge_weight) = Finite (of_int huge_weight)"
  "to_double (of_int huge_weight + of_int huge_weight) = Infinity" "0 < huge_weight" "to_double (2 * of_int huge_weight) = Infinity"
proof -
  have powi: "(of_int huge_weight :: rat) = 2 powi 1023" "(of_int huge_weight :: rat) + of_int huge_weight = 2 powi 1024"
    using power_int_add [of "2::rat" 1023 1] by (simp_all add: huge_weight_def power_int_def)
  have d: "is_double (2 powi k)" if "0 \<le> k" for k
    unfolding is_double_def using that by (intro exI [of _ 1] exI [of _ k]) simp
  have "(2::rat) powi 1023 < 2 powi 1024" by (simp add: powi_less_iff)
  with d [of 1023] show "to_double (of_int huge_weight) = Finite (of_int huge_weight)"
    unfolding powi by (intro to_double_fix) simp_all
  have r: "rounded (2 powi 1024) = 2 powi 1024" by (rule rounded_double, rule d) simp
  show over: "to_double (of_int huge_weight + of_int huge_weight) = Infinity"
    unfolding powi(2) to_double_def r Let_def by (simp only: order_refl if_True)
  then show "to_double (2 * of_int huge_weight) = Infinity" by (simp only: mult_2)
  show "0 < huge_weight" by (simp add: huge_weight_def)
qed

text \<open>
  Weights that overflow disable the policy: a policy is accepted whenever its weights are finite and
  not all zero, but when their sum is not a finite double every score is zero or NaN, and an agent is
  selected although another one is better in price, quality and latency.
\<close>

theorem overflowing_weights_select_worse:
  "readSelectionPolicy (policy_json huge_policy) = Some huge_policy
   \<and> map_option sel_agentId (selectAgent huge_candidates huge_policy) = Some ''a''
   \<and> huge_candidates = [(''a'', \<lparr>da_priceMinor = Integer 300, da_qualityScore = Integer 1, da_latencyMs = Integer 90\<rparr>),
     (''b'', \<lparr>da_priceMinor = Integer 100, da_qualityScore = Integer 9, da_latencyMs = Integer 10\<rparr>)]"
proof (intro conjI)
  show read: "readSelectionPolicy (policy_json huge_policy) = Some huge_policy"
    by (simp add: readSelectionPolicy_def policy_json_def huge_policy_def hasOnly_def is_weight_def weight_of_def less_imp_le [OF huge_doubles(3)]
        less_imp_neq [OF huge_doubles(3), symmetric])
  let ?a = "(''a'', \<lparr>da_priceMinor = Integer 300, da_qualityScore = Integer 1, da_latencyMs = Integer 90\<rparr>)"
  let ?b = "(''b'', \<lparr>da_priceMinor = Integer 100, da_qualityScore = Integer 9, da_latencyMs = Integer 10\<rparr>)"
  have sorted: "sort_by (\<lambda>l r. compareText (fst l) (fst r) \<le> 0) (filter validCandidate huge_candidates) = huge_candidates"
    by code_simp
  have ids: "distinct (map fst huge_candidates)" by code_simp
  have weights: "double_of (sp_price huge_policy) = Finite (of_int huge_weight)"
    "double_of (sp_quality huge_policy) = Finite (of_int huge_weight)"
    "double_of (sp_latency huge_policy) = Finite 0" "total_weight huge_policy = Infinity"
    by (simp_all add: huge_policy_def total_weight_def huge_doubles rounded_unit)
  have ranges: "candidate_ranges huge_candidates = \<lparr>rg_price = \<lparr>vr_minimum = 100, vr_maximum = 300\<rparr>,
      rg_quality = \<lparr>vr_minimum = 1, vr_maximum = 9\<rparr>, rg_latency = \<lparr>vr_minimum = 10, vr_maximum = 90\<rparr>\<rparr>"
    by code_simp
  have "score (snd ?a) huge_policy (candidate_ranges huge_candidates) = Finite 0"
    "score (snd ?b) huge_policy (candidate_ranges huge_candidates) = Not_a_number"
    unfolding ranges score_def weights
    by (simp_all add: normalizeCost_def normalizeBenefit_def rounded_unit huge_doubles Let_def)
  moreover have "compareText ''a'' ''b'' \<le> 0" by code_simp
  ultimately show "map_option sel_agentId (selectAgent huge_candidates huge_policy) = Some ''a''"
    unfolding selectAgent_def Let_def sorted using ids read
    by (simp add: compareScored_def) (simp add: huge_candidates_def compareScored_def)
qed (rule huge_candidates_def)

end
