(* ===== verification/Exclusive_Router.thy ===== *)
theory Exclusive_Router imports Selection_Policy Js_Canonical Js_Http begin

text \<open>
  \<open>src/src/domain/exclusive-category-router.ts\<close>: reading a shopper's intent and choosing the one agent
  that may serve it, from the registry of admitted agents. A registry record is typed; the only part
  of its shape that a stored record can violate is its declared attributes. The order of the entries
  of a frozen object is the sorted one; integer-like keys, which JavaScript lists first, are not
  told apart, since every reader goes through canonical JSON.
\<close>

section \<open>Categories\<close>

definition category_tail :: "char \<Rightarrow> bool" where \<comment> \<open>\<open>[a-z0-9._-]\<close>\<close>
  "category_tail c = (is_lower c \<or> is_digit c \<or> c \<in> set ''._-'')"

definition category_pattern :: "string \<Rightarrow> bool" where \<comment> \<open>\<open>/^[a-z0-9][a-z0-9._-]{0,63}$/\<close>\<close>
  "category_pattern = head_tail (\<lambda>c. is_lower c \<or> is_digit c) category_tail 63"

definition normalizeAgentCategory :: "json option \<Rightarrow> string option" where
  "normalizeAgentCategory v =
     (case as_str v of
        None \<Rightarrow> None
      | Some s \<Rightarrow> let normalized = map lower_char (js_trim s) in if category_pattern normalized then Some normalized else None)"

section \<open>Constraints\<close>

definition PAYMENT_CREDENTIAL_FIELDS :: "string list" where
  "PAYMENT_CREDENTIAL_FIELDS = [''authorization'', ''cardnumber'', ''cvc'', ''cvv'', ''mnemonic'', ''pan'', ''password'',
     ''paymenttoken'', ''privatekey'', ''secret'', ''seedphrase'']"

fun isJsonCompatible :: "nat \<Rightarrow> json \<Rightarrow> bool" where
  "isJsonCompatible depth (JArr vs) = (depth \<le> 32 \<and> list_all (isJsonCompatible (Suc depth)) vs)"
| "isJsonCompatible depth (JObj kvs) = (depth \<le> 32 \<and> list_all (\<lambda>kv. isJsonCompatible (Suc depth) (snd kv)) kvs)"
| "isJsonCompatible depth (JNum n) = (depth \<le> 32 \<and> js_finite n)"
| "isJsonCompatible depth _ = (depth \<le> 32)"

definition credential_key :: "string \<Rightarrow> bool" where
  "credential_key k = (map lower_char (filter is_alnum k) \<in> set PAYMENT_CREDENTIAL_FIELDS)"

fun containsCredentialMaterial :: "nat \<Rightarrow> json \<Rightarrow> bool" where
  "containsCredentialMaterial depth (JArr vs) = (32 < depth \<or> list_ex (containsCredentialMaterial (Suc depth)) vs)"
| "containsCredentialMaterial depth (JObj kvs) =
     (32 < depth \<or> list_ex (\<lambda>kv. credential_key (fst kv) \<or> containsCredentialMaterial (Suc depth) (snd kv)) kvs)"
| "containsCredentialMaterial depth _ = (32 < depth)"

fun freezeJsonValue :: "json \<Rightarrow> json" where
  "freezeJsonValue (JArr vs) = JArr (map freezeJsonValue vs)"
| "freezeJsonValue (JObj kvs) =
     JObj (sort_by (\<lambda>l r. compareText (fst l) (fst r) \<le> 0) (map (\<lambda>kv. (fst kv, freezeJsonValue (snd kv))) kvs))"
| "freezeJsonValue v = v"

section \<open>Intents\<close>

record routing_intent =
  ri_intentId :: string
  ri_category :: string
  ri_constraints :: json
  ri_merchant :: "(string \<times> string) option" \<comment> \<open>merchant and listing\<close>

definition intent_json :: "routing_intent \<Rightarrow> json" where
  "intent_json i = JObj ([(''intentId'', JStr (ri_intentId i)), (''category'', JStr (ri_category i)),
     (''constraints'', ri_constraints i)]
     @ (case ri_merchant i of None \<Rightarrow> [] | Some (m, l) \<Rightarrow> [(''merchantId'', JStr m), (''listingId'', JStr l)]))"

definition readRoutingIntent :: "json \<Rightarrow> routing_intent option" where
  "readRoutingIntent v =
     (if \<not> isRecord v \<or> \<not> hasOnly v [''intentId'', ''category'', ''constraints'', ''merchantId'', ''listingId'']
         \<or> \<not> is_str (field v ''intentId'') (id_pattern 255)
      then None
      else case (normalizeAgentCategory (field v ''category''), field v ''constraints'') of
        (Some category, Some constraints) \<Rightarrow>
          let merchantTargetAbsent = (field v ''merchantId'' = None \<and> field v ''listingId'' = None);
              merchantTargetValid = (is_str (field v ''merchantId'') (id_pattern 127) \<and> is_str (field v ''listingId'') (id_pattern 127))
          in if \<not> isRecord constraints \<or> (\<not> merchantTargetAbsent \<and> \<not> merchantTargetValid)
                \<or> \<not> isJsonCompatible 0 constraints \<or> containsCredentialMaterial 0 constraints
             then None
             else Some \<lparr>ri_intentId = text_of v ''intentId'', ri_category = category, ri_constraints = freezeJsonValue constraints,
                    ri_merchant = (if merchantTargetValid then Some (text_of v ''merchantId'', text_of v ''listingId'') else None)\<rparr>
      | _ \<Rightarrow> None)"

section \<open>Registry and authority\<close>

datatype registration_state = Registered_active | Registered_inactive

record registered_agent =
  ra_agentId :: string
  ra_category :: string
  ra_declaredAttributes :: declared_attributes
  ra_fallbackAgentId :: "string option"
  ra_admissionVerified :: bool
  ra_registrationState :: registration_state

record pinned_authority =
  pa_pinnedAgentId :: string
  pa_fallbackAgentId :: "string option"

definition readPinnedRouteAuthority :: "json \<Rightarrow> pinned_authority option" where
  "readPinnedRouteAuthority v =
     (if \<not> isRecord v \<or> \<not> hasOnly v [''pinnedAgentId'', ''fallbackAgentId'']
         \<or> \<not> is_str (field v ''pinnedAgentId'') (id_pattern 255)
         \<or> (field v ''fallbackAgentId'' \<noteq> Some JNull \<and> \<not> is_str (field v ''fallbackAgentId'') (id_pattern 255))
         \<or> field v ''fallbackAgentId'' = field v ''pinnedAgentId''
      then None
      else Some \<lparr>pa_pinnedAgentId = text_of v ''pinnedAgentId'', pa_fallbackAgentId = as_str (field v ''fallbackAgentId'')\<rparr>)"

text \<open>\<open>Set.add\<close> on a set listed in insertion order.\<close>

definition set_add :: "string \<Rightarrow> string list \<Rightarrow> string list" where
  "set_add x xs = (if x \<in> set xs then xs else xs @ [x])"

fun scan_registry :: "registered_agent list \<Rightarrow> string list \<Rightarrow> string list \<Rightarrow> string list" where
  "scan_registry [] seen conflicts = conflicts"
| "scan_registry (r # rs) seen conflicts =
     (if \<not> isDeclaredAttributes (ra_declaredAttributes r) then scan_registry rs seen (set_add ''malformed-registry-record'' conflicts)
      else scan_registry rs (set_add (ra_agentId r) seen)
             (if ra_agentId r \<in> set seen then set_add (ra_agentId r) conflicts else conflicts))"

definition findRegistryConflict :: "registered_agent list \<Rightarrow> string list option" where
  "findRegistryConflict registry =
     (let conflicts = scan_registry registry [] []
      in if conflicts = [] then None else Some (sort_by (\<lambda>l r. compareText l r \<le> 0) conflicts))"

section \<open>Routing\<close>

datatype no_dispatch_reason = Invalid_intent | Unmatched_category | Registry_conflict

record dispatch_decision =
  dd_intent :: routing_intent
  dd_agentId :: string
  dd_fallbackAgentId :: "string option"
  dd_considered :: "string list"
  dd_deciding :: "(string \<times> declared_attributes) list"

datatype route_decision =
    Dispatch dispatch_decision
  | No_dispatch "string option" "string option" no_dispatch_reason "string list"

definition eligible_agents :: "registered_agent list \<Rightarrow> string \<Rightarrow> registered_agent list" where
  "eligible_agents registry category = sort_by (\<lambda>l r. compareText (ra_agentId l) (ra_agentId r) \<le> 0)
     (filter (\<lambda>r. ra_category r = category) (filter ra_admissionVerified
       (filter (\<lambda>r. ra_registrationState r = Registered_active) registry)))"

definition find_agent :: "string \<Rightarrow> registered_agent list \<Rightarrow> registered_agent option" where
  "find_agent k rs = List.find (\<lambda>r. ra_agentId r = k) rs"

text \<open>The winner among the candidates, and its fallback.\<close>

definition decide_route ::
  "routing_intent \<Rightarrow> registered_agent list \<Rightarrow> selection_policy \<Rightarrow> pinned_authority option \<Rightarrow> route_decision" where
  "decide_route intent candidates policy authority =
     (let none = No_dispatch (Some (ri_intentId intent)) (Some (ri_category intent));
          winners = (case authority of Some p \<Rightarrow> filter (\<lambda>r. ra_agentId r = pa_pinnedAgentId p) candidates | None \<Rightarrow> candidates)
      in if authority \<noteq> None \<and> length winners \<noteq> 1 then none Unmatched_category (map ra_agentId candidates)
         else case selectAgent (map (\<lambda>r. (ra_agentId r, ra_declaredAttributes r)) winners) policy of
             None \<Rightarrow> none Registry_conflict (map ra_agentId candidates)
           | Some s \<Rightarrow>
             (case find_agent (sel_agentId s) candidates of
                None \<Rightarrow> none Registry_conflict (sel_considered s)
              | Some selected \<Rightarrow>
                  let requested = (case authority of Some p \<Rightarrow> pa_fallbackAgentId p | None \<Rightarrow> ra_fallbackAgentId selected)
                  in if authority \<noteq> None \<and> requested \<noteq> None \<and> ra_fallbackAgentId selected \<noteq> requested
                     then none Registry_conflict (sel_considered s)
                     else let fallback = (case requested of None \<Rightarrow> None
                            | Some k \<Rightarrow> if k = '''' then None else find_agent k candidates)
                     in if authority \<noteq> None \<and> requested \<noteq> None \<and> fallback = None
                        then none Registry_conflict (sel_considered s)
                        else Dispatch \<lparr>dd_intent = intent, dd_agentId = ra_agentId selected,
                               dd_fallbackAgentId = map_option ra_agentId fallback,
                               dd_considered = sel_considered s, dd_deciding = sel_deciding s\<rparr>))"

definition routeIntentExclusively ::
  "json \<Rightarrow> registered_agent list \<Rightarrow> selection_policy \<Rightarrow> json option \<Rightarrow> route_decision" where
  "routeIntentExclusively candidate registry policy routingAuthority =
     (case readRoutingIntent candidate of
        None \<Rightarrow> No_dispatch (as_str (field candidate ''intentId'')) None Invalid_intent []
      | Some intent \<Rightarrow>
          let none = No_dispatch (Some (ri_intentId intent)) (Some (ri_category intent));
              authority = Option.bind routingAuthority readPinnedRouteAuthority
          in if routingAuthority \<noteq> None \<and> authority = None then none Registry_conflict []
             else case findRegistryConflict registry of
               Some conflict \<Rightarrow> none Registry_conflict conflict
             | None \<Rightarrow>
                 let candidates = eligible_agents registry (ri_category intent)
                 in if candidates = [] then none Unmatched_category []
                    else decide_route intent candidates policy authority)"

section \<open>Registry conflicts\<close>

abbreviation malformed_record :: "registered_agent \<Rightarrow> bool" where
  "malformed_record r \<equiv> \<not> isDeclaredAttributes (ra_declaredAttributes r)"

definition ids_of :: "registered_agent list \<Rightarrow> string list" where
  "ids_of rs = map ra_agentId (filter (\<lambda>r. \<not> malformed_record r) rs)"

lemma set_set_add [simp]: "set (set_add x xs) = insert x (set xs)"
  by (auto simp: set_add_def)

lemma distinct_set_add [simp]: "distinct (set_add x xs) = distinct xs"
  by (auto simp: set_add_def)

lemma scan_registry_set:
  "set (scan_registry rs seen conflicts) = set conflicts
     \<union> (if list_ex malformed_record rs then {''malformed-registry-record''} else {})
     \<union> {k. k \<in> set (ids_of rs) \<and> (k \<in> set seen \<or> 2 \<le> count (mset (ids_of rs)) k)}"
proof (induction rs seen conflicts rule: scan_registry.induct)
  case (2 r rs seen conflicts)
  have "0 < count (mset (ids_of rs)) k \<longleftrightarrow> k \<in> set (ids_of rs)" for k by (metis count_greater_zero_iff set_mset_mset)
  then have "Suc 0 \<le> count (mset (ids_of rs)) k \<longleftrightarrow> k \<in> set (ids_of rs)" for k by (simp add: Suc_le_eq)
  then show ?case using 2 by (cases "malformed_record r") (auto simp: ids_of_def)
qed (simp add: ids_of_def)

lemma distinct_scan_registry: "distinct conflicts \<Longrightarrow> distinct (scan_registry rs seen conflicts)"
  by (induction rs seen conflicts rule: scan_registry.induct) auto

lemma registry_conflict_order:
  assumes "mset registry' = mset registry"
  shows "findRegistryConflict registry' = findRegistryConflict registry"
proof -
  have ids: "mset (ids_of registry') = mset (ids_of registry)" using assms by (simp add: ids_of_def)
  have "set registry' = set registry" using assms by (metis set_mset_mset)
  then have "list_ex malformed_record registry' = list_ex malformed_record registry" by (simp add: list_ex_iff)
  then have sets: "set (scan_registry registry' [] []) = set (scan_registry registry [] [])"
    using ids mset_eq_setD [OF ids] by (simp add: scan_registry_set)
  then have "sort_by (\<lambda>l r. compareText l r \<le> 0) (scan_registry registry' [] [])
     = sort_by (\<lambda>l r. compareText l r \<le> 0) (scan_registry registry [] [])"
    using distinct_sort_by [where f = "\<lambda>x :: string. x"]
    by (intro sort_text_unique sorted_text) (simp_all add: distinct_scan_registry)
  moreover have "scan_registry registry' [] [] = [] \<longleftrightarrow> scan_registry registry [] [] = []" using sets by (metis set_empty)
  ultimately show ?thesis by (simp add: findRegistryConflict_def)
qed

lemma no_conflict_iff:
  "findRegistryConflict registry = None \<longleftrightarrow>
     list_all (\<lambda>r. isDeclaredAttributes (ra_declaredAttributes r)) registry \<and> distinct (map ra_agentId registry)"
proof -
  have one: "distinct xs \<longleftrightarrow> {k. k \<in> set xs \<and> 2 \<le> count (mset xs) k} = {}" for xs :: "string list"
    by (auto simp: distinct_count_atmost_1 count_mset not_le less_Suc_eq_le split: if_splits)
      (metis One_nat_def Suc_le_eq count_greater_zero_iff count_mset le_antisym not_less_eq_eq numeral_2_eq_2 set_mset_mset)+
  have "findRegistryConflict registry = None \<longleftrightarrow> set (scan_registry registry [] []) = {}"
    by (simp add: findRegistryConflict_def Let_def)
  also have "\<dots> \<longleftrightarrow> \<not> list_ex malformed_record registry \<and> distinct (ids_of registry)"
    unfolding scan_registry_set one by auto
  also have "\<dots> \<longleftrightarrow> list_all (\<lambda>r. isDeclaredAttributes (ra_declaredAttributes r)) registry \<and> distinct (map ra_agentId registry)"
  proof -
    have "filter (\<lambda>r. \<not> malformed_record r) registry = registry" if "\<not> list_ex malformed_record registry"
      using that by (simp add: list_ex_iff filter_id_conv)
    then show ?thesis by (auto simp: ids_of_def list_ex_iff list_all_iff)
  qed
  finally show ?thesis .
qed

section \<open>Candidates\<close>

text \<open>The agents that may serve a category.\<close>

definition serves :: "string \<Rightarrow> registered_agent \<Rightarrow> bool" where
  "serves category r = (ra_registrationState r = Registered_active \<and> ra_admissionVerified r \<and> ra_category r = category)"

lemma set_eligible [simp]: "set (eligible_agents registry category) = {r \<in> set registry. serves category r}"
  by (auto simp: eligible_agents_def serves_def)

lemma eligible_filter:
  "eligible_agents registry category = sort_by (\<lambda>l r. compareText (ra_agentId l) (ra_agentId r) \<le> 0) (filter (serves category) registry)"
  unfolding eligible_agents_def serves_def filter_filter by (simp add: conj_ac)

lemma distinct_eligible:
  "distinct (map ra_agentId registry) \<Longrightarrow> distinct (map ra_agentId (eligible_agents registry category))"
  unfolding eligible_filter distinct_sort_by by (rule distinct_map_filter)

lemma eligible_order:
  assumes "mset registry' = mset registry" "distinct (map ra_agentId registry)"
  shows "eligible_agents registry' category = eligible_agents registry category"
proof -
  have d': "distinct (map ra_agentId registry')" using assms by (metis mset_eq_imp_distinct_iff mset_map)
  have sets: "set registry' = set registry" using assms(1) by (metis set_mset_mset)
  have "map ra_agentId (eligible_agents registry' category) = map ra_agentId (eligible_agents registry category)"
    unfolding eligible_filter
    by (rule sort_keys_unique, intro comparators) (use assms(2) d' sets in \<open>auto intro: distinct_map_filter\<close>)
  moreover have "inj_on ra_agentId (set (eligible_agents registry' category) \<union> set (eligible_agents registry category))"
    using assms(2) sets by (auto simp: distinct_map intro: inj_on_subset)
  ultimately show ?thesis by (metis map_inj_on)
qed

lemma find_agent_Some: "find_agent k rs = Some r \<Longrightarrow> r \<in> set rs \<and> ra_agentId r = k"
  by (auto simp: find_agent_def find_Some_iff)

lemma find_agent_member: "r \<in> set rs \<Longrightarrow> \<exists>r'. find_agent (ra_agentId r) rs = Some r'"
  by (cases "find_agent (ra_agentId r) rs") (auto simp: find_agent_def find_None_iff)


lemma selectAgent_member:
  assumes "selectAgent eligible policy = Some s"
  shows "sel_agentId s \<in> fst ` set eligible"
proof -
  note facts = selectAgent_cases [OF assms]
  let ?xs = "map (\<lambda>c. (c, score (snd c) policy (candidate_ranges (sel_deciding s)))) (sel_deciding s)"
  obtain c rest where c: "sort_by (\<lambda>l r. compareScored l r \<le> 0) ?xs = (c, sel_score s) # rest" "sel_agentId s = fst c"
    using facts(7) by blast
  have "(c, sel_score s) \<in> set (sort_by (\<lambda>l r. compareScored l r \<le> 0) ?xs)" unfolding c(1) by simp
  then have "c \<in> set eligible" using facts(5) by auto
  then show ?thesis using c(2) by simp
qed

lemma selectAgent_considered:
  assumes "selectAgent eligible policy = Some s"
  shows "sel_considered s = map fst (sort_by (\<lambda>l r. compareText (fst l) (fst r) \<le> 0) eligible)"
  using selectAgent_cases(5,6) [OF assms] by simp

lemma sort_by_map: "sort_by le (map f xs) = map f (sort_by (\<lambda>l r. le (f l) (f r)) xs)"
proof -
  have ins: "insert_by le (f x) (map f ys) = map f (insert_by (\<lambda>l r. le (f l) (f r)) x ys)" for x ys
    by (induction ys) auto
  show ?thesis by (induction xs) (simp_all add: ins)
qed

lemma sort_eligible:
  "sort_by (\<lambda>l r. compareText (ra_agentId l) (ra_agentId r) \<le> 0) (eligible_agents registry category) = eligible_agents registry category"
  unfolding eligible_filter by (rule sort_by_id, rule sorted_comparator, intro comparators)

text \<open>Usable candidates with distinct ids are always dispatched to.\<close>

lemma decide_dispatches:
  assumes "readSelectionPolicy (policy_json policy) \<noteq> None" "cs \<noteq> []"
    and "list_all (\<lambda>r. validCandidate (ra_agentId r, ra_declaredAttributes r)) cs" "distinct (map ra_agentId cs)"
  shows "\<exists>d. decide_route i cs policy None = Dispatch d"
proof -
  let ?pairs = "map (\<lambda>r. (ra_agentId r, ra_declaredAttributes r)) cs"
  have "\<forall>c \<in> set ?pairs. validCandidate c" "distinct (map fst ?pairs)"
    using assms(3,4) by (auto simp: list_all_iff comp_def)
  then obtain s where s: "selectAgent ?pairs policy = Some s"
    using selectAgent_complete [OF assms(1)] assms(2) by blast
  then obtain r where "r \<in> set cs" "sel_agentId s = ra_agentId r" using selectAgent_member by force
  then obtain a where "find_agent (sel_agentId s) cs = Some a" using find_agent_member by metis
  then show ?thesis using s by (simp add: decide_route_def Let_def)
qed

section \<open>Dispatches\<close>

text \<open>What a dispatch says of the registry, and what its deciding attributes are.\<close>

lemma dispatch_sound:
  assumes "routeIntentExclusively candidate registry policy routingAuthority = Dispatch d"
  shows "readRoutingIntent candidate = Some (dd_intent d) \<and> distinct (map ra_agentId registry)
    \<and> (\<exists>a \<in> set registry. ra_agentId a = dd_agentId d \<and> serves (ri_category (dd_intent d)) a
         \<and> (\<forall>f. dd_fallbackAgentId d = Some f \<longrightarrow> ra_fallbackAgentId a = Some f
              \<and> (\<exists>b \<in> set registry. ra_agentId b = f \<and> serves (ri_category (dd_intent d)) b)))
    \<and> (\<forall>v. routingAuthority = Some v \<longrightarrow> readPinnedRouteAuthority v = Some
         \<lparr>pa_pinnedAgentId = dd_agentId d, pa_fallbackAgentId = dd_fallbackAgentId d\<rparr>)
    \<and> (routingAuthority = None \<longrightarrow> dd_considered d = map ra_agentId (eligible_agents registry (ri_category (dd_intent d))))"
proof -
  let ?authority = "Option.bind routingAuthority readPinnedRouteAuthority"
  obtain i where i: "readRoutingIntent candidate = Some i" and auth: "routingAuthority = None \<or> ?authority \<noteq> None"
    and conflict: "findRegistryConflict registry = None"
    and decided: "decide_route i (eligible_agents registry (ri_category i)) policy ?authority = Dispatch d"
    using assms by (auto simp: routeIntentExclusively_def Let_def split: option.splits if_splits)
  let ?cs = "eligible_agents registry (ri_category i)"
  obtain s a where a: "find_agent (sel_agentId s) ?cs = Some a" "dd_intent d = i" "dd_agentId d = ra_agentId a"
    and sel: "selectAgent (map (\<lambda>r. (ra_agentId r, ra_declaredAttributes r))
         (case ?authority of Some p \<Rightarrow> filter (\<lambda>r. ra_agentId r = pa_pinnedAgentId p) ?cs | None \<Rightarrow> ?cs)) policy = Some s"
    and considered: "dd_considered d = sel_considered s"
    and fallback: "\<forall>f. dd_fallbackAgentId d = Some f \<longrightarrow> ra_fallbackAgentId a = Some f
              \<and> (\<exists>b. find_agent f ?cs = Some b \<and> ra_agentId b = f)"
    and pinned: "\<forall>p. ?authority = Some p \<longrightarrow> dd_fallbackAgentId d = pa_fallbackAgentId p"
    using decided find_agent_Some
    by (auto simp: decide_route_def Let_def split: option.splits if_splits) blast+
  have a': "a \<in> set registry" "serves (ri_category i) a" "ra_agentId a = sel_agentId s"
    using find_agent_Some [OF a(1)] by simp_all
  have "readPinnedRouteAuthority v = Some \<lparr>pa_pinnedAgentId = dd_agentId d, pa_fallbackAgentId = dd_fallbackAgentId d\<rparr>"
    if v: "routingAuthority = Some v" for v
  proof -
    obtain p where p: "readPinnedRouteAuthority v = Some p" using auth unfolding v by auto
    then have "sel_agentId s = pa_pinnedAgentId p" using selectAgent_member [OF sel] v by auto
    then show ?thesis using p pinned v a a'(3) by simp
  qed
  moreover have "dd_considered d = map ra_agentId ?cs" if "routingAuthority = None"
    using selectAgent_considered [OF sel] that considered by (simp add: sort_by_map sort_eligible comp_def)
  moreover have "\<exists>b \<in> set registry. ra_agentId b = f \<and> serves (ri_category i) b" if f: "dd_fallbackAgentId d = Some f" for f
  proof -
    obtain b where "find_agent f ?cs = Some b" using fallback f by blast
    from find_agent_Some [OF this] show ?thesis by auto
  qed
  moreover have "distinct (map ra_agentId registry)" using conflict no_conflict_iff by blast
  ultimately show ?thesis using i a a' fallback by auto
qed

lemma dispatch_deciding:
  assumes "routeIntentExclusively candidate registry policy routingAuthority = Dispatch d"
  shows "distinct (map fst (dd_deciding d)) \<and> (\<forall>c \<in> set (dd_deciding d). validCandidate c)"
proof -
  obtain eligible s where s: "selectAgent eligible policy = Some s" and d: "dd_deciding d = sel_deciding s"
    using assms by (auto simp: routeIntentExclusively_def decide_route_def Let_def split: option.splits if_splits)
  note facts = selectAgent_cases [OF s]
  show ?thesis using facts(2,3) by (simp add: d facts(5) distinct_sort_by)
qed

section \<open>Claims\<close>

text \<open>
  C15. A dispatch is authorised: the intent was accepted, no agent is registered twice, the chosen agent
  is registered, active, admitted and of the intent's category, the fallback is such an agent too and
  is the one that the chosen agent declares, and a pinned authority decides both.
\<close>

theorem route_dispatch_sound:
  assumes "routeIntentExclusively candidate registry policy routingAuthority = Dispatch d"
  shows "readRoutingIntent candidate = Some (dd_intent d) \<and> distinct (map ra_agentId registry)
    \<and> (\<exists>a \<in> set registry. ra_agentId a = dd_agentId d \<and> serves (ri_category (dd_intent d)) a
         \<and> (\<forall>f. dd_fallbackAgentId d = Some f \<longrightarrow> ra_fallbackAgentId a = Some f
              \<and> (\<exists>b \<in> set registry. ra_agentId b = f \<and> serves (ri_category (dd_intent d)) b)))
    \<and> (\<forall>v. routingAuthority = Some v \<longrightarrow> readPinnedRouteAuthority v = Some
         \<lparr>pa_pinnedAgentId = dd_agentId d, pa_fallbackAgentId = dd_fallbackAgentId d\<rparr>)
    \<and> (routingAuthority = None \<longrightarrow> dd_considered d = map ra_agentId (eligible_agents registry (ri_category (dd_intent d))))"
  using assms by (rule dispatch_sound)

text \<open>
  The decision does not depend on the order in which the registry lists the agents.
\<close>

theorem route_order_independent:
  assumes "mset registry' = mset registry"
  shows "routeIntentExclusively candidate registry' policy routingAuthority = routeIntentExclusively candidate registry policy routingAuthority"
proof (cases "findRegistryConflict registry")
  case None
  then have "eligible_agents registry' category = eligible_agents registry category" for category
    using eligible_order [OF assms] no_conflict_iff by blast
  then show ?thesis unfolding routeIntentExclusively_def registry_conflict_order [OF assms]
    by (cases "Option.bind routingAuthority readPinnedRouteAuthority"; auto simp: None Let_def split: option.split)
next
  case (Some conflict)
  then show ?thesis unfolding routeIntentExclusively_def registry_conflict_order [OF assms]
    by (cases "Option.bind routingAuthority readPinnedRouteAuthority"; auto simp: Let_def split: option.split)
qed

text \<open>
  A servable intent is dispatched: when the intent is accepted, the registry lists no agent twice
  and no malformed record, the policy is valid, nothing is pinned, some agent serves the category and
  all such agents have ids of the router's pattern, then the route is a dispatch.
\<close>

theorem route_dispatches:
  assumes "readRoutingIntent candidate = Some i" "readSelectionPolicy (policy_json policy) \<noteq> None"
    and registry: "list_all (\<lambda>r. isDeclaredAttributes (ra_declaredAttributes r)) registry" "distinct (map ra_agentId registry)"
    and some: "list_ex (serves (ri_category i)) registry"
    and ids: "list_all (\<lambda>r. serves (ri_category i) r \<longrightarrow> id_pattern 255 (ra_agentId r)) registry"
  shows "\<exists>d. routeIntentExclusively candidate registry policy None = Dispatch d"
proof -
  let ?cs = "eligible_agents registry (ri_category i)"
  have ne: "?cs \<noteq> []" using some by (auto simp: list_ex_iff simp flip: set_empty)
  have "list_all (\<lambda>r. validCandidate (ra_agentId r, ra_declaredAttributes r)) ?cs"
    using ids registry(1) by (auto simp: list_all_iff validCandidate_def)
  then have "\<exists>d. decide_route i ?cs policy None = Dispatch d"
    using decide_dispatches [OF assms(2) ne] distinct_eligible [OF registry(2)] by blast
  then show ?thesis
    using assms(1) no_conflict_iff [of registry] registry ne by (simp add: routeIntentExclusively_def Let_def)
qed

text \<open>
  Reading an intent is idempotent: an accepted intent, written out again, is read back unchanged,
  with its normalized category and its frozen constraints.
\<close>

lemma isJsonCompatible_freeze: "isJsonCompatible n (freezeJsonValue v) = isJsonCompatible n v"
  by (induction v arbitrary: n rule: json_induct) (auto simp: list_all_iff)

lemma containsCredentialMaterial_freeze: "containsCredentialMaterial n (freezeJsonValue v) = containsCredentialMaterial n v"
  by (induction v arbitrary: n rule: json_induct) (auto simp: list_ex_iff)

lemma freezeJsonValue_idem: "freezeJsonValue (freezeJsonValue v) = freezeJsonValue v"
proof (induction v rule: json_induct)
  case (Obj kvs)
  let ?le = "\<lambda>l r :: string \<times> json. compareText (fst l) (fst r) \<le> 0"
  let ?f = "map (\<lambda>kv. (fst kv, freezeJsonValue (snd kv)))"
  have "comparator (\<lambda>l r :: string \<times> json. compareText (fst l) (fst r))" by (intro comparators)
  then have sorted: "sort_by ?le (sort_by ?le xs) = sort_by ?le xs" for xs
    by (rule sort_by_id [OF sorted_comparator])
  have "freezeJsonValue (snd kv) = snd kv" if "kv \<in> set (?f kvs)" for kv using that Obj by auto
  then have "?f (sort_by ?le (?f kvs)) = sort_by ?le (?f kvs)" by (intro map_idI) (simp add: prod_eq_iff del: set_map)
  then show ?case by (simp only: freezeJsonValue.simps sorted)
next
  case (Arr vs)
  then show ?case by simp
qed simp_all

lemma category_pattern_normal:
  assumes "category_pattern s"
  shows "normalizeAgentCategory (Some (JStr s)) = Some s"
proof -
  have chars: "\<forall>c \<in> set s. category_tail c" and ne: "s \<noteq> []"
    using assms by (auto simp: category_pattern_def head_tail_def category_tail_def list_all_iff split: list.splits)
  have "list_all (\<lambda>c. \<not> js_space c \<and> lower_char c = c) (lowers @ digits @ ''._-'')" by code_simp
  then have fine: "\<not> js_space c \<and> lower_char c = c" if "category_tail c" for c
    using that by (auto simp: category_tail_def list_all_iff is_lower_def is_digit_def simp del: insert_iff)
  have drop: "dropWhile js_space xs = xs" if "\<forall>c \<in> set xs. category_tail c" for xs
    using that fine by (cases xs) auto
  have "js_trim s = s" using chars by (simp add: js_trim_def drop)
  moreover have "map lower_char s = s" by (rule map_idI) (use chars fine in blast)
  ultimately show ?thesis using assms by (simp add: normalizeAgentCategory_def as_str.simps)
qed

lemma freeze_record: "isRecord (freezeJsonValue v) = isRecord v"
  by (cases v) simp_all

text \<open>The intent that is read from a storable value is storable.\<close>

lemma storable_freeze: "storable v \<Longrightarrow> storable (freezeJsonValue v)"
proof (induction v rule: json_induct)
  case (Arr vs)
  then show ?case by (auto simp: storable_JArr)
next
  case (Obj kvs)
  then show ?case
    by (auto simp: storable_JObj distinct_sort_by comp_def simp del: storable.simps)
qed simp_all

lemma storable_intent:
  assumes "readRoutingIntent v = Some i" "storable v"
  shows "storable (intent_json i)"
proof -
  obtain constraints where c: "field v ''constraints'' = Some constraints" "ri_constraints i = freezeJsonValue constraints"
    using assms(1) by (auto simp: readRoutingIntent_def Let_def split: option.splits if_splits)
  obtain kvs where "v = JObj kvs" using c(1) by (cases v) auto
  then have "storable constraints" using storable_lookup assms(2) c(1) by (metis field.simps(1))
  then show ?thesis using storable_freeze by (auto simp: intent_json_def c(2) storable_JObj split: option.splits)
qed

theorem intent_roundtrip:
  assumes "readRoutingIntent v = Some i"
  shows "readRoutingIntent (intent_json i) = Some i"
proof -
  obtain category constraints where c: "normalizeAgentCategory (field v ''category'') = Some category"
      "field v ''constraints'' = Some constraints" "isRecord constraints" "isJsonCompatible 0 constraints"
      "\<not> containsCredentialMaterial 0 constraints" "ri_category i = category" "ri_constraints i = freezeJsonValue constraints"
    and ids: "is_str (field v ''intentId'') (id_pattern 255)" "ri_intentId i = text_of v ''intentId''"
      "ri_merchant i = (if is_str (field v ''merchantId'') (id_pattern 127) \<and> is_str (field v ''listingId'') (id_pattern 127)
         then Some (text_of v ''merchantId'', text_of v ''listingId'') else None)"
    using assms by (auto simp: readRoutingIntent_def Let_def split: option.splits if_splits)
  have "category_pattern category"
    using c(1) by (auto simp: normalizeAgentCategory_def Let_def split: option.splits if_splits)
  note fine = category_pattern_normal [OF this] freezeJsonValue_idem isJsonCompatible_freeze containsCredentialMaterial_freeze freeze_record
  note idp = text_of_is_str [OF ids(1)]
  have out: "field (intent_json i) ''intentId'' = Some (JStr (ri_intentId i))" "field (intent_json i) ''category'' = Some (JStr category)"
      "field (intent_json i) ''constraints'' = Some (freezeJsonValue constraints)" "isRecord (intent_json i)"
      "hasOnly (intent_json i) [''intentId'', ''category'', ''constraints'', ''merchantId'', ''listingId'']"
      "field (intent_json i) ''merchantId'' = map_option (JStr \<circ> fst) (ri_merchant i)"
      "field (intent_json i) ''listingId'' = map_option (JStr \<circ> snd) (ri_merchant i)"
    using c(6,7) by (auto simp: intent_json_def hasOnly_def split: option.split)
  have merchant: "ri_merchant i = None \<or> (\<exists>m l. ri_merchant i = Some (m, l) \<and> id_pattern 127 m \<and> id_pattern 127 l)"
    using ids(3) text_of_is_str by auto
  have same: "i = \<lparr>ri_intentId = ri_intentId i, ri_category = category, ri_constraints = freezeJsonValue constraints,
      ri_merchant = ri_merchant i\<rparr>"
    using c(6,7) by simp
  have ok: "is_str (Some (JStr (ri_intentId i))) (id_pattern 255)" "text_of (intent_json i) ''intentId'' = ri_intentId i"
    using idp ids(2) by (simp, simp add: text_of_def out)
  show ?thesis
    unfolding readRoutingIntent_def out fine option.case prod.case Let_def
    using merchant c(3-5) ok same
    by (elim disjE exE conjE) (simp_all add: fine text_of_def out is_str_def)
qed

text \<open>
  One unusable id blocks its category: the registry admits an agent whatever its non-empty id is, but
  the selection accepts ids of the router's pattern only, so an admitted active agent \<open>a/b\<close> alone turns
  every intent of its category into a registry conflict, although another agent could serve it.
\<close>

definition sample_intent :: json where
  "sample_intent = JObj [(''intentId'', JStr ''intent-1''), (''category'', JStr '' Coffee ''),
     (''constraints'', JObj [(''size'', JStr ''L''), (''budget'', JNum (Integer 500))])]"

definition sample_agent :: "string \<Rightarrow> string option \<Rightarrow> registered_agent" where
  "sample_agent agentId fallbackAgentId = \<lparr>ra_agentId = agentId, ra_category = ''coffee'',
     ra_declaredAttributes = \<lparr>da_priceMinor = Integer 100, da_qualityScore = Integer 9, da_latencyMs = Integer 10\<rparr>,
     ra_fallbackAgentId = fallbackAgentId, ra_admissionVerified = True, ra_registrationState = Registered_active\<rparr>"

theorem unusable_id_blocks_category:
  "routeIntentExclusively sample_intent [sample_agent ''a/b'' None, sample_agent ''agent-1'' None] DEFAULT_SELECTION_POLICY None
     = No_dispatch (Some ''intent-1'') (Some ''coffee'') Registry_conflict [''a/b'', ''agent-1'']"
  by code_simp

definition sample_registry :: "registered_agent list" where
  "sample_registry = [sample_agent ''agent-2'' (Some ''agent-1''), sample_agent ''agent-1'' (Some ''agent-2'')]"

lemma sample_registry_facts:
  "list_all (\<lambda>r. isDeclaredAttributes (ra_declaredAttributes r)) sample_registry"
  "distinct (map ra_agentId sample_registry)"
  "list_ex (serves ''coffee'') sample_registry"
  "list_all (\<lambda>r. serves ''coffee'' r \<longrightarrow> id_pattern 255 (ra_agentId r)) sample_registry"
  by code_simp+

lemma sample_intent_read: "map_option ri_category (readRoutingIntent sample_intent) = Some ''coffee''"
  by code_simp

theorem route_dispatches_witness:
  "\<exists>d. routeIntentExclusively sample_intent sample_registry DEFAULT_SELECTION_POLICY None = Dispatch d"
proof -
  obtain i where i: "readRoutingIntent sample_intent = Some i" "ri_category i = ''coffee''" using sample_intent_read by auto
  show ?thesis
    by (rule route_dispatches [OF i(1) default_policy(1)]) (simp_all only: i(2) sample_registry_facts)
qed

theorem route_order_independent_witness:
  "routeIntentExclusively sample_intent (rev sample_registry) DEFAULT_SELECTION_POLICY None
     = routeIntentExclusively sample_intent sample_registry DEFAULT_SELECTION_POLICY None"
  by (rule route_order_independent) simp

theorem intent_roundtrip_witness:
  "\<exists>i. readRoutingIntent sample_intent = Some i \<and> readRoutingIntent (intent_json i) = Some i"
proof -
  obtain i where i: "readRoutingIntent sample_intent = Some i" using sample_intent_read by auto
  from intent_roundtrip [OF this] i show ?thesis by blast
qed

lemma sample_route:
  "\<exists>d. routeIntentExclusively sample_intent sample_registry DEFAULT_SELECTION_POLICY None = Dispatch d"
proof -
  obtain i where i: "readRoutingIntent sample_intent = Some i" "ri_category i = ''coffee''" using sample_intent_read by auto
  let ?cs = "eligible_agents sample_registry ''coffee''"
  have cs: "?cs = [sample_agent ''agent-1'' (Some ''agent-2''), sample_agent ''agent-2'' (Some ''agent-1'')]" by code_simp
  have "list_all (\<lambda>r. validCandidate (ra_agentId r, ra_declaredAttributes r)) ?cs" "distinct (map ra_agentId ?cs)" "?cs \<noteq> []"
    unfolding cs by code_simp+
  then have "\<exists>d. decide_route i ?cs DEFAULT_SELECTION_POLICY None = Dispatch d"
    using decide_dispatches [OF default_policy(1)] by blast
  moreover have "?cs \<noteq> []" unfolding cs by simp
  moreover have "findRegistryConflict sample_registry = None" unfolding no_conflict_iff using sample_registry_facts(1,2) by blast
  ultimately show ?thesis using i by (simp add: routeIntentExclusively_def Let_def)
qed

theorem route_dispatch_sound_witness:
  "\<exists>d. routeIntentExclusively sample_intent sample_registry DEFAULT_SELECTION_POLICY None = Dispatch d
     \<and> dd_considered d = map ra_agentId (eligible_agents sample_registry (ri_category (dd_intent d)))"
proof -
  obtain d where d: "routeIntentExclusively sample_intent sample_registry DEFAULT_SELECTION_POLICY None = Dispatch d"
    using sample_route by blast
  from route_dispatch_sound [OF d] d show ?thesis by blast
qed

end
