(* ===== verification/Intent_Route.thy ===== *)
theory Intent_Route imports Mcp_Provider Discovery_Receipt Exclusive_Router begin

text \<open>
  \<open>src/src/core/intent-route.ts\<close>: the object of one intent. It asks the selected agent for offers, and its
  fallback only when the selected one timed out, and keeps the outcome, which every later request for
  the intent is answered with. The object is single threaded, but while an agent is asked other requests
  run; the model splits \<open>dispatch\<close> where it waits.
\<close>

section \<open>Attempts\<close>

datatype attempt_role = Selected_role | Fallback_role
datatype attempt_outcome = Attempt_completed | Attempt_timeout | Attempt_failed

fun role_text :: "attempt_role \<Rightarrow> string" where
  "role_text Selected_role = ''selected''"
| "role_text Fallback_role = ''fallback''"

fun outcome_text :: "attempt_outcome \<Rightarrow> string" where
  "outcome_text Attempt_completed = ''completed''"
| "outcome_text Attempt_timeout = ''timeout''"
| "outcome_text Attempt_failed = ''failed''"

record dispatch_attempt =
  at_agentId :: string
  at_role :: attempt_role
  at_outcome :: attempt_outcome
  at_startedAt :: string
  at_completedAt :: string

definition attempt_json :: "dispatch_attempt \<Rightarrow> json" where
  "attempt_json a = JObj [(''agentId'', JStr (at_agentId a)), (''role'', JStr (role_text (at_role a))),
     (''outcome'', JStr (outcome_text (at_outcome a))), (''startedAt'', JStr (at_startedAt a)), (''completedAt'', JStr (at_completedAt a))]"

datatype agent_dispatch =
    Dispatched json dispatch_attempt
  | Undispatched string dispatch_attempt

datatype sequence_result =
    Sequence_ok json "dispatch_attempt list"
  | Sequence_failed string string "dispatch_attempt list" \<comment> \<open>code, agent and attempts\<close>

text \<open>The selected agent, then the fallback if the selected one timed out; each runs over a state.\<close>

definition dispatchSelectedWithFallback ::
  "('s \<Rightarrow> agent_dispatch \<times> 's) \<Rightarrow> ('s \<Rightarrow> agent_dispatch \<times> 's) option \<Rightarrow> 's \<Rightarrow> sequence_result \<times> 's" where
  "dispatchSelectedWithFallback selected fallback s =
     (case selected s of
        (Dispatched result a, s1) \<Rightarrow> (Sequence_ok result [a], s1)
      | (Undispatched code a, s1) \<Rightarrow>
          if at_outcome a \<noteq> Attempt_timeout then (Sequence_failed code (at_agentId a) [a], s1)
          else (case fallback of
             None \<Rightarrow> (Sequence_failed ''dispatch_exhausted'' (at_agentId a) [a], s1)
           | Some f \<Rightarrow> (case f s1 of
               (Dispatched result b, s2) \<Rightarrow> (Sequence_ok result [a, b], s2)
             | (Undispatched _ b, s2) \<Rightarrow> (Sequence_failed ''dispatch_exhausted'' (at_agentId b) [a, b], s2))))"

section \<open>Asking an agent\<close>

record dispatch_input =
  di_intent :: routing_intent
  di_agent :: json
  di_fallbackAgent :: "json option"

definition dispatch_input_json :: "dispatch_input \<Rightarrow> json" where
  "dispatch_input_json i = JObj [(''intent'', intent_json (di_intent i)), (''agent'', di_agent i),
     (''fallbackAgent'', case di_fallbackAgent i of Some a \<Rightarrow> a | None \<Rightarrow> JNull)]"

definition agent_id :: "json \<Rightarrow> string" where "agent_id a = text_of a ''agentId''"

text \<open>The outside world while an agent is asked, with the time before and after.\<close>

record route_env =
  re_evidence :: provider \<comment> \<open>the discovery provider, asked for its evidence\<close>
  re_discoveryPinJson :: string
  re_network :: network
  re_bearerToken :: string
  re_checkoutPinJson :: string
  re_aborted :: "thrown option" \<comment> \<open>why the signal was aborted, if it was\<close>
  re_startedAt :: string
  re_completedAt :: string

definition classifyProviderFailure :: "thrown \<Rightarrow> string" where
  "classifyProviderFailure e =
     (let message = (case e of Js_error name text \<Rightarrow> map lower_char (name @ '':'' @ text) | Js_other \<Rightarrow> '''')
      in if text_includes ''timeout'' message \<or> text_includes ''abort'' message then ''discovery_timeout''
         else if text_includes ''provider_evidence'' message then ''discovery_provider_evidence_blocked''
         else if text_includes ''tool'' message then ''discovery_tool_failed''
         else if text_includes ''mcp'' message then ''discovery_mcp_failed''
         else ''discovery_result_unknown'')"

definition tool_arguments :: "routing_intent \<Rightarrow> string \<Rightarrow> json \<Rightarrow> attempt_role \<Rightarrow> json" where
  "tool_arguments intent intentDigest agent role =
     JObj (put_entry ''commerceContext'' (JObj [
         (''contract'', JStr ''commerce.discovery-dispatch/v1''), (''intentId'', JStr (ri_intentId intent)),
         (''intentDigest'', JStr intentDigest), (''agentId'', JStr (agent_id agent)), (''category'', JStr (ri_category intent)),
         (''idempotencyKey'', JStr (''intent:'' @ ri_intentId intent @ '':'' @ role_text role))])
       (case ri_constraints intent of JObj kvs \<Rightarrow> kvs | _ \<Rightarrow> []))"

text \<open>The offers, or what the body of the \<open>try\<close> throws; the requests sent to the provider are threaded.\<close>

definition ask_agent ::
  "route_env \<Rightarrow> routing_intent \<Rightarrow> string \<Rightarrow> json \<Rightarrow> attempt_role \<Rightarrow> request list \<Rightarrow> (thrown + json) \<times> request list" where
  "ask_agent env intent intentDigest agent role sent =
     (case discoveryOperationalEvidence (re_evidence env) (re_discoveryPinJson env) of
        Inl code \<Rightarrow> (Inl (error_of (''discovery_'' @ gate_code code)), sent)
      | Inr permit \<Rightarrow>
          (case callMcpTool (re_network env) (re_bearerToken env) (text_of agent ''discoveryTool'')
              (tool_arguments intent intentDigest agent role) (Some permit) sent of
             (Inl e, sent') \<Rightarrow> (Inl e, sent')
           | (Inr payload, sent') \<Rightarrow>
               (case normalizeDiscoveryReceipt payload (ri_intentId intent) intentDigest (agent_id agent) of
                  Inl e \<Rightarrow> (Inl e, sent')
                | Inr offers \<Rightarrow>
                    (case readUpstreamEvidencePin (re_checkoutPinJson env) of
                       None \<Rightarrow> (Inl (error_of ''discovery_provider_revision_mismatch''), sent')
                     | Some pin \<Rightarrow>
                         if list_ex (\<lambda>r. df_providerRevision r \<noteq> ep_sourceRevision pin) offers
                         then (Inl (error_of ''discovery_provider_revision_mismatch''), sent')
                         else (case re_aborted env of Some reason \<Rightarrow> (Inl reason, sent')
                           | None \<Rightarrow> (Inr (receipt_json offers), sent'))))))"

definition dispatchAgent ::
  "route_env \<Rightarrow> routing_intent \<Rightarrow> string \<Rightarrow> json \<Rightarrow> attempt_role \<Rightarrow> request list \<Rightarrow> agent_dispatch \<times> request list" where
  "dispatchAgent env intent intentDigest agent role sent =
     (let attempt = (\<lambda>outcome. \<lparr>at_agentId = agent_id agent, at_role = role, at_outcome = outcome,
            at_startedAt = re_startedAt env, at_completedAt = re_completedAt env\<rparr>)
      in case ask_agent env intent intentDigest agent role sent of
           (Inr result, sent') \<Rightarrow> (Dispatched result (attempt Attempt_completed), sent')
         | (Inl e, sent') \<Rightarrow> (let code = classifyProviderFailure e in
             (Undispatched code (attempt (if code = ''discovery_timeout'' then Attempt_timeout else Attempt_failed)), sent')))"

section \<open>The stored dispatch\<close>

datatype dispatch_state = Dispatching | Dispatch_completed | Dispatch_unknown

fun dispatch_state_text :: "dispatch_state \<Rightarrow> string" where
  "dispatch_state_text Dispatching = ''dispatching''"
| "dispatch_state_text Dispatch_completed = ''completed''"
| "dispatch_state_text Dispatch_unknown = ''unknown''"

record stored_dispatch =
  sd_request_digest :: string
  sd_intent_id :: string
  sd_agent_id :: string
  sd_fallback_agent_id :: "string option"
  sd_discovery_tool :: string
  sd_state :: dispatch_state
  sd_response_json :: "string option"
  sd_attempts_json :: "string option"
  sd_failure_code :: "string option"
  sd_started_at :: string
  sd_completed_at :: "string option"

definition readAttempts :: "string option \<Rightarrow> json list" where
  "readAttempts v = (case v of None \<Rightarrow> [] | Some s \<Rightarrow> if s = '''' then []
     else (case parse_column s of JArr attempts \<Rightarrow> attempts | _ \<Rightarrow> []))"

datatype dispatch_response =
    Dispatch_rejected string
  | Dispatch_answered bool string "string option" "json list" json \<comment> \<open>idempotent, intent, agent, attempts, result\<close>
  | Dispatch_failed dispatch_state string string string "json list" \<comment> \<open>state, code, intent, agent, attempts\<close>

definition priorDispatchResult :: "stored_dispatch \<Rightarrow> string \<Rightarrow> dispatch_response" where
  "priorDispatchResult prior requestDigest =
     (if sd_request_digest prior \<noteq> requestDigest then Dispatch_rejected ''intent_dispatch_precondition_failed''
      else case sd_response_json prior of
        Some s \<Rightarrow> if sd_state prior = Dispatch_completed \<and> s \<noteq> ''''
          then Dispatch_answered True (sd_intent_id prior) (Some (sd_agent_id prior)) (readAttempts (sd_attempts_json prior)) (parse_column s)
          else Dispatch_failed (sd_state prior) (case sd_failure_code prior of Some c \<Rightarrow> c | None \<Rightarrow> ''dispatch_result_unknown'')
            (sd_intent_id prior) (sd_agent_id prior) (readAttempts (sd_attempts_json prior))
      | None \<Rightarrow> Dispatch_failed (sd_state prior) (case sd_failure_code prior of Some c \<Rightarrow> c | None \<Rightarrow> ''dispatch_result_unknown'')
            (sd_intent_id prior) (sd_agent_id prior) (readAttempts (sd_attempts_json prior)))"

text \<open>An execution of \<open>dispatch\<close> that waits for an agent.\<close>

record running_dispatch =
  rn_input :: dispatch_input
  rn_role :: attempt_role
  rn_attempts :: "dispatch_attempt list"

text \<open>The object: its row, the executions that wait, and the agents asked so far.\<close>

record route_object =
  ro_row :: "stored_dispatch option"
  ro_running :: "running_dispatch list"
  ro_asked :: "(attempt_role \<times> json) list"

definition new_object :: route_object where
  "new_object = \<lparr>ro_row = None, ro_running = [], ro_asked = []\<rparr>"

definition request_digest :: "dispatch_input \<Rightarrow> string" where
  "request_digest i = sha256Hex (canonicalJson (dispatch_input_json i))"

definition intent_digest :: "dispatch_input \<Rightarrow> string" where
  "intent_digest i = sha256Hex (canonicalJson (intent_json (di_intent i)))"

definition opened_row :: "dispatch_input \<Rightarrow> string \<Rightarrow> stored_dispatch" where
  "opened_row i startedAt = \<lparr>sd_request_digest = request_digest i, sd_intent_id = ri_intentId (di_intent i),
     sd_agent_id = agent_id (di_agent i), sd_fallback_agent_id = map_option agent_id (di_fallbackAgent i),
     sd_discovery_tool = text_of (di_agent i) ''discoveryTool'', sd_state = Dispatching, sd_response_json = None,
     sd_attempts_json = Some ''[]'', sd_failure_code = None, sd_started_at = startedAt, sd_completed_at = None\<rparr>"

text \<open>\<open>dispatch\<close> up to its first wait: an answer, or the selected agent is being asked.\<close>

definition dispatch_begin :: "dispatch_input \<Rightarrow> string \<Rightarrow> route_object \<Rightarrow> dispatch_response option \<times> route_object" where
  "dispatch_begin i startedAt obj =
     (case ro_row obj of
        Some prior \<Rightarrow> (Some (priorDispatchResult prior (request_digest i)), obj)
      | None \<Rightarrow> (None, obj\<lparr>ro_row := Some (opened_row i startedAt),
          ro_running := ro_running obj @ [\<lparr>rn_input = i, rn_role = Selected_role, rn_attempts = []\<rparr>],
          ro_asked := ro_asked obj @ [(Selected_role, di_agent i)]\<rparr>))"

definition attempts_text :: "dispatch_attempt list \<Rightarrow> string" where
  "attempts_text attempts = canonicalJson (JArr (map attempt_json attempts))"

text \<open>An update \<open>WHERE singleton = 1 AND state = 'dispatching'\<close>.\<close>

definition update_dispatching :: "(stored_dispatch \<Rightarrow> stored_dispatch) \<Rightarrow> route_object \<Rightarrow> route_object" where
  "update_dispatching f obj = obj\<lparr>ro_row := map_option (\<lambda>r. if sd_state r = Dispatching then f r else r) (ro_row obj)\<rparr>"

definition last_agent :: "dispatch_attempt list \<Rightarrow> string option" where
  "last_agent attempts = (if attempts = [] then None else Some (at_agentId (last attempts)))"

definition complete_dispatch ::
  "string \<Rightarrow> json \<Rightarrow> dispatch_attempt list \<Rightarrow> string \<Rightarrow> route_object \<Rightarrow> dispatch_response \<times> route_object" where
  "complete_dispatch intentId result attempts now obj =
     (Dispatch_answered False intentId (last_agent attempts) (map attempt_json attempts) result,
      update_dispatching (\<lambda>r. r\<lparr>sd_state := Dispatch_completed,
        sd_agent_id := (case last_agent attempts of Some a \<Rightarrow> a | None \<Rightarrow> ''''),
        sd_response_json := Some (canonicalJson result), sd_attempts_json := Some (attempts_text attempts),
        sd_completed_at := Some now\<rparr>) obj)"

definition fail_dispatch ::
  "string \<Rightarrow> string \<Rightarrow> string \<Rightarrow> dispatch_attempt list \<Rightarrow> string \<Rightarrow> route_object \<Rightarrow> dispatch_response \<times> route_object" where
  "fail_dispatch intentId agentId code attempts now obj =
     (Dispatch_failed Dispatch_unknown code intentId agentId (map attempt_json attempts),
      update_dispatching (\<lambda>r. r\<lparr>sd_state := Dispatch_unknown, sd_agent_id := agentId,
        sd_attempts_json := Some (attempts_text attempts), sd_failure_code := Some code, sd_completed_at := Some now\<rparr>) obj)"

definition finish_dispatch :: "string \<Rightarrow> sequence_result \<Rightarrow> string \<Rightarrow> route_object \<Rightarrow> dispatch_response \<times> route_object" where
  "finish_dispatch intentId dispatched now obj =
     (case dispatched of
        Sequence_ok result attempts \<Rightarrow> complete_dispatch intentId result attempts now obj
      | Sequence_failed code agentId attempts \<Rightarrow> fail_dispatch intentId agentId code attempts now obj)"

text \<open>
  The agent that execution \<open>k\<close> waits for has answered: the execution goes on to the fallback, or ends
  with an answer.
\<close>

definition after_reply :: "running_dispatch \<Rightarrow> agent_dispatch \<Rightarrow> running_dispatch + sequence_result" where
  "after_reply rn reply =
     (case reply of
        Dispatched result a \<Rightarrow> Inr (Sequence_ok result (rn_attempts rn @ [a]))
      | Undispatched code a \<Rightarrow>
          (if rn_role rn = Fallback_role then Inr (Sequence_failed ''dispatch_exhausted'' (at_agentId a) (rn_attempts rn @ [a]))
           else if at_outcome a \<noteq> Attempt_timeout then Inr (Sequence_failed code (at_agentId a) (rn_attempts rn @ [a]))
           else if di_fallbackAgent (rn_input rn) = None
           then Inr (Sequence_failed ''dispatch_exhausted'' (at_agentId a) (rn_attempts rn @ [a]))
           else Inl (rn\<lparr>rn_role := Fallback_role, rn_attempts := rn_attempts rn @ [a]\<rparr>)))"

definition dispatch_reply :: "nat \<Rightarrow> agent_dispatch \<Rightarrow> string \<Rightarrow> route_object \<Rightarrow> dispatch_response option \<times> route_object" where
  "dispatch_reply k reply now obj =
     (let rn = ro_running obj ! k; others = take k (ro_running obj) @ drop (Suc k) (ro_running obj)
      in case after_reply rn reply of
           Inl rn' \<Rightarrow> (None, obj\<lparr>ro_running := (ro_running obj)[k := rn'],
             ro_asked := ro_asked obj @ [(Fallback_role, the (di_fallbackAgent (rn_input rn)))]\<rparr>)
         | Inr dispatched \<Rightarrow>
             (case finish_dispatch (ri_intentId (di_intent (rn_input rn))) dispatched now (obj\<lparr>ro_running := others\<rparr>) of
                (response', obj') \<Rightarrow> (Some response', obj')))"

text \<open>\<open>dispatch\<close> without another request in between: what the source writes in one function.\<close>

definition dispatch ::
  "route_env \<Rightarrow> route_env \<Rightarrow> string \<Rightarrow> string \<Rightarrow> dispatch_input \<Rightarrow> request list \<Rightarrow> route_object \<Rightarrow>
     dispatch_response \<times> request list \<times> route_object" where
  "dispatch selectedEnv fallbackEnv startedAt completedAt i sent obj =
     (case ro_row obj of
        Some prior \<Rightarrow> (priorDispatchResult prior (request_digest i), sent, obj)
      | None \<Rightarrow>
          (case dispatchSelectedWithFallback
              (dispatchAgent selectedEnv (di_intent i) (intent_digest i) (di_agent i) Selected_role)
              (map_option (\<lambda>f. dispatchAgent fallbackEnv (di_intent i) (intent_digest i) f Fallback_role) (di_fallbackAgent i)) sent of
             (dispatched, sent') \<Rightarrow>
               (case finish_dispatch (ri_intentId (di_intent i)) dispatched completedAt (obj\<lparr>ro_row := Some (opened_row i startedAt)\<rparr>) of
                  (response', obj') \<Rightarrow> (response', sent', obj'))))"

datatype route_status =
    Route_missing
  | Route_status dispatch_state string string "string option" "string option" "json list" "json option"

definition route_status :: "route_object \<Rightarrow> route_status" where
  "route_status obj =
     (case ro_row obj of
        None \<Rightarrow> Route_missing
      | Some r \<Rightarrow> Route_status (sd_state r) (sd_intent_id r) (sd_agent_id r) (sd_fallback_agent_id r) (sd_failure_code r)
          (readAttempts (sd_attempts_json r))
          (case sd_response_json r of Some s \<Rightarrow> if s = '''' then None else Some (parse_column s) | None \<Rightarrow> None))"

section \<open>What an agent's answer is\<close>

definition failure_codes :: "string list" where
  "failure_codes = [''discovery_timeout'', ''discovery_provider_evidence_blocked'', ''discovery_tool_failed'', ''discovery_mcp_failed'',
     ''discovery_result_unknown'']"

lemma classify_codes: "classifyProviderFailure e \<in> set failure_codes"
  by (simp add: classifyProviderFailure_def failure_codes_def Let_def)

text \<open>Offers that are bound to an intent and to the agent that was asked.\<close>

definition bound_offers :: "dispatch_input \<Rightarrow> string \<Rightarrow> discovery_offer list \<Rightarrow> bool" where
  "bound_offers i agentId offers = (offers \<noteq> [] \<and> list_all (\<lambda>r. offer_ok r \<and> df_intentId r = ri_intentId (di_intent i)
     \<and> df_intentDigest r = intent_digest i \<and> df_agentId r = agentId) offers
     \<and> length offers \<le> 100 \<and> distinct (map offer_key offers))"

definition waiting_agent :: "running_dispatch \<Rightarrow> json" where
  "waiting_agent rn = (case rn_role rn of Selected_role \<Rightarrow> di_agent (rn_input rn) | Fallback_role \<Rightarrow> the (di_fallbackAgent (rn_input rn)))"

definition agent_reply :: "route_env \<Rightarrow> request list \<Rightarrow> running_dispatch \<Rightarrow> agent_dispatch" where
  "agent_reply env sent rn =
     fst (dispatchAgent env (di_intent (rn_input rn)) (intent_digest (rn_input rn)) (waiting_agent rn) (rn_role rn) sent)"

lemma ask_agent_offers:
  assumes "ask_agent env (di_intent i) (intent_digest i) agent role sent = (Inr result, sent')"
  shows "\<exists>offers. result = receipt_json offers \<and> bound_offers i (agent_id agent) offers"
proof -
  obtain payload offers where o: "normalizeDiscoveryReceipt payload (ri_intentId (di_intent i)) (intent_digest i) (agent_id agent) = Inr offers"
    "result = receipt_json offers"
    using assms by (auto simp: ask_agent_def split: sum.splits prod.splits option.splits if_splits)
  with normalize_accepted [OF o(1)] show ?thesis by (auto simp: bound_offers_def list_all_iff)
qed

lemma agent_reply_Dispatched:
  assumes "agent_reply env sent rn = Dispatched result a"
  shows "at_agentId a = agent_id (waiting_agent rn)" "at_role a = rn_role rn" "at_outcome a = Attempt_completed"
    and "\<exists>offers. result = receipt_json offers \<and> bound_offers (rn_input rn) (at_agentId a) offers"
  using assms ask_agent_offers [of env "rn_input rn" "waiting_agent rn" "rn_role rn" sent]
  by (auto simp: agent_reply_def dispatchAgent_def Let_def split: sum.splits prod.splits)

lemma agent_reply_Undispatched:
  assumes "agent_reply env sent rn = Undispatched code a"
  shows "at_agentId a = agent_id (waiting_agent rn)" "at_role a = rn_role rn"
    and "at_outcome a = (if code = ''discovery_timeout'' then Attempt_timeout else Attempt_failed)" "code \<in> set failure_codes"
  using assms classify_codes
  by (auto simp: agent_reply_def dispatchAgent_def Let_def split: sum.splits prod.splits)

section \<open>Interleavings\<close>

text \<open>
  Requests arrive, agents answer executions in any order, and the platform may evict the object, which
  keeps its row and loses the executions that wait.
\<close>

inductive route_reply :: "route_object \<Rightarrow> route_object \<Rightarrow> bool" where
  Agent_reply: "k < length (ro_running obj) \<Longrightarrow>
    route_reply obj (snd (dispatch_reply k (agent_reply env sent (ro_running obj ! k)) now obj))"

inductive_cases route_replyE: "route_reply obj obj'"

inductive route_step :: "route_object \<Rightarrow> route_object \<Rightarrow> bool" where
  Request: "route_step obj (snd (dispatch_begin i startedAt obj))"
| Reply: "route_reply obj obj' \<Longrightarrow> route_step obj obj'"
| Evict: "route_step obj (obj\<lparr>ro_running := []\<rparr>)"

abbreviation route_run :: "route_object \<Rightarrow> route_object \<Rightarrow> bool" where
  "route_run \<equiv> route_step\<^sup>*\<^sup>*"

text \<open>What the attempts recorded in a finished row say.\<close>

definition attempts_match :: "(attempt_role \<times> json) list \<Rightarrow> dispatch_attempt list \<Rightarrow> bool" where
  "attempts_match asked attempts = (attempts \<noteq> []
     \<and> map (\<lambda>a. (at_role a, at_agentId a)) attempts = map (\<lambda>(role, agent). (role, agent_id agent)) asked
     \<and> list_all (\<lambda>a. at_outcome a = Attempt_timeout) (butlast attempts))"

definition finished_row :: "dispatch_input \<Rightarrow> (attempt_role \<times> json) list \<Rightarrow> stored_dispatch \<Rightarrow> bool" where
  "finished_row i asked r =
     (\<exists>attempts. attempts_match asked attempts \<and> sd_attempts_json r = Some (attempts_text attempts)
        \<and> sd_agent_id r = at_agentId (last attempts)
        \<and> (case sd_state r of
             Dispatching \<Rightarrow> False
           | Dispatch_completed \<Rightarrow> at_outcome (last attempts) = Attempt_completed
               \<and> (\<exists>offers. bound_offers i (sd_agent_id r) offers \<and> sd_response_json r = Some (canonicalJson (receipt_json offers)))
           | Dispatch_unknown \<Rightarrow> at_outcome (last attempts) \<noteq> Attempt_completed \<and> sd_response_json r = None
               \<and> (\<exists>code. sd_failure_code r = Some code \<and> code \<in> insert ''dispatch_exhausted'' (set failure_codes))))"

definition asked_for :: "dispatch_input \<Rightarrow> (attempt_role \<times> json) list \<Rightarrow> bool" where
  "asked_for i asked = (asked = [(Selected_role, di_agent i)]
     \<or> (\<exists>f. di_fallbackAgent i = Some f \<and> asked = [(Selected_role, di_agent i), (Fallback_role, f)]))"

definition running_ok :: "dispatch_input \<Rightarrow> (attempt_role \<times> json) list \<Rightarrow> running_dispatch \<Rightarrow> bool" where
  "running_ok i asked rn = (rn_input rn = i
     \<and> map (\<lambda>a. (at_role a, at_agentId a)) (rn_attempts rn) @ [(rn_role rn, agent_id (waiting_agent rn))]
         = map (\<lambda>(role, agent). (role, agent_id agent)) asked
     \<and> list_all (\<lambda>a. at_outcome a = Attempt_timeout) (rn_attempts rn))"

definition route_ok :: "route_object \<Rightarrow> bool" where
  "route_ok obj =
     (case ro_row obj of
        None \<Rightarrow> ro_running obj = [] \<and> ro_asked obj = []
      | Some r \<Rightarrow> \<exists>i. sd_request_digest r = request_digest i \<and> sd_intent_id r = ri_intentId (di_intent i) \<and> asked_for i (ro_asked obj)
          \<and> (if sd_state r = Dispatching
             then sd_response_json r = None \<and> sd_failure_code r = None \<and> length (ro_running obj) \<le> 1
               \<and> list_all (running_ok i (ro_asked obj)) (ro_running obj)
             else ro_running obj = [] \<and> finished_row i (ro_asked obj) r))"

lemma request_ok:
  assumes "route_ok obj"
  shows "route_ok (snd (dispatch_begin i startedAt obj))"
proof (cases "ro_row obj")
  case None
  with assms have "ro_running obj = []" "ro_asked obj = []" by (simp_all add: route_ok_def)
  with None show ?thesis
    by (simp add: route_ok_def dispatch_begin_def opened_row_def)
      (intro exI [of _ i], simp add: asked_for_def running_ok_def waiting_agent_def)
qed (use assms in \<open>simp add: dispatch_begin_def\<close>)

lemma evict_ok: "route_ok obj \<Longrightarrow> route_ok (obj\<lparr>ro_running := []\<rparr>)"
  by (auto simp: route_ok_def split: option.splits)

text \<open>An answer either makes the execution wait for the fallback, or finishes it with matching attempts.\<close>

lemma after_reply_cases:
  assumes ok: "running_ok i asked rn" and asked: "asked_for i asked" and reply: "reply = agent_reply env sent rn"
  shows "case after_reply rn reply of
      Inl rn' \<Rightarrow> \<exists>f. di_fallbackAgent i = Some f \<and> asked = [(Selected_role, di_agent i)] \<and> rn_input rn' = i \<and> rn_role rn' = Fallback_role
        \<and> running_ok i (asked @ [(Fallback_role, f)]) rn'
    | Inr (Sequence_ok result attempts) \<Rightarrow> attempts_match asked attempts \<and> at_outcome (last attempts) = Attempt_completed
        \<and> (\<exists>offers. result = receipt_json offers \<and> bound_offers i (at_agentId (last attempts)) offers)
    | Inr (Sequence_failed code agentId attempts) \<Rightarrow> attempts_match asked attempts \<and> at_outcome (last attempts) \<noteq> Attempt_completed
        \<and> agentId = at_agentId (last attempts) \<and> code \<in> insert ''dispatch_exhausted'' (set failure_codes)"
proof (cases reply)
  case (Dispatched result a)
  note facts = agent_reply_Dispatched [of env sent rn, folded reply, OF Dispatched]
  show ?thesis using ok facts by (auto simp: Dispatched after_reply_def attempts_match_def running_ok_def)
next
  case (Undispatched code a)
  note facts = agent_reply_Undispatched [of env sent rn, folded reply, OF Undispatched]
  have match: "attempts_match asked (rn_attempts rn @ [a])" using ok facts by (auto simp: attempts_match_def running_ok_def)
  have role: "rn_role rn = Fallback_role \<or> asked = [(Selected_role, di_agent i)] \<and> rn_attempts rn = []"
    using ok asked by (cases "rn_attempts rn") (auto simp: running_ok_def asked_for_def)
  show ?thesis
  proof (cases "rn_role rn = Fallback_role \<or> at_outcome a \<noteq> Attempt_timeout \<or> di_fallbackAgent i = None")
    case True
    then show ?thesis using match facts(3,4) ok
      by (auto simp: Undispatched after_reply_def running_ok_def split: if_splits)
  next
    case False
    then obtain f where f: "di_fallbackAgent i = Some f" by blast
    have "running_ok i (asked @ [(Fallback_role, f)]) (rn\<lparr>rn_role := Fallback_role, rn_attempts := [a]\<rparr>)"
      using False role facts ok f by (auto simp: running_ok_def waiting_agent_def)
    then show ?thesis using False f role ok by (auto simp: Undispatched after_reply_def running_ok_def)
  qed
qed

lemma update_dispatching_row:
  "ro_row (update_dispatching f obj) = map_option (\<lambda>r. if sd_state r = Dispatching then f r else r) (ro_row obj)"
  "ro_running (update_dispatching f obj) = ro_running obj" "ro_asked (update_dispatching f obj) = ro_asked obj"
  by (simp_all add: update_dispatching_def)

lemma attempts_match_last: "attempts_match asked attempts \<Longrightarrow> last_agent attempts = Some (at_agentId (last attempts))"
  by (auto simp: attempts_match_def last_agent_def)

lemma reply_ok:
  assumes ok: "route_ok obj" and k: "k < length (ro_running obj)"
  shows "route_ok (snd (dispatch_reply k (agent_reply env sent (ro_running obj ! k)) now obj))"
proof -
  let ?rn = "ro_running obj ! k" and ?asked = "ro_asked obj"
  obtain r where r: "ro_row obj = Some r" using ok k by (cases "ro_row obj") (auto simp: route_ok_def)
  then obtain i where i: "sd_request_digest r = request_digest i" "sd_intent_id r = ri_intentId (di_intent i)" "asked_for i ?asked"
    and state: "sd_state r = Dispatching" "sd_response_json r = None" "sd_failure_code r = None" "length (ro_running obj) \<le> 1"
      "list_all (running_ok i ?asked) (ro_running obj)"
    using ok k by (auto simp: route_ok_def split: if_splits)
  have single: "ro_running obj = [?rn]" "k = 0" using state(4) k by (cases "ro_running obj"; auto)+
  then have rn: "running_ok i ?asked ?rn" using state(5) k by (simp add: list_all_length)
  note next_step = after_reply_cases [OF rn i(3) refl, of env sent]
  have input: "rn_input ?rn = i" using rn by (simp add: running_ok_def)
  show ?thesis
  proof (cases "after_reply ?rn (agent_reply env sent ?rn)")
    case (Inl rn')
    then obtain f where f: "di_fallbackAgent i = Some f" "?asked = [(Selected_role, di_agent i)]" "running_ok i (?asked @ [(Fallback_role, f)]) rn'"
      using next_step by auto
    have "snd (dispatch_reply k (agent_reply env sent ?rn) now obj)
        = obj\<lparr>ro_running := [rn'], ro_asked := ?asked @ [(Fallback_role, f)]\<rparr>"
      using Inl single(2) input f(1) single(1) by (simp add: dispatch_reply_def Let_def) (metis list_update_code(2))
    then show ?thesis using r i state(1-3) f by (auto simp: route_ok_def asked_for_def)
  next
    case (Inr dispatched)
    have others: "take k (ro_running obj) @ drop (Suc k) (ro_running obj) = []" using single by (metis append_Nil drop0 drop_Suc_Cons take0)
    have reply: "snd (dispatch_reply k (agent_reply env sent ?rn) now obj)
        = snd (finish_dispatch (ri_intentId (di_intent i)) dispatched now (obj\<lparr>ro_running := []\<rparr>))"
      unfolding dispatch_reply_def Let_def others Inr sum.case input by (simp split: prod.split)
    show ?thesis
    proof (cases dispatched)
      case (Sequence_ok result attempts)
      then have "finished_row i ?asked (r\<lparr>sd_state := Dispatch_completed,
          sd_agent_id := (case last_agent attempts of Some a \<Rightarrow> a | None \<Rightarrow> ''''),
          sd_response_json := Some (canonicalJson result), sd_attempts_json := Some (attempts_text attempts),
          sd_completed_at := Some now\<rparr>)"
        using next_step Inr unfolding finished_row_def
        by (intro exI [of _ attempts]) (auto simp: attempts_match_last)
      then show ?thesis unfolding reply using Sequence_ok r i state(1)
        by (auto simp: finish_dispatch_def complete_dispatch_def route_ok_def update_dispatching_row)
    next
      case (Sequence_failed code agentId attempts)
      then have "finished_row i ?asked (r\<lparr>sd_state := Dispatch_unknown, sd_agent_id := agentId,
          sd_attempts_json := Some (attempts_text attempts), sd_failure_code := Some code, sd_completed_at := Some now\<rparr>)"
        using next_step Inr state(2) unfolding finished_row_def
        by (intro exI [of _ attempts]) auto
      then show ?thesis unfolding reply using Sequence_failed r i state(1)
        by (auto simp: finish_dispatch_def fail_dispatch_def route_ok_def update_dispatching_row)
    qed
  qed
qed

lemma route_run_ok: "route_run new_object obj \<Longrightarrow> route_ok obj"
proof (induction rule: rtranclp_induct)
  case base
  show ?case by (simp add: route_ok_def new_object_def)
next
  case (step obj obj')
  from step.hyps(2) step.IH show ?case
    by (induction rule: route_step.induct) (auto intro: request_ok reply_ok evict_ok elim: route_replyE)
qed

section \<open>Claims\<close>

text \<open>
  C3. The providers of an intent are asked at most once each: however requests, answers and evictions
  interleave, the object asks the selected agent of one request and at most once its fallback, the stored
  digest is that of this request, and when the dispatch is completed its stored response consists of
  sound offers bound to the intent and to the last agent asked, the earlier attempt having timed out.
\<close>

theorem dispatched_once:
  assumes "route_run new_object obj" "ro_row obj = Some r"
  shows "\<exists>i. sd_request_digest r = request_digest i \<and> sd_intent_id r = ri_intentId (di_intent i) \<and> asked_for i (ro_asked obj)
    \<and> (sd_state r = Dispatch_completed \<longrightarrow> (\<exists>attempts offers. attempts_match (ro_asked obj) attempts
         \<and> sd_attempts_json r = Some (attempts_text attempts) \<and> at_outcome (last attempts) = Attempt_completed
         \<and> bound_offers i (at_agentId (last attempts)) offers \<and> sd_response_json r = Some (canonicalJson (receipt_json offers))))
    \<and> (sd_state r = Dispatch_unknown \<longrightarrow> (\<exists>attempts code. attempts_match (ro_asked obj) attempts
         \<and> at_outcome (last attempts) \<noteq> Attempt_completed \<and> sd_failure_code r = Some code
         \<and> code \<in> insert ''dispatch_exhausted'' (set failure_codes)))"
proof -
  from route_run_ok [OF assms(1)] assms(2) obtain i where i: "sd_request_digest r = request_digest i"
    "sd_intent_id r = ri_intentId (di_intent i)" "asked_for i (ro_asked obj)"
    and final: "sd_state r \<noteq> Dispatching \<Longrightarrow> finished_row i (ro_asked obj) r"
    by (auto simp: route_ok_def split: if_splits)
  show ?thesis
    by (rule exI [of _ i]) (cases "sd_state r"; use i final in \<open>auto simp: finished_row_def; blast?\<close>)
qed

text \<open>A finished object answers from its row and does not change any more.\<close>

lemma finished_step:
  assumes "route_step obj obj'" "ro_row obj = Some r" "ro_running obj = []"
  shows "ro_row obj' = Some r \<and> ro_running obj' = [] \<and> ro_asked obj' = ro_asked obj"
  using assms by (induction rule: route_step.induct) (auto simp: dispatch_begin_def elim: route_replyE)

text \<open>
  The outcome of an intent is final: once it is completed or unknown, no request, answer or eviction
  changes the stored row or asks another agent, and every later dispatch is answered from that row.
\<close>

theorem dispatch_final:
  assumes "route_run new_object obj" "ro_row obj = Some r" "sd_state r \<noteq> Dispatching" "route_run obj obj'"
  shows "ro_row obj' = Some r \<and> ro_asked obj' = ro_asked obj
    \<and> dispatch_begin i startedAt obj' = (Some (priorDispatchResult r (request_digest i)), obj')"
proof -
  have idle: "ro_running obj = []" using route_run_ok [OF assms(1)] assms(2,3) by (auto simp: route_ok_def)
  from assms(4) have "ro_row obj' = Some r \<and> ro_running obj' = [] \<and> ro_asked obj' = ro_asked obj"
  proof (induction rule: rtranclp_induct)
    case (step o1 o2)
    then show ?case using finished_step [OF step.hyps(2)] by metis
  qed (use assms(2) idle in blast)
  then show ?thesis by (simp add: dispatch_begin_def)
qed

text \<open>The answers an execution still waits for.\<close>

definition outstanding :: "route_object \<Rightarrow> nat" where
  "outstanding obj = sum_list (map (\<lambda>rn. if rn_role rn = Selected_role then 2 else 1) (ro_running obj))"

lemma reply_progress:
  assumes ok: "route_ok obj" and reply: "route_reply obj obj'"
  shows "outstanding obj' < outstanding obj" "outstanding obj \<le> 2"
    and "ro_running obj' = [] \<Longrightarrow> \<exists>r. ro_row obj' = Some r \<and> sd_state r \<noteq> Dispatching"
proof -
  from reply obtain k env sent now where k: "k < length (ro_running obj)"
    and obj': "obj' = snd (dispatch_reply k (agent_reply env sent (ro_running obj ! k)) now obj)" by (elim route_replyE)
  obtain r where r: "ro_row obj = Some r" using ok k by (cases "ro_row obj") (auto simp: route_ok_def)
  then have state: "sd_state r = Dispatching" "length (ro_running obj) \<le> 1"
    using ok k by (auto simp: route_ok_def split: if_splits)
  then obtain rn where single: "ro_running obj = [rn]" "k = 0" using k by (cases "ro_running obj") auto
  have step: "obj' = snd (dispatch_reply 0 (agent_reply env sent rn) now obj)" using obj' single by simp
  have before: "outstanding obj = (if rn_role rn = Selected_role then 2 else 1)" by (simp add: outstanding_def single(1))
  then show "outstanding obj \<le> 2" by simp
  have "outstanding obj' < outstanding obj \<and> (ro_running obj' = [] \<longrightarrow> (\<exists>r. ro_row obj' = Some r \<and> sd_state r \<noteq> Dispatching))"
  proof (cases "after_reply rn (agent_reply env sent rn)")
    case (Inl rn')
    then have "rn_role rn = Selected_role" "rn_role rn' = Fallback_role"
      by (auto simp: after_reply_def split: agent_dispatch.splits if_splits) (metis attempt_role.exhaust)
    moreover have "ro_running obj' = [rn']" by (simp add: step dispatch_reply_def Let_def single(1) Inl)
    ultimately show ?thesis using before by (simp add: outstanding_def)
  next
    case (Inr dispatched)
    have "obj' = snd (finish_dispatch (ri_intentId (di_intent (rn_input rn))) dispatched now (obj\<lparr>ro_running := []\<rparr>))"
      by (simp add: step dispatch_reply_def Let_def single(1) Inr split: prod.split)
    then have "ro_running obj' = []" "\<exists>r. ro_row obj' = Some r \<and> sd_state r \<noteq> Dispatching"
      using r state(1)
      by (auto simp: finish_dispatch_def complete_dispatch_def fail_dispatch_def update_dispatching_row split: sequence_result.splits)
    then show ?thesis using before by (simp add: outstanding_def)
  qed
  then show "outstanding obj' < outstanding obj"
    and "ro_running obj' = [] \<Longrightarrow> \<exists>r. ro_row obj' = Some r \<and> sd_state r \<noteq> Dispatching"
    by blast+
qed

lemma route_reply_ok: "route_ok obj \<Longrightarrow> route_reply obj obj' \<Longrightarrow> route_ok obj'"
  by (elim route_replyE) (simp add: reply_ok)

text \<open>
  C16. A dispatch ends: from every reachable object at most two answers of agents are consumed, while an
  execution waits another answer can be, and when none waits any more the row is completed or unknown.
\<close>

theorem dispatch_terminates:
  assumes "route_run new_object obj" "(route_reply ^^ n) obj obj'"
  shows "n \<le> 2 \<and> (ro_running obj' \<noteq> [] \<longrightarrow> (\<exists>obj''. route_reply obj' obj''))
    \<and> (0 < n \<and> ro_running obj' = [] \<longrightarrow> (\<exists>r. ro_row obj' = Some r \<and> sd_state r \<noteq> Dispatching))"
proof -
  have bound: "route_ok o1 \<Longrightarrow> (route_reply ^^ m) o1 o2 \<Longrightarrow> m + outstanding o2 \<le> outstanding o1 \<and> route_ok o2" for m o1 o2
  proof (induction m arbitrary: o2)
    case (Suc m)
    then obtain o' where o': "(route_reply ^^ m) o1 o'" "route_reply o' o2" by auto
    with Suc have "m + outstanding o' \<le> outstanding o1" "route_ok o'" by blast+
    with reply_progress(1) [OF _ o'(2)] route_reply_ok [OF _ o'(2)] show ?case by force
  qed simp
  have ok: "route_ok obj" by (rule route_run_ok [OF assms(1)])
  have "n \<le> 2"
  proof (cases n)
    case (Suc m)
    then obtain o' where "route_reply obj o'" using assms(2) by (metis relpowp_Suc_E2)
    then show ?thesis using reply_progress(2) [OF ok] bound [OF ok assms(2)] by fastforce
  qed simp
  moreover have "\<exists>obj''. route_reply obj' obj''" if "ro_running obj' \<noteq> []"
    by (meson Agent_reply length_greater_0_conv that)
  moreover have "\<exists>r. ro_row obj' = Some r \<and> sd_state r \<noteq> Dispatching" if n: "0 < n" and idle: "ro_running obj' = []"
  proof -
    obtain m where m: "n = Suc m" using n gr0_implies_Suc by blast
    obtain o' where o': "(route_reply ^^ m) obj o'" "route_reply o' obj'" using assms(2) unfolding m by auto
    show ?thesis using reply_progress(3) [OF conjunct2 [OF bound [OF ok o'(1)]] o'(2) idle] .
  qed
  ultimately show ?thesis by blast
qed

section \<open>An undisturbed dispatch\<close>

lemma storable_attempts [simp]: "storable (JArr (map attempt_json attempts))"
  by (auto simp: storable_JArr attempt_json_def storable_JObj)

lemma readAttempts_text: "readAttempts (Some (attempts_text attempts)) = map (\<lambda>a. canonicalValue (attempt_json a)) attempts"
proof -
  have "canonicalValue (JArr vs) = JArr (map canonicalValue vs)" for vs by simp
  moreover have "attempts_text attempts \<noteq> ''''" by (simp add: attempts_text_def canonicalJson_def json_text_def)
  ultimately show ?thesis using parse_column_canonicalJson [OF storable_attempts, of attempts]
    by (simp add: readAttempts_def attempts_text_def comp_def)
qed

lemma dispatchAgent_result:
  assumes "dispatchAgent env (di_intent i) (intent_digest i) agent role sent = (Dispatched result a, sent')"
  shows "\<exists>offers. result = receipt_json offers"
  using assms ask_agent_offers [of env i agent role sent]
  by (auto simp: dispatchAgent_def Let_def split: sum.splits prod.splits)

lemma sequence_result:
  assumes "dispatchSelectedWithFallback
      (dispatchAgent e1 (di_intent i) (intent_digest i) (di_agent i) Selected_role)
      (map_option (\<lambda>f. dispatchAgent e2 (di_intent i) (intent_digest i) f Fallback_role) (di_fallbackAgent i)) sent = (Sequence_ok result attempts, sent')"
  shows "\<exists>offers. result = receipt_json offers" "attempts \<noteq> []"
  using assms dispatchAgent_result
  by (auto simp: dispatchSelectedWithFallback_def split: prod.splits agent_dispatch.splits if_splits option.splits)

text \<open>
  A repeated dispatch returns what the first one did: after an undisturbed dispatch, a second one for
  the same request asks no provider, leaves the object alone and gives the same outcome, marked as
  idempotent, with the same agent, attempts and offers in canonical form.
\<close>

theorem dispatch_replayed:
  assumes "ro_row obj = None" "dispatch e1 e2 startedAt completedAt i sent obj = (response', sent1, obj1)"
  shows "dispatch e3 e4 startedAt' completedAt' i sent2 obj1 =
    (case response' of
       Dispatch_answered _ intentId agentId attempts result \<Rightarrow>
         Dispatch_answered True intentId agentId (map canonicalValue attempts) (canonicalValue result)
     | Dispatch_failed state code intentId agentId attempts \<Rightarrow> Dispatch_failed state code intentId agentId (map canonicalValue attempts)
     | Dispatch_rejected code \<Rightarrow> Dispatch_rejected code, sent2, obj1)
    \<and> (case response' of Dispatch_answered idempotent _ _ _ _ \<Rightarrow> \<not> idempotent
        | Dispatch_failed state _ _ _ _ \<Rightarrow> state = Dispatch_unknown | Dispatch_rejected _ \<Rightarrow> False)"
proof -
  let ?seq = "dispatchSelectedWithFallback
      (dispatchAgent e1 (di_intent i) (intent_digest i) (di_agent i) Selected_role)
      (map_option (\<lambda>f. dispatchAgent e2 (di_intent i) (intent_digest i) f Fallback_role) (di_fallbackAgent i)) sent"
  obtain dispatched where seq: "?seq = (dispatched, sent1)"
    and finish: "finish_dispatch (ri_intentId (di_intent i)) dispatched completedAt (obj\<lparr>ro_row := Some (opened_row i startedAt)\<rparr>) = (response', obj1)"
    using assms by (auto simp: dispatch_def split: prod.splits)
  show ?thesis
  proof (cases dispatched)
    case (Sequence_ok result attempts)
    then obtain offers where o: "result = receipt_json offers" "attempts \<noteq> []" using sequence_result [of e1 i e2 sent result attempts sent1] seq by auto
    have "canonicalJson (receipt_json offers) \<noteq> ''''" by (simp add: receipt_json_def canonicalJson_def canonicalValue_JObj json_text_JObj)
    then show ?thesis
      using finish o parse_column_canonicalJson [OF storable_receipt, of offers]
      by (auto simp: Sequence_ok finish_dispatch_def complete_dispatch_def dispatch_def update_dispatching_def opened_row_def
          priorDispatchResult_def readAttempts_text last_agent_def)
  next
    case (Sequence_failed code agentId attempts)
    then show ?thesis using finish
      by (auto simp: finish_dispatch_def fail_dispatch_def dispatch_def update_dispatching_def opened_row_def
          priorDispatchResult_def readAttempts_text)
  qed
qed

text \<open>The steps of an undisturbed dispatch of a new object, and where they end.\<close>

lemma undisturbed_steps:
  fixes e1 e2 :: route_env and sent :: "request list" and i :: dispatch_input and startedAt :: string
  defines "rn \<equiv> \<lparr>rn_input = i, rn_role = Selected_role, rn_attempts = []\<rparr>"
  defines "o1 \<equiv> \<lparr>ro_row = Some (opened_row i startedAt), ro_running = [rn], ro_asked = [(Selected_role, di_agent i)]\<rparr>"
  shows "route_step new_object o1"
    and "after_reply rn (agent_reply e1 sent rn) = Inr dispatched \<Longrightarrow>
      route_step o1 (snd (finish_dispatch (ri_intentId (di_intent i)) dispatched now (o1\<lparr>ro_running := []\<rparr>)))"
    and "after_reply rn (agent_reply e1 sent rn) = Inl rn' \<Longrightarrow> di_fallbackAgent i = Some f \<Longrightarrow> rn_input rn' = i \<Longrightarrow>
      after_reply rn' (agent_reply e2 sent' rn') = Inr dispatched \<Longrightarrow>
      route_step\<^sup>*\<^sup>* o1 (snd (finish_dispatch (ri_intentId (di_intent i)) dispatched now
        (o1\<lparr>ro_running := [], ro_asked := [(Selected_role, di_agent i), (Fallback_role, f)]\<rparr>)))"
proof -
  show "route_step new_object o1"
    using Request [of new_object i startedAt] by (simp add: dispatch_begin_def new_object_def o1_def rn_def)
  have reply: "route_step obj (snd (dispatch_reply 0 (agent_reply e s r) now obj))" if "ro_running obj = [r]" for obj e s r
    using Reply [OF Agent_reply [of 0 obj e s now]] that by simp
  show "route_step o1 (snd (finish_dispatch (ri_intentId (di_intent i)) dispatched now (o1\<lparr>ro_running := []\<rparr>)))"
    if "after_reply rn (agent_reply e1 sent rn) = Inr dispatched"
    using reply [of o1 rn e1 sent] that by (simp add: dispatch_reply_def Let_def o1_def rn_def split: prod.splits)
  show "route_step\<^sup>*\<^sup>* o1 (snd (finish_dispatch (ri_intentId (di_intent i)) dispatched now
        (o1\<lparr>ro_running := [], ro_asked := [(Selected_role, di_agent i), (Fallback_role, f)]\<rparr>)))"
    if a: "after_reply rn (agent_reply e1 sent rn) = Inl rn'" "di_fallbackAgent i = Some f" "rn_input rn' = i"
      "after_reply rn' (agent_reply e2 sent' rn') = Inr dispatched"
  proof -
    let ?o2 = "o1\<lparr>ro_running := [rn'], ro_asked := [(Selected_role, di_agent i), (Fallback_role, f)]\<rparr>"
    have "route_step o1 ?o2"
      using reply [of o1 rn e1 sent] a(1,2) by (simp add: dispatch_reply_def Let_def o1_def rn_def)
    moreover have "route_step ?o2 (snd (finish_dispatch (ri_intentId (di_intent i)) dispatched now
        (o1\<lparr>ro_running := [], ro_asked := [(Selected_role, di_agent i), (Fallback_role, f)]\<rparr>)))"
      using reply [of ?o2 rn' e2 sent'] a(3,4) by (simp add: dispatch_reply_def Let_def o1_def split: prod.splits)
    ultimately show ?thesis by (meson converse_rtranclp_into_rtranclp r_into_rtranclp)
  qed
qed

text \<open>
  The steps are those of the code: what \<open>dispatch\<close> makes of a new object when nothing else happens in
  between, its row with no execution waiting, is reached by steps of the interleaving model.
\<close>

theorem dispatch_is_steps:
  assumes "dispatch e1 e2 startedAt completedAt i sent new_object = (response', sent', obj')"
  shows "\<exists>asked. route_run new_object (obj'\<lparr>ro_asked := asked\<rparr>)"
proof -
  let ?rn = "\<lparr>rn_input = i, rn_role = Selected_role, rn_attempts = []\<rparr>"
  obtain reply s1 where selected: "dispatchAgent e1 (di_intent i) (intent_digest i) (di_agent i) Selected_role sent = (reply, s1)" by fastforce
  then have r: "agent_reply e1 sent ?rn = reply" by (simp add: agent_reply_def waiting_agent_def)
  note steps = undisturbed_steps [where i = i and startedAt = startedAt]
  have finish: "obj' = snd (finish_dispatch (ri_intentId (di_intent i)) (fst (dispatchSelectedWithFallback
      (dispatchAgent e1 (di_intent i) (intent_digest i) (di_agent i) Selected_role)
      (map_option (\<lambda>f. dispatchAgent e2 (di_intent i) (intent_digest i) f Fallback_role) (di_fallbackAgent i)) sent)) completedAt
      (new_object\<lparr>ro_row := Some (opened_row i startedAt)\<rparr>))"
    using assms by (simp add: dispatch_def new_object_def split: prod.splits)
  have ignore: "(snd (finish_dispatch d s now (new_object\<lparr>ro_row := row\<rparr>)))\<lparr>ro_asked := asked\<rparr>
      = snd (finish_dispatch d s now \<lparr>ro_row = row, ro_running = [], ro_asked = asked\<rparr>)" for d s now row asked
    by (cases s) (simp_all add: finish_dispatch_def complete_dispatch_def fail_dispatch_def update_dispatching_def new_object_def)
  show ?thesis
  proof (cases "after_reply ?rn reply")
    case (Inr dispatched)
    then have "fst (dispatchSelectedWithFallback
      (dispatchAgent e1 (di_intent i) (intent_digest i) (di_agent i) Selected_role)
      (map_option (\<lambda>f. dispatchAgent e2 (di_intent i) (intent_digest i) f Fallback_role) (di_fallbackAgent i)) sent) = dispatched"
      by (auto simp: dispatchSelectedWithFallback_def selected after_reply_def split: agent_dispatch.splits if_splits)
    then show ?thesis
      unfolding finish ignore using steps(1) steps(2) [of e1 sent dispatched, unfolded r, OF Inr]
      by (intro exI [of _ "[(Selected_role, di_agent i)]"]) (simp, meson converse_rtranclp_into_rtranclp r_into_rtranclp)
  next
    case (Inl rn')
    then obtain code a f where u: "reply = Undispatched code a" "at_outcome a = Attempt_timeout" "di_fallbackAgent i = Some f"
      "rn' = \<lparr>rn_input = i, rn_role = Fallback_role, rn_attempts = [a]\<rparr>"
      by (auto simp: after_reply_def split: agent_dispatch.splits if_splits)
    obtain reply2 s2 where fallback: "dispatchAgent e2 (di_intent i) (intent_digest i) f Fallback_role s1 = (reply2, s2)" by fastforce
    then have r2: "agent_reply e2 s1 rn' = reply2" using u(3,4) by (simp add: agent_reply_def waiting_agent_def)
    obtain dispatched where d: "after_reply rn' reply2 = Inr dispatched"
      "fst (dispatchSelectedWithFallback
      (dispatchAgent e1 (di_intent i) (intent_digest i) (di_agent i) Selected_role)
      (map_option (\<lambda>f. dispatchAgent e2 (di_intent i) (intent_digest i) f Fallback_role) (di_fallbackAgent i)) sent) = dispatched"
      using u fallback by (cases reply2) (simp_all add: dispatchSelectedWithFallback_def selected after_reply_def)
    show ?thesis
      unfolding finish ignore d(2)
      using steps(1) steps(3) [of e1 sent rn' f e2 s1 dispatched, unfolded r r2, OF Inl u(3) _ d(1)] u(4)
      by (intro exI [of _ "[(Selected_role, di_agent i), (Fallback_role, f)]"]) (simp, meson converse_rtranclp_into_rtranclp)
  qed
qed

lemma evidence_refusals:
  "discoveryOperationalEvidence provider pinJson = Inl e \<Longrightarrow> e = Provider_evidence_unavailable \<or> e = Provider_evidence_mismatch"
  by (auto simp: discoveryOperationalEvidence_def verifyOperationalEvidence_def Let_def split: option.splits sum.splits if_splits)

lemma refusals_classified:
  "classifyProviderFailure (error_of (''discovery_'' @ gate_code Provider_evidence_unavailable)) = ''discovery_provider_evidence_blocked''"
  "classifyProviderFailure (error_of (''discovery_'' @ gate_code Provider_evidence_mismatch)) = ''discovery_provider_evidence_blocked''"
  by code_simp+

lemma refused_dispatch:
  assumes "discoveryOperationalEvidence (re_evidence env) (re_discoveryPinJson env) = Inl e"
  shows "dispatchAgent env intent d agent role sent = (Undispatched ''discovery_provider_evidence_blocked''
    \<lparr>at_agentId = agent_id agent, at_role = role, at_outcome = Attempt_failed, at_startedAt = re_startedAt env, at_completedAt = re_completedAt env\<rparr>, sent)"
  using evidence_refusals [OF assms] assms refusals_classified
  by (auto simp: dispatchAgent_def ask_agent_def Let_def)

text \<open>
  Every failure is reported as one of five codes, and only the code of a timeout, which is what sends
  the request on to the fallback, marks the attempt as timed out; an agent whose provider's evidence is
  refused is not asked at all; an answer requires accepted evidence.
\<close>

theorem agent_failures_reported:
  assumes "dispatchAgent env intent d agent role sent = (reply, sent')"
  shows "(case reply of
      Undispatched code a \<Rightarrow> code \<in> set failure_codes
        \<and> at_outcome a = (if code = ''discovery_timeout'' then Attempt_timeout else Attempt_failed)
    | Dispatched result a \<Rightarrow> at_outcome a = Attempt_completed
        \<and> (\<exists>permit. discoveryOperationalEvidence (re_evidence env) (re_discoveryPinJson env) = Inr permit))
    \<and> (\<forall>e. discoveryOperationalEvidence (re_evidence env) (re_discoveryPinJson env) = Inl e \<longrightarrow>
         sent' = sent \<and> (\<exists>a. reply = Undispatched ''discovery_provider_evidence_blocked'' a \<and> at_agentId a = agent_id agent))"
proof (cases "discoveryOperationalEvidence (re_evidence env) (re_discoveryPinJson env)")
  case (Inl e)
  then show ?thesis using assms refused_dispatch [OF Inl, of intent d agent role sent] by (auto simp: failure_codes_def)
next
  case (Inr permit)
  then show ?thesis using assms classify_codes
    by (auto simp: dispatchAgent_def Let_def split: sum.splits prod.splits)
qed

section \<open>A sample\<close>

definition sample_input :: dispatch_input where
  "sample_input = \<lparr>di_intent = \<lparr>ri_intentId = ''intent-1'', ri_category = ''coffee'', ri_constraints = JObj [], ri_merchant = None\<rparr>,
     di_agent = JObj [(''agentId'', JStr ''agent-1''), (''discoveryTool'', JStr ''find'')],
     di_fallbackAgent = Some (JObj [(''agentId'', JStr ''agent-2''), (''discoveryTool'', JStr ''find'')])\<rparr>"

text \<open>A provider that does not answer the evidence request, without a valid pin.\<close>

definition sample_env :: route_env where
  "sample_env = \<lparr>re_evidence = (\<lambda>_. None), re_discoveryPinJson = ''null'', re_network = sample_network, re_bearerToken = sample_token,
     re_checkoutPinJson = ''null'', re_aborted = None, re_startedAt = ''t0'', re_completedAt = ''t1''\<rparr>"

lemma sample_refused: "discoveryOperationalEvidence (re_evidence sample_env) (re_discoveryPinJson sample_env) = Inl Provider_evidence_mismatch"
proof -
  have "readUpstreamEvidencePin ''null'' = None" by code_simp
  then show ?thesis by (simp add: sample_env_def discoveryOperationalEvidence_def verifyOperationalEvidence_def)
qed

lemma sample_run:
  "\<exists>o1 o2 r. route_run new_object o1 \<and> ro_running o1 \<noteq> [] \<and> route_reply o1 o2 \<and> route_run new_object o2
     \<and> ro_row o2 = Some r \<and> sd_state r = Dispatch_unknown \<and> ro_running o2 = []"
proof -
  let ?rn = "\<lparr>rn_input = sample_input, rn_role = Selected_role, rn_attempts = []\<rparr>"
  let ?o1 = "\<lparr>ro_row = Some (opened_row sample_input ''t0''), ro_running = [?rn], ro_asked = [(Selected_role, di_agent sample_input)]\<rparr>"
  let ?o2 = "snd (dispatch_reply 0 (agent_reply sample_env [] ?rn) ''t2'' ?o1)"
  have s1: "route_step new_object ?o1" by (rule undisturbed_steps(1))
  have s2: "route_reply ?o1 ?o2" using Agent_reply [of 0 ?o1 sample_env "[]" "''t2''"] by simp
  have reply: "agent_reply sample_env [] ?rn = Undispatched ''discovery_provider_evidence_blocked''
      \<lparr>at_agentId = agent_id (di_agent sample_input), at_role = Selected_role, at_outcome = Attempt_failed, at_startedAt = ''t0'', at_completedAt = ''t1''\<rparr>"
    unfolding agent_reply_def refused_dispatch [OF sample_refused] by (simp add: waiting_agent_def sample_env_def)
  have "\<exists>r. ro_row ?o2 = Some r \<and> sd_state r = Dispatch_unknown" "ro_running ?o2 = []"
    by (simp_all add: dispatch_reply_def Let_def reply after_reply_def finish_dispatch_def fail_dispatch_def update_dispatching_def opened_row_def)
  moreover have "route_run new_object ?o1" "route_run new_object ?o2"
    using s1 Reply [OF s2] by (blast intro: r_into_rtranclp rtranclp.rtrancl_into_rtrancl)+
  moreover have "ro_running ?o1 \<noteq> []" by simp
  ultimately show ?thesis using s2 by blast
qed

theorem dispatched_once_witness:
  "\<exists>obj r i. route_run new_object obj \<and> ro_row obj = Some r \<and> sd_request_digest r = request_digest i \<and> asked_for i (ro_asked obj)"
proof -
  obtain obj r where "route_run new_object obj" "ro_row obj = Some r" using sample_run by blast
  with dispatched_once [OF this] show ?thesis by blast
qed

theorem dispatch_final_witness:
  "\<exists>obj r. route_run new_object obj \<and> sd_state r = Dispatch_unknown
     \<and> dispatch_begin sample_input ''t3'' obj = (Some (priorDispatchResult r (request_digest sample_input)), obj)"
proof -
  obtain obj r where o: "route_run new_object obj" "ro_row obj = Some r" "sd_state r = Dispatch_unknown" using sample_run by blast
  then have "sd_state r \<noteq> Dispatching" by simp
  from dispatch_final [OF o(1,2) this rtranclp.rtrancl_refl] o show ?thesis by blast
qed

theorem dispatch_terminates_witness:
  "\<exists>obj obj' r. (route_reply ^^ 1) obj obj' \<and> ro_running obj \<noteq> [] \<and> ro_row obj' = Some r \<and> sd_state r \<noteq> Dispatching"
proof -
  obtain o1 o2 where o: "route_run new_object o1" "ro_running o1 \<noteq> []" "route_reply o1 o2" "ro_running o2 = []" using sample_run by blast
  then have step: "(route_reply ^^ 1) o1 o2" by (simp add: eq_OO)
  from dispatch_terminates [OF o(1) step] o step show ?thesis by (metis zero_less_one)
qed

lemma sample_dispatch:
  "\<exists>obj. dispatch sample_env sample_env ''t0'' ''t2'' sample_input [] new_object = (Dispatch_failed Dispatch_unknown
     ''discovery_provider_evidence_blocked'' ''intent-1'' ''agent-1'' [attempt_json \<lparr>at_agentId = ''agent-1'', at_role = Selected_role,
       at_outcome = Attempt_failed, at_startedAt = ''t0'', at_completedAt = ''t1''\<rparr>], [], obj)"
  by (simp add: dispatch_def new_object_def dispatchSelectedWithFallback_def refused_dispatch [OF sample_refused] finish_dispatch_def
      fail_dispatch_def) (simp add: sample_input_def agent_id_def text_of_def sample_env_def)

theorem dispatch_replayed_witness:
  "\<exists>obj attempts. dispatch sample_env sample_env ''t5'' ''t6'' sample_input [] obj
     = (Dispatch_failed Dispatch_unknown ''discovery_provider_evidence_blocked'' ''intent-1'' ''agent-1'' attempts, [], obj)"
proof -
  obtain obj where d: "dispatch sample_env sample_env ''t0'' ''t2'' sample_input [] new_object = (Dispatch_failed Dispatch_unknown
     ''discovery_provider_evidence_blocked'' ''intent-1'' ''agent-1'' [attempt_json \<lparr>at_agentId = ''agent-1'', at_role = Selected_role,
       at_outcome = Attempt_failed, at_startedAt = ''t0'', at_completedAt = ''t1''\<rparr>], [], obj)"
    using sample_dispatch by blast
  have "ro_row new_object = None" by (simp add: new_object_def)
  from dispatch_replayed [OF this d, of sample_env sample_env "''t5''" "''t6''" "[]"] show ?thesis by auto
qed

theorem dispatch_is_steps_witness:
  "\<exists>obj asked. route_run new_object (obj\<lparr>ro_asked := asked\<rparr>)
     \<and> (\<exists>response'. dispatch sample_env sample_env ''t0'' ''t2'' sample_input [] new_object = (response', [], obj))"
proof -
  obtain response' obj where d: "dispatch sample_env sample_env ''t0'' ''t2'' sample_input [] new_object = (response', [], obj)"
    using sample_dispatch by blast
  from dispatch_is_steps [OF d] d show ?thesis by blast
qed

theorem agent_failures_reported_witness:
  "\<exists>a. fst (dispatchAgent sample_env (di_intent sample_input) ''d'' (di_agent sample_input) Selected_role [])
     = Undispatched ''discovery_provider_evidence_blocked'' a"
proof -
  obtain reply sent' where d: "dispatchAgent sample_env (di_intent sample_input) ''d'' (di_agent sample_input) Selected_role [] = (reply, sent')"
    by fastforce
  from agent_failures_reported [OF d] sample_refused d show ?thesis by auto
qed

end
