(* ===== verification/Acos_Identity.thy ===== *)
theory Acos_Identity imports Provider_Gate begin

text \<open>
  \<open>src/src/core/acos-deployment-identity.ts\<close>, the identity of the deployed runtime that admits agents, and
  \<open>src/src/shared/acos-admission-auth.ts\<close>, the signature of the requests it is sent. What \<open>Date.parse\<close> makes
  of a text depends on the engine beyond the ISO format, so it is an argument; \<open>None\<close> is NaN.
\<close>

type_synonym date_parser = "string \<Rightarrow> int option"

section \<open>The identity of a deployment\<close>

definition ACOS_DEPLOYMENT_IDENTITY_SCHEMA :: string where
  "ACOS_DEPLOYMENT_IDENTITY_SCHEMA = ''acos-cloudflare-deployment-identity/v1''"

definition IDENTITY_KEYS :: "string list" where
  "IDENTITY_KEYS = [''schema'', ''sourceRevision'', ''candidateDigest'', ''versionId'', ''versionTag'', ''versionTimestamp'']"

text \<open>A regular expression without repetition is the list of its character classes.\<close>

definition template :: "(char \<Rightarrow> bool) list \<Rightarrow> string \<Rightarrow> bool" where
  "template ps s = (length ps = length s \<and> list_all (\<lambda>(p, c). p c) (zip ps s))"

definition uuid_pattern :: "string \<Rightarrow> bool" where
  \<comment> \<open>\<open>/^[0-9a-f]{8}-[0-9a-f]{4}-[1-8][0-9a-f]{3}-[89ab][0-9a-f]{3}-[0-9a-f]{12}$/u\<close>\<close>
  "uuid_pattern = template
     (replicate 8 is_hex @ [(=) CHR ''-''] @ replicate 4 is_hex @ [(=) CHR ''-'']
      @ [\<lambda>c. c \<in> set ''12345678''] @ replicate 3 is_hex @ [(=) CHR ''-'']
      @ [\<lambda>c. c \<in> set ''89ab''] @ replicate 3 is_hex @ [(=) CHR ''-''] @ replicate 12 is_hex)"

definition utc_timestamp_pattern :: "string \<Rightarrow> bool" where
  \<comment> \<open>\<open>/^\d{4}-\d{2}-\d{2}T\d{2}:\d{2}:\d{2}(?:\.\d{1,9})?Z$/u\<close>\<close>
  "utc_timestamp_pattern s =
     (template (replicate 4 is_digit @ [(=) CHR ''-''] @ replicate 2 is_digit @ [(=) CHR ''-''] @ replicate 2 is_digit
        @ [(=) CHR ''T''] @ replicate 2 is_digit @ [(=) CHR '':''] @ replicate 2 is_digit @ [(=) CHR '':''] @ replicate 2 is_digit)
        (take 19 s)
      \<and> (let fraction = drop 19 s
         in fraction = ''Z'' \<or> (case fraction of
              dot # rest \<Rightarrow> dot = CHR ''.'' \<and> rest \<noteq> [] \<and> last rest = CHR ''Z'' \<and> all_chars is_digit 1 9 (butlast rest)
            | [] \<Rightarrow> False)))"

record acos_pin =
  dn_sourceRevision :: string
  dn_candidateDigest :: string

definition readAcosDeploymentPin :: "json option \<Rightarrow> json option \<Rightarrow> acos_pin option" where
  "readAcosDeploymentPin sourceRevision candidateDigest =
     (if isNonzeroHexIdentity sourceRevision 40 \<and> isNonzeroHexIdentity candidateDigest 64
      then (case (as_str sourceRevision, as_str candidateDigest) of
          (Some r, Some d) \<Rightarrow> Some \<lparr>dn_sourceRevision = r, dn_candidateDigest = d\<rparr> | _ \<Rightarrow> None)
      else None)"

definition validAcosDeploymentPin :: "acos_pin \<Rightarrow> bool" where
  "validAcosDeploymentPin pin =
     (readAcosDeploymentPin (Some (JStr (dn_sourceRevision pin))) (Some (JStr (dn_candidateDigest pin))) \<noteq> None)"

definition readAcosDeploymentIdentity :: "date_parser \<Rightarrow> json option \<Rightarrow> acos_pin option \<Rightarrow> json option" where
  "readAcosDeploymentIdentity date_parse v expected =
     (case v of None \<Rightarrow> None
      | Some identity \<Rightarrow>
          if \<not> isRecord identity \<or> \<not> exact_keys identity IDENTITY_KEYS
             \<or> field identity ''schema'' \<noteq> Some (JStr ACOS_DEPLOYMENT_IDENTITY_SCHEMA)
             \<or> \<not> isNonzeroHexIdentity (field identity ''sourceRevision'') 40
             \<or> \<not> isNonzeroHexIdentity (field identity ''candidateDigest'') 64
             \<or> \<not> is_str (field identity ''versionId'') uuid_pattern
             \<or> field identity ''versionTag'' \<noteq> Some (JStr (''acos-prod-'' @ text_of identity ''candidateDigest''))
             \<or> \<not> is_str (field identity ''versionTimestamp'') utc_timestamp_pattern
             \<or> date_parse (text_of identity ''versionTimestamp'') = None
             \<or> (case expected of None \<Rightarrow> False
                | Some pin \<Rightarrow> field identity ''sourceRevision'' \<noteq> Some (JStr (dn_sourceRevision pin))
                    \<or> field identity ''candidateDigest'' \<noteq> Some (JStr (dn_candidateDigest pin)))
          then None else Some identity)"

section \<open>Signed requests\<close>

definition ACOS_ADMISSION_AUTH_SCHEMA :: string where
  "ACOS_ADMISSION_AUTH_SCHEMA = ''commerce-agentic-os-admission-auth/v1''"

definition ACOS_AUTH_SCHEMA_HEADER :: string where
  "ACOS_AUTH_SCHEMA_HEADER = ''x-agentic-os-admission-auth-schema''"

definition ACOS_AUTH_SIGNATURE_HEADER :: string where
  "ACOS_AUTH_SIGNATURE_HEADER = ''x-agentic-os-admission-auth-signature''"

definition ACOS_ADMISSION_PERMIT_HEADER_NAMES :: "string list" where
  "ACOS_ADMISSION_PERMIT_HEADER_NAMES = [''x-authoring-mutation-contract'', ''x-authoring-mutation-id'', ''x-authoring-operation-id'',
     ''x-authoring-request-digest'', ''x-authoring-mutation-sequence'', ''x-authoring-semantic-scope'', ''x-authoring-claim-id'',
     ''x-authoring-lease-epoch'', ''x-authoring-lease-expires-at-ms'', ''x-authoring-fence-revision'', ''x-authoring-write-target'',
     ''x-authoring-reserved-at-ms'']"

definition MAXIMUM_AUTH_BODY_BYTES :: nat where "MAXIMUM_AUTH_BODY_BYTES = 65536"

definition placeholders :: "string list" where
  "placeholders = [''replace'', ''placeholder'', ''required'', ''example'', ''changeme'', ''todo'']"

text \<open>The secret pattern admits ASCII only, on which ignoring case is comparing lower-case texts.\<close>

definition validAcosAdmissionAuthSecret :: "string \<Rightarrow> bool" where
  "validAcosAdmissionAuthSecret s =
     (all_chars is_graph 32 256 s \<and> \<not> list_ex (\<lambda>p. text_includes p (map lower_char s)) placeholders)"

definition acos_signaturePayload :: "request \<Rightarrow> string \<Rightarrow> string \<Rightarrow> string" where
  "acos_signaturePayload rq bodyText contract = canonicalJson (JObj [
     (''schema'', JStr ACOS_ADMISSION_AUTH_SCHEMA),
     (''contract'', JStr contract),
     (''method'', JStr (rq_method rq)),
     (''url'', JStr (rq_url rq)),
     (''bodyDigest'', JStr (sha256Hex bodyText)),
     (''permitHeaders'', semantic_headers (rq_headers rq) ACOS_ADMISSION_PERMIT_HEADER_NAMES)])"

definition acos_sign :: "request \<Rightarrow> string \<Rightarrow> string \<Rightarrow> string \<Rightarrow> string option" where
  "acos_sign rq bodyText contract secret =
     (if \<not> validAcosAdmissionAuthSecret secret \<or> MAXIMUM_AUTH_BODY_BYTES < length (utf8 bodyText) then None
      else Some (bytesHex (hmac_sha256 (utf8 secret) (utf8 (acos_signaturePayload rq bodyText contract)))))"

definition authenticateAcosAdmissionRequest :: "request \<Rightarrow> string \<Rightarrow> string \<Rightarrow> string \<Rightarrow> request option" where
  "authenticateAcosAdmissionRequest rq bodyText contract secret =
     (case acos_sign rq bodyText contract secret of
        None \<Rightarrow> None
      | Some signature' \<Rightarrow> Some (rq\<lparr>rq_headers := headers_set ACOS_AUTH_SIGNATURE_HEADER signature'
          (headers_set ACOS_AUTH_SCHEMA_HEADER ACOS_ADMISSION_AUTH_SCHEMA (rq_headers rq))\<rparr>))"

text \<open>The body of the received request within its bound, of no body the empty text.\<close>

definition acos_readBoundedBody :: "body option \<Rightarrow> string option" where
  "acos_readBoundedBody b =
     (case b of None \<Rightarrow> Some ''''
      | Some body \<Rightarrow> map_option (\<lambda>_. bd_text body) (read_chunks MAXIMUM_AUTH_BODY_BYTES 0 (bd_chunks body)))"

definition verifyAcosAdmissionRequestAuthentication :: "request \<Rightarrow> string \<Rightarrow> string \<Rightarrow> bool" where
  "verifyAcosAdmissionRequestAuthentication rq contract secret =
     (let signature' = (case headers_get (rq_headers rq) ACOS_AUTH_SIGNATURE_HEADER of Some s \<Rightarrow> s | None \<Rightarrow> '''')
      in if headers_get (rq_headers rq) ACOS_AUTH_SCHEMA_HEADER \<noteq> Some ACOS_ADMISSION_AUTH_SCHEMA
            \<or> \<not> sha256_pattern signature' \<or> \<not> validAcosAdmissionAuthSecret secret
         then False
         else case acos_readBoundedBody (rq_body rq) of
             None \<Rightarrow> False
           | Some bodyText \<Rightarrow> hexBytes signature' = hmac_sha256 (utf8 secret) (utf8 (acos_signaturePayload rq bodyText contract)))"

section \<open>Facts\<close>

lemma nonzero_identity_str: "isNonzeroHexIdentity v n \<Longrightarrow> \<exists>s. v = Some (JStr s) \<and> length s = n \<and> list_all is_hex s"
  by (auto simp: isNonzeroHexIdentity_def elim: is_strE)

lemma IDENTITY_KEYS_distinct: "distinct IDENTITY_KEYS"
  by (simp add: IDENTITY_KEYS_def)

lemma identity_fields:
  assumes "readAcosDeploymentIdentity date_parse v expected = Some identity" "k \<in> set IDENTITY_KEYS"
  shows "\<exists>s. field identity k = Some (JStr s)"
  using assms
  by (auto simp: readAcosDeploymentIdentity_def IDENTITY_KEYS_def dest!: nonzero_identity_str elim!: is_strE
      split: option.splits if_splits)

lemma identity_storable:
  assumes "readAcosDeploymentIdentity date_parse v expected = Some identity"
  shows "v = Some identity" "storable identity"
proof -
  show "v = Some identity" using assms by (auto simp: readAcosDeploymentIdentity_def split: option.splits if_splits)
  show "storable identity"
  proof (rule exact_keys_storable [OF _ IDENTITY_KEYS_distinct])
    show "exact_keys identity IDENTITY_KEYS"
      using assms by (auto simp: readAcosDeploymentIdentity_def split: option.splits if_splits)
    show "\<exists>w. field identity k = Some w \<and> storable w" if "k \<in> set IDENTITY_KEYS" for k
      using identity_fields [OF assms that] by auto
  qed
qed

text \<open>An identity reads back from its canonical form.\<close>

lemma identity_canonical:
  assumes "readAcosDeploymentIdentity date_parse (Some v) expected \<noteq> None"
  shows "readAcosDeploymentIdentity date_parse (Some (canonicalValue v)) expected = Some (canonicalValue v)"
proof -
  from assms obtain identity where r: "readAcosDeploymentIdentity date_parse (Some v) expected = Some identity" by auto
  with identity_storable [OF r] have r: "readAcosDeploymentIdentity date_parse (Some v) expected = Some v" and st: "storable v" by auto
  have same: "field (canonicalValue v) k = field v k" if "k \<in> set IDENTITY_KEYS" for k
    using identity_fields [OF r that] by (auto simp: field_canonicalValue [OF st])
  then have f: "field (canonicalValue v) ''schema'' = field v ''schema''"
    "field (canonicalValue v) ''sourceRevision'' = field v ''sourceRevision''"
    "field (canonicalValue v) ''candidateDigest'' = field v ''candidateDigest''"
    "field (canonicalValue v) ''versionId'' = field v ''versionId''"
    "field (canonicalValue v) ''versionTag'' = field v ''versionTag''"
    "field (canonicalValue v) ''versionTimestamp'' = field v ''versionTimestamp''"
    by (simp_all add: IDENTITY_KEYS_def)
  then have t: "text_of (canonicalValue v) ''candidateDigest'' = text_of v ''candidateDigest''"
    "text_of (canonicalValue v) ''versionTimestamp'' = text_of v ''versionTimestamp''"
    by (simp_all add: text_of_def)
  show ?thesis using r
    unfolding readAcosDeploymentIdentity_def option.case f t exact_keys_canonical [OF st] isRecord_canonicalValue
    by (simp split: if_splits)
qed

lemma identity_unpinned:
  "readAcosDeploymentIdentity date_parse v (Some pin) \<noteq> None \<Longrightarrow> readAcosDeploymentIdentity date_parse v None \<noteq> None"
  by (auto simp: readAcosDeploymentIdentity_def split: option.splits if_splits)

lemma acos_schema_no_blank: "strip_blanks ACOS_ADMISSION_AUTH_SCHEMA = ACOS_ADMISSION_AUTH_SCHEMA"
  by code_simp

lemma acos_headers_apart: "ACOS_AUTH_SCHEMA_HEADER \<noteq> ACOS_AUTH_SIGNATURE_HEADER"
  "ACOS_AUTH_SCHEMA_HEADER \<notin> set ACOS_ADMISSION_PERMIT_HEADER_NAMES"
  "ACOS_AUTH_SIGNATURE_HEADER \<notin> set ACOS_ADMISSION_PERMIT_HEADER_NAMES"
  by code_simp+

text \<open>A signed request verifies at its receiver, and keeps everything but the two signature headers.\<close>

lemma acos_authenticated:
  assumes "authenticateAcosAdmissionRequest rq bodyText contract secret = Some rq'"
    and "acos_readBoundedBody (rq_body rq) = Some bodyText"
  shows "verifyAcosAdmissionRequestAuthentication rq' contract secret"
    and "rq_method rq' = rq_method rq" "rq_url rq' = rq_url rq" "rq_body rq' = rq_body rq"
    and "\<And>k. k \<in> set ACOS_ADMISSION_PERMIT_HEADER_NAMES \<Longrightarrow> headers_get (rq_headers rq') k = headers_get (rq_headers rq) k"
proof -
  obtain s where s: "acos_sign rq bodyText contract secret = Some s" and rq': "rq' = rq\<lparr>rq_headers := headers_set ACOS_AUTH_SIGNATURE_HEADER s
          (headers_set ACOS_AUTH_SCHEMA_HEADER ACOS_ADMISSION_AUTH_SCHEMA (rq_headers rq))\<rparr>"
    using assms(1) by (auto simp: authenticateAcosAdmissionRequest_def split: option.splits)
  have s_eq: "s = bytesHex (hmac_sha256 (utf8 secret) (utf8 (acos_signaturePayload rq bodyText contract)))"
    and secret: "validAcosAdmissionAuthSecret secret"
    using s by (auto simp: acos_sign_def split: if_splits)
  have pat: "sha256_pattern s" unfolding s_eq by (rule signature_pattern)
  show "rq_method rq' = rq_method rq" "rq_url rq' = rq_url rq" "rq_body rq' = rq_body rq" by (simp_all add: rq')
  show same: "headers_get (rq_headers rq') k = headers_get (rq_headers rq) k" if "k \<in> set ACOS_ADMISSION_PERMIT_HEADER_NAMES" for k
    using that acos_headers_apart by (auto simp: rq')
  then have "semantic_headers (rq_headers rq') ACOS_ADMISSION_PERMIT_HEADER_NAMES
      = semantic_headers (rq_headers rq) ACOS_ADMISSION_PERMIT_HEADER_NAMES"
    by (simp add: semantic_headers_def header_json_def)
  then have payload: "acos_signaturePayload rq' bodyText contract = acos_signaturePayload rq bodyText contract"
    by (simp add: acos_signaturePayload_def rq')
  have get: "headers_get (rq_headers rq') ACOS_AUTH_SIGNATURE_HEADER = Some s"
    "headers_get (rq_headers rq') ACOS_AUTH_SCHEMA_HEADER = Some ACOS_ADMISSION_AUTH_SCHEMA"
    using acos_headers_apart(1) by (simp_all add: rq' sha256_no_blank [OF pat] acos_schema_no_blank)
  have "hexBytes s = hmac_sha256 (utf8 secret) (utf8 (acos_signaturePayload rq bodyText contract))"
    using hexBytes_iff [OF pat] s_eq by blast
  then show "verifyAcosAdmissionRequestAuthentication rq' contract secret"
    using assms(2) pat secret \<open>rq_body rq' = rq_body rq\<close>
    by (simp add: verifyAcosAdmissionRequestAuthentication_def get payload)
qed

end
