(* ===== verification/Acos_Admission.thy ===== *)
theory Acos_Admission imports Acos_Identity Selection_Policy begin

text \<open>
  \<open>src/src/core/acos-admission.ts\<close>: asking the agent runtime to admit an agent. The request carries a permit
  of the runtime's own contract, derived from the operator's permit, and the answer is accepted only if
  it echoes that permit, comes from the pinned deployment, and holds a receipt that is bound to the
  inputs, the request and the permit. The provider is a function from requests to replies, or to what
  its fetch throws.
\<close>

section \<open>Constants\<close>

definition ACOS_ADMISSION_RECEIPT_SCHEMA :: string where
  "ACOS_ADMISSION_RECEIPT_SCHEMA = ''agentic-os-adapter-registration/v2''"
definition ACOS_ADMISSION_FINDING_SCHEMA :: string where
  "ACOS_ADMISSION_FINDING_SCHEMA = ''agentic-os-adapter-registration-finding/v1''"
definition ACOS_ADMISSION_PROVIDER_CONTRACT :: string where
  "ACOS_ADMISSION_PROVIDER_CONTRACT = ''commerce.agentic-os-admission-provider/v3''"
definition ACOS_ADMISSION_URL :: string where \<comment> \<open>origin and path\<close>
  "ACOS_ADMISSION_URL = ''https://agentic-os-admission.internal/agentic-os/internal/v2/adapter-registrations''"
definition ACOS_ADMISSION_SERVING_IDENTITY_HEADER :: string where
  "ACOS_ADMISSION_SERVING_IDENTITY_HEADER = ''x-agentic-os-serving-deployment-identity''"
definition COMMERCE_ADMISSION_OPERATOR_INSTRUCTION_REF :: string where
  "COMMERCE_ADMISSION_OPERATOR_INSTRUCTION_REF = ''operator://agentic-graph/commerce-adapter-admission/2026-09-03''"
definition MAXIMUM_ADMISSION_RESPONSE_BYTES :: nat where "MAXIMUM_ADMISSION_RESPONSE_BYTES = 262144"
definition MAXIMUM_SERVING_IDENTITY_HEADER_BYTES :: nat where "MAXIMUM_SERVING_IDENTITY_HEADER_BYTES = 2048"
definition AGENTIC_OS_MUTATION_PERMIT_SCHEMA :: string where
  "AGENTIC_OS_MUTATION_PERMIT_SCHEMA = ''agentic-os-authoring-mutation-permit/v2''"
definition AGENTIC_OS_OPERATION_SCHEMA :: string where
  "AGENTIC_OS_OPERATION_SCHEMA = ''agentic-os-authoring-operation/v1''"
definition AGENTIC_GRAPH_AUTHORITY_SCHEMA :: string where
  "AGENTIC_GRAPH_AUTHORITY_SCHEMA = ''agentic-graph-commerce-admission-authority-projection/v1''"
definition AGENTIC_GRAPH_AUTHORITY_REF_PREFIX :: string where
  "AGENTIC_GRAPH_AUTHORITY_REF_PREFIX = ''authority://agentic-graph/commerce-admission/''"
definition AGENTIC_GRAPH_ISSUER_REPOSITORY :: string where
  "AGENTIC_GRAPH_ISSUER_REPOSITORY = ''huijoohwee/agentic-graph''"
definition ADMISSION_SCOPE :: string where "ADMISSION_SCOPE = ''operator-registry''"
definition ADMISSION_WRITE_TARGET :: string where "ADMISSION_WRITE_TARGET = ''registry''"

definition ACOS_AGENT_DEFINITION_FIELDS :: "string list" where
  "ACOS_AGENT_DEFINITION_FIELDS = [''id'', ''revision'', ''name'', ''source'', ''model'', ''instructions'', ''tools'',
     ''guardrails'', ''mcpServers'', ''handoffs'', ''output'', ''status'']"

definition RECEIPT_KEYS :: "string list" where
  "RECEIPT_KEYS = [''schema'', ''adapter_identity'', ''agent_definition_id'', ''tool_allowlist_entry_id'',
     ''invocation_register_tokens'', ''resulting_status'', ''operator_instruction_reference'', ''registered_at_ms'',
     ''agentic_graph_authority'', ''deployment_identity'']"

definition AUTHORITY_KEYS :: "string list" where
  "AUTHORITY_KEYS = [''schema'', ''admission_inputs_digest'', ''admission_request_digest'', ''authority_ref'', ''evidence_digest'',
     ''issuer_repository'', ''issuer_revision'', ''permit_digest'', ''expires_at_ms'']"

definition FINDING_KEYS :: "string list" where
  "FINDING_KEYS = [''schema'', ''type'', ''adapter_identity'', ''reason_code'', ''message'', ''details'']"

definition UNFEDERATED_TERMINAL_REJECTION_CODES :: "string list" where
  "UNFEDERATED_TERMINAL_REJECTION_CODES = [''agent_capacity'', ''agent_definition_invalid'', ''agent_revision_capacity'',
     ''agent_revision_conflict'', ''fence_stale'', ''lease_expired'', ''mutation_out_of_write_set'', ''mutation_request_mismatch'',
     ''operator_instruction_required'', ''outcome_capacity'', ''registration_input_invalid'', ''registration_status_not_active'',
     ''tool_allowlist_capacity'', ''tool_allowlist_entry_conflict'', ''tool_allowlist_entry_invalid'', ''tool_allowlist_entry_missing'']"

definition UNCATALOGUED_TERMINAL_REJECTION_CODES :: "string list" where
  "UNCATALOGUED_TERMINAL_REJECTION_CODES = [''invocation_register_entry_invalid'']"

section \<open>Inputs\<close>

record admission_inputs =
  ai_agentDefinition :: json
  ai_toolAllowlistEntry :: json
  ai_invocationRegisterEntry :: json
  ai_operatorInstructionRef :: string

definition inputs_json :: "admission_inputs \<Rightarrow> json" where
  "inputs_json i = JObj [(''agentDefinition'', ai_agentDefinition i), (''toolAllowlistEntry'', ai_toolAllowlistEntry i),
     (''invocationRegisterEntry'', ai_invocationRegisterEntry i), (''operatorInstructionRef'', JStr (ai_operatorInstructionRef i))]"

definition projectCommerceAgentDefinitionForAcos :: "json \<Rightarrow> json option" where
  "projectCommerceAgentDefinitionForAcos v =
     (if \<not> isRecord v \<or> (case field v ''executableTarget'' of None \<Rightarrow> True | Some t \<Rightarrow> \<not> isRecord t)
         \<or> \<not> hasOnly v (''executableTarget'' # ACOS_AGENT_DEFINITION_FIELDS)
         \<or> \<not> list_all (\<lambda>k. field v k \<noteq> None) [''id'', ''revision'', ''name'', ''source'', ''model'', ''instructions'']
      then None
      else Some (JObj (concat (map (\<lambda>k. case field v k of Some w \<Rightarrow> [(k, w)] | None \<Rightarrow> []) ACOS_AGENT_DEFINITION_FIELDS))))"

section \<open>Permits of the runtime\<close>

definition validPermitFields :: "json \<Rightarrow> bool" where
  "validPermitFields v =
     (is_str (field v ''mutationId'') (path_pattern 255)
      \<and> is_str (field v ''operationId'') (path_pattern 255)
      \<and> is_str (field v ''requestDigest'') sha256_pattern
      \<and> is_num (field v ''mutationSequence'') (safe_ge 1)
      \<and> is_str (field v ''semanticScope'') (path_pattern 255)
      \<and> is_str (field v ''claimId'') (path_pattern 255)
      \<and> is_num (field v ''leaseEpoch'') (safe_ge 1)
      \<and> is_num (field v ''leaseExpiresAtMs'') (safe_ge 1)
      \<and> is_str (field v ''fenceRevision'') (path_pattern 255)
      \<and> is_str (field v ''requiredWriteTarget'') (text_within 512)
      \<and> is_num (field v ''reservedAtMs'') (safe_ge 0)
      \<and> int_of v ''reservedAtMs'' < int_of v ''leaseExpiresAtMs''
      \<and> text_of v ''operationId'' = ''operation:'' @ text_of v ''requestDigest''
      \<and> text_of v ''mutationId'' = mutation_id (int_of v ''leaseEpoch'') (int_of v ''mutationSequence'') (text_of v ''requestDigest''))"

text \<open>A permit of the runtime has the fields of the operator's permit and its own schema.\<close>

definition admission_permit_json :: "mutation_permit \<Rightarrow> json" where
  "admission_permit_json p = JObj [
     (''schema'', JStr AGENTIC_OS_MUTATION_PERMIT_SCHEMA), (''mutationId'', JStr (pm_mutationId p)),
     (''operationId'', JStr (pm_operationId p)), (''requestDigest'', JStr (pm_requestDigest p)),
     (''mutationSequence'', JNum (Integer (pm_mutationSequence p))), (''semanticScope'', JStr (pm_semanticScope p)),
     (''claimId'', JStr (pm_claimId p)), (''leaseEpoch'', JNum (Integer (pm_leaseEpoch p))),
     (''leaseExpiresAtMs'', JNum (Integer (pm_leaseExpiresAtMs p))), (''fenceRevision'', JStr (pm_fenceRevision p)),
     (''requiredWriteTarget'', JStr (pm_requiredWriteTarget p)), (''reservedAtMs'', JNum (Integer (pm_reservedAtMs p)))]"

definition agenticOsAdmissionRequestDigest :: "json \<Rightarrow> string" where
  "agenticOsAdmissionRequestDigest authoringMutationIntent = sha256Hex (canonicalJson (JObj [
     (''schema'', JStr AGENTIC_OS_OPERATION_SCHEMA),
     (''semanticScope'', JStr ADMISSION_SCOPE),
     (''writeTarget'', JStr ADMISSION_WRITE_TARGET),
     (''payload'', authoringMutationIntent)]))"

definition createAgenticOsAdmissionPermit :: "json \<Rightarrow> mutation_permit \<Rightarrow> mutation_permit option" where
  "createAgenticOsAdmissionPermit authoringMutationIntent permit =
     (if pm_semanticScope permit \<noteq> ADMISSION_SCOPE \<or> pm_requiredWriteTarget permit \<noteq> ADMISSION_WRITE_TARGET
         \<or> \<not> validPermitFields (permit_json permit)
      then None
      else if pm_requestDigest permit \<noteq> authoringMutationRequestDigest AGENT_REGISTRY_CLAIM authoringMutationIntent then None
      else let requestDigest = agenticOsAdmissionRequestDigest authoringMutationIntent
        in Some (permit\<lparr>pm_mutationId := mutation_id (pm_leaseEpoch permit) (pm_mutationSequence permit) requestDigest,
             pm_operationId := ''operation:'' @ requestDigest, pm_requestDigest := requestDigest\<rparr>))"

definition agenticOsAdmissionHeaders :: "mutation_permit \<Rightarrow> (string \<times> string) list" where
  "agenticOsAdmissionHeaders p = [
     (''x-authoring-mutation-contract'', AGENTIC_OS_MUTATION_PERMIT_SCHEMA),
     (''x-authoring-mutation-id'', pm_mutationId p),
     (''x-authoring-operation-id'', pm_operationId p),
     (''x-authoring-request-digest'', pm_requestDigest p),
     (''x-authoring-mutation-sequence'', int_text (pm_mutationSequence p)),
     (''x-authoring-semantic-scope'', pm_semanticScope p),
     (''x-authoring-claim-id'', pm_claimId p),
     (''x-authoring-lease-epoch'', int_text (pm_leaseEpoch p)),
     (''x-authoring-lease-expires-at-ms'', int_text (pm_leaseExpiresAtMs p)),
     (''x-authoring-fence-revision'', pm_fenceRevision p),
     (''x-authoring-write-target'', pm_requiredWriteTarget p),
     (''x-authoring-reserved-at-ms'', int_text (pm_reservedAtMs p))]"

definition readAgenticOsAdmissionPermit :: "headers \<Rightarrow> mutation_permit option" where
  "readAgenticOsAdmissionPermit h =
     (let permit = JObj [
        (''schema'', header_text h ''x-authoring-mutation-contract''),
        (''mutationId'', header_text h ''x-authoring-mutation-id''),
        (''operationId'', header_text h ''x-authoring-operation-id''),
        (''requestDigest'', header_text h ''x-authoring-request-digest''),
        (''mutationSequence'', header_number (readPositiveInteger (headers_get h ''x-authoring-mutation-sequence''))),
        (''semanticScope'', header_text h ''x-authoring-semantic-scope''),
        (''claimId'', header_text h ''x-authoring-claim-id''),
        (''leaseEpoch'', header_number (readPositiveInteger (headers_get h ''x-authoring-lease-epoch''))),
        (''leaseExpiresAtMs'', header_number (readPositiveInteger (headers_get h ''x-authoring-lease-expires-at-ms''))),
        (''fenceRevision'', header_text h ''x-authoring-fence-revision''),
        (''requiredWriteTarget'', header_text h ''x-authoring-write-target''),
        (''reservedAtMs'', header_number (readNonnegativeInteger (headers_get h ''x-authoring-reserved-at-ms'')))]
      in if field permit ''schema'' = Some (JStr AGENTIC_OS_MUTATION_PERMIT_SCHEMA) \<and> validPermitFields permit
         then Some (permit_of permit) else None)"

definition responseMatchesAgenticOsAdmission :: "headers \<Rightarrow> mutation_permit \<Rightarrow> bool" where
  "responseMatchesAgenticOsAdmission h p = list_all (\<lambda>(name, v). headers_get h name = Some v) (agenticOsAdmissionHeaders p)"

section \<open>The serving deployment\<close>

text \<open>\<open>None\<close> is the TypeError of a malformed identity.\<close>

definition agenticOsAdmissionServingIdentityHeaders :: "date_parser \<Rightarrow> json \<Rightarrow> (string \<times> string) list option" where
  "agenticOsAdmissionServingIdentityHeaders date_parse identity =
     (case readAcosDeploymentIdentity date_parse (Some identity) None of
        None \<Rightarrow> None | Some exact \<Rightarrow> Some [(ACOS_ADMISSION_SERVING_IDENTITY_HEADER, canonicalJson exact)])"

definition readAcosAdmissionServingIdentity :: "date_parser \<Rightarrow> headers \<Rightarrow> acos_pin \<Rightarrow> json option" where
  "readAcosAdmissionServingIdentity date_parse h expectedPin =
     (case headers_get h ACOS_ADMISSION_SERVING_IDENTITY_HEADER of
        None \<Rightarrow> None
      | Some serialized \<Rightarrow>
          if serialized = [] \<or> MAXIMUM_SERVING_IDENTITY_HEADER_BYTES < length (utf8 serialized) then None
          else case json_parse serialized of
            None \<Rightarrow> None
          | Some v \<Rightarrow>
              (case readAcosDeploymentIdentity date_parse (Some v) (Some expectedPin) of
                 None \<Rightarrow> None | Some identity \<Rightarrow> if canonicalJson identity = serialized then Some identity else None))"

section \<open>Receipts\<close>

definition isNonemptyString :: "json option \<Rightarrow> bool" where
  "isNonemptyString v = is_str v (\<lambda>s. js_trim s \<noteq> [])"

record expected_authority =
  xa_admissionInputsDigest :: string
  xa_admissionRequestDigest :: string
  xa_permitDigest :: string

definition authority_suffix_pattern :: "string \<Rightarrow> bool" where \<comment> \<open>\<open>/^[A-Za-z0-9][A-Za-z0-9._:-]{0,127}$/u\<close>\<close>
  "authority_suffix_pattern = id_pattern 127"

definition readGraphAuthority :: "json option \<Rightarrow> expected_authority option \<Rightarrow> json option" where
  "readGraphAuthority authority expected =
     (case authority of None \<Rightarrow> None
      | Some v \<Rightarrow>
          if \<not> isRecord v \<or> \<not> exact_keys v AUTHORITY_KEYS
             \<or> field v ''schema'' \<noteq> Some (JStr AGENTIC_GRAPH_AUTHORITY_SCHEMA)
             \<or> \<not> is_str (field v ''admission_inputs_digest'') sha256_pattern
             \<or> \<not> is_str (field v ''admission_request_digest'') sha256_pattern
             \<or> \<not> is_str (field v ''authority_ref'') (\<lambda>s. starts_with AGENTIC_GRAPH_AUTHORITY_REF_PREFIX s
                  \<and> authority_suffix_pattern (drop (length AGENTIC_GRAPH_AUTHORITY_REF_PREFIX) s))
             \<or> \<not> is_str (field v ''evidence_digest'') sha256_pattern
             \<or> field v ''issuer_repository'' \<noteq> Some (JStr AGENTIC_GRAPH_ISSUER_REPOSITORY)
             \<or> \<not> is_str (field v ''issuer_revision'') sha1_pattern
             \<or> \<not> is_str (field v ''permit_digest'') sha256_pattern
             \<or> \<not> is_num (field v ''expires_at_ms'') (safe_ge 0)
             \<or> (case expected of None \<Rightarrow> False
                | Some x \<Rightarrow> field v ''admission_inputs_digest'' \<noteq> Some (JStr (xa_admissionInputsDigest x))
                    \<or> field v ''admission_request_digest'' \<noteq> Some (JStr (xa_admissionRequestDigest x))
                    \<or> field v ''permit_digest'' \<noteq> Some (JStr (xa_permitDigest x)))
          then None
          else Some (JObj (map (\<lambda>k. (k, the (field v k))) AUTHORITY_KEYS)))"

definition register_tokens :: "json \<Rightarrow> string list option" where
  "register_tokens entry = those (map (\<lambda>k. as_str (field entry k)) [''route'', ''tag'', ''binding'', ''tool_identity''])"

definition isAcosAdmissionReceiptBoundToInputs ::
  "date_parser \<Rightarrow> json option \<Rightarrow> admission_inputs \<Rightarrow> expected_authority option \<Rightarrow> acos_pin option \<Rightarrow> bool" where
  "isAcosAdmissionReceiptBoundToInputs date_parse receipt input expectedAuthority deploymentPin =
     (case receipt of None \<Rightarrow> False
      | Some v \<Rightarrow>
          isRecord v \<and> exact_keys v RECEIPT_KEYS
          \<and> field v ''schema'' = Some (JStr ACOS_ADMISSION_RECEIPT_SCHEMA)
          \<and> field v ''resulting_status'' = Some (JStr ''active'')
          \<and> isNonemptyString (field v ''adapter_identity'')
          \<and> isNonemptyString (field v ''agent_definition_id'')
          \<and> isNonemptyString (field v ''tool_allowlist_entry_id'')
          \<and> field v ''operator_instruction_reference'' = Some (JStr (ai_operatorInstructionRef input))
          \<and> is_num (field v ''registered_at_ms'') (safe_ge 0)
          \<and> readGraphAuthority (field v ''agentic_graph_authority'') expectedAuthority \<noteq> None
          \<and> readAcosDeploymentIdentity date_parse (field v ''deployment_identity'') deploymentPin \<noteq> None
          \<and> isRecord (ai_agentDefinition input) \<and> isRecord (ai_toolAllowlistEntry input) \<and> isRecord (ai_invocationRegisterEntry input)
          \<and> field (ai_agentDefinition input) ''id'' = field v ''agent_definition_id''
          \<and> field (ai_toolAllowlistEntry input) ''agent_definition_id'' = field v ''agent_definition_id''
          \<and> field (ai_toolAllowlistEntry input) ''entry_id'' = field v ''tool_allowlist_entry_id''
          \<and> field (ai_toolAllowlistEntry input) ''adapter_identity'' = field v ''adapter_identity''
          \<and> (case register_tokens (ai_invocationRegisterEntry input) of
               None \<Rightarrow> False
             | Some expectedTokens \<Rightarrow> list_all (\<lambda>token. token \<noteq> []) expectedTokens
                 \<and> field v ''invocation_register_tokens'' = Some (JArr (map JStr expectedTokens))))"

section \<open>Requesting an admission\<close>

record admission_finding =
  af_type :: string
  af_adapter_identity :: "string option"
  af_reason_code :: string
  af_message :: string
  af_details :: json

definition readDurableTerminalRejection :: "json \<Rightarrow> admission_finding option" where
  "readDurableTerminalRejection v =
     (case field v ''finding'' of None \<Rightarrow> None
      | Some finding \<Rightarrow>
          if \<not> isRecord v \<or> \<not> exact_keys v [''status'', ''record'', ''finding''] \<or> field v ''status'' \<noteq> Some (JStr ''rejected'')
             \<or> field v ''record'' \<noteq> Some JNull \<or> \<not> isRecord finding \<or> \<not> exact_keys finding FINDING_KEYS
          then None
          else let exactTerminalPair =
              (if field finding ''type'' = Some (JStr ''unfederated-tool'')
               then coerced (field finding ''reason_code'') \<in> set UNFEDERATED_TERMINAL_REJECTION_CODES
               else field finding ''type'' = Some (JStr ''uncatalogued-tool'')
                 \<and> coerced (field finding ''reason_code'') \<in> set UNCATALOGUED_TERMINAL_REJECTION_CODES)
            in if field finding ''schema'' \<noteq> Some (JStr ACOS_ADMISSION_FINDING_SCHEMA)
                  \<or> (field finding ''type'' \<noteq> Some (JStr ''unfederated-tool'') \<and> field finding ''type'' \<noteq> Some (JStr ''uncatalogued-tool''))
                  \<or> (field finding ''adapter_identity'' \<noteq> Some JNull \<and> \<not> isNonemptyString (field finding ''adapter_identity''))
                  \<or> \<not> is_str (field finding ''reason_code'') (\<lambda>_. True)
                  \<or> \<not> exactTerminalPair
                  \<or> \<not> isNonemptyString (field finding ''message'')
                  \<or> (case field finding ''details'' of None \<Rightarrow> True | Some d \<Rightarrow> \<not> isRecord d)
               then None
               else Some \<lparr>af_type = text_of finding ''type'', af_adapter_identity = as_str (field finding ''adapter_identity''),
                      af_reason_code = text_of finding ''reason_code'', af_message = text_of finding ''message'',
                      af_details = the (field finding ''details'')\<rparr>)"

datatype admission_result =
    Admission_granted json
  | Admission_rejected string nat "admission_finding option" (safe_to_complete: bool)

type_synonym admission_provider = "request \<Rightarrow> thrown + response"

text \<open>The signed request: \<open>Inl\<close> is a header that cannot be built, \<open>Inr None\<close> a request that cannot be signed.\<close>

definition admission_request :: "admission_inputs \<Rightarrow> json \<Rightarrow> mutation_permit \<Rightarrow> string \<Rightarrow> unit + request option" where
  "admission_request input authoringMutationIntent admissionPermit authenticationSecret =
     (let body = json_text (JObj [
            (''agent_definition'', ai_agentDefinition input),
            (''authoring_mutation_intent'', authoringMutationIntent),
            (''tool_allowlist_entry'', ai_toolAllowlistEntry input),
            (''invocation_register_entry'', ai_invocationRegisterEntry input),
            (''operator_instruction_ref'', JStr (ai_operatorInstructionRef input))])
      in case make_headers ((''content-type'', ''application/json'') # agenticOsAdmissionHeaders admissionPermit) of
           None \<Rightarrow> Inl ()
         | Some h \<Rightarrow> Inr (authenticateAcosAdmissionRequest
             \<lparr>rq_method = ''POST'', rq_url = ACOS_ADMISSION_URL, rq_headers = h,
              rq_body = Some \<lparr>bd_chunks = [length (utf8 body)], bd_text = body, bd_valid = True\<rparr>\<rparr>
             body ACOS_ADMISSION_PROVIDER_CONTRACT authenticationSecret))"

definition expected_of :: "admission_inputs \<Rightarrow> mutation_permit \<Rightarrow> expected_authority" where
  "expected_of input admissionPermit = \<lparr>xa_admissionInputsDigest = sha256Hex (canonicalJson (inputs_json input)),
     xa_admissionRequestDigest = pm_requestDigest admissionPermit,
     xa_permitDigest = sha256Hex (canonicalJson (admission_permit_json admissionPermit))\<rparr>"

definition accepts_registration :: "date_parser \<Rightarrow> response \<Rightarrow> json \<Rightarrow> admission_inputs \<Rightarrow> mutation_permit \<Rightarrow> bool" where
  "accepts_registration date_parse r payload input admissionPermit =
     (rs_status r = 200 \<and> isRecord payload \<and> exact_keys payload [''status'', ''record'', ''finding'']
      \<and> field payload ''status'' = Some (JStr ''registered'') \<and> field payload ''finding'' = Some JNull
      \<and> isAcosAdmissionReceiptBoundToInputs date_parse (field payload ''record'') input (Some (expected_of input admissionPermit)) None)"

definition read_admission :: "date_parser \<Rightarrow> response \<Rightarrow> admission_inputs \<Rightarrow> mutation_permit \<Rightarrow> acos_pin \<Rightarrow> admission_result" where
  "read_admission date_parse r input admissionPermit deploymentPin =
     (if \<not> responseMatchesAgenticOsAdmission (rs_headers r) admissionPermit
      then Admission_rejected ''acos_admission_fence_unconfirmed'' (rs_status r) None False
      else let payload = readJsonResponse (rs_headers r) (rs_body r) MAXIMUM_ADMISSION_RESPONSE_BYTES
      in if isHttpFailure payload then Admission_rejected ''acos_admission_response_invalid'' (rs_status r) None False
      else if \<not> rs_ok r
      then (case if rs_status r = 409 then readDurableTerminalRejection payload else None of
              Some finding \<Rightarrow> Admission_rejected ''acos_admission_rejected'' (rs_status r) (Some finding) True
            | None \<Rightarrow> Admission_rejected ''acos_admission_rejection_invalid'' (rs_status r) None False)
      else if readAcosAdmissionServingIdentity date_parse (rs_headers r) deploymentPin = None
      then Admission_rejected ''acos_admission_serving_identity_invalid'' (rs_status r) None False
      else if accepts_registration date_parse r payload input admissionPermit
      then Admission_granted (the (field payload ''record''))
      else Admission_rejected ''acos_admission_receipt_invalid'' (rs_status r) None False)"

definition requestAcosAdmission ::
  "date_parser \<Rightarrow> admission_provider \<Rightarrow> admission_inputs \<Rightarrow> json \<Rightarrow> mutation_permit \<Rightarrow> acos_pin \<Rightarrow> string \<Rightarrow> admission_result" where
  "requestAcosAdmission date_parse binding input authoringMutationIntent permit deploymentPin authenticationSecret =
     (if ai_operatorInstructionRef input \<noteq> COMMERCE_ADMISSION_OPERATOR_INSTRUCTION_REF
      then Admission_rejected ''acos_admission_operator_instruction_reference_invalid'' 0 None False
      else if \<not> validAcosDeploymentPin deploymentPin then Admission_rejected ''acos_deployment_pin_invalid'' 0 None False
      else case createAgenticOsAdmissionPermit authoringMutationIntent permit of
        None \<Rightarrow> Admission_rejected ''acos_admission_permit_invalid'' 0 None False
      | Some admissionPermit \<Rightarrow>
          (case admission_request input authoringMutationIntent admissionPermit authenticationSecret of
             Inl _ \<Rightarrow> Admission_rejected ''acos_admission_provider_unavailable'' 503 None False
           | Inr None \<Rightarrow> Admission_rejected ''acos_admission_authentication_unavailable'' 0 None False
           | Inr (Some authenticated) \<Rightarrow>
               (case binding authenticated of
                  Inl _ \<Rightarrow> Admission_rejected ''acos_admission_provider_unavailable'' 503 None False
                | Inr r \<Rightarrow> read_admission date_parse r input admissionPermit deploymentPin)))"

definition probeAcosAdmission :: "date_parser \<Rightarrow> admission_provider \<Rightarrow> acos_pin option \<Rightarrow> string \<Rightarrow> json" where
  "probeAcosAdmission date_parse binding deploymentPin authenticationSecret =
     (let failed = (\<lambda>code. JObj [(''ok'', JBool False), (''code'', JStr code)])
      in case deploymentPin of
           None \<Rightarrow> failed ''acos_deployment_pin_invalid''
         | Some pin \<Rightarrow>
             if \<not> validAcosDeploymentPin pin then failed ''acos_deployment_pin_invalid''
             else case authenticateAcosAdmissionRequest \<lparr>rq_method = ''GET'', rq_url = ACOS_ADMISSION_URL @ ''/readyz'',
                    rq_headers = [], rq_body = None\<rparr> '''' ACOS_ADMISSION_PROVIDER_CONTRACT authenticationSecret of
               None \<Rightarrow> failed ''acos_admission_authentication_unavailable''
             | Some authenticated \<Rightarrow>
                 (case binding authenticated of
                    Inl _ \<Rightarrow> failed ''acos_admission_provider_unavailable''
                  | Inr r \<Rightarrow>
                      let payload = readJsonResponse (rs_headers r) (rs_body r) MAXIMUM_ADMISSION_RESPONSE_BYTES;
                          authority = readGraphAuthority (field payload ''authority'') None;
                          identity = readAcosDeploymentIdentity date_parse (field payload ''deploymentIdentity'') (Some pin);
                          valid = (rs_status r = 200 \<and> isRecord payload
                            \<and> exact_keys payload [''ok'', ''contract'', ''receiptSchema'', ''operations'', ''productionReady'',
                                 ''deploymentIdentity'', ''authority'']
                            \<and> field payload ''ok'' = Some (JBool True) \<and> field payload ''productionReady'' = Some (JBool True)
                            \<and> field payload ''contract'' = Some (JStr ACOS_ADMISSION_PROVIDER_CONTRACT)
                            \<and> field payload ''receiptSchema'' = Some (JStr ACOS_ADMISSION_RECEIPT_SCHEMA)
                            \<and> field payload ''operations'' = Some (JArr [JStr ''register-fenced''])
                            \<and> authority \<noteq> None \<and> identity \<noteq> None)
                      in JObj [(''ok'', JBool (rs_ok r \<and> valid)), (''status'', JNum (Integer (int (rs_status r)))),
                           (''contract'', if valid then JStr ACOS_ADMISSION_PROVIDER_CONTRACT else JNull),
                           (''receiptSchema'', if valid then JStr ACOS_ADMISSION_RECEIPT_SCHEMA else JNull),
                           (''deploymentIdentity'', if valid then the identity else JNull),
                           (''authority'', if valid then the authority else JNull)]))"

section \<open>Facts about permits\<close>

lemma admission_permit_fields:
  "field (admission_permit_json p) ''schema'' = Some (JStr AGENTIC_OS_MUTATION_PERMIT_SCHEMA)"
  "k \<noteq> ''schema'' \<Longrightarrow> field (admission_permit_json p) k = field (permit_json p) k"
  by (simp_all add: admission_permit_json_def permit_json_def)

lemma validPermitFields_json: "validPermitFields (permit_json p) = permit_ok p"
  unfolding validPermitFields_def permit_ok_def
  by (auto simp: permit_json_fields int_of_def text_of_def)

lemma validPermitFields_admission: "validPermitFields (admission_permit_json p) = permit_ok p"
  unfolding validPermitFields_json [symmetric] validPermitFields_def int_of_def text_of_def
  by (simp add: admission_permit_fields(2))

lemma permit_of_admission: "permit_of (admission_permit_json p) = p"
  unfolding permit_of_def int_of_def text_of_def by (simp add: admission_permit_json_def)

lemma mutation_id_other_digest:
  assumes "authoring_id (mutation_id e n d)" "sha256_pattern d" "sha256_pattern d'"
  shows "authoring_id (mutation_id e n d')"
proof -
  have hex: "path_tail c" if "is_hex c" for c using that by (auto simp: char_class_defs)
  have "list_all path_tail (take 32 d')" "length (take 32 d') = length (take 32 d)"
    using assms(2,3) hex by (auto simp: sha256_pattern_def all_chars_def list_all_iff dest: in_set_takeD)
  then show ?thesis using assms(1) by (auto simp: mutation_id_def path_pattern_def head_tail_def)
qed

lemma operation_id_ok: "sha256_pattern d \<Longrightarrow> authoring_id (''operation:'' @ d)"
proof -
  assume d: "sha256_pattern d"
  have "path_tail c" if "is_hex c" for c using that by (auto simp: char_class_defs)
  then have "list_all path_tail d" using d by (auto simp: sha256_pattern_def all_chars_def list_all_iff)
  moreover have "list_all path_tail ''peration:''" "is_alnum (CHR ''o'')" by code_simp+
  ultimately show ?thesis using sha256_length [OF d] by (simp add: path_pattern_def head_tail_def)
qed

text \<open>The permit of the runtime: well formed, for the same claim and position, bound to the intent.\<close>

lemma created_permit:
  assumes "createAgenticOsAdmissionPermit intent permit = Some p"
  shows "permit_ok p" "permit_ok permit"
    and "pm_requestDigest permit = authoringMutationRequestDigest AGENT_REGISTRY_CLAIM intent"
    and "pm_requestDigest p = agenticOsAdmissionRequestDigest intent"
    and "p = permit\<lparr>pm_mutationId := pm_mutationId p, pm_operationId := pm_operationId p, pm_requestDigest := pm_requestDigest p\<rparr>"
    and "pm_requiredWriteTarget p = ''registry''"
proof -
  let ?d = "agenticOsAdmissionRequestDigest intent"
  have ok: "permit_ok permit" and p: "p = permit\<lparr>pm_mutationId := mutation_id (pm_leaseEpoch permit) (pm_mutationSequence permit) ?d,
             pm_operationId := ''operation:'' @ ?d, pm_requestDigest := ?d\<rparr>"
    and target: "pm_requiredWriteTarget permit = ''registry''"
    using assms by (auto simp: createAgenticOsAdmissionPermit_def Let_def validPermitFields_json ADMISSION_WRITE_TARGET_def split: if_splits)
  show "permit_ok permit" by (rule ok)
  show "pm_requestDigest permit = authoringMutationRequestDigest AGENT_REGISTRY_CLAIM intent"
    using assms by (auto simp: createAgenticOsAdmissionPermit_def split: if_splits)
  have d: "sha256_pattern ?d" by (simp add: agenticOsAdmissionRequestDigest_def)
  have "authoring_id (mutation_id (pm_leaseEpoch permit) (pm_mutationSequence permit) ?d)"
    using mutation_id_other_digest [OF _ _ d] ok by (metis permit_ok_def)
  with ok d operation_id_ok [OF d] show "permit_ok p" unfolding permit_ok_def p by simp
  show "pm_requestDigest p = ?d" "p = permit\<lparr>pm_mutationId := pm_mutationId p, pm_operationId := pm_operationId p, pm_requestDigest := pm_requestDigest p\<rparr>"
    "pm_requiredWriteTarget p = ''registry''"
    using target by (simp_all add: p)
qed

lemma agentic_schema_safe: "header_safe AGENTIC_OS_MUTATION_PERMIT_SCHEMA" "header_safe ''application/json''" "header_safe ''registry''"
  by code_simp+

lemma admission_headers_made:
  assumes "permit_ok p" "pm_requiredWriteTarget p = ''registry''"
  shows "make_headers ((''content-type'', ''application/json'') # agenticOsAdmissionHeaders p)
    = Some ((''content-type'', ''application/json'') # agenticOsAdmissionHeaders p)"
proof (rule make_headers_safe)
  have ids: "authoring_id (pm_mutationId p)" "authoring_id (pm_operationId p)" "authoring_id (pm_semanticScope p)"
    "authoring_id (pm_claimId p)" "authoring_id (pm_fenceRevision p)" "sha256_pattern (pm_requestDigest p)"
    and numbers: "0 \<le> pm_mutationSequence p" "0 \<le> pm_leaseEpoch p" "0 \<le> pm_leaseExpiresAtMs p" "0 \<le> pm_reservedAtMs p"
    using assms(1) unfolding permit_ok_def by (blast, blast, blast, blast, blast, blast, simp_all)
  have "header_safe (int_text i)" if "0 \<le> i" for i using header_safe_fields(3) [of "nat i"] that by simp
  then show "list_all (\<lambda>(name, v). header_safe v) ((''content-type'', ''application/json'') # agenticOsAdmissionHeaders p)"
    using ids numbers assms(2) agentic_schema_safe by (simp add: agenticOsAdmissionHeaders_def header_safe_fields)
qed

text \<open>Headers that echo a permit are read as that permit.\<close>

lemma echoed_permit_read:
  assumes "permit_ok p" "responseMatchesAgenticOsAdmission h p"
  shows "readAgenticOsAdmissionPermit h = Some p"
proof -
  have get: "headers_get h ''x-authoring-mutation-contract'' = Some AGENTIC_OS_MUTATION_PERMIT_SCHEMA"
    "headers_get h ''x-authoring-mutation-id'' = Some (pm_mutationId p)"
    "headers_get h ''x-authoring-operation-id'' = Some (pm_operationId p)"
    "headers_get h ''x-authoring-request-digest'' = Some (pm_requestDigest p)"
    "headers_get h ''x-authoring-mutation-sequence'' = Some (int_text (pm_mutationSequence p))"
    "headers_get h ''x-authoring-semantic-scope'' = Some (pm_semanticScope p)"
    "headers_get h ''x-authoring-claim-id'' = Some (pm_claimId p)"
    "headers_get h ''x-authoring-lease-epoch'' = Some (int_text (pm_leaseEpoch p))"
    "headers_get h ''x-authoring-lease-expires-at-ms'' = Some (int_text (pm_leaseExpiresAtMs p))"
    "headers_get h ''x-authoring-fence-revision'' = Some (pm_fenceRevision p)"
    "headers_get h ''x-authoring-write-target'' = Some (pm_requiredWriteTarget p)"
    "headers_get h ''x-authoring-reserved-at-ms'' = Some (int_text (pm_reservedAtMs p))"
    using assms(2) by (simp_all add: responseMatchesAgenticOsAdmission_def agenticOsAdmissionHeaders_def)
  have numbers: "readPositiveInteger (Some (int_text (pm_mutationSequence p))) = Some (pm_mutationSequence p)"
    "readPositiveInteger (Some (int_text (pm_leaseEpoch p))) = Some (pm_leaseEpoch p)"
    "readPositiveInteger (Some (int_text (pm_leaseExpiresAtMs p))) = Some (pm_leaseExpiresAtMs p)"
    "readNonnegativeInteger (Some (int_text (pm_reservedAtMs p))) = Some (pm_reservedAtMs p)"
    using assms(1) by (auto simp: permit_ok_def intro!: readPositiveInteger_text readNonnegativeInteger_text)
  show ?thesis
    unfolding readAgenticOsAdmissionPermit_def header_text_def header_number_def get numbers option.case
      admission_permit_json_def [symmetric] Let_def validPermitFields_admission permit_of_admission admission_permit_fields(1)
    using assms(1) by simp
qed

lemma permit_header_names: "map fst (agenticOsAdmissionHeaders p) = ACOS_ADMISSION_PERMIT_HEADER_NAMES"
  by (simp add: agenticOsAdmissionHeaders_def ACOS_ADMISSION_PERMIT_HEADER_NAMES_def)

text \<open>What the provider receives: a request it can authenticate, with the permit in its headers.\<close>

lemma admission_request_received:
  assumes "admission_request input intent p secret = Inr (Some rq)" "permit_ok p" "pm_requiredWriteTarget p = ''registry''"
  shows "verifyAcosAdmissionRequestAuthentication rq ACOS_ADMISSION_PROVIDER_CONTRACT secret"
    "readAgenticOsAdmissionPermit (rq_headers rq) = Some p"
proof -
  obtain rq0 body where auth: "authenticateAcosAdmissionRequest rq0 body ACOS_ADMISSION_PROVIDER_CONTRACT secret = Some rq"
    and h: "rq_headers rq0 = (''content-type'', ''application/json'') # agenticOsAdmissionHeaders p"
    and b: "rq_body rq0 = Some \<lparr>bd_chunks = [length (utf8 body)], bd_text = body, bd_valid = True\<rparr>"
    using assms(1) unfolding admission_request_def admission_headers_made [OF assms(2,3)] Let_def by auto
  have "length (utf8 body) \<le> MAXIMUM_AUTH_BODY_BYTES"
    using auth by (auto simp: authenticateAcosAdmissionRequest_def acos_sign_def split: if_splits)
  then have "acos_readBoundedBody (rq_body rq0) = Some body"
    by (simp add: acos_readBoundedBody_def b)
  note received = acos_authenticated [OF auth this]
  show "verifyAcosAdmissionRequestAuthentication rq ACOS_ADMISSION_PROVIDER_CONTRACT secret" by (rule received(1))
  have echo: "responseMatchesAgenticOsAdmission (rq_headers rq0) p"
    by (simp add: h responseMatchesAgenticOsAdmission_def headers_get_def agenticOsAdmissionHeaders_def)
  have "headers_get (rq_headers rq) (fst e) = headers_get (rq_headers rq0) (fst e)" if "e \<in> set (agenticOsAdmissionHeaders p)" for e
    using received(5) that permit_header_names [of p] by (metis image_eqI list.set_map)
  with echo have "responseMatchesAgenticOsAdmission (rq_headers rq) p"
    by (auto simp: responseMatchesAgenticOsAdmission_def list_all_iff)
  then show "readAgenticOsAdmissionPermit (rq_headers rq) = Some p" by (rule echoed_permit_read [OF assms(2)])
qed

section \<open>Facts about receipts\<close>

lemma receipt_keys_distinct: "distinct RECEIPT_KEYS" "distinct AUTHORITY_KEYS"
  by (simp_all add: RECEIPT_KEYS_def AUTHORITY_KEYS_def)

lemma nonempty_strE:
  assumes "isNonemptyString v"
  obtains s where "v = Some (JStr s)" "js_trim s \<noteq> []"
  using assms by (auto simp: isNonemptyString_def elim: is_strE)

lemma authority_fields:
  assumes "readGraphAuthority (Some v) expected \<noteq> None" "k \<in> set AUTHORITY_KEYS"
  shows "(\<exists>s. field v k = Some (JStr s)) \<or> (\<exists>i. field v k = Some (JNum (Integer i)))"
  using assms
  by (auto simp: readGraphAuthority_def AUTHORITY_KEYS_def elim!: is_strE is_numE safe_geE split: if_splits)

lemma authority_storable: "readGraphAuthority (Some v) expected \<noteq> None \<Longrightarrow> storable v"
proof (rule exact_keys_storable [OF _ receipt_keys_distinct(2)])
  assume r: "readGraphAuthority (Some v) expected \<noteq> None"
  then show "exact_keys v AUTHORITY_KEYS" by (auto simp: readGraphAuthority_def split: if_splits)
  show "\<exists>w. field v k = Some w \<and> storable w" if "k \<in> set AUTHORITY_KEYS" for k
    using authority_fields [OF r that] by auto
qed

lemma authority_canonical:
  assumes "readGraphAuthority (Some v) expected \<noteq> None"
  shows "readGraphAuthority (Some (canonicalValue v)) expected \<noteq> None"
proof -
  note st = authority_storable [OF assms]
  have same: "field (canonicalValue v) k = field v k" if "k \<in> set AUTHORITY_KEYS" for k
    using authority_fields [OF assms that] by (auto simp: field_canonicalValue [OF st])
  then have f: "field (canonicalValue v) ''schema'' = field v ''schema''"
    "field (canonicalValue v) ''admission_inputs_digest'' = field v ''admission_inputs_digest''"
    "field (canonicalValue v) ''admission_request_digest'' = field v ''admission_request_digest''"
    "field (canonicalValue v) ''authority_ref'' = field v ''authority_ref''"
    "field (canonicalValue v) ''evidence_digest'' = field v ''evidence_digest''"
    "field (canonicalValue v) ''issuer_repository'' = field v ''issuer_repository''"
    "field (canonicalValue v) ''issuer_revision'' = field v ''issuer_revision''"
    "field (canonicalValue v) ''permit_digest'' = field v ''permit_digest''"
    "field (canonicalValue v) ''expires_at_ms'' = field v ''expires_at_ms''"
    by (simp_all add: AUTHORITY_KEYS_def)
  show ?thesis using assms
    unfolding readGraphAuthority_def option.case f exact_keys_canonical [OF st] isRecord_canonicalValue
    by (simp split: if_splits)
qed

lemma authority_unexpected: "readGraphAuthority v (Some x) \<noteq> None \<Longrightarrow> readGraphAuthority v None \<noteq> None"
  by (auto simp: readGraphAuthority_def split: option.splits if_splits)

text \<open>A receipt that was bound to a request is bound to the inputs.\<close>

lemma bound_weaken:
  "isAcosAdmissionReceiptBoundToInputs date_parse v input (Some x) None \<Longrightarrow>
     isAcosAdmissionReceiptBoundToInputs date_parse v input None None"
  using authority_unexpected [of _ x]
  by (auto simp: isAcosAdmissionReceiptBoundToInputs_def split: option.splits)

definition canonical_inputs :: "admission_inputs \<Rightarrow> admission_inputs" where
  "canonical_inputs i = \<lparr>ai_agentDefinition = canonicalValue (ai_agentDefinition i),
     ai_toolAllowlistEntry = canonicalValue (ai_toolAllowlistEntry i),
     ai_invocationRegisterEntry = canonicalValue (ai_invocationRegisterEntry i),
     ai_operatorInstructionRef = ai_operatorInstructionRef i\<rparr>"

definition storable_inputs :: "admission_inputs \<Rightarrow> bool" where
  "storable_inputs i = (storable (ai_agentDefinition i) \<and> storable (ai_toolAllowlistEntry i) \<and> storable (ai_invocationRegisterEntry i))"

definition bound_receipt :: "date_parser \<Rightarrow> json \<Rightarrow> admission_inputs \<Rightarrow> bool" where
  "bound_receipt date_parse v input = isAcosAdmissionReceiptBoundToInputs date_parse (Some v) input None None"

lemma storable_inputs_json: "storable_inputs i \<Longrightarrow> storable (inputs_json i)"
  by (simp add: storable_inputs_def inputs_json_def storable_JObj)

text \<open>The fields of a bound receipt.\<close>

lemma bound_receipt_fields:
  assumes "bound_receipt date_parse v input"
  obtains adapter agent entry tokens since authority identity where
    "exact_keys v RECEIPT_KEYS" "isRecord v"
    "field v ''schema'' = Some (JStr ACOS_ADMISSION_RECEIPT_SCHEMA)" "field v ''resulting_status'' = Some (JStr ''active'')"
    "field v ''adapter_identity'' = Some (JStr adapter)" "js_trim adapter \<noteq> []"
    "field v ''agent_definition_id'' = Some (JStr agent)" "js_trim agent \<noteq> []"
    "field v ''tool_allowlist_entry_id'' = Some (JStr entry)" "js_trim entry \<noteq> []"
    "field v ''operator_instruction_reference'' = Some (JStr (ai_operatorInstructionRef input))"
    "field v ''registered_at_ms'' = Some (JNum (Integer since))" "0 \<le> since" "\<bar>since\<bar> \<le> max_safe"
    "field v ''agentic_graph_authority'' = Some authority" "readGraphAuthority (Some authority) None \<noteq> None"
    "field v ''deployment_identity'' = Some identity" "readAcosDeploymentIdentity date_parse (Some identity) None \<noteq> None"
    "field v ''invocation_register_tokens'' = Some (JArr (map JStr tokens))" "list_all (\<lambda>t. t \<noteq> []) tokens"
    "register_tokens (ai_invocationRegisterEntry input) = Some tokens"
    "isRecord (ai_agentDefinition input)" "isRecord (ai_toolAllowlistEntry input)" "isRecord (ai_invocationRegisterEntry input)"
    "field (ai_agentDefinition input) ''id'' = Some (JStr agent)"
    "field (ai_toolAllowlistEntry input) ''agent_definition_id'' = Some (JStr agent)"
    "field (ai_toolAllowlistEntry input) ''entry_id'' = Some (JStr entry)"
    "field (ai_toolAllowlistEntry input) ''adapter_identity'' = Some (JStr adapter)"
proof -
  from assms have b: "isAcosAdmissionReceiptBoundToInputs date_parse (Some v) input None None" by (simp add: bound_receipt_def)
  obtain authority where a: "field v ''agentic_graph_authority'' = Some authority"
    using b by (cases "field v ''agentic_graph_authority''") (auto simp: isAcosAdmissionReceiptBoundToInputs_def readGraphAuthority_def)
  obtain identity where i: "field v ''deployment_identity'' = Some identity"
    using b by (cases "field v ''deployment_identity''") (auto simp: isAcosAdmissionReceiptBoundToInputs_def readAcosDeploymentIdentity_def)
  obtain tokens where t: "register_tokens (ai_invocationRegisterEntry input) = Some tokens"
    "list_all (\<lambda>t. t \<noteq> []) tokens" "field v ''invocation_register_tokens'' = Some (JArr (map JStr tokens))"
    using b unfolding isAcosAdmissionReceiptBoundToInputs_def by (fastforce split: option.splits)
  have n: "isNonemptyString (field v ''adapter_identity'')" "isNonemptyString (field v ''agent_definition_id'')"
    "isNonemptyString (field v ''tool_allowlist_entry_id'')" "is_num (field v ''registered_at_ms'') (safe_ge 0)"
    using b unfolding isAcosAdmissionReceiptBoundToInputs_def option.case by blast+
  obtain adapter where n1: "field v ''adapter_identity'' = Some (JStr adapter)" "js_trim adapter \<noteq> []" using n(1) by (rule nonempty_strE)
  obtain agent where n2: "field v ''agent_definition_id'' = Some (JStr agent)" "js_trim agent \<noteq> []" using n(2) by (rule nonempty_strE)
  obtain entry where n3: "field v ''tool_allowlist_entry_id'' = Some (JStr entry)" "js_trim entry \<noteq> []" using n(3) by (rule nonempty_strE)
  obtain since where n4: "field v ''registered_at_ms'' = Some (JNum (Integer since))" "0 \<le> since" "\<bar>since\<bar> \<le> max_safe"
    using n(4) by (auto elim!: is_numE safe_geE)
  show thesis
    by (rule that [of adapter agent entry since authority identity tokens])
      (use b in \<open>simp_all add: isAcosAdmissionReceiptBoundToInputs_def n1 n2 n3 n4 a i t\<close>)
qed

lemma receipt_agent:
  assumes "bound_receipt date_parse v input"
  shows "field v ''agent_definition_id'' = Some (JStr (text_of v ''agent_definition_id''))"
    "field (ai_agentDefinition input) ''id'' = Some (JStr (text_of v ''agent_definition_id''))"
  using assms by (auto elim!: bound_receipt_fields simp: text_of_def)

lemma bound_receipt_storable:
  assumes "bound_receipt date_parse v input"
  shows "storable v"
  using assms
proof (rule bound_receipt_fields, goal_cases)
  case (1 adapter agent entry tokens since authority identity)
  obtain identity' where "readAcosDeploymentIdentity date_parse (Some identity) None = Some identity'" using 1(18) by auto
  then have "storable identity" using identity_storable by blast
  then show ?case
    by (intro exact_keys_storable [OF 1(1) receipt_keys_distinct(1)])
      (use 1 authority_storable [OF 1(16)] in \<open>auto simp: RECEIPT_KEYS_def storable_JArr\<close>)
qed

lemma those_canonical:
  assumes "storable v" "those (map (\<lambda>k. as_str (field v k)) ks) = Some ts"
  shows "those (map (\<lambda>k. as_str (field (canonicalValue v) k)) ks) = Some ts"
  using assms(2)
proof (induction ks arbitrary: ts)
  case (Cons k ks)
  then show ?case by (auto simp: field_canonicalValue [OF assms(1)] split: option.splits)
qed simp

text \<open>A bound receipt and its inputs are still bound to each other after they have been stored and read back.\<close>

lemma bound_receipt_canonical:
  assumes "bound_receipt date_parse v input" "storable_inputs input"
  shows "bound_receipt date_parse (canonicalValue v) (canonical_inputs input)"
  using assms(1)
proof (rule bound_receipt_fields, goal_cases)
  case (1 adapter agent entry tokens since authority identity)
  note st = bound_receipt_storable [OF assms(1)]
  have sti: "storable (ai_agentDefinition input)" "storable (ai_toolAllowlistEntry input)" "storable (ai_invocationRegisterEntry input)"
    using assms(2) by (simp_all add: storable_inputs_def)
  have keys: "exact_keys (canonicalValue v) RECEIPT_KEYS" using 1(1) by (simp add: exact_keys_canonical [OF st])
  have tokens: "register_tokens (canonicalValue (ai_invocationRegisterEntry input)) = Some tokens"
    using those_canonical [OF sti(3)] 1(21) by (simp only: register_tokens_def)
  have nonempty: "isNonemptyString (Some (JStr s))" if "js_trim s \<noteq> []" for s using that by (simp add: isNonemptyString_def)
  have arr: "canonicalValue (JArr (map JStr tokens)) = JArr (map JStr tokens)" by simp
  show ?case
    unfolding bound_receipt_def isAcosAdmissionReceiptBoundToInputs_def option.case canonical_inputs_def admission_inputs.simps
      field_canonicalValue [OF st] field_canonicalValue [OF sti(1)] field_canonicalValue [OF sti(2)]
      1(3-5,7,9,11,12,15,17,19) 1(25-28) option.map tokens isRecord_canonicalValue arr
    using keys 1 authority_canonical [OF 1(16)] identity_canonical [OF 1(18)] nonempty by simp
qed

section \<open>What an answer is worth\<close>

lemma granted_admission:
  assumes "requestAcosAdmission date_parse binding input intent permit pin secret = Admission_granted receipt"
  obtains p rq r where "createAgenticOsAdmissionPermit intent permit = Some p" "admission_request input intent p secret = Inr (Some rq)"
    "binding rq = Inr r" "responseMatchesAgenticOsAdmission (rs_headers r) p"
    "readAcosAdmissionServingIdentity date_parse (rs_headers r) pin \<noteq> None" "validAcosDeploymentPin pin"
    "isAcosAdmissionReceiptBoundToInputs date_parse (Some receipt) input (Some (expected_of input p)) None"
    "ai_operatorInstructionRef input = COMMERCE_ADMISSION_OPERATOR_INSTRUCTION_REF"
  using assms
  by (auto simp: requestAcosAdmission_def read_admission_def Let_def accepts_registration_def
      isAcosAdmissionReceiptBoundToInputs_def
      split: if_splits option.splits sum.splits)

lemma released_admission:
  assumes "requestAcosAdmission date_parse binding input intent permit pin secret = Admission_rejected code status finding True"
  obtains p rq r f where "createAgenticOsAdmissionPermit intent permit = Some p" "admission_request input intent p secret = Inr (Some rq)"
    "binding rq = Inr r" "responseMatchesAgenticOsAdmission (rs_headers r) p" "code = ''acos_admission_rejected''" "rs_status r = 409" "finding = Some f"
    "readDurableTerminalRejection (readJsonResponse (rs_headers r) (rs_body r) MAXIMUM_ADMISSION_RESPONSE_BYTES) = Some f"
  using assms
  by (auto simp: requestAcosAdmission_def read_admission_def Let_def split: if_splits option.splits sum.splits) metis

end
