(* ===== verification/Sandbox_Registration.thy ===== *)
theory Sandbox_Registration imports Acos_Admission begin

text \<open>
  \<open>src/src/core/sandbox-registration.ts\<close>: before an agent is registered its tools are run once in a sandbox,
  and the record of that dry run is checked. The sandbox is a function from requests to replies, or to
  what its fetch throws.
\<close>

section \<open>Dry-run records\<close>

definition tool_pattern :: "string \<Rightarrow> bool" where \<comment> \<open>\<open>/^[a-z0-9][a-z0-9._-]{0,127}$/u\<close>\<close>
  "tool_pattern = head_tail (\<lambda>c. is_lower c \<or> is_digit c) (\<lambda>c. is_lower c \<or> is_digit c \<or> c \<in> set ''._-'') 127"

definition attempt_ok :: "json \<Rightarrow> bool" where
  "attempt_ok attempt = (isRecord attempt \<and> is_str (field attempt ''toolId'') tool_pattern
     \<and> field attempt ''allowlisted'' = Some (JBool True) \<and> field attempt ''outcome'' = Some (JStr ''executed''))"

definition dry_attempt_json :: "string \<Rightarrow> json" where
  "dry_attempt_json toolId = JObj [(''toolId'', JStr toolId), (''allowlisted'', JBool True), (''outcome'', JStr ''executed'')]"

definition readDryAttempts :: "json option \<Rightarrow> string list option" where
  "readDryAttempts v = (case v of
     Some (JArr attempts) \<Rightarrow> if list_all attempt_ok attempts then Some (map (\<lambda>a. text_of a ''toolId'') attempts) else None
   | _ \<Rightarrow> None)"

definition dates_ordered :: "date_parser \<Rightarrow> json \<Rightarrow> bool" where
  "dates_ordered date_parse record' =
     (case (as_str (field record' ''startedAt''), as_str (field record' ''endedAt'')) of
        (Some startedAt, Some endedAt) \<Rightarrow>
          (case (date_parse startedAt, date_parse endedAt) of
             (Some s, Some e) \<Rightarrow> \<not> e < s | _ \<Rightarrow> False)
      | _ \<Rightarrow> False)"

definition dry_run_json :: "json \<Rightarrow> string list \<Rightarrow> json" where
  "dry_run_json record' toolIds = JObj [
     (''instanceId'', JStr (text_of record' ''instanceId'')), (''purpose'', JStr ''registration-dry-run''),
     (''startedAt'', JStr (text_of record' ''startedAt'')), (''endedAt'', JStr (text_of record' ''endedAt'')),
     (''outcome'', JStr ''completed''), (''exceededLimit'', JNull), (''configuredValue'', JNull),
     (''attemptedCalls'', JArr (map dry_attempt_json toolIds))]"

definition readCompletedRecord :: "date_parser \<Rightarrow> json \<Rightarrow> string list option \<Rightarrow> json option" where
  "readCompletedRecord date_parse payload expectedTools =
     (case field payload ''record'' of
        None \<Rightarrow> None
      | Some record' \<Rightarrow>
          if \<not> isRecord payload \<or> field payload ''ok'' \<noteq> Some (JBool True) \<or> \<not> isRecord record' then None
          else if \<not> is_str (field record' ''instanceId'') (\<lambda>_. True)
             \<or> field record' ''purpose'' \<noteq> Some (JStr ''registration-dry-run'')
             \<or> \<not> dates_ordered date_parse record'
             \<or> field record' ''outcome'' \<noteq> Some (JStr ''completed'')
             \<or> field record' ''exceededLimit'' \<noteq> Some JNull
             \<or> field record' ''configuredValue'' \<noteq> Some JNull
          then None
          else case readDryAttempts (field record' ''attemptedCalls'') of
            None \<Rightarrow> None
          | Some toolIds \<Rightarrow>
              if (case expectedTools of None \<Rightarrow> False
                  | Some tools \<Rightarrow> canonicalJson (JArr (map JStr toolIds)) \<noteq> canonicalJson (JArr (map JStr tools)))
              then None
              else Some (dry_run_json record' toolIds))"

definition isRegistrationDryRunRecord :: "date_parser \<Rightarrow> json \<Rightarrow> bool" where
  "isRegistrationDryRunRecord date_parse v =
     (readCompletedRecord date_parse (JObj [(''ok'', JBool True), (''record'', v)]) None \<noteq> None)"

section \<open>Running a registration\<close>

definition REGISTRATION_DRY_RUN_WALL_CLOCK_SECONDS :: int where "REGISTRATION_DRY_RUN_WALL_CLOCK_SECONDS = 60"
definition SANDBOX_MAXIMUM_RESPONSE_BYTES :: nat where "SANDBOX_MAXIMUM_RESPONSE_BYTES = 262144"

definition definition_tool_ok :: "json \<Rightarrow> bool" where
  "definition_tool_ok tool = (isRecord tool \<and> hasOnly tool [''name'', ''loading''] \<and> is_str (field tool ''name'') tool_pattern
     \<and> field tool ''loading'' \<in> {None, Some (JStr ''direct''), Some (JStr ''deferred'')})"

definition readDefinitionToolNames :: "json option \<Rightarrow> string list option" where
  "readDefinitionToolNames v = (case v of
     None \<Rightarrow> Some []
   | Some (JArr tools) \<Rightarrow>
       if 500 < length tools \<or> \<not> list_all definition_tool_ok tools then None
       else let names = map (\<lambda>t. text_of t ''name'') tools in if distinct names then Some names else None
   | _ \<Rightarrow> None)"

definition readAllowlist :: "json option \<Rightarrow> string list option" where
  "readAllowlist v = (case strings_of v of
     None \<Rightarrow> None
   | Some names \<Rightarrow> if length names \<le> 500 \<and> list_all tool_pattern names \<and> distinct names then Some names else None)"

text \<open>The body of the request, and the tools that it runs.\<close>

definition buildRegistrationDryRunRequest :: "json \<Rightarrow> json \<Rightarrow> (json \<times> string list) option" where
  "buildRegistrationDryRunRequest agentDefinition toolAllowlistEntry =
     (if \<not> isRecord agentDefinition \<or> \<not> isRecord toolAllowlistEntry then None
      else case (readDefinitionToolNames (field agentDefinition ''tools''), readAllowlist (field toolAllowlistEntry ''tool_names'')) of
        (Some toolNames, Some allowlist) \<Rightarrow>
          let digest = sha256Hex (canonicalJson (JObj [(''agentDefinition'', agentDefinition),
                (''allowlist'', JArr (map JStr allowlist)), (''toolNames'', JArr (map JStr toolNames))]))
          in Some (JObj [
               (''instanceId'', JStr (''registration-'' @ take 32 digest)),
               (''purpose'', JStr ''registration-dry-run''),
               (''limits'', JObj [(''wallClockSeconds'', JNum (Integer REGISTRATION_DRY_RUN_WALL_CLOCK_SECONDS)),
                  (''memoryMegabytes'', JNum (Integer 256))]),
               (''payload'', JObj ([(''registration'', agentDefinition),
                  (''toolCalls'', JArr (map (\<lambda>toolId. JObj [(''toolId'', JStr toolId), (''input'', JObj [])]) toolNames))]
                  @ (case field agentDefinition ''executableTarget'' of None \<Rightarrow> [] | Some t \<Rightarrow> [(''executableTarget'', t)]))),
               (''declaredAllowlist'', JArr (map JStr allowlist))], toolNames)
      | _ \<Rightarrow> None)"

datatype dry_run_code = Registration_dry_run_invalid | Registration_dry_run_rejected | Sandbox_blocked

datatype dry_run_result = Dry_run_completed json | Dry_run_failed dry_run_code string

definition readBlockedReason :: "json \<Rightarrow> string" where
  "readBlockedReason payload =
     (case field payload ''reason'' of
        Some (JStr reason) \<Rightarrow> if field payload ''code'' = Some (JStr ''sandbox_blocked'') then reason else ''sandbox_execution_failed''
      | _ \<Rightarrow> ''sandbox_execution_failed'')"

text \<open>The binding may be absent.\<close>

definition runRegistrationDryRun ::
  "date_parser \<Rightarrow> (request \<Rightarrow> thrown + response) option \<Rightarrow> json \<Rightarrow> json \<Rightarrow> dry_run_result" where
  "runRegistrationDryRun date_parse sandbox agentDefinition toolAllowlistEntry =
     (case buildRegistrationDryRunRequest agentDefinition toolAllowlistEntry of
        None \<Rightarrow> Dry_run_failed Registration_dry_run_invalid ''registration_or_allowlist_invalid''
      | Some (body, toolNames) \<Rightarrow>
          (case sandbox of
             None \<Rightarrow> Dry_run_failed Sandbox_blocked ''sandbox_binding_unavailable''
           | Some fetch' \<Rightarrow>
               let text' = json_text body
               in case fetch' \<lparr>rq_method = ''POST'', rq_url = ''https://sandbox.internal/v1/run'',
                     rq_headers = [(''content-type'', ''application/json'')],
                     rq_body = Some \<lparr>bd_chunks = [length (utf8 text')], bd_text = text', bd_valid = True\<rparr>\<rparr> of
                 Inl _ \<Rightarrow> Dry_run_failed Sandbox_blocked ''sandbox_request_failed''
               | Inr r \<Rightarrow>
                   let payload = readJsonResponse (rs_headers r) (rs_body r) SANDBOX_MAXIMUM_RESPONSE_BYTES
                   in if \<not> rs_ok r
                      then (if isRecord payload \<and> field payload ''code'' = Some (JStr ''sandbox_call_not_allowlisted'')
                            then Dry_run_failed Registration_dry_run_rejected ''sandbox_call_not_allowlisted''
                            else Dry_run_failed Sandbox_blocked (readBlockedReason payload))
                      else case readCompletedRecord date_parse payload (Some toolNames) of
                        Some record' \<Rightarrow> Dry_run_completed record'
                      | None \<Rightarrow> Dry_run_failed Sandbox_blocked ''sandbox_response_invalid''))"

section \<open>Readiness of the sandbox\<close>

definition DEVICE_HOST_CONTRACT :: string where "DEVICE_HOST_CONTRACT = ''commerce.local-execution-host/v2''"

definition record_at :: "json \<Rightarrow> string \<Rightarrow> json option" where
  "record_at v k = (case field v k of Some w \<Rightarrow> if isRecord w then Some w else None | None \<Rightarrow> None)"

definition probe_runtime_valid :: "json \<Rightarrow> bool \<Rightarrow> bool" where
  "probe_runtime_valid payload deviceLane =
     (if deviceLane
      then (case record_at payload ''hostProbe'' of None \<Rightarrow> False
        | Some hostProbe \<Rightarrow> exact_keys hostProbe [''ok'', ''contract'', ''availability'', ''bundleSha256'', ''imageId'']
            \<and> field hostProbe ''ok'' = Some (JBool True) \<and> field hostProbe ''contract'' = Some (JStr DEVICE_HOST_CONTRACT)
            \<and> field hostProbe ''availability'' = Some (JStr ''device-session'')
            \<and> is_str (field hostProbe ''bundleSha256'') sha256_pattern \<and> is_str (field hostProbe ''imageId'') sha256_pattern)
      else (case record_at payload ''containerProbe'' of None \<Rightarrow> False
        | Some containerProbe \<Rightarrow> exact_keys containerProbe [''ok'', ''runtime'', ''version'']
            \<and> field containerProbe ''ok'' = Some (JBool True) \<and> field containerProbe ''runtime'' = Some (JStr ''node'')
            \<and> field containerProbe ''version'' = Some (JStr ''v22.22.3'')))"

definition probeRegistrationSandbox ::
  "date_parser \<Rightarrow> (request \<Rightarrow> thrown + response) \<Rightarrow> string \<Rightarrow> string \<Rightarrow> string \<Rightarrow> bool \<times> nat \<times> string option" where
  "probeRegistrationSandbox date_parse binding lane candidateSha candidateDigest =
     (case binding \<lparr>rq_method = ''GET'', rq_url = ''https://sandbox.internal/readyz'', rq_headers = [], rq_body = None\<rparr> of
        Inl _ \<Rightarrow> (False, 503, None)
      | Inr r \<Rightarrow>
          let payload = readJsonResponse (rs_headers r) (rs_body r) SANDBOX_MAXIMUM_RESPONSE_BYTES;
              deviceLane = (lane = ''Production'' \<or> lane = ''Staging'');
              version_ok = (case record_at payload ''version'' of None \<Rightarrow> False
                | Some version \<Rightarrow> exact_keys version [''id'', ''tag'', ''timestamp'']
                    \<and> is_str (field version ''id'') (\<lambda>s. s \<noteq> []) \<and> field version ''tag'' = Some (JStr candidateSha)
                    \<and> is_str (field version ''timestamp'') (\<lambda>s. date_parse s \<noteq> None));
              valid = (rs_status r = 200 \<and> isRecord payload
                \<and> exact_keys payload [if deviceLane then ''hostProbe'' else ''containerProbe'', ''ok'', ''contract'', ''lane'',
                     ''releaseCandidateDigest'', ''releaseCandidateSha'', ''version'']
                \<and> field payload ''ok'' = Some (JBool True)
                \<and> field payload ''contract'' = Some (JStr ''agentic-commerce-registration-sandbox/v1'')
                \<and> field payload ''lane'' = Some (JStr lane) \<and> field payload ''releaseCandidateSha'' = Some (JStr candidateSha)
                \<and> field payload ''releaseCandidateDigest'' = Some (JStr candidateDigest)
                \<and> version_ok \<and> probe_runtime_valid payload deviceLane)
          in (valid, rs_status r, if valid then map_option (\<lambda>v. text_of v ''id'') (record_at payload ''version'') else None))"

section \<open>Facts\<close>

text \<open>What a valid record holds.\<close>

lemma dry_run_fields:
  assumes "isRegistrationDryRunRecord date_parse v"
  obtains instance' startedAt endedAt s e attempts where "isRecord v" "field v ''instanceId'' = Some (JStr instance')"
    "field v ''purpose'' = Some (JStr ''registration-dry-run'')" "field v ''startedAt'' = Some (JStr startedAt)"
    "field v ''endedAt'' = Some (JStr endedAt)" "date_parse startedAt = Some s" "date_parse endedAt = Some e" "s \<le> e"
    "field v ''outcome'' = Some (JStr ''completed'')" "field v ''exceededLimit'' = Some JNull" "field v ''configuredValue'' = Some JNull"
    "field v ''attemptedCalls'' = Some (JArr attempts)" "list_all attempt_ok attempts"
  using assms
  by (auto simp: isRegistrationDryRunRecord_def readCompletedRecord_def dates_ordered_def readDryAttempts_def
      split: if_splits option.splits json.splits elim!: is_strE)

lemma dry_run_recordI:
  assumes "isRecord v" "field v ''instanceId'' = Some (JStr instance')"
    "field v ''purpose'' = Some (JStr ''registration-dry-run'')" "field v ''startedAt'' = Some (JStr startedAt)"
    "field v ''endedAt'' = Some (JStr endedAt)" "date_parse startedAt = Some s" "date_parse endedAt = Some e" "s \<le> e"
    "field v ''outcome'' = Some (JStr ''completed'')" "field v ''exceededLimit'' = Some JNull" "field v ''configuredValue'' = Some JNull"
    "field v ''attemptedCalls'' = Some (JArr attempts)" "list_all attempt_ok attempts"
  shows "isRegistrationDryRunRecord date_parse v"
  using assms by (simp add: isRegistrationDryRunRecord_def readCompletedRecord_def dates_ordered_def readDryAttempts_def)

lemma attempt_ok_canonical: "storable a \<Longrightarrow> attempt_ok a \<Longrightarrow> attempt_ok (canonicalValue a)"
  by (auto simp: attempt_ok_def field_canonicalValue elim!: is_strE)

lemma dry_run_canonical:
  assumes "isRegistrationDryRunRecord date_parse v" "storable v"
  shows "isRegistrationDryRunRecord date_parse (canonicalValue v)"
  using assms(1)
proof (rule dry_run_fields, goal_cases)
  case (1 instance' startedAt endedAt s e attempts)
  obtain kvs where v: "v = JObj kvs" using 1(1) by (cases v) auto
  have "storable (JArr attempts)" using storable_lookup assms(2) 1(12) unfolding v field.simps by blast
  then have "list_all attempt_ok (map canonicalValue attempts)"
    using 1(13) attempt_ok_canonical by (auto simp: list_all_iff)
  then show ?case
    by (intro dry_run_recordI [of _ instance' startedAt endedAt _ s e "map canonicalValue attempts"])
      (use 1 in \<open>simp_all add: field_canonicalValue [OF assms(2)]\<close>)
qed

text \<open>A completed record is what the next reader accepts, and it can be stored.\<close>

lemma completed_record:
  assumes "readCompletedRecord date_parse payload expectedTools = Some v"
  shows "isRegistrationDryRunRecord date_parse v" "storable v"
    and "expectedTools = Some tools \<Longrightarrow> field v ''attemptedCalls'' = Some (JArr (map dry_attempt_json tools))"
proof -
  obtain r ids where r: "field payload ''record'' = Some r" "readDryAttempts (field r ''attemptedCalls'') = Some ids" "dates_ordered date_parse r"
    and v: "v = dry_run_json r ids"
    and tools: "expectedTools = Some tools \<Longrightarrow> canonicalJson (JArr (map JStr ids)) = canonicalJson (JArr (map JStr tools))"
    using assms by (auto simp: readCompletedRecord_def split: option.splits if_splits)
  obtain s e where se: "date_parse (text_of r ''startedAt'') = Some s" "date_parse (text_of r ''endedAt'') = Some e" "s \<le> e"
    using r(3) by (auto simp: dates_ordered_def text_of_def split: option.splits)
  have ids: "list_all tool_pattern ids"
    using r(2) by (auto simp: readDryAttempts_def attempt_ok_def list_all_iff dest!: text_of_is_str split: option.splits json.splits if_splits)
  show "isRegistrationDryRunRecord date_parse v"
    by (rule dry_run_recordI [of _ "text_of r ''instanceId''" "text_of r ''startedAt''" "text_of r ''endedAt''" _ s e "map dry_attempt_json ids"])
      (use ids se in \<open>auto simp: v dry_run_json_def attempt_ok_def dry_attempt_json_def list_all_iff\<close>)
  show "storable v"
    by (auto simp: v dry_run_json_def storable_JObj storable_JArr dry_attempt_json_def)
  show "field v ''attemptedCalls'' = Some (JArr (map dry_attempt_json tools))" if "expectedTools = Some tools"
  proof -
    have "canonicalValue (JArr (map JStr ids)) = canonicalValue (JArr (map JStr tools))"
      using canonicalJson_eq [OF _ _ tools [OF that]] by (simp add: storable_JArr)
    then have "map JStr ids = map JStr tools" by (simp add: comp_def)
    then have "ids = tools" by (metis json.inject(3) inj_map_eq_map injI)
    then show ?thesis by (simp add: v dry_run_json_def)
  qed
qed

end
