(* ===== verification/Registry_Record.thy ===== *)
theory Registry_Record imports Sandbox_Registration Exclusive_Router begin

text \<open>
  \<open>src/src/core/agent-registry-record.ts\<close>: the record of a registered agent, its row in the registry's table,
  and the checks that a record passes again every time it is read. The regular expressions of an
  invocation proof are tested on the strings that its type declares.
\<close>

section \<open>Invocation proofs\<close>

record invocation_proof =
  ip_sourceRevision :: string
  ip_catalogDigest :: string
  ip_routingSchema :: string
  ip_routingDigest :: string
  ip_commands :: jsnum
  ip_semantics :: jsnum
  ip_bindings :: jsnum
  ip_requiredTokens :: "string list"

definition proof_json :: "invocation_proof \<Rightarrow> json" where
  "proof_json p = JObj [(''sourceRevision'', JStr (ip_sourceRevision p)), (''catalogDigest'', JStr (ip_catalogDigest p)),
     (''routingSchema'', JStr (ip_routingSchema p)), (''routingDigest'', JStr (ip_routingDigest p)),
     (''counts'', JObj [(''command'', JNum (ip_commands p)), (''semantic'', JNum (ip_semantics p)), (''binding'', JNum (ip_bindings p))]),
     (''requiredTokens'', JArr (map JStr (ip_requiredTokens p)))]"

definition num_of :: "json option \<Rightarrow> jsnum" where
  "num_of v = (case as_num v of Some n \<Rightarrow> n | None \<Rightarrow> NotANumber)"

text \<open>The typed view of a stored proof.\<close>

definition proof_of :: "json \<Rightarrow> invocation_proof" where
  "proof_of v = (let count = (\<lambda>k. num_of (Option.bind (field v ''counts'') (\<lambda>c. field c k)))
     in \<lparr>ip_sourceRevision = text_of v ''sourceRevision'', ip_catalogDigest = text_of v ''catalogDigest'',
         ip_routingSchema = text_of v ''routingSchema'', ip_routingDigest = text_of v ''routingDigest'',
         ip_commands = count ''command'', ip_semantics = count ''semantic'', ip_bindings = count ''binding'',
         ip_requiredTokens = (case strings_of (field v ''requiredTokens'') of Some ts \<Rightarrow> ts | None \<Rightarrow> [])\<rparr>)"

definition CATALOG_LIMIT :: nat where "CATALOG_LIMIT = 500"

definition routing_schema_pattern :: "string \<Rightarrow> bool" where \<comment> \<open>\<open>/^[A-Za-z0-9][A-Za-z0-9._/-]{0,127}$/u\<close>\<close>
  "routing_schema_pattern = head_tail is_alnum (\<lambda>c. is_alnum c \<or> c \<in> set ''._/-'') 127"

definition token_pattern :: "string \<Rightarrow> bool" where
  \<comment> \<open>\<open>/^[/#@][A-Za-z0-9](?:[A-Za-z0-9._-]{0,126}|[A-Za-z0-9._-]{0,125}:)$/u\<close>\<close>
  "token_pattern s = (case s of
     a # b # rest \<Rightarrow> a \<in> set ''/#@'' \<and> is_alnum b
       \<and> (all_chars (\<lambda>c. is_alnum c \<or> c \<in> set ''._-'') 0 126 rest
          \<or> rest \<noteq> [] \<and> last rest = CHR '':'' \<and> all_chars (\<lambda>c. is_alnum c \<or> c \<in> set ''._-'') 0 125 (butlast rest))
   | _ \<Rightarrow> False)"

definition validInvocationProof :: "invocation_proof \<Rightarrow> bool" where
  "validInvocationProof p =
     (sha1_pattern (ip_sourceRevision p) \<and> sha256_pattern (ip_catalogDigest p)
      \<and> routing_schema_pattern (ip_routingSchema p) \<and> sha256_pattern (ip_routingDigest p)
      \<and> list_all (safe_ge 0) [ip_commands p, ip_semantics p, ip_bindings p]
      \<and> 3 \<le> length (ip_requiredTokens p) \<and> length (ip_requiredTokens p) \<le> CATALOG_LIMIT
      \<and> list_all token_pattern (ip_requiredTokens p) \<and> distinct (ip_requiredTokens p))"

definition invalidInvocationProof :: invocation_proof where
  "invalidInvocationProof = \<lparr>ip_sourceRevision = '''', ip_catalogDigest = '''', ip_routingSchema = '''', ip_routingDigest = '''',
     ip_commands = Integer (- 1), ip_semantics = Integer (- 1), ip_bindings = Integer (- 1), ip_requiredTokens = []\<rparr>"

section \<open>Commerce projections\<close>

record commerce_projection =
  cp_category :: string
  cp_discoveryTool :: string
  cp_declaredAttributes :: declared_attributes
  cp_fallbackAgentId :: "string option"

definition attributes_json :: "declared_attributes \<Rightarrow> json" where
  "attributes_json a = JObj [(''priceMinor'', JNum (da_priceMinor a)), (''qualityScore'', JNum (da_qualityScore a)),
     (''latencyMs'', JNum (da_latencyMs a))]"

definition text_or_null :: "string option \<Rightarrow> json" where
  "text_or_null v = (case v of Some s \<Rightarrow> JStr s | None \<Rightarrow> JNull)"

definition projection_json :: "commerce_projection \<Rightarrow> json" where
  "projection_json p = JObj [(''category'', JStr (cp_category p)), (''discoveryTool'', JStr (cp_discoveryTool p)),
     (''declaredAttributes'', attributes_json (cp_declaredAttributes p)), (''fallbackAgentId'', text_or_null (cp_fallbackAgentId p))]"

definition registry_tool_pattern :: "string \<Rightarrow> bool" where \<comment> \<open>\<open>/^[A-Za-z][A-Za-z0-9._:-]{0,127}$/u\<close>\<close>
  "registry_tool_pattern = head_tail (\<lambda>c. is_lower c \<or> is_upper c) id_tail 127"

definition validAgentId :: "string \<Rightarrow> bool" where
  "validAgentId s = (js_trim s \<noteq> [] \<and> length s \<le> 256)"

definition readDeclaredAttributes :: "json option \<Rightarrow> declared_attributes option" where
  "readDeclaredAttributes v =
     (case v of None \<Rightarrow> None
      | Some a \<Rightarrow>
          if \<not> isRecord a \<or> \<not> hasOnly a [''priceMinor'', ''qualityScore'', ''latencyMs'']
             \<or> \<not> list_all (\<lambda>k. is_num (field a k) (safe_ge 0)) [''priceMinor'', ''qualityScore'', ''latencyMs'']
          then None
          else Some \<lparr>da_priceMinor = num_of (field a ''priceMinor''), da_qualityScore = num_of (field a ''qualityScore''),
                 da_latencyMs = num_of (field a ''latencyMs'')\<rparr>)"

definition readCommerceProjection :: "json \<Rightarrow> admission_inputs \<Rightarrow> commerce_projection option" where
  "readCommerceProjection v admissionInputs =
     (if \<not> isRecord v \<or> \<not> hasOnly v [''category'', ''discoveryTool'', ''declaredAttributes'', ''fallbackAgentId''] then None
      else case normalizeAgentCategory (field v ''category'') of
        None \<Rightarrow> None
      | Some category \<Rightarrow>
          if \<not> is_str (field v ''discoveryTool'') registry_tool_pattern then None
          else case readDeclaredAttributes (field v ''declaredAttributes'') of
            None \<Rightarrow> None
          | Some declaredAttributes \<Rightarrow>
              let fallbackAgentId = as_str (field v ''fallbackAgentId'');
                  allowlist = ai_toolAllowlistEntry admissionInputs
              in if field v ''fallbackAgentId'' \<noteq> Some JNull \<and> \<not> is_str (field v ''fallbackAgentId'') validAgentId
                    \<or> (fallbackAgentId \<noteq> None \<and> isRecord (ai_agentDefinition admissionInputs)
                       \<and> field v ''fallbackAgentId'' = field (ai_agentDefinition admissionInputs) ''id'')
                 then None
                 else if \<not> isRecord allowlist
                    \<or> (case field allowlist ''tool_names'' of
                         Some (JArr names) \<Rightarrow> JStr (text_of v ''discoveryTool'') \<notin> set names | _ \<Rightarrow> True)
                 then None
                 else Some \<lparr>cp_category = category, cp_discoveryTool = text_of v ''discoveryTool'',
                        cp_declaredAttributes = declaredAttributes, cp_fallbackAgentId = fallbackAgentId\<rparr>)"

definition registrationContentHash :: "admission_inputs \<Rightarrow> json \<Rightarrow> invocation_proof \<Rightarrow> commerce_projection \<Rightarrow> string" where
  "registrationContentHash admissionInputs admissionReceipt invocationProof commerceProjection = sha256Hex (canonicalJson (JObj [
     (''admissionInputs'', inputs_json admissionInputs), (''admissionReceipt'', admissionReceipt),
     (''invocationProof'', proof_json invocationProof), (''commerceProjection'', projection_json commerceProjection)]))"

section \<open>Rows and records\<close>

record stored_agent =
  ar_agent_id :: string
  ar_category :: string
  ar_discovery_tool :: string
  ar_declared_attributes_json :: "string option"
  ar_fallback_agent_id :: "string option"
  ar_admission_input_json :: string
  ar_admission_input_hash :: string
  ar_admission_receipt_json :: string
  ar_invocation_proof_json :: "string option"
  ar_content_hash :: string
  ar_sandbox_dry_run_json :: "string option"
  ar_registration_state :: registration_state
  ar_updated_at :: string

record stored_registry_record =
  rg_agentId :: string
  rg_category :: string
  rg_declaredAttributes :: declared_attributes
  rg_fallbackAgentId :: "string option"
  rg_commerceProjection :: commerce_projection
  rg_admissionInputs :: admission_inputs
  rg_admissionReceipt :: json
  rg_invocationProof :: invocation_proof
  rg_admissionInputHash :: string
  rg_contentHash :: string
  rg_discoveryTool :: string
  rg_sandboxDryRun :: "json option"
  rg_registrationState :: registration_state
  rg_updatedAt :: string

record registry_record = stored_registry_record +
  rg_admissionVerified :: bool

text \<open>The inputs in the column the registry writes have all four fields.\<close>

definition inputs_of :: "json \<Rightarrow> admission_inputs" where
  "inputs_of v = (let part = (\<lambda>k. case field v k of Some w \<Rightarrow> w | None \<Rightarrow> JNull)
     in \<lparr>ai_agentDefinition = part ''agentDefinition'', ai_toolAllowlistEntry = part ''toolAllowlistEntry'',
         ai_invocationRegisterEntry = part ''invocationRegisterEntry'', ai_operatorInstructionRef = text_of v ''operatorInstructionRef''\<rparr>)"

text \<open>A column that is null or empty is falsy.\<close>

definition parse_nullable :: "string option \<Rightarrow> json option" where
  "parse_nullable column = (case column of None \<Rightarrow> None | Some t \<Rightarrow> if t = [] then None else Some (parse_column t))"

definition unreadable_attributes :: declared_attributes where
  "unreadable_attributes = \<lparr>da_priceMinor = Integer (- 1), da_qualityScore = Integer (- 1), da_latencyMs = Integer (- 1)\<rparr>"

definition readStoredAgent :: "date_parser \<Rightarrow> stored_agent \<Rightarrow> stored_registry_record" where
  "readStoredAgent date_parse row =
     (let declaredAttributes = (case readDeclaredAttributes (parse_nullable (ar_declared_attributes_json row)) of
            Some a \<Rightarrow> a | None \<Rightarrow> unreadable_attributes)
      in \<lparr>rg_agentId = ar_agent_id row, rg_category = ar_category row, rg_declaredAttributes = declaredAttributes,
          rg_fallbackAgentId = ar_fallback_agent_id row,
          rg_commerceProjection = \<lparr>cp_category = ar_category row, cp_discoveryTool = ar_discovery_tool row,
            cp_declaredAttributes = declaredAttributes, cp_fallbackAgentId = ar_fallback_agent_id row\<rparr>,
          rg_admissionInputs = inputs_of (parse_column (ar_admission_input_json row)),
          rg_admissionReceipt = parse_column (ar_admission_receipt_json row),
          rg_invocationProof = (case parse_nullable (ar_invocation_proof_json row) of
            Some v \<Rightarrow> proof_of v | None \<Rightarrow> invalidInvocationProof),
          rg_admissionInputHash = ar_admission_input_hash row, rg_contentHash = ar_content_hash row,
          rg_discoveryTool = ar_discovery_tool row,
          rg_sandboxDryRun = (case parse_nullable (ar_sandbox_dry_run_json row) of
            Some v \<Rightarrow> if isRegistrationDryRunRecord date_parse v then Some v else None | None \<Rightarrow> None),
          rg_registrationState = ar_registration_state row, rg_updatedAt = ar_updated_at row\<rparr>)"

definition admission_verified :: "date_parser \<Rightarrow> stored_registry_record \<Rightarrow> bool" where
  "admission_verified date_parse r =
     (field (rg_admissionReceipt r) ''agent_definition_id'' = Some (JStr (rg_agentId r))
      \<and> rg_category r = cp_category (rg_commerceProjection r)
      \<and> rg_discoveryTool r = cp_discoveryTool (rg_commerceProjection r)
      \<and> isAcosAdmissionReceiptBoundToInputs date_parse (Some (rg_admissionReceipt r)) (rg_admissionInputs r) None None
      \<and> validInvocationProof (rg_invocationProof r)
      \<and> readCommerceProjection (projection_json (rg_commerceProjection r)) (rg_admissionInputs r) \<noteq> None
      \<and> (case rg_sandboxDryRun r of Some v \<Rightarrow> isRegistrationDryRunRecord date_parse v | None \<Rightarrow> False)
      \<and> rg_admissionInputHash r = sha256Hex (canonicalJson (inputs_json (rg_admissionInputs r)))
      \<and> rg_contentHash r = registrationContentHash (rg_admissionInputs r) (rg_admissionReceipt r) (rg_invocationProof r)
           (rg_commerceProjection r))"

definition verifyStoredAgent :: "date_parser \<Rightarrow> stored_registry_record \<Rightarrow> registry_record" where
  "verifyStoredAgent date_parse r =
     stored_registry_record.extend r \<lparr>rg_admissionVerified = admission_verified date_parse r\<rparr>"

section \<open>Registrations\<close>

record registration_intent =
  in_admissionInputs :: admission_inputs
  in_invocationProof :: invocation_proof
  in_commerceProjection :: json
  in_expectedPreviousContentHash :: "string option"
  in_sandboxDryRun :: json

definition validRegistrationIntent :: "date_parser \<Rightarrow> registration_intent \<Rightarrow> bool" where
  "validRegistrationIntent date_parse i =
     (ai_operatorInstructionRef (in_admissionInputs i) = COMMERCE_ADMISSION_OPERATOR_INSTRUCTION_REF
      \<and> isRegistrationDryRunRecord date_parse (in_sandboxDryRun i)
      \<and> validInvocationProof (in_invocationProof i)
      \<and> (case in_expectedPreviousContentHash i of None \<Rightarrow> True | Some h \<Rightarrow> sha256_pattern h))"

definition sameRegistration :: "registry_record \<Rightarrow> string \<Rightarrow> invocation_proof \<Rightarrow> commerce_projection \<Rightarrow> bool" where
  "sameRegistration existing admissionInputHash invocationProof commerceProjection =
     (rg_registrationState existing = Registered_active \<and> rg_admissionVerified existing
      \<and> rg_admissionInputHash existing = admissionInputHash
      \<and> canonicalJson (proof_json (rg_invocationProof existing)) = canonicalJson (proof_json invocationProof)
      \<and> canonicalJson (projection_json (rg_commerceProjection existing)) = canonicalJson (projection_json commerceProjection))"

text \<open>The first three required tokens are the first three tokens of the receipt.\<close>

definition tokens_aligned :: "string list \<Rightarrow> json option \<Rightarrow> bool" where
  "tokens_aligned required receiptTokens = (case receiptTokens of
     Some (JArr ts) \<Rightarrow> list_all (\<lambda>(i, token). i < length ts \<and> ts ! i = JStr token) (enumerate 0 (take 3 required))
   | _ \<Rightarrow> False)"

definition invocationAligned :: "registry_record \<Rightarrow> invocation_proof \<Rightarrow> bool" where
  "invocationAligned r expected =
     (rg_admissionVerified r \<and> canonicalJson (proof_json (rg_invocationProof r)) = canonicalJson (proof_json expected)
      \<and> tokens_aligned (ip_requiredTokens expected) (field (rg_admissionReceipt r) ''invocation_register_tokens''))"

section \<open>Reading back what was stored\<close>

lemma validInvocationProof_storable: "validInvocationProof p \<Longrightarrow> storable (proof_json p)"
  by (auto simp: validInvocationProof_def proof_json_def storable_JObj storable_JArr elim!: safe_geE)

lemma proof_of_canonical:
  assumes "validInvocationProof p"
  shows "proof_of (canonicalValue (proof_json p)) = p"
proof -
  note st = validInvocationProof_storable [OF assms]
  have fields: "field (canonicalValue (proof_json p)) k = map_option canonicalValue (field (proof_json p) k)" for k
    by (rule field_canonicalValue [OF st])
  have "storable (JObj [(''command'', JNum (ip_commands p)), (''semantic'', JNum (ip_semantics p)), (''binding'', JNum (ip_bindings p))])"
    using assms by (auto simp: validInvocationProof_def storable_JObj elim!: safe_geE)
  note counts = field_canonicalValue [OF this]
  have tokens: "strings_of (Some (canonicalValue (JArr (map JStr ts)))) = Some ts" for ts
    using strings_of_JStr [of ts] by (simp add: comp_def)
  show ?thesis
    unfolding proof_of_def text_of_def Let_def fields
    by (simp add: proof_json_def counts tokens num_of_def del: canonicalValue.simps(5))
qed

lemma attributes_read: "isDeclaredAttributes a \<Longrightarrow> readDeclaredAttributes (Some (attributes_json a)) = Some a"
  by (cases a) (simp add: readDeclaredAttributes_def attributes_json_def hasOnly_def num_of_def isDeclaredAttributes_def)

lemma attributes_storable: "isDeclaredAttributes a \<Longrightarrow> storable (attributes_json a)"
  by (auto simp: attributes_json_def isDeclaredAttributes_def storable_JObj elim!: safe_geE)

lemma hasOnly_canonical: "hasOnly (canonicalValue v) ks = hasOnly v ks"
  using keys_canonicalValue [of v] by (simp add: hasOnly_def list_all_iff)

lemma attributes_canonical:
  assumes "isDeclaredAttributes a"
  shows "readDeclaredAttributes (Some (canonicalValue (attributes_json a))) = Some a"
proof -
  have same: "field (canonicalValue (attributes_json a)) k = field (attributes_json a) k" for k
    unfolding field_canonicalValue [OF attributes_storable [OF assms]] by (simp add: attributes_json_def)
  show ?thesis
    using attributes_read [OF assms] unfolding readDeclaredAttributes_def option.case hasOnly_canonical same isRecord_canonicalValue .
qed

lemma read_attributes_ok: "readDeclaredAttributes v = Some a \<Longrightarrow> isDeclaredAttributes a"
  by (auto simp: readDeclaredAttributes_def isDeclaredAttributes_def num_of_def split: option.splits if_splits elim!: is_numE)

lemma inputs_of_canonical:
  assumes "storable_inputs i"
  shows "inputs_of (canonicalValue (inputs_json i)) = canonical_inputs i"
  unfolding inputs_of_def text_of_def Let_def field_canonicalValue [OF storable_inputs_json [OF assms]]
  by (simp add: inputs_json_def canonical_inputs_def)

text \<open>Canonical texts do not see whether parts are canonical already.\<close>

lemma canonicalJson_parts: "canonicalJson (JObj (map (\<lambda>e. (fst e, canonicalValue (snd e))) kvs)) = canonicalJson (JObj kvs)"
  by (simp add: canonicalJson_def canonicalValue_JObj comp_def)

lemma canonical_inputs_text: "canonicalValue (inputs_json (canonical_inputs i)) = canonicalValue (inputs_json i)"
  by (simp add: inputs_json_def canonical_inputs_def canonicalValue_JObj)

lemma content_hash_canonical:
  "registrationContentHash (canonical_inputs i) (canonicalValue receipt) p c = registrationContentHash i receipt p c"
  by (simp add: registrationContentHash_def canonicalJson_def canonicalValue_JObj [of "_ # _"] canonical_inputs_text)

lemma projection_fields:
  assumes "readCommerceProjection v i = Some c"
  shows "normalizeAgentCategory (field v ''category'') = Some (cp_category c)" "category_pattern (cp_category c)"
    "registry_tool_pattern (cp_discoveryTool c)" "isDeclaredAttributes (cp_declaredAttributes c)"
    "cp_fallbackAgentId c = Some f \<Longrightarrow> validAgentId f \<and> (isRecord (ai_agentDefinition i) \<longrightarrow> field (ai_agentDefinition i) ''id'' \<noteq> Some (JStr f))"
    "\<exists>names. isRecord (ai_toolAllowlistEntry i) \<and> field (ai_toolAllowlistEntry i) ''tool_names'' = Some (JArr names)
       \<and> JStr (cp_discoveryTool c) \<in> set names"
proof -
  show cat: "normalizeAgentCategory (field v ''category'') = Some (cp_category c)"
    using assms by (auto simp: readCommerceProjection_def Let_def split: option.splits if_splits)
  then show "category_pattern (cp_category c)"
    by (auto simp: normalizeAgentCategory_def Let_def split: option.splits if_splits)
  show "registry_tool_pattern (cp_discoveryTool c)" "isDeclaredAttributes (cp_declaredAttributes c)"
    using assms by (auto simp: readCommerceProjection_def Let_def text_of_def dest: read_attributes_ok elim!: is_strE
        split: option.splits if_splits)
  show "\<exists>names. isRecord (ai_toolAllowlistEntry i) \<and> field (ai_toolAllowlistEntry i) ''tool_names'' = Some (JArr names)
       \<and> JStr (cp_discoveryTool c) \<in> set names"
    using assms by (auto simp: readCommerceProjection_def Let_def split: option.splits if_splits json.splits)
  show "validAgentId f \<and> (isRecord (ai_agentDefinition i) \<longrightarrow> field (ai_agentDefinition i) ''id'' \<noteq> Some (JStr f))" if "cp_fallbackAgentId c = Some f"
    using assms that by (auto simp: readCommerceProjection_def Let_def split: option.splits if_splits)
qed

text \<open>A projection is accepted again for the stored inputs.\<close>

lemma projection_again:
  assumes "readCommerceProjection v i = Some c" "storable_inputs i"
  shows "readCommerceProjection (projection_json c) (canonical_inputs i) = Some c"
proof -
  note f = projection_fields [OF assms(1)]
  have sti: "storable (ai_agentDefinition i)" "storable (ai_toolAllowlistEntry i)" using assms(2) by (simp_all add: storable_inputs_def)
  obtain names where names: "isRecord (ai_toolAllowlistEntry i)" "field (ai_toolAllowlistEntry i) ''tool_names'' = Some (JArr names)"
    "JStr (cp_discoveryTool c) \<in> set names" using f(6) by blast
  have allow: "field (canonicalValue (ai_toolAllowlistEntry i)) ''tool_names'' = Some (JArr (map canonicalValue names))"
    by (simp add: field_canonicalValue [OF sti(2)] names(2))
  have "canonicalValue (JStr (cp_discoveryTool c)) \<in> canonicalValue ` set names" using names(3) by (rule imageI)
  then have tool: "JStr (cp_discoveryTool c) \<in> set (map canonicalValue names)" by simp
  have id_same: "field (canonicalValue (ai_agentDefinition i)) ''id'' = Some (JStr s) \<longleftrightarrow> field (ai_agentDefinition i) ''id'' = Some (JStr s)" for s
  proof -
    have "canonicalValue w = JStr s \<longleftrightarrow> w = JStr s" for w by (cases w) (simp_all add: canonicalValue_JObj)
    then show ?thesis by (simp add: field_canonicalValue [OF sti(1)])
  qed
  have f': "field (projection_json c) ''category'' = Some (JStr (cp_category c))"
    "field (projection_json c) ''discoveryTool'' = Some (JStr (cp_discoveryTool c))"
    "field (projection_json c) ''declaredAttributes'' = Some (attributes_json (cp_declaredAttributes c))"
    "field (projection_json c) ''fallbackAgentId'' = Some (text_or_null (cp_fallbackAgentId c))"
    "isRecord (projection_json c)" "text_of (projection_json c) ''discoveryTool'' = cp_discoveryTool c"
    "hasOnly (projection_json c) [''category'', ''discoveryTool'', ''declaredAttributes'', ''fallbackAgentId'']"
    by (simp_all add: projection_json_def text_of_def hasOnly_def)
  have unnull: "as_str (Some (text_or_null t)) = t" for t by (cases t) (simp_all add: text_or_null_def)
  have fallback: "\<not> (Some (text_or_null (cp_fallbackAgentId c)) \<noteq> Some JNull \<and> \<not> is_str (Some (text_or_null (cp_fallbackAgentId c))) validAgentId
      \<or> cp_fallbackAgentId c \<noteq> None \<and> isRecord (canonicalValue (ai_agentDefinition i))
        \<and> Some (text_or_null (cp_fallbackAgentId c)) = field (canonicalValue (ai_agentDefinition i)) ''id'')"
  proof (cases "cp_fallbackAgentId c")
    case (Some s)
    then show ?thesis using f(5) [OF Some] id_same [of s] by (auto simp: text_or_null_def dest: sym)
  qed (simp add: text_or_null_def)
  show ?thesis
    unfolding readCommerceProjection_def canonical_inputs_def admission_inputs.simps f' category_pattern_normal [OF f(2)]
      attributes_read [OF f(4)] option.case is_str_Some unnull Let_def allow json.case isRecord_canonicalValue
    using fallback f(3) f'(5,7) names(1) tool by simp
qed

end
