(* ===== verification/Agent_Registry.thy ===== *)
theory Agent_Registry imports Registry_Record Authoring_Fence begin

text \<open>
  \<open>src/src/core/agent-registry.ts\<close>: the durable object that registers admitted agents and routes intents to
  them. Registering and deregistering read the stored record first, with digests awaited in between, and
  write in a later transaction under the fence of an authoring permit, so each is a reading half, whose
  record the caller keeps, and a committing half. Routing decides on the agents that it read, looks its
  intent up and, after the intent's digest was awaited, records the decision. A time is the ISO text that the clock gave.
\<close>

section \<open>State\<close>

record registry_event =
  re_event_id :: nat
  re_event_type :: string
  re_agent_id :: string
  re_content_hash :: string
  re_created_at :: string

record route_row =
  rt_intent_id :: string
  rt_intent_digest :: string
  rt_decision_json :: string
  rt_created_at :: string

record registry =
  rr_agents :: "stored_agent list"
  rr_events :: "registry_event list"
  rr_routes :: "route_row list"

type_synonym registry_object = "registry fenced"

definition empty_registry :: registry_object where
  "empty_registry = \<lparr>fn_fences = [], fn_outcomes = [], fn_data = \<lparr>rr_agents = [], rr_events = [], rr_routes = []\<rparr>\<rparr>"

section \<open>Answers\<close>

definition registry_rejected :: "string \<Rightarrow> json" where
  "registry_rejected code = JObj [(''ok'', JBool False), (''code'', JStr code)]"

fun state_text :: "registration_state \<Rightarrow> string" where
  "state_text Registered_active = ''active''"
| "state_text Registered_inactive = ''inactive''"

definition record_json :: "registry_record \<Rightarrow> json" where
  "record_json r = JObj [(''agentId'', JStr (rg_agentId r)), (''category'', JStr (rg_category r)),
     (''declaredAttributes'', attributes_json (rg_declaredAttributes r)), (''fallbackAgentId'', text_or_null (rg_fallbackAgentId r)),
     (''commerceProjection'', projection_json (rg_commerceProjection r)), (''admissionInputs'', inputs_json (rg_admissionInputs r)),
     (''admissionReceipt'', rg_admissionReceipt r), (''invocationProof'', proof_json (rg_invocationProof r)),
     (''admissionInputHash'', JStr (rg_admissionInputHash r)), (''contentHash'', JStr (rg_contentHash r)),
     (''discoveryTool'', JStr (rg_discoveryTool r)),
     (''sandboxDryRun'', case rg_sandboxDryRun r of Some v \<Rightarrow> v | None \<Rightarrow> JNull),
     (''registrationState'', JStr (state_text (rg_registrationState r))), (''updatedAt'', JStr (rg_updatedAt r)),
     (''admissionVerified'', JBool (rg_admissionVerified r))]"

definition registrationResult :: "registry_record \<Rightarrow> bool \<Rightarrow> json" where
  "registrationResult r idempotent = JObj [(''ok'', JBool True), (''idempotent'', JBool idempotent), (''record'', record_json r)]"

text \<open>A refusal of the fence is returned as it is, an admitted mutation as its value.\<close>

datatype registry_reply = Reply json | Fence_refused refusal_code "(string \<times> int \<times> string) option"

fun fence_reply :: "js_exn + json admission \<Rightarrow> js_exn + registry_reply" where
  "fence_reply (Inl e) = Inl e"
| "fence_reply (Inr (Admitted v)) = Inr (Reply v)"
| "fence_reply (Inr (Claim_refused code holding)) = Inr (Fence_refused code holding)"

section \<open>Reading\<close>

definition allStored :: "date_parser \<Rightarrow> registry \<Rightarrow> registry_record list" where
  "allStored date_parse d = map (\<lambda>row. verifyStoredAgent date_parse (readStoredAgent date_parse row))
     (sort_by (\<lambda>l r. compareText (ar_agent_id l) (ar_agent_id r) \<le> 0) (rr_agents d))"

definition readStored :: "date_parser \<Rightarrow> string \<Rightarrow> registry \<Rightarrow> registry_record option" where
  "readStored date_parse agentId d =
     map_option (\<lambda>row. verifyStoredAgent date_parse (readStoredAgent date_parse row)) (select_key ar_agent_id agentId (rr_agents d))"

definition eventRevision :: "registry \<Rightarrow> nat" where
  "eventRevision d = length (rr_events d)"

definition appendRegistryEvent :: "string \<Rightarrow> string \<Rightarrow> string \<Rightarrow> string \<Rightarrow> registry \<Rightarrow> registry" where
  "appendRegistryEvent eventType agentId contentHash createdAt d = d\<lparr>rr_events := rr_events d @
     [\<lparr>re_event_id = Suc (length (rr_events d)), re_event_type = eventType, re_agent_id = agentId,
       re_content_hash = contentHash, re_created_at = createdAt\<rparr>]\<rparr>"

section \<open>Registering\<close>

definition agentRegistrationMutationIntent :: "registration_intent \<Rightarrow> json" where
  "agentRegistrationMutationIntent i =
     (let stableDryRun = (case in_sandboxDryRun i of
            JObj kvs \<Rightarrow> JObj (filter (\<lambda>e. fst e \<notin> {''startedAt'', ''endedAt''}) kvs) | v \<Rightarrow> v)
      in JObj [(''admissionInputs'', inputs_json (in_admissionInputs i)), (''invocationProof'', proof_json (in_invocationProof i)),
           (''commerceProjection'', in_commerceProjection i),
           (''expectedPreviousContentHash'', text_or_null (in_expectedPreviousContentHash i)), (''sandboxDryRun'', stableDryRun)])"

definition agentDeregistrationMutationIntent :: "string \<Rightarrow> string \<Rightarrow> json" where
  "agentDeregistrationMutationIntent agentId expectedContentHash = JObj [(''kind'', JStr ''deregister''), (''agentId'', JStr agentId),
     (''expectedContentHash'', JStr expectedContentHash)]"

definition preflightRegistration :: "date_parser \<Rightarrow> registration_intent \<Rightarrow> registry_object \<Rightarrow> json" where
  "preflightRegistration date_parse i s =
     (if \<not> validRegistrationIntent date_parse i then registry_rejected ''registration_malformed''
      else case (readCommerceProjection (in_commerceProjection i) (in_admissionInputs i),
                 as_str (field (ai_agentDefinition (in_admissionInputs i)) ''id'')) of
        (Some projection, Some agentId) \<Rightarrow>
          if \<not> isRecord (ai_agentDefinition (in_admissionInputs i)) \<or> \<not> validAgentId agentId
          then registry_rejected ''commerce_projection_invalid''
          else let admissionInputHash = sha256Hex (canonicalJson (inputs_json (in_admissionInputs i)))
          in (case readStored date_parse agentId (fn_data s) of
                None \<Rightarrow> if in_expectedPreviousContentHash i \<noteq> None then registry_rejected ''registration_precondition_failed''
                        else JObj [(''ok'', JBool True)]
              | Some existing \<Rightarrow>
                  if Some (rg_contentHash existing) \<noteq> in_expectedPreviousContentHash i
                     \<and> \<not> sameRegistration existing admissionInputHash (in_invocationProof i) projection
                  then registry_rejected ''registration_precondition_failed'' else JObj [(''ok'', JBool True)])
      | _ \<Rightarrow> registry_rejected ''commerce_projection_invalid'')"

text \<open>What is checked before the registry is read: the projection, or the code of the rejection.\<close>

definition checkRegistration :: "date_parser \<Rightarrow> registration_intent \<Rightarrow> json \<Rightarrow> string + commerce_projection" where
  "checkRegistration date_parse i receipt =
     (if \<not> validRegistrationIntent date_parse i then Inl ''registration_malformed''
      else if \<not> isAcosAdmissionReceiptBoundToInputs date_parse (Some receipt) (in_admissionInputs i) None None
      then Inl ''acos_admission_receipt_invalid''
      else case readCommerceProjection (in_commerceProjection i) (in_admissionInputs i) of
        None \<Rightarrow> Inl ''commerce_projection_invalid'' | Some projection \<Rightarrow> Inr projection)"

definition input_hash :: "registration_intent \<Rightarrow> string" where
  "input_hash i = sha256Hex (canonicalJson (inputs_json (in_admissionInputs i)))"

definition content_hash :: "registration_intent \<Rightarrow> json \<Rightarrow> commerce_projection \<Rightarrow> string" where
  "content_hash i receipt projection = registrationContentHash (in_admissionInputs i) receipt (in_invocationProof i) projection"

definition registered_record :: "registration_intent \<Rightarrow> json \<Rightarrow> commerce_projection \<Rightarrow> string \<Rightarrow> registry_record" where
  "registered_record i receipt projection updatedAt =
     \<lparr>rg_agentId = text_of receipt ''agent_definition_id'', rg_category = cp_category projection,
      rg_declaredAttributes = cp_declaredAttributes projection, rg_fallbackAgentId = cp_fallbackAgentId projection,
      rg_commerceProjection = projection, rg_admissionInputs = in_admissionInputs i, rg_admissionReceipt = receipt,
      rg_invocationProof = in_invocationProof i, rg_admissionInputHash = input_hash i,
      rg_contentHash = content_hash i receipt projection, rg_discoveryTool = cp_discoveryTool projection,
      rg_sandboxDryRun = Some (in_sandboxDryRun i), rg_registrationState = Registered_active, rg_updatedAt = updatedAt,
      rg_admissionVerified = True\<rparr>"

definition registered_row :: "registration_intent \<Rightarrow> json \<Rightarrow> commerce_projection \<Rightarrow> string \<Rightarrow> stored_agent" where
  "registered_row i receipt projection updatedAt =
     \<lparr>ar_agent_id = text_of receipt ''agent_definition_id'', ar_category = cp_category projection,
      ar_discovery_tool = cp_discoveryTool projection,
      ar_declared_attributes_json = Some (canonicalJson (attributes_json (cp_declaredAttributes projection))),
      ar_fallback_agent_id = cp_fallbackAgentId projection,
      ar_admission_input_json = canonicalJson (inputs_json (in_admissionInputs i)), ar_admission_input_hash = input_hash i,
      ar_admission_receipt_json = canonicalJson receipt, ar_invocation_proof_json = Some (canonicalJson (proof_json (in_invocationProof i))),
      ar_content_hash = content_hash i receipt projection,
      ar_sandbox_dry_run_json = Some (canonicalJson (in_sandboxDryRun i)), ar_registration_state = Registered_active,
      ar_updated_at = updatedAt\<rparr>"

text \<open>The mutation under the fence, on the record that was read before.\<close>

definition registration_mutation ::
  "registration_intent \<Rightarrow> json \<Rightarrow> commerce_projection \<Rightarrow> registry_record option \<Rightarrow> string \<Rightarrow> string \<Rightarrow> registry
     \<Rightarrow> js_exn + json \<times> registry" where
  "registration_mutation i receipt projection existing updatedAt createdAt d =
     (let agentId = text_of receipt ''agent_definition_id'';
          same = (\<lambda>e. sameRegistration e (input_hash i) (in_invocationProof i) projection);
          written = Inr (registrationResult (registered_record i receipt projection updatedAt) False,
            appendRegistryEvent ''registered'' agentId (content_hash i receipt projection) createdAt
              (d\<lparr>rr_agents := upsert ar_agent_id (registered_row i receipt projection updatedAt) (rr_agents d)\<rparr>))
      in case existing of
           None \<Rightarrow> if in_expectedPreviousContentHash i \<noteq> None
                   then Inr (registry_rejected ''registration_precondition_failed'', d) else written
         | Some e \<Rightarrow>
             if Some (rg_contentHash e) \<noteq> in_expectedPreviousContentHash i
             then (if same e then Inr (registrationResult e True, d)
                   else Inr (registry_rejected ''registration_precondition_failed'', d))
             else if same e then Inr (registrationResult e True, d)
             else written)"

definition commitRegistration ::
  "registration_intent \<Rightarrow> json \<Rightarrow> commerce_projection \<Rightarrow> registry_record option \<Rightarrow> json \<Rightarrow> string \<Rightarrow> string \<Rightarrow> int
     \<Rightarrow> registry_object \<Rightarrow> (js_exn + registry_reply) \<times> registry_object" where
  "commitRegistration i receipt projection existing permit updatedAt createdAt nowMs s =
     (let (reply, s') = runAuthoringFencedMutation permit AGENT_REGISTRY_CLAIM
            (authoringMutationRequestDigest AGENT_REGISTRY_CLAIM (agentRegistrationMutationIntent i))
            (registration_mutation i receipt projection existing updatedAt createdAt) nowMs s
      in (fence_reply reply, s'))"

text \<open>A registration that nothing interrupts.\<close>

definition register ::
  "date_parser \<Rightarrow> registration_intent \<Rightarrow> json \<Rightarrow> json \<Rightarrow> string \<Rightarrow> string \<Rightarrow> int \<Rightarrow> registry_object
     \<Rightarrow> (js_exn + registry_reply) \<times> registry_object" where
  "register date_parse i receipt permit updatedAt createdAt nowMs s =
     (case checkRegistration date_parse i receipt of
        Inl code \<Rightarrow> (Inr (Reply (registry_rejected code)), s)
      | Inr projection \<Rightarrow> commitRegistration i receipt projection
          (readStored date_parse (text_of receipt ''agent_definition_id'') (fn_data s)) permit updatedAt createdAt nowMs s)"

section \<open>Deregistering\<close>

definition deregistration_malformed :: "string \<Rightarrow> string \<Rightarrow> bool" where
  "deregistration_malformed agentId expectedContentHash = (\<not> validAgentId agentId \<or> \<not> sha256_pattern expectedContentHash)"

text \<open>Deactivating a row changes its state and time only.\<close>

definition deactivated :: "string \<Rightarrow> stored_agent \<Rightarrow> stored_agent" where
  "deactivated updatedAt row = row\<lparr>ar_registration_state := Registered_inactive, ar_updated_at := updatedAt\<rparr>"

definition deregistration_mutation ::
  "string \<Rightarrow> string \<Rightarrow> registry_record option \<Rightarrow> string \<Rightarrow> string \<Rightarrow> registry \<Rightarrow> js_exn + json \<times> registry" where
  "deregistration_mutation agentId expectedContentHash existing updatedAt createdAt d =
     (case existing of
        None \<Rightarrow> Inr (registry_rejected ''agent_not_found'', d)
      | Some e \<Rightarrow>
          if rg_contentHash e \<noteq> expectedContentHash then Inr (registry_rejected ''registration_precondition_failed'', d)
          else if rg_registrationState e = Registered_inactive then Inr (registrationResult e True, d)
          else Inr (registrationResult (e\<lparr>rg_registrationState := Registered_inactive, rg_updatedAt := updatedAt\<rparr>) False,
            appendRegistryEvent ''deregistered'' agentId expectedContentHash createdAt
              (d\<lparr>rr_agents := fst (update_where (\<lambda>row. ar_agent_id row = agentId)
                 (deactivated updatedAt) (rr_agents d))\<rparr>)))"

definition commitDeregistration ::
  "string \<Rightarrow> string \<Rightarrow> registry_record option \<Rightarrow> json \<Rightarrow> string \<Rightarrow> string \<Rightarrow> int
     \<Rightarrow> registry_object \<Rightarrow> (js_exn + registry_reply) \<times> registry_object" where
  "commitDeregistration agentId expectedContentHash existing permit updatedAt createdAt nowMs s =
     (let (reply, s') = runAuthoringFencedMutation permit AGENT_REGISTRY_CLAIM
            (authoringMutationRequestDigest AGENT_REGISTRY_CLAIM (agentDeregistrationMutationIntent agentId expectedContentHash))
            (deregistration_mutation agentId expectedContentHash existing updatedAt createdAt) nowMs s
      in (fence_reply reply, s'))"

definition deregister ::
  "date_parser \<Rightarrow> string \<Rightarrow> string \<Rightarrow> json \<Rightarrow> string \<Rightarrow> string \<Rightarrow> int \<Rightarrow> registry_object
     \<Rightarrow> (js_exn + registry_reply) \<times> registry_object" where
  "deregister date_parse agentId expectedContentHash permit updatedAt createdAt nowMs s =
     (if deregistration_malformed agentId expectedContentHash then (Inr (Reply (registry_rejected ''deregistration_malformed'')), s)
      else commitDeregistration agentId expectedContentHash (readStored date_parse agentId (fn_data s)) permit updatedAt createdAt nowMs s)"

section \<open>Listing, health and events\<close>

definition list_json :: "date_parser \<Rightarrow> registry \<Rightarrow> json" where
  "list_json date_parse d = JObj [(''revision'', JNum (Integer (int (eventRevision d)))),
     (''agents'', JArr (map record_json (allStored date_parse d)))]"

definition registry_list :: "date_parser \<Rightarrow> registry_object \<Rightarrow> nat \<times> string \<times> registry_record list" where
  "registry_list date_parse s = (eventRevision (fn_data s), sha256Hex (canonicalJson (list_json date_parse (fn_data s))),
     allStored date_parse (fn_data s))"

definition REQUIRED_CATEGORIES :: "string list" where
  "REQUIRED_CATEGORIES = [''flight'', ''shopping'']"

datatype registry_health =
    Pin_invalid
  | Health (ready: bool) (health_revision: nat) (health_categories: "(string \<times> nat) list") (stale_agents: "string list")
      (health_reason: "string option")

definition registry_health :: "date_parser \<Rightarrow> invocation_proof \<Rightarrow> registry_object \<Rightarrow> registry_health" where
  "registry_health date_parse expectedInvocationProof s =
     (if \<not> validInvocationProof expectedInvocationProof then Pin_invalid
      else let agents = allStored date_parse (fn_data s);
        staleAgents = map rg_agentId (filter (\<lambda>r. rg_registrationState r = Registered_active \<and> \<not> invocationAligned r expectedInvocationProof) agents);
        categories = map (\<lambda>category. (category, length (filter (\<lambda>r. rg_registrationState r = Registered_active
          \<and> rg_admissionVerified r \<and> rg_category r = category) agents))) REQUIRED_CATEGORIES;
        ok = (list_all (\<lambda>c. 1 \<le> snd c) categories \<and> staleAgents = [])
      in Health ok (eventRevision (fn_data s)) categories staleAgents
           (if ok then None else Some (if staleAgents \<noteq> [] then ''active_admission_invocation_pin_mismatch''
              else ''at_least_one_verified_active_admission_per_required_category_required'')))"

text \<open>The bounds of a page of events; the arguments are integers.\<close>

definition registry_events :: "int \<Rightarrow> int \<Rightarrow> registry_object \<Rightarrow> registry_event list" where
  "registry_events afterEventId limit s =
     take (nat (max 1 (min 500 limit))) (filter (\<lambda>e. max 0 afterEventId < int (re_event_id e)) (rr_events (fn_data s)))"

section \<open>Routing\<close>

definition routed_agent :: "invocation_proof \<Rightarrow> registry_record \<Rightarrow> registered_agent" where
  "routed_agent expectedInvocationProof r = \<lparr>ra_agentId = rg_agentId r, ra_category = rg_category r,
     ra_declaredAttributes = rg_declaredAttributes r, ra_fallbackAgentId = rg_fallbackAgentId r,
     ra_admissionVerified = (rg_admissionVerified r \<and> invocationAligned r expectedInvocationProof),
     ra_registrationState = rg_registrationState r\<rparr>"

fun reason_text :: "no_dispatch_reason \<Rightarrow> string" where
  "reason_text Invalid_intent = ''invalid-intent''"
| "reason_text Unmatched_category = ''unmatched-category''"
| "reason_text Registry_conflict = ''registry-conflict''"

fun decision_json :: "route_decision \<Rightarrow> json" where
  "decision_json (Dispatch d) = JObj [(''status'', JStr ''dispatch''), (''intentId'', JStr (ri_intentId (dd_intent d))),
     (''agentId'', JStr (dd_agentId d)), (''fallbackAgentId'', text_or_null (dd_fallbackAgentId d)),
     (''category'', JStr (ri_category (dd_intent d))), (''discoveryInput'', intent_json (dd_intent d)),
     (''consideredAgentIds'', JArr (map JStr (dd_considered d))),
     (''decidingAttributes'', JObj (map (\<lambda>(agentId, a). (agentId, attributes_json a)) (dd_deciding d)))]"
| "decision_json (No_dispatch intentId category reason candidateAgentIds) = JObj [(''status'', JStr ''no-dispatch''),
     (''intentId'', text_or_null intentId), (''category'', text_or_null category), (''reason'', JStr (reason_text reason)),
     (''candidateAgentIds'', JArr (map JStr candidateAgentIds))]"

definition authority_json :: "pinned_authority \<Rightarrow> json" where
  "authority_json p = JObj [(''pinnedAgentId'', JStr (pa_pinnedAgentId p)), (''fallbackAgentId'', text_or_null (pa_fallbackAgentId p))]"

definition route_intent_digest :: "json \<Rightarrow> pinned_authority option \<Rightarrow> string" where
  "route_intent_digest intent authority = sha256Hex (canonicalJson (JObj [(''intent'', intent),
     (''routingAuthority'', case authority of Some p \<Rightarrow> authority_json p | None \<Rightarrow> JNull)]))"

definition current_decision ::
  "date_parser \<Rightarrow> json \<Rightarrow> invocation_proof \<Rightarrow> selection_policy \<Rightarrow> pinned_authority option \<Rightarrow> registry \<Rightarrow> route_decision" where
  "current_decision date_parse intent expectedInvocationProof selectionPolicy authority d =
     routeIntentExclusively intent (map (routed_agent expectedInvocationProof) (allStored date_parse d)) selectionPolicy
       (map_option authority_json authority)"

text \<open>What is answered when the intent was decided before; then a decision is recorded under its key.\<close>

definition recorded_answer :: "json \<Rightarrow> pinned_authority option \<Rightarrow> json \<Rightarrow> registry \<Rightarrow> json option" where
  "recorded_answer intent authority decision d =
     map_option (\<lambda>prior.
       if rt_intent_digest prior \<noteq> route_intent_digest intent authority then registry_rejected ''intent_precondition_failed''
       else let priorDecision = parse_column (rt_decision_json prior)
         in if canonicalJson priorDecision = canonicalJson decision then priorDecision
            else registry_rejected ''intent_registration_drift'')
       (select_key rt_intent_id (text_of intent ''intentId'') (rr_routes d))"

definition record_decision :: "json \<Rightarrow> pinned_authority option \<Rightarrow> json \<Rightarrow> string \<Rightarrow> registry \<Rightarrow> js_exn + registry" where
  "record_decision intent authority decision createdAt d =
     (if has_key rt_intent_id (text_of intent ''intentId'') (rr_routes d) then Inl Constraint_violation
      else Inr (d\<lparr>rr_routes := rr_routes d @ [\<lparr>rt_intent_id = text_of intent ''intentId'', rt_intent_digest = route_intent_digest intent authority,
                   rt_decision_json = canonicalJson decision, rt_created_at = createdAt\<rparr>]\<rparr>))"

text \<open>A call that nothing interrupts.\<close>

definition route ::
  "date_parser \<Rightarrow> json \<Rightarrow> invocation_proof \<Rightarrow> selection_policy \<Rightarrow> json option \<Rightarrow> string \<Rightarrow> registry_object
     \<Rightarrow> (js_exn + json) \<times> registry_object" where
  "route date_parse intent expectedInvocationProof selectionPolicy routingAuthority createdAt s =
     (let authority = Option.bind routingAuthority readPinnedRouteAuthority
      in if \<not> validInvocationProof expectedInvocationProof \<or> readSelectionPolicy (policy_json selectionPolicy) = None
            \<or> (routingAuthority \<noteq> None \<and> authority = None)
         then (Inr (registry_rejected ''routing_configuration_invalid''), s)
         else let decision = decision_json (current_decision date_parse intent expectedInvocationProof selectionPolicy authority (fn_data s))
         in (case recorded_answer intent authority decision (fn_data s) of
               Some answer \<Rightarrow> (Inr answer, s)
             | None \<Rightarrow>
                 (case record_decision intent authority decision createdAt (fn_data s) of
                    Inl e \<Rightarrow> (Inl e, s)
                  | Inr d \<Rightarrow> (Inr decision, s\<lparr>fn_data := d\<rparr>))))"

section \<open>Stored registrations\<close>

lemma record_text_nonempty: "isRecord v \<Longrightarrow> canonicalJson v \<noteq> []"
  by (cases v) (simp_all add: canonicalJson_def canonicalValue_JObj json_text_JObj)

lemma parse_nullable_record: "isRecord v \<Longrightarrow> storable v \<Longrightarrow> parse_nullable (Some (canonicalJson v)) = Some (canonicalValue v)"
  by (simp add: parse_nullable_def record_text_nonempty parse_column_canonicalJson)

text \<open>A registration that may be stored: it passed the checks, and its JSON has integer numbers.\<close>

definition storable_registration :: "date_parser \<Rightarrow> registration_intent \<Rightarrow> json \<Rightarrow> commerce_projection \<Rightarrow> bool" where
  "storable_registration date_parse i receipt projection =
     (checkRegistration date_parse i receipt = Inr projection \<and> storable_inputs (in_admissionInputs i) \<and> storable (in_sandboxDryRun i))"

lemma storable_registrationD:
  assumes "storable_registration date_parse i receipt projection"
  shows "validRegistrationIntent date_parse i" "bound_receipt date_parse receipt (in_admissionInputs i)"
    "readCommerceProjection (in_commerceProjection i) (in_admissionInputs i) = Some projection"
    "storable_inputs (in_admissionInputs i)" "storable (in_sandboxDryRun i)"
    "validInvocationProof (in_invocationProof i)" "isRegistrationDryRunRecord date_parse (in_sandboxDryRun i)"
  using assms by (auto simp: storable_registration_def checkRegistration_def bound_receipt_def validRegistrationIntent_def
      split: if_splits option.splits)

definition stored_registration :: "registration_intent \<Rightarrow> json \<Rightarrow> commerce_projection \<Rightarrow> string \<Rightarrow> stored_registry_record" where
  "stored_registration i receipt projection updatedAt =
     \<lparr>rg_agentId = text_of receipt ''agent_definition_id'', rg_category = cp_category projection,
      rg_declaredAttributes = cp_declaredAttributes projection, rg_fallbackAgentId = cp_fallbackAgentId projection,
      rg_commerceProjection = projection, rg_admissionInputs = canonical_inputs (in_admissionInputs i),
      rg_admissionReceipt = canonicalValue receipt, rg_invocationProof = in_invocationProof i,
      rg_admissionInputHash = input_hash i, rg_contentHash = content_hash i receipt projection,
      rg_discoveryTool = cp_discoveryTool projection, rg_sandboxDryRun = Some (canonicalValue (in_sandboxDryRun i)),
      rg_registrationState = Registered_active, rg_updatedAt = updatedAt\<rparr>"

lemma read_registered_row:
  assumes "storable_registration date_parse i receipt projection"
  shows "readStoredAgent date_parse (registered_row i receipt projection updatedAt) = stored_registration i receipt projection updatedAt"
proof -
  note s = storable_registrationD [OF assms]
  note attributes = projection_fields(4) [OF s(3)]
  have "isRecord (in_sandboxDryRun i)" using s(7) by (rule dry_run_fields)
  then have columns:
    "parse_nullable (Some (canonicalJson (attributes_json (cp_declaredAttributes projection)))) =
       Some (canonicalValue (attributes_json (cp_declaredAttributes projection)))"
    "parse_nullable (Some (canonicalJson (proof_json (in_invocationProof i)))) = Some (canonicalValue (proof_json (in_invocationProof i)))"
    "parse_nullable (Some (canonicalJson (in_sandboxDryRun i))) = Some (canonicalValue (in_sandboxDryRun i))"
    using parse_nullable_record attributes_storable [OF attributes] validInvocationProof_storable [OF s(6)] s(5)
    by (simp_all add: attributes_json_def proof_json_def)
  show ?thesis
    unfolding readStoredAgent_def registered_row_def stored_agent.simps columns
    using dry_run_canonical [OF s(7,5)]
    by (simp add: attributes_canonical [OF attributes] proof_of_canonical [OF s(6)] stored_registration_def Let_def
        parse_column_canonicalJson storable_inputs_json [OF s(4)] inputs_of_canonical [OF s(4)] bound_receipt_storable [OF s(2)])
qed

lemma registration_verified:
  assumes "storable_registration date_parse i receipt projection"
  shows "admission_verified date_parse (stored_registration i receipt projection updatedAt)"
proof -
  note s = storable_registrationD [OF assms]
  have "field (canonicalValue receipt) ''agent_definition_id'' = Some (JStr (text_of receipt ''agent_definition_id''))"
    unfolding field_canonicalValue [OF bound_receipt_storable [OF s(2)]] receipt_agent(1) [OF s(2)] by simp
  moreover have "canonicalJson (inputs_json (canonical_inputs (in_admissionInputs i))) = canonicalJson (inputs_json (in_admissionInputs i))"
    by (simp add: canonicalJson_def canonical_inputs_text)
  ultimately show ?thesis
    using bound_receipt_canonical [OF s(2,4)] s(6) projection_again [OF s(3,4)] dry_run_canonical [OF s(7,5)]
    by (simp add: admission_verified_def stored_registration_def bound_receipt_def input_hash_def content_hash_def content_hash_canonical)
qed

lemma verified_fields [simp]:
  "rg_admissionVerified (verifyStoredAgent date_parse r) = admission_verified date_parse r"
  "rg_agentId (verifyStoredAgent date_parse r) = rg_agentId r"
  "rg_category (verifyStoredAgent date_parse r) = rg_category r"
  "rg_declaredAttributes (verifyStoredAgent date_parse r) = rg_declaredAttributes r"
  "rg_fallbackAgentId (verifyStoredAgent date_parse r) = rg_fallbackAgentId r"
  "rg_commerceProjection (verifyStoredAgent date_parse r) = rg_commerceProjection r"
  "rg_admissionInputs (verifyStoredAgent date_parse r) = rg_admissionInputs r"
  "rg_admissionReceipt (verifyStoredAgent date_parse r) = rg_admissionReceipt r"
  "rg_invocationProof (verifyStoredAgent date_parse r) = rg_invocationProof r"
  "rg_admissionInputHash (verifyStoredAgent date_parse r) = rg_admissionInputHash r"
  "rg_contentHash (verifyStoredAgent date_parse r) = rg_contentHash r"
  "rg_discoveryTool (verifyStoredAgent date_parse r) = rg_discoveryTool r"
  "rg_sandboxDryRun (verifyStoredAgent date_parse r) = rg_sandboxDryRun r"
  "rg_registrationState (verifyStoredAgent date_parse r) = rg_registrationState r"
  "rg_updatedAt (verifyStoredAgent date_parse r) = rg_updatedAt r"
  by (simp_all add: verifyStoredAgent_def stored_registry_record.defs)

lemma read_fields [simp]:
  "rg_agentId (readStoredAgent date_parse row) = ar_agent_id row"
  "rg_category (readStoredAgent date_parse row) = ar_category row"
  "rg_fallbackAgentId (readStoredAgent date_parse row) = ar_fallback_agent_id row"
  "rg_contentHash (readStoredAgent date_parse row) = ar_content_hash row"
  "rg_discoveryTool (readStoredAgent date_parse row) = ar_discovery_tool row"
  "rg_registrationState (readStoredAgent date_parse row) = ar_registration_state row"
  by (simp_all add: readStoredAgent_def Let_def)

lemma deactivated_fields [simp]:
  "ar_agent_id (deactivated updatedAt row) = ar_agent_id row" "ar_content_hash (deactivated updatedAt row) = ar_content_hash row"
  "ar_registration_state (deactivated updatedAt row) = Registered_inactive"
  by (simp_all add: deactivated_def)

lemma read_deactivated:
  "readStoredAgent date_parse (deactivated updatedAt row) =
     (readStoredAgent date_parse row)\<lparr>rg_registrationState := Registered_inactive, rg_updatedAt := updatedAt\<rparr>"
  by (simp add: readStoredAgent_def deactivated_def Let_def)

lemma verified_deactivated:
  "admission_verified date_parse (readStoredAgent date_parse (deactivated updatedAt row)) = admission_verified date_parse (readStoredAgent date_parse row)"
  by (simp add: read_deactivated admission_verified_def)

section \<open>What the two mutations can do\<close>

text \<open>A mutation either keeps the registry, or writes one row and one event.\<close>

lemma registration_mutation_cases:
  assumes "registration_mutation i receipt projection existing updatedAt createdAt d = Inr (reply, d')"
  obtains (kept) "d' = d"
  | (written) "d' = appendRegistryEvent ''registered'' (text_of receipt ''agent_definition_id'') (content_hash i receipt projection) createdAt
        (d\<lparr>rr_agents := upsert ar_agent_id (registered_row i receipt projection updatedAt) (rr_agents d)\<rparr>)"
      "reply = registrationResult (registered_record i receipt projection updatedAt) False"
      "map_option rg_contentHash existing = in_expectedPreviousContentHash i"
      "\<And>e. existing = Some e \<Longrightarrow> \<not> sameRegistration e (input_hash i) (in_invocationProof i) projection"
  using assms by (auto simp: registration_mutation_def Let_def split: option.splits if_splits)

lemma deregistration_mutation_cases:
  assumes "deregistration_mutation agentId expectedContentHash existing updatedAt createdAt d = Inr (reply, d')"
  obtains (kept) "d' = d"
  | (written) "d' = appendRegistryEvent ''deregistered'' agentId expectedContentHash createdAt
        (d\<lparr>rr_agents := map (\<lambda>row. if ar_agent_id row = agentId then deactivated updatedAt row else row) (rr_agents d)\<rparr>)"
      "map_option rg_contentHash existing = Some expectedContentHash"
  using assms by (auto simp: deregistration_mutation_def update_where_def split: option.splits if_splits)

text \<open>Under the fence a mutation ran as it is, or the registry was kept.\<close>

lemma fenced_data:
  assumes "runAuthoringFencedMutation v expected digest mutation nowMs s = (reply, s')"
  obtains (kept) "fn_data s' = fn_data s" | (ran) value' where "mutation (fn_data s) = Inr (value', fn_data s')" "reply = Inr (Admitted value')"
  using assms
  by (auto simp: runAuthoringFencedMutation_def fenced_transaction_def record_mutation_def
      split: option.splits if_splits sum.splits prod.splits)

end
