(* ===== verification/Registry_History.thy ===== *)
theory Registry_History imports Agent_Registry begin

text \<open>
  Histories of the agent registry. Several registrations, deregistrations and routes may be in flight at
  once: each has read the registry when it began and goes on at any later time, or never. The
  invariant holds in every state such a history reaches.
\<close>

section \<open>Histories\<close>

datatype pending =
    Registering registration_intent json commerce_projection "registry_record option" string
  | Deregistering string string "registry_record option" string
  | Routing json "pinned_authority option" json
  | Recording json "pinned_authority option" json

record registry_world =
  rw_store :: registry_object
  rw_pending :: "pending list"

text \<open>A call that is in flight goes on up to its next await, or answers.\<close>

fun advance :: "pending \<Rightarrow> json \<Rightarrow> string \<Rightarrow> int \<Rightarrow> registry_object
    \<Rightarrow> (pending + (js_exn + registry_reply)) \<times> registry_object" where
  "advance (Registering i receipt projection existing updatedAt) permit createdAt nowMs s =
     apfst Inr (commitRegistration i receipt projection existing permit updatedAt createdAt nowMs s)"
| "advance (Deregistering agentId expectedContentHash existing updatedAt) permit createdAt nowMs s =
     apfst Inr (commitDeregistration agentId expectedContentHash existing permit updatedAt createdAt nowMs s)"
| "advance (Routing intent authority decision) permit createdAt nowMs s =
     (case recorded_answer intent authority decision (fn_data s) of
        Some answer \<Rightarrow> (Inr (Inr (Reply answer)), s)
      | None \<Rightarrow> (Inl (Recording intent authority decision), s))"
| "advance (Recording intent authority decision) permit createdAt nowMs s =
     (case record_decision intent authority decision createdAt (fn_data s) of
        Inl e \<Rightarrow> (Inr (Inl e), s)
      | Inr d \<Rightarrow> (Inr (Inr (Reply decision)), s\<lparr>fn_data := d\<rparr>))"

fun still_pending :: "pending + 'a \<Rightarrow> pending list" where
  "still_pending (Inl p) = [p]"
| "still_pending (Inr answer) = []"

inductive registry_step :: "date_parser \<Rightarrow> registry_world \<Rightarrow> registry_world \<Rightarrow> bool" for date_parse where
  begin_registration: "storable_registration date_parse i receipt projection \<Longrightarrow>
     registry_step date_parse w (w\<lparr>rw_pending := Registering i receipt projection
       (readStored date_parse (text_of receipt ''agent_definition_id'') (fn_data (rw_store w))) updatedAt # rw_pending w\<rparr>)"
| begin_deregistration: "\<not> deregistration_malformed agentId expectedContentHash \<Longrightarrow>
     registry_step date_parse w (w\<lparr>rw_pending := Deregistering agentId expectedContentHash
       (readStored date_parse agentId (fn_data (rw_store w))) updatedAt # rw_pending w\<rparr>)"
| begin_route: "storable intent \<Longrightarrow> validInvocationProof expectedInvocationProof \<Longrightarrow>
     readSelectionPolicy (policy_json selectionPolicy) \<noteq> None \<Longrightarrow>
     registry_step date_parse w (w\<lparr>rw_pending := Routing intent authority (decision_json (current_decision date_parse intent
       expectedInvocationProof selectionPolicy authority (fn_data (rw_store w)))) # rw_pending w\<rparr>)"
| advanced: "p \<in> set (rw_pending w) \<Longrightarrow> advance p permit createdAt nowMs (rw_store w) = (outcome, s) \<Longrightarrow>
     registry_step date_parse w (w\<lparr>rw_store := s, rw_pending := still_pending outcome @ remove1 p (rw_pending w)\<rparr>)"

inductive registry_steps :: "date_parser \<Rightarrow> registry_world \<Rightarrow> registry_world \<Rightarrow> bool" for date_parse where
  steps_refl: "registry_steps date_parse w w"
| steps_step: "registry_steps date_parse w w' \<Longrightarrow> registry_step date_parse w' w'' \<Longrightarrow> registry_steps date_parse w w''"

definition initial_world :: registry_world where
  "initial_world = \<lparr>rw_store = empty_registry, rw_pending = []\<rparr>"

definition registry_reachable :: "date_parser \<Rightarrow> registry_world \<Rightarrow> bool" where
  "registry_reachable date_parse w = registry_steps date_parse initial_world w"

section \<open>The invariant\<close>

text \<open>The type and content hash of the last event of an agent.\<close>

definition latest_event :: "string \<Rightarrow> registry_event list \<Rightarrow> (string \<times> string) option" where
  "latest_event agentId es = map_option (\<lambda>e. (re_event_type e, re_content_hash e)) (List.find (\<lambda>e. re_agent_id e = agentId) (rev es))"

definition row_ok :: "date_parser \<Rightarrow> registry_event list \<Rightarrow> stored_agent \<Rightarrow> bool" where
  "row_ok date_parse es row =
     (admission_verified date_parse (readStoredAgent date_parse row)
      \<and> (case ar_registration_state row of
           Registered_active \<Rightarrow> latest_event (ar_agent_id row) es = Some (''registered'', ar_content_hash row)
         | Registered_inactive \<Rightarrow> \<exists>h. latest_event (ar_agent_id row) es = Some (''deregistered'', h)))"

definition registry_ok :: "date_parser \<Rightarrow> registry \<Rightarrow> bool" where
  "registry_ok date_parse d =
     (distinct (map ar_agent_id (rr_agents d)) \<and> (\<forall>row \<in> set (rr_agents d). row_ok date_parse (rr_events d) row)
      \<and> map re_event_id (rr_events d) = [1..<Suc (length (rr_events d))]
      \<and> distinct (map rt_intent_id (rr_routes d))
      \<and> (\<forall>t \<in> set (rr_routes d). \<exists>v. storable v \<and> rt_decision_json t = canonicalJson v))"

lemma stored_member:
  "r \<in> set (allStored date_parse d) \<longleftrightarrow> (\<exists>row \<in> set (rr_agents d). r = verifyStoredAgent date_parse (readStoredAgent date_parse row))"
  by (auto simp: allStored_def)

lemma stored_ids: "map rg_agentId (allStored date_parse d) = map ar_agent_id (sort_by (\<lambda>l r. compareText (ar_agent_id l) (ar_agent_id r) \<le> 0) (rr_agents d))"
  by (simp add: allStored_def)

lemma readStored_eq:
  "readStored date_parse agentId d = Some r \<longleftrightarrow>
     (\<exists>row. select_key ar_agent_id agentId (rr_agents d) = Some row \<and> r = verifyStoredAgent date_parse (readStoredAgent date_parse row))"
  by (auto simp: readStored_def)

lemma latest_append:
  "latest_event agentId (es @ [e]) = (if re_agent_id e = agentId then Some (re_event_type e, re_content_hash e) else latest_event agentId es)"
  by (simp add: latest_event_def)

lemma appendRegistryEvent_fields [simp]:
  "rr_agents (appendRegistryEvent t a h c d) = rr_agents d" "rr_routes (appendRegistryEvent t a h c d) = rr_routes d"
  "latest_event agentId (rr_events (appendRegistryEvent t a h c d)) = (if a = agentId then Some (t, h) else latest_event agentId (rr_events d))"
  "eventRevision (appendRegistryEvent t a h c d) = Suc (eventRevision d)"
  by (simp_all add: appendRegistryEvent_def latest_append eventRevision_def)

lemma event_ids_append:
  "map re_event_id (rr_events d) = [1..<Suc (length (rr_events d))] \<Longrightarrow>
     map re_event_id (rr_events (appendRegistryEvent t a h c d)) = [1..<Suc (length (rr_events (appendRegistryEvent t a h c d)))]"
  by (simp add: appendRegistryEvent_def)

lemma row_ok_other: "ar_agent_id row \<noteq> a \<Longrightarrow>
    row_ok date_parse (rr_events (appendRegistryEvent t a h c d)) row = row_ok date_parse (rr_events d) row"
  by (simp add: row_ok_def split: registration_state.split)

lemma registered_row_fields [simp]:
  "ar_agent_id (registered_row i receipt projection updatedAt) = text_of receipt ''agent_definition_id''"
  "ar_content_hash (registered_row i receipt projection updatedAt) = content_hash i receipt projection"
  "ar_registration_state (registered_row i receipt projection updatedAt) = Registered_active"
  by (simp_all add: registered_row_def)

lemma registered_keeps:
  assumes "registry_ok date_parse d" "storable_registration date_parse i receipt projection"
  shows "registry_ok date_parse (appendRegistryEvent ''registered'' (text_of receipt ''agent_definition_id'') (content_hash i receipt projection) createdAt
        (d\<lparr>rr_agents := upsert ar_agent_id (registered_row i receipt projection updatedAt) (rr_agents d)\<rparr>))"
    (is "registry_ok _ (appendRegistryEvent _ ?a ?h _ (d\<lparr>rr_agents := upsert _ ?row _\<rparr>))")
proof -
  have "row_ok date_parse (rr_events (appendRegistryEvent ''registered'' ?a ?h createdAt d)) ?row"
    using registration_verified [OF assms(2)] read_registered_row [OF assms(2)] by (simp add: row_ok_def)
  moreover have "row_ok date_parse (rr_events (appendRegistryEvent ''registered'' ?a ?h createdAt d)) row"
    if "row \<in> set (rr_agents d)" "ar_agent_id row \<noteq> ?a" for row
    using that assms(1) row_ok_other by (auto simp: registry_ok_def)
  moreover have "rr_events (appendRegistryEvent ''registered'' ?a ?h createdAt (d\<lparr>rr_agents := t\<rparr>)) = rr_events (appendRegistryEvent ''registered'' ?a ?h createdAt d)" for t
    by (simp add: appendRegistryEvent_def)
  ultimately show ?thesis
    using assms(1) distinct_upsert [of ar_agent_id "rr_agents d" ?row] event_ids_append [of d]
    by (auto simp: registry_ok_def set_upsert_eq)
qed

lemma deregistered_keeps:
  assumes "registry_ok date_parse d"
  shows "registry_ok date_parse (appendRegistryEvent ''deregistered'' agentId h createdAt
        (d\<lparr>rr_agents := map (\<lambda>row. if ar_agent_id row = agentId then deactivated updatedAt row else row) (rr_agents d)\<rparr>))"
proof -
  have ids: "map ar_agent_id (map (\<lambda>row. if ar_agent_id row = agentId then deactivated updatedAt row else row) (rr_agents d)) = map ar_agent_id (rr_agents d)"
    by simp
  have ev: "rr_events (appendRegistryEvent ''deregistered'' agentId h createdAt (d\<lparr>rr_agents := t\<rparr>)) = rr_events (appendRegistryEvent ''deregistered'' agentId h createdAt d)" for t
    by (simp add: appendRegistryEvent_def)
  let ?f = "\<lambda>row. if ar_agent_id row = agentId then deactivated updatedAt row else row"
  have one: "row_ok date_parse (rr_events (appendRegistryEvent ''deregistered'' agentId h createdAt d)) (?f row)"
    if "row \<in> set (rr_agents d)" for row
  proof (cases "ar_agent_id row = agentId")
    case True
    then show ?thesis using that assms by (auto simp: registry_ok_def row_ok_def verified_deactivated)
  qed (use that assms row_ok_other in \<open>auto simp: registry_ok_def\<close>)
  have rows: "\<forall>row \<in> set (map ?f (rr_agents d)). row_ok date_parse (rr_events (appendRegistryEvent ''deregistered'' agentId h createdAt d)) row"
  proof
    fix row assume "row \<in> set (map ?f (rr_agents d))"
    then obtain row' where "row' \<in> set (rr_agents d)" "row = ?f row'" unfolding list.set_map by blast
    then show "row_ok date_parse (rr_events (appendRegistryEvent ''deregistered'' agentId h createdAt d)) row" by (simp only: one)
  qed
  note ok = assms [unfolded registry_ok_def]
  have sel: "rr_agents (d\<lparr>rr_agents := t\<rparr>) = t" "rr_routes (d\<lparr>rr_agents := t\<rparr>) = rr_routes d" for t by simp_all
  show ?thesis unfolding registry_ok_def ev appendRegistryEvent_fields sel ids
    using rows ok event_ids_append [of d] by blast
qed

section \<open>Every step keeps it\<close>

definition pending_ok :: "date_parser \<Rightarrow> pending \<Rightarrow> bool" where
  "pending_ok date_parse p = (case p of
     Registering i receipt projection existing updatedAt \<Rightarrow> storable_registration date_parse i receipt projection
   | Deregistering agentId expectedContentHash existing updatedAt \<Rightarrow> True
   | Routing intent authority decision \<Rightarrow> storable decision
   | Recording intent authority decision \<Rightarrow> storable decision)"

lemma commitRegistration_cases:
  assumes "commitRegistration i receipt projection existing permit updatedAt createdAt nowMs s = (reply, s')"
  obtains (kept) "fn_data s' = fn_data s"
  | (written) "fn_data s' = appendRegistryEvent ''registered'' (text_of receipt ''agent_definition_id'') (content_hash i receipt projection) createdAt
        ((fn_data s)\<lparr>rr_agents := upsert ar_agent_id (registered_row i receipt projection updatedAt) (rr_agents (fn_data s))\<rparr>)"
      "reply = Inr (Reply (registrationResult (registered_record i receipt projection updatedAt) False))"
      "map_option rg_contentHash existing = in_expectedPreviousContentHash i"
      "\<And>e. existing = Some e \<Longrightarrow> \<not> sameRegistration e (input_hash i) (in_invocationProof i) projection"
proof -
  obtain r where r: "runAuthoringFencedMutation permit AGENT_REGISTRY_CLAIM
            (authoringMutationRequestDigest AGENT_REGISTRY_CLAIM (agentRegistrationMutationIntent i))
            (registration_mutation i receipt projection existing updatedAt createdAt) nowMs s = (r, s')" "reply = fence_reply r"
    using assms by (auto simp: commitRegistration_def split: prod.splits)
  from r(1) show thesis
  proof (cases rule: fenced_data)
    case (ran value')
    from ran(1) show thesis
      by (cases rule: registration_mutation_cases) (use ran(2) r(2) in \<open>simp_all add: kept written\<close>)
  qed (rule kept)
qed

lemma commitDeregistration_cases:
  assumes "commitDeregistration agentId expectedContentHash existing permit updatedAt createdAt nowMs s = (reply, s')"
  obtains (kept) "fn_data s' = fn_data s"
  | (written) "fn_data s' = appendRegistryEvent ''deregistered'' agentId expectedContentHash createdAt
        ((fn_data s)\<lparr>rr_agents := map (\<lambda>row. if ar_agent_id row = agentId then deactivated updatedAt row else row) (rr_agents (fn_data s))\<rparr>)"
      "map_option rg_contentHash existing = Some expectedContentHash"
proof -
  obtain r where r: "runAuthoringFencedMutation permit AGENT_REGISTRY_CLAIM
            (authoringMutationRequestDigest AGENT_REGISTRY_CLAIM (agentDeregistrationMutationIntent agentId expectedContentHash))
            (deregistration_mutation agentId expectedContentHash existing updatedAt createdAt) nowMs s = (r, s')"
    using assms by (auto simp: commitDeregistration_def split: prod.splits)
  then show thesis
  proof (cases rule: fenced_data)
    case (ran value')
    from ran(1) show thesis by (cases rule: deregistration_mutation_cases) (simp_all add: kept written)
  qed (rule kept)
qed

lemma record_cases:
  assumes "record_decision intent authority decision createdAt d = Inr d'"
  obtains row where "select_key rt_intent_id (text_of intent ''intentId'') (rr_routes d) = None"
    "rt_intent_id row = text_of intent ''intentId''" "rt_decision_json row = canonicalJson decision"
    "d' = d\<lparr>rr_routes := rr_routes d @ [row]\<rparr>"
proof -
  have "select_key rt_intent_id (text_of intent ''intentId'') (rr_routes d) = None"
    using assms by (simp add: record_decision_def select_key_None has_key_iff split: if_splits)
  then show thesis
    by (rule that [of "\<lparr>rt_intent_id = text_of intent ''intentId'', rt_intent_digest = route_intent_digest intent authority,
          rt_decision_json = canonicalJson decision, rt_created_at = createdAt\<rparr>"])
      (use assms in \<open>simp_all add: record_decision_def split: if_splits\<close>)
qed

lemma record_keeps:
  assumes "registry_ok date_parse d" "storable decision" "record_decision intent authority decision createdAt d = Inr d'"
  shows "registry_ok date_parse d'"
  using assms(3)
proof (rule record_cases)
  fix row assume row: "select_key rt_intent_id (text_of intent ''intentId'') (rr_routes d) = None"
    "rt_intent_id row = text_of intent ''intentId''" "rt_decision_json row = canonicalJson decision"
    "d' = d\<lparr>rr_routes := rr_routes d @ [row]\<rparr>"
  then have "rt_intent_id row \<notin> rt_intent_id ` set (rr_routes d)" by (simp add: select_key_None)
  then show ?thesis using assms(1,2) row(3) by (auto simp: row(4) registry_ok_def)
qed

text \<open>What a step of a call does to the registry: it keeps it, registers, deactivates or records.\<close>

lemma advance_data:
  assumes "advance p permit createdAt nowMs s = (outcome, s')"
  obtains (kept) "fn_data s' = fn_data s"
  | (registered) i receipt projection existing updatedAt where "p = Registering i receipt projection existing updatedAt"
      "fn_data s' = appendRegistryEvent ''registered'' (text_of receipt ''agent_definition_id'') (content_hash i receipt projection) createdAt
        ((fn_data s)\<lparr>rr_agents := upsert ar_agent_id (registered_row i receipt projection updatedAt) (rr_agents (fn_data s))\<rparr>)"
  | (deregistered) agentId h updatedAt where
      "fn_data s' = appendRegistryEvent ''deregistered'' agentId h createdAt
        ((fn_data s)\<lparr>rr_agents := map (\<lambda>row. if ar_agent_id row = agentId then deactivated updatedAt row else row) (rr_agents (fn_data s))\<rparr>)"
  | (recorded) intent authority decision where "p = Recording intent authority decision"
      "record_decision intent authority decision createdAt (fn_data s) = Inr (fn_data s')"
proof (cases p)
  case (Registering i receipt projection existing updatedAt)
  with assms obtain reply where "commitRegistration i receipt projection existing permit updatedAt createdAt nowMs s = (reply, s')"
    by (cases "commitRegistration i receipt projection existing permit updatedAt createdAt nowMs s") simp
  then show thesis by (cases rule: commitRegistration_cases) (rule kept, assumption, rule registered [OF Registering], assumption)
next
  case (Deregistering agentId expectedContentHash existing updatedAt)
  with assms obtain reply where "commitDeregistration agentId expectedContentHash existing permit updatedAt createdAt nowMs s = (reply, s')"
    by (cases "commitDeregistration agentId expectedContentHash existing permit updatedAt createdAt nowMs s") simp
  then show thesis by (cases rule: commitDeregistration_cases) (rule kept, assumption, rule deregistered, assumption)
next
  case (Routing intent authority decision)
  with assms kept show thesis by (auto split: option.splits)
next
  case (Recording intent authority decision)
  with assms kept recorded [OF Recording] show thesis by (auto split: sum.splits)
qed

lemma advance_keeps:
  assumes "registry_ok date_parse (fn_data s)" "pending_ok date_parse p" "advance p permit createdAt nowMs s = (outcome, s')"
  shows "registry_ok date_parse (fn_data s')"
  using assms(3)
proof (cases rule: advance_data)
  case (registered i receipt projection existing updatedAt)
  then have "storable_registration date_parse i receipt projection" using assms(2) by (simp add: pending_ok_def)
  then show ?thesis unfolding registered(2) by (rule registered_keeps [OF assms(1)])
next
  case (deregistered agentId h updatedAt)
  then show ?thesis using deregistered_keeps [OF assms(1)] by simp
next
  case (recorded intent authority decision)
  then have "storable decision" using assms(2) by (simp add: pending_ok_def)
  with recorded(2) show ?thesis using record_keeps [OF assms(1)] by blast
qed (use assms(1) in simp)

lemma still_pending_ok:
  assumes "pending_ok date_parse p" "advance p permit createdAt nowMs s = (outcome, s')"
  shows "list_all (pending_ok date_parse) (still_pending outcome)"
  using assms by (cases p) (auto simp: pending_ok_def apfst_def map_prod_def split: option.splits sum.splits prod.splits)

text \<open>A recorded decision stays.\<close>

lemma advance_routes:
  assumes "advance p permit createdAt nowMs s = (outcome, s')"
  shows "\<exists>more. rr_routes (fn_data s') = rr_routes (fn_data s) @ more"
  using assms
proof (cases rule: advance_data)
  case (recorded intent authority decision)
  from recorded(2) show ?thesis by (rule record_cases) simp
qed simp_all

lemma storable_attributes: "validCandidate c \<Longrightarrow> storable (attributes_json (snd c))"
  by (simp add: validCandidate_def attributes_storable)

lemma storable_text_or_null [simp]: "storable (text_or_null t)"
  by (cases t) (simp_all add: text_or_null_def)

text \<open>What the registry decides of a storable intent can be stored.\<close>

lemma storable_decision:
  assumes "storable intent"
  shows "storable (decision_json (routeIntentExclusively intent registry policy authority))"
proof (cases "routeIntentExclusively intent registry policy authority")
  case (Dispatch d)
  note deciding = dispatch_deciding [OF Dispatch]
  have "storable (intent_json (dd_intent d))" using storable_intent dispatch_sound [OF Dispatch] assms by blast
  moreover have "storable (JObj (map (\<lambda>(agentId, a). (agentId, attributes_json a)) (dd_deciding d)))"
    using deciding storable_attributes by (auto simp: storable_JObj comp_def split_beta simp del: storable.simps)
  ultimately show ?thesis by (simp add: Dispatch storable_JObj storable_JArr del: storable.simps(5,6))
qed (simp add: storable_JObj storable_JArr del: storable.simps(5,6))

text \<open>What an uninterrupted route answers and does to the table of routes.\<close>

lemma route_cases:
  assumes "route date_parse intent proof policy routingAuthority createdAt s = (answer, s')"
  obtains (rejected) code where "answer = Inr (registry_rejected code)" "s' = s"
  | (replayed) prior where "select_key rt_intent_id (text_of intent ''intentId'') (rr_routes (fn_data s)) = Some prior" "s' = s"
      "answer = Inr (parse_column (rt_decision_json prior))"
      "canonicalJson (parse_column (rt_decision_json prior)) = canonicalJson (decision_json (current_decision date_parse intent proof policy
         (Option.bind routingAuthority readPinnedRouteAuthority) (fn_data s)))" "validInvocationProof proof"
  | (decided) row where "select_key rt_intent_id (text_of intent ''intentId'') (rr_routes (fn_data s)) = None"
      "answer = Inr (decision_json (current_decision date_parse intent proof policy (Option.bind routingAuthority readPinnedRouteAuthority) (fn_data s)))"
      "rt_intent_id row = text_of intent ''intentId''"
      "rt_decision_json row = canonicalJson (decision_json (current_decision date_parse intent proof policy
         (Option.bind routingAuthority readPinnedRouteAuthority) (fn_data s)))"
      "s' = s\<lparr>fn_data := (fn_data s)\<lparr>rr_routes := rr_routes (fn_data s) @ [row]\<rparr>\<rparr>" "validInvocationProof proof"
proof -
  let ?authority = "Option.bind routingAuthority readPinnedRouteAuthority"
  let ?decision = "decision_json (current_decision date_parse intent proof policy ?authority (fn_data s))"
  let ?prior = "select_key rt_intent_id (text_of intent ''intentId'') (rr_routes (fn_data s))"
  consider "answer = Inr (registry_rejected ''routing_configuration_invalid'')" "s' = s"
    | "validInvocationProof proof" "(case recorded_answer intent ?authority ?decision (fn_data s) of
           Some answer \<Rightarrow> (Inr answer, s)
         | None \<Rightarrow> (case record_decision intent ?authority ?decision createdAt (fn_data s) of
              Inl e \<Rightarrow> (Inl e, s) | Inr d \<Rightarrow> (Inr ?decision, s\<lparr>fn_data := d\<rparr>))) = (answer, s')"
    using assms unfolding route_def Let_def by (simp only: split: if_splits) auto
  then show thesis
  proof cases
    case 2
    show thesis
    proof (cases ?prior)
      case None
      then have "recorded_answer intent ?authority ?decision (fn_data s) = None" "\<not> has_key rt_intent_id (text_of intent ''intentId'') (rr_routes (fn_data s))"
        by (simp_all add: recorded_answer_def select_key_None has_key_iff)
      with 2 None show thesis by (intro decided) (auto simp: record_decision_def)
    next
      case (Some prior)
      with 2 have s': "s' = s" and a: "answer = Inr (registry_rejected ''intent_precondition_failed'')
          \<or> answer = Inr (registry_rejected ''intent_registration_drift'')
          \<or> answer = Inr (parse_column (rt_decision_json prior)) \<and> canonicalJson (parse_column (rt_decision_json prior)) = canonicalJson ?decision"
        by (auto simp: recorded_answer_def Let_def split: if_splits)
      from a show thesis using Some s' 2(1) by (elim disjE) (use rejected replayed in blast)+
    qed
  qed (rule rejected)
qed

lemma step_keeps:
  assumes "registry_step date_parse w w'" "registry_ok date_parse (fn_data (rw_store w))" "list_all (pending_ok date_parse) (rw_pending w)"
  shows "registry_ok date_parse (fn_data (rw_store w')) \<and> list_all (pending_ok date_parse) (rw_pending w')"
  using assms
proof cases
  case (begin_route intent expected policy authority)
  then show ?thesis using assms(2,3) by (simp add: pending_ok_def current_decision_def storable_decision)
next
  case (advanced p permit createdAt nowMs outcome s)
  then have "pending_ok date_parse p" using assms(3) by (simp add: list_all_iff)
  moreover have "list_all (pending_ok date_parse) (remove1 p (rw_pending w))"
    using assms(3) by (auto simp: list_all_iff dest: notin_set_remove1 set_remove1_subset [THEN subsetD])
  ultimately show ?thesis using advanced(1,3) advance_keeps [OF assms(2)] still_pending_ok by fastforce
qed (simp_all add: pending_ok_def)

lemma reachable_ok:
  assumes "registry_reachable date_parse w"
  shows "registry_ok date_parse (fn_data (rw_store w))"
proof -
  have "registry_steps date_parse w0 w \<Longrightarrow> w0 = initial_world \<Longrightarrow>
      registry_ok date_parse (fn_data (rw_store w)) \<and> list_all (pending_ok date_parse) (rw_pending w)" for w0
  proof (induction rule: registry_steps.induct)
    case (steps_refl w)
    then show ?case by (simp add: initial_world_def empty_registry_def registry_ok_def)
  next
    case (steps_step w w' w'')
    then show ?case using step_keeps by blast
  qed
  with assms show ?thesis by (simp add: registry_reachable_def)
qed

lemma step_routes:
  assumes "registry_step date_parse w w'"
  shows "\<exists>more. rr_routes (fn_data (rw_store w')) = rr_routes (fn_data (rw_store w)) @ more"
  using assms by cases (use advance_routes in auto)

lemma steps_routes:
  "registry_steps date_parse w w' \<Longrightarrow> \<exists>more. rr_routes (fn_data (rw_store w')) = rr_routes (fn_data (rw_store w)) @ more"
proof (induction rule: registry_steps.induct)
  case (steps_step w w' w'')
  then show ?case using step_routes [of date_parse w' w''] by fastforce
qed simp

end
