(* ===== verification/Public_Catalog.thy ===== *)
theory Public_Catalog imports Registry_History begin

text \<open>
  \<open>src/src/core/public-catalog.ts\<close>: what the public sees of the registered agents, and the artifact that
  carries it to the public service. A check that throws is a value of \<open>catalog_error\<close>; times are
  integers.
\<close>

section \<open>The projection\<close>

record public_entry =
  pe_agentId :: string
  pe_declaredCategory :: string
  pe_declaredCapabilities :: "string list"

record public_catalog =
  pc_revision :: int
  pc_digest :: string
  pc_agents :: "public_entry list"

record catalog_source =
  cs_agentId :: string
  cs_category :: string
  cs_active :: bool
  cs_toolAllowlistEntry :: "json option"

definition PUBLIC_FIELD_ALLOWLIST :: "string list" where
  "PUBLIC_FIELD_ALLOWLIST = [''agentId'', ''declaredCategory'', ''declaredCapabilities'', ''trustStatus'']"

abbreviation text_order :: "string \<Rightarrow> string \<Rightarrow> bool" where
  "text_order l r \<equiv> compareText l r \<le> 0"

definition readCapabilities :: "json option \<Rightarrow> string list" where
  "readCapabilities toolAllowlistEntry =
     (case Option.bind toolAllowlistEntry (\<lambda>v. if isRecord v then field v ''tool_names'' else None) of
        Some (JArr names) \<Rightarrow> sort_by text_order (remdups (List.map_filter (\<lambda>v. as_str (Some v)) names))
      | _ \<Rightarrow> [])"

definition public_entry_of :: "catalog_source \<Rightarrow> public_entry" where
  "public_entry_of r = \<lparr>pe_agentId = cs_agentId r, pe_declaredCategory = cs_category r,
     pe_declaredCapabilities = readCapabilities (cs_toolAllowlistEntry r)\<rparr>"

definition projectPublicCatalog :: "int \<Rightarrow> string \<Rightarrow> catalog_source list \<Rightarrow> public_catalog" where
  "projectPublicCatalog revision digest agents = \<lparr>pc_revision = revision, pc_digest = digest,
     pc_agents = sort_by (\<lambda>l r. compareText (pe_agentId l) (pe_agentId r) \<le> 0) (map public_entry_of (filter cs_active agents))\<rparr>"

text \<open>The records that the registry lists.\<close>

definition source_of :: "registry_record \<Rightarrow> catalog_source" where
  "source_of r = \<lparr>cs_agentId = rg_agentId r, cs_category = rg_category r, cs_active = (rg_registrationState r = Registered_active),
     cs_toolAllowlistEntry = Some (ai_toolAllowlistEntry (rg_admissionInputs r))\<rparr>"

section \<open>The artifact\<close>

definition CATALOG_ARTIFACT_SCHEMA :: string where "CATALOG_ARTIFACT_SCHEMA = ''commerce.public-catalog/v1''"
definition CATALOG_MAX_BYTES :: nat where "CATALOG_MAX_BYTES = 262144"
definition CATALOG_MAX_AGE_MS :: int where "CATALOG_MAX_AGE_MS = 86400000"

record catalog_artifact =
  ct_sourceRevision :: string
  ct_generatedAt :: int
  ct_expiresAt :: int
  ct_catalog :: public_catalog
  ct_artifactDigest :: string

datatype catalog_error = Artifact_invalid | Artifact_expired | Artifact_too_large | Artifact_digest_mismatch
  | Snapshot_invalid | Snapshot_digest_mismatch

definition public_entry_json :: "public_entry \<Rightarrow> json" where
  "public_entry_json e = JObj [(''agentId'', JStr (pe_agentId e)), (''declaredCategory'', JStr (pe_declaredCategory e)),
     (''declaredCapabilities'', JArr (map JStr (pe_declaredCapabilities e))), (''trustStatus'', JStr ''declared-and-present'')]"

definition catalog_json :: "public_catalog \<Rightarrow> json" where
  "catalog_json c = JObj [(''ok'', JBool True), (''revision'', JNum (Integer (pc_revision c))), (''digest'', JStr (pc_digest c)),
     (''agents'', JArr (map public_entry_json (pc_agents c)))]"

abbreviation unsigned_entries :: "catalog_artifact \<Rightarrow> (string \<times> json) list" where
  "unsigned_entries a \<equiv> [(''schema'', JStr CATALOG_ARTIFACT_SCHEMA), (''sourceRevision'', JStr (ct_sourceRevision a)),
     (''generatedAt'', JNum (Integer (ct_generatedAt a))), (''expiresAt'', JNum (Integer (ct_expiresAt a))),
     (''catalog'', catalog_json (ct_catalog a))]"

definition unsigned_json :: "catalog_artifact \<Rightarrow> json" where
  "unsigned_json a = JObj (unsigned_entries a)"

definition artifact_json :: "catalog_artifact \<Rightarrow> json" where
  "artifact_json a = JObj (unsigned_entries a @ [(''artifactDigest'', JStr (ct_artifactDigest a))])"

definition boundedText :: "json option \<Rightarrow> nat \<Rightarrow> bool" where
  "boundedText v maximum = is_str v (\<lambda>s. s \<noteq> [] \<and> length s \<le> maximum)"

definition validPublicEntry :: "json \<Rightarrow> bool" where
  "validPublicEntry v =
     (exact_keys v PUBLIC_FIELD_ALLOWLIST \<and> boundedText (field v ''agentId'') 256
      \<and> boundedText (field v ''declaredCategory'') 64 \<and> field v ''trustStatus'' = Some (JStr ''declared-and-present'')
      \<and> (case field v ''declaredCapabilities'' of
           Some (JArr es) \<Rightarrow> length es \<le> 100 \<and> list_all (\<lambda>e. boundedText (Some e) 128) es
             \<and> distinct es \<and> successively (\<lambda>l r. compareText l r < 0) (List.map_filter (\<lambda>e. as_str (Some e)) es)
         | _ \<Rightarrow> False))"

definition entry_of :: "json \<Rightarrow> public_entry" where
  "entry_of v = \<lparr>pe_agentId = text_of v ''agentId'', pe_declaredCategory = text_of v ''declaredCategory'',
     pe_declaredCapabilities = (case strings_of (field v ''declaredCapabilities'') of Some ss \<Rightarrow> ss | None \<Rightarrow> [])\<rparr>"

text \<open>The catalog of an artifact, or nothing when a check on it fails.\<close>

definition readCatalog :: "json option \<Rightarrow> public_catalog option" where
  "readCatalog v =
     (case v of None \<Rightarrow> None
      | Some c \<Rightarrow>
          (case field c ''agents'' of
             Some (JArr agents) \<Rightarrow>
               if \<not> exact_keys c [''ok'', ''revision'', ''digest'', ''agents''] \<or> field c ''ok'' \<noteq> Some (JBool True)
                  \<or> \<not> is_num (field c ''revision'') (safe_ge 0) \<or> \<not> isNonzeroHexIdentity (field c ''digest'') 64
                  \<or> 100 < length agents \<or> \<not> list_all validPublicEntry agents
               then None
               else if \<not> successively (\<lambda>l r. compareText l r < 0) (map (\<lambda>e. text_of e ''agentId'') agents) then None
               else Some \<lparr>pc_revision = int_of c ''revision'', pc_digest = text_of c ''digest'', pc_agents = map entry_of agents\<rparr>
           | _ \<Rightarrow> None))"

definition ARTIFACT_KEYS :: "string list" where
  "ARTIFACT_KEYS = [''schema'', ''sourceRevision'', ''generatedAt'', ''expiresAt'', ''catalog'', ''artifactDigest'']"

definition readPublicCatalogArtifact :: "json \<Rightarrow> int \<Rightarrow> catalog_error + catalog_artifact" where
  "readPublicCatalogArtifact raw now =
     (let generatedAt = int_of raw ''generatedAt''; expiresAt = int_of raw ''expiresAt''
      in if \<not> exact_keys raw ARTIFACT_KEYS \<or> field raw ''schema'' \<noteq> Some (JStr CATALOG_ARTIFACT_SCHEMA)
            \<or> \<not> isNonzeroHexIdentity (field raw ''sourceRevision'') 40
            \<or> \<not> is_num (field raw ''generatedAt'') (safe_ge 0) \<or> \<not> is_num (field raw ''expiresAt'') isSafeInteger
            \<or> \<not> isNonzeroHexIdentity (field raw ''artifactDigest'') 64
         then Inl Artifact_invalid
         else if \<not> (generatedAt < expiresAt \<and> expiresAt - generatedAt \<le> CATALOG_MAX_AGE_MS) then Inl Artifact_invalid
         else if \<not> (generatedAt \<le> now \<and> now < expiresAt) then Inl Artifact_expired
         else case readCatalog (field raw ''catalog'') of
           None \<Rightarrow> Inl Artifact_invalid
         | Some catalog \<Rightarrow>
             let a = \<lparr>ct_sourceRevision = text_of raw ''sourceRevision'', ct_generatedAt = generatedAt, ct_expiresAt = expiresAt,
                   ct_catalog = catalog, ct_artifactDigest = text_of raw ''artifactDigest''\<rparr>
             in if CATALOG_MAX_BYTES < length (utf8 (canonicalJson raw)) then Inl Artifact_too_large
                else if sha256Hex (canonicalJson (unsigned_json a)) \<noteq> text_of raw ''artifactDigest'' then Inl Artifact_digest_mismatch
                else Inr a)"

text \<open>An agent of the snapshot that is exported.\<close>

definition snapshot_agent_ok :: "json \<Rightarrow> bool" where
  "snapshot_agent_ok e = (isRecord e \<and> boundedText (field e ''agentId'') 256 \<and> boundedText (field e ''category'') 64
     \<and> coerced (field e ''registrationState'') \<in> {''active'', ''inactive''}
     \<and> (case field e ''admissionInputs'' of Some i \<Rightarrow> isRecord i | None \<Rightarrow> False))"

definition snapshot_source :: "json \<Rightarrow> catalog_source" where
  "snapshot_source e = \<lparr>cs_agentId = text_of e ''agentId'', cs_category = text_of e ''category'',
     cs_active = (field e ''registrationState'' = Some (JStr ''active'')),
     cs_toolAllowlistEntry = Option.bind (field e ''admissionInputs'') (\<lambda>i. field i ''toolAllowlistEntry'')\<rparr>"

text \<open>The artifact that an export signs.\<close>

definition day_artifact :: "string \<Rightarrow> int \<Rightarrow> public_catalog \<Rightarrow> catalog_artifact" where
  "day_artifact sourceRevision generatedAt catalog =
     (let a = \<lparr>ct_sourceRevision = sourceRevision, ct_generatedAt = generatedAt, ct_expiresAt = generatedAt + CATALOG_MAX_AGE_MS,
            ct_catalog = catalog, ct_artifactDigest = ''''\<rparr>
      in a\<lparr>ct_artifactDigest := sha256Hex (canonicalJson (unsigned_json a))\<rparr>)"

definition createPublicCatalogArtifact :: "json \<Rightarrow> string \<Rightarrow> int \<Rightarrow> catalog_error + catalog_artifact" where
  "createPublicCatalogArtifact raw sourceRevision generatedAt =
     (case (field raw ''revision'', field raw ''agents'') of
        (Some revision, Some (JArr agents)) \<Rightarrow>
          if \<not> isRecord raw \<or> \<not> is_num (Some revision) (safe_ge 0) \<or> \<not> isNonzeroHexIdentity (field raw ''digest'') 64
             \<or> 100 < length agents
          then Inl Snapshot_invalid
          else if sha256Hex (canonicalJson (JObj [(''revision'', revision), (''agents'', JArr agents)])) \<noteq> text_of raw ''digest''
          then Inl Snapshot_digest_mismatch
          else if \<not> list_all snapshot_agent_ok agents then Inl Snapshot_invalid
          else let sources = map snapshot_source agents
            in if \<not> distinct (map cs_agentId sources) then Inl Snapshot_invalid
               else readPublicCatalogArtifact (artifact_json (day_artifact sourceRevision generatedAt
                      (projectPublicCatalog (int_of raw ''revision'') (text_of raw ''digest'') sources))) generatedAt
      | _ \<Rightarrow> Inl Snapshot_invalid)"

section \<open>What an accepted artifact holds\<close>

text \<open>A record with exactly the keys and canonically the values of another one is canonically equal to it.\<close>

lemma exact_canonical:
  assumes "exact_keys v (map fst kvs)" "distinct (map fst kvs)"
    and "\<And>k w. (k, w) \<in> set kvs \<Longrightarrow> \<exists>u. field v k = Some u \<and> storable u \<and> storable w \<and> canonicalValue u = canonicalValue w"
  shows "storable v \<and> canonicalValue v = canonicalValue (JObj kvs)"
proof -
  have look: "\<exists>u w. field v k = Some u \<and> map_of kvs k = Some w \<and> storable u \<and> storable w \<and> canonicalValue u = canonicalValue w"
    if "k \<in> set (map fst kvs)" for k
  proof -
    from that obtain w where "map_of kvs k = Some w" by (metis domIff map_of_eq_None_iff option.exhaust set_map)
    then show ?thesis using assms(3) map_of_SomeD by metis
  qed
  have st: "storable v" by (rule exact_keys_storable [OF assms(1,2)]) (use look in blast)
  obtain kvs' where v: "v = JObj kvs'" using assms(1) by (cases v) (auto simp: exact_keys_def)
  have "storable (JObj kvs)" using assms(2,3) by (fastforce simp: storable_JObj)
  moreover have "map_option canonicalValue (map_of kvs' k) = map_option canonicalValue (map_of kvs k)" for k
  proof (cases "k \<in> set (map fst kvs)")
    case True
    then show ?thesis using look v by fastforce
  next
    case False
    then have "k \<notin> set (map fst kvs')" using exact_keys_set [OF assms(1,2)] v by simp
    with False have "map_of kvs' k = None" "map_of kvs k = None" by (simp_all add: map_of_eq_None_iff)
    then show ?thesis by simp
  qed
  ultimately show ?thesis using st canonicalValue_records [of kvs' kvs] v by blast
qed

lemma texts_read [simp]: "List.map_filter (\<lambda>e. as_str (Some e)) (map JStr ss) = ss"
  by (induction ss) (simp_all add: map_filter_simps)

lemma those_texts [simp]: "those (map ((\<lambda>v. as_str (Some v)) \<circ> JStr) ss) = Some ss"
  by (induction ss) simp_all

lemma strings_of_texts: "list_all (\<lambda>e. boundedText (Some e) n) es \<Longrightarrow> \<exists>ss. es = map JStr ss \<and> strings_of (Some (JArr es)) = Some ss
    \<and> list_all (\<lambda>s. s \<noteq> [] \<and> length s \<le> n) ss \<and> List.map_filter (\<lambda>e. as_str (Some e)) es = ss"
proof (induction es)
  case (Cons e es)
  then obtain ss s where "es = map JStr ss" "strings_of (Some (JArr es)) = Some ss" "list_all (\<lambda>s. s \<noteq> [] \<and> length s \<le> n) ss"
    "List.map_filter (\<lambda>e. as_str (Some e)) es = ss" "e = JStr s" "s \<noteq> []" "length s \<le> n"
    by (auto simp: boundedText_def elim!: is_strE)
  then show ?case by (intro exI [of _ "s # ss"]) (simp add: map_filter_simps strings_of.simps)
qed (simp add: map_filter_simps strings_of.simps)

definition entry_ok :: "public_entry \<Rightarrow> bool" where
  "entry_ok e = (pe_agentId e \<noteq> [] \<and> length (pe_agentId e) \<le> 256 \<and> pe_declaredCategory e \<noteq> [] \<and> length (pe_declaredCategory e) \<le> 64
     \<and> length (pe_declaredCapabilities e) \<le> 100 \<and> list_all (\<lambda>s. s \<noteq> [] \<and> length s \<le> 128) (pe_declaredCapabilities e)
     \<and> distinct (pe_declaredCapabilities e) \<and> successively (\<lambda>l r. compareText l r < 0) (pe_declaredCapabilities e))"

lemma entry_json_valid: "validPublicEntry (public_entry_json e) = entry_ok e"
  by (auto simp: validPublicEntry_def public_entry_json_def entry_ok_def exact_keys_def PUBLIC_FIELD_ALLOWLIST_def boundedText_def
      list_all_iff distinct_map inj_on_def)

lemma entry_json_read [simp]: "entry_of (public_entry_json e) = e"
  by (simp add: entry_of_def public_entry_json_def text_of_def)

lemma entry_exact:
  assumes "validPublicEntry v"
  shows "storable v" "canonicalValue v = canonicalValue (public_entry_json (entry_of v))" "entry_ok (entry_of v)"
proof -
  obtain es where es: "field v ''declaredCapabilities'' = Some (JArr es)" "list_all (\<lambda>e. boundedText (Some e) 128) es"
      "length es \<le> 100" "distinct es" "successively (\<lambda>l r. compareText l r < 0) (List.map_filter (\<lambda>e. as_str (Some e)) es)"
    using assms by (auto simp: validPublicEntry_def split: option.splits json.splits)
  obtain ss where ss: "es = map JStr ss" "strings_of (Some (JArr es)) = Some ss" "list_all (\<lambda>s. s \<noteq> [] \<and> length s \<le> 128) ss"
      "List.map_filter (\<lambda>e. as_str (Some e)) es = ss" using strings_of_texts [OF es(2)] by blast
  have texts: "field v ''agentId'' = Some (JStr (pe_agentId (entry_of v)))" "field v ''declaredCategory'' = Some (JStr (pe_declaredCategory (entry_of v)))"
      "pe_agentId (entry_of v) \<noteq> [] \<and> length (pe_agentId (entry_of v)) \<le> 256"
      "pe_declaredCategory (entry_of v) \<noteq> [] \<and> length (pe_declaredCategory (entry_of v)) \<le> 64"
    using assms by (auto simp: validPublicEntry_def boundedText_def entry_of_def dest!: text_of_is_str)
  have caps: "pe_declaredCapabilities (entry_of v) = ss" using ss(2) by (simp add: entry_of_def es(1))
  show "entry_ok (entry_of v)"
    using texts(3,4) es(3,4,5) ss(1,3,4) by (simp add: entry_ok_def caps distinct_map)
  have keys: "exact_keys v (map fst [(''agentId'', JStr (pe_agentId (entry_of v))), (''declaredCategory'', JStr (pe_declaredCategory (entry_of v))),
     (''declaredCapabilities'', JArr (map JStr ss)), (''trustStatus'', JStr ''declared-and-present'')])"
    using assms by (simp add: validPublicEntry_def PUBLIC_FIELD_ALLOWLIST_def)
  have "field v ''trustStatus'' = Some (JStr ''declared-and-present'')" using assms by (simp add: validPublicEntry_def)
  then have "storable v \<and> canonicalValue v = canonicalValue (JObj [(''agentId'', JStr (pe_agentId (entry_of v))),
     (''declaredCategory'', JStr (pe_declaredCategory (entry_of v))), (''declaredCapabilities'', JArr (map JStr ss)), (''trustStatus'', JStr ''declared-and-present'')])"
    by (intro exact_canonical [OF keys]) (use texts es(1) ss(1) in \<open>auto simp: storable_JArr\<close>)
  then show "storable v" "canonicalValue v = canonicalValue (public_entry_json (entry_of v))"
    by (simp_all add: public_entry_json_def caps)
qed

definition catalog_ok :: "public_catalog \<Rightarrow> bool" where
  "catalog_ok c = (0 \<le> pc_revision c \<and> pc_revision c \<le> max_safe \<and> isNonzeroHexIdentity (Some (JStr (pc_digest c))) 64
     \<and> length (pc_agents c) \<le> 100 \<and> list_all entry_ok (pc_agents c)
     \<and> successively (\<lambda>l r. compareText l r < 0) (map pe_agentId (pc_agents c)))"

lemma read_back [simp]:
  "text_of (public_entry_json e) ''agentId'' = pe_agentId e"
  "text_of (catalog_json c) ''digest'' = pc_digest c" "int_of (catalog_json c) ''revision'' = pc_revision c"
  "field (catalog_json c) ''agents'' = Some (JArr (map public_entry_json (pc_agents c)))"
  "field (catalog_json c) ''digest'' = Some (JStr (pc_digest c))" "field (catalog_json c) ''ok'' = Some (JBool True)"
  "field (catalog_json c) ''revision'' = Some (JNum (Integer (pc_revision c)))"
  "exact_keys (catalog_json c) [''ok'', ''revision'', ''digest'', ''agents'']"
  by (simp_all add: public_entry_json_def catalog_json_def text_of_def int_of_def exact_keys_def)

lemma entry_id: "text_of e ''agentId'' = pe_agentId (entry_of e)"
  by (simp add: entry_of_def)

lemma readCatalog_json: "readCatalog (Some (catalog_json c)) = (if catalog_ok c then Some c else None)"
  by (auto simp: readCatalog_def catalog_ok_def list_all_iff entry_json_valid comp_def)

lemma storable_entry_json [simp]: "storable (public_entry_json e)"
  by (simp add: public_entry_json_def storable_JObj storable_JArr)

lemma storable_catalog_json [simp]: "storable (catalog_json c)"
  by (simp add: catalog_json_def storable_JObj storable_JArr)

lemma readCatalog_exact:
  assumes "readCatalog v = Some c"
  obtains w where "v = Some w" "storable w" "canonicalValue w = canonicalValue (catalog_json c)" "catalog_ok c"
proof -
  obtain w agents where w: "v = Some w" "field w ''agents'' = Some (JArr agents)"
    using assms by (auto simp: readCatalog_def split: option.splits json.splits)
  have checks: "exact_keys w [''ok'', ''revision'', ''digest'', ''agents'']" "field w ''ok'' = Some (JBool True)"
      "is_num (field w ''revision'') (safe_ge 0)" "isNonzeroHexIdentity (field w ''digest'') 64"
      "length agents \<le> 100" "list_all validPublicEntry agents" "successively (\<lambda>l r. compareText l r < 0) (map (\<lambda>e. text_of e ''agentId'') agents)"
    and c: "c = \<lparr>pc_revision = int_of w ''revision'', pc_digest = text_of w ''digest'', pc_agents = map entry_of agents\<rparr>"
    using assms by (auto simp: readCatalog_def w split: if_splits)
  have digest: "field w ''digest'' = Some (JStr (text_of w ''digest''))"
    using nonzero_identity_str [OF checks(4)] by (auto simp: text_of_def)
  have revision: "field w ''revision'' = Some (JNum (Integer (int_of w ''revision'')))" "0 \<le> int_of w ''revision''" "int_of w ''revision'' \<le> max_safe"
    using int_of_is_num [OF checks(3)] by auto
  have agents: "storable (JArr agents)" "canonicalValue (JArr agents) = canonicalValue (JArr (map (public_entry_json \<circ> entry_of) agents))"
    using checks(6) entry_exact by (auto simp: storable_JArr list_all_iff)
  have "storable w \<and> canonicalValue w = canonicalValue (JObj [(''ok'', JBool True), (''revision'', JNum (Integer (int_of w ''revision''))),
      (''digest'', JStr (text_of w ''digest'')), (''agents'', JArr (map (public_entry_json \<circ> entry_of) agents))])"
    by (rule exact_canonical) (use checks(1,2) digest revision w(2) agents in \<open>auto simp: storable_JArr\<close>)
  then have "storable w" "canonicalValue w = canonicalValue (catalog_json c)" by (simp_all add: catalog_json_def c)
  moreover have "catalog_ok c"
    using revision checks(4-7) digest entry_exact(3) by (auto simp: catalog_ok_def c list_all_iff entry_id comp_def)
  ultimately show thesis using w(1) that by blast
qed

definition artifact_ok :: "catalog_artifact \<Rightarrow> bool" where
  "artifact_ok a = (isNonzeroHexIdentity (Some (JStr (ct_sourceRevision a))) 40 \<and> 0 \<le> ct_generatedAt a \<and> ct_expiresAt a \<le> max_safe
     \<and> ct_generatedAt a < ct_expiresAt a \<and> ct_expiresAt a - ct_generatedAt a \<le> CATALOG_MAX_AGE_MS
     \<and> isNonzeroHexIdentity (Some (JStr (ct_artifactDigest a))) 64 \<and> catalog_ok (ct_catalog a)
     \<and> length (utf8 (canonicalJson (artifact_json a))) \<le> CATALOG_MAX_BYTES
     \<and> sha256Hex (canonicalJson (unsigned_json a)) = ct_artifactDigest a)"

lemma artifact_fields [simp]:
  "field (artifact_json a) ''schema'' = Some (JStr CATALOG_ARTIFACT_SCHEMA)"
  "field (artifact_json a) ''sourceRevision'' = Some (JStr (ct_sourceRevision a))"
  "field (artifact_json a) ''generatedAt'' = Some (JNum (Integer (ct_generatedAt a)))"
  "field (artifact_json a) ''expiresAt'' = Some (JNum (Integer (ct_expiresAt a)))"
  "field (artifact_json a) ''catalog'' = Some (catalog_json (ct_catalog a))"
  "field (artifact_json a) ''artifactDigest'' = Some (JStr (ct_artifactDigest a))"
  "exact_keys (artifact_json a) ARTIFACT_KEYS"
  by (simp_all add: artifact_json_def ARTIFACT_KEYS_def exact_keys_def)

lemma artifact_again [simp]:
  "\<lparr>ct_sourceRevision = ct_sourceRevision a, ct_generatedAt = ct_generatedAt a, ct_expiresAt = ct_expiresAt a,
     ct_catalog = ct_catalog a, ct_artifactDigest = ct_artifactDigest a\<rparr> = (a :: catalog_artifact)"
  by simp

lemma read_artifact_json:
  "readPublicCatalogArtifact (artifact_json a) now = Inr b \<longleftrightarrow> artifact_ok a \<and> ct_generatedAt a \<le> now \<and> now < ct_expiresAt a \<and> b = a"
  by (auto simp: readPublicCatalogArtifact_def Let_def artifact_ok_def readCatalog_json text_of_def int_of_def max_safe_def)

lemma read_artifact_expired:
  "artifact_ok a \<Longrightarrow> \<not> (ct_generatedAt a \<le> now \<and> now < ct_expiresAt a) \<Longrightarrow>
     readPublicCatalogArtifact (artifact_json a) now = Inl Artifact_expired"
  by (auto simp: readPublicCatalogArtifact_def Let_def artifact_ok_def text_of_def int_of_def max_safe_def)

lemma read_artifact_exact:
  assumes "readPublicCatalogArtifact raw now = Inr a"
  shows "storable raw" "canonicalValue raw = canonicalValue (artifact_json a)" "artifact_ok a" "ct_generatedAt a \<le> now" "now < ct_expiresAt a"
proof -
  let ?g = "int_of raw ''generatedAt''" and ?e = "int_of raw ''expiresAt''"
  obtain catalog where checks: "exact_keys raw ARTIFACT_KEYS" "field raw ''schema'' = Some (JStr CATALOG_ARTIFACT_SCHEMA)"
      "isNonzeroHexIdentity (field raw ''sourceRevision'') 40" "is_num (field raw ''generatedAt'') (safe_ge 0)"
      "is_num (field raw ''expiresAt'') isSafeInteger" "isNonzeroHexIdentity (field raw ''artifactDigest'') 64"
      "?g < ?e" "?e - ?g \<le> CATALOG_MAX_AGE_MS" "?g \<le> now" "now < ?e" "readCatalog (field raw ''catalog'') = Some catalog"
      "length (utf8 (canonicalJson raw)) \<le> CATALOG_MAX_BYTES"
    and a: "a = \<lparr>ct_sourceRevision = text_of raw ''sourceRevision'', ct_generatedAt = ?g, ct_expiresAt = ?e,
                   ct_catalog = catalog, ct_artifactDigest = text_of raw ''artifactDigest''\<rparr>"
    and digest: "sha256Hex (canonicalJson (unsigned_json a)) = text_of raw ''artifactDigest''"
    using assms by (auto simp: readPublicCatalogArtifact_def Let_def split: if_splits option.splits)
  obtain w where w: "field raw ''catalog'' = Some w" "storable w" "canonicalValue w = canonicalValue (catalog_json catalog)" "catalog_ok catalog"
    using checks(11) by (rule readCatalog_exact)
  have texts: "field raw ''sourceRevision'' = Some (JStr (text_of raw ''sourceRevision''))"
      "field raw ''artifactDigest'' = Some (JStr (text_of raw ''artifactDigest''))"
    using nonzero_identity_str [OF checks(3)] nonzero_identity_str [OF checks(6)] by (auto simp: text_of_def)
  have g: "field raw ''generatedAt'' = Some (JNum (Integer ?g))" "0 \<le> ?g" using int_of_is_num [OF checks(4)] by auto
  have e: "field raw ''expiresAt'' = Some (JNum (Integer ?e))" "?e \<le> max_safe"
    using checks(5) by (auto simp: int_of_def isSafeInteger_Int elim!: is_numE)
  have "storable raw \<and> canonicalValue raw = canonicalValue (JObj (unsigned_entries a @ [(''artifactDigest'', JStr (ct_artifactDigest a))]))"
    by (rule exact_canonical) (use checks(1,2) texts g e w in \<open>auto simp: a ARTIFACT_KEYS_def\<close>)
  then show "storable raw" "canonicalValue raw = canonicalValue (artifact_json a)" by (simp_all add: artifact_json_def)
  then have "canonicalJson raw = canonicalJson (artifact_json a)" by (simp add: canonicalJson_def)
  then show "artifact_ok a"
    using checks(3,6-8,12) digest g(2) e(2) w(4) texts by (simp add: artifact_ok_def) (simp add: a)
  show "ct_generatedAt a \<le> now" "now < ct_expiresAt a" using checks(9,10) by (simp_all add: a)
qed


text \<open>The other direction: the order of the object entries is all that may differ.\<close>

lemma canonical_text_iff: "canonicalValue v = JStr s \<longleftrightarrow> v = JStr s" "canonicalValue v = JBool b \<longleftrightarrow> v = JBool b"
  "canonicalValue v = JNum x \<longleftrightarrow> v = JNum x"
  by (cases v; simp add: canonicalValue_JObj)+

lemma canonical_texts_iff: "canonicalValue v = JArr (map JStr ss) \<longleftrightarrow> v = JArr (map JStr ss)"
proof -
  have "map canonicalValue es = map JStr ss \<longleftrightarrow> es = map JStr ss" for es
    by (induction es arbitrary: ss) (auto simp: Cons_eq_map_conv canonical_text_iff)
  then show ?thesis by (cases v) (simp_all add: canonicalValue_JObj)
qed

lemma same_fields:
  assumes "storable v" "storable w" "canonicalValue v = canonicalValue w"
  shows "field w k = Some u \<Longrightarrow> \<exists>u'. field v k = Some u' \<and> storable u' \<and> canonicalValue u' = canonicalValue u"
    and "exact_keys v ks = exact_keys w ks"
proof -
  show "exact_keys v ks = exact_keys w ks"
    using exact_keys_canonical [OF assms(1)] exact_keys_canonical [OF assms(2)] assms(3) by metis
  assume "field w k = Some u"
  then have "map_option canonicalValue (field v k) = Some (canonicalValue u)"
    using field_canonicalValue [OF assms(1), of k] field_canonicalValue [OF assms(2), of k] assms(3) by simp
  then show "\<exists>u'. field v k = Some u' \<and> storable u' \<and> canonicalValue u' = canonicalValue u"
    using assms(1) by (cases v) (fastforce simp: storable_JObj dest: map_of_SomeD)+
qed

lemma entry_reordered:
  assumes "storable v" "canonicalValue v = canonicalValue (public_entry_json e)"
  shows "validPublicEntry v = entry_ok e" "entry_of v = e"
proof -
  note same = same_fields [OF assms(1) storable_entry_json assms(2)]
  have f: "field v ''agentId'' = Some (JStr (pe_agentId e))" "field v ''declaredCategory'' = Some (JStr (pe_declaredCategory e))"
    "field v ''trustStatus'' = Some (JStr ''declared-and-present'')"
    using same(1) [of "''agentId''"] same(1) [of "''declaredCategory''"] same(1) [of "''trustStatus''"]
    by (simp_all add: public_entry_json_def canonical_text_iff)
  obtain u where "field v ''declaredCapabilities'' = Some u" "canonicalValue u = JArr (map JStr (pe_declaredCapabilities e))"
    using same(1) [of "''declaredCapabilities''"] by (auto simp: public_entry_json_def comp_def)
  then have caps: "field v ''declaredCapabilities'' = Some (JArr (map JStr (pe_declaredCapabilities e)))"
    by (simp add: canonical_texts_iff)
  have "exact_keys v PUBLIC_FIELD_ALLOWLIST"
    unfolding same(2) by (simp add: exact_keys_def public_entry_json_def PUBLIC_FIELD_ALLOWLIST_def)
  then have "validPublicEntry v = validPublicEntry (public_entry_json e)"
    by (simp add: validPublicEntry_def f caps) (simp add: public_entry_json_def exact_keys_def PUBLIC_FIELD_ALLOWLIST_def)
  then show "validPublicEntry v = entry_ok e" by (simp add: entry_json_valid)
  show "entry_of v = e" by (simp add: entry_of_def text_of_def f caps)
qed

lemma catalog_reordered:
  assumes "storable v" "canonicalValue v = canonicalValue (catalog_json c)" "catalog_ok c"
  shows "readCatalog (Some v) = Some c"
proof -
  note same = same_fields [OF assms(1) storable_catalog_json assms(2)]
  have f: "field v ''ok'' = Some (JBool True)" "field v ''revision'' = Some (JNum (Integer (pc_revision c)))" "field v ''digest'' = Some (JStr (pc_digest c))"
    using same(1) [of "''ok''"] same(1) [of "''revision''"] same(1) [of "''digest''"] by (simp_all add: canonical_text_iff)
  obtain u where u: "field v ''agents'' = Some u" "storable u" "canonicalValue u = canonicalValue (JArr (map public_entry_json (pc_agents c)))"
    using same(1) [of "''agents''"] by auto
  then obtain es where es: "u = JArr es" "map canonicalValue es = map canonicalValue (map public_entry_json (pc_agents c))"
    by (cases u) (simp_all add: canonicalValue_JObj)
  have entries: "list_all storable es \<Longrightarrow> map canonicalValue es = map canonicalValue (map public_entry_json ps) \<Longrightarrow> list_all entry_ok ps \<Longrightarrow>
      list_all validPublicEntry es \<and> map entry_of es = ps" for es ps
    by (induction es arbitrary: ps) (auto simp: Cons_eq_map_conv entry_reordered)
  have "list_all storable es" using u(2) es(1) by (simp add: storable_JArr list_all_iff)
  then have valid: "list_all validPublicEntry es" "map entry_of es = pc_agents c"
    using entries [OF _ es(2)] assms(3) by (auto simp: catalog_ok_def)
  then have "map (\<lambda>e. text_of e ''agentId'') es = map pe_agentId (pc_agents c)" "length es = length (pc_agents c)"
    by (auto simp: entry_id simp flip: valid(2))
  then show ?thesis
    using f u(1) es(1) valid assms(3) same(2) by (simp add: readCatalog_def catalog_ok_def text_of_def int_of_def)
qed

lemma storable_artifact_json [simp]: "storable (artifact_json a)"
  by (simp add: artifact_json_def storable_JObj)

lemma artifact_reordered:
  assumes "storable raw" "canonicalValue raw = canonicalValue (artifact_json a)" "artifact_ok a" "ct_generatedAt a \<le> now" "now < ct_expiresAt a"
  shows "readPublicCatalogArtifact raw now = Inr a"
proof -
  note same = same_fields [OF assms(1) storable_artifact_json assms(2)]
  have f: "field raw ''schema'' = Some (JStr CATALOG_ARTIFACT_SCHEMA)" "field raw ''sourceRevision'' = Some (JStr (ct_sourceRevision a))"
    "field raw ''generatedAt'' = Some (JNum (Integer (ct_generatedAt a)))" "field raw ''expiresAt'' = Some (JNum (Integer (ct_expiresAt a)))"
    "field raw ''artifactDigest'' = Some (JStr (ct_artifactDigest a))"
    using same(1) [OF artifact_fields(1)] same(1) [OF artifact_fields(2)] same(1) [OF artifact_fields(3)]
      same(1) [OF artifact_fields(4)] by (simp_all add: canonical_text_iff) (use same(1) [of "''artifactDigest''"] in
        \<open>simp add: artifact_json_def canonical_text_iff\<close>)
  obtain u where "field raw ''catalog'' = Some u" "storable u" "canonicalValue u = canonicalValue (catalog_json (ct_catalog a))"
    using same(1) [OF artifact_fields(5)] by blast
  moreover from this have "readCatalog (Some u) = Some (ct_catalog a)"
    using assms(3) by (intro catalog_reordered) (simp_all add: artifact_ok_def)
  moreover have "canonicalJson raw = canonicalJson (artifact_json a)" using assms(2) by (simp add: canonicalJson_def)
  moreover have "exact_keys raw ARTIFACT_KEYS" by (simp add: same(2))
  ultimately show ?thesis
    using f assms(3-5) by (simp add: readPublicCatalogArtifact_def Let_def artifact_ok_def text_of_def int_of_def max_safe_def)
qed

end
