(* ===== verification/Acos_Admission_Claims.thy ===== *)
theory Acos_Admission_Claims imports Acos_Admission begin

text \<open>
  What an answer of the agent runtime is worth to the operator: when an admission may be trusted, and
  when its reservation may be completed although it failed. The sample exchanges show both to happen.
\<close>

section \<open>Claims\<close>

text \<open>
  C29. A granted admission can be trusted: the provider was sent a request that it authenticates and
  that carries the permit of the runtime for the very claim, epoch and sequence number of the operator's
  permit and for the very intent the operator's permit was reserved for; its answer echoed that permit, came
  from the pinned deployment, and the receipt is bound to the inputs, the request and the permit.
\<close>

theorem admission_trusted:
  assumes "requestAcosAdmission date_parse binding input intent permit pin secret = Admission_granted receipt"
  shows "\<exists>rq r p. binding rq = Inr r
    \<and> verifyAcosAdmissionRequestAuthentication rq ACOS_ADMISSION_PROVIDER_CONTRACT secret
    \<and> readAgenticOsAdmissionPermit (rq_headers rq) = Some p \<and> readAgenticOsAdmissionPermit (rs_headers r) = Some p
    \<and> pm_claimId p = pm_claimId permit \<and> pm_leaseEpoch p = pm_leaseEpoch permit
    \<and> pm_mutationSequence p = pm_mutationSequence permit
    \<and> pm_requestDigest permit = authoringMutationRequestDigest AGENT_REGISTRY_CLAIM intent
    \<and> pm_requestDigest p = agenticOsAdmissionRequestDigest intent
    \<and> readAcosAdmissionServingIdentity date_parse (rs_headers r) pin \<noteq> None
    \<and> isAcosAdmissionReceiptBoundToInputs date_parse (Some receipt) input
         (Some \<lparr>xa_admissionInputsDigest = sha256Hex (canonicalJson (inputs_json input)),
            xa_admissionRequestDigest = agenticOsAdmissionRequestDigest intent,
            xa_permitDigest = sha256Hex (canonicalJson (admission_permit_json p))\<rparr>) None"
proof -
  obtain p rq r where p: "createAgenticOsAdmissionPermit intent permit = Some p"
    and rq: "admission_request input intent p secret = Inr (Some rq)" and r: "binding rq = Inr r"
    and echo: "responseMatchesAgenticOsAdmission (rs_headers r) p"
    and serving: "readAcosAdmissionServingIdentity date_parse (rs_headers r) pin \<noteq> None"
    and bound: "isAcosAdmissionReceiptBoundToInputs date_parse (Some receipt) input (Some (expected_of input p)) None"
    using assms by (rule granted_admission)
  note created = created_permit [OF p]
  have "pm_claimId p = pm_claimId permit" "pm_leaseEpoch p = pm_leaseEpoch permit" "pm_mutationSequence p = pm_mutationSequence permit"
    using arg_cong [OF created(5), of pm_claimId] arg_cong [OF created(5), of pm_leaseEpoch]
      arg_cong [OF created(5), of pm_mutationSequence] by simp_all
  then show ?thesis
    using r admission_request_received [OF rq created(1,6)] echoed_permit_read [OF created(1) echo] created(3,4) serving
      bound [unfolded expected_of_def] by auto
qed

text \<open>
  C33. A reservation may be completed after a failed admission only if the provider itself refused for good:
  whatever else happens, a lost answer, a foreign one, a server error or a malformed rejection, the
  result tells the operator to keep it. The refusal answers the authenticated request with status 409,
  echoes the permit of the runtime, and its finding pairs a type with one of the codes that are final.
\<close>

theorem admission_release_safe:
  assumes "requestAcosAdmission date_parse binding input intent permit pin secret = Admission_rejected code status finding True"
  shows "\<exists>rq r p f. binding rq = Inr r \<and> status = 409 \<and> rs_status r = 409 \<and> finding = Some f
    \<and> verifyAcosAdmissionRequestAuthentication rq ACOS_ADMISSION_PROVIDER_CONTRACT secret
    \<and> readAgenticOsAdmissionPermit (rq_headers rq) = Some p \<and> readAgenticOsAdmissionPermit (rs_headers r) = Some p
    \<and> pm_requestDigest p = agenticOsAdmissionRequestDigest intent
    \<and> (af_type f = ''unfederated-tool'' \<and> af_reason_code f \<in> set UNFEDERATED_TERMINAL_REJECTION_CODES
       \<or> af_type f = ''uncatalogued-tool'' \<and> af_reason_code f \<in> set UNCATALOGUED_TERMINAL_REJECTION_CODES)"
proof -
  obtain p rq r f where p: "createAgenticOsAdmissionPermit intent permit = Some p"
    and rq: "admission_request input intent p secret = Inr (Some rq)" and r: "binding rq = Inr r"
    and echo: "responseMatchesAgenticOsAdmission (rs_headers r) p" and st: "rs_status r = 409" and f: "finding = Some f"
    and terminal: "readDurableTerminalRejection (readJsonResponse (rs_headers r) (rs_body r) MAXIMUM_ADMISSION_RESPONSE_BYTES) = Some f"
    using assms by (rule released_admission)
  have "status = 409"
    using assms by (auto simp: requestAcosAdmission_def read_admission_def Let_def split: if_splits option.splits sum.splits)
  moreover have "af_type f = ''unfederated-tool'' \<and> af_reason_code f \<in> set UNFEDERATED_TERMINAL_REJECTION_CODES
       \<or> af_type f = ''uncatalogued-tool'' \<and> af_reason_code f \<in> set UNCATALOGUED_TERMINAL_REJECTION_CODES"
    using terminal by (auto simp: readDurableTerminalRejection_def Let_def text_of_def coerced_def
        split: option.splits if_splits elim!: is_strE)
  ultimately show ?thesis
    using r st f admission_request_received [OF rq created_permit(1) [OF p] created_permit(6) [OF p]] echoed_permit_read [OF created_permit(1) [OF p] echo]
      created_permit(4) [OF p] by blast
qed

section \<open>A sample admission\<close>

definition sample_inputs :: admission_inputs where
  "sample_inputs = \<lparr>ai_agentDefinition = JObj [(''id'', JStr ''agent-1'')],
     ai_toolAllowlistEntry = JObj [(''entry_id'', JStr ''entry-1''), (''agent_definition_id'', JStr ''agent-1''),
       (''adapter_identity'', JStr ''adapter-1''), (''tool_names'', JArr [JStr ''search''])],
     ai_invocationRegisterEntry = JObj [(''route'', JStr ''/search''), (''tag'', JStr ''#search''), (''binding'', JStr ''@search''),
       (''tool_identity'', JStr ''search'')],
     ai_operatorInstructionRef = COMMERCE_ADMISSION_OPERATOR_INSTRUCTION_REF\<rparr>"

definition sample_acos_pin :: acos_pin where
  "sample_acos_pin = \<lparr>dn_sourceRevision = replicate 40 (CHR ''1''), dn_candidateDigest = replicate 64 (CHR ''2'')\<rparr>"

definition sample_identity :: json where
  "sample_identity = JObj [(''schema'', JStr ACOS_DEPLOYMENT_IDENTITY_SCHEMA), (''sourceRevision'', JStr (dn_sourceRevision sample_acos_pin)),
     (''candidateDigest'', JStr (dn_candidateDigest sample_acos_pin)), (''versionId'', JStr ''01234567-89ab-4cde-8f01-23456789abcd''),
     (''versionTag'', JStr (''acos-prod-'' @ dn_candidateDigest sample_acos_pin)), (''versionTimestamp'', JStr ''2026-09-03T00:00:00.000Z'')]"

definition sample_dates :: date_parser where
  "sample_dates s = (if s = ''2026-09-03T00:00:00.000Z'' then Some 1788393600000 else None)"

definition sample_registry_permit :: "json \<Rightarrow> mutation_permit" where
  "sample_registry_permit intent =
     (let d = authoringMutationRequestDigest AGENT_REGISTRY_CLAIM intent
      in (header_permit ''registry'')\<lparr>pm_mutationId := mutation_id 1 2 d, pm_operationId := ''operation:'' @ d, pm_requestDigest := d\<rparr>)"

definition sample_admission_permit :: "json \<Rightarrow> mutation_permit" where
  "sample_admission_permit intent =
     (let d = agenticOsAdmissionRequestDigest intent
      in (header_permit ''registry'')\<lparr>pm_mutationId := mutation_id 1 2 d, pm_operationId := ''operation:'' @ d, pm_requestDigest := d\<rparr>)"

definition sample_authority :: "json \<Rightarrow> json" where
  "sample_authority intent = JObj [(''schema'', JStr AGENTIC_GRAPH_AUTHORITY_SCHEMA),
     (''admission_inputs_digest'', JStr (sha256Hex (canonicalJson (inputs_json sample_inputs)))),
     (''admission_request_digest'', JStr (agenticOsAdmissionRequestDigest intent)),
     (''authority_ref'', JStr (AGENTIC_GRAPH_AUTHORITY_REF_PREFIX @ ''grant-1'')),
     (''evidence_digest'', JStr (replicate 64 (CHR ''3''))), (''issuer_repository'', JStr AGENTIC_GRAPH_ISSUER_REPOSITORY),
     (''issuer_revision'', JStr (replicate 40 (CHR ''4''))),
     (''permit_digest'', JStr (sha256Hex (canonicalJson (admission_permit_json (sample_admission_permit intent))))),
     (''expires_at_ms'', JNum (Integer 1000))]"

definition sample_admission_receipt :: "json \<Rightarrow> json" where
  "sample_admission_receipt intent = JObj [(''schema'', JStr ACOS_ADMISSION_RECEIPT_SCHEMA), (''adapter_identity'', JStr ''adapter-1''),
     (''agent_definition_id'', JStr ''agent-1''), (''tool_allowlist_entry_id'', JStr ''entry-1''),
     (''invocation_register_tokens'', JArr (map JStr [''/search'', ''#search'', ''@search'', ''search''])),
     (''resulting_status'', JStr ''active''), (''operator_instruction_reference'', JStr COMMERCE_ADMISSION_OPERATOR_INSTRUCTION_REF),
     (''registered_at_ms'', JNum (Integer 5)), (''agentic_graph_authority'', sample_authority intent),
     (''deployment_identity'', sample_identity)]"

definition sample_answer :: "json \<Rightarrow> nat \<Rightarrow> json \<Rightarrow> response" where
  "sample_answer intent status payload = \<lparr>rs_status = status,
     rs_headers = agenticOsAdmissionHeaders (sample_admission_permit intent)
       @ [(ACOS_ADMISSION_SERVING_IDENTITY_HEADER, canonicalJson sample_identity)],
     rs_body = Some \<lparr>bd_chunks = [2000], bd_text = json_text payload, bd_valid = True\<rparr>\<rparr>"

definition sample_granted :: "json \<Rightarrow> response" where
  "sample_granted intent = sample_answer intent 200 (JObj [(''status'', JStr ''registered''),
     (''record'', sample_admission_receipt intent), (''finding'', JNull)])"

definition sample_refused :: "json \<Rightarrow> response" where
  "sample_refused intent = sample_answer intent 409 (JObj [(''status'', JStr ''rejected''), (''record'', JNull),
     (''finding'', JObj [(''schema'', JStr ACOS_ADMISSION_FINDING_SCHEMA), (''type'', JStr ''unfederated-tool''),
        (''adapter_identity'', JStr ''adapter-1''), (''reason_code'', JStr ''agent_capacity''), (''message'', JStr ''full''),
        (''details'', JObj [])])])"

definition sample_admission_secret :: string where
  "sample_admission_secret = ''0123456789abcdef0123456789abcdef''"

lemma sample_identity_read:
  "readAcosDeploymentIdentity sample_dates (Some sample_identity) (Some sample_acos_pin) = Some sample_identity"
  "readAcosDeploymentIdentity sample_dates (Some sample_identity) None = Some sample_identity"
  by code_simp+

lemma admission_permits_ok: "permit_ok (sample_registry_permit intent)" "permit_ok (sample_admission_permit intent)"
proof -
  have ok: "permit_ok (header_permit ''registry'')" by code_simp
  have "permit_ok ((header_permit ''registry'')\<lparr>pm_mutationId := mutation_id 1 2 d, pm_operationId := ''operation:'' @ d, pm_requestDigest := d\<rparr>)"
    if d: "sha256_pattern d" for d
  proof -
    have "pm_mutationId (header_permit ''registry'') = mutation_id 1 2 (replicate 64 (CHR ''a''))" "sha256_pattern (replicate 64 (CHR ''a''))"
      by (simp_all add: header_permit_def js_regex list_all_iff)
    then have "authoring_id (mutation_id 1 2 d)"
      using mutation_id_other_digest [OF _ _ d, of 1 2 "replicate 64 (CHR ''a'')"] ok by (metis permit_ok_def)
    with ok d operation_id_ok [OF d] show ?thesis by (simp add: permit_ok_def header_permit_def)
  qed
  then show "permit_ok (sample_registry_permit intent)" "permit_ok (sample_admission_permit intent)"
    by (simp_all add: sample_registry_permit_def sample_admission_permit_def Let_def authoringMutationRequestDigest_def
        agenticOsAdmissionRequestDigest_def)
qed

lemma sample_created: "createAgenticOsAdmissionPermit intent (sample_registry_permit intent) = Some (sample_admission_permit intent)"
  using admission_permits_ok(1) [of intent]
  by (simp add: createAgenticOsAdmissionPermit_def validPermitFields_json Let_def)
    (simp add: sample_registry_permit_def sample_admission_permit_def Let_def header_permit_def ADMISSION_SCOPE_def ADMISSION_WRITE_TARGET_def)

lemma sample_bound:
  "isAcosAdmissionReceiptBoundToInputs sample_dates (Some (sample_admission_receipt intent)) sample_inputs
     (Some (expected_of sample_inputs (sample_admission_permit intent))) None"
proof -
  have "readGraphAuthority (Some (sample_authority intent)) (Some (expected_of sample_inputs (sample_admission_permit intent))) \<noteq> None"
  proof -
    have "sha1_pattern (replicate 40 (CHR ''4''))" "sha256_pattern (replicate 64 (CHR ''3''))" "authority_suffix_pattern ''grant-1''"
      by code_simp+
    moreover have "sha256_pattern (agenticOsAdmissionRequestDigest intent)" by (simp add: agenticOsAdmissionRequestDigest_def)
    moreover have "pm_requestDigest (sample_admission_permit intent) = agenticOsAdmissionRequestDigest intent"
      by (simp add: sample_admission_permit_def Let_def)
    moreover have "exact_keys (sample_authority intent) AUTHORITY_KEYS"
      by (simp add: exact_keys_def sample_authority_def AUTHORITY_KEYS_def)
    ultimately show ?thesis
      by (simp add: readGraphAuthority_def sample_authority_def expected_of_def max_safe_def)
  qed
  moreover have "exact_keys (sample_admission_receipt intent) RECEIPT_KEYS"
    by (simp add: exact_keys_def sample_admission_receipt_def RECEIPT_KEYS_def)
  moreover have "register_tokens (ai_invocationRegisterEntry sample_inputs) = Some [''/search'', ''#search'', ''@search'', ''search'']"
    by code_simp
  moreover have "isNonemptyString (Some (JStr ''adapter-1''))" "isNonemptyString (Some (JStr ''agent-1''))" "isNonemptyString (Some (JStr ''entry-1''))"
    by code_simp+
  ultimately show ?thesis
    using sample_identity_read(2)
    by (simp add: isAcosAdmissionReceiptBoundToInputs_def sample_admission_receipt_def sample_inputs_def max_safe_def)
qed

lemma length_utf8: "length (utf8 s) \<le> 2 * length s"
  by (induction s) (auto simp: utf8_def utf8_char_def Let_def)

lemma sample_requested: "\<exists>rq. admission_request sample_inputs JNull (sample_admission_permit JNull) sample_admission_secret = Inr (Some rq)"
proof -
  have "validAcosAdmissionAuthSecret sample_admission_secret" by code_simp
  moreover have "length (json_text (JObj [(''agent_definition'', ai_agentDefinition sample_inputs), (''authoring_mutation_intent'', JNull),
       (''tool_allowlist_entry'', ai_toolAllowlistEntry sample_inputs), (''invocation_register_entry'', ai_invocationRegisterEntry sample_inputs),
       (''operator_instruction_ref'', JStr (ai_operatorInstructionRef sample_inputs))])) \<le> 1000" (is "length ?t \<le> _")
    by code_simp
  then have "length (utf8 ?t) \<le> MAXIMUM_AUTH_BODY_BYTES"
    using length_utf8 [of ?t] by (simp only: MAXIMUM_AUTH_BODY_BYTES_def)
  moreover have "pm_requiredWriteTarget (sample_admission_permit JNull) = ''registry''"
    by (simp add: sample_admission_permit_def Let_def header_permit_def)
  ultimately show ?thesis
    by (simp add: admission_request_def admission_headers_made [OF admission_permits_ok(2)] authenticateAcosAdmissionRequest_def acos_sign_def Let_def)
qed

lemma sample_answer_read:
  assumes "storable payload"
  shows "responseMatchesAgenticOsAdmission (rs_headers (sample_answer intent status payload)) (sample_admission_permit intent)"
    "readJsonResponse (rs_headers (sample_answer intent status payload)) (rs_body (sample_answer intent status payload))
       MAXIMUM_ADMISSION_RESPONSE_BYTES = payload"
    "readAcosAdmissionServingIdentity sample_dates (rs_headers (sample_answer intent status payload)) sample_acos_pin \<noteq> None"
proof -
  let ?h = "rs_headers (sample_answer intent status payload)"
  show "responseMatchesAgenticOsAdmission ?h (sample_admission_permit intent)"
    by (simp add: sample_answer_def responseMatchesAgenticOsAdmission_def headers_get_def agenticOsAdmissionHeaders_def)
  have none: "headers_get ?h ''content-length'' = None"
    by (simp add: sample_answer_def headers_get_def agenticOsAdmissionHeaders_def ACOS_ADMISSION_SERVING_IDENTITY_HEADER_def)
  then show "readJsonResponse ?h (rs_body (sample_answer intent status payload)) MAXIMUM_ADMISSION_RESPONSE_BYTES = payload"
    using json_parse_text [OF assms]
    by (simp add: readJsonResponse_def declared_length_ok_def sample_answer_def readBoundedBytes_def read_chunks_iff parse_fatal_def
        MAXIMUM_ADMISSION_RESPONSE_BYTES_def)
  have get: "headers_get ?h ACOS_ADMISSION_SERVING_IDENTITY_HEADER = Some (canonicalJson sample_identity)"
    by (simp add: sample_answer_def headers_get_def agenticOsAdmissionHeaders_def ACOS_ADMISSION_SERVING_IDENTITY_HEADER_def)
  have "canonicalJson sample_identity \<noteq> [] \<and> length (canonicalJson sample_identity) \<le> 1000" by code_simp
  then have small: "canonicalJson sample_identity \<noteq> []" "\<not> MAXIMUM_SERVING_IDENTITY_HEADER_BYTES < length (utf8 (canonicalJson sample_identity))"
    using length_utf8 [of "canonicalJson sample_identity"] by (simp_all only: MAXIMUM_SERVING_IDENTITY_HEADER_BYTES_def) simp_all
  have st: "storable sample_identity" using identity_storable(2) [OF sample_identity_read(1)] .
  have "readAcosDeploymentIdentity sample_dates (Some (canonicalValue sample_identity)) (Some sample_acos_pin) = Some (canonicalValue sample_identity)"
    by (rule identity_canonical) (simp add: sample_identity_read)
  then show "readAcosAdmissionServingIdentity sample_dates ?h sample_acos_pin \<noteq> None"
    using small by (simp add: readAcosAdmissionServingIdentity_def get json_parse_canonicalJson [OF st])
qed

lemma sample_status: "rs_status (sample_answer intent status payload) = status"
  by (simp add: sample_answer_def)

lemma sample_outcomes:
  assumes rq: "admission_request sample_inputs JNull (sample_admission_permit JNull) sample_admission_secret = Inr (Some rq)"
  shows "requestAcosAdmission sample_dates (\<lambda>_. Inr (sample_granted JNull)) sample_inputs JNull (sample_registry_permit JNull) sample_acos_pin
      sample_admission_secret = Admission_granted (sample_admission_receipt JNull)"
    and "\<exists>f. requestAcosAdmission sample_dates (\<lambda>_. Inr (sample_refused JNull)) sample_inputs JNull (sample_registry_permit JNull) sample_acos_pin
      sample_admission_secret = Admission_rejected ''acos_admission_rejected'' 409 (Some f) True"
proof -
  have pin: "validAcosDeploymentPin sample_acos_pin" "ai_operatorInstructionRef sample_inputs = COMMERCE_ADMISSION_OPERATOR_INSTRUCTION_REF"
    by code_simp+
  have "storable (sample_admission_receipt JNull)"
    using bound_receipt_storable [of sample_dates "sample_admission_receipt JNull" sample_inputs]
      bound_weaken [OF sample_bound [of JNull]] by (simp add: bound_receipt_def)
  then have st: "storable (JObj [(''status'', JStr ''registered''), (''record'', sample_admission_receipt JNull), (''finding'', JNull)])"
    by (simp add: storable_JObj)
  have r: "accepts_registration sample_dates (sample_granted JNull)
      (JObj [(''status'', JStr ''registered''), (''record'', sample_admission_receipt JNull), (''finding'', JNull)])
      sample_inputs (sample_admission_permit JNull)"
    using sample_bound [of JNull]
    by (simp add: accepts_registration_def sample_granted_def sample_answer_def exact_keys_def)
  show "requestAcosAdmission sample_dates (\<lambda>_. Inr (sample_granted JNull)) sample_inputs JNull (sample_registry_permit JNull) sample_acos_pin
      sample_admission_secret = Admission_granted (sample_admission_receipt JNull)"
    using sample_answer_read [OF st, of JNull 200] r rq
    by (simp add: requestAcosAdmission_def pin sample_created read_admission_def sample_granted_def isHttpFailure_def rs_ok_def
        sample_status Let_def del: json_text.simps)
  let ?f = "JObj [(''schema'', JStr ACOS_ADMISSION_FINDING_SCHEMA), (''type'', JStr ''unfederated-tool''),
        (''adapter_identity'', JStr ''adapter-1''), (''reason_code'', JStr ''agent_capacity''), (''message'', JStr ''full''),
        (''details'', JObj [])]"
  let ?v = "JObj [(''status'', JStr ''rejected''), (''record'', JNull), (''finding'', ?f)]"
  have "readDurableTerminalRejection ?v \<noteq> None" by code_simp
  then obtain f where terminal: "readDurableTerminalRejection ?v = Some f" by blast
  have st': "storable ?v" by (simp add: storable_JObj)
  have "read_admission sample_dates (sample_refused JNull) sample_inputs (sample_admission_permit JNull) sample_acos_pin
      = Admission_rejected ''acos_admission_rejected'' 409 (Some f) True"
    unfolding read_admission_def sample_refused_def sample_answer_read(2) [OF st'] Let_def sample_status terminal
    using sample_answer_read(1) [OF st', of JNull 409] by (simp add: isHttpFailure_def rs_ok_def sample_status del: json_text.simps)
  then show "\<exists>f. requestAcosAdmission sample_dates (\<lambda>_. Inr (sample_refused JNull)) sample_inputs JNull (sample_registry_permit JNull) sample_acos_pin
      sample_admission_secret = Admission_rejected ''acos_admission_rejected'' 409 (Some f) True"
    using rq by (simp add: requestAcosAdmission_def pin sample_created)
qed

theorem admission_trusted_witness:
  "\<exists>rq r p. (\<lambda>_. Inr (sample_granted JNull)) rq = (Inr r :: thrown + response)
     \<and> verifyAcosAdmissionRequestAuthentication rq ACOS_ADMISSION_PROVIDER_CONTRACT sample_admission_secret
     \<and> readAgenticOsAdmissionPermit (rq_headers rq) = Some p"
proof -
  obtain rq where "admission_request sample_inputs JNull (sample_admission_permit JNull) sample_admission_secret = Inr (Some rq)"
    using sample_requested by blast
  from admission_trusted [OF sample_outcomes(1) [OF this]] show ?thesis by blast
qed

theorem admission_release_safe_witness:
  "\<exists>rq (f :: admission_finding) p. verifyAcosAdmissionRequestAuthentication rq ACOS_ADMISSION_PROVIDER_CONTRACT sample_admission_secret
     \<and> readAgenticOsAdmissionPermit (rq_headers rq) = Some p
     \<and> af_reason_code f \<in> set (UNFEDERATED_TERMINAL_REJECTION_CODES @ UNCATALOGUED_TERMINAL_REJECTION_CODES)"
proof -
  obtain rq where "admission_request sample_inputs JNull (sample_admission_permit JNull) sample_admission_secret = Inr (Some rq)"
    using sample_requested by blast
  from sample_outcomes(2) [OF this] obtain f where
    "requestAcosAdmission sample_dates (\<lambda>_. Inr (sample_refused JNull)) sample_inputs JNull (sample_registry_permit JNull) sample_acos_pin
      sample_admission_secret = Admission_rejected ''acos_admission_rejected'' 409 (Some f) True" by blast
  from admission_release_safe [OF this] show ?thesis unfolding set_append Un_iff by blast
qed

end
