(* ===== verification/Registry_Samples.thy ===== *)
theory Registry_Samples imports Registry_History Acos_Admission_Claims begin

text \<open>
  Sample registrations for the theorems of the agent registry: two of one agent that differ in their
  invocation proof, the permits that admit them, and the histories that they make.
\<close>

section \<open>Data\<close>

definition sample_proof :: "char \<Rightarrow> invocation_proof" where
  "sample_proof c = \<lparr>ip_sourceRevision = replicate 40 (CHR ''1''), ip_catalogDigest = replicate 64 c,
     ip_routingSchema = ''commerce/routing-v1'', ip_routingDigest = replicate 64 (CHR ''5''),
     ip_commands = Integer 1, ip_semantics = Integer 1, ip_bindings = Integer 1,
     ip_requiredTokens = [''/search'', ''#search'', ''@search'']\<rparr>"

definition sample_dry_run :: json where
  "sample_dry_run = JObj [(''instanceId'', JStr ''registration-1''), (''purpose'', JStr ''registration-dry-run''),
     (''startedAt'', JStr ''2026-09-03T00:00:00.000Z''), (''endedAt'', JStr ''2026-09-03T00:00:00.000Z''),
     (''outcome'', JStr ''completed''), (''exceededLimit'', JNull), (''configuredValue'', JNull), (''attemptedCalls'', JArr [])]"

definition sample_commerce :: commerce_projection where
  "sample_commerce = \<lparr>cp_category = ''coffee'', cp_discoveryTool = ''search'',
     cp_declaredAttributes = \<lparr>da_priceMinor = Integer 100, da_qualityScore = Integer 9, da_latencyMs = Integer 10\<rparr>,
     cp_fallbackAgentId = None\<rparr>"

definition sample_registration :: "char \<Rightarrow> registration_intent" where
  "sample_registration c = \<lparr>in_admissionInputs = sample_inputs, in_invocationProof = sample_proof c,
     in_commerceProjection = projection_json sample_commerce, in_expectedPreviousContentHash = None, in_sandboxDryRun = sample_dry_run\<rparr>"

abbreviation sample_receipt :: json where
  "sample_receipt \<equiv> sample_admission_receipt JNull"

definition registry_permit :: "int \<Rightarrow> registration_intent \<Rightarrow> mutation_permit" where
  "registry_permit n i = (let d = authoringMutationRequestDigest AGENT_REGISTRY_CLAIM (agentRegistrationMutationIntent i)
     in (header_permit ''registry'')\<lparr>pm_mutationId := mutation_id 1 n d, pm_operationId := ''operation:'' @ d,
          pm_requestDigest := d, pm_mutationSequence := n\<rparr>)"

definition sample_hex :: "char \<Rightarrow> bool" where
  "sample_hex c = (c \<in> set ''ab'')"

lemma sample_agent_id [simp]: "text_of sample_receipt ''agent_definition_id'' = ''agent-1''"
  by (simp add: sample_admission_receipt_def text_of_def)

lemma sample_parts:
  assumes "sample_hex c"
  shows "validInvocationProof (sample_proof c)" "isRegistrationDryRunRecord sample_dates sample_dry_run"
    "readCommerceProjection (projection_json sample_commerce) sample_inputs = Some sample_commerce"
    "bound_receipt sample_dates sample_receipt sample_inputs" "storable_inputs sample_inputs" "storable sample_dry_run"
proof -
  show "validInvocationProof (sample_proof c)" using assms unfolding sample_hex_def by (auto; code_simp)
  show "isRegistrationDryRunRecord sample_dates sample_dry_run" by code_simp
  show "readCommerceProjection (projection_json sample_commerce) sample_inputs = Some sample_commerce" by code_simp
  show "bound_receipt sample_dates sample_receipt sample_inputs"
    unfolding bound_receipt_def by (rule bound_weaken [OF sample_bound])
  show "storable_inputs sample_inputs" by (simp add: storable_inputs_def sample_inputs_def storable_JObj storable_JArr)
  show "storable sample_dry_run" by (simp add: sample_dry_run_def storable_JObj)
qed

lemma sample_storable:
  assumes "sample_hex c"
  shows "storable_registration sample_dates (sample_registration c) sample_receipt sample_commerce"
proof -
  have "ai_operatorInstructionRef sample_inputs = COMMERCE_ADMISSION_OPERATOR_INSTRUCTION_REF" by code_simp
  then show ?thesis
    using sample_parts [OF assms]
    by (simp add: storable_registration_def checkRegistration_def validRegistrationIntent_def sample_registration_def bound_receipt_def)
qed

section \<open>Permits\<close>

lemma registry_permit_ok:
  assumes "n \<in> {2, 3}"
  shows "permit_ok (registry_permit n i)"
proof -
  have ok: "permit_ok (header_permit ''registry'')" by code_simp
  have a: "sha256_pattern (replicate 64 (CHR ''a''))" by code_simp
  have "authoring_id (mutation_id 1 2 (replicate 64 (CHR ''a''))) \<and> authoring_id (mutation_id 1 3 (replicate 64 (CHR ''a'')))" by code_simp
  then have id: "authoring_id (mutation_id 1 n (replicate 64 (CHR ''a'')))" using assms by auto
  have "permit_ok ((header_permit ''registry'')\<lparr>pm_mutationId := mutation_id 1 n d, pm_operationId := ''operation:'' @ d,
      pm_requestDigest := d, pm_mutationSequence := n\<rparr>)" if d: "sha256_pattern d" for d
    using ok d operation_id_ok [OF d] mutation_id_other_digest [OF id a d] assms
    by (auto simp: permit_ok_def header_permit_def max_safe_def)
  then show ?thesis by (simp add: registry_permit_def Let_def authoringMutationRequestDigest_def)
qed

text \<open>A registration under a permit that is fresh for the fence.\<close>

lemma commit_fresh:
  assumes "n \<in> {2, 3}" "readOutcome (pm_mutationId (registry_permit n i)) s = None"
    and "\<And>f. readFence ''operator-registry'' s = Some f \<Longrightarrow> \<not> isStale (registry_permit n i) f"
    and "registration_mutation i receipt projection existing updatedAt createdAt (fn_data s) = Inr (reply, d)"
  shows "commitRegistration i receipt projection existing (permit_json (registry_permit n i)) updatedAt createdAt 10 s
    = (Inr (Reply reply), record_mutation (registry_permit n i) reply d s)"
proof -
  have p: "pm_semanticScope (registry_permit n i) = ''operator-registry''" "pm_requiredWriteTarget (registry_permit n i) = ''registry''"
    "pm_leaseExpiresAtMs (registry_permit n i) = 1000"
    "pm_requestDigest (registry_permit n i) = authoringMutationRequestDigest AGENT_REGISTRY_CLAIM (agentRegistrationMutationIntent i)"
    by (simp_all add: registry_permit_def Let_def header_permit_def)
  have "fenced_transaction (registry_permit n i) (authoringMutationRequestDigest AGENT_REGISTRY_CLAIM (agentRegistrationMutationIntent i))
      (registration_mutation i receipt projection existing updatedAt createdAt) 10 s
      = (Inr (Admitted reply), record_mutation (registry_permit n i) reply d s)"
    using assms(2,3,4) by (simp add: fenced_transaction_def p max_safe_def split: option.split)
  then show ?thesis
    using registry_permit_ok [OF assms(1)]
    by (simp add: commitRegistration_def runAuthoringFencedMutation_def read_permit_json p AGENT_REGISTRY_CLAIM_def)
qed

section \<open>Histories\<close>

abbreviation sample_hash :: "char \<Rightarrow> string" where
  "sample_hash c \<equiv> content_hash (sample_registration c) sample_receipt sample_commerce"

abbreviation sample_row :: "char \<Rightarrow> stored_agent" where
  "sample_row c \<equiv> registered_row (sample_registration c) sample_receipt sample_commerce ''t''"

abbreviation sample_reply :: "char \<Rightarrow> json" where
  "sample_reply c \<equiv> registrationResult (registered_record (sample_registration c) sample_receipt sample_commerce ''t'') False"

definition sample_registered :: "char \<Rightarrow> registry \<Rightarrow> registry" where
  "sample_registered c d = appendRegistryEvent ''registered'' ''agent-1'' (sample_hash c) ''t''
     (d\<lparr>rr_agents := upsert ar_agent_id (sample_row c) (rr_agents d)\<rparr>)"

definition sample_call :: "char \<Rightarrow> pending" where
  "sample_call c = Registering (sample_registration c) sample_receipt sample_commerce None ''t''"

definition sample_first :: registry_object where
  "sample_first = record_mutation (registry_permit 2 (sample_registration (CHR ''a''))) (sample_reply (CHR ''a''))
     (sample_registered (CHR ''a'') (fn_data empty_registry)) empty_registry"

definition sample_both :: registry_object where
  "sample_both = record_mutation (registry_permit 3 (sample_registration (CHR ''b''))) (sample_reply (CHR ''b''))
     (sample_registered (CHR ''b'') (fn_data sample_first)) sample_first"

lemma sample_mutation:
  "registration_mutation (sample_registration c) sample_receipt sample_commerce None ''t'' ''t'' d = Inr (sample_reply c, sample_registered c d)"
  by (simp add: registration_mutation_def Let_def sample_registered_def) (simp add: sample_registration_def)

lemma sample_first_call:
  "commitRegistration (sample_registration (CHR ''a'')) sample_receipt sample_commerce None
     (permit_json (registry_permit 2 (sample_registration (CHR ''a'')))) ''t'' ''t'' 10 empty_registry
   = (Inr (Reply (sample_reply (CHR ''a''))), sample_first)"
  unfolding sample_first_def
  by (rule commit_fresh) (simp_all add: readOutcome_def readFence_def empty_registry_def select_key_def sample_mutation)

lemma sample_fresh:
  "readOutcome (pm_mutationId (registry_permit 3 i)) sample_first = None"
  "readFence ''operator-registry'' sample_first = Some f \<Longrightarrow> \<not> isStale (registry_permit 3 i) f"
proof -
  have "int_text 2 = ''2'' \<and> int_text 3 = ''3''" by code_simp
  then have "mutation_id 1 2 x \<noteq> mutation_id 1 3 y" for x y by (simp add: mutation_id_def)
  then show "readOutcome (pm_mutationId (registry_permit 3 i)) sample_first = None"
    by (simp add: sample_first_def record_mutation_def empty_registry_def readOutcome_def select_key_def outcome_of_def registry_permit_def Let_def)
  show "\<not> isStale (registry_permit 3 i) f" if "readFence ''operator-registry'' sample_first = Some f"
    using that by (auto simp: sample_first_def record_mutation_def empty_registry_def readFence_def select_key_def upsert_def has_key_def
        fence_of_def registry_permit_def Let_def header_permit_def isStale_def split: if_splits)
qed

lemma sample_second_call:
  "commitRegistration (sample_registration (CHR ''b'')) sample_receipt sample_commerce None
     (permit_json (registry_permit 3 (sample_registration (CHR ''b'')))) ''t'' ''t'' 10 sample_first
   = (Inr (Reply (sample_reply (CHR ''b''))), sample_both)"
  unfolding sample_both_def
  by (rule commit_fresh) (simp_all add: sample_fresh sample_mutation)

definition sample_world :: registry_world where
  "sample_world = \<lparr>rw_store = sample_first, rw_pending = [sample_call (CHR ''b'')]\<rparr>"

lemma sample_reachable: "registry_reachable sample_dates sample_world"
proof -
  have empty: "readStored sample_dates k (fn_data empty_registry) = None" for k
    by (simp add: readStored_def empty_registry_def select_key_def)
  let ?w1 = "\<lparr>rw_store = empty_registry, rw_pending = [sample_call (CHR ''b'')]\<rparr>"
  let ?w2 = "\<lparr>rw_store = empty_registry, rw_pending = [sample_call (CHR ''a''), sample_call (CHR ''b'')]\<rparr>"
  have hex: "sample_hex (CHR ''a'')" "sample_hex (CHR ''b'')" by (simp_all add: sample_hex_def)
  have "registry_step sample_dates initial_world ?w1"
    using begin_registration [OF sample_storable [OF hex(2)], of initial_world "''t''"]
    by (simp add: empty initial_world_def sample_call_def)
  moreover have "registry_step sample_dates ?w1 ?w2"
    using begin_registration [OF sample_storable [OF hex(1)], of ?w1 "''t''"] by (simp add: empty sample_call_def)
  moreover have "registry_step sample_dates ?w2 sample_world"
    using advanced [of "sample_call (CHR ''a'')" ?w2 "permit_json (registry_permit 2 (sample_registration (CHR ''a'')))" "''t''" 10
        "Inr (Inr (Reply (sample_reply (CHR ''a''))))" sample_first sample_dates]
    by (simp add: sample_first_call sample_world_def sample_call_def)
  ultimately show ?thesis
    unfolding registry_reachable_def by (meson steps_refl steps_step)
qed

text \<open>What the first registration stored, and what a router sees of it.\<close>

lemma sample_rows: "rr_agents (fn_data sample_first) = [sample_row (CHR ''a'')]" "rr_routes (fn_data sample_first) = []"
  "rr_agents (fn_data sample_both) = [sample_row (CHR ''b'')]"
  by (simp_all add: sample_both_def sample_first_def record_mutation_def sample_registered_def empty_registry_def upsert_def has_key_def)

definition sample_record :: registry_record where
  "sample_record = verifyStoredAgent sample_dates (stored_registration (sample_registration (CHR ''a'')) sample_receipt sample_commerce ''t'')"

lemma sample_stored:
  "readStored sample_dates ''agent-1'' (fn_data sample_first) = Some sample_record" "allStored sample_dates (fn_data sample_first) = [sample_record]"
  "rg_admissionVerified sample_record" "rg_contentHash sample_record = sample_hash (CHR ''a'')" "rg_registrationState sample_record = Registered_active"
  "rg_agentId sample_record = ''agent-1''" "rg_invocationProof sample_record = sample_proof (CHR ''a'')"
proof -
  have st: "storable_registration sample_dates (sample_registration (CHR ''a'')) sample_receipt sample_commerce"
    by (rule sample_storable) (simp add: sample_hex_def)
  note read = read_registered_row [OF st, of "''t''"]
  show "readStored sample_dates ''agent-1'' (fn_data sample_first) = Some sample_record"
    by (simp add: readStored_eq sample_rows select_key_def read sample_record_def)
  show "allStored sample_dates (fn_data sample_first) = [sample_record]"
    by (simp add: allStored_def sample_rows read sample_record_def)
  show "rg_admissionVerified sample_record" using registration_verified [OF st] by (simp add: sample_record_def)
  show "rg_contentHash sample_record = sample_hash (CHR ''a'')" "rg_registrationState sample_record = Registered_active"
    "rg_agentId sample_record = ''agent-1''" "rg_invocationProof sample_record = sample_proof (CHR ''a'')"
    by (simp_all add: sample_record_def) (simp_all add: stored_registration_def sample_registration_def)
qed

end
