(* ===== verification/Catalog_Claims.thy ===== *)
theory Catalog_Claims imports Public_Catalog Registry_Samples begin

text \<open>
  What the public catalog promises: an artifact holds the allowed fields and nothing else, is accepted
  exactly in its window, and shows the active agents of the registry that exported it.
\<close>

section \<open>The registry's list\<close>

text \<open>What \<open>AgentRegistry.list\<close> answers.\<close>

definition list_reply :: "date_parser \<Rightarrow> registry_object \<Rightarrow> json" where
  "list_reply date_parse s = (case registry_list date_parse s of (revision, digest, agents) \<Rightarrow>
     JObj [(''ok'', JBool True), (''revision'', JNum (Integer (int revision))), (''digest'', JStr digest),
       (''agents'', JArr (map record_json agents))])"

lemma list_reply_fields [simp]:
  "field (list_reply date_parse s) ''revision'' = Some (JNum (Integer (int (eventRevision (fn_data s)))))"
  "field (list_reply date_parse s) ''digest'' = Some (JStr (sha256Hex (canonicalJson (list_json date_parse (fn_data s)))))"
  "field (list_reply date_parse s) ''agents'' = Some (JArr (map record_json (allStored date_parse (fn_data s))))"
  "isRecord (list_reply date_parse s)"
  by (simp_all add: list_reply_def registry_list_def)

lemma record_json_fields [simp]:
  "field (record_json r) ''agentId'' = Some (JStr (rg_agentId r))" "field (record_json r) ''category'' = Some (JStr (rg_category r))"
  "field (record_json r) ''registrationState'' = Some (JStr (state_text (rg_registrationState r)))"
  "field (record_json r) ''admissionInputs'' = Some (inputs_json (rg_admissionInputs r))" "isRecord (record_json r)"
  by (simp_all add: record_json_def)

lemma state_text_active [simp]: "state_text s = ''active'' \<longleftrightarrow> s = Registered_active" "state_text s \<in> {''active'', ''inactive''}"
  by (cases s; simp)+

lemma snapshot_source_record [simp]: "snapshot_source (record_json r) = source_of r"
  by (simp add: snapshot_source_def source_of_def text_of_def) (simp add: inputs_json_def)

section \<open>What the catalog shows\<close>

definition publicAgents :: "date_parser \<Rightarrow> registry_object \<Rightarrow> public_catalog" where
  "publicAgents date_parse s = (case registry_list date_parse s of (revision, digest, agents) \<Rightarrow>
     projectPublicCatalog (int revision) digest (map source_of agents))"

lemma sorted_ids:
  assumes "distinct (map pe_agentId es)"
  shows "sorted_wrt (\<lambda>l r. compareText l r < 0) (map pe_agentId (sort_by (\<lambda>l r. compareText (pe_agentId l) (pe_agentId r) \<le> 0) es))"
proof -
  let ?s = "sort_by (\<lambda>l r. compareText (pe_agentId l) (pe_agentId r) \<le> 0) es"
  have "sorted_wrt (\<lambda>l r. compareText (pe_agentId l) (pe_agentId r) \<le> 0) ?s"
    by (rule sorted_comparator [OF comparator_text])
  moreover have "distinct (map pe_agentId ?s)" using assms by (simp add: distinct_sort_by)
  ultimately show ?thesis
    by (auto simp: sorted_wrt_iff_nth_less compareText_le compareText_neg distinct_conv_nth)
qed

lemma catalog_entries: "set (pc_agents (publicAgents date_parse s))
    = (\<lambda>r. public_entry_of (source_of r)) ` {r \<in> set (allStored date_parse (fn_data s)). rg_registrationState r = Registered_active}"
  by (auto simp: publicAgents_def registry_list_def projectPublicCatalog_def source_of_def)

lemma day_artifact_parts [simp]: "ct_catalog (day_artifact r t c) = c" "ct_generatedAt (day_artifact r t c) = t"
  "ct_expiresAt (day_artifact r t c) = t + CATALOG_MAX_AGE_MS" "ct_sourceRevision (day_artifact r t c) = r"
  by (simp_all add: day_artifact_def Let_def)

lemma snapshot_record_ok: "snapshot_agent_ok (record_json r) \<longleftrightarrow>
    rg_agentId r \<noteq> [] \<and> length (rg_agentId r) \<le> 256 \<and> rg_category r \<noteq> [] \<and> length (rg_category r) \<le> 64"
proof -
  have "isRecord (inputs_json i)" for i by (simp add: inputs_json_def)
  then show ?thesis
    using state_text_active(2) [of "rg_registrationState r"] by (auto simp: snapshot_agent_ok_def boundedText_def coerced_def)
qed

lemma export_iff:
  "createPublicCatalogArtifact (list_reply date_parse s) sourceRevision generatedAt = Inr a \<longleftrightarrow>
     length (allStored date_parse (fn_data s)) \<le> 100 \<and> list_all (snapshot_agent_ok \<circ> record_json) (allStored date_parse (fn_data s))
     \<and> distinct (map rg_agentId (allStored date_parse (fn_data s)))
     \<and> artifact_ok a \<and> a = day_artifact sourceRevision generatedAt (publicAgents date_parse s)"
proof -
  let ?agents = "allStored date_parse (fn_data s)"
  have made: "projectPublicCatalog (int_of (list_reply date_parse s) ''revision'') (text_of (list_reply date_parse s) ''digest'')
      (map snapshot_source (map record_json ?agents)) = publicAgents date_parse s"
    by (simp add: publicAgents_def registry_list_def int_of_def text_of_def comp_def)
  have digest: "sha256Hex (canonicalJson (JObj [(''revision'', JNum (Integer (int (eventRevision (fn_data s))))), (''agents'', JArr (map record_json ?agents))]))
      = text_of (list_reply date_parse s) ''digest''"
    by (simp add: list_json_def text_of_def)
  have ids: "map cs_agentId (map snapshot_source (map record_json ?agents)) = map rg_agentId ?agents"
    by (simp add: comp_def source_of_def)
  have sound: "is_num (Some (JNum (Integer (int (eventRevision (fn_data s)))))) (safe_ge 0)
      \<and> isNonzeroHexIdentity (field (list_reply date_parse s) ''digest'') 64"
    if "artifact_ok (day_artifact sourceRevision generatedAt (publicAgents date_parse s))"
    using that by (simp add: artifact_ok_def catalog_ok_def publicAgents_def registry_list_def projectPublicCatalog_def max_safe_def)
  have now: "generatedAt < generatedAt + CATALOG_MAX_AGE_MS" by (simp add: CATALOG_MAX_AGE_MS_def)
  show ?thesis
    using sound now by (auto simp: createPublicCatalogArtifact_def made digest ids read_artifact_json list_all_iff
        simp del: list_reply_fields(2) map_map)
qed


section \<open>Registered agents have a row\<close>

definition events_known :: "registry \<Rightarrow> bool" where
  "events_known d = list_all (\<lambda>e. re_event_type e = ''registered'' \<longrightarrow> re_agent_id e \<in> ar_agent_id ` set (rr_agents d)) (rr_events d)"

lemma advance_known:
  assumes "advance p permit createdAt nowMs s = (outcome, s')" "events_known (fn_data s)"
  shows "events_known (fn_data s')"
  using assms(1)
proof (cases rule: advance_data)
  case (registered i receipt projection existing updatedAt)
  let ?row = "registered_row i receipt projection updatedAt"
  have "ar_agent_id ` set (upsert ar_agent_id ?row (rr_agents (fn_data s))) = insert (ar_agent_id ?row) (ar_agent_id ` set (rr_agents (fn_data s)))"
    by (auto simp: set_upsert_eq)
  then show ?thesis
    using assms(2) unfolding registered(2) by (auto simp: events_known_def appendRegistryEvent_def list_all_iff)
next
  case (deregistered agentId h updatedAt)
  have "ar_agent_id ` set (map (\<lambda>row. if ar_agent_id row = agentId then deactivated updatedAt row else row) t) = ar_agent_id ` set t" for t
  proof -
    have "map ar_agent_id (map (\<lambda>row. if ar_agent_id row = agentId then deactivated updatedAt row else row) t) = map ar_agent_id t" by simp
    then show ?thesis by (metis set_map)
  qed
  then show ?thesis
    using assms(2) unfolding deregistered by (simp add: events_known_def appendRegistryEvent_def list_all_iff del: set_map)
next
  case (recorded intent authority decision)
  from recorded(2) show ?thesis by (rule record_cases) (use assms(2) in \<open>simp add: events_known_def\<close>)
qed (use assms(2) in simp)

lemma reachable_known:
  assumes "registry_reachable date_parse w"
  shows "events_known (fn_data (rw_store w))"
proof -
  have step: "registry_step date_parse w w' \<Longrightarrow> events_known (fn_data (rw_store w)) \<Longrightarrow> events_known (fn_data (rw_store w'))" for w w'
    by (erule registry_step.cases) (use advance_known in auto)
  have "registry_steps date_parse w0 w \<Longrightarrow> w0 = initial_world \<Longrightarrow> events_known (fn_data (rw_store w))" for w0
  proof (induction rule: registry_steps.induct)
    case (steps_refl w)
    then show ?case by (simp add: initial_world_def empty_registry_def events_known_def)
  next
    case (steps_step w w' w'')
    then show ?case using step by blast
  qed
  with assms show ?thesis by (simp add: registry_reachable_def)
qed

text \<open>The active records are those whose last event is a registration.\<close>

lemma active_ids:
  assumes "registry_reachable date_parse w"
  shows "rg_agentId ` {r \<in> set (allStored date_parse (fn_data (rw_store w))). rg_registrationState r = Registered_active}
    = {k. \<exists>h. latest_event k (rr_events (fn_data (rw_store w))) = Some (''registered'', h)}" (is "?ids = ?events")
proof -
  let ?d = "fn_data (rw_store w)"
  have rows: "row \<in> set (rr_agents ?d) \<Longrightarrow> row_ok date_parse (rr_events ?d) row" for row
    using reachable_ok [OF assms] by (simp add: registry_ok_def)
  show ?thesis
  proof (intro equalityI subsetI)
    fix k assume "k \<in> ?ids"
    then obtain row where "row \<in> set (rr_agents ?d)" "ar_agent_id row = k" "ar_registration_state row = Registered_active"
      by (auto simp: stored_member)
    then show "k \<in> ?events" using rows [of row] by (auto simp: row_ok_def)
  next
    fix k assume "k \<in> ?events"
    then obtain h e where e: "latest_event k (rr_events ?d) = Some (''registered'', h)" "e \<in> set (rr_events ?d)" "re_agent_id e = k" "re_event_type e = ''registered''"
      by (auto simp: latest_event_def find_Some_iff) (metis nth_mem set_rev length_rev)
    with reachable_known [OF assms] obtain row where row: "row \<in> set (rr_agents ?d)" "ar_agent_id row = k"
      by (auto simp: events_known_def list_all_iff)
    then have "ar_registration_state row = Registered_active"
      using rows [OF row(1)] e(1) by (cases "ar_registration_state row") (auto simp: row_ok_def)
    with row show "k \<in> ?ids" by (force simp: stored_member image_iff)
  qed
qed

lemma capabilities_of:
  assumes "isRecord v" "field v ''tool_names'' = Some (JArr names)"
  shows "set (readCapabilities (Some v)) = {s. JStr s \<in> set names}"
proof -
  have "as_str (Some v) = Some s \<longleftrightarrow> v = JStr s" for v s by (cases v) simp_all
  then show ?thesis using assms by (force simp: readCapabilities_def map_filter_def image_iff)
qed

text \<open>What an entry shows of the record behind it.\<close>

lemma entry_shows:
  assumes "registry_reachable date_parse w" "e \<in> set (pc_agents (publicAgents date_parse (rw_store w)))"
  shows "\<exists>r names. readStored date_parse (pe_agentId e) (fn_data (rw_store w)) = Some r \<and> rg_admissionVerified r
    \<and> pe_declaredCategory e = rg_category r
    \<and> field (ai_toolAllowlistEntry (rg_admissionInputs r)) ''tool_names'' = Some (JArr names)
    \<and> set (pe_declaredCapabilities e) = {s. JStr s \<in> set names}"
proof -
  let ?d = "fn_data (rw_store w)"
  note ok = reachable_ok [OF assms(1), unfolded registry_ok_def]
  obtain row where row: "row \<in> set (rr_agents ?d)"
    and e: "e = public_entry_of (source_of (verifyStoredAgent date_parse (readStoredAgent date_parse row)))"
    using assms(2) unfolding catalog_entries by (auto simp: stored_member)
  let ?r = "verifyStoredAgent date_parse (readStoredAgent date_parse row)"
  have verified: "admission_verified date_parse (readStoredAgent date_parse row)" using ok row by (auto simp: row_ok_def)
  then obtain c where c: "readCommerceProjection (projection_json (rg_commerceProjection ?r)) (rg_admissionInputs ?r) = Some c"
    by (auto simp: admission_verified_def)
  obtain names where names: "isRecord (ai_toolAllowlistEntry (rg_admissionInputs ?r))"
      "field (ai_toolAllowlistEntry (rg_admissionInputs ?r)) ''tool_names'' = Some (JArr names)"
    using projection_fields(6) [OF c] by blast
  have "select_key ar_agent_id (ar_agent_id row) (rr_agents ?d) = Some row"
    using ok row select_key_unique [of ar_agent_id "rr_agents ?d" row] by auto
  then have "readStored date_parse (pe_agentId e) ?d = Some ?r"
    by (simp add: readStored_eq e public_entry_of_def source_of_def)
  then show ?thesis
    using verified names capabilities_of [OF names] by (intro exI [of _ ?r] exI [of _ names]) (simp add: e public_entry_of_def source_of_def)
qed

section \<open>Claims\<close>

text \<open>
  C30. Nothing but the allowed fields gets into the public service: an artifact is accepted exactly when it
  is, up to the order of its object entries, the record that is returned for it, of at most a hundred distinct
  agents in order with four bounded fields each, its own digest covers all of it, and it is read in its
  window of at most a day.
\<close>

theorem catalog_artifact_exact:
  "readPublicCatalogArtifact raw now = Inr a \<longleftrightarrow>
     storable raw \<and> canonicalJson raw = canonicalJson (artifact_json a) \<and> artifact_ok a
     \<and> ct_generatedAt a \<le> now \<and> now < ct_expiresAt a"
proof
  assume "readPublicCatalogArtifact raw now = Inr a"
  note read_artifact_exact [OF this]
  then show "storable raw \<and> canonicalJson raw = canonicalJson (artifact_json a) \<and> artifact_ok a \<and> ct_generatedAt a \<le> now \<and> now < ct_expiresAt a"
    by (simp add: canonicalJson_def)
next
  assume "storable raw \<and> canonicalJson raw = canonicalJson (artifact_json a) \<and> artifact_ok a \<and> ct_generatedAt a \<le> now \<and> now < ct_expiresAt a"
  moreover from this have "canonicalValue raw = canonicalValue (artifact_json a)"
    by (intro canonicalJson_eq) simp_all
  ultimately show "readPublicCatalogArtifact raw now = Inr a" by (intro artifact_reordered) simp_all
qed

text \<open>
  C31. The public catalog shows the registry as it is: it has one entry, in order, for each agent whose last
  event is a registration and none for another, with the category and exactly the tools that were admitted
  for it; and what is exported from the registry's list is this catalog, for a day.
\<close>

theorem public_catalog_faithful:
  assumes "registry_reachable date_parse w"
  shows "set (map pe_agentId (pc_agents (publicAgents date_parse (rw_store w))))
      = {k. \<exists>h. latest_event k (rr_events (fn_data (rw_store w))) = Some (''registered'', h)}
    \<and> sorted_wrt (\<lambda>l r. compareText l r < 0) (map pe_agentId (pc_agents (publicAgents date_parse (rw_store w))))
    \<and> (\<forall>e \<in> set (pc_agents (publicAgents date_parse (rw_store w))). \<exists>r names.
         readStored date_parse (pe_agentId e) (fn_data (rw_store w)) = Some r \<and> rg_admissionVerified r
         \<and> pe_declaredCategory e = rg_category r
         \<and> field (ai_toolAllowlistEntry (rg_admissionInputs r)) ''tool_names'' = Some (JArr names)
         \<and> set (pe_declaredCapabilities e) = {s. JStr s \<in> set names})
    \<and> (createPublicCatalogArtifact (list_reply date_parse (rw_store w)) sourceRevision generatedAt = Inr a \<longleftrightarrow>
         length (allStored date_parse (fn_data (rw_store w))) \<le> 100
         \<and> list_all (snapshot_agent_ok \<circ> record_json) (allStored date_parse (fn_data (rw_store w)))
         \<and> artifact_ok a \<and> a = day_artifact sourceRevision generatedAt (publicAgents date_parse (rw_store w)))"
proof -
  let ?s = "rw_store w"
  have distinct_ids: "distinct (map rg_agentId (allStored date_parse (fn_data ?s)))"
    using reachable_ok [OF assms] by (simp add: registry_ok_def stored_ids distinct_sort_by)
  have "set (map pe_agentId (pc_agents (publicAgents date_parse ?s)))
      = rg_agentId ` {r \<in> set (allStored date_parse (fn_data ?s)). rg_registrationState r = Registered_active}"
    by (simp only: set_map catalog_entries image_image) (simp add: public_entry_of_def source_of_def)
  moreover have "distinct (map pe_agentId (map public_entry_of (filter cs_active (map source_of (allStored date_parse (fn_data ?s))))))"
    using distinct_ids by (simp add: public_entry_of_def filter_map comp_def source_of_def distinct_map_filter)
  then have "sorted_wrt (\<lambda>l r. compareText l r < 0) (map pe_agentId (pc_agents (publicAgents date_parse ?s)))"
    by (simp only: publicAgents_def registry_list_def prod.case projectPublicCatalog_def public_catalog.simps sorted_ids)
  ultimately show ?thesis
    using active_ids [OF assms] entry_shows [OF assms] export_iff distinct_ids by auto
qed

theorem public_catalog_faithful_witness:
  "set (map pe_agentId (pc_agents (publicAgents sample_dates sample_first))) = {''agent-1''}"
proof -
  have "{k. \<exists>h. latest_event k (rr_events (fn_data sample_first)) = Some (''registered'', h)} = {''agent-1''}"
    by (auto simp: latest_event_def sample_first_def record_mutation_def sample_registered_def appendRegistryEvent_def empty_registry_def)
  with public_catalog_faithful [OF sample_reachable] show ?thesis by (simp add: sample_world_def del: set_map)
qed

text \<open>An agent may have five hundred tools, and one with more than a hundred makes every export fail.\<close>

lemma many_tools_block:
  assumes "r \<in> set (allStored date_parse (fn_data s))" "rg_registrationState r = Registered_active"
    and "100 < length (readCapabilities (Some (ai_toolAllowlistEntry (rg_admissionInputs r))))"
  shows "createPublicCatalogArtifact (list_reply date_parse s) sourceRevision generatedAt \<noteq> Inr a"
proof
  assume "createPublicCatalogArtifact (list_reply date_parse s) sourceRevision generatedAt = Inr a"
  then have "list_all entry_ok (pc_agents (publicAgents date_parse s))"
    unfolding export_iff by (auto simp: artifact_ok_def catalog_ok_def)
  then have "entry_ok (public_entry_of (source_of r))" using assms(1,2) by (auto simp: list_all_iff catalog_entries)
  then show False using assms(3) by (simp add: entry_ok_def public_entry_of_def source_of_def)
qed

end
