(* ===== verification/Registration_Action.thy ===== *)
theory Registration_Action imports Registry_History Authoring_Operator begin

text \<open>
  \<open>registerAgent\<close> of \<open>src/src/core/core-actions.ts\<close> and \<open>src/src/core/registration-reconciliation.ts\<close>: how an
  operator's registration goes through the sandbox, the coordinator, the agent runtime and the registry. Every
  call to a durable object may be lost or lose its answer; a call whose failure nobody catches ends the
  handler. The resolution of the pinned invocations is an argument: the proof it gave, or none when it threw.
\<close>

section \<open>State and environment\<close>

record core_state =
  co_authoring :: authoring
  co_registry :: registry_object
  co_admissions :: "(mutation_permit \<times> json) list" \<comment> \<open>the calls of \<open>requestAcosAdmission\<close>, last one first\<close>

record core_env =
  ce_dates :: date_parser
  ce_sandbox :: "(request \<Rightarrow> thrown + response) option"
  ce_sourceRevision :: "json option"
  ce_candidateDigest :: "json option"
  ce_runtime :: admission_provider
  ce_secret :: string
  ce_proof :: "invocation_proof option"

text \<open>What happens to the calls of one run, with the readings of the clock.\<close>

record core_fates =
  cf_admit :: "delivery \<times> int"
  cf_reserve :: "delivery \<times> int"
  cf_preflight :: delivery
  cf_register :: delivery
  cf_updatedAt :: string
  cf_createdAt :: string
  cf_registered :: int
  cf_finish :: "delivery \<times> int"
  cf_preserve :: "delivery \<times> int"

datatype reconciliation_phase = Commit_rejected | Commit_unconfirmed | Completion_unconfirmed

datatype registration_answer =
    Threw
  | Body_refused json
  | Rejected_action string nat \<comment> \<open>\<open>reject(code)\<close> and its status\<close>
  | Operator_refused operator_response
  | Dry_run_refused dry_run_code string nat
  | Preflight_refused json
  | Admission_refused admission_result nat
  | Reconciliation reconciliation_phase "preserve_result option"
  | Registered json

section \<open>Calls to the coordinator\<close>

definition admit_called :: "delivery \<times> int \<Rightarrow> headers \<Rightarrow> claim_binding \<Rightarrow> authoring \<Rightarrow> operator_response option option" where
  "admit_called fate h expected s =
     (case readOperatorClaimRequest h expected of
        Inr _ \<Rightarrow> if fst fate = Answered then Some (admitOperatorMutation h expected (snd fate) s) else None
      | Inl _ \<Rightarrow> Some (admitOperatorMutation h expected (snd fate) s))"

text \<open>None when the call throws.\<close>

definition reserve_called ::
  "delivery \<times> int \<Rightarrow> headers \<Rightarrow> claim_binding \<Rightarrow> json \<Rightarrow> authoring \<Rightarrow> (operator_response + mutation_permit) option \<times> authoring" where
  "reserve_called fate h expected operation s =
     (let (result, s') = reserveOperatorMutation h expected operation (snd fate) s;
          answer = (case result of Inl e \<Rightarrow> None | Inr r \<Rightarrow> Some r)
      in case readOperatorClaimRequest h expected of
           Inl _ \<Rightarrow> (answer, s')
         | Inr _ \<Rightarrow> (case fst fate of Undelivered \<Rightarrow> (None, s) | Answer_lost \<Rightarrow> (None, s') | Answered \<Rightarrow> (answer, s')))"

definition finish_reservation :: "core_fates \<Rightarrow> mutation_permit \<Rightarrow> core_state \<Rightarrow> bool \<times> core_state" where
  "finish_reservation fates permit s =
     (let (done', _, a) = finish (fst (cf_finish fates)) (snd (cf_finish fates))
            (\<lparr>om_permit = permit, om_finished = False\<rparr>, co_authoring s)
      in (done', s\<lparr>co_authoring := a\<rparr>))"

section \<open>Keeping the boundary\<close>

fun phase_text :: "reconciliation_phase \<Rightarrow> string" where
  "phase_text Commit_rejected = ''commerce-commit-rejected''"
| "phase_text Commit_unconfirmed = ''commerce-commit-unconfirmed''"
| "phase_text Completion_unconfirmed = ''reservation-completion-unconfirmed''"

definition boundary_evidence :: "json \<Rightarrow> json \<Rightarrow> reconciliation_phase \<Rightarrow> json" where
  "boundary_evidence admissionReceipt localOutcome phase = JObj [
     (''schema'', JStr ''agentic-commerce-acos-registration-reconciliation/v1''),
     (''boundary'', JStr ''acos-to-commerce-registry''), (''disposition'', JStr ''preserve-required''),
     (''phase'', JStr (phase_text phase)), (''admissionReceipt'', admissionReceipt), (''localOutcome'', localOutcome)]"

definition preserveRegistrationBoundary ::
  "core_fates \<Rightarrow> mutation_permit \<Rightarrow> json \<Rightarrow> json \<Rightarrow> reconciliation_phase \<Rightarrow> core_state \<Rightarrow> registration_answer \<times> core_state" where
  "preserveRegistrationBoundary fates permit admissionReceipt localOutcome phase s =
     (let (reconciliation, a) = preserve (fst (cf_preserve fates)) (boundary_evidence admissionReceipt localOutcome phase)
            (snd (cf_preserve fates)) \<lparr>om_permit = permit, om_finished = False\<rparr> (co_authoring s)
      in (Reconciliation phase reconciliation, s\<lparr>co_authoring := a\<rparr>))"

text \<open>The code of the response: whether the evidence was stored.\<close>

definition reconciliation_code :: "preserve_result option \<Rightarrow> string" where
  "reconciliation_code reconciliation =
     (case reconciliation of
        Some (Preserved _ _ _ _) \<Rightarrow> ''acos_commerce_reconciliation_required''
      | _ \<Rightarrow> ''acos_commerce_reconciliation_persistence_failed'')"

section \<open>Registering an agent\<close>

definition resultOk :: "json \<Rightarrow> bool" where
  "resultOk v = (isRecord v \<and> field v ''ok'' = Some (JBool True))"

text \<open>What the registry answered, as JSON.\<close>

fun refusal_text :: "refusal_code \<Rightarrow> string" where
  "refusal_text Scope_held = ''scope_held''"
| "refusal_text Lease_expired = ''lease_expired''"
| "refusal_text Write_set_overlap = ''write_set_overlap''"
| "refusal_text Mutation_out_of_write_set = ''mutation_out_of_write_set''"
| "refusal_text Fence_stale = ''fence_stale''"
| "refusal_text Claim_malformed = ''claim_malformed''"
| "refusal_text Mutation_reconciliation_required = ''mutation_reconciliation_required''"
| "refusal_text Mutation_request_mismatch = ''mutation_request_mismatch''"

fun reply_json :: "registry_reply \<Rightarrow> json" where
  "reply_json (Reply v) = v"
| "reply_json (Fence_refused code holding) = JObj [(''ok'', JBool False), (''code'', JStr (refusal_text code)),
     (''holdingClaimId'', case holding of Some (c, _, _) \<Rightarrow> JStr c | None \<Rightarrow> JNull),
     (''holdingLeaseEpoch'', case holding of Some (_, e, _) \<Rightarrow> JNum (Integer e) | None \<Rightarrow> JNull),
     (''holdingFenceRevision'', case holding of Some (_, _, f) \<Rightarrow> JStr f | None \<Rightarrow> JNull)]"

text \<open>The commit, when the runtime has admitted the agent.\<close>

definition commit_admitted ::
  "core_env \<Rightarrow> core_fates \<Rightarrow> registration_intent \<Rightarrow> mutation_permit \<Rightarrow> json \<Rightarrow> core_state \<Rightarrow> registration_answer \<times> core_state" where
  "commit_admitted env fates intent permit receipt s =
     (let (reply, registry) = register (ce_dates env) intent receipt (permit_json permit) (cf_updatedAt fates) (cf_createdAt fates)
            (cf_registered fates) (co_registry s);
          after = (if cf_register fates = Undelivered then s else s\<lparr>co_registry := registry\<rparr>);
          answer = (if cf_register fates = Answered then reply else Inl Storage_failed)
      in case answer of
           Inl _ \<Rightarrow> preserveRegistrationBoundary fates permit receipt
             (JObj [(''ok'', JBool False), (''code'', JStr ''commerce_registry_unavailable'')]) Commit_unconfirmed after
         | Inr r \<Rightarrow>
             if \<not> resultOk (reply_json r) then preserveRegistrationBoundary fates permit receipt (reply_json r) Commit_rejected after
             else let (finished, after') = finish_reservation fates permit after
               in if finished then (Registered (reply_json r), after')
                  else preserveRegistrationBoundary fates permit receipt
                    (JObj [(''ok'', JBool True), (''code'', JStr ''commerce_registry_committed'')]) Completion_unconfirmed after')"

text \<open>From the reservation on: the registry's preflight, the runtime's admission and the commit.\<close>

definition admit_reserved ::
  "core_env \<Rightarrow> core_fates \<Rightarrow> registration_intent \<Rightarrow> acos_pin \<Rightarrow> mutation_permit \<Rightarrow> core_state \<Rightarrow> registration_answer \<times> core_state" where
  "admit_reserved env fates intent pin permit s =
     (if cf_preflight fates \<noteq> Answered then (Threw, s)
      else let preflight = preflightRegistration (ce_dates env) intent (co_registry s)
      in if \<not> resultOk preflight
         then (let (finished, s') = finish_reservation fates permit s
               in (if finished then Preflight_refused preflight else Rejected_action ''authoring_mutation_completion_failed'' 503, s'))
         else let authoringMutationIntent = agentRegistrationMutationIntent intent;
                  asked = s\<lparr>co_admissions := (permit, authoringMutationIntent) # co_admissions s\<rparr>
           in (case requestAcosAdmission (ce_dates env) (ce_runtime env) (in_admissionInputs intent) authoringMutationIntent permit pin
                   (ce_secret env) of
                 Admission_granted receipt \<Rightarrow> commit_admitted env fates intent permit receipt asked
               | Admission_rejected code providerStatus finding reservationSafeToComplete \<Rightarrow>
                   let (finished, s') = (if reservationSafeToComplete then finish_reservation fates permit asked else (True, asked));
                       status = (if code = ''acos_admission_rejected'' then 409
                         else if code = ''acos_admission_provider_unavailable'' \<or> code = ''acos_admission_authentication_unavailable'' then 503
                         else 502)
                   in (if \<not> finished then Rejected_action ''authoring_mutation_completion_failed'' 503
                       else Admission_refused (Admission_rejected code providerStatus finding reservationSafeToComplete) status, s')))"

definition REGISTRATION_FIELDS :: "string list" where
  "REGISTRATION_FIELDS = [''agentDefinition'', ''toolAllowlistEntry'', ''invocationRegisterEntry'', ''operatorInstructionRef'',
     ''commerceProjection'', ''expectedPreviousContentHash'']"

text \<open>The fields of a well-formed body: the definition, the projected definition, and the rest of the intent.\<close>

definition read_registration :: "json \<Rightarrow> (json \<times> admission_inputs \<times> json \<times> string option) option" where
  "read_registration body =
     (case (field body ''agentDefinition'', field body ''toolAllowlistEntry'', field body ''invocationRegisterEntry'',
            field body ''commerceProjection'') of
        (Some agentDefinition, Some toolAllowlistEntry, Some invocationRegisterEntry, Some commerceProjection) \<Rightarrow>
          if \<not> hasOnly body REGISTRATION_FIELDS
             \<or> field body ''operatorInstructionRef'' \<noteq> Some (JStr COMMERCE_ADMISSION_OPERATOR_INSTRUCTION_REF)
             \<or> \<not> isRecord commerceProjection
             \<or> (field body ''expectedPreviousContentHash'' \<noteq> Some JNull
                \<and> \<not> is_str (field body ''expectedPreviousContentHash'') (\<lambda>_. True))
          then None
          else map_option (\<lambda>projected. (agentDefinition,
            \<lparr>ai_agentDefinition = projected, ai_toolAllowlistEntry = toolAllowlistEntry,
             ai_invocationRegisterEntry = invocationRegisterEntry, ai_operatorInstructionRef = COMMERCE_ADMISSION_OPERATOR_INSTRUCTION_REF\<rparr>,
            commerceProjection, as_str (field body ''expectedPreviousContentHash'')))
            (projectCommerceAgentDefinitionForAcos agentDefinition)
      | _ \<Rightarrow> None)"

definition dry_run_status :: "dry_run_code \<Rightarrow> nat" where
  "dry_run_status code = (case code of Registration_dry_run_invalid \<Rightarrow> 400 | Registration_dry_run_rejected \<Rightarrow> 409 | Sandbox_blocked \<Rightarrow> 503)"

definition registerAgent :: "core_env \<Rightarrow> core_fates \<Rightarrow> request \<Rightarrow> core_state \<Rightarrow> registration_answer \<times> core_state" where
  "registerAgent env fates rq s =
     (case readJsonObject (rq_headers rq) (rq_body rq) MAX_REQUEST_BYTES of
        Inl f \<Rightarrow> (Body_refused (failure_json f), s)
      | Inr body \<Rightarrow>
          if isHttpFailure body then (Body_refused body, s)
          else (case read_registration body of
            None \<Rightarrow> (Rejected_action ''registration_malformed'' 400, s)
          | Some (agentDefinition, admissionInputs, commerceProjection, expectedPreviousContentHash) \<Rightarrow>
              (case admit_called (cf_admit fates) (rq_headers rq) AGENT_REGISTRY_CLAIM (co_authoring s) of
                 None \<Rightarrow> (Threw, s)
               | Some (Some refused) \<Rightarrow> (Operator_refused refused, s)
               | Some None \<Rightarrow>
                   (case readAcosDeploymentPin (ce_sourceRevision env) (ce_candidateDigest env) of
                      None \<Rightarrow> (Rejected_action ''acos_deployment_pin_invalid'' 503, s)
                    | Some pin \<Rightarrow>
                        (case runRegistrationDryRun (ce_dates env) (ce_sandbox env) agentDefinition (ai_toolAllowlistEntry admissionInputs) of
                           Dry_run_failed code reason \<Rightarrow> (Dry_run_refused code reason (dry_run_status code), s)
                         | Dry_run_completed dryRun \<Rightarrow>
                             (case ce_proof env of
                                None \<Rightarrow> (Rejected_action ''invocation_catalog_unavailable'' 503, s)
                              | Some invocationProof \<Rightarrow>
                                  let intent = \<lparr>in_admissionInputs = admissionInputs, in_invocationProof = invocationProof,
                                        in_commerceProjection = commerceProjection,
                                        in_expectedPreviousContentHash = expectedPreviousContentHash, in_sandboxDryRun = dryRun\<rparr>;
                                      (reserved, a) = reserve_called (cf_reserve fates) (rq_headers rq) AGENT_REGISTRY_CLAIM
                                        (agentRegistrationMutationIntent intent) (co_authoring s);
                                      s' = s\<lparr>co_authoring := a\<rparr>
                                  in (case reserved of
                                        None \<Rightarrow> (Threw, s')
                                      | Some (Inl refused) \<Rightarrow> (Operator_refused refused, s')
                                      | Some (Inr permit) \<Rightarrow> admit_reserved env fates intent pin permit s')))))))"

end
