(* ===== verification/Registration_Claims.thy ===== *)
theory Registration_Claims imports Registration_Action Registry_Samples begin

text \<open>
  What the registration of an agent promises as a whole: the registry changes only for what the runtime has
  admitted under a reserved permit, and the reservation outlasts every outcome that is not final. A permit
  that is complete is handed out again, and then nothing is reserved.
\<close>

section \<open>The parts of a run\<close>

text \<open>What a begin that admits a permit leaves behind: its reservation, or it was completed before.\<close>

lemma tables_grant:
  assumes "tables_ok s" "granted p r now s"
  shows "tables_ok (grant p s)"
  using assms next_mutation_facts(3)
  by (auto simp: tables_ok_def granted_def permit_of_row_def hasReservation_def has_key_iff)

lemma begin_holds:
  assumes tab: "tables_ok s" and admit: "beginMutation v op d now s = (Inr (Admitted p), s')"
  shows "tables_ok s' \<and> permit_ok p \<and>
    (readReservation (pm_semanticScope p) s' = Some p \<or> s' = s \<and> readCompletion (permit_key p) s = Some p)"
proof (cases "s' = s")
  case False
  then obtain r where gr: "granted p r now s" "s' = grant p s" using begin_cases [OF tab, of v op d now] admit by auto
  then have "permit_ok p" "tables_ok s'" using tables_grant [OF tab] by (auto simp: granted_def)
  then show ?thesis using stored_reservation [of s'] gr(2) by simp
next
  case True
  then have "issued s p" using begin_admitted [OF tab admit] by auto
  then show ?thesis
    using True tab stored_reservation [OF tab] stored_completion [OF tab, of "permit_key p" p] by (auto simp: issued_def)
qed

lemma reserved_holds:
  assumes "tables_ok s" "reserveOperatorMutation h expected operation now s = (Inr (Inr p), s')"
  shows "tables_ok s' \<and> permit_ok p \<and>
    (readReservation (pm_semanticScope p) s' = Some p \<or> s' = s \<and> readCompletion (permit_key p) s = Some p)"
  using assms(2) by (rule reserve_reserved) (rule begin_holds [OF assms(1)])

lemma reserve_permit_ok:
  assumes "reserveOperatorMutation h expected operation now s = (Inr (Inr p), s')"
  shows "permit_ok p"
  using assms readClaimMutationPermit_ok
  by (auto simp: reserveOperatorMutation_def Let_def split: sum.splits option.splits prod.splits admission.splits)

lemma reserve_scope:
  assumes "tables_ok s" "reserveOperatorMutation h expected operation now s = (Inr (Inr p), s')"
  shows "pm_semanticScope p = cb_semanticScope expected"
  using assms(2)
proof (rule reserve_reserved)
  fix claimId epoch revision op
  assume "beginMutation (request_json expected claimId epoch revision) op (authoringMutationRequestDigest expected operation) now s = (Inr (Admitted p), s')"
  then show ?thesis using begin_admitted [OF assms(1)] readRequest_json by fastforce
qed

lemma reserve_called_reserved:
  "reserve_called fate h expected operation s = (Some (Inr p), s') \<Longrightarrow>
     reserveOperatorMutation h expected operation (snd fate) s = (Inr (Inr p), s')"
  by (auto simp: reserve_called_def Let_def split_beta prod_eq_iff split: sum.splits delivery.splits)

text \<open>Preserving evidence keeps the reservation.\<close>

lemma preserve_reads: "readReservation scope (snd (preserve fate evidence now r s)) = readReservation scope s"
  by (auto simp: preserve_def preserveMutationReconciliation_def Let_def readReservation_def
      split: delivery.splits option.splits prod.splits)

lemma boundary_kept:
  "co_registry (snd (preserveRegistrationBoundary fates p receipt outcome phase s)) = co_registry s"
  "co_admissions (snd (preserveRegistrationBoundary fates p receipt outcome phase s)) = co_admissions s"
  "readReservation scope (co_authoring (snd (preserveRegistrationBoundary fates p receipt outcome phase s))) = readReservation scope (co_authoring s)"
  by (simp_all add: preserveRegistrationBoundary_def split_beta preserve_reads)

lemma finish_kept: "co_registry (snd (finish_reservation fates p s)) = co_registry s"
  "co_admissions (snd (finish_reservation fates p s)) = co_admissions s"
  by (simp_all add: finish_reservation_def split_beta)

text \<open>An answer that is ok is of a permit that the registry has executed.\<close>

lemma executed_registration:
  assumes "register date_parse i receipt permit updatedAt createdAt nowMs s = (Inr r, s')" "resultOk (reply_json r)"
    and "readClaimMutationPermit permit = Some p"
  shows "readOutcome (pm_mutationId p) s' \<noteq> None"
proof -
  have refused: "\<not> resultOk (registry_rejected code)" "\<not> resultOk (reply_json (Fence_refused c h))" for code c h
    by (simp_all add: resultOk_def registry_rejected_def)
  obtain projection where "commitRegistration i receipt projection (readStored date_parse (text_of receipt ''agent_definition_id'') (fn_data s))
      permit updatedAt createdAt nowMs s = (Inr r, s')"
    using assms(1,2) refused(1) by (auto simp: register_def split: sum.splits)
  then obtain x where x: "runAuthoringFencedMutation permit AGENT_REGISTRY_CLAIM
      (authoringMutationRequestDigest AGENT_REGISTRY_CLAIM (agentRegistrationMutationIntent i))
      (registration_mutation i receipt projection (readStored date_parse (text_of receipt ''agent_definition_id'') (fn_data s)) updatedAt createdAt)
      nowMs s = (x, s')" "fence_reply x = Inr r"
    by (auto simp: commitRegistration_def split: prod.splits)
  obtain v where "x = Inr (Admitted v)"
    using x(2) assms(2) refused(2) by (cases x rule: fence_reply.cases) auto
  then show ?thesis
    using x(1) assms(3) by (auto simp: runAuthoringFencedMutation_def fenced_transaction_def refusal_def fence_refusal_def claimRefusal_def record_mutation_def
        readOutcome_def select_key_append outcome_of_def split: option.splits if_splits sum.splits prod.splits)
qed


lemma commit_admitted_facts:
  assumes "commit_admitted env fates intent p receipt s = (answer, s')" "permit_ok p"
  shows "co_admissions s' = co_admissions s
    \<and> (co_registry s' = co_registry s \<or> (\<exists>r. register (ce_dates env) intent receipt (permit_json p) (cf_updatedAt fates) (cf_createdAt fates)
          (cf_registered fates) (co_registry s) = (r, co_registry s')))
    \<and> (readReservation scope (co_authoring s') = readReservation scope (co_authoring s) \<or> readOutcome (pm_mutationId p) (co_registry s') \<noteq> None)"
proof -
  obtain reply registry where r: "register (ce_dates env) intent receipt (permit_json p) (cf_updatedAt fates) (cf_createdAt fates)
      (cf_registered fates) (co_registry s) = (reply, registry)" by fastforce
  let ?after = "if cf_register fates = Undelivered then s else s\<lparr>co_registry := registry\<rparr>"
  have after: "co_admissions ?after = co_admissions s" "co_authoring ?after = co_authoring s"
    "co_registry ?after = co_registry s \<or> co_registry ?after = registry" by simp_all
  note eq = assms(1) [unfolded commit_admitted_def r Let_def prod.case]
  consider (kept) outcome phase where "s' = snd (preserveRegistrationBoundary fates p receipt outcome phase ?after)"
    | (ok) x where "cf_register fates = Answered" "reply = Inr x" "resultOk (reply_json x)" "co_registry s' = co_registry ?after" "co_admissions s' = co_admissions ?after"
  proof (cases "cf_register fates = Answered \<and> (\<exists>x. reply = Inr x \<and> resultOk (reply_json x))")
    case True
    then obtain x where x: "reply = Inr x" "resultOk (reply_json x)" by blast
    have "co_registry s' = co_registry ?after \<and> co_admissions s' = co_admissions ?after"
      using eq x True finish_kept [of fates p ?after] boundary_kept(1,2)
      by (auto simp: split_beta split: if_splits) (metis snd_conv)+
    then show thesis using ok x True by blast
  next
    case False
    then have "\<exists>outcome phase. preserveRegistrationBoundary fates p receipt outcome phase ?after = (answer, s')"
      using eq by (cases "cf_register fates") (auto split: sum.splits if_splits)
    then show thesis using kept by (metis snd_conv)
  qed
  then show ?thesis
  proof cases
    case kept
    then show ?thesis using after r by (auto simp: boundary_kept)
  next
    case (ok x)
    then have "readOutcome (pm_mutationId p) registry \<noteq> None" "co_registry s' = registry"
      using executed_registration [of "ce_dates env" intent receipt "permit_json p"] r assms(2) by (auto simp: read_permit_json)
    then show ?thesis using ok r by auto
  qed
qed

lemma admit_reserved_cases:
  assumes "admit_reserved env fates intent pin p s = (answer, s')"
  obtains (unasked) "co_registry s' = co_registry s" "co_admissions s' = co_admissions s"
  | (refused) code providerStatus finding safe where
      "requestAcosAdmission (ce_dates env) (ce_runtime env) (in_admissionInputs intent) (agentRegistrationMutationIntent intent) p pin (ce_secret env)
        = Admission_rejected code providerStatus finding safe"
      "co_registry s' = co_registry s" "co_admissions s' = (p, agentRegistrationMutationIntent intent) # co_admissions s"
      "\<not> safe \<Longrightarrow> co_authoring s' = co_authoring s"
  | (admitted) receipt where
      "requestAcosAdmission (ce_dates env) (ce_runtime env) (in_admissionInputs intent) (agentRegistrationMutationIntent intent) p pin (ce_secret env)
        = Admission_granted receipt"
      "resultOk (preflightRegistration (ce_dates env) intent (co_registry s))"
      "commit_admitted env fates intent p receipt (s\<lparr>co_admissions := (p, agentRegistrationMutationIntent intent) # co_admissions s\<rparr>) = (answer, s')"
proof (cases "cf_preflight fates = Answered \<and> resultOk (preflightRegistration (ce_dates env) intent (co_registry s))")
  case False
  then have "co_registry s' = co_registry s \<and> co_admissions s' = co_admissions s"
    using assms finish_kept [of fates p s] by (auto simp: admit_reserved_def split_beta split: if_splits)
  then show thesis using unasked by blast
next
  case True
  let ?asked = "s\<lparr>co_admissions := (p, agentRegistrationMutationIntent intent) # co_admissions s\<rparr>"
  show thesis
  proof (cases "requestAcosAdmission (ce_dates env) (ce_runtime env) (in_admissionInputs intent) (agentRegistrationMutationIntent intent) p pin (ce_secret env)")
    case (Admission_granted receipt)
    then show thesis using True assms by (intro admitted) (simp_all add: admit_reserved_def Let_def)
  next
    case (Admission_rejected code providerStatus finding safe)
    then have "s' = (if safe then snd (finish_reservation fates p ?asked) else ?asked)"
      using True assms by (auto simp: admit_reserved_def Let_def split_beta)
    then show thesis
      using finish_kept [of fates p ?asked] by (intro refused [OF Admission_rejected]) auto
  qed
qed

text \<open>A run that gets as far as a reservation.\<close>

lemma registerAgent_cases:
  assumes "registerAgent env fates rq s = (answer, s')"
  obtains (early) "co_registry s' = co_registry s" "co_admissions s' = co_admissions s"
  | (reserved) intent pin p a presented where
      "projectCommerceAgentDefinitionForAcos presented = Some (ai_agentDefinition (in_admissionInputs intent))"
      "runRegistrationDryRun (ce_dates env) (ce_sandbox env) presented (ai_toolAllowlistEntry (in_admissionInputs intent))
        = Dry_run_completed (in_sandboxDryRun intent)"
      "ce_proof env = Some (in_invocationProof intent)"
      "readAcosDeploymentPin (ce_sourceRevision env) (ce_candidateDigest env) = Some pin"
      "reserveOperatorMutation (rq_headers rq) AGENT_REGISTRY_CLAIM (agentRegistrationMutationIntent intent) (snd (cf_reserve fates))
        (co_authoring s) = (Inr (Inr p), a)"
      "admit_reserved env fates intent pin p (s\<lparr>co_authoring := a\<rparr>) = (answer, s')"
proof -
  have projected: "projectCommerceAgentDefinitionForAcos d = Some (ai_agentDefinition i)"
    if "read_registration body = Some (d, i, c, h)" for body d i c h
    using that by (auto simp: read_registration_def split: option.splits if_splits)
  show thesis
  proof (cases "co_registry s' = co_registry s \<and> co_admissions s' = co_admissions s")
    case False
    with assms obtain body presented i c h pin dryRun proof' where run: "read_registration body = Some (presented, i, c, h)"
        "readAcosDeploymentPin (ce_sourceRevision env) (ce_candidateDigest env) = Some pin"
        "runRegistrationDryRun (ce_dates env) (ce_sandbox env) presented (ai_toolAllowlistEntry i) = Dry_run_completed dryRun"
        "ce_proof env = Some proof'"
      and rest: "(let intent = \<lparr>in_admissionInputs = i, in_invocationProof = proof', in_commerceProjection = c,
              in_expectedPreviousContentHash = h, in_sandboxDryRun = dryRun\<rparr>;
            (reserved, a) = reserve_called (cf_reserve fates) (rq_headers rq) AGENT_REGISTRY_CLAIM (agentRegistrationMutationIntent intent) (co_authoring s);
            s' = s\<lparr>co_authoring := a\<rparr>
          in (case reserved of None \<Rightarrow> (Threw, s') | Some (Inl refused) \<Rightarrow> (Operator_refused refused, s')
              | Some (Inr permit) \<Rightarrow> admit_reserved env fates intent pin permit s')) = (answer, s')"
      by (auto simp: registerAgent_def split: sum.splits if_splits option.splits prod.splits dry_run_result.splits)
    let ?intent = "\<lparr>in_admissionInputs = i, in_invocationProof = proof', in_commerceProjection = c,
              in_expectedPreviousContentHash = h, in_sandboxDryRun = dryRun\<rparr>"
    obtain res a where res: "reserve_called (cf_reserve fates) (rq_headers rq) AGENT_REGISTRY_CLAIM (agentRegistrationMutationIntent ?intent) (co_authoring s)
        = (res, a)" by fastforce
    with rest False obtain p where p: "res = Some (Inr p)" "admit_reserved env fates ?intent pin p (s\<lparr>co_authoring := a\<rparr>) = (answer, s')"
      by (auto simp: Let_def split: option.splits sum.splits)
    show thesis
      by (rule reserved [of presented ?intent pin p a])
        (use run projected [OF run(1)] p reserve_called_reserved [of "cf_reserve fates" "rq_headers rq" AGENT_REGISTRY_CLAIM _ "co_authoring s" p a] res in simp_all)
  qed (use early in blast)
qed


lemma registered_data:
  assumes "register date_parse i receipt permit updatedAt createdAt nowMs s = (r, s')"
  shows "fn_data s' = fn_data s
    \<or> (\<exists>projection. readCommerceProjection (in_commerceProjection i) (in_admissionInputs i) = Some projection
         \<and> map_option rg_contentHash (readStored date_parse (text_of receipt ''agent_definition_id'') (fn_data s)) = in_expectedPreviousContentHash i
         \<and> fn_data s' = appendRegistryEvent ''registered'' (text_of receipt ''agent_definition_id'') (content_hash i receipt projection) createdAt
             ((fn_data s)\<lparr>rr_agents := upsert ar_agent_id (registered_row i receipt projection updatedAt) (rr_agents (fn_data s))\<rparr>))"
proof (cases "checkRegistration date_parse i receipt")
  case (Inl code)
  then show ?thesis using assms by (simp add: register_def)
next
  case (Inr projection)
  then have projection: "readCommerceProjection (in_commerceProjection i) (in_admissionInputs i) = Some projection"
    by (auto simp: checkRegistration_def split: if_splits option.splits)
  from Inr assms have "commitRegistration i receipt projection (readStored date_parse (text_of receipt ''agent_definition_id'') (fn_data s))
      permit updatedAt createdAt nowMs s = (r, s')" by (simp add: register_def)
  then show ?thesis by (cases rule: commitRegistration_cases) (use projection in blast)+
qed

text \<open>A permit that is not reserved: nothing can be kept of its boundary.\<close>

lemma unreserved_boundary:
  assumes "permit_ok p" "readReservation (pm_semanticScope p) (co_authoring s) = None"
  shows "fst (preserveRegistrationBoundary fates p receipt outcome phase s) = Reconciliation phase' r \<Longrightarrow>
    reconciliation_code r = ''acos_commerce_reconciliation_persistence_failed''"
  using assms
  by (auto simp: preserveRegistrationBoundary_def preserve_def preserveMutationReconciliation_def Let_def read_permit_json same_permit_iff
      reconciliation_code_def split_beta split: delivery.splits if_splits)

lemma unreserved_finish:
  assumes "tables_ok (co_authoring s)" "permit_ok p" "readReservation (pm_semanticScope p) (co_authoring s) = None"
  shows "co_authoring (snd (finish_reservation fates p s)) = co_authoring s"
  using assms complete_cases [OF assms(1), of "permit_json p" p]
  by (simp add: finish_reservation_def finish_def read_permit_json split_beta split: delivery.split)

lemma unreserved_commit:
  assumes "tables_ok (co_authoring s)" "permit_ok p" "readReservation (pm_semanticScope p) (co_authoring s) = None"
    and "fst (commit_admitted env fates intent p receipt s) = Reconciliation phase r"
  shows "reconciliation_code r = ''acos_commerce_reconciliation_persistence_failed''"
proof -
  obtain reply registry where r: "register (ce_dates env) intent receipt (permit_json p) (cf_updatedAt fates) (cf_createdAt fates)
      (cf_registered fates) (co_registry s) = (reply, registry)" by fastforce
  let ?after = "if cf_register fates = Undelivered then s else s\<lparr>co_registry := registry\<rparr>"
  have after: "co_authoring ?after = co_authoring s" by simp
  have fin: "co_authoring (snd (finish_reservation fates p ?after)) = co_authoring s"
    using unreserved_finish [of ?after] assms(1-3) after by metis
  obtain outcome phase' s1 where "fst (preserveRegistrationBoundary fates p receipt outcome phase' s1) = Reconciliation phase r"
      "co_authoring s1 = co_authoring s"
    using assms(4) fin after by (auto simp: commit_admitted_def r Let_def split_beta split: sum.splits if_splits)
  then show ?thesis using unreserved_boundary [OF assms(2)] assms(3) by metis
qed

section \<open>Claims\<close>

text \<open>
  C11. An agent is registered only when everything before it has agreed: a run leaves the table of the registry as it was,
  or it wrote exactly one registration, of a definition whose sandbox run completed, with the configured
  invocation proof, under a permit that the coordinator reserved for this intent, with a receipt that the pinned
  runtime granted for it, over the content hash that the operator expected.
\<close>

theorem registration_needs_admission:
  "fn_data (co_registry (snd (registerAgent env fates rq s))) = fn_data (co_registry s)
   \<or> (\<exists>presented intent pin p a receipt projection.
        runRegistrationDryRun (ce_dates env) (ce_sandbox env) presented (ai_toolAllowlistEntry (in_admissionInputs intent))
          = Dry_run_completed (in_sandboxDryRun intent)
      \<and> projectCommerceAgentDefinitionForAcos presented = Some (ai_agentDefinition (in_admissionInputs intent))
      \<and> ce_proof env = Some (in_invocationProof intent)
      \<and> reserveOperatorMutation (rq_headers rq) AGENT_REGISTRY_CLAIM (agentRegistrationMutationIntent intent) (snd (cf_reserve fates))
          (co_authoring s) = (Inr (Inr p), a)
      \<and> readAcosDeploymentPin (ce_sourceRevision env) (ce_candidateDigest env) = Some pin
      \<and> requestAcosAdmission (ce_dates env) (ce_runtime env) (in_admissionInputs intent) (agentRegistrationMutationIntent intent) p pin
          (ce_secret env) = Admission_granted receipt
      \<and> resultOk (preflightRegistration (ce_dates env) intent (co_registry s))
      \<and> readCommerceProjection (in_commerceProjection intent) (in_admissionInputs intent) = Some projection
      \<and> map_option rg_contentHash (readStored (ce_dates env) (text_of receipt ''agent_definition_id'') (fn_data (co_registry s)))
          = in_expectedPreviousContentHash intent
      \<and> fn_data (co_registry (snd (registerAgent env fates rq s)))
          = appendRegistryEvent ''registered'' (text_of receipt ''agent_definition_id'') (content_hash intent receipt projection) (cf_createdAt fates)
              ((fn_data (co_registry s))\<lparr>rr_agents := upsert ar_agent_id
                 (registered_row intent receipt projection (cf_updatedAt fates)) (rr_agents (fn_data (co_registry s)))\<rparr>))"
proof -
  obtain answer s' where run: "registerAgent env fates rq s = (answer, s')" by fastforce
  then show ?thesis
  proof (cases rule: registerAgent_cases)
    case (reserved intent pin p a presented)
    from reserved(6) show ?thesis
    proof (cases rule: admit_reserved_cases)
      case (admitted receipt)
      have "permit_ok p" using reserved(5) by (rule reserve_permit_ok)
      from commit_admitted_facts [OF admitted(3) this] obtain r where "co_registry s' = co_registry s
          \<or> register (ce_dates env) intent receipt (permit_json p) (cf_updatedAt fates) (cf_createdAt fates) (cf_registered fates) (co_registry s)
              = (r, co_registry s')" by auto
      then show ?thesis
      proof
        assume "register (ce_dates env) intent receipt (permit_json p) (cf_updatedAt fates) (cf_createdAt fates) (cf_registered fates)
          (co_registry s) = (r, co_registry s')"
        from registered_data [OF this] show ?thesis
        proof (elim disjE exE conjE)
          fix projection
          assume "readCommerceProjection (in_commerceProjection intent) (in_admissionInputs intent) = Some projection"
            "map_option rg_contentHash (readStored (ce_dates env) (text_of receipt ''agent_definition_id'') (fn_data (co_registry s))) = in_expectedPreviousContentHash intent"
            "fn_data (co_registry s') = appendRegistryEvent ''registered'' (text_of receipt ''agent_definition_id'') (content_hash intent receipt projection) (cf_createdAt fates)
              ((fn_data (co_registry s))\<lparr>rr_agents := upsert ar_agent_id (registered_row intent receipt projection (cf_updatedAt fates)) (rr_agents (fn_data (co_registry s)))\<rparr>)"
          then show ?thesis
            unfolding run snd_conv
            by (intro disjI2 exI conjI) (assumption | rule reserved(1-5) admitted(1) admitted(2) [simplified])+
        qed (simp add: run)
      qed (simp add: run)
    qed (simp_all add: run)
  qed (simp add: run)
qed

text \<open>
  C25. A reservation outlasts every outcome that is not final: when a run has asked the runtime, its permit is still
  reserved at the coordinator, or the registry has executed it, or the runtime refused for good; or it was a permit
  that an earlier run had completed.
\<close>

theorem reservation_kept_until_final:
  assumes "authoring_run strict t (co_authoring s)" "registerAgent env fates rq s = (answer, s')"
    and "co_admissions s' = (p, i) # co_admissions s"
  shows "readReservation ''operator-registry'' (co_authoring s') = Some p
    \<or> readOutcome (pm_mutationId p) (co_registry s') \<noteq> None
    \<or> (\<exists>inputs pin code providerStatus finding. requestAcosAdmission (ce_dates env) (ce_runtime env) inputs i p pin (ce_secret env)
         = Admission_rejected code providerStatus finding True)
    \<or> readCompletion (permit_key p) (co_authoring s) = Some p"
  using assms(2)
proof (cases rule: registerAgent_cases)
  case (reserved intent pin q a presented)
  note tab = run_tables [OF assms(1)]
  have q: "permit_ok q" "readReservation (pm_semanticScope q) a = Some q \<or> a = co_authoring s \<and> readCompletion (permit_key q) (co_authoring s) = Some q"
    using reserved_holds [OF tab reserved(5)] by blast+
  have scope: "pm_semanticScope q = ''operator-registry''"
    using reserve_scope [OF tab reserved(5)] by (simp add: AGENT_REGISTRY_CLAIM_def)
  from reserved(6) show ?thesis
  proof (cases rule: admit_reserved_cases)
    case unasked
    then show ?thesis using assms(3) by simp
  next
    case (refused code providerStatus finding safe)
    then have pq: "p = q" "i = agentRegistrationMutationIntent intent" using assms(3) by simp_all
    show ?thesis
    proof (cases safe)
      case True
      with refused(1) have "requestAcosAdmission (ce_dates env) (ce_runtime env) (in_admissionInputs intent) i p pin (ce_secret env)
          = Admission_rejected code providerStatus finding True" by (simp add: pq)
      then show ?thesis by blast
    next
      case False
      then have "co_authoring s' = a" using refused(4) by simp
      then show ?thesis using q(2) scope pq by auto
    qed
  next
    case (admitted receipt)
    note c = commit_admitted_facts [OF admitted(3) q(1), of "''operator-registry''"]
    then have "p = q" using assms(3) by simp
    then show ?thesis using c q(2) scope by auto
  qed
qed (use assms(3) in simp)

text \<open>
  C38. A mutation that is complete is handed out again without a reservation: a registration that was completed
  without being written, because the preflight or the runtime refused it, is admitted again on a retry with
  the old permit, changes nothing at the coordinator, and whatever the registry then refuses or loses, the evidence
  of the boundary is never kept.
\<close>

theorem completed_permit_unprotected:
  assumes "authoring_run strict t s" "reserveOperatorMutation h AGENT_REGISTRY_CLAIM operation now s = (Inr (Inr p), s')"
    and "\<not> hasReservation ''operator-registry'' s" "readCompletion (permit_key p) s = Some p"
  shows "s' = s \<and> (\<forall>env fates intent receipt phase r. \<forall>c. co_authoring c = s' \<longrightarrow>
     fst (commit_admitted env fates intent p receipt c) = Reconciliation phase r \<longrightarrow>
     reconciliation_code r = ''acos_commerce_reconciliation_persistence_failed'')"
proof -
  note tab = run_tables [OF assms(1)]
  have scope: "pm_semanticScope p = ''operator-registry''"
    using reserve_scope [OF tab assms(2)] by (simp add: AGENT_REGISTRY_CLAIM_def)
  have none: "readReservation ''operator-registry'' s = None" using assms(3) by (rule reservation_absent)
  obtain claimId epoch revision op where b: "beginMutation (request_json AGENT_REGISTRY_CLAIM claimId epoch revision) op
      (authoringMutationRequestDigest AGENT_REGISTRY_CLAIM operation) now s = (Inr (Admitted p), s')"
    by (rule reserve_reserved [OF assms(2)])
  have "s' = s"
  proof (rule ccontr)
    assume "s' \<noteq> s"
    then obtain r where "granted p r now s" using begin_cases [OF tab] b by (metis snd_conv fst_conv prod.inject sum.inject(2) admission.inject(1))
    then show False using assms(4) by (simp add: granted_def)
  qed
  moreover have "permit_ok p" using begin_holds [OF tab b] by simp
  ultimately show ?thesis using unreserved_commit tab none scope by metis
qed


section \<open>Witnesses\<close>

text \<open>A registration that gets as far as the runtime, which does not answer.\<close>

definition offered_agent :: json where
  "offered_agent = JObj [(''id'', JStr ''agent-1''), (''revision'', JStr ''1''), (''name'', JStr ''Coffee''), (''source'', JStr ''catalog''),
     (''model'', JStr ''model-1''), (''instructions'', JStr ''Sell coffee.''), (''executableTarget'', JObj [])]"

definition offered_body :: json where
  "offered_body = JObj [(''agentDefinition'', offered_agent), (''toolAllowlistEntry'', ai_toolAllowlistEntry sample_inputs),
     (''invocationRegisterEntry'', ai_invocationRegisterEntry sample_inputs),
     (''operatorInstructionRef'', JStr COMMERCE_ADMISSION_OPERATOR_INSTRUCTION_REF),
     (''commerceProjection'', projection_json sample_commerce), (''expectedPreviousContentHash'', JNull)]"

definition offered_request :: request where
  "offered_request = \<lparr>rq_method = ''POST'', rq_url = ''https://commerce.example/v1/agents'',
     rq_headers = sample_headers @ [(''content-type'', ''application/json'')],
     rq_body = Some \<lparr>bd_chunks = [1000], bd_text = json_text offered_body, bd_valid = True\<rparr>\<rparr>"

definition offered_inputs :: admission_inputs where
  "offered_inputs = sample_inputs\<lparr>ai_agentDefinition := the (projectCommerceAgentDefinitionForAcos offered_agent)\<rparr>"

definition sample_sandbox :: "request \<Rightarrow> thrown + response" where
  "sample_sandbox = (\<lambda>_. Inr \<lparr>rs_status = 200, rs_headers = [], rs_body = Some \<lparr>bd_chunks = [1000],
     bd_text = json_text (JObj [(''ok'', JBool True), (''record'', sample_dry_run)]), bd_valid = True\<rparr>\<rparr>)"

definition silent_env :: core_env where
  "silent_env = \<lparr>ce_dates = sample_dates, ce_sandbox = Some sample_sandbox,
     ce_sourceRevision = Some (JStr (dn_sourceRevision sample_acos_pin)), ce_candidateDigest = Some (JStr (dn_candidateDigest sample_acos_pin)),
     ce_runtime = (\<lambda>_. Inl Js_other), ce_secret = sample_admission_secret, ce_proof = Some (sample_proof (CHR ''a''))\<rparr>"

definition answered_fates :: core_fates where
  "answered_fates = \<lparr>cf_admit = (Answered, 5), cf_reserve = (Answered, 5), cf_preflight = Answered, cf_register = Answered,
     cf_updatedAt = ''t'', cf_createdAt = ''t'', cf_registered = 10, cf_finish = (Answered, 11), cf_preserve = (Answered, 12)\<rparr>"

definition offered_intent :: registration_intent where
  "offered_intent = \<lparr>in_admissionInputs = offered_inputs, in_invocationProof = sample_proof (CHR ''a''),
     in_commerceProjection = projection_json sample_commerce, in_expectedPreviousContentHash = None,
     in_sandboxDryRun = dry_run_json sample_dry_run []\<rparr>"

definition fresh_core :: core_state where
  "fresh_core = \<lparr>co_authoring = claimed, co_registry = empty_registry, co_admissions = []\<rparr>"

lemma offered_storable: "storable offered_body" "storable (JObj [(''ok'', JBool True), (''record'', sample_dry_run)])"
  by (simp_all add: offered_body_def offered_agent_def sample_inputs_def sample_dry_run_def projection_json_def sample_commerce_def
      attributes_json_def storable_JObj storable_JArr text_or_null_def)

lemma offered_read: "readJsonObject (rq_headers offered_request) (rq_body offered_request) MAX_REQUEST_BYTES = Inr offered_body"
  "read_registration offered_body = Some (offered_agent, offered_inputs, projection_json sample_commerce, None)"
  "\<not> isHttpFailure offered_body"
proof -
  have "media_type (headers_get (rq_headers offered_request) ''content-type'') = ''application/json''"
    "headers_get (rq_headers offered_request) ''content-length'' = None" "isRecord offered_body"
    by (simp_all add: offered_request_def offered_body_def) code_simp+
  then show "readJsonObject (rq_headers offered_request) (rq_body offered_request) MAX_REQUEST_BYTES = Inr offered_body"
    using json_parse_text [OF offered_storable(1)]
    by (simp add: readJsonObject_def declared_length_ok_def readBoundedBytes_def read_chunks_iff parse_fatal_def MAX_REQUEST_BYTES_def)
      (simp add: offered_request_def parse_fatal_def)
  show "read_registration offered_body = Some (offered_agent, offered_inputs, projection_json sample_commerce, None)"
    by code_simp
  show "\<not> isHttpFailure offered_body" by (simp add: isHttpFailure_def offered_body_def)
qed


lemma offered_sandbox: "runRegistrationDryRun sample_dates (Some sample_sandbox) offered_agent (ai_toolAllowlistEntry offered_inputs)
    = Dry_run_completed (dry_run_json sample_dry_run [])"
proof -
  have allowlist: "readDefinitionToolNames (field offered_agent ''tools'') = Some []"
    "readAllowlist (field (ai_toolAllowlistEntry offered_inputs) ''tool_names'') = Some [''search'']"
    "isRecord offered_agent" "isRecord (ai_toolAllowlistEntry offered_inputs)"
    by code_simp+
  have completed: "readCompletedRecord sample_dates (JObj [(''ok'', JBool True), (''record'', sample_dry_run)]) (Some []) = Some (dry_run_json sample_dry_run [])"
    by code_simp
  have "readJsonResponse [] (Some \<lparr>bd_chunks = [1000], bd_text = json_text (JObj [(''ok'', JBool True), (''record'', sample_dry_run)]), bd_valid = True\<rparr>)
      SANDBOX_MAXIMUM_RESPONSE_BYTES = JObj [(''ok'', JBool True), (''record'', sample_dry_run)]"
    using json_parse_text [OF offered_storable(2)]
    by (simp add: readJsonResponse_def declared_length_ok_def headers_get_def readBoundedBytes_def read_chunks_iff parse_fatal_def
        SANDBOX_MAXIMUM_RESPONSE_BYTES_def del: json_text.simps)
  then show ?thesis
    using allowlist completed
    by (simp add: runRegistrationDryRun_def buildRegistrationDryRunRequest_def Let_def sample_sandbox_def rs_ok_def del: json_text.simps)
qed

lemma offered_admit: "admit_called (Answered, 5) (rq_headers offered_request) AGENT_REGISTRY_CLAIM claimed = Some None"
  "readOperatorClaimRequest (rq_headers offered_request) AGENT_REGISTRY_CLAIM = Inr (sample_request ''operator-registry'' ''claim-1'')"
proof -
  have "readOperatorClaimRequest (rq_headers offered_request) AGENT_REGISTRY_CLAIM = Inr (request_json AGENT_REGISTRY_CLAIM ''claim-1'' 1 ''rev-1'')"
    by code_simp
  then show request: "readOperatorClaimRequest (rq_headers offered_request) AGENT_REGISTRY_CLAIM = Inr (sample_request ''operator-registry'' ''claim-1'')"
    by (simp add: sample_request_json)
  have "mutationAdmission (sample_request ''operator-registry'' ''claim-1'') 5 claimed \<noteq> Claim_refused c h" for c h
    using begin_fresh [of digest_a] digest_patterns_ab
    by (auto simp: beginMutation_def sample_request_of Let_def authoringMutationOperationId_def claimed_state empty_authoring_def
        readReservation_def hasReservation_def has_key_def readCompletion_def select_key_def max_safe_def split: if_splits)
  then show "admit_called (Answered, 5) (rq_headers offered_request) AGENT_REGISTRY_CLAIM claimed = Some None"
    by (simp add: admit_called_def request admitOperatorMutation_def admitMutation_def split: admission.split)
qed

abbreviation offered_digest :: string where
  "offered_digest \<equiv> authoringMutationRequestDigest AGENT_REGISTRY_CLAIM (agentRegistrationMutationIntent offered_intent)"

lemma offered_reserved:
  "reserve_called (Answered, 5) (rq_headers offered_request) AGENT_REGISTRY_CLAIM (agentRegistrationMutationIntent offered_intent) claimed
     = (Some (Inr (sample_permit 1 offered_digest)), grant (sample_permit 1 offered_digest) claimed)"
proof -
  have d: "sha256_pattern offered_digest" by (simp add: authoringMutationRequestDigest_def)
  have "permit_ok (sample_permit 1 offered_digest)"
    using d sha_ids [OF d] by (simp add: permit_ok_def sample_permit_def max_safe_def sample_ids)
  then have "readClaimMutationPermit (permit_json (sample_permit 1 offered_digest)) = Some (sample_permit 1 offered_digest)" by (simp add: read_permit_json)
  moreover have "authoringMutationOperationId offered_digest = Some (sample_operation offered_digest)"
    using d by (simp add: authoringMutationOperationId_def sample_operation_def)
  ultimately have "reserveOperatorMutation (rq_headers offered_request) AGENT_REGISTRY_CLAIM (agentRegistrationMutationIntent offered_intent) 5 claimed
      = (Inr (Inr (sample_permit 1 offered_digest)), grant (sample_permit 1 offered_digest) claimed)"
    using begin_fresh [OF d] by (simp add: reserveOperatorMutation_def offered_admit(2) Let_def)
  then show ?thesis by (simp add: reserve_called_def offered_admit(2))
qed

lemma offered_preflight: "resultOk (preflightRegistration sample_dates offered_intent empty_registry)"
proof -
  have "validRegistrationIntent sample_dates offered_intent"
  proof -
    have "isRegistrationDryRunRecord sample_dates (dry_run_json sample_dry_run [])" by code_simp
    moreover have "ai_operatorInstructionRef offered_inputs = COMMERCE_ADMISSION_OPERATOR_INSTRUCTION_REF" by code_simp
    ultimately show ?thesis
      using sample_parts(1) [of "CHR ''a''"] by (simp add: validRegistrationIntent_def offered_intent_def sample_hex_def)
  qed
  moreover have "readCommerceProjection (projection_json sample_commerce) offered_inputs \<noteq> None"
    "as_str (field (ai_agentDefinition offered_inputs) ''id'') = Some ''agent-1''" "validAgentId ''agent-1''" "isRecord (ai_agentDefinition offered_inputs)"
    by code_simp+
  ultimately show ?thesis
    by (auto simp: preflightRegistration_def offered_intent_def readStored_def empty_registry_def select_key_def resultOk_def)
qed

lemma silent_runtime: "\<exists>code status finding. requestAcosAdmission date_parse (\<lambda>_. Inl e) inputs intent p pin secret = Admission_rejected code status finding False"
  by (simp add: requestAcosAdmission_def split: option.split sum.split)

lemma silent_never: "requestAcosAdmission date_parse (\<lambda>_. Inl e) inputs intent p pin secret \<noteq> Admission_rejected code status finding True"
  using silent_runtime [of date_parse e inputs intent p pin secret] by auto

lemma offered_run: "\<exists>answer s'. registerAgent silent_env answered_fates offered_request fresh_core = (answer, s')
    \<and> co_admissions s' = (sample_permit 1 offered_digest, agentRegistrationMutationIntent offered_intent) # co_admissions fresh_core
    \<and> co_registry s' = empty_registry"
proof -
  have pin: "readAcosDeploymentPin (ce_sourceRevision silent_env) (ce_candidateDigest silent_env) = Some sample_acos_pin" by code_simp
  obtain code status finding where refused: "requestAcosAdmission sample_dates (\<lambda>_. Inl Js_other) offered_inputs (agentRegistrationMutationIntent offered_intent)
      (sample_permit 1 offered_digest) sample_acos_pin sample_admission_secret = Admission_rejected code status finding False"
    using silent_runtime by blast
  have intent: "in_admissionInputs offered_intent = offered_inputs" by (simp add: offered_intent_def)
  have reserved: "\<exists>answer s'. admit_reserved silent_env answered_fates offered_intent sample_acos_pin (sample_permit 1 offered_digest)
      (fresh_core\<lparr>co_authoring := grant (sample_permit 1 offered_digest) claimed\<rparr>) = (answer, s')
    \<and> co_admissions s' = (sample_permit 1 offered_digest, agentRegistrationMutationIntent offered_intent) # co_admissions fresh_core
    \<and> co_registry s' = empty_registry"
    using offered_preflight refused
    by (simp add: admit_reserved_def answered_fates_def silent_env_def fresh_core_def intent Let_def)
  have "registerAgent silent_env answered_fates offered_request fresh_core
      = admit_reserved silent_env answered_fates offered_intent sample_acos_pin (sample_permit 1 offered_digest)
          (fresh_core\<lparr>co_authoring := grant (sample_permit 1 offered_digest) claimed\<rparr>)"
    using offered_reserved offered_sandbox pin
    by (simp add: registerAgent_def offered_read fresh_core_def answered_fates_def offered_admit silent_env_def Let_def offered_intent_def)
  with reserved show ?thesis by simp
qed

theorem reservation_kept_until_final_witness:
  "readReservation ''operator-registry'' (co_authoring (snd (registerAgent silent_env answered_fates offered_request fresh_core)))
     = Some (sample_permit 1 offered_digest)"
proof -
  obtain answer s' where r: "registerAgent silent_env answered_fates offered_request fresh_core = (answer, s')"
      "co_admissions s' = (sample_permit 1 offered_digest, agentRegistrationMutationIntent offered_intent) # co_admissions fresh_core"
      "co_registry s' = empty_registry" using offered_run by blast
  have run: "authoring_run True 1 (co_authoring fresh_core)" by (simp add: fresh_core_def claimed_run)
  have "readOutcome m empty_registry = None" "readCompletion k claimed = None" for m k
    by (simp_all add: readOutcome_def readCompletion_def empty_registry_def claimed_state empty_authoring_def select_key_def)
  then show ?thesis
    using reservation_kept_until_final [OF run r(1,2)] r(1,3) by (simp add: fresh_core_def silent_env_def silent_never)
qed

theorem completed_permit_unprotected_witness:
  "\<exists>p s. reserveOperatorMutation sample_headers AGENT_REGISTRY_CLAIM JNull 9 s = (Inr (Inr p), s)
     \<and> (\<forall>env fates intent receipt phase r. \<forall>c. co_authoring c = s \<longrightarrow> fst (commit_admitted env fates intent p receipt c) = Reconciliation phase r \<longrightarrow>
          reconciliation_code r = ''acos_commerce_reconciliation_persistence_failed'')"
proof -
  let ?d = "authoringMutationRequestDigest AGENT_REGISTRY_CLAIM JNull"
  let ?p = "sample_permit 1 ?d" let ?s = "grant ?p claimed" let ?v = "sample_request ''operator-registry'' ''claim-1''"
  have d: "sha256_pattern ?d" by (simp add: authoringMutationRequestDigest_def)
  have ok: "permit_ok ?p" using d sha_ids [OF d] by (simp add: permit_ok_def sample_permit_def max_safe_def sample_ids)
  have scope: "pm_semanticScope ?p = ''operator-registry''" by (simp add: sample_permit_def)
  have op: "authoringMutationOperationId ?d = Some (sample_operation ?d)"
    using d by (simp add: authoringMutationOperationId_def sample_operation_def)
  have "scope_of_request ?v = ''operator-registry''" by (simp add: scope_of_request_def sample_request_def text_of_def)
  then have "unreleased ?v claimed" by (simp add: unreleased_def claimed_state row_a_fields)
  with run_begin [OF claimed_run, of 5 True ?v "sample_operation ?d" ?d] have run: "authoring_run True 5 ?s" by (simp add: begin_fresh [OF d])
  note tab = run_tables [OF run]
  have none: "readCompletion (permit_key ?p) ?s = None" by (simp add: readCompletion_def claimed_state empty_authoring_def select_key_def)
  have held: "readReservation ''operator-registry'' ?s = Some ?p" using stored_reservation [OF tab] ok scope by simp
  let ?f = "finish_mutation ?p 8 ?s"
  have "completeMutation (permit_json ?p) 8 ?s = (True, ?f)"
    using held none scope by (simp add: complete_cases [OF tab, of "permit_json ?p" ?p] read_permit_json ok max_safe_def)
  with run_complete [OF run, of 8 "permit_json ?p"] have runf: "authoring_run True 8 ?f" by simp
  have comp: "readCompletion (permit_key ?p) ?f = Some ?p"
    using finished [OF tab none, of 8] stored_completion [OF run_tables [OF runf]] ok by blast
  have idle: "\<not> hasReservation ''operator-registry'' ?f" using finish_idle [OF tab, of ?p 8] held scope by simp
  have "beginMutation ?v (sample_operation ?d) ?d 9 ?f = (Inr (Admitted ?p), ?f)"
    by (rule begin_replays_completed [OF sample_request_of(1) op])
      (use idle comp in \<open>simp_all add: max_safe_def same_mutation_def sample_permit_def sample_operation_def\<close>)
  then have res: "reserveOperatorMutation sample_headers AGENT_REGISTRY_CLAIM JNull 9 ?f = (Inr (Inr ?p), ?f)"
    by (simp add: reserveOperatorMutation_def sample_headers_request sample_request_json op Let_def read_permit_json ok)
  from completed_permit_unprotected [OF runf res idle comp] res show ?thesis by blast
qed

end
