(* ===== verification/Registry_Claims.thy ===== *)
theory Registry_Claims imports Registry_Samples begin

text \<open>
  What the agent registry promises: its rows always verify, an intent is dispatched only to an agent whose
  admission is bound to what is stored, decisions are final, and a registration that nothing interrupts is a
  compare-and-swap on the content hash. The sample registrations show that one that is interrupted is not.
\<close>

section \<open>What a reachable registry holds\<close>

text \<open>The same proof text is the same proof.\<close>

lemma proof_text_eq:
  assumes "validInvocationProof p" "validInvocationProof q" "canonicalJson (proof_json p) = canonicalJson (proof_json q)"
  shows "p = q"
  using canonicalJson_eq [OF validInvocationProof_storable [OF assms(1)] validInvocationProof_storable [OF assms(2)] assms(3)]
    proof_of_canonical [OF assms(1)] proof_of_canonical [OF assms(2)] by metis

lemma stored_decision:
  assumes "registry_ok date_parse d" "storable intent"
    and prior: "select_key rt_intent_id k (rr_routes d) = Some prior"
    and same: "canonicalJson (parse_column (rt_decision_json prior)) = canonicalJson (decision_json (current_decision date_parse intent proof policy authority d))"
  shows "map_option canonicalValue (field (parse_column (rt_decision_json prior)) f)
    = map_option canonicalValue (field (decision_json (current_decision date_parse intent proof policy authority d)) f)"
proof -
  obtain v where v: "storable v" "rt_decision_json prior = canonicalJson v"
    using assms(1) select_key_Some [OF prior] by (auto simp: registry_ok_def)
  then have "storable (parse_column (rt_decision_json prior))" by (simp add: parse_column_canonicalJson storable_canonicalValue)
  moreover have "storable (decision_json (current_decision date_parse intent proof policy authority d))"
    unfolding current_decision_def by (rule storable_decision [OF assms(2)])
  ultimately show ?thesis using same by (rule canonicalJson_field)
qed

lemma canonical_text [simp]: "canonicalValue v = JStr s \<longleftrightarrow> v = JStr s"
  by (cases v) (simp_all add: canonicalValue_JObj)

lemma select_key_more: "select_key key k t = Some r \<Longrightarrow> select_key key k (t @ rest) = Some r"
  by (induction t) (auto simp: select_key_def split: if_splits)

lemma same_text: "map_option canonicalValue a = map_option canonicalValue b \<Longrightarrow> a = Some (JStr s) \<Longrightarrow> b = Some (JStr s)"
  by (cases b) (auto dest: sym)

lemma rejected_status: "field (registry_rejected code) ''status'' = None"
  by (simp add: registry_rejected_def)

text \<open>An answer that says dispatch is a dispatch of the router on the registry as it is.\<close>

lemma dispatched_now:
  assumes "registry_ok date_parse (fn_data s)" "storable intent"
    and "route date_parse intent proof policy routingAuthority createdAt s = (Inr answer, s')"
    and dispatch: "field answer ''status'' = Some (JStr ''dispatch'')" "field answer ''agentId'' = Some (JStr agent)"
  obtains d where "current_decision date_parse intent proof policy (Option.bind routingAuthority readPinnedRouteAuthority) (fn_data s) = Dispatch d"
    "dd_agentId d = agent" "validInvocationProof proof"
proof -
  let ?now = "current_decision date_parse intent proof policy (Option.bind routingAuthority readPinnedRouteAuthority) (fn_data s)"
  from assms(3) have "validInvocationProof proof \<and> map_option canonicalValue (field answer ''status'') = map_option canonicalValue (field (decision_json ?now) ''status'')
      \<and> map_option canonicalValue (field answer ''agentId'') = map_option canonicalValue (field (decision_json ?now) ''agentId'')"
  proof (cases rule: route_cases)
    case (rejected code)
    then show ?thesis using dispatch(1) rejected_status by simp
  next
    case (replayed prior)
    then show ?thesis using stored_decision [OF assms(1,2) replayed(1,4)] by blast
  next
    case (decided row)
    then show ?thesis by (simp only: sum.inject simp_thms)
  qed
  then have now: "validInvocationProof proof" "field (decision_json ?now) ''status'' = Some (JStr ''dispatch'')"
      "field (decision_json ?now) ''agentId'' = Some (JStr agent)"
    using same_text dispatch by blast+
  then show thesis using that by (cases ?now) auto
qed

text \<open>What is known of a listed record, and of one that is active.\<close>

lemma stored_record:
  assumes "registry_ok date_parse d" "r \<in> set (allStored date_parse d)"
  shows "readStored date_parse (rg_agentId r) d = Some r" "rg_admissionVerified r"
    "isAcosAdmissionReceiptBoundToInputs date_parse (Some (rg_admissionReceipt r)) (rg_admissionInputs r) None None"
    "field (rg_admissionReceipt r) ''agent_definition_id'' = Some (JStr (rg_agentId r))" "validInvocationProof (rg_invocationProof r)"
    "\<exists>names. isRecord (ai_toolAllowlistEntry (rg_admissionInputs r)) \<and> field (ai_toolAllowlistEntry (rg_admissionInputs r)) ''tool_names'' = Some (JArr names)
       \<and> JStr (rg_discoveryTool r) \<in> set names"
    "rg_registrationState r = Registered_active \<Longrightarrow> latest_event (rg_agentId r) (rr_events d) = Some (''registered'', rg_contentHash r)"
proof -
  obtain row where row: "row \<in> set (rr_agents d)" "r = verifyStoredAgent date_parse (readStoredAgent date_parse row)"
    using assms(2) unfolding stored_member by blast
  have rok: "row_ok date_parse (rr_events d) row" using assms(1) row(1) by (simp add: registry_ok_def)
  have "select_key ar_agent_id (ar_agent_id row) (rr_agents d) = Some row"
    using assms(1) row(1) select_key_unique [of ar_agent_id "rr_agents d" row] by (simp add: registry_ok_def)
  then show "readStored date_parse (rg_agentId r) d = Some r" by (simp add: readStored_eq row(2))
  have verified: "admission_verified date_parse (readStoredAgent date_parse row)" using rok by (simp add: row_ok_def)
  then show "rg_admissionVerified r" by (simp add: row(2))
  show "isAcosAdmissionReceiptBoundToInputs date_parse (Some (rg_admissionReceipt r)) (rg_admissionInputs r) None None"
    "field (rg_admissionReceipt r) ''agent_definition_id'' = Some (JStr (rg_agentId r))" "validInvocationProof (rg_invocationProof r)"
    using verified by (auto simp: admission_verified_def row(2))
  obtain c where c: "readCommerceProjection (projection_json (rg_commerceProjection r)) (rg_admissionInputs r) = Some c"
    using verified by (auto simp: admission_verified_def row(2))
  have "cp_discoveryTool c = rg_discoveryTool r"
    using c verified by (auto simp: row(2) admission_verified_def readCommerceProjection_def Let_def projection_json_def text_of_def
        split: option.splits if_splits)
  with projection_fields(6) [OF c] show "\<exists>names. isRecord (ai_toolAllowlistEntry (rg_admissionInputs r))
      \<and> field (ai_toolAllowlistEntry (rg_admissionInputs r)) ''tool_names'' = Some (JArr names) \<and> JStr (rg_discoveryTool r) \<in> set names" by simp
  show "rg_registrationState r = Registered_active \<Longrightarrow> latest_event (rg_agentId r) (rr_events d) = Some (''registered'', rg_contentHash r)"
    using rok by (auto simp: row_ok_def row(2) split: registration_state.splits)
qed

section \<open>Claims\<close>

text \<open>
  C23. Whatever is registered, deregistered and routed, and however the calls interleave: the registry
  lists every agent once, every listed record still verifies when it is read back, an active one is the
  one that its last event registered, and the events are numbered without a gap.
\<close>

theorem registry_rows_verified:
  assumes "registry_reachable date_parse w"
  shows "distinct (map rg_agentId (allStored date_parse (fn_data (rw_store w))))
    \<and> list_all rg_admissionVerified (allStored date_parse (fn_data (rw_store w)))
    \<and> list_all (\<lambda>r. case rg_registrationState r of
           Registered_active \<Rightarrow> latest_event (rg_agentId r) (rr_events (fn_data (rw_store w))) = Some (''registered'', rg_contentHash r)
         | Registered_inactive \<Rightarrow> map_option fst (latest_event (rg_agentId r) (rr_events (fn_data (rw_store w)))) = Some ''deregistered'')
       (allStored date_parse (fn_data (rw_store w)))
    \<and> map re_event_id (rr_events (fn_data (rw_store w))) = [1..<Suc (eventRevision (fn_data (rw_store w)))]"
proof -
  note ok = reachable_ok [OF assms, unfolded registry_ok_def]
  let ?d = "fn_data (rw_store w)"
  have row: "admission_verified date_parse (readStoredAgent date_parse row)"
      "case ar_registration_state row of
         Registered_active \<Rightarrow> latest_event (ar_agent_id row) (rr_events ?d) = Some (''registered'', ar_content_hash row)
       | Registered_inactive \<Rightarrow> map_option fst (latest_event (ar_agent_id row) (rr_events ?d)) = Some ''deregistered''"
    if "row \<in> set (rr_agents ?d)" for row
  proof -
    have "row_ok date_parse (rr_events ?d) row" using ok that by blast
    then show "admission_verified date_parse (readStoredAgent date_parse row)" by (simp add: row_ok_def)
    show "case ar_registration_state row of
         Registered_active \<Rightarrow> latest_event (ar_agent_id row) (rr_events ?d) = Some (''registered'', ar_content_hash row)
       | Registered_inactive \<Rightarrow> map_option fst (latest_event (ar_agent_id row) (rr_events ?d)) = Some ''deregistered''"
      using \<open>row_ok date_parse (rr_events ?d) row\<close> by (cases "ar_registration_state row") (auto simp: row_ok_def)
  qed
  have "list_all rg_admissionVerified (allStored date_parse ?d)"
    using row(1) by (auto simp: list_all_iff stored_member)
  moreover have "list_all (\<lambda>r. case rg_registrationState r of
           Registered_active \<Rightarrow> latest_event (rg_agentId r) (rr_events ?d) = Some (''registered'', rg_contentHash r)
         | Registered_inactive \<Rightarrow> map_option fst (latest_event (rg_agentId r) (rr_events ?d)) = Some ''deregistered'')
       (allStored date_parse ?d)"
    unfolding list_all_iff
  proof
    fix r assume "r \<in> set (allStored date_parse ?d)"
    then obtain row where "row \<in> set (rr_agents ?d)" "r = verifyStoredAgent date_parse (readStoredAgent date_parse row)"
      unfolding stored_member by blast
    then show "case rg_registrationState r of
           Registered_active \<Rightarrow> latest_event (rg_agentId r) (rr_events ?d) = Some (''registered'', rg_contentHash r)
         | Registered_inactive \<Rightarrow> map_option fst (latest_event (rg_agentId r) (rr_events ?d)) = Some ''deregistered''"
      using row(2) [of row] by (cases "ar_registration_state row") simp_all
  qed
  moreover have "distinct (map rg_agentId (allStored date_parse ?d))" using ok by (simp add: stored_ids distinct_sort_by)
  moreover have "map re_event_id (rr_events ?d) = [1..<Suc (eventRevision ?d)]" using ok by (simp add: eventRevision_def)
  ultimately show ?thesis by blast
qed

text \<open>
  C9. An intent is dispatched only to an admitted agent: when the registry answers with a dispatch, also
  with one that it recorded earlier, the agent is active now by its last event, its receipt is for this agent and
  bound to the stored inputs, its proof is the expected one with the receipt's tokens, its category is
  the intent's, and its tool is on the allowlist that was admitted.
\<close>

theorem registry_dispatch_authorised:
  assumes "registry_reachable date_parse w" "storable intent"
    and "fst (route date_parse intent proof policy routingAuthority createdAt (rw_store w)) = Inr answer"
    and "field answer ''status'' = Some (JStr ''dispatch'')" "field answer ''agentId'' = Some (JStr agent)"
  shows "\<exists>r i names. readStored date_parse agent (fn_data (rw_store w)) = Some r \<and> rg_registrationState r = Registered_active
    \<and> latest_event agent (rr_events (fn_data (rw_store w))) = Some (''registered'', rg_contentHash r)
    \<and> isAcosAdmissionReceiptBoundToInputs date_parse (Some (rg_admissionReceipt r)) (rg_admissionInputs r) None None
    \<and> field (rg_admissionReceipt r) ''agent_definition_id'' = Some (JStr agent)
    \<and> rg_invocationProof r = proof
    \<and> tokens_aligned (ip_requiredTokens proof) (field (rg_admissionReceipt r) ''invocation_register_tokens'')
    \<and> readRoutingIntent intent = Some i \<and> rg_category r = ri_category i
    \<and> field (ai_toolAllowlistEntry (rg_admissionInputs r)) ''tool_names'' = Some (JArr names) \<and> JStr (rg_discoveryTool r) \<in> set names"
proof -
  let ?d = "fn_data (rw_store w)"
  note ok = reachable_ok [OF assms(1)]
  obtain s' where "route date_parse intent proof policy routingAuthority createdAt (rw_store w) = (Inr answer, s')"
    using assms(3) by (metis prod.collapse)
  then obtain d where d: "current_decision date_parse intent proof policy (Option.bind routingAuthority readPinnedRouteAuthority) ?d = Dispatch d"
    "dd_agentId d = agent" "validInvocationProof proof"
    by (rule dispatched_now [OF ok assms(2) _ assms(4,5)])
  note sound = dispatch_sound [OF d(1) [unfolded current_decision_def]]
  then obtain a where "a \<in> set (map (routed_agent proof) (allStored date_parse ?d))" "ra_agentId a = agent"
      "serves (ri_category (dd_intent d)) a"
    unfolding d(2) by blast
  then obtain r where r: "r \<in> set (allStored date_parse ?d)" "rg_agentId r = agent" "rg_registrationState r = Registered_active"
      "invocationAligned r proof" "rg_category r = ri_category (dd_intent d)"
    by (auto simp: routed_agent_def serves_def)
  note facts = stored_record [OF ok r(1), unfolded r(2)]
  have "rg_invocationProof r = proof" "tokens_aligned (ip_requiredTokens proof) (field (rg_admissionReceipt r) ''invocation_register_tokens'')"
    using r(4) proof_text_eq [OF facts(5) d(3)] by (auto simp: invocationAligned_def)
  then show ?thesis using r facts sound by blast
qed

text \<open>
  A decision is final: once the registry has decided an intent, every later answer for its id is a
  rejection or says exactly what the first one said, whatever was registered and deregistered since.
\<close>

theorem route_decision_final:
  assumes "registry_reachable date_parse w" "storable intent"
    and "route date_parse intent proof policy routingAuthority createdAt (rw_store w) = (Inr answer, s)"
    and "field answer ''status'' \<noteq> None"
    and "registry_steps date_parse (w\<lparr>rw_store := s\<rparr>) w'" "text_of intent' ''intentId'' = text_of intent ''intentId''"
  shows "\<exists>later. fst (route date_parse intent' proof' policy' routingAuthority' createdAt' (rw_store w')) = Inr later
    \<and> ((\<exists>code. later = registry_rejected code) \<or> canonicalJson later = canonicalJson answer)"
proof -
  let ?k = "text_of intent ''intentId''"
  note ok = reachable_ok [OF assms(1)]
  from assms(3) obtain row v where row: "select_key rt_intent_id ?k (rr_routes (fn_data s)) = Some row"
      "rt_decision_json row = canonicalJson v" "storable v" "canonicalJson v = canonicalJson answer"
  proof (cases rule: route_cases)
    case (rejected code)
    then show thesis using assms(4) rejected_status by simp
  next
    case (replayed prior)
    obtain v where v: "storable v" "rt_decision_json prior = canonicalJson v"
      using ok select_key_Some [OF replayed(1)] by (auto simp: registry_ok_def)
    then show thesis using replayed(1,2,3) that by (simp add: parse_column_canonicalJson)
  next
    case (decided row)
    have answer: "answer = decision_json (current_decision date_parse intent proof policy
        (Option.bind routingAuthority readPinnedRouteAuthority) (fn_data (rw_store w)))"
      using decided(2) by (simp only: sum.inject)
    have "storable answer" unfolding answer current_decision_def by (rule storable_decision [OF assms(2)])
    moreover have "select_key rt_intent_id ?k (rr_routes (fn_data s)) = Some row"
      using decided(1,3) by (simp add: decided(5) select_key_append)
    ultimately show thesis by (intro that [of row answer] decided(4) [folded answer]) simp_all
  qed
  obtain more where "rr_routes (fn_data (rw_store w')) = rr_routes (fn_data s) @ more"
    using steps_routes [OF assms(5)] by auto
  then have row': "select_key rt_intent_id ?k (rr_routes (fn_data (rw_store w'))) = Some row"
    using select_key_more [OF row(1)] by simp
  obtain answer' s' where r: "route date_parse intent' proof' policy' routingAuthority' createdAt' (rw_store w') = (answer', s')" by fastforce
  then have "\<exists>later. answer' = Inr later \<and> ((\<exists>code. later = registry_rejected code) \<or> canonicalJson later = canonicalJson answer)"
  proof (cases rule: route_cases)
    case (replayed prior)
    then have "prior = row" using row' assms(6) by simp
    then have "canonicalJson (parse_column (rt_decision_json prior)) = canonicalJson v"
      using row(3) by (simp add: row(2) parse_column_canonicalJson)
    then show ?thesis using replayed(3) row(4) by simp
  qed (use row' assms(6) in auto)
  then show ?thesis using r by simp
qed

text \<open>
  C35. A registration that nothing interrupts is a compare-and-swap: whatever it answers, either the
  registry is as it was, or the content hash stored before is the one the operator expected, the
  agent is now stored under the new hash, active and verified, every other agent is as it was, and
  exactly one event was added.
\<close>

theorem register_compare_and_swap:
  assumes "storable_registration date_parse i receipt projection"
    and "register date_parse i receipt permit updatedAt createdAt nowMs s = (reply, s')"
  shows "fn_data s' = fn_data s
    \<or> (map_option rg_contentHash (readStored date_parse (text_of receipt ''agent_definition_id'') (fn_data s)) = in_expectedPreviousContentHash i
       \<and> (\<exists>r. readStored date_parse (text_of receipt ''agent_definition_id'') (fn_data s') = Some r
            \<and> rg_contentHash r = registrationContentHash (in_admissionInputs i) receipt (in_invocationProof i) projection
            \<and> rg_registrationState r = Registered_active \<and> rg_admissionVerified r)
       \<and> (\<forall>other. other = text_of receipt ''agent_definition_id'' \<or> readStored date_parse other (fn_data s') = readStored date_parse other (fn_data s))
       \<and> eventRevision (fn_data s') = Suc (eventRevision (fn_data s)))"
proof -
  let ?a = "text_of receipt ''agent_definition_id''"
  have "checkRegistration date_parse i receipt = Inr projection" using assms(1) by (simp add: storable_registration_def)
  then have "commitRegistration i receipt projection (readStored date_parse ?a (fn_data s)) permit updatedAt createdAt nowMs s = (reply, s')"
    using assms(2) by (simp add: register_def)
  then show ?thesis
  proof (cases rule: commitRegistration_cases)
    case written
    have "readStored date_parse ?a (fn_data s') = Some (verifyStoredAgent date_parse (stored_registration i receipt projection updatedAt))"
      by (simp add: written(1) readStored_def sql read_registered_row [OF assms(1)])
    moreover have "readStored date_parse other (fn_data s') = readStored date_parse other (fn_data s)" if "other \<noteq> ?a" for other
      using that by (simp add: written(1) readStored_def sql)
    moreover have "eventRevision (fn_data s') = Suc (eventRevision (fn_data s))" by (simp add: written(1)) (simp add: eventRevision_def)
    ultimately show ?thesis
      using written(3) registration_verified [OF assms(1)] by (auto simp: stored_registration_def content_hash_def)
  qed simp
qed

text \<open>
  A registration can be repeated: while the registration of an agent is stored and active, its
  inputs, proof and projection are accepted again whatever previous hash is expected, also with another receipt
  of the runtime; the preflight passes, and the mutation answers with the stored record and writes nothing.
\<close>

theorem registration_repeatable:
  assumes "storable_registration date_parse i receipt projection"
    and "select_key ar_agent_id (text_of receipt ''agent_definition_id'') (rr_agents (fn_data s)) = Some (registered_row i receipt projection updatedAt)"
    and "storable_registration date_parse (i\<lparr>in_expectedPreviousContentHash := h\<rparr>) receipt' projection"
    and "validAgentId (text_of receipt ''agent_definition_id'')"
  shows "preflightRegistration date_parse (i\<lparr>in_expectedPreviousContentHash := h\<rparr>) s = JObj [(''ok'', JBool True)]
    \<and> (\<exists>r. rg_contentHash r = content_hash i receipt projection \<and> rg_admissionVerified r
         \<and> registration_mutation (i\<lparr>in_expectedPreviousContentHash := h\<rparr>) receipt' projection
             (readStored date_parse (text_of receipt' ''agent_definition_id'') (fn_data s)) updatedAt' createdAt (fn_data s)
           = Inr (registrationResult r True, fn_data s))"
proof -
  let ?a = "text_of receipt ''agent_definition_id''" and ?i = "i\<lparr>in_expectedPreviousContentHash := h\<rparr>"
  let ?r = "verifyStoredAgent date_parse (stored_registration i receipt projection updatedAt)"
  note s = storable_registrationD [OF assms(1)] and s' = storable_registrationD [OF assms(3)]
  have id: "field (ai_agentDefinition (in_admissionInputs i)) ''id'' = Some (JStr ?a)" using receipt_agent(2) [OF s(2)] .
  then have same_agent: "text_of receipt' ''agent_definition_id'' = ?a" using receipt_agent(2) [OF s'(2)] by simp
  have rec: "isRecord (ai_agentDefinition (in_admissionInputs i))" using s(2) by (rule bound_receipt_fields)
  have stored: "readStored date_parse ?a (fn_data s) = Some ?r"
    using assms(2) by (simp add: readStored_def read_registered_row [OF assms(1)])
  have same: "sameRegistration ?r (input_hash i) (in_invocationProof i) projection"
    using registration_verified [OF assms(1)] by (simp add: sameRegistration_def) (simp add: stored_registration_def)
  have hash: "input_hash ?i = input_hash i" by (simp add: input_hash_def)
  have "preflightRegistration date_parse ?i s = JObj [(''ok'', JBool True)]"
    using s'(1,3) id rec assms(4) stored same by (simp add: preflightRegistration_def input_hash_def [symmetric] hash)
  moreover have "registration_mutation ?i receipt' projection (readStored date_parse (text_of receipt' ''agent_definition_id'') (fn_data s))
      updatedAt' createdAt (fn_data s) = Inr (registrationResult ?r True, fn_data s)"
    unfolding same_agent stored using same by (simp add: registration_mutation_def hash)
  moreover have "rg_contentHash ?r = content_hash i receipt projection" "rg_admissionVerified ?r"
    using registration_verified [OF assms(1)] by (simp_all add: stored_registration_def [of i receipt])
  ultimately show ?thesis by blast
qed

text \<open>
  C39. Two registrations that both read the registry before either wrote are both written: a registration compares
  the expected hash with the record that it read before the transaction, so in a history where two calls found
  the agent absent the second one is written over the first, although the same call would be rejected when
  asked anew, and the first answer no longer describes what is stored. Only the coordinator's exclusive
  reservation keeps such calls from overlapping.
\<close>

theorem registration_lost_update:
  "\<exists>w i receipt projection permit s. registry_reachable sample_dates w
    \<and> Registering i receipt projection None ''t'' \<in> set (rw_pending w) \<and> in_expectedPreviousContentHash i = None
    \<and> readStored sample_dates (text_of receipt ''agent_definition_id'') (fn_data (rw_store w)) \<noteq> None
    \<and> fst (register sample_dates i receipt permit ''t'' ''t'' 10 (rw_store w)) = Inr (Reply (registry_rejected ''registration_precondition_failed''))
    \<and> advance (Registering i receipt projection None ''t'') permit ''t'' 10 (rw_store w)
        = (Inr (Inr (Reply (registrationResult (registered_record i receipt projection ''t'') False))), s)
    \<and> map ar_content_hash (rr_agents (fn_data s)) = [content_hash i receipt projection]"
proof -
  let ?i = "sample_registration (CHR ''b'')" and ?p = "permit_json (registry_permit 3 (sample_registration (CHR ''b'')))"
  have "checkRegistration sample_dates ?i sample_receipt = Inr sample_commerce"
    using sample_storable [of "CHR ''b''"] by (simp add: storable_registration_def sample_hex_def)
  moreover have "registration_mutation ?i sample_receipt sample_commerce (Some sample_record) ''t'' ''t'' (fn_data sample_first)
      = Inr (registry_rejected ''registration_precondition_failed'', fn_data sample_first)"
  proof -
    have "sample_proof (CHR ''a'') \<noteq> sample_proof (CHR ''b'')" by code_simp
    then have "canonicalJson (proof_json (sample_proof (CHR ''a''))) \<noteq> canonicalJson (proof_json (sample_proof (CHR ''b'')))"
      using proof_text_eq sample_parts(1) by (auto simp: sample_hex_def)
    then have "\<not> sameRegistration sample_record h (in_invocationProof ?i) sample_commerce" for h
      by (simp add: sameRegistration_def sample_stored) (simp add: sample_registration_def)
    moreover have "in_expectedPreviousContentHash ?i = None" by (simp add: sample_registration_def)
    ultimately show ?thesis by (simp add: registration_mutation_def)
  qed
  then have "commitRegistration ?i sample_receipt sample_commerce (Some sample_record) ?p ''t'' ''t'' 10 sample_first
      = (Inr (Reply (registry_rejected ''registration_precondition_failed'')), record_mutation (registry_permit 3 ?i)
          (registry_rejected ''registration_precondition_failed'') (fn_data sample_first) sample_first)"
    by (intro commit_fresh) (simp_all add: sample_fresh)
  ultimately have "fst (register sample_dates ?i sample_receipt ?p ''t'' ''t'' 10 sample_first)
      = Inr (Reply (registry_rejected ''registration_precondition_failed''))"
    by (simp add: register_def sample_stored)
  moreover have "advance (Registering ?i sample_receipt sample_commerce None ''t'') ?p ''t'' 10 sample_first
      = (Inr (Inr (Reply (sample_reply (CHR ''b'')))), sample_both)"
    by (simp add: sample_second_call)
  moreover have "map ar_content_hash (rr_agents (fn_data sample_both)) = [sample_hash (CHR ''b'')]" by (simp add: sample_rows)
  moreover have "Registering ?i sample_receipt sample_commerce None ''t'' \<in> set (rw_pending sample_world)" "rw_store sample_world = sample_first"
    by (simp_all add: sample_world_def sample_call_def)
  moreover have "readStored sample_dates (text_of sample_receipt ''agent_definition_id'') (fn_data sample_first) \<noteq> None"
    by (simp add: sample_stored)
  moreover have "in_expectedPreviousContentHash ?i = None" by (simp add: sample_registration_def)
  ultimately show ?thesis using sample_reachable by metis
qed

section \<open>Witnesses\<close>

theorem registry_rows_verified_witness:
  "rr_agents (fn_data (rw_store sample_world)) \<noteq> [] \<and> list_all rg_admissionVerified (allStored sample_dates (fn_data (rw_store sample_world)))"
  using registry_rows_verified [OF sample_reachable] by (simp add: sample_world_def sample_rows)

theorem register_compare_and_swap_witness:
  "eventRevision (fn_data sample_first) = Suc (eventRevision (fn_data empty_registry))"
proof -
  have st: "storable_registration sample_dates (sample_registration (CHR ''a'')) sample_receipt sample_commerce"
    by (rule sample_storable) (simp add: sample_hex_def)
  have "readStored sample_dates ''agent-1'' (fn_data empty_registry) = None"
    by (simp add: readStored_def empty_registry_def select_key_def)
  then have "register sample_dates (sample_registration (CHR ''a'')) sample_receipt
      (permit_json (registry_permit 2 (sample_registration (CHR ''a'')))) ''t'' ''t'' 10 empty_registry
      = (Inr (Reply (sample_reply (CHR ''a''))), sample_first)"
    using st by (simp add: register_def storable_registration_def sample_first_call)
  from register_compare_and_swap [OF st this] sample_rows(1) show ?thesis by (auto simp: empty_registry_def)
qed

theorem registration_repeatable_witness:
  "preflightRegistration sample_dates (sample_registration (CHR ''a'')\<lparr>in_expectedPreviousContentHash := None\<rparr>) sample_first
     = JObj [(''ok'', JBool True)]"
proof -
  have st: "storable_registration sample_dates (sample_registration (CHR ''a'')) sample_receipt sample_commerce"
    by (rule sample_storable) (simp add: sample_hex_def)
  have same: "sample_registration (CHR ''a'')\<lparr>in_expectedPreviousContentHash := None\<rparr> = sample_registration (CHR ''a'')"
    by (simp add: sample_registration_def)
  have "validAgentId (text_of sample_receipt ''agent_definition_id'')" by simp code_simp
  moreover have "select_key ar_agent_id (text_of sample_receipt ''agent_definition_id'') (rr_agents (fn_data sample_first)) = Some (sample_row (CHR ''a''))"
    by (simp add: sample_rows select_key_def)
  ultimately show ?thesis
    using registration_repeatable [OF st, of sample_first "''t''" None sample_receipt] st unfolding same by blast
qed

lemma sample_routed:
  assumes i: "readRoutingIntent v = Some i" "ri_category i = ''coffee''"
  shows "\<exists>d. current_decision sample_dates v (sample_proof (CHR ''a'')) DEFAULT_SELECTION_POLICY None (fn_data sample_first) = Dispatch d"
  "\<exists>answer s. route sample_dates v (sample_proof (CHR ''a'')) DEFAULT_SELECTION_POLICY None ''t'' sample_first = (Inr answer, s)
     \<and> field answer ''status'' = Some (JStr ''dispatch'') \<and> (\<exists>agent. field answer ''agentId'' = Some (JStr agent))"
proof -
  have st: "storable_registration sample_dates (sample_registration (CHR ''a'')) sample_receipt sample_commerce"
    by (rule sample_storable) (simp add: sample_hex_def)
  have "invocationAligned sample_record (sample_proof (CHR ''a''))"
  proof -
    have "field (canonicalValue sample_receipt) ''invocation_register_tokens'' = Some (JArr (map JStr [''/search'', ''#search'', ''@search'', ''search'']))"
      unfolding field_canonicalValue [OF bound_receipt_storable [OF storable_registrationD(2) [OF st]]]
      by (simp add: sample_admission_receipt_def)
    then have "tokens_aligned (ip_requiredTokens (sample_proof (CHR ''a''))) (field (rg_admissionReceipt sample_record) ''invocation_register_tokens'')"
      by (simp add: sample_record_def) (simp add: stored_registration_def tokens_aligned_def sample_proof_def)
    then show ?thesis by (simp add: invocationAligned_def sample_stored)
  qed
  then have agent: "routed_agent (sample_proof (CHR ''a'')) sample_record = sample_agent ''agent-1'' None"
    by (simp add: routed_agent_def sample_agent_def sample_stored)
      (simp add: sample_record_def stored_registration_def sample_commerce_def)
  let ?cs = "eligible_agents [sample_agent ''agent-1'' None] ''coffee''"
  have cs: "?cs = [sample_agent ''agent-1'' None]" "findRegistryConflict [sample_agent ''agent-1'' None] = None" by code_simp+
  have "list_all (\<lambda>r. validCandidate (ra_agentId r, ra_declaredAttributes r)) ?cs" "distinct (map ra_agentId ?cs)" "?cs \<noteq> []"
    unfolding cs by code_simp+
  then have "\<exists>d. decide_route i ?cs DEFAULT_SELECTION_POLICY None = Dispatch d"
    using decide_dispatches [OF default_policy(1)] by blast
  then show "\<exists>d. current_decision sample_dates v (sample_proof (CHR ''a'')) DEFAULT_SELECTION_POLICY None (fn_data sample_first) = Dispatch d"
    using i cs by (simp add: current_decision_def sample_stored agent routeIntentExclusively_def Let_def)
  then obtain d where d: "current_decision sample_dates v (sample_proof (CHR ''a'')) DEFAULT_SELECTION_POLICY None (fn_data sample_first) = Dispatch d"
    by blast
  have "recorded_answer v None x (fn_data sample_first) = None" "record_decision v None x ''t'' (fn_data sample_first) \<noteq> Inl e" for x e
    by (simp_all add: recorded_answer_def record_decision_def sample_rows select_key_def has_key_def)
  moreover from this obtain d' where "record_decision v None (decision_json (Dispatch d)) ''t'' (fn_data sample_first) = Inr d'"
    by (metis obj_sumE)
  ultimately have "route sample_dates v (sample_proof (CHR ''a'')) DEFAULT_SELECTION_POLICY None ''t'' sample_first
      = (Inr (decision_json (Dispatch d)), sample_first\<lparr>fn_data := d'\<rparr>)"
    using sample_parts(1) [of "CHR ''a''"] default_policy(1)
    by (auto simp add: route_def Let_def d sample_hex_def simp del: decision_json.simps)
  then show "\<exists>answer s. route sample_dates v (sample_proof (CHR ''a'')) DEFAULT_SELECTION_POLICY None ''t'' sample_first = (Inr answer, s)
     \<and> field answer ''status'' = Some (JStr ''dispatch'') \<and> (\<exists>agent. field answer ''agentId'' = Some (JStr agent))"
    by simp
qed

lemma sample_intent_storable: "storable sample_intent"
  by (simp add: sample_intent_def storable_JObj)

theorem registry_dispatch_authorised_witness:
  "\<exists>agent r. readStored sample_dates agent (fn_data sample_first) = Some r \<and> rg_registrationState r = Registered_active
     \<and> rg_invocationProof r = sample_proof (CHR ''a'')"
proof -
  obtain answer s agent where "route sample_dates sample_intent (sample_proof (CHR ''a'')) DEFAULT_SELECTION_POLICY None ''t'' sample_first = (Inr answer, s)"
    "field answer ''status'' = Some (JStr ''dispatch'')" "field answer ''agentId'' = Some (JStr agent)" using sample_intent_read sample_routed(2) [of sample_intent] by auto
  then show ?thesis
    using registry_dispatch_authorised [OF sample_reachable sample_intent_storable, of "sample_proof (CHR ''a'')" DEFAULT_SELECTION_POLICY None "''t''" answer agent]
    by (auto simp: sample_world_def)
qed

theorem route_decision_final_witness:
  "\<exists>answer s later. route sample_dates sample_intent (sample_proof (CHR ''a'')) DEFAULT_SELECTION_POLICY None ''t'' sample_first = (Inr answer, s)
     \<and> fst (route sample_dates sample_intent (sample_proof (CHR ''b'')) DEFAULT_SELECTION_POLICY None ''t2'' s) = Inr later
     \<and> ((\<exists>code. later = registry_rejected code) \<or> canonicalJson later = canonicalJson answer)"
proof -
  obtain answer s where r: "route sample_dates sample_intent (sample_proof (CHR ''a'')) DEFAULT_SELECTION_POLICY None ''t'' sample_first = (Inr answer, s)"
    "field answer ''status'' = Some (JStr ''dispatch'')" using sample_intent_read sample_routed(2) [of sample_intent] by auto
  have "\<exists>later. fst (route sample_dates sample_intent (sample_proof (CHR ''b'')) DEFAULT_SELECTION_POLICY None ''t2'' s) = Inr later
     \<and> ((\<exists>code. later = registry_rejected code) \<or> canonicalJson later = canonicalJson answer)"
    using route_decision_final [OF sample_reachable sample_intent_storable, of "sample_proof (CHR ''a'')" DEFAULT_SELECTION_POLICY None "''t''" answer s
      "sample_world\<lparr>rw_store := s\<rparr>" sample_intent "sample_proof (CHR ''b'')" DEFAULT_SELECTION_POLICY None "''t2''"] r
    by (simp add: sample_world_def steps_refl)
  with r(1) show ?thesis by blast
qed

end
