(* ===== verification/Core_Routing.thy ===== *)
theory Core_Routing imports Public_Catalog Intent_Route Registry_Claims begin

text \<open>
  \<open>src/src/core/merchant-catalog.ts\<close> and \<open>routeIntent\<close> of \<open>src/src/core/core-actions.ts\<close>: which agent an
  intent is sent to, when it names a merchant's listing or none. The theme store, the configured proof and
  the selection policy are arguments: what they gave, or none when they gave nothing. The handler calls the
  registry up to three times, and other calls may be served in between.
\<close>

section \<open>Merchant listings\<close>

record merchant_listing =
  ml_listingId :: string
  ml_owningAgentId :: string
  ml_category :: string
  ml_capabilities :: "string list"

definition projectMerchantCatalog :: "merchant_listing list \<Rightarrow> string list \<Rightarrow> merchant_listing list" where
  "projectMerchantCatalog listings catalogScope = filter (\<lambda>l. ml_owningAgentId l \<in> set catalogScope) listings"

definition readListing :: "merchant_listing list \<Rightarrow> string list \<Rightarrow> string \<Rightarrow> merchant_listing option" where
  "readListing listings catalogScope listingId =
     List.find (\<lambda>l. ml_listingId l = listingId \<and> ml_owningAgentId l \<in> set catalogScope) listings"

definition registry_catalog :: "date_parser \<Rightarrow> registry_object \<Rightarrow> public_catalog" where
  "registry_catalog date_parse s = (case registry_list date_parse s of (revision, digest, agents) \<Rightarrow>
     projectPublicCatalog (int revision) digest (map source_of agents))"

definition activeMerchantListings :: "date_parser \<Rightarrow> registry_object \<Rightarrow> merchant_listing list" where
  "activeMerchantListings date_parse s = map (\<lambda>agent. \<lparr>ml_listingId = pe_agentId agent, ml_owningAgentId = pe_agentId agent,
     ml_category = pe_declaredCategory agent, ml_capabilities = pe_declaredCapabilities agent\<rparr>) (pc_agents (registry_catalog date_parse s))"

text \<open>An activated theme: its manifest digest and its catalog scope.\<close>

type_synonym theme_store = "string \<Rightarrow> (string \<times> string list) option"

datatype merchant_answer =
    Merchant_rejected string nat
  | Merchant_listing merchant_listing
  | Merchant_listings string string "merchant_listing list" \<comment> \<open>merchant, manifest digest\<close>

definition IDENTIFIER_PATTERN :: "string \<Rightarrow> bool" where
  "IDENTIFIER_PATTERN = id_pattern 127"

definition merchantCatalog :: "date_parser \<Rightarrow> theme_store \<Rightarrow> string \<Rightarrow> string option \<Rightarrow> registry_object \<Rightarrow> merchant_answer" where
  "merchantCatalog date_parse themes merchantId listingId s =
     (if \<not> IDENTIFIER_PATTERN merchantId then Merchant_rejected ''merchant_id_malformed'' 400
      else case themes merchantId of
        None \<Rightarrow> Merchant_rejected ''theme_deployment_not_found'' 404
      | Some (manifestDigest, scope) \<Rightarrow>
          let projected = projectMerchantCatalog (activeMerchantListings date_parse s) scope
          in (case listingId of
                Some k \<Rightarrow> (case readListing projected scope k of
                    Some listing \<Rightarrow> Merchant_listing listing | None \<Rightarrow> Merchant_rejected ''listing_not_found'' 404)
              | None \<Rightarrow> Merchant_listings merchantId manifestDigest projected))"

section \<open>The agent behind a listing\<close>

definition eligibleRouteAgent :: "registry_record list \<Rightarrow> string \<Rightarrow> string \<Rightarrow> invocation_proof \<Rightarrow> registry_record option" where
  "eligibleRouteAgent agents agentId category invocationProof =
     List.find (\<lambda>r. rg_agentId r = agentId \<and> rg_category r = category \<and> rg_registrationState r = Registered_active
       \<and> rg_admissionVerified r \<and> invocationAligned r invocationProof) agents"

definition resolveEligibleMerchantFallback ::
  "registry_record list \<Rightarrow> string \<Rightarrow> string \<Rightarrow> string list \<Rightarrow> invocation_proof \<Rightarrow> registry_record option" where
  "resolveEligibleMerchantFallback agents ownerAgentId category resolvedCatalogScope invocationProof =
     (if ownerAgentId \<notin> set resolvedCatalogScope then None
      else case Option.bind (eligibleRouteAgent agents ownerAgentId category invocationProof) rg_fallbackAgentId of
        None \<Rightarrow> None
      | Some k \<Rightarrow> if k = '''' \<or> k = ownerAgentId \<or> k \<notin> set resolvedCatalogScope then None
          else eligibleRouteAgent agents k category invocationProof)"

datatype merchant_target = Any_agent | Owner string "string option" | Target_rejected string nat

definition resolveMerchantRouteTarget ::
  "date_parser \<Rightarrow> theme_store \<Rightarrow> routing_intent \<Rightarrow> invocation_proof \<Rightarrow> registry_object \<Rightarrow> merchant_target" where
  "resolveMerchantRouteTarget date_parse themes intent invocationProof s =
     (case ri_merchant intent of
        None \<Rightarrow> Any_agent
      | Some (merchantId, listingId) \<Rightarrow>
          (case themes merchantId of
             None \<Rightarrow> Target_rejected ''theme_deployment_not_found'' 404
           | Some (_, scope) \<Rightarrow>
               (case readListing (activeMerchantListings date_parse s) scope listingId of
                  None \<Rightarrow> Target_rejected ''listing_not_found'' 404
                | Some listing \<Rightarrow>
                    if ml_category listing \<noteq> ri_category intent then Target_rejected ''merchant_listing_category_mismatch'' 409
                    else Owner (ml_owningAgentId listing)
                      (map_option rg_agentId (resolveEligibleMerchantFallback (allStored date_parse (fn_data s))
                        (ml_owningAgentId listing) (ri_category intent) scope invocationProof)))))"

section \<open>Routing an intent\<close>

datatype route_action =
    Route_threw
  | Route_refused json
  | Route_rejected string nat
  | Route_undecided json
  | Route_dispatches dispatch_input

text \<open>The fallback that a decision names: none, one, or something else.\<close>

definition decision_fallback :: "json \<Rightarrow> string option option" where
  "decision_fallback decision = (case field decision ''fallbackAgentId'' of
     Some JNull \<Rightarrow> Some None | Some (JStr f) \<Rightarrow> Some (Some f) | _ \<Rightarrow> None)"

definition target_authority :: "merchant_target \<Rightarrow> pinned_authority option" where
  "target_authority target = (case target of
     Owner agentId fallbackAgentId \<Rightarrow> Some \<lparr>pa_pinnedAgentId = agentId, pa_fallbackAgentId = fallbackAgentId\<rparr> | _ \<Rightarrow> None)"

text \<open>What is done with the registry's decision, on the list of agents that is read after it.\<close>

definition routed_decision :: "routing_intent \<Rightarrow> invocation_proof \<Rightarrow> merchant_target \<Rightarrow> json \<Rightarrow> registry_record list \<Rightarrow> route_action" where
  "routed_decision intent invocationProof target decision agents =
     (case (field decision ''agentId'', decision_fallback decision) of
        (Some (JStr agentId), Some fallbackAgentId) \<Rightarrow>
          if \<not> isRecord decision \<or> field decision ''status'' \<noteq> Some (JStr ''dispatch'') then Route_undecided decision
          else if (case target of Owner owner f \<Rightarrow> agentId \<noteq> owner \<or> fallbackAgentId \<noteq> f | _ \<Rightarrow> False)
          then Route_rejected ''registry_route_drift'' 503
          else (case eligibleRouteAgent agents agentId (ri_category intent) invocationProof of
              None \<Rightarrow> Route_rejected ''registry_route_drift'' 503
            | Some agent \<Rightarrow>
                (case fallbackAgentId of
                   None \<Rightarrow> Route_dispatches \<lparr>di_intent = intent, di_agent = record_json agent, di_fallbackAgent = None\<rparr>
                 | Some f \<Rightarrow>
                     (case eligibleRouteAgent agents f (ri_category intent) invocationProof of
                        None \<Rightarrow> Route_rejected ''registry_route_drift'' 503
                      | Some fallback \<Rightarrow> Route_dispatches
                          \<lparr>di_intent = intent, di_agent = record_json agent, di_fallbackAgent = Some (record_json fallback)\<rparr>)))
      | _ \<Rightarrow> Route_undecided decision)"

definition routeIntent ::
  "date_parser \<Rightarrow> theme_store \<Rightarrow> invocation_proof option \<Rightarrow> selection_policy option \<Rightarrow> request \<Rightarrow> string
     \<Rightarrow> registry_object \<Rightarrow> registry_object \<Rightarrow> (registry_object \<Rightarrow> registry_object) \<Rightarrow> route_action \<times> registry_object" where
  "routeIntent date_parse themes configuredProof selectionPolicy rq createdAt before s later =
     (case readJsonObject (rq_headers rq) (rq_body rq) MAX_REQUEST_BYTES of
        Inl f \<Rightarrow> (Route_refused (failure_json f), s)
      | Inr body \<Rightarrow>
          if isHttpFailure body then (Route_refused body, s)
          else (case readRoutingIntent body of
            None \<Rightarrow> (Route_rejected ''intent_malformed'' 400, s)
          | Some intent \<Rightarrow>
              (case configuredProof of
                 None \<Rightarrow> (Route_threw, s)
               | Some invocationProof \<Rightarrow>
                   (case selectionPolicy of
                      None \<Rightarrow> (Route_rejected ''selection_policy_invalid'' 503, s)
                    | Some policy \<Rightarrow>
                        (case resolveMerchantRouteTarget date_parse themes intent invocationProof before of
                           Target_rejected code http \<Rightarrow> (Route_rejected code http, s)
                         | target \<Rightarrow>
                             (case route date_parse (intent_json intent) invocationProof policy
                                 (map_option authority_json (target_authority target)) createdAt s of
                                (Inl e, s') \<Rightarrow> (Route_threw, s')
                              | (Inr decision, s') \<Rightarrow>
                                  (routed_decision intent invocationProof target decision (allStored date_parse (fn_data (later s'))), s')))))))"

end
