(* ===== verification/Core_Routing_Claims.thy ===== *)
theory Core_Routing_Claims imports Core_Routing begin

text \<open>
  What routing an intent promises: it is sent only to agents that are admitted when they are read last, within
  the merchant's scope when it names one; and nothing but another call in between makes it drift.
\<close>

section \<open>Facts\<close>

lemma find_Some_member: "List.find P xs = Some x \<Longrightarrow> x \<in> set xs \<and> P x"
  by (auto simp: find_Some_iff)

lemma eligible_found:
  assumes "eligibleRouteAgent agents k category p = Some r"
  shows "r \<in> set agents" "rg_agentId r = k" "rg_category r = category" "rg_registrationState r = Registered_active"
    "rg_admissionVerified r" "invocationAligned r p"
  using find_Some_member [OF assms [unfolded eligibleRouteAgent_def]] by auto

lemma eligible_exists:
  assumes "r \<in> set agents" "rg_agentId r = k" "rg_category r = category" "rg_registrationState r = Registered_active"
    "rg_admissionVerified r" "invocationAligned r p"
  shows "\<exists>r'. eligibleRouteAgent agents k category p = Some r'"
  using assms by (cases "eligibleRouteAgent agents k category p") (auto simp: eligibleRouteAgent_def find_None_iff)

lemma listing_found:
  assumes "readListing listings scope k = Some l"
  shows "l \<in> set listings" "ml_listingId l = k" "ml_owningAgentId l \<in> set scope"
  using find_Some_member [OF assms [unfolded readListing_def]] by auto

text \<open>What a target is: a listing of the merchant, whose owner is the listing, and a fallback within the scope.\<close>

lemma target_owner:
  assumes "resolveMerchantRouteTarget date_parse themes intent p s = Owner owner f"
  obtains m digest scope where "ri_merchant intent = Some (m, owner)" "themes m = Some (digest, scope)" "owner \<in> set scope"
    "\<And>k. f = Some k \<Longrightarrow> k \<in> set scope \<and> k \<noteq> owner"
proof -
  obtain m k digest scope l where t: "ri_merchant intent = Some (m, k)" "themes m = Some (digest, scope)"
      "readListing (activeMerchantListings date_parse s) scope k = Some l" "owner = ml_owningAgentId l"
      "f = map_option rg_agentId (resolveEligibleMerchantFallback (allStored date_parse (fn_data s)) owner (ri_category intent) scope p)"
    using assms by (auto simp: resolveMerchantRouteTarget_def split: option.splits if_splits)
  note l = listing_found [OF t(3)]
  have "k = owner" using l(1,2) t(4) by (auto simp: activeMerchantListings_def)
  moreover have "k' \<in> set scope \<and> k' \<noteq> owner" if "f = Some k'" for k'
    using that t(5) eligible_found(2)
    by (auto simp: resolveEligibleMerchantFallback_def split: option.splits if_splits)
  ultimately show thesis using that t(1,2,4) l(3) by blast
qed

lemma target_any: "resolveMerchantRouteTarget date_parse themes intent p s = Any_agent \<Longrightarrow> ri_merchant intent = None"
  by (auto simp: resolveMerchantRouteTarget_def split: option.splits if_splits)

text \<open>The run of a handler that reaches the registry's decision.\<close>

lemma routeIntent_cases:
  assumes "routeIntent date_parse themes configuredProof selectionPolicy rq createdAt before s later = (action, s')"
    and "action = Route_dispatches di \<or> action = Route_rejected ''registry_route_drift'' 503"
  obtains body intent p policy target decision where "readJsonObject (rq_headers rq) (rq_body rq) MAX_REQUEST_BYTES = Inr body"
    "readRoutingIntent body = Some intent" "configuredProof = Some p"
    "resolveMerchantRouteTarget date_parse themes intent p before = target" "\<And>code http. target \<noteq> Target_rejected code http"
    "route date_parse (intent_json intent) p policy (map_option authority_json (target_authority target)) createdAt s = (Inr decision, s')"
    "action = routed_decision intent p target decision (allStored date_parse (fn_data (later s')))"
proof -
  have codes: "resolveMerchantRouteTarget date_parse themes intent p before \<noteq> Target_rejected ''registry_route_drift'' http" for intent p http
    by (simp add: resolveMerchantRouteTarget_def split: option.split)
  obtain body intent p policy where b: "readJsonObject (rq_headers rq) (rq_body rq) MAX_REQUEST_BYTES = Inr body" "readRoutingIntent body = Some intent" "configuredProof = Some p"
    and r: "(case resolveMerchantRouteTarget date_parse themes intent p before of
        Target_rejected code http \<Rightarrow> (Route_rejected code http, s)
      | target \<Rightarrow> (case route date_parse (intent_json intent) p policy (map_option authority_json (target_authority target)) createdAt s of
            (Inl e, s') \<Rightarrow> (Route_threw, s')
          | (Inr decision, s') \<Rightarrow> (routed_decision intent p target decision (allStored date_parse (fn_data (later s'))), s'))) = (action, s')"
    using assms by (auto simp: routeIntent_def split: sum.splits if_splits option.splits)
  show thesis
  proof (cases "resolveMerchantRouteTarget date_parse themes intent p before")
    case Any_agent
    then show thesis using r assms(2) that [OF b Any_agent] by (auto split: prod.splits sum.splits)
  next
    case (Owner owner f)
    then show thesis using r assms(2) that [OF b Owner] by (auto split: prod.splits sum.splits)
  next
    case (Target_rejected code http)
    then show thesis using r assms(2) codes by auto
  qed
qed

text \<open>What the registry answers to a dispatch is what it decides now.\<close>

lemma dispatched_fields:
  assumes "registry_ok date_parse (fn_data s)" "storable intent"
    and "route date_parse intent proof policy routingAuthority createdAt s = (Inr reply, s')"
    and dispatch: "field reply ''status'' = Some (JStr ''dispatch'')"
  obtains d where "current_decision date_parse intent proof policy (Option.bind routingAuthority readPinnedRouteAuthority) (fn_data s) = Dispatch d"
    "\<And>k. map_option canonicalValue (field reply k) = map_option canonicalValue (field (decision_json (Dispatch d)) k)"
    "fn_data s' = fn_data s \<or> rr_agents (fn_data s') = rr_agents (fn_data s)"
proof -
  let ?now = "current_decision date_parse intent proof policy (Option.bind routingAuthority readPinnedRouteAuthority) (fn_data s)"
  from assms(3) have now: "(\<forall>k. map_option canonicalValue (field reply k) = map_option canonicalValue (field (decision_json ?now) k))
      \<and> rr_agents (fn_data s') = rr_agents (fn_data s)"
  proof (cases rule: route_cases)
    case (rejected code)
    then show ?thesis using dispatch rejected_status by simp
  next
    case (replayed prior)
    then show ?thesis using stored_decision [OF assms(1,2) replayed(1,4)] by simp
  next
    case (decided row)
    from decided(2) have "reply = decision_json ?now" by (simp only: sum.inject)
    moreover have "rr_agents (fn_data s') = rr_agents (fn_data s)" by (simp add: decided(5))
    ultimately show ?thesis by blast
  qed
  have "map_option canonicalValue (field (decision_json ?now) ''status'') = Some (JStr ''dispatch'')"
    using now [THEN conjunct1, THEN spec, of "''status''"] dispatch by simp
  then obtain d where d: "?now = Dispatch d" by (cases ?now) auto
  show thesis by (rule that [OF d]) (use now in \<open>simp_all add: d\<close>)
qed


text \<open>An agent that the registry dispatches to is found in a list of the same rows.\<close>

lemma same_stored: "rr_agents d' = rr_agents d \<Longrightarrow> allStored date_parse d' = allStored date_parse d"
  by (simp add: allStored_def)

lemma dispatched_eligible:
  assumes now: "current_decision date_parse (intent_json intent) p policy authority d = Dispatch dd"
    and "readRoutingIntent body = Some intent" and k: "k = dd_agentId dd \<or> dd_fallbackAgentId dd = Some k"
  shows "\<exists>r. eligibleRouteAgent (allStored date_parse d) k (ri_category intent) p = Some r"
proof -
  note sound = dispatch_sound [OF now [unfolded current_decision_def]]
  have "dd_intent dd = intent" using sound intent_roundtrip [OF assms(2)] by simp
  then obtain a where a: "a \<in> set (map (routed_agent p) (allStored date_parse d))" "ra_agentId a = k" "serves (ri_category intent) a"
    using sound k by blast
  then obtain r where "r \<in> set (allStored date_parse d)" "a = routed_agent p r" by auto
  with a show ?thesis
    by (intro eligible_exists [of r]) (auto simp: routed_agent_def serves_def)
qed

lemma decision_read:
  assumes "map_option canonicalValue (field reply ''agentId'') = map_option canonicalValue (field (decision_json (Dispatch d)) ''agentId'')"
    "map_option canonicalValue (field reply ''fallbackAgentId'') = map_option canonicalValue (field (decision_json (Dispatch d)) ''fallbackAgentId'')"
  shows "field reply ''agentId'' = Some (JStr (dd_agentId d))" "decision_fallback reply = Some (dd_fallbackAgentId d)"
proof -
  show "field reply ''agentId'' = Some (JStr (dd_agentId d))" using assms(1) by (auto simp: canonical_text_iff)
  have "canonicalValue v = JNull \<longleftrightarrow> v = JNull" for v by (cases v) (simp_all add: canonicalValue_JObj)
  then show "decision_fallback reply = Some (dd_fallbackAgentId d)"
    using assms(2) by (cases "dd_fallbackAgentId d") (auto simp: decision_fallback_def text_or_null_def canonical_text_iff)
qed

text \<open>A record to which an intent may be sent.\<close>

definition sendable :: "date_parser \<Rightarrow> registry \<Rightarrow> routing_intent \<Rightarrow> invocation_proof \<Rightarrow> json \<Rightarrow> bool" where
  "sendable date_parse d intent p v =
     (\<exists>r. v = record_json r \<and> readStored date_parse (rg_agentId r) d = Some r \<and> rg_registrationState r = Registered_active
        \<and> latest_event (rg_agentId r) (rr_events d) = Some (''registered'', rg_contentHash r)
        \<and> isAcosAdmissionReceiptBoundToInputs date_parse (Some (rg_admissionReceipt r)) (rg_admissionInputs r) None None
        \<and> rg_category r = ri_category intent \<and> invocationAligned r p)"

lemma eligible_sendable:
  assumes "registry_ok date_parse d" "eligibleRouteAgent (allStored date_parse d) k (ri_category intent) p = Some r"
  shows "sendable date_parse d intent p (record_json r)" "agent_id (record_json r) = k"
proof -
  note e = eligible_found [OF assms(2)]
  show "sendable date_parse d intent p (record_json r)"
    unfolding sendable_def using stored_record [OF assms(1) e(1)] e by blast
  show "agent_id (record_json r) = k" using e(2) by (simp add: agent_id_def record_json_def text_of_def)
qed

lemma routed_decision_dispatches:
  assumes "routed_decision intent p target decision agents = Route_dispatches di"
  obtains k r f where "eligibleRouteAgent agents k (ri_category intent) p = Some r" "di_agent di = record_json r" "di_intent di = intent"
    "case di_fallbackAgent di of None \<Rightarrow> f = None
       | Some v \<Rightarrow> \<exists>k' r'. f = Some k' \<and> eligibleRouteAgent agents k' (ri_category intent) p = Some r' \<and> v = record_json r'"
    "\<And>owner f'. target = Owner owner f' \<Longrightarrow> k = owner \<and> f = f'"
proof -
  obtain k f where kf: "field decision ''agentId'' = Some (JStr k)" "decision_fallback decision = Some f"
    using assms by (auto simp: routed_decision_def split: option.splits json.splits)
  then obtain r where r: "eligibleRouteAgent agents k (ri_category intent) p = Some r"
      "\<And>owner f'. target = Owner owner f' \<Longrightarrow> k = owner \<and> f = f'"
    using assms by (auto simp: routed_decision_def split: option.splits if_splits merchant_target.splits)
  show thesis
  proof (cases f)
    case None
    then show thesis using assms kf r that [OF r(1), of f] by (auto simp: routed_decision_def split: option.splits if_splits)
  next
    case (Some k')
    then obtain r' where "eligibleRouteAgent agents k' (ri_category intent) p = Some r'"
      using assms kf r by (auto simp: routed_decision_def split: option.splits if_splits)
    then show thesis using Some assms kf r that [OF r(1), of f] by (auto simp: routed_decision_def split: option.splits if_splits)
  qed
qed

lemma pinned_again: "readPinnedRouteAuthority (authority_json pa) = Some q \<Longrightarrow> q = pa"
  by (cases "pa_fallbackAgentId pa") (auto simp: readPinnedRouteAuthority_def authority_json_def text_of_def text_or_null_def split: if_splits)

text \<open>A dispatch of the registry that nobody disturbs is carried out.\<close>

lemma undisturbed_dispatch:
  assumes ok: "registry_ok date_parse (fn_data s)" and st: "storable (intent_json intent)" and i: "readRoutingIntent body = Some intent"
    and route: "route date_parse (intent_json intent) p policy (map_option authority_json (target_authority target)) createdAt s = (Inr decision, s')"
    and status: "field decision ''status'' = Some (JStr ''dispatch'')"
  shows "\<exists>di. routed_decision intent p target decision (allStored date_parse (fn_data s')) = Route_dispatches di"
proof -
  from dispatched_fields [OF ok st route status] obtain d where d: "current_decision date_parse (intent_json intent) p policy
        (Option.bind (map_option authority_json (target_authority target)) readPinnedRouteAuthority) (fn_data s) = Dispatch d"
      "\<And>k. map_option canonicalValue (field decision k) = map_option canonicalValue (field (decision_json (Dispatch d)) k)"
      "rr_agents (fn_data s') = rr_agents (fn_data s)" by metis
  note same = decision_read [OF d(2) d(2)]
  let ?k = "dd_agentId d" and ?f = "dd_fallbackAgentId d"
  have agents: "allStored date_parse (fn_data s') = allStored date_parse (fn_data s)" by (rule same_stored [OF d(3)])
  obtain r where r: "eligibleRouteAgent (allStored date_parse (fn_data s')) ?k (ri_category intent) p = Some r"
    using dispatched_eligible [OF d(1) i, of ?k] agents by auto
  have f: "\<exists>r'. eligibleRouteAgent (allStored date_parse (fn_data s')) k' (ri_category intent) p = Some r'" if "?f = Some k'" for k'
    using dispatched_eligible [OF d(1) i, of k'] that agents by auto
  have pinned: "\<not> (case target of Owner owner f' \<Rightarrow> ?k \<noteq> owner \<or> ?f \<noteq> f' | _ \<Rightarrow> False)"
  proof (cases target)
    case (Owner owner f')
    let ?pa = "\<lparr>pa_pinnedAgentId = owner, pa_fallbackAgentId = f'\<rparr>"
    have "readPinnedRouteAuthority (authority_json ?pa) \<noteq> None"
    proof
      assume "readPinnedRouteAuthority (authority_json ?pa) = None"
      then have "decision = registry_rejected ''routing_configuration_invalid''"
        using route by (simp add: Owner target_authority_def route_def)
      then show False using status rejected_status by simp
    qed
    then have read: "readPinnedRouteAuthority (authority_json ?pa) = Some ?pa" using pinned_again by auto
    then show ?thesis
      using dispatch_sound [OF d(1) [unfolded current_decision_def]] by (simp add: Owner target_authority_def)
  qed simp_all
  have "isRecord decision" using status by (cases decision) simp_all
  then show ?thesis
    using same status r f pinned by (cases target; cases ?f) (auto simp: routed_decision_def)
qed

section \<open>Claims\<close>

text \<open>
  C12. An intent is sent only where it may go: when routing an intent ends in a dispatch, its agent and its
  fallback are, in the registry as it was read last, stored records of agents that are active by their last
  event, with a receipt that is bound to what is stored, of the intent's category and of the configured
  proof; and when it names a merchant's listing, the agent is that listing and both are in the merchant's scope.
\<close>

theorem routed_within_scope:
  assumes "registry_reachable date_parse w" "fn_data (later s') = fn_data (rw_store w)"
    and "routeIntent date_parse themes configuredProof selectionPolicy rq createdAt before s later = (Route_dispatches di, s')"
  shows "(\<exists>p. configuredProof = Some p \<and> sendable date_parse (fn_data (rw_store w)) (di_intent di) p (di_agent di)
      \<and> (case di_fallbackAgent di of None \<Rightarrow> True | Some v \<Rightarrow> sendable date_parse (fn_data (rw_store w)) (di_intent di) p v))
    \<and> (case ri_merchant (di_intent di) of None \<Rightarrow> True | Some (merchantId, listingId) \<Rightarrow>
         \<exists>digest scope. themes merchantId = Some (digest, scope) \<and> agent_id (di_agent di) = listingId \<and> listingId \<in> set scope
           \<and> (case di_fallbackAgent di of None \<Rightarrow> True | Some v \<Rightarrow> agent_id v \<in> set scope \<and> agent_id v \<noteq> listingId))"
proof -
  note ok = reachable_ok [OF assms(1)]
  from assms(3) show ?thesis
  proof (rule routeIntent_cases)
    fix body intent p policy target decision
    assume p: "configuredProof = Some p" and target: "resolveMerchantRouteTarget date_parse themes intent p before = target"
      and not_rejected: "\<And>code http. target \<noteq> Target_rejected code http"
      and "Route_dispatches di = routed_decision intent p target decision (allStored date_parse (fn_data (later s')))"
    then have "routed_decision intent p target decision (allStored date_parse (fn_data (rw_store w))) = Route_dispatches di"
      by (simp add: assms(2))
    then obtain k r f where r: "eligibleRouteAgent (allStored date_parse (fn_data (rw_store w))) k (ri_category intent) p = Some r"
        "di_agent di = record_json r" "di_intent di = intent"
      and f: "case di_fallbackAgent di of None \<Rightarrow> f = None
       | Some v \<Rightarrow> \<exists>k' r'. f = Some k' \<and> eligibleRouteAgent (allStored date_parse (fn_data (rw_store w))) k' (ri_category intent) p = Some r' \<and> v = record_json r'"
      and owner: "\<And>owner f'. target = Owner owner f' \<Longrightarrow> k = owner \<and> f = f'"
      by (rule routed_decision_dispatches) (rule that, assumption+)
    have "case ri_merchant intent of None \<Rightarrow> True | Some (merchantId, listingId) \<Rightarrow>
         \<exists>digest scope. themes merchantId = Some (digest, scope) \<and> k = listingId \<and> listingId \<in> set scope
           \<and> (\<forall>k'. f = Some k' \<longrightarrow> k' \<in> set scope \<and> k' \<noteq> listingId)"
    proof (cases target)
      case Any_agent
      then show ?thesis using target_any target by simp
    next
      case (Owner owner' f')
      with target obtain m digest scope where "ri_merchant intent = Some (m, owner')" "themes m = Some (digest, scope)" "owner' \<in> set scope"
          "\<And>k. f' = Some k \<Longrightarrow> k \<in> set scope \<and> k \<noteq> owner'" by (auto elim: target_owner)
      then show ?thesis using owner [OF Owner] by auto
    qed (use not_rejected in blast)
    then show ?thesis
      using p r f eligible_sendable [OF ok r(1)] eligible_sendable [OF ok]
      by (auto split: option.splits)
  qed simp
qed

text \<open>
  C36. Only another call makes a route drift: while the registry is not changed by others, routing an intent
  never ends in a registry drift, whether the intent is decided now or was decided before, and whether it
  names a merchant's listing or not.
\<close>

theorem route_drifts_only_by_others:
  assumes "registry_reachable date_parse w"
    and "readJsonObject (rq_headers rq) (rq_body rq) MAX_REQUEST_BYTES = Inr body" "storable body"
  shows "fst (routeIntent date_parse themes configuredProof selectionPolicy rq createdAt (rw_store w) (rw_store w) (\<lambda>s. s))
    \<noteq> Route_rejected ''registry_route_drift'' 503"
proof
  let ?s = "rw_store w"
  note ok = reachable_ok [OF assms(1)]
  obtain action s' where run: "routeIntent date_parse themes configuredProof selectionPolicy rq createdAt ?s ?s (\<lambda>s. s) = (action, s')" by fastforce
  assume "fst (routeIntent date_parse themes configuredProof selectionPolicy rq createdAt ?s ?s (\<lambda>s. s)) = Route_rejected ''registry_route_drift'' 503"
  with run have drift: "action = Route_rejected ''registry_route_drift'' 503" by simp
  from run show False
  proof (rule routeIntent_cases)
    fix body' intent p policy target decision
    assume i: "readJsonObject (rq_headers rq) (rq_body rq) MAX_REQUEST_BYTES = Inr body'" "readRoutingIntent body' = Some intent"
      and route: "route date_parse (intent_json intent) p policy (map_option authority_json (target_authority target)) createdAt ?s = (Inr decision, s')"
      and action: "action = routed_decision intent p target decision (allStored date_parse (fn_data s'))"
    have "storable body'" using i(1) assms(2,3) by simp
    then have st: "storable (intent_json intent)" by (rule storable_intent [OF i(2)])
    have "field decision ''status'' = Some (JStr ''dispatch'')"
      using drift action by (auto simp: routed_decision_def split: option.splits json.splits if_splits)
    then obtain di where "routed_decision intent p target decision (allStored date_parse (fn_data s')) = Route_dispatches di"
      using undisturbed_dispatch [OF ok st i(2) route] by blast
    then show False using drift action by simp
  qed (use drift in simp)
qed

section \<open>Witnesses\<close>

definition routed_request :: request where
  "routed_request = \<lparr>rq_method = ''POST'', rq_url = ''https://commerce.example/internal/v1/intents/route'',
     rq_headers = [(''content-type'', ''application/json'')],
     rq_body = Some \<lparr>bd_chunks = [1000], bd_text = json_text Exclusive_Router.sample_intent, bd_valid = True\<rparr>\<rparr>"

lemma routed_body: "readJsonObject (rq_headers routed_request) (rq_body routed_request) MAX_REQUEST_BYTES = Inr Exclusive_Router.sample_intent"
  "isRecord Exclusive_Router.sample_intent" "\<not> isHttpFailure Exclusive_Router.sample_intent"
proof -
  show r: "isRecord Exclusive_Router.sample_intent" "\<not> isHttpFailure Exclusive_Router.sample_intent"
    by (simp_all add: Exclusive_Router.sample_intent_def isHttpFailure_def)
  have "media_type (headers_get (rq_headers routed_request) ''content-type'') = ''application/json''"
    "headers_get (rq_headers routed_request) ''content-length'' = None"
    by (simp_all add: routed_request_def) code_simp+
  then show "readJsonObject (rq_headers routed_request) (rq_body routed_request) MAX_REQUEST_BYTES = Inr Exclusive_Router.sample_intent"
    using json_parse_text [OF sample_intent_storable] r
    by (simp add: readJsonObject_def declared_length_ok_def readBoundedBytes_def read_chunks_iff MAX_REQUEST_BYTES_def)
      (simp add: routed_request_def parse_fatal_def)
qed

theorem route_drifts_only_by_others_witness:
  "fst (routeIntent sample_dates (\<lambda>_. None) (Some (sample_proof (CHR ''a''))) (Some DEFAULT_SELECTION_POLICY) routed_request ''t''
     (rw_store sample_world) (rw_store sample_world) (\<lambda>s. s)) \<noteq> Route_rejected ''registry_route_drift'' 503"
  by (rule route_drifts_only_by_others [OF sample_reachable routed_body(1) sample_intent_storable])

lemma routed_sample: "\<exists>di s'. routeIntent sample_dates (\<lambda>_. None) (Some (sample_proof (CHR ''a''))) (Some DEFAULT_SELECTION_POLICY) routed_request ''t''
    sample_first sample_first (\<lambda>s. s) = (Route_dispatches di, s') \<and> rr_agents (fn_data s') = rr_agents (fn_data sample_first)"
proof -
  obtain i where i: "readRoutingIntent Exclusive_Router.sample_intent = Some i" "ri_category i = ''coffee''" using sample_intent_read by auto
  have "map_option ri_merchant (readRoutingIntent Exclusive_Router.sample_intent) = Some None" by code_simp
  then have none: "ri_merchant i = None" using i(1) by simp
  obtain reply s agent where r: "route sample_dates (intent_json i) (sample_proof (CHR ''a'')) DEFAULT_SELECTION_POLICY None ''t'' sample_first = (Inr reply, s)"
    "field reply ''status'' = Some (JStr ''dispatch'')" using sample_routed(2) [OF intent_roundtrip [OF i(1)] i(2)] by blast
  have ok: "registry_ok sample_dates (fn_data sample_first)" using reachable_ok [OF sample_reachable] by (simp add: sample_world_def)
  have st: "storable (intent_json i)" by (rule storable_intent [OF i(1) sample_intent_storable])
  have target: "resolveMerchantRouteTarget sample_dates (\<lambda>_. None) i (sample_proof (CHR ''a'')) sample_first = Any_agent"
    by (simp add: resolveMerchantRouteTarget_def none)
  have r': "route sample_dates (intent_json i) (sample_proof (CHR ''a'')) DEFAULT_SELECTION_POLICY (map_option authority_json (target_authority Any_agent)) ''t'' sample_first = (Inr reply, s)"
    by (simp add: target_authority_def r(1))
  obtain di where "routed_decision i (sample_proof (CHR ''a'')) Any_agent reply (allStored sample_dates (fn_data s)) = Route_dispatches di"
    using undisturbed_dispatch [OF ok st i(1) r' r(2)] by blast
  moreover have "rr_agents (fn_data s) = rr_agents (fn_data sample_first)"
    using dispatched_fields [OF ok st r' r(2)] by metis
  ultimately show ?thesis
    using r' by (simp add: routeIntent_def routed_body i(1) target)
qed

theorem routed_within_scope_witness:
  "\<exists>di :: dispatch_input. sendable sample_dates (fn_data sample_first) (di_intent di) (sample_proof (CHR ''a'')) (di_agent di)"
proof -
  obtain di s' where run: "routeIntent sample_dates (\<lambda>_. None) (Some (sample_proof (CHR ''a''))) (Some DEFAULT_SELECTION_POLICY) routed_request ''t''
      sample_first sample_first (\<lambda>s. s) = (Route_dispatches di, s')" "rr_agents (fn_data s') = rr_agents (fn_data sample_first)"
    using routed_sample by blast
  have same: "routeIntent date_parse themes p policy rq t before s (\<lambda>s. s) = (Route_dispatches di, s') \<Longrightarrow>
      allStored date_parse (fn_data (later s')) = allStored date_parse (fn_data s') \<Longrightarrow>
      routeIntent date_parse themes p policy rq t before s later = (Route_dispatches di, s')" for date_parse themes p policy rq t before s later
    by (auto simp: routeIntent_def split: sum.splits if_splits option.splits merchant_target.splits prod.splits)
  have "routeIntent sample_dates (\<lambda>_. None) (Some (sample_proof (CHR ''a''))) (Some DEFAULT_SELECTION_POLICY) routed_request ''t''
      sample_first sample_first (\<lambda>_. sample_first) = (Route_dispatches di, s')"
    by (rule same [OF run(1)]) (rule same_stored, simp add: run(2))
  from routed_within_scope [OF sample_reachable _ this] have "sendable sample_dates (fn_data (rw_store sample_world)) (di_intent di)
      (sample_proof (CHR ''a'')) (di_agent di)" by (simp add: sample_world_def)
  then show ?thesis by (auto simp: sample_world_def)
qed

end
