(* ===== verification/Core_Checkout.thy ===== *)
theory Core_Checkout imports Core_Routing_Claims Checkout_State begin

text \<open>
  \<open>checkout\<close>, \<open>validateCheckoutPreparation\<close> and \<open>findDiscoveredOffer\<close> of \<open>src/src/core/core-actions.ts\<close>,
  with \<open>exactCheckoutPrepareInput\<close> and \<open>exactCheckoutConfirmInput\<close> of \<open>checkout-input.ts\<close>: what a request
  for a checkout makes its session do. The action ends in the call to the session; the intents' route objects
  are a function of their names, the registry is the one that is listed.
\<close>

section \<open>Inputs\<close>

text \<open>An object with the given fields of a body; a field that the body lacks is undefined.\<close>

definition pick :: "json \<Rightarrow> string list \<Rightarrow> (string \<times> json) list" where
  "pick body ks = List.map_filter (\<lambda>k. map_option (Pair k) (field body k)) ks"

definition exactCheckoutPrepareInput :: "json \<Rightarrow> string \<Rightarrow> string \<Rightarrow> json" where
  "exactCheckoutPrepareInput body checkoutId offerProviderRevision = JObj (
     (''checkoutId'', JStr checkoutId) # pick body [''intentId'', ''agentId'', ''offerId'', ''offerReceiptDigest'']
     @ (''offerProviderRevision'', JStr offerProviderRevision) # pick body [''amountMinor'', ''budgetMinor'', ''currency''])"

definition exactCheckoutConfirmInput :: "json \<Rightarrow> string \<Rightarrow> json" where
  "exactCheckoutConfirmInput body checkoutId = JObj ((''checkoutId'', JStr checkoutId)
     # pick body [''confirmationToken'', ''offerId'', ''amountMinor'', ''currency'', ''blockerDigest'', ''shopperPrincipalDigest''])"

section \<open>The evidence of a preparation\<close>

definition findDiscoveredOffer :: "json option \<Rightarrow> json \<Rightarrow> discovery_offer option" where
  "findDiscoveredOffer receipt body =
     (case (receipt, field body ''intentId'', field body ''agentId'', field body ''offerReceiptDigest'') of
        (Some v, Some (JStr intentId), Some (JStr agentName), Some (JStr offerReceiptDigest)) \<Rightarrow>
          (case field v ''offers'' of
             Some (JArr offers) \<Rightarrow>
               if \<not> isRecord v then None
               else (case List.find (\<lambda>c. isRecord c \<and> field c ''receiptDigest'' = Some (JStr offerReceiptDigest)) offers of
                   None \<Rightarrow> None
                 | Some candidate \<Rightarrow>
                     (case field candidate ''intentDigest'' of
                        Some (JStr intentDigest) \<Rightarrow>
                          (case normalizeDiscoveryReceipt v intentId intentDigest agentName of
                             Inl _ \<Rightarrow> None
                           | Inr normalized \<Rightarrow> List.find (\<lambda>r. df_receiptDigest r = offerReceiptDigest
                               \<and> field body ''offerId'' = Some (JStr (df_offerId r))
                               \<and> field body ''amountMinor'' = Some (JNum (Integer (df_amountMinor r)))
                               \<and> field body ''currency'' = Some (JStr (df_currency r))) normalized)
                      | _ \<Rightarrow> None))
           | _ \<Rightarrow> None)
      | _ \<Rightarrow> None)"

text \<open>The receipt that the intent's route object tells, when it is completed by this agent for this intent.\<close>

definition routed_receipt :: "route_object \<Rightarrow> string \<Rightarrow> string \<Rightarrow> json option option" where
  "routed_receipt obj intentId agentName = (case route_status obj of
     Route_missing \<Rightarrow> None
   | Route_status state i a fallback failureCode attempts receipt \<Rightarrow>
       if state = Dispatch_completed \<and> a = agentName \<and> i = intentId then Some receipt else None)"

text \<open>A refusal, or the revision of the provider that is added to the body.\<close>

definition validateCheckoutPreparation ::
  "date_parser \<Rightarrow> string \<Rightarrow> (string \<Rightarrow> route_object) \<Rightarrow> registry_object \<Rightarrow> json \<Rightarrow> (string \<times> nat) + string" where
  "validateCheckoutPreparation date_parse pinJson routes registry body =
     (case (field body ''intentId'', field body ''agentId'') of
        (Some (JStr intentId), Some (JStr agentName)) \<Rightarrow>
          if \<not> is_str (field body ''offerId'') (\<lambda>_. True) \<or> \<not> is_str (field body ''offerReceiptDigest'') (\<lambda>_. True)
             \<or> \<not> is_num (field body ''amountMinor'') isSafeInteger \<or> \<not> is_str (field body ''currency'') (\<lambda>_. True)
          then Inl (''checkout_routing_evidence_malformed'', 400)
          else (case routed_receipt (routes intentId) intentId agentName of
            None \<Rightarrow> Inl (''checkout_routing_evidence_required'', 409)
          | Some receipt \<Rightarrow>
              (case findDiscoveredOffer receipt body of
                 None \<Rightarrow> Inl (''checkout_offer_receipt_required'', 409)
               | Some offer \<Rightarrow>
                   if map_option ep_sourceRevision (readUpstreamEvidencePin pinJson) \<noteq> Some (df_providerRevision offer)
                   then Inl (''checkout_provider_evidence_pin_mismatch'', 503)
                   else if \<not> list_ex (\<lambda>r. rg_registrationState r = Registered_active \<and> rg_admissionVerified r
                        \<and> rg_agentId r = agentName) (allStored date_parse (fn_data registry))
                   then Inl (''checkout_agent_not_registered'', 409)
                   else Inr (df_providerRevision offer)))
      | _ \<Rightarrow> Inl (''checkout_routing_evidence_malformed'', 400))"

section \<open>The action\<close>

text \<open>What the session is called with, or the refusal of the core.\<close>

datatype checkout_action =
    Checkout_refused json
  | Checkout_rejected string nat
  | Session_status
  | Session_prepare json
  | Session_confirm json

definition checkout_body ::
  "date_parser \<Rightarrow> string \<Rightarrow> (string \<Rightarrow> route_object) \<Rightarrow> registry_object \<Rightarrow> string \<Rightarrow> bool \<Rightarrow> json \<Rightarrow> checkout_action" where
  "checkout_body date_parse pinJson routes registry checkoutId preparing body =
     (if field body ''checkoutId'' \<noteq> None \<and> field body ''checkoutId'' \<noteq> Some (JStr checkoutId)
      then Checkout_rejected ''checkout_id_mismatch'' 400
      else if \<not> checkoutInputFieldsAllowed body preparing then Checkout_rejected ''checkout_input_fields_unsupported'' 400
      else if \<not> preparing then Session_confirm (exactCheckoutConfirmInput body checkoutId)
      else case validateCheckoutPreparation date_parse pinJson routes registry body of
        Inl (code, http) \<Rightarrow> Checkout_rejected code http
      | Inr offerProviderRevision \<Rightarrow> Session_prepare (exactCheckoutPrepareInput body checkoutId offerProviderRevision))"

definition checkout ::
  "date_parser \<Rightarrow> string \<Rightarrow> (string \<Rightarrow> route_object) \<Rightarrow> registry_object \<Rightarrow> request \<Rightarrow> string \<Rightarrow> string \<Rightarrow> checkout_action" where
  "checkout date_parse pinJson routes registry rq checkoutId action =
     (if \<not> IDENTIFIER_PATTERN checkoutId then Checkout_rejected ''checkout_id_malformed'' 400
      else if rq_method rq = ''GET'' \<and> action = '''' then Session_status
      else if rq_method rq \<noteq> ''POST'' \<or> action \<notin> {''prepare'', ''confirm''} then Checkout_rejected ''not_found'' 404
      else case readJsonObject (rq_headers rq) (rq_body rq) MAX_REQUEST_BYTES of
        Inl f \<Rightarrow> Checkout_refused (failure_json f)
      | Inr body \<Rightarrow>
          if isHttpFailure body then Checkout_refused body
          else checkout_body date_parse pinJson routes registry checkoutId (action = ''prepare'') body)"

section \<open>What a preparation rests on\<close>

lemma find_member: "List.find P xs = Some x \<Longrightarrow> x \<in> set xs \<and> P x"
  by (auto simp: find_Some_iff)

text \<open>The stored receipt of a completed route object holds the offers that were accepted.\<close>

lemma receipt_offers:
  assumes "route_ok obj" "routed_receipt obj intentId agentName = Some receipt"
  obtains i offers where "bound_offers i agentName offers" "ri_intentId (di_intent i) = intentId" "asked_for i (ro_asked obj)"
    "receipt = Some (canonicalValue (receipt_json offers))"
proof -
  obtain r where r: "ro_row obj = Some r" "sd_state r = Dispatch_completed" "sd_agent_id r = agentName" "sd_intent_id r = intentId"
    and receipt: "receipt = (case sd_response_json r of Some s \<Rightarrow> if s = '''' then None else Some (parse_column s) | None \<Rightarrow> None)"
    using assms(2) by (auto simp: routed_receipt_def route_status_def split: option.splits if_splits)
  from assms(1) r(1,2) obtain i where i: "sd_intent_id r = ri_intentId (di_intent i)" "asked_for i (ro_asked obj)" "finished_row i (ro_asked obj) r"
    by (auto simp: route_ok_def)
  then obtain offers where offers: "bound_offers i (sd_agent_id r) offers" "sd_response_json r = Some (canonicalJson (receipt_json offers))"
    using r(2) by (auto simp: finished_row_def)
  have "isRecord (receipt_json offers)" by (simp add: receipt_json_def)
  then have "canonicalJson (receipt_json offers) \<noteq> ''''" by (rule record_text_nonempty)
  then have "receipt = Some (canonicalValue (receipt_json offers))"
    using receipt offers(2) by (simp add: parse_column_canonicalJson)
  then show thesis using that offers(1) i(1,2) r(3,4) by simp
qed

lemma normalized_members:
  assumes "normalizeDiscoveryReceipt (canonicalValue (receipt_json offers)) intentId intentDigest agentName = Inr normalized"
    and "\<forall>r \<in> set offers. offer_ok r"
  shows "normalized = offers"
proof -
  let ?cs = "map (\<lambda>r. canonicalValue (offer_json r)) offers"
  have "field (canonicalValue (receipt_json offers)) ''offers'' = Some (JArr ?cs)"
    unfolding field_canonicalValue [OF storable_receipt] by (simp add: receipt_json_def comp_def)
  with assms(1) have "normalized = map offer_of ?cs"
    by (auto simp: normalizeDiscoveryReceipt_def Let_def comp_def split: if_splits)
  moreover have "map offer_of ?cs = offers"
    unfolding map_map comp_def by (rule map_idI) (use offer_canonical(2) assms(2) in blast)
  ultimately show ?thesis by simp
qed

lemma stored_offer_found:
  assumes normal: "normalizeDiscoveryReceipt (canonicalValue (receipt_json offers)) k d agentName = Inr offers"
    and bound: "\<forall>r \<in> set offers. offer_ok r \<and> df_intentId r = k \<and> df_intentDigest r = d \<and> df_agentId r = agentName"
    and offer: "offer \<in> set offers"
    and "field body ''intentId'' = Some (JStr k)" "field body ''agentId'' = Some (JStr agentName)"
      "field body ''offerId'' = Some (JStr (df_offerId offer))" "field body ''offerReceiptDigest'' = Some (JStr (df_receiptDigest offer))"
      "field body ''amountMinor'' = Some (JNum (Integer (df_amountMinor offer)))" "field body ''currency'' = Some (JStr (df_currency offer))"
  shows "\<exists>found. findDiscoveredOffer (Some (canonicalValue (receipt_json offers))) body = Some found \<and> found \<in> set offers"
proof -
  let ?cs = "map (\<lambda>r. canonicalValue (offer_json r)) offers"
  let ?P = "\<lambda>c. isRecord c \<and> field c ''receiptDigest'' = Some (JStr (df_receiptDigest offer))"
  let ?Q = "\<lambda>r. df_receiptDigest r = df_receiptDigest offer \<and> Some (JStr (df_offerId offer)) = Some (JStr (df_offerId r))
    \<and> Some (JNum (Integer (df_amountMinor offer))) = Some (JNum (Integer (df_amountMinor r))) \<and> Some (JStr (df_currency offer)) = Some (JStr (df_currency r))"
  note fields = field_canonicalValue [OF storable_offer]
  have offer_fields: "field (canonicalValue (offer_json r)) ''receiptDigest'' = Some (JStr (df_receiptDigest r))"
      "field (canonicalValue (offer_json r)) ''intentDigest'' = Some (JStr (df_intentDigest r))" "isRecord (canonicalValue (offer_json r))" for r
    using canonical_record(1) by (simp_all add: fields) (simp_all add: offer_json_def offer_content_def)
  have receipt: "field (canonicalValue (receipt_json offers)) ''offers'' = Some (JArr ?cs)" "isRecord (canonicalValue (receipt_json offers))"
    unfolding field_canonicalValue [OF storable_receipt] using canonical_record(2) by (simp_all add: receipt_json_def comp_def)
  have "List.find ?P ?cs \<noteq> None" using offer offer_fields by (auto simp: find_None_iff)
  then obtain c where c: "List.find ?P ?cs = Some c" by auto
  then have "field c ''intentDigest'' = Some (JStr d)" using find_member [OF c] bound offer_fields(2) by auto
  moreover have "List.find ?Q offers \<noteq> None" using offer by (auto simp: find_None_iff)
  then obtain r where r: "List.find ?Q offers = Some r" by auto
  then have "r \<in> set offers" using find_member [OF r] by simp
  ultimately show ?thesis
    using c r receipt normal assms(4-9) by (simp add: findDiscoveredOffer_def)
qed

lemma find_offer_facts:
  assumes "findDiscoveredOffer receipt body = Some offer"
  shows "field body ''intentId'' = Some (JStr (df_intentId offer))" "field body ''agentId'' = Some (JStr (df_agentId offer))"
    "field body ''offerReceiptDigest'' = Some (JStr (df_receiptDigest offer))" "field body ''offerId'' = Some (JStr (df_offerId offer))"
    "field body ''amountMinor'' = Some (JNum (Integer (df_amountMinor offer)))" "field body ''currency'' = Some (JStr (df_currency offer))"
    "offer_ok offer"
    "\<exists>v intentId intentDigest agentName normalized. receipt = Some v
       \<and> normalizeDiscoveryReceipt v intentId intentDigest agentName = Inr normalized \<and> offer \<in> set normalized"
proof -
  obtain v intentId agentName digest intentDigest normalized where f: "receipt = Some v" "field body ''intentId'' = Some (JStr intentId)"
      "field body ''agentId'' = Some (JStr agentName)" "field body ''offerReceiptDigest'' = Some (JStr digest)"
      "normalizeDiscoveryReceipt v intentId intentDigest agentName = Inr normalized"
    and found: "List.find (\<lambda>r. df_receiptDigest r = digest \<and> field body ''offerId'' = Some (JStr (df_offerId r))
        \<and> field body ''amountMinor'' = Some (JNum (Integer (df_amountMinor r))) \<and> field body ''currency'' = Some (JStr (df_currency r))) normalized = Some offer"
    using assms by (auto simp: findDiscoveredOffer_def split: option.splits json.splits if_splits sum.splits)
  note m = find_member [OF found]
  note n = normalize_accepted(1) [OF f(5)]
  show "field body ''intentId'' = Some (JStr (df_intentId offer))" "field body ''agentId'' = Some (JStr (df_agentId offer))"
    "field body ''offerReceiptDigest'' = Some (JStr (df_receiptDigest offer))" "field body ''offerId'' = Some (JStr (df_offerId offer))"
    "field body ''amountMinor'' = Some (JNum (Integer (df_amountMinor offer)))" "field body ''currency'' = Some (JStr (df_currency offer))"
    "offer_ok offer"
    "\<exists>v intentId intentDigest agentName normalized. receipt = Some v
       \<and> normalizeDiscoveryReceipt v intentId intentDigest agentName = Inr normalized \<and> offer \<in> set normalized"
    using m n f by auto
qed

text \<open>The body of a request for an offer, and what the session is called with then.\<close>

definition offer_request :: "discovery_offer \<Rightarrow> json option \<Rightarrow> json" where
  "offer_request offer budget = JObj ([(''intentId'', JStr (df_intentId offer)), (''agentId'', JStr (df_agentId offer)),
     (''offerId'', JStr (df_offerId offer)), (''offerReceiptDigest'', JStr (df_receiptDigest offer)),
     (''amountMinor'', JNum (Integer (df_amountMinor offer)))]
     @ (case budget of Some v \<Rightarrow> [(''budgetMinor'', v)] | None \<Rightarrow> []) @ [(''currency'', JStr (df_currency offer))])"

definition offered_input :: "string \<Rightarrow> discovery_offer \<Rightarrow> json option \<Rightarrow> json" where
  "offered_input checkoutId offer budget = JObj ([(''checkoutId'', JStr checkoutId), (''intentId'', JStr (df_intentId offer)),
     (''agentId'', JStr (df_agentId offer)), (''offerId'', JStr (df_offerId offer)), (''offerReceiptDigest'', JStr (df_receiptDigest offer)),
     (''offerProviderRevision'', JStr (df_providerRevision offer)), (''amountMinor'', JNum (Integer (df_amountMinor offer)))]
     @ (case budget of Some v \<Rightarrow> [(''budgetMinor'', v)] | None \<Rightarrow> []) @ [(''currency'', JStr (df_currency offer))])"

text \<open>With a budget that is a number it is the typed input of the session.\<close>

lemma offered_prepare_json: "offered_input checkoutId offer (Some (JNum n)) = prepare_json
    \<lparr>pi_checkoutId = checkoutId, pi_intentId = df_intentId offer, pi_agentId = df_agentId offer, pi_offerId = df_offerId offer,
     pi_offerReceiptDigest = df_receiptDigest offer, pi_offerProviderRevision = df_providerRevision offer,
     pi_amountMinor = Integer (df_amountMinor offer), pi_budgetMinor = n, pi_currency = df_currency offer\<rparr>"
  by (simp add: offered_input_def prepare_json_def)

lemma pick_Cons: "pick body (k # ks) = (case field body k of None \<Rightarrow> [] | Some v \<Rightarrow> [(k, v)]) @ pick body ks"
  by (simp add: pick_def map_filter_simps split: option.split)

lemma pick_Nil [simp]: "pick body [] = []"
  by (simp add: pick_def map_filter_simps)

lemma exact_offered:
  assumes "findDiscoveredOffer receipt body = Some offer"
  shows "exactCheckoutPrepareInput body checkoutId (df_providerRevision offer) = offered_input checkoutId offer (field body ''budgetMinor'')"
  by (simp add: exactCheckoutPrepareInput_def offered_input_def pick_Cons find_offer_facts [OF assms])

section \<open>Claims\<close>

text \<open>An agent that a checkout may name: stored, active by its last event, with a receipt bound to its record.\<close>

definition checkout_agent :: "date_parser \<Rightarrow> registry \<Rightarrow> string \<Rightarrow> bool" where
  "checkout_agent date_parse d k = (\<exists>r. readStored date_parse k d = Some r \<and> rg_registrationState r = Registered_active
     \<and> latest_event k (rr_events d) = Some (''registered'', rg_contentHash r)
     \<and> isAcosAdmissionReceiptBoundToInputs date_parse (Some (rg_admissionReceipt r)) (rg_admissionInputs r) None None)"


text \<open>A request that repeats the terms of a stored offer is passed on.\<close>

lemma offer_prepared:
  assumes receipt: "routed_receipt (routes k) k agentName = Some (Some (canonicalValue (receipt_json offers)))"
    and i: "bound_offers i agentName offers" "ri_intentId (di_intent i) = k"
    and agent: "r \<in> set (allStored date_parse (fn_data registry))" "rg_agentId r = agentName" "rg_registrationState r = Registered_active"
      "rg_admissionVerified r"
    and pin: "readUpstreamEvidencePin pinJson = Some pin" "\<forall>r \<in> set offers. df_providerRevision r = ep_sourceRevision pin"
    and offer: "offer \<in> set offers"
  shows "checkout_body date_parse pinJson routes registry checkoutId True (offer_request offer budget)
    = Session_prepare (offered_input checkoutId offer budget)"
proof -
  have bound: "\<forall>r \<in> set offers. offer_ok r \<and> df_intentId r = k \<and> df_intentDigest r = intent_digest i \<and> df_agentId r = agentName"
    and "1 \<le> length offers" "length offers \<le> 100" "distinct (map offer_key offers)"
    using i by (auto simp: bound_offers_def list_all_iff Suc_le_eq)
  note normal = normalize_stored [OF this]
  let ?body = "offer_request offer budget"
  have fields: "field ?body ''intentId'' = Some (JStr k)" "field ?body ''agentId'' = Some (JStr agentName)"
      "field ?body ''offerId'' = Some (JStr (df_offerId offer))" "field ?body ''offerReceiptDigest'' = Some (JStr (df_receiptDigest offer))"
      "field ?body ''amountMinor'' = Some (JNum (Integer (df_amountMinor offer)))" "field ?body ''currency'' = Some (JStr (df_currency offer))"
      "field ?body ''budgetMinor'' = budget" "field ?body ''checkoutId'' = None" "checkoutInputFieldsAllowed ?body True"
    using bound offer by (auto simp: offer_request_def checkoutInputFieldsAllowed_def PREPARE_FIELDS_def split: option.split)
  obtain found where found: "findDiscoveredOffer (Some (canonicalValue (receipt_json offers))) ?body = Some found" "found \<in> set offers"
    using stored_offer_found [OF normal bound offer fields(1-6)] by blast
  note same = find_offer_facts [OF found(1), unfolded fields]
  have "offered_input checkoutId found (field ?body ''budgetMinor'') = offered_input checkoutId offer budget"
    using same pin(2) found(2) offer bound by (simp add: offered_input_def fields)
  moreover have "is_num (field ?body ''amountMinor'') isSafeInteger"
    using bound offer by (auto simp: fields offer_ok_def)
  ultimately show ?thesis
    using agent pin found exact_offered [OF found(1), of checkoutId]
    by (auto simp: checkout_body_def validateCheckoutPreparation_def fields(1-6,8,9) receipt list_ex_iff)
qed

text \<open>
  C32. An offer that an agent made can be bought: when a route object, as every run leaves it (\<open>route_run_ok\<close>), tells that an agent completed its intent,
  it tells a receipt of at least one offer, and as long as the agent is active and the offers are of the pinned
  revision, a request that repeats the terms of any of them is passed on to the checkout's session.
\<close>

theorem accepted_offer_prepared:
  assumes "route_ok (routes k)" "routed_receipt (routes k) k agentName = Some receipt"
    and "r \<in> set (allStored date_parse (fn_data registry))" "rg_agentId r = agentName" "rg_registrationState r = Registered_active"
      "rg_admissionVerified r"
    and "readUpstreamEvidencePin pinJson = Some pin"
  shows "\<exists>offers. offers \<noteq> [] \<and> receipt = Some (canonicalValue (receipt_json offers))
    \<and> (\<forall>offer \<in> set offers. (\<forall>r \<in> set offers. df_providerRevision r = ep_sourceRevision pin) \<longrightarrow>
         checkout_body date_parse pinJson routes registry checkoutId True (offer_request offer budget)
           = Session_prepare (offered_input checkoutId offer budget))"
proof -
  obtain i offers where i: "bound_offers i agentName offers" "ri_intentId (di_intent i) = k" "receipt = Some (canonicalValue (receipt_json offers))"
    using receipt_offers [OF assms(1,2)] by blast
  moreover have "offers \<noteq> []" using i(1) by (simp add: bound_offers_def)
  ultimately show ?thesis
    using offer_prepared [where routes = routes and k = k, OF assms(2) [unfolded i(3)] i(1,2) assms(3-7)] by blast
qed

section \<open>Witnesses\<close>

definition bought_offer :: discovery_offer where
  "bought_offer = sample_offer ''intent-1'' (intent_digest Intent_Route.sample_input) ''agent-1''"

definition bought_object :: route_object where
  "bought_object = \<lparr>ro_row = Some ((opened_row Intent_Route.sample_input ''t0'')\<lparr>sd_state := Dispatch_completed,
       sd_response_json := Some (canonicalJson (receipt_json [bought_offer])),
       sd_attempts_json := Some (attempts_text [\<lparr>at_agentId = ''agent-1'', at_role = Selected_role, at_outcome = Attempt_completed,
         at_startedAt = ''t0'', at_completedAt = ''t1''\<rparr>]), sd_completed_at := Some ''t1''\<rparr>),
     ro_running = [], ro_asked = [(Selected_role, di_agent Intent_Route.sample_input)]\<rparr>"

definition bought_routes :: "string \<Rightarrow> route_object" where
  "bought_routes k = (if k = ''intent-1'' then bought_object else new_object)"

definition bought_request :: request where
  "bought_request = \<lparr>rq_method = ''POST'', rq_url = ''https://commerce.example/internal/v1/checkouts/chk-1/prepare'',
     rq_headers = [(''content-type'', ''application/json'')],
     rq_body = Some \<lparr>bd_chunks = [1000], bd_text = json_text (offer_request bought_offer (Some (JNum (Integer 5000)))), bd_valid = True\<rparr>\<rparr>"

abbreviation bought_pin :: string where
  "bought_pin \<equiv> canonicalJson (JObj (pin_json sample_pin))"

lemma bought_fields: "df_intentId bought_offer = ''intent-1''" "df_agentId bought_offer = ''agent-1''"
  "df_providerRevision bought_offer = ep_sourceRevision sample_pin" "df_intentDigest bought_offer = intent_digest Intent_Route.sample_input"
  by (simp_all add: bought_offer_def sample_offer_def sample_pin_def Let_def)

lemma bought_bound: "bound_offers Intent_Route.sample_input ''agent-1'' [bought_offer]"
  using sample_offer_ok by (simp add: bound_offers_def bought_fields) (simp add: bought_offer_def Intent_Route.sample_input_def)

lemma bought_agent: "Intent_Route.agent_id (di_agent Intent_Route.sample_input) = ''agent-1''"
  by (simp add: Intent_Route.agent_id_def Intent_Route.sample_input_def text_of_def)

lemma bought_route_ok: "route_ok (bought_routes k)"
proof (cases "k = ''intent-1''")
  case True
  let ?attempts = "[\<lparr>at_agentId = ''agent-1'', at_role = Selected_role, at_outcome = Attempt_completed,
         at_startedAt = ''t0'', at_completedAt = ''t1''\<rparr>]"
  have "attempts_match (ro_asked bought_object) ?attempts" by (simp add: attempts_match_def bought_object_def bought_agent)
  then show ?thesis
    using True bought_bound
    by (auto simp: bought_routes_def route_ok_def bought_object_def opened_row_def asked_for_def finished_row_def bought_agent
        intro!: exI [of _ Intent_Route.sample_input] exI [of _ ?attempts] exI [of _ "[bought_offer]"])
qed (simp add: bought_routes_def new_object_def route_ok_def)

lemma bought_receipt: "routed_receipt (bought_routes ''intent-1'') ''intent-1'' ''agent-1''
    = Some (Some (canonicalValue (receipt_json [bought_offer])))"
proof -
  have "canonicalJson (receipt_json [bought_offer]) \<noteq> ''''" by (rule record_text_nonempty) (simp add: receipt_json_def)
  then show ?thesis
    by (simp add: routed_receipt_def route_status_def bought_routes_def bought_object_def opened_row_def bought_agent parse_column_canonicalJson)
      (simp add: Intent_Route.sample_input_def)
qed

theorem accepted_offer_prepared_witness:
  "\<exists>offers. offers \<noteq> [] \<and> routed_receipt (bought_routes ''intent-1'') ''intent-1'' ''agent-1'' = Some (Some (canonicalValue (receipt_json offers)))"
  using accepted_offer_prepared [where routes = bought_routes and k = "''intent-1''", OF bought_route_ok bought_receipt, of sample_record sample_dates sample_first bought_pin sample_pin]
    sample_stored sample_gate(1) bought_receipt by auto

lemma bought_prepared: "checkout sample_dates bought_pin bought_routes (rw_store sample_world) bought_request ''chk-1'' ''prepare''
    = Session_prepare (offered_input ''chk-1'' bought_offer (Some (JNum (Integer 5000))))"
proof -
  let ?body = "offer_request bought_offer (Some (JNum (Integer 5000)))"
  have r: "isRecord ?body" "\<not> isHttpFailure ?body" by (simp_all add: offer_request_def isHttpFailure_def)
  have st: "storable ?body" by (simp add: offer_request_def storable_JObj)
  have "media_type (headers_get (rq_headers bought_request) ''content-type'') = ''application/json''"
    "headers_get (rq_headers bought_request) ''content-length'' = None"
    by (simp_all add: bought_request_def) code_simp+
  then have read: "readJsonObject (rq_headers bought_request) (rq_body bought_request) MAX_REQUEST_BYTES = Inr ?body"
    using json_parse_text [OF st] r
    by (simp add: readJsonObject_def declared_length_ok_def readBoundedBytes_def read_chunks_iff MAX_REQUEST_BYTES_def)
      (simp add: bought_request_def parse_fatal_def)
  have "checkout_body sample_dates bought_pin bought_routes sample_first ''chk-1'' True ?body
      = Session_prepare (offered_input ''chk-1'' bought_offer (Some (JNum (Integer 5000))))"
    by (rule offer_prepared [where routes = bought_routes and k = "''intent-1''", OF bought_receipt bought_bound,
        of sample_record sample_dates sample_first bought_pin sample_pin])
      (use sample_stored sample_gate(1) bought_fields in \<open>simp_all add: Intent_Route.sample_input_def\<close>)
  moreover have "IDENTIFIER_PATTERN ''chk-1''" by code_simp
  ultimately show ?thesis by (simp add: checkout_def read r sample_world_def) (simp add: bought_request_def)
qed


end
