(* ===== verification/Spec2Isabelle.thy ===== *)
theory Spec2Isabelle imports Js_Vectors Checkout_Claims Authoring_Operator Sync_Merge Intent_Route Catalog_Claims Registration_Claims Core_Checkout begin

text \<open>
  Verification library of the commerce control plane (the Cloudflare Workers core under
  \<open>src/src/core\<close>, with the shared code it uses under \<open>src/src/shared\<close>).

  The program keeps its state in durable objects, each a single-threaded actor over a private SQL
  database. A shopper's checkout is one \<open>CheckoutSession\<close> object: it asks a guardrail provider to
  approve the terms, waits for a human confirmation that is bound by digests to exactly those terms
  and to the changes of the offer that were observed meanwhile, calls the settlement provider once,
  stores its receipt, and records the fee in the \<open>RevenueLedger\<close> object through an outbox that an
  alarm retries.

  Theories and the code they model.

  \<^item> \<open>Js_Prelude\<close>: JavaScript numbers and JSON values, the regular expression classes of the code,
    sorting lemmas. \<open>Js_Json\<close>: \<open>canonicalJson\<close> of \<open>shared/digest.ts\<close>, \<open>JSON.stringify\<close> and
    \<open>JSON.parse\<close> (fuel: the length of the text, proved enough for every stored value).
    \<open>Js_Digest\<close>: SHA-256, \<open>sha256Hex\<close>, \<open>constantTimeTextMatch\<close>, \<open>toISOString\<close>; \<open>Js_Vectors\<close> checks it
    on a published test vector. \<open>Js_Sql\<close>: the statements of the SQL tables as list functions.
  \<^item> \<open>Take_Rate\<close>: \<open>core/take-rate.ts\<close>. \<open>Revenue_Ledger\<close>: \<open>core/revenue-ledger.ts\<close>; the locale
    \<open>settlement_ledger\<close> is the contract the outbox relies on.
  \<^item> \<open>Checkout_Receipts\<close>: \<open>core/checkout-receipts.ts\<close>. \<open>Checkout_State\<close>: \<open>core/checkout-state.ts\<close> and
    \<open>checkout-input.ts\<close>. \<open>Checkout_Markup\<close>: \<open>core/checkout-markup.ts\<close> (three attempts, as in the
    code). \<open>Offer_Watch\<close>: \<open>core/offer-watch.ts\<close>.
  \<^item> \<open>Checkout_Session\<close>: \<open>core/checkout-session.ts\<close> and \<open>checkout-provider-client.ts\<close>, one definition
    per method, over a record of the object's row, events, alarm and the calls it made.
    \<open>Checkout_Steps\<close>: the step relation \<open>session_tx\<close>, one rule per transaction with its guard; every
    handler run is a sequence of steps. \<open>Checkout_Invariants\<close>: the invariant \<open>session_ok\<close>.
    \<open>Checkout_Properties\<close>, \<open>Checkout_Claims\<close>: what follows.

  Operators change the registry, merchant themes and vendors under a claim: the \<open>AuthoringClaim\<close>
  object grants leased claims on write targets and reserves one mutation per scope; the permit it
  issues travels to the mutated object, whose fence executes every permit at most once and refuses
  permits that a later one has overtaken.

  \<^item> \<open>Js_Canonical\<close>: what two values with the same canonical JSON have in common.
    \<open>Authoring_Policy\<close>: \<open>domain/authoring-claim-policy.ts\<close>. \<open>Authoring_Claim\<close>:
    \<open>core/authoring-claim.ts\<close>, the five tables and one definition per method.
    \<open>Authoring_Invariants\<close>: the histories of the coordinator (\<open>authoring_run\<close>; its flag says whether
    mutations are begun under unreleased claims only) and the invariant of its tables.
    \<open>Authoring_Fence\<close>: \<open>core/authoring-mutation-fence.ts\<close>; the locale \<open>exactly_once\<close> is the contract
    of a receiver that keeps its answers. \<open>Authoring_Claims\<close>: exclusion, the begin and complete
    protocol, and that a fresh permit passes the fence.

  \<^item> \<open>Js_Order\<close>: consistent comparison functions. \<open>Sync_Merge\<close>: \<open>core/sync-merge.ts\<close>, the merge of
    the changes that devices recorded apart; replicas converge and the last writer of a field wins.

  A shopper's intent is served by one agent of its category. The router chooses it among the
  registered agents that are active and admitted, by a weighted score of what they declare; the
  \<open>IntentRoute\<close> object of the intent asks that agent for offers, its fallback after a timeout, and keeps
  the outcome. No provider is asked before its runtime evidence was accepted, and requests and
  responses are bound to that evidence by digests.

  \<^item> \<open>Js_Double\<close>: the doubles that scores are computed in. \<open>Selection_Policy\<close>:
    \<open>domain/selection-policy.ts\<close>; the selected agent is a best one. \<open>Exclusive_Router\<close>:
    \<open>domain/exclusive-category-router.ts\<close>; a dispatch is authorised, and when there is one.
  \<^item> \<open>Js_Http\<close>: \<open>shared/http.ts\<close>, bodies of bounded size. \<open>Provider_Auth\<close>:
    \<open>shared/commerce-provider-auth.ts\<close>, HMAC signatures. \<open>Convergence\<close>: \<open>core/upstream-evidence.ts\<close> and
    \<open>convergence-evaluator.ts\<close>; which evidence is accepted. \<open>Provider_Gate\<close>:
    \<open>core/provider-operation-gate.ts\<close>; the gate, and that a bound request is recognised by its receiver.
    \<open>Mcp_Provider\<close>: \<open>core/mcp-provider.ts\<close>; the protocol of a tool call. A provider is a function from
    requests to responses, a network one from the requests sent so far; timeouts are part of them.
  \<^item> \<open>Discovery_Receipt\<close>: \<open>core/discovery-receipt.ts\<close>. \<open>Intent_Route\<close>: \<open>core/intent-route.ts\<close>, one definition
    per method, \<open>dispatch\<close> both as the code writes it and split where it waits; \<open>route_step\<close> interleaves
    requests, answers and evictions.

  Agents come into the registry through the operator: their tools are run once in a sandbox, the agent
  runtime is asked to admit them under a permit that is derived from the operator's, and the
  \<open>AgentRegistry\<close> object stores what was admitted together with the receipt, checks it again at every read
  and routes intents over it.

  \<^item> \<open>Acos_Identity\<close>: \<open>core/acos-deployment-identity.ts\<close> and \<open>shared/acos-admission-auth.ts\<close>, pins,
    identities and request signatures. \<open>Acos_Admission\<close>: \<open>core/acos-admission.ts\<close>, permits, receipts and
    the exchange with the runtime. \<open>Acos_Admission_Claims\<close>: what a granted admission is worth, and when a
    refused one releases the reservation. \<open>Sandbox_Registration\<close>: \<open>core/sandbox-registration.ts\<close>.
  \<^item> \<open>Registry_Record\<close>: \<open>core/agent-registry-record.ts\<close>. \<open>Agent_Registry\<close>: \<open>core/agent-registry.ts\<close>, one
    definition per method, with registering, deregistering and routing also split where they wait.
    \<open>Registry_History\<close>: \<open>registry_step\<close> interleaves the halves of any number of calls; its invariant.
    \<open>Registry_Samples\<close>, \<open>Registry_Claims\<close>: what follows, and that interleaved registrations lose updates.
  \<^item> \<open>Registration_Action\<close>: \<open>registerAgent\<close> of \<open>core/core-actions.ts\<close> and \<open>registration-reconciliation.ts\<close>,
    the whole run over coordinator, runtime and registry; every call may be lost or lose its answer
    (\<open>core_fates\<close>). \<open>Registration_Claims\<close>: nothing is written without admission, and the reservation
    outlasts every outcome that is not final.
  \<^item> \<open>Core_Routing\<close>: \<open>core/merchant-catalog.ts\<close> and \<open>routeIntent\<close> of \<open>core-actions.ts\<close>, with other calls
    between its readings of the registry; the theme store, the configured proof and the selection policy are
    arguments. \<open>Core_Routing_Claims\<close>: where an intent may be sent, and what makes a route drift.
  \<^item> \<open>Core_Checkout\<close>: \<open>checkout\<close> of \<open>core-actions.ts\<close> with the rest of \<open>checkout-input.ts\<close>, from the request to the
    call of the session; a preparation repeats an offer that the intent's route object accepted.
  \<^item> \<open>Public_Catalog\<close>: \<open>core/public-catalog.ts\<close>. \<open>Catalog_Claims\<close>: what the catalog shows of the registry,
    and which artifacts are accepted.

  What is an argument of the model: the clock (one reading when a run starts, one after its provider
  call), the replies of the providers, whether the alarm can be set, whether the transactions of the
  finalization commit, the mutation of a fenced object, the tokens that \<open>crypto.randomUUID\<close> returns,
  \<open>Date.parse\<close> (\<open>date_parser\<close>, None for NaN). A promise that times out is a
  delivery that was lost or a reply that threw. \<open>updated_at\<close> columns, which no code reads, are left
  out.

  What is not modelled: the deployment of merchant themes and the client of the marketplace provider (URLs and
  fetched assets), the readiness report, the dispatch of requests by path, HTTP parsing and serving, the browser
  code, the release scripts; the manifest lists every part. Texts are lists of 8-bit characters and stored
  JSON numbers are integers.
\<close>

end
